(* ===== verification/Prelude.thy ===== *)
theory Prelude
  imports Main "HOL-Library.Word" "HOL-Library.Char_ord" "HOL-Library.List_Lexorder"
    "HOL-Library.Product_Lexorder" "HOL-Library.AList" "HOL-Library.Multiset"
begin

text \<open>
  Shared vocabulary of the development.

  \<^item> Every stable error-code enumeration of the API packages, and the type \<open>exn\<close> of
    the exceptions the sources raise (messages are not modelled, exception classes and their
    codes are).
  \<^item> \<open>'a res\<close>, the outcome of a Python call: \<open>Inl\<close> an exception or \<open>Inr\<close> a value.
    \<open>bindR\<close> sequences two calls, \<open>require\<close> is a guard that raises, \<open>catchR\<close> is
    \<^verbatim>\<open>try/except ... raise ... from error\<close>.
  \<^item> The integer ranges the sources validate (signed and unsigned 64 bit).
  \<^item> Generic lemmas on lists and association lists the components share.
\<close>

section \<open>Error codes and exceptions\<close>

datatype session_code =
    SE_SESSION_EXISTS | SE_SESSION_NOT_FOUND | SE_PRINCIPAL_MISMATCH | SE_VERSION_CONFLICT
  | SE_INVALID_TRANSITION | SE_SETUP_INELIGIBLE | SE_MANIFEST_INELIGIBLE
  | SE_RULESET_FIDELITY_UNSUPPORTED | SE_RULESET_CONFLICT | SE_ADVANCE_OUT_OF_RANGE
  | SE_INVALID_FORK_TARGET | SE_INVALID_VALUE

datatype command_code =
    CE_INVALID_COMMAND | CE_SESSION_NOT_FOUND | CE_PRINCIPAL_MISMATCH | CE_SESSION_NOT_RUNNING
  | CE_VERSION_CONFLICT | CE_IDEMPOTENCY_CONFLICT | CE_COMMAND_NOT_FOUND | CE_QUOTE_UNAVAILABLE
  | CE_DATABASE_CONFLICT

datatype replay_code =
    RE_SESSION_NOT_RUNNING | RE_SESSION_NOT_COMMITTED | RE_TARGET_OUT_OF_RANGE
  | RE_SOURCE_SEQUENCE | RE_SOURCE_TIME | RE_SIMULATOR_VERSION | RE_SIMULATOR_HASH
  | RE_SNAPSHOT_CONFLICT | RE_SNAPSHOT_CORRUPT

datatype market_code =
    ME_SESSION_UNAVAILABLE | ME_SESSION_NOT_COMMITTED | ME_INVALID_QUERY
  | ME_UNSUPPORTED_INTERVAL | ME_SOURCE_ORDER

datatype result_code =
    XE_SESSION_UNAVAILABLE | XE_SESSION_NOT_COMPLETED | XE_INVALID_EVIDENCE
  | XE_PERSISTED_CONFLICT | XE_RESULT_CONFLICT | XE_RESULT_NOT_FOUND | XE_DATABASE_CONFLICT

datatype exn =
    ValueError | TypeError | KeyError | RuntimeError | AssertionError | IndexError
  | IntegrityError
  | SessionLifecycleError session_code
  | CommandServiceError command_code
  | ReplayError replay_code
  | MarketServiceError market_code
  | ResultServiceError result_code
  | EventStoreError | SessionNotFound | ConcurrentSessionVersion
  | IdempotencyConflict | EventChainConflict
  | ManifestHashConflict | UnknownManifest
  | CommitmentNotFound | CommitmentExists | CommitmentPrincipalMismatch
  | CommitmentStateError | CommitmentVerificationError
  | AuthenticationError | CredentialNotFound | InvalidTag
  | ContractError | BudgetExceeded | CacheCorruption | FileNotFoundError | OverflowError
  | PathRejected | ResourceLimitExceeded | SchemaRejected
  | TardisRequestError | TardisSchemaError | TardisIntegrityError
  | BinanceRequestError | BinanceIntegrityError | ArchiveRevisionDetected | BinanceSchemaError
  | CsvError | DecimalOverflow | OSError | EOFError | ZlibError | BadZipFile | NotImplementedError

text \<open>The exception classes the sources name in \<^verbatim>\<open>except\<close> clauses.\<close>

fun is_ValueError :: "exn \<Rightarrow> bool" where
  "is_ValueError ValueError = True"
| "is_ValueError ManifestHashConflict = True"
| "is_ValueError ContractError = True"
| "is_ValueError PathRejected = True"
| "is_ValueError ResourceLimitExceeded = True"
| "is_ValueError SchemaRejected = True"
| "is_ValueError TardisRequestError = True"
| "is_ValueError TardisSchemaError = True"
| "is_ValueError TardisIntegrityError = True"
| "is_ValueError BinanceRequestError = True"
| "is_ValueError BinanceIntegrityError = True"
| "is_ValueError ArchiveRevisionDetected = True"
| "is_ValueError BinanceSchemaError = True"
| "is_ValueError _ = False"

fun is_TypeError :: "exn \<Rightarrow> bool" where
  "is_TypeError TypeError = True"
| "is_TypeError _ = False"

fun is_IntegrityError :: "exn \<Rightarrow> bool" where
  "is_IntegrityError IntegrityError = True"
| "is_IntegrityError _ = False"

fun is_SessionLifecycleError :: "exn \<Rightarrow> bool" where
  "is_SessionLifecycleError (SessionLifecycleError _) = True"
| "is_SessionLifecycleError _ = False"

section \<open>Results\<close>

type_synonym 'a res = "exn + 'a"

definition bindR :: "'a res \<Rightarrow> ('a \<Rightarrow> 'b res) \<Rightarrow> 'b res" where
  "bindR m f = (case m of Inl e \<Rightarrow> Inl e | Inr x \<Rightarrow> f x)"

definition require :: "bool \<Rightarrow> exn \<Rightarrow> unit res" where
  "require b e = (if b then Inr () else Inl e)"

definition catchR :: "'a res \<Rightarrow> (exn \<Rightarrow> bool) \<Rightarrow> exn \<Rightarrow> 'a res" where
  "catchR m p e = (case m of Inl x \<Rightarrow> if p x then Inl e else Inl x | Inr a \<Rightarrow> Inr a)"

fun mapR :: "('a \<Rightarrow> 'b res) \<Rightarrow> 'a list \<Rightarrow> 'b list res" where
  "mapR f [] = Inr []"
| "mapR f (x # xs) = bindR (f x) (\<lambda>y. bindR (mapR f xs) (\<lambda>ys. Inr (y # ys)))"

fun foldR :: "('s \<Rightarrow> 'a \<Rightarrow> 's res) \<Rightarrow> 's \<Rightarrow> 'a list \<Rightarrow> 's res" where
  "foldR f s [] = Inr s"
| "foldR f s (x # xs) = bindR (f s x) (\<lambda>s'. foldR f s' xs)"

named_theorems res_simps \<open>evaluation and inversion of results\<close>

lemma bindR_simps [simp, res_simps]:
  "bindR (Inl e) f = Inl e"
  "bindR (Inr x) f = f x"
  by (simp_all add: bindR_def)

lemma bindR_eq_Inr [simp, res_simps]:
  "bindR m f = Inr y \<longleftrightarrow> (\<exists>x. m = Inr x \<and> f x = Inr y)"
  by (cases m) simp_all

lemma bindR_Inr_id [simp]: "bindR m Inr = m"
  by (cases m) simp_all

lemma case_option_Inr [res_simps]:
  "(case a of None \<Rightarrow> Inl e | Some x \<Rightarrow> f x) = Inr z \<longleftrightarrow> (\<exists>x. a = Some x \<and> f x = Inr z)"
  by (cases a) simp_all

lemma bindR_eq_Inl:
  "bindR m f = Inl e \<longleftrightarrow> m = Inl e \<or> (\<exists>x. m = Inr x \<and> f x = Inl e)"
  by (cases m) simp_all

lemma require_simps [simp, res_simps]:
  "require True e = Inr ()"
  "require False e = Inl e"
  "require b e = Inr u \<longleftrightarrow> b"
  "require b e = Inl e' \<longleftrightarrow> \<not> b \<and> e' = e"
  by (auto simp: require_def)

lemma catchR_simps [simp, res_simps]:
  "catchR (Inr a) p e = Inr a"
  "catchR (Inl x) p e = Inl (if p x then e else x)"
  "catchR m p e = Inr a \<longleftrightarrow> m = Inr a"
  by (auto simp: catchR_def split: sum.splits)

lemma mapR_eq_Inr:
  "mapR f xs = Inr ys \<longleftrightarrow> list_all2 (\<lambda>x y. f x = Inr y) xs ys"
  by (induction xs arbitrary: ys) (auto simp: list_all2_Cons1)

lemma mapR_map: "(\<And>x. x \<in> set xs \<Longrightarrow> f x = Inr (g x)) \<Longrightarrow> mapR f xs = Inr (map g xs)"
  by (induction xs) auto

lemma foldR_append: "foldR f s (xs @ ys) = bindR (foldR f s xs) (\<lambda>s'. foldR f s' ys)"
proof (induction xs arbitrary: s)
  case (Cons x xs)
  then show ?case by (cases "f s x") simp_all
qed simp

section \<open>Integer ranges\<close>

definition I64_MIN :: int where "I64_MIN = - (2 ^ 63)"
definition I64_MAX :: int where "I64_MAX = 2 ^ 63 - 1"
definition U64_MAX :: int where "U64_MAX = 2 ^ 64 - 1"

definition in_i64 :: "int \<Rightarrow> bool" where
  "in_i64 v \<longleftrightarrow> I64_MIN \<le> v \<and> v \<le> I64_MAX"

definition in_u64 :: "int \<Rightarrow> bool" where
  "in_u64 v \<longleftrightarrow> 0 \<le> v \<and> v \<le> U64_MAX"

lemmas range_defs = I64_MIN_def I64_MAX_def U64_MAX_def in_i64_def in_u64_def

section \<open>Write-once stores\<close>

text \<open>
  The contract that several stores of the program promise: a fact is kept under its key, an
  exact retry reports that nothing was inserted and changes nothing, and no accepted call
  ever replaces a recorded fact.
\<close>

locale write_once =
  fixes key :: "'v \<Rightarrow> 'k"
    and lookup :: "'s \<Rightarrow> 'k \<Rightarrow> 'v option"
    and put :: "'v \<Rightarrow> 's \<Rightarrow> (bool \<times> 's) res"
  assumes put_fresh: "put v s = Inr (b, s') \<Longrightarrow> lookup s (key v) = None \<Longrightarrow>
      b \<and> lookup s' = (lookup s)(key v \<mapsto> v)"
    and put_known: "put v s = Inr (b, s') \<Longrightarrow> lookup s (key v) = Some w \<Longrightarrow>
      w = v \<and> \<not> b \<and> s' = s"
    and put_retry: "lookup s (key v) = Some v \<Longrightarrow> put v s = Inr (False, s)"
begin

lemma put_stored: "put v s = Inr (b, s') \<Longrightarrow> lookup s' (key v) = Some v"
  by (cases "lookup s (key v)") (auto dest: put_fresh put_known)

lemma put_persists:
  assumes "put v s = Inr (b, s')" and "lookup s k = Some w"
  shows "lookup s' k = Some w"
proof (cases "lookup s (key v)")
  case None
  with assms put_fresh [OF assms(1)] show ?thesis by auto
next
  case Some
  with assms put_known [OF assms(1)] show ?thesis by auto
qed

lemma put_idempotent: "put v s = Inr (b, s') \<Longrightarrow> put v s' = Inr (False, s')"
  by (rule put_retry) (rule put_stored)

lemma put_conflict: "lookup s (key v) = Some w \<Longrightarrow> w \<noteq> v \<Longrightarrow> \<exists>e. put v s = Inl e"
  by (cases "put v s") (auto dest: put_known)

fun put_all :: "'v list \<Rightarrow> 's \<Rightarrow> 's res" where
  "put_all [] s = Inr s"
| "put_all (v # vs) s = bindR (put v s) (\<lambda>(b, s'). put_all vs s')"

lemma put_all_persists: "put_all vs s = Inr s' \<Longrightarrow> lookup s k = Some w \<Longrightarrow> lookup s' k = Some w"
  by (induction vs arbitrary: s) (auto dest: put_persists)

lemma put_all_stored: "put_all vs s = Inr s' \<Longrightarrow> v \<in> set vs \<Longrightarrow> lookup s' (key v) = Some v"
proof (induction vs arbitrary: s)
  case (Cons x vs)
  from Cons.prems(1) obtain b t where x: "put x s = Inr (b, t)" and vs: "put_all vs t = Inr s'"
    by auto
  show ?case
  proof (cases "v \<in> set vs")
    case True
    with Cons.IH vs show ?thesis by blast
  next
    case False
    with Cons.prems(2) have "v = x" by simp
    with put_all_persists [OF vs put_stored [OF x]] show ?thesis by simp
  qed
qed simp

lemma put_all_functional:
  "put_all vs s = Inr s' \<Longrightarrow> v \<in> set vs \<Longrightarrow> w \<in> set vs \<Longrightarrow> key v = key w \<Longrightarrow> v = w"
  by (metis option.inject put_all_stored)

end

section \<open>Lists and association lists\<close>

lemma map_of_update [simp]: "map_of (AList.update k v kvs) = (map_of kvs)(k \<mapsto> v)"
  by (simp add: update_conv')

lemma sort_key_mset:
  fixes f :: "'a \<Rightarrow> 'b :: linorder"
  assumes "inj f" and "mset xs = mset ys"
  shows "sort_key f xs = sort_key f ys"
proof -
  have "sort (map f ys) = map f (sort_key f zs)" if "mset zs = mset ys" for zs
    using that by (intro properties_for_sort) (simp_all add: sorted_sort_key)
  then have "map f (sort_key f xs) = map f (sort_key f ys)" using assms(2) by metis
  with assms(1) show ?thesis by (simp add: inj_map_eq_map)
qed

text \<open>Resuming a strictly increasing list after the last element of a page.\<close>

lemma resume_after_page:
  fixes f :: "'a \<Rightarrow> int"
  assumes "sorted_wrt (\<lambda>x y. f x < f y) xs" and "take n xs \<noteq> []"
  shows "filter (\<lambda>x. f (last (take n xs)) < f x) xs = drop n xs"
proof -
  let ?p = "take n xs" and ?q = "drop n xs"
  have split: "sorted_wrt (\<lambda>x y. f x < f y) (?p @ ?q)" using assms(1) by simp
  have "sorted_wrt (\<lambda>x y. f x < f y) ?p" using split unfolding sorted_wrt_append by blast
  then have "sorted_wrt (\<lambda>x y. f x < f y) (butlast ?p @ [last ?p])" using assms(2) by (metis append_butlast_last_id)
  then have "\<forall>x\<in>set (butlast ?p @ [last ?p]). \<not> f (last ?p) < f x" by (auto simp: sorted_wrt_append)
  then have "\<forall>x\<in>set ?p. \<not> f (last ?p) < f x" using assms(2) by (metis append_butlast_last_id)
  moreover have "\<forall>x\<in>set ?q. f (last ?p) < f x" using split last_in_set [OF assms(2)] by (simp only: sorted_wrt_append) blast
  ultimately have "filter (\<lambda>x. f (last ?p) < f x) (?p @ ?q) = ?q" by (simp add: filter_empty_conv del: append_take_drop_id)
  then show ?thesis by simp
qed

lemma sorted_list_of_set_append:
  fixes A B :: "int set"
  assumes "finite A" and "finite B" and "\<forall>a\<in>A. \<forall>b\<in>B. a < b"
  shows "sorted_list_of_set (A \<union> B) = sorted_list_of_set A @ sorted_list_of_set B"
proof (rule sorted_distinct_set_unique)
  show "sorted (sorted_list_of_set A @ sorted_list_of_set B)" using assms by (fastforce simp: sorted_append)
  show "distinct (sorted_list_of_set A @ sorted_list_of_set B)" using assms by fastforce
qed (use assms in auto)

text \<open>The items of a dictionary in key order.\<close>

lemma sort_items:
  fixes kvs :: "(int \<times> 'v) list"
  assumes "distinct (map fst kvs)"
  shows "sort_key fst kvs = map (\<lambda>k. (k, the (map_of kvs k))) (sorted_list_of_set (fst ` set kvs))"
proof -
  have "map fst (sort_key fst kvs) = sort (map fst kvs)"
    by (rule properties_for_sort [symmetric]) (simp_all add: sorted_sort_key)
  also have "\<dots> = sorted_list_of_set (fst ` set kvs)"
    using assms by (metis distinct_remdups_id list.set_map sorted_list_of_set_sort_remdups)
  finally have keys: "map fst (sort_key fst kvs) = sorted_list_of_set (fst ` set kvs)" .
  have "sort_key fst kvs = map (\<lambda>p. (fst p, the (map_of kvs (fst p)))) (sort_key fst kvs)"
    by (rule map_idI [symmetric]) (use assms in \<open>auto simp: map_of_is_SomeI\<close>)
  then show ?thesis unfolding keys [symmetric] map_map comp_def .
qed

end
