(* ===== verification/Text.thy ===== *)
theory Text
  imports Prelude
begin

text \<open>
  Python strings and decimal integers.

  A Python \<^verbatim>\<open>str\<close> is a \<open>string\<close>; a character is a code point below 256, and the
  character predicates below agree with Python's on that range (superscript digits are
  \<^verbatim>\<open>isdigit\<close> but not accepted by \<^verbatim>\<open>int\<close>, the no-break space is \<^verbatim>\<open>isspace\<close>).
  \<open>str_int\<close> is \<^verbatim>\<open>str\<close> on integers and \<open>py_int\<close> is \<^verbatim>\<open>int\<close> on
  text, with its white space, sign, underscores and its limit of 4300 digits.

  The locale \<open>canonical_decimal\<close> is the contract of every decimal-text validator of the
  sources: it accepts exactly the texts \<open>str_int n\<close> for \<open>n\<close> in a range. The components
  interpret it on their own parsers.
\<close>

section \<open>Characters\<close>

abbreviation ord :: "char \<Rightarrow> nat" where
  "ord c \<equiv> of_char c"

definition ascii_digit :: "char \<Rightarrow> bool" where
  "ascii_digit c \<longleftrightarrow> 48 \<le> ord c \<and> ord c \<le> 57"

definition isdigit_char :: "char \<Rightarrow> bool" where
  "isdigit_char c \<longleftrightarrow> ascii_digit c \<or> ord c = 178 \<or> ord c = 179 \<or> ord c = 185"

definition isspace_char :: "char \<Rightarrow> bool" where
  "isspace_char c \<longleftrightarrow> 9 \<le> ord c \<and> ord c \<le> 13 \<or> 28 \<le> ord c \<and> ord c \<le> 32
     \<or> ord c = 133 \<or> ord c = 160"

definition lower_char :: "char \<Rightarrow> char" where
  "lower_char c =
     (if 65 \<le> ord c \<and> ord c \<le> 90 \<or> 192 \<le> ord c \<and> ord c \<le> 222 \<and> ord c \<noteq> 215
      then char_of (ord c + 32) else c)"

definition isascii :: "string \<Rightarrow> bool" where
  "isascii s \<longleftrightarrow> list_all (\<lambda>c. ord c < 128) s"

definition isdigit :: "string \<Rightarrow> bool" where
  "isdigit s \<longleftrightarrow> s \<noteq> [] \<and> list_all isdigit_char s"

definition lower :: "string \<Rightarrow> string" where
  "lower s = map lower_char s"

definition strip :: "string \<Rightarrow> string" where
  "strip s = rev (dropWhile isspace_char (rev (dropWhile isspace_char s)))"

definition startswith :: "string \<Rightarrow> string \<Rightarrow> bool" where
  "startswith s p \<longleftrightarrow> take (length p) s = p"

lemma startswith_char [simp]:
  "startswith (c # s) [d] \<longleftrightarrow> c = d"
  "\<not> startswith [] [d]"
  by (auto simp: startswith_def)

text \<open>\<^verbatim>\<open>any(character in value for character in "\x00\r\n")\<close>\<close>

definition has_control :: "string \<Rightarrow> bool" where
  "has_control s \<longleftrightarrow> list_ex (\<lambda>c. ord c = 0 \<or> ord c = 13 \<or> ord c = 10) s"

text \<open>\<^verbatim>\<open>character not in "0123456789abcdef"\<close>\<close>

definition hex_char :: "char \<Rightarrow> bool" where
  "hex_char c \<longleftrightarrow> ascii_digit c \<or> 97 \<le> ord c \<and> ord c \<le> 102"

definition is_sha256_hex :: "string \<Rightarrow> bool" where
  "is_sha256_hex s \<longleftrightarrow> length s = 64 \<and> list_all hex_char s"

section \<open>Decimal text of integers\<close>

definition digit_char :: "nat \<Rightarrow> char" where
  "digit_char d = char_of (48 + d)"

fun dec :: "nat \<Rightarrow> string" where
  "dec n = (if n < 10 then [digit_char n] else dec (n div 10) @ [digit_char (n mod 10)])"

declare dec.simps [simp del]

definition str_int :: "int \<Rightarrow> string" where
  "str_int i = (if i < 0 then CHR ''-'' # dec (nat (- i)) else dec (nat i))"

definition digit_val :: "char \<Rightarrow> nat" where
  "digit_val c = ord c - 48"

definition dec_val :: "string \<Rightarrow> nat" where
  "dec_val s = foldl (\<lambda>v c. 10 * v + digit_val c) 0 s"

text \<open>A digit string as \<^verbatim>\<open>str\<close> prints it: ASCII digits with no superfluous zero.\<close>

definition canonical_digits :: "string \<Rightarrow> bool" where
  "canonical_digits s \<longleftrightarrow> s \<noteq> [] \<and> list_all ascii_digit s \<and> (hd s = CHR ''0'' \<longrightarrow> s = ''0'')"

text \<open>
  \<^verbatim>\<open>int(text)\<close>: surrounding white space, one sign, digits that may be grouped by
  single underscores; other text, and text of more than 4300 digits, raises \<open>ValueError\<close>.
\<close>

fun int_body :: "string \<Rightarrow> bool" where
  "int_body [] = False"
| "int_body [c] = ascii_digit c"
| "int_body (c # d # s) =
     (ascii_digit c \<and> (if d = CHR ''_'' then int_body s else int_body (d # s)))"

definition int_max_str_digits :: nat where
  "int_max_str_digits = 4300"

definition py_int :: "string \<Rightarrow> int res" where
  "py_int text =
     (let s = strip text;
          neg = startswith s ''-'';
          body = (if neg \<or> startswith s ''+'' then tl s else s);
          digits = filter (\<lambda>c. c \<noteq> CHR ''_'') body
      in if \<not> int_body body \<or> int_max_str_digits < length digits then Inl ValueError
         else Inr (if neg then - int (dec_val digits) else int (dec_val digits)))"

subsection \<open>Digits round trip\<close>

lemma ord_digit_char [simp]: "d < 10 \<Longrightarrow> ord (digit_char d) = 48 + d"
  by (simp add: digit_char_def)

lemma ascii_digit_digit_char [simp]: "d < 10 \<Longrightarrow> ascii_digit (digit_char d)"
  by (simp add: ascii_digit_def)

lemma digit_val_digit_char [simp]: "d < 10 \<Longrightarrow> digit_val (digit_char d) = d"
  by (simp add: digit_val_def)

lemma digit_char_digit_val [simp]: "ascii_digit c \<Longrightarrow> digit_char (digit_val c) = c"
  by (simp add: digit_char_def digit_val_def ascii_digit_def)

lemma digit_val_less [simp]: "ascii_digit c \<Longrightarrow> digit_val c < 10"
  by (auto simp: digit_val_def ascii_digit_def)

lemma dec_val_snoc [simp]: "dec_val (s @ [c]) = 10 * dec_val s + digit_val c"
  by (simp add: dec_val_def)

lemma dec_val_Nil [simp]: "dec_val [] = 0"
  by (simp add: dec_val_def)

lemma dec_not_Nil [simp]: "dec n \<noteq> []"
  by (subst dec.simps) simp

lemma dec_ascii: "list_all ascii_digit (dec n)"
proof (induction n rule: dec.induct)
  case (1 n)
  then show ?case by (cases "n < 10") (simp_all add: dec.simps [of n])
qed

lemma dec_val_dec [simp]: "dec_val (dec n) = n"
proof (induction n rule: dec.induct)
  case (1 n)
  then show ?case
    by (cases "n < 10") (simp_all add: dec.simps [of n] dec_val_def)
qed

lemma dec_hd_zero: "hd (dec n) = CHR ''0'' \<Longrightarrow> n = 0"
proof (induction n rule: dec.induct)
  case (1 n)
  show ?case
  proof (cases "n < 10")
    case True
    with "1.prems" have "ord (digit_char n) = 48" by (simp add: dec.simps [of n])
    with True show ?thesis by simp
  next
    case False
    with "1.prems" have "hd (dec (n div 10)) = CHR ''0''" by (simp add: dec.simps [of n])
    with "1.IH" False have "n div 10 = 0" by blast
    with False show ?thesis by simp
  qed
qed

lemma digit_char_0: "digit_char 0 = CHR ''0''"
  by code_simp

lemma dec_0 [simp]: "dec 0 = ''0''"
  by (simp add: dec.simps digit_char_0)

lemma dec_canonical [simp]: "canonical_digits (dec n)"
  using dec_hd_zero [of n] by (auto simp: canonical_digits_def dec_ascii)

lemma ascii_digit_zero: "ascii_digit c \<Longrightarrow> digit_val c = 0 \<Longrightarrow> c = CHR ''0''"
  by (metis digit_char_digit_val digit_char_0)

lemma dec_val_pos:
  "s \<noteq> [] \<Longrightarrow> list_all ascii_digit s \<Longrightarrow> hd s \<noteq> CHR ''0'' \<Longrightarrow> 0 < dec_val s"
proof (induction s rule: rev_induct)
  case (snoc c s)
  then show ?case
    by (cases "s = []") (auto dest: ascii_digit_zero simp: dec_val_def)
qed simp

lemma dec_dec_val: "canonical_digits s \<Longrightarrow> dec (dec_val s) = s"
proof (induction s rule: rev_induct)
  case (snoc c s)
  show ?case
  proof (cases "s = []")
    case True
    with snoc.prems show ?thesis
      by (simp add: canonical_digits_def dec.simps [of "digit_val c"] dec_val_def)
  next
    case False
    with snoc.prems have s: "canonical_digits s" and c: "ascii_digit c" and "hd s \<noteq> CHR ''0''"
      by (auto simp: canonical_digits_def)
    with False have pos: "0 < dec_val s"
      by (auto simp: canonical_digits_def intro: dec_val_pos)
    let ?n = "dec_val (s @ [c])"
    from pos c have "\<not> ?n < 10" and "?n div 10 = dec_val s" and "?n mod 10 = digit_val c"
      using digit_val_less [OF c] by auto
    then have "dec ?n = dec (dec_val s) @ [digit_char (digit_val c)]"
      by (subst dec.simps) simp
    with snoc.IH [OF s] c show ?thesis by simp
  qed
qed (simp add: canonical_digits_def)

lemma dec_inject [simp]: "dec m = dec n \<longleftrightarrow> m = n"
  by (metis dec_val_dec)

lemma canonical_digits_length: "canonical_digits s \<Longrightarrow> dec_val s < 10 ^ n \<Longrightarrow> 0 < n \<Longrightarrow> length s \<le> n"
proof (induction s arbitrary: n rule: rev_induct)
  case (snoc c s)
  show ?case
  proof (cases "s = []")
    case False
    with snoc.prems have s: "canonical_digits s" and "hd s \<noteq> CHR ''0''"
      by (auto simp: canonical_digits_def)
    with False have pos: "0 < dec_val s"
      by (auto simp: canonical_digits_def intro: dec_val_pos)
    with snoc.prems(2,3) have "1 < n" by (cases "n = 1") auto
    then obtain m where n: "n = Suc m" "0 < m" by (cases n) auto
    with snoc.prems(2) have "dec_val s < 10 ^ m" by simp
    with snoc.IH [OF s] n show ?thesis by simp
  qed (use snoc.prems in simp)
qed simp

subsection \<open>Signed text and \<^verbatim>\<open>int\<close>\<close>

lemma ascii_not_special:
  "ascii_digit c \<Longrightarrow> c \<noteq> CHR ''-''"
  "ascii_digit c \<Longrightarrow> c \<noteq> CHR ''+''"
  "ascii_digit c \<Longrightarrow> c \<noteq> CHR ''_''"
  "ascii_digit c \<Longrightarrow> \<not> isspace_char c"
  by (auto simp: ascii_digit_def isspace_char_def)

lemma int_body_digits: "s \<noteq> [] \<Longrightarrow> list_all ascii_digit s \<Longrightarrow> int_body s"
  by (induction s rule: int_body.induct) (auto dest: ascii_not_special)

lemma filter_digits: "list_all ascii_digit s \<Longrightarrow> filter (\<lambda>c. c \<noteq> CHR ''_'') s = s"
  by (induction s) (auto dest: ascii_not_special)

lemma strip_id:
  "s = [] \<or> \<not> isspace_char (hd s) \<and> \<not> isspace_char (last s) \<Longrightarrow> strip s = s"
proof -
  assume a: "s = [] \<or> \<not> isspace_char (hd s) \<and> \<not> isspace_char (last s)"
  have "dropWhile isspace_char s = s" using a by (cases s) auto
  moreover have "dropWhile isspace_char (rev s) = rev s"
    using a by (cases s rule: rev_cases) auto
  ultimately show ?thesis by (simp add: strip_def)
qed

lemma hd_last_digits:
  assumes "s \<noteq> []" and "list_all ascii_digit s"
  shows "ascii_digit (hd s)" and "ascii_digit (last s)"
  using assms by (auto simp: list_all_iff)

lemma startswith_hd: "s \<noteq> [] \<Longrightarrow> startswith s [c] \<longleftrightarrow> hd s = c"
  by (cases s) auto

lemma py_int_digits:
  assumes "s \<noteq> []" and "list_all ascii_digit s"
  shows "py_int s = (if length s \<le> int_max_str_digits then Inr (int (dec_val s)) else Inl ValueError)"
proof -
  have "strip s = s"
    by (rule strip_id) (use hd_last_digits [OF assms] in \<open>auto dest: ascii_not_special\<close>)
  moreover have "\<not> startswith s ''-''" and "\<not> startswith s ''+''"
    using hd_last_digits(1) [OF assms] assms(1) by (auto simp: startswith_hd dest: ascii_not_special)
  ultimately show ?thesis
    using int_body_digits [OF assms] filter_digits [OF assms(2)] by (simp add: py_int_def)
qed

lemma minus_not_space: "\<not> isspace_char CHR ''-''"
  by (simp add: isspace_char_def)

lemma py_int_minus:
  assumes "s \<noteq> []" and "list_all ascii_digit s"
  shows "py_int (CHR ''-'' # s) =
    (if length s \<le> int_max_str_digits then Inr (- int (dec_val s)) else Inl ValueError)"
proof -
  have "strip (CHR ''-'' # s) = CHR ''-'' # s"
    by (rule strip_id)
      (use hd_last_digits [OF assms] assms(1) in \<open>auto simp: minus_not_space dest: ascii_not_special\<close>)
  then show ?thesis
    using int_body_digits [OF assms] filter_digits [OF assms(2)] by (simp add: py_int_def)
qed

text \<open>Digits in Python's sense that are not ASCII are refused by \<^verbatim>\<open>int\<close>.\<close>

lemma int_body_set: "int_body s \<Longrightarrow> c \<in> set s \<Longrightarrow> ascii_digit c \<or> c = CHR ''_''"
  by (induction s rule: int_body.induct) (auto split: if_splits)

lemma isdigit_chars:
  "isdigit_char c \<Longrightarrow> c \<noteq> CHR ''_'' \<and> c \<noteq> CHR ''-'' \<and> c \<noteq> CHR ''+'' \<and> \<not> isspace_char c"
  by (auto simp: isdigit_char_def ascii_digit_def isspace_char_def)

lemma isdigit_hd_last: "isdigit s \<Longrightarrow> isdigit_char (hd s) \<and> isdigit_char (last s)"
  by (simp add: isdigit_def list_all_iff)

lemma isdigit_int_body_ascii:
  assumes "isdigit s" and "int_body s"
  shows "list_all ascii_digit s"
  unfolding list_all_iff
proof
  fix c assume c: "c \<in> set s"
  with assms(1) have "isdigit_char c" by (simp add: isdigit_def list_all_iff)
  then have "c \<noteq> CHR ''_''" by (simp add: isdigit_chars)
  with int_body_set [OF assms(2) c] show "ascii_digit c" by simp
qed

lemma py_int_isdigit_ascii:
  assumes "isdigit s" and "py_int s = Inr n"
  shows "list_all ascii_digit s"
proof -
  have hl: "isdigit_char (hd s)" "isdigit_char (last s)" "s \<noteq> []"
    using assms(1) isdigit_hd_last [of s] by (auto simp: isdigit_def)
  then have "strip s = s" using isdigit_chars by (intro strip_id) blast
  moreover have "\<not> startswith s ''-''" and "\<not> startswith s ''+''"
    using isdigit_chars [OF hl(1)] hl(3) by (simp_all add: startswith_hd)
  ultimately have "int_body s"
    using assms(2) by (simp add: py_int_def Let_def split: if_splits)
  with assms(1) show ?thesis by (rule isdigit_int_body_ascii)
qed

lemma py_int_minus_isdigit_ascii:
  assumes "isdigit s" and "py_int (CHR ''-'' # s) = Inr n"
  shows "list_all ascii_digit s"
proof -
  have "isdigit_char (last s)" "s \<noteq> []"
    using assms(1) isdigit_hd_last [of s] by (auto simp: isdigit_def)
  then have "strip (CHR ''-'' # s) = CHR ''-'' # s"
    using isdigit_chars minus_not_space by (intro strip_id) simp
  then have "int_body s"
    using assms(2) by (simp add: py_int_def Let_def split: if_splits)
  with assms(1) show ?thesis by (rule isdigit_int_body_ascii)
qed

lemma isdigit_ascii: "s \<noteq> [] \<Longrightarrow> list_all ascii_digit s \<Longrightarrow> isdigit s"
  by (auto simp: isdigit_def isdigit_char_def list_all_iff)

lemma isascii_isdigit: "isascii s \<and> isdigit s \<longleftrightarrow> s \<noteq> [] \<and> list_all ascii_digit s"
proof -
  have "ord c < 128 \<and> isdigit_char c \<longleftrightarrow> ascii_digit c" for c
    by (auto simp: isdigit_char_def ascii_digit_def)
  then show ?thesis by (auto simp: isascii_def isdigit_def list_all_iff)
qed

lemma isdigit_dec [simp]: "isdigit (dec n)" and isascii_dec [simp]: "isascii (dec n)"
  using isascii_isdigit [of "dec n"] by (auto simp: dec_ascii)

lemma hd_dec: "hd (dec n) \<noteq> CHR ''-''" "hd (dec n) \<noteq> CHR ''+''"
  using hd_last_digits(1) [OF dec_not_Nil dec_ascii] by (auto dest: ascii_not_special)

lemma startswith_dec [simp]:
  "\<not> startswith (dec n) ''-''" "\<not> startswith (dec n) ''+''"
  "startswith (dec n) ''0'' \<longleftrightarrow> n = 0"
  using hd_dec [of n] dec_hd_zero [of n] by (auto simp: startswith_hd)

lemma dec_neq_minus [simp]: "dec n \<noteq> CHR ''-'' # s"
  using hd_dec [of n] by auto

lemma dec_eq_zero [simp]: "dec n = ''0'' \<longleftrightarrow> n = 0"
  using dec_inject [of n 0] by (simp del: dec_inject)

lemma str_int_not_Nil [simp]: "str_int i \<noteq> []"
  by (simp add: str_int_def)

lemma str_int_inject [simp]: "str_int i = str_int j \<longleftrightarrow> i = j"
  by (auto simp: str_int_def dest: sym [of "CHR ''-'' # _" "dec _"])

lemma length_dec_le: "n < 10 ^ k \<Longrightarrow> 0 < k \<Longrightarrow> length (dec n) \<le> k"
  by (rule canonical_digits_length) simp_all

lemma py_int_dec: "n < 10 ^ 20 \<Longrightarrow> py_int (dec n) = Inr (int n)"
  using length_dec_le [of n 20] by (simp add: py_int_digits dec_ascii int_max_str_digits_def)

lemma py_int_minus_dec: "n < 10 ^ 20 \<Longrightarrow> py_int (CHR ''-'' # dec n) = Inr (- int n)"
  using length_dec_le [of n 20] by (simp add: py_int_minus dec_ascii int_max_str_digits_def)

text \<open>The texts \<open>str_int\<close> prints, recognised by their characters.\<close>

definition signed_canonical :: "string \<Rightarrow> bool" where
  "signed_canonical s \<longleftrightarrow>
     (if startswith s ''-'' then canonical_digits (tl s) \<and> tl s \<noteq> ''0'' else canonical_digits s)"

lemma dec_val_zero: "canonical_digits s \<Longrightarrow> dec_val s = 0 \<Longrightarrow> s = ''0''"
  using dec_dec_val [of s] by simp

lemma signed_canonical_str [simp]: "signed_canonical (str_int n)"
  by (auto simp: signed_canonical_def str_int_def)

lemma py_int_signed:
  assumes "signed_canonical s" and "py_int s = Inr n"
  shows "s = str_int n"
proof (cases "startswith s ''-''")
  case True
  then obtain d where s: "s = CHR ''-'' # d" by (cases s) auto
  with assms(1) have d: "canonical_digits d" "d \<noteq> ''0''" by (auto simp: signed_canonical_def)
  then have "0 < dec_val d" using dec_val_zero by blast
  moreover from d(1) assms(2) have "n = - int (dec_val d)"
    by (auto simp: s py_int_minus canonical_digits_def split: if_splits)
  ultimately show ?thesis using dec_dec_val [OF d(1)] by (simp add: str_int_def s)
next
  case False
  with assms(1) have d: "canonical_digits s" by (simp add: signed_canonical_def)
  with assms(2) have "n = int (dec_val s)"
    by (auto simp: py_int_digits canonical_digits_def split: if_splits)
  with dec_dec_val [OF d] show ?thesis by (simp add: str_int_def)
qed

lemma py_int_str: "\<bar>n\<bar> < 10 ^ 20 \<Longrightarrow> py_int (str_int n) = Inr n"
  using py_int_dec [of "nat n"] py_int_minus_dec [of "nat (- n)"]
  by (auto simp: str_int_def nat_less_iff)

lemma py_int_str_i64: "in_i64 n \<Longrightarrow> py_int (str_int n) = Inr n"
  and py_int_str_u64: "in_u64 n \<Longrightarrow> py_int (str_int n) = Inr n"
  by (rule py_int_str, auto simp: range_defs abs_if)+

text \<open>
  Python's \<^verbatim>\<open>isdigit\<close> lets a few characters through that \<^verbatim>\<open>int\<close>
  then refuses; a text that passes both and has no superfluous zero is canonical.
\<close>

lemma canonical_from_isdigit:
  assumes "isdigit s" and "py_int s = Inr n" and "startswith s ''0'' \<longrightarrow> s = ''0''"
  shows "signed_canonical s"
proof -
  have ne: "s \<noteq> []" and a: "list_all ascii_digit s"
    using assms(1,2) py_int_isdigit_ascii by (auto simp: isdigit_def)
  moreover have "\<not> startswith s ''-''"
    using hd_last_digits(1) [OF ne a] ne by (auto simp: startswith_hd dest: ascii_not_special)
  ultimately show ?thesis
    using assms(3) by (auto simp: signed_canonical_def canonical_digits_def startswith_hd)
qed

lemma canonical_from_minus_isdigit:
  assumes "isdigit s" and "py_int (CHR ''-'' # s) = Inr n" and "\<not> startswith s ''0''"
  shows "signed_canonical (CHR ''-'' # s)"
proof -
  have "s \<noteq> []" and "list_all ascii_digit s"
    using assms(1,2) py_int_minus_isdigit_ascii by (auto simp: isdigit_def)
  with assms(3) show ?thesis
    by (auto simp: signed_canonical_def canonical_digits_def startswith_hd)
qed

section \<open>The contract of the decimal validators\<close>

locale canonical_decimal =
  fixes parse :: "string \<Rightarrow> 'e + int" and lo hi :: int
  assumes parse_str: "lo \<le> n \<Longrightarrow> n \<le> hi \<Longrightarrow> parse (str_int n) = Inr n"
    and parse_sound: "parse s = Inr n \<Longrightarrow> s = str_int n \<and> lo \<le> n \<and> n \<le> hi"
begin

lemma parse_iff: "parse s = Inr n \<longleftrightarrow> s = str_int n \<and> lo \<le> n \<and> n \<le> hi"
  using parse_str parse_sound by blast

lemma parse_inj: "parse s = Inr n \<Longrightarrow> parse t = Inr n \<Longrightarrow> s = t"
  by (simp add: parse_iff)

lemma accepted_texts: "{s. \<exists>n. parse s = Inr n} = str_int ` {lo..hi}"
  by (auto simp: parse_iff)

end

end
