(* ===== verification/Bytes.thy ===== *)
theory Bytes
  imports Text
begin

text \<open>
  Byte strings: \<^verbatim>\<open>int.to_bytes\<close> and \<^verbatim>\<open>int.from_bytes\<close> (big endian),
  \<^verbatim>\<open>bytes.hex\<close>, \<^verbatim>\<open>bytes.fromhex\<close> and \<^verbatim>\<open>str.encode("utf-8")\<close> on the
  characters of the model.

  The locale \<open>prefix_code\<close> is the contract of every field encoder of the canonical byte
  formats: a value's encoding is never a proper prefix of another value's, so a concatenation
  of fields can be read back in one way only. The encoders of the commitment and the result
  formats interpret it.
\<close>

type_synonym byte = "8 word"
type_synonym bytes = "byte list"

section \<open>Big-endian integers\<close>

fun to_bytes :: "nat \<Rightarrow> nat \<Rightarrow> bytes" where
  "to_bytes 0 v = []"
| "to_bytes (Suc n) v = to_bytes n (v div 256) @ [of_nat (v mod 256)]"

definition from_bytes :: "bytes \<Rightarrow> nat" where
  "from_bytes bs = foldl (\<lambda>v b. 256 * v + unat b) 0 bs"

text \<open>\<^verbatim>\<open>value.to_bytes(8, "big", signed=True)\<close>\<close>

definition to_bytes_signed :: "nat \<Rightarrow> int \<Rightarrow> bytes" where
  "to_bytes_signed n v = to_bytes n (nat (v mod 256 ^ n))"

lemma length_to_bytes [simp]: "length (to_bytes n v) = n"
  by (induction n arbitrary: v) simp_all

lemma length_to_bytes_signed [simp]: "length (to_bytes_signed n v) = n"
  by (simp add: to_bytes_signed_def)

lemma from_bytes_snoc [simp]: "from_bytes (bs @ [b]) = 256 * from_bytes bs + unat b"
  and from_bytes_Nil [simp]: "from_bytes [] = 0"
  by (simp_all add: from_bytes_def)

lemma unat_less_256: "unat (b :: byte) < 256"
  using unsigned_less [of b] by simp

lemma unat_of_nat_byte: "n < 256 \<Longrightarrow> unat (of_nat n :: byte) = n"
  by (simp add: unat_of_nat)

lemma unat_byte: "unat (of_nat (v mod 256) :: byte) = v mod 256"
  by (simp add: unat_of_nat)

lemma from_to_bytes: "v < 256 ^ n \<Longrightarrow> from_bytes (to_bytes n v) = v"
proof (induction n arbitrary: v)
  case (Suc n)
  then have "v div 256 < 256 ^ n" by (simp add: less_mult_imp_div_less mult.commute)
  with Suc.IH show ?case by (simp add: unat_byte)
qed simp

lemma from_bytes_less: "from_bytes bs < 256 ^ length bs"
proof (induction bs rule: rev_induct)
  case (snoc b bs)
  with unat_less_256 [of b] show ?case by simp
qed simp

lemma to_bytes_inject:
  "v < 256 ^ n \<Longrightarrow> w < 256 ^ n \<Longrightarrow> to_bytes n v = to_bytes n w \<longleftrightarrow> v = w"
  by (metis from_to_bytes)

lemma to_bytes_signed_inject:
  assumes "in_i64 v" and "in_i64 w" and "to_bytes_signed 8 v = to_bytes_signed 8 w"
  shows "v = w"
proof -
  have lt: "nat (x mod 256 ^ 8) < 256 ^ 8" for x :: int
    by (simp add: nat_less_iff)
  have "nat (v mod 256 ^ 8) = nat (w mod 256 ^ 8)"
    using assms(3) to_bytes_inject [OF lt lt] by (simp add: to_bytes_signed_def)
  then have "v mod 256 ^ 8 = w mod 256 ^ 8" by simp
  then obtain k where "v - w = k * 256 ^ 8"
    by (metis mod_eq_dvd_iff dvdE mult.commute)
  moreover have "\<bar>v - w\<bar> < 256 ^ 8"
    using assms(1,2) by (auto simp: range_defs abs_if)
  ultimately show ?thesis by (cases "k = 0") (auto simp: abs_mult)
qed

section \<open>Hexadecimal text\<close>

definition hex_digit :: "nat \<Rightarrow> char" where
  "hex_digit d = (if d < 10 then char_of (48 + d) else char_of (87 + d))"

text \<open>\<^verbatim>\<open>bytes.fromhex\<close> also reads capital letters.\<close>

definition hex_val :: "char \<Rightarrow> nat option" where
  "hex_val c =
     (if ascii_digit c then Some (ord c - 48)
      else if 97 \<le> ord c \<and> ord c \<le> 102 then Some (ord c - 87)
      else if 65 \<le> ord c \<and> ord c \<le> 70 then Some (ord c - 55)
      else None)"

definition hex :: "bytes \<Rightarrow> string" where
  "hex bs = concat (map (\<lambda>b. [hex_digit (unat b div 16), hex_digit (unat b mod 16)]) bs)"

text \<open>\<^verbatim>\<open>bytes.fromhex\<close>: ASCII white space is skipped between bytes.\<close>

definition ascii_space :: "char \<Rightarrow> bool" where
  "ascii_space c \<longleftrightarrow> 9 \<le> ord c \<and> ord c \<le> 13 \<or> ord c = 32"

function fromhex :: "string \<Rightarrow> bytes res" where
  "fromhex s =
     (case dropWhile ascii_space s of
        [] \<Rightarrow> Inr []
      | [_] \<Rightarrow> Inl ValueError
      | c # d # r \<Rightarrow>
          (case (hex_val c, hex_val d) of
             (Some x, Some y) \<Rightarrow> bindR (fromhex r) (\<lambda>bs. Inr (of_nat (16 * x + y) # bs))
           | _ \<Rightarrow> Inl ValueError))"
  by pat_completeness auto
termination
proof (relation "measure length", simp)
  fix s c ds d r x y
  assume "dropWhile ascii_space s = c # ds" and "ds = d # r"
  then have "length (c # d # r) \<le> length s"
    by (metis length_dropWhile_le)
  then show "(r, s) \<in> measure length" by simp
qed

declare fromhex.simps [simp del]

lemma ord_hex_digit: "d < 16 \<Longrightarrow> ord (hex_digit d) = (if d < 10 then 48 + d else 87 + d)"
  by (simp add: hex_digit_def)

lemma hex_val_hex_digit [simp]: "d < 16 \<Longrightarrow> hex_val (hex_digit d) = Some d"
  by (auto simp: hex_val_def ascii_digit_def ord_hex_digit)

lemma hex_char_hex_digit: "d < 16 \<Longrightarrow> hex_char (hex_digit d)"
  by (auto simp: hex_char_def ascii_digit_def ord_hex_digit)

lemma hex_char_no_space: "hex_char c \<Longrightarrow> \<not> ascii_space c"
  by (auto simp: hex_char_def ascii_digit_def ascii_space_def)

lemma hex_chars: "list_all hex_char (hex bs)"
proof -
  have "unat (b :: byte) div 16 < 16" for b
    using unat_less_256 [of b] by simp
  then show ?thesis by (auto simp: hex_def list_all_iff hex_char_hex_digit)
qed

lemma length_hex [simp]: "length (hex bs) = 2 * length bs"
  by (induction bs) (simp_all add: hex_def)

lemma hex_Cons: "hex (b # bs) = hex_digit (unat b div 16) # hex_digit (unat b mod 16) # hex bs"
  by (simp add: hex_def)

lemma fromhex_pair:
  "hex_val c = Some x \<Longrightarrow> hex_val d = Some y \<Longrightarrow> \<not> ascii_space c \<Longrightarrow>
   fromhex (c # d # r) = bindR (fromhex r) (\<lambda>bs. Inr (of_nat (16 * x + y) # bs))"
  by (subst fromhex.simps) simp

lemma fromhex_hex [simp]: "fromhex (hex bs) = Inr bs"
proof (induction bs)
  case Nil
  show ?case by (subst fromhex.simps) (simp add: hex_def)
next
  case (Cons b bs)
  have d: "unat b div 16 < 16" "unat b mod 16 < 16" using unat_less_256 [of b] by simp_all
  have "\<not> ascii_space (hex_digit (unat b div 16))"
    using d(1) by (intro hex_char_no_space hex_char_hex_digit)
  with d Cons.IH show ?case
    by (simp add: hex_Cons fromhex_pair)
qed

lemma hex_inject [simp]: "hex a = hex b \<longleftrightarrow> a = b"
  by (metis fromhex_hex sum.inject(2))

lemma hex_char_val:
  assumes "hex_char c"
  obtains x where "hex_val c = Some x" and "x < 16" and "hex_digit x = c"
proof -
  let ?x = "if ascii_digit c then ord c - 48 else ord c - 87"
  have "hex_val c = Some ?x" and "?x < 16"
    using assms by (auto simp: hex_val_def hex_char_def ascii_digit_def)
  moreover have "hex_digit ?x = c"
    using assms by (auto simp: hex_digit_def hex_char_def ascii_digit_def)
  ultimately show thesis by (rule that)
qed

text \<open>Even-length lower-case hex text is the \<open>hex\<close> of what \<open>fromhex\<close> reads from it.\<close>

lemma fromhex_canonical:
  "list_all hex_char s \<Longrightarrow> even (length s) \<Longrightarrow> \<exists>bs. fromhex s = Inr bs \<and> hex bs = s"
proof (induction s rule: induct_list012)
  case 1
  show ?case by (rule exI [of _ "[]"]) (subst fromhex.simps, simp add: hex_def)
next
  case (3 c d r)
  then obtain bs where bs: "fromhex r = Inr bs" "hex bs = r" by auto
  from "3.prems" have "hex_char c" "hex_char d" by simp_all
  then obtain x y where xy: "hex_val c = Some x" "x < 16" "hex_digit x = c"
      "hex_val d = Some y" "y < 16" "hex_digit y = d"
    by (elim hex_char_val)
  let ?b = "of_nat (16 * x + y) :: byte"
  have u: "unat ?b = 16 * x + y"
    using xy by (intro unat_of_nat_byte) simp
  have "fromhex (c # d # r) = Inr (?b # bs)"
    using fromhex_pair [OF xy(1) xy(4)] \<open>hex_char c\<close> bs(1) by (simp add: hex_char_no_space)
  moreover have "hex (?b # bs) = c # d # r"
    unfolding hex_Cons u using xy bs(2) by simp
  ultimately show ?case by blast
qed simp

lemma sha_hex_bytes:
  assumes "is_sha256_hex s"
  obtains bs where "fromhex s = Inr bs" and "hex bs = s" and "length bs = 32"
proof -
  from assms have "list_all hex_char s" "even (length s)" by (simp_all add: is_sha256_hex_def)
  then obtain bs where bs: "fromhex s = Inr bs" "hex bs = s" using fromhex_canonical by blast
  moreover from bs(2) assms have "length bs = 32"
    by (metis is_sha256_hex_def length_hex mult_cancel1 num_double numeral_times_numeral zero_neq_numeral)
  ultimately show thesis by (rule that)
qed

lemma is_sha256_hex_hex: "length bs = 32 \<Longrightarrow> is_sha256_hex (hex bs)"
  by (simp add: is_sha256_hex_def hex_chars)

section \<open>UTF-8\<close>

definition utf8_char :: "char \<Rightarrow> bytes" where
  "utf8_char c =
     (if ord c < 128 then [of_nat (ord c)]
      else [of_nat (192 + ord c div 64), of_nat (128 + ord c mod 64)])"

definition utf8 :: "string \<Rightarrow> bytes" where
  "utf8 s = concat (map utf8_char s)"

lemma utf8_byte_bounds:
  fixes n :: nat
  shows "n < 256 \<Longrightarrow> 192 + n div 64 < 256" and "128 + n mod 64 < 256"
  by linarith simp

lemma utf8_char_prefix:
  assumes "utf8_char c @ r = utf8_char d @ s"
  shows "c = d \<and> r = s"
proof -
  have lt: "ord x < 256" for x by simp
  have u: "unat (of_nat (192 + ord x div 64) :: byte) = 192 + ord x div 64"
    "unat (of_nat (128 + ord x mod 64) :: byte) = 128 + ord x mod 64"
    "unat (of_nat (ord x) :: byte) = ord x" for x
    using lt [of x] by (auto intro!: unat_of_nat_byte utf8_byte_bounds simp del: of_nat_add)
  have hd: "unat (hd (utf8_char x)) = (if ord x < 128 then ord x else 192 + ord x div 64)" for x
    by (simp add: utf8_char_def u del: of_nat_add)
  have "hd (utf8_char c) = hd (utf8_char d)"
    using arg_cong [OF assms, of hd] by (simp add: utf8_char_def split: if_splits)
  then have h: "(if ord c < 128 then ord c else 192 + ord c div 64) =
      (if ord d < 128 then ord d else 192 + ord d div 64)"
    unfolding hd [symmetric] by simp
  then have b: "ord c < 128 \<longleftrightarrow> ord d < 128" by (auto split: if_splits)
  show ?thesis
  proof (cases "ord c < 128")
    case True
    with h b assms show ?thesis by (simp add: utf8_char_def)
  next
    case False
    with b assms have m: "(of_nat (128 + ord c mod 64) :: byte) = of_nat (128 + ord d mod 64)"
      and "r = s"
      by (simp_all add: utf8_char_def del: of_nat_add)
    from arg_cong [OF m, of unat] have "ord c mod 64 = ord d mod 64" by (simp only: u)
    moreover from False b h have "ord c div 64 = ord d div 64" by simp
    ultimately have "ord c = ord d" by (metis div_mult_mod_eq)
    with \<open>r = s\<close> show ?thesis by simp
  qed
qed

lemma utf8_Cons: "utf8 (c # s) = utf8_char c @ utf8 s"
  by (simp add: utf8_def)

lemma utf8_char_ne [simp]: "utf8_char c \<noteq> []"
  by (simp add: utf8_char_def)

lemma utf8_inject [simp]: "utf8 s = utf8 t \<longleftrightarrow> s = t"
proof
  show "utf8 s = utf8 t \<Longrightarrow> s = t"
  proof (induction s arbitrary: t)
    case Nil
    then show ?case by (cases t) (simp_all add: utf8_def)
  next
    case (Cons c s)
    then obtain d t' where t: "t = d # t'" by (cases t) (auto simp: utf8_def)
    with Cons show ?case by (auto simp: utf8_Cons dest!: utf8_char_prefix)
  qed
qed simp

lemma utf8_eq_Nil [simp]: "utf8 s = [] \<longleftrightarrow> s = []"
  by (cases s) (simp_all add: utf8_Cons utf8_def [of "[]"])

text \<open>ASCII byte literals of the sources, \<^verbatim>\<open>b"..."\<close>.\<close>

abbreviation ascii :: "string \<Rightarrow> bytes" where
  "ascii \<equiv> utf8"

section \<open>Prefix codes\<close>

locale prefix_code =
  fixes enc :: "'a \<Rightarrow> bytes" and valid :: "'a \<Rightarrow> bool"
  assumes prefix: "valid x \<Longrightarrow> valid y \<Longrightarrow> enc x @ r = enc y @ s \<Longrightarrow> x = y \<and> r = s"
begin

lemma enc_inj: "valid x \<Longrightarrow> valid y \<Longrightarrow> enc x = enc y \<Longrightarrow> x = y"
  using prefix [of x y "[]" "[]"] by simp

text \<open>A run of encodings of known length is read back in one way only.\<close>

lemma enc_list_prefix:
  assumes "list_all valid xs" and "list_all valid ys" and "length xs = length ys"
    and "concat (map enc xs) @ r = concat (map enc ys) @ s"
  shows "xs = ys \<and> r = s"
  using assms(3,1,2,4)
proof (induction xs ys rule: list_induct2)
  case (Cons x xs y ys)
  then have "enc x @ concat (map enc xs) @ r = enc y @ concat (map enc ys) @ s" by simp
  with Cons have "x = y" and "concat (map enc xs) @ r = concat (map enc ys) @ s"
    by (auto dest: prefix)
  with Cons show ?case by simp
qed simp

end

text \<open>Unsigned and signed 64-bit fields, and fields that carry their length in 8 bytes.\<close>

definition enc_u64 :: "nat \<Rightarrow> bytes" where
  "enc_u64 v = to_bytes 8 v"

definition len_prefixed :: "bytes \<Rightarrow> bytes" where
  "len_prefixed bs = enc_u64 (length bs) @ bs"

interpretation u64: prefix_code enc_u64 "\<lambda>v. v < 256 ^ 8"
  by unfold_locales (auto simp: enc_u64_def to_bytes_inject append_eq_append_conv)

interpretation i64: prefix_code "to_bytes_signed 8" in_i64
  by unfold_locales (auto simp: append_eq_append_conv dest: to_bytes_signed_inject)

interpretation lp: prefix_code len_prefixed "\<lambda>bs. length bs < 256 ^ 8"
proof unfold_locales
  fix x y r s :: bytes
  assume len: "length x < 256 ^ 8" "length y < 256 ^ 8"
    and eq: "len_prefixed x @ r = len_prefixed y @ s"
  then have "length x = length y \<and> x @ r = y @ s"
    by (intro u64.prefix) (simp_all add: len_prefixed_def)
  then show "x = y \<and> r = s" by (auto simp: append_eq_append_conv)
qed

end
