(* ===== verification/Json.thy ===== *)
theory Json
  imports Sha256
begin

text \<open>
  JSON values as the sources hold them in memory (a Python \<^verbatim>\<open>dict\<close> is an association
  list in insertion order), and \<^verbatim>\<open>json.dumps\<close> with \<^verbatim>\<open>sort_keys=True\<close>,
  \<^verbatim>\<open>separators=(",", ":")\<close> and \<^verbatim>\<open>ensure_ascii=True\<close>, the canonical form that every
  payload hash of the API is computed from.

  \<open>dumps_inject\<close> says that this form can be read back in one way only: two values
  without floating-point numbers print alike only if they are equal up to the order of their
  object keys.
\<close>

datatype json =
    JNull
  | JBool bool
  | JInt int
  | JFloat string
  | JStr string
  | JList "json list"
  | JObj "(string \<times> json) list"

type_synonym fields = "(string \<times> json) list"

text \<open>\<^verbatim>\<open>fields.get(key)\<close> on a dict whose missing keys read as \<^verbatim>\<open>None\<close>.\<close>

definition jget :: "fields \<Rightarrow> string \<Rightarrow> json" where
  "jget fs k = (case map_of fs k of None \<Rightarrow> JNull | Some v \<Rightarrow> v)"

definition jhas :: "fields \<Rightarrow> string \<Rightarrow> bool" where
  "jhas fs k \<longleftrightarrow> k \<in> fst ` set fs"

lemma jget_update [simp]: "jget (AList.update k v fs) k' = (if k' = k then v else jget fs k')"
  by (simp add: jget_def)

lemma jget_Cons [simp]: "jget ((k, v) # fs) k' = (if k' = k then v else jget fs k')"
  by (simp add: jget_def)

lemma jget_Nil [simp]: "jget [] k = JNull"
  by (simp add: jget_def)

lemma jget_mem: "distinct (map fst fs) \<Longrightarrow> (k, v) \<in> set fs \<Longrightarrow> jget fs k = v"
  by (simp add: jget_def)

section \<open>Floating point and key order\<close>

text \<open>\<open>_reject_float\<close> accepts exactly the values without a float at any depth.\<close>

fun no_float :: "json \<Rightarrow> bool" where
  "no_float (JFloat _) = False"
| "no_float (JList xs) = list_all no_float xs"
| "no_float (JObj fs) = list_all (\<lambda>(k, v). no_float v) fs"
| "no_float _ = True"

fun sort_keys :: "json \<Rightarrow> json" where
  "sort_keys (JList xs) = JList (map sort_keys xs)"
| "sort_keys (JObj fs) = JObj (sort_key fst (map (\<lambda>(k, v). (k, sort_keys v)) fs))"
| "sort_keys v = v"

lemma no_float_sort_keys [simp]: "no_float (sort_keys v) = no_float v"
proof (induction v)
  case (JObj fs)
  then show ?case by (fastforce simp: list_all_iff split: prod.splits)
qed (auto simp: list_all_iff)

lemma sort_keys_idem [simp]: "sort_keys (sort_keys v) = sort_keys v"
proof (induction v)
  case (JObj fs)
  let ?g = "map (\<lambda>(k, v). (k, sort_keys v))"
  have "?g (sort_key fst (?g fs)) = sort_key fst (?g fs)"
    by (rule map_idI) (use JObj in \<open>auto simp: split_beta\<close>)
  then show ?case by (simp add: sort_key_id_if_sorted)
qed simp_all

lemma sort_keys_JStr [simp]: "sort_keys \<circ> JStr = JStr"
  by (simp add: fun_eq_iff)

section \<open>Printing\<close>

definition esc_char :: "char \<Rightarrow> string" where
  "esc_char c =
     (if c = CHR 0x22 then [CHR 0x5C, CHR 0x22]
      else if c = CHR 0x5C then [CHR 0x5C, CHR 0x5C]
      else if ord c = 10 then [CHR 0x5C, CHR ''n'']
      else if ord c = 13 then [CHR 0x5C, CHR ''r'']
      else if ord c = 9 then [CHR 0x5C, CHR ''t'']
      else if ord c = 12 then [CHR 0x5C, CHR ''f'']
      else if ord c = 8 then [CHR 0x5C, CHR ''b'']
      else if 32 \<le> ord c \<and> ord c \<le> 126 then [c]
      else [CHR 0x5C, CHR ''u'', CHR ''0'', CHR ''0'',
            hex_digit (ord c div 16), hex_digit (ord c mod 16)])"

text \<open>The same with \<^verbatim>\<open>ensure_ascii=False\<close>: only quotes, backslashes and control characters are escaped.\<close>

definition esc_raw :: "char \<Rightarrow> string" where
  "esc_raw c = (if 127 \<le> ord c then [c] else esc_char c)"

definition print_str :: "(char \<Rightarrow> string) \<Rightarrow> string \<Rightarrow> string" where
  "print_str esc s = CHR 0x22 # concat (map esc s) @ [CHR 0x22]"

fun print :: "(char \<Rightarrow> string) \<Rightarrow> json \<Rightarrow> string"
  and print_items :: "(char \<Rightarrow> string) \<Rightarrow> json list \<Rightarrow> string"
  and print_fields :: "(char \<Rightarrow> string) \<Rightarrow> fields \<Rightarrow> string" where
  "print esc JNull = ''null''"
| "print esc (JBool b) = (if b then ''true'' else ''false'')"
| "print esc (JInt n) = str_int n"
| "print esc (JFloat r) = r"
| "print esc (JStr s) = print_str esc s"
| "print esc (JList xs) = CHR ''['' # print_items esc xs @ '']''"
| "print esc (JObj fs) = CHR ''{'' # print_fields esc fs @ ''}''"
| "print_items esc [] = []"
| "print_items esc (x # xs) = print esc x @ (if xs = [] then [] else CHR '','' # print_items esc xs)"
| "print_fields esc [] = []"
| "print_fields esc ((k, v) # fs) =
     print_str esc k @ CHR '':'' # print esc v @ (if fs = [] then [] else CHR '','' # print_fields esc fs)"

definition dumps :: "json \<Rightarrow> string" where
  "dumps v = print esc_char (sort_keys v)"

text \<open>\<^verbatim>\<open>json.dumps(value, sort_keys=True, separators=(",", ":"), ensure_ascii=False)\<close>\<close>

definition dumps_raw :: "json \<Rightarrow> string" where
  "dumps_raw v = print esc_raw (sort_keys v)"

lemma print_induct:
  assumes "P JNull" "\<And>b. P (JBool b)" "\<And>n. P (JInt n)" "\<And>r. P (JFloat r)" "\<And>s. P (JStr s)"
    "\<And>xs. Q xs \<Longrightarrow> P (JList xs)" "\<And>fs. R fs \<Longrightarrow> P (JObj fs)"
    "Q []" "\<And>x xs. P x \<Longrightarrow> (xs \<noteq> [] \<Longrightarrow> Q xs) \<Longrightarrow> Q (x # xs)"
    "R []" "\<And>k v fs. P v \<Longrightarrow> (fs \<noteq> [] \<Longrightarrow> R fs) \<Longrightarrow> R ((k, v) # fs)"
  shows "P v" "Q xs" "R fs"
proof -
  note ind = print_print_items_print_fields.induct [of "\<lambda>_. P" "\<lambda>_. Q" "\<lambda>_. R"]
  show "P v" by (rule ind(1)) (assumption | rule assms | blast)+
  show "Q xs" by (rule ind(2)) (assumption | rule assms | blast)+
  show "R fs" by (rule ind(3)) (assumption | rule assms | blast)+
qed

section \<open>Printing is unambiguous\<close>

fun unesc :: "string \<Rightarrow> (char \<times> string) option" where
  "unesc [] = None"
| "unesc (c # r) =
     (if c = CHR 0x22 then None
      else if c \<noteq> CHR 0x5C then Some (c, r)
      else case r of [] \<Rightarrow> None
        | d # r' \<Rightarrow>
           if d = CHR ''n'' then Some (char_of (10 :: nat), r')
           else if d = CHR ''r'' then Some (char_of (13 :: nat), r')
           else if d = CHR ''t'' then Some (char_of (9 :: nat), r')
           else if d = CHR ''f'' then Some (char_of (12 :: nat), r')
           else if d = CHR ''b'' then Some (char_of (8 :: nat), r')
           else if d = CHR ''u'' then
             Some (char_of (16 * the (hex_val (r' ! 2)) + the (hex_val (r' ! 3))), drop 4 r')
           else Some (d, r'))"

lemma char_of_ordI: "ord c = n \<Longrightarrow> char_of n = c"
  by auto

lemma unesc_esc [simp]: "unesc (esc_char c @ r) = Some (c, r)"
proof -
  have "ord c div 16 < 16" by (simp add: less_mult_imp_div_less)
  then have u: "hex_val (hex_digit (ord c div 16)) = Some (ord c div 16)" by simp
  show ?thesis
    by (auto simp: esc_char_def u intro!: char_of_ordI)
qed

text \<open>What may follow a value: nothing, a comma, or a closing bracket.\<close>

definition delim :: "string \<Rightarrow> bool" where
  "delim r \<longleftrightarrow> r = [] \<or> hd r \<in> {CHR '','', CHR '']'', CHR ''}''}"

lemma delim_simps [simp]:
  "delim []" "delim (CHR '','' # r)" "delim (CHR '']'' # r)" "delim (CHR ''}'' # r)"
  by (simp_all add: delim_def)

lemma digits_prefix:
  assumes "list_all ascii_digit a" and "list_all ascii_digit b" and "delim r" and "delim s"
    and "a @ r = b @ s"
  shows "a = b \<and> r = s"
proof -
  have tw: "takeWhile ascii_digit (x @ t) = x" if "list_all ascii_digit x" and "delim t" for x t
    using that by (induction x; cases t) (auto simp: delim_def ascii_digit_def)
  from assms have "a = b" using tw [of a r] tw [of b s] by simp
  with assms(5) show ?thesis by simp
qed

lemma str_int_prefix:
  assumes "str_int m @ r = str_int n @ s" and "delim r" and "delim s"
  shows "m = n \<and> r = s"
proof -
  have hd: "hd (str_int i) = CHR ''-'' \<longleftrightarrow> i < 0" for i
    using hd_dec(1) [of "nat i"] by (simp add: str_int_def)
  have "hd (str_int m) = hd (str_int n)"
    using arg_cong [OF assms(1), of hd] by simp
  then have "m < 0 \<longleftrightarrow> n < 0" using hd by metis
  moreover from this have "dec (nat \<bar>m\<bar>) @ r = dec (nat \<bar>n\<bar>) @ s"
    using assms(1) by (cases "m < 0") (simp_all add: str_int_def)
  then have "dec (nat \<bar>m\<bar>) = dec (nat \<bar>n\<bar>) \<and> r = s"
    using assms(2,3) by (intro digits_prefix) (simp_all add: dec_ascii)
  ultimately show ?thesis by auto
qed

lemma str_int_hd: "hd (str_int i) = CHR ''-'' \<or> ascii_digit (hd (str_int i))"
  using hd_last_digits(1) [OF dec_not_Nil dec_ascii] by (simp add: str_int_def)

text \<open>Equal first characters, equal kinds.\<close>

fun kind :: "json \<Rightarrow> nat" where
  "kind JNull = 0" | "kind (JBool b) = (if b then 1 else 2)" | "kind (JInt _) = 3"
| "kind (JFloat _) = 4" | "kind (JStr _) = 5" | "kind (JList _) = 6" | "kind (JObj _) = 7"

text \<open>An escape that can be read back.\<close>

locale json_escape =
  fixes esc :: "char \<Rightarrow> string" and unescape :: "string \<Rightarrow> (char \<times> string) option"
  assumes unescape_esc: "unescape (esc c @ r) = Some (c, r)"
    and esc_ne: "esc c \<noteq> []" and esc_quote: "hd (esc c) \<noteq> CHR 0x22"
begin

lemma esc_string_prefix:
  "concat (map esc a) @ CHR 0x22 # r = concat (map esc b) @ CHR 0x22 # s \<Longrightarrow> a = b \<and> r = s"
proof (induction a arbitrary: b)
  case Nil
  then show ?case
  proof (cases b)
    case (Cons d b')
    with Nil have "hd (esc d @ concat (map esc b') @ CHR 0x22 # s) = CHR 0x22"
      by (metis append_Nil append_assoc concat.simps(2) concat.simps(1) list.sel(1) list.simps(8,9))
    then show ?thesis using esc_ne [of d] esc_quote [of d] by simp
  qed simp
next
  case (Cons c a)
  show ?case
  proof (cases b)
    case Nil
    with Cons.prems have "hd (esc c @ concat (map esc a) @ CHR 0x22 # r) = CHR 0x22"
      by simp
    then show ?thesis using esc_ne [of c] esc_quote [of c] by simp
  next
    case (Cons d b')
    with Cons.prems have "unescape (esc c @ concat (map esc a) @ CHR 0x22 # r) =
        unescape (esc d @ concat (map esc b') @ CHR 0x22 # s)" by simp
    then have "c = d" "concat (map esc a) @ CHR 0x22 # r = concat (map esc b') @ CHR 0x22 # s"
      by (simp_all add: unescape_esc)
    with Cons.IH [of b'] Cons show ?thesis by simp
  qed
qed

lemma print_str_prefix: "print_str esc a @ r = print_str esc b @ s \<Longrightarrow> a = b \<and> r = s"
  using esc_string_prefix [of a r b s] by (simp add: print_str_def)

text \<open>The first character of a printed value tells its kind.\<close>

lemma print_hd:
  "hd (print esc JNull) = CHR ''n''" "hd (print esc (JBool b)) = (if b then CHR ''t'' else CHR ''f'')"
  "hd (print esc (JStr a)) = CHR 0x22" "hd (print esc (JList xs)) = CHR ''[''"
  "hd (print esc (JObj fs)) = CHR ''{''"
  by (simp_all add: print_str_def)

lemma print_int_hd: "hd (print esc (JInt i)) \<notin>
   {CHR ''n'', CHR ''t'', CHR ''f'', CHR 0x22, CHR ''['', CHR ''{'', CHR '']'', CHR ''}''}"
  using str_int_hd [of i] by (auto simp: ascii_digit_def)

lemma print_ne: "no_float v \<Longrightarrow> print esc v \<noteq> []"
  by (cases v) (simp_all add: print_str_def)

lemma print_hd_close: "no_float v \<Longrightarrow> hd (print esc v) \<notin> {CHR '']'', CHR ''}''}"
  using print_int_hd by (cases v) (auto simp: print_hd simp del: print.simps)

lemma print_not_close: "CHR '']'' # r = print esc v @ s \<Longrightarrow> \<not> no_float v"
proof
  assume "CHR '']'' # r = print esc v @ s" and v: "no_float v"
  then have "CHR '']'' = hd (print esc v @ s)" by (metis list.sel(1))
  with print_ne [OF v] print_hd_close [OF v] show False by simp
qed

lemma print_same_kind:
  assumes "print esc v @ r = print esc w @ s" and "no_float v" and "no_float w"
  shows "kind v = kind w"
proof -
  have "hd (print esc v) = hd (print esc w)"
    using arg_cong [OF assms(1), of hd] print_ne assms(2,3) by simp
  then show ?thesis
    using assms(2,3) print_int_hd
    by (cases v; cases w) (auto simp: print_hd split: if_splits simp del: print.simps
        dest: sym [of _ "hd (print esc (JInt _))"])
qed

lemma more_prefix:
  assumes "(if xs = [] then [] else CHR '','' # pr xs) @ c # r = (if ys = [] then [] else CHR '','' # pr ys) @ c # s"
    and "c \<noteq> CHR '',''" and "xs \<noteq> [] \<Longrightarrow> pr xs @ c # r = pr ys @ c # s \<Longrightarrow> xs = ys \<and> r = s"
  shows "xs = ys \<and> r = s"
  using assms by (auto split: if_splits)

lemma print_shape:
  assumes "print esc v @ r = print esc w @ s" and "no_float v" and "no_float w"
  shows "v = JNull \<Longrightarrow> w = JNull" "v = JBool b \<Longrightarrow> w = JBool b" "v = JInt n \<Longrightarrow> \<exists>m. w = JInt m"
    "v = JStr a \<Longrightarrow> \<exists>b. w = JStr b" "v = JList xs \<Longrightarrow> \<exists>ys. w = JList ys" "v = JObj fs \<Longrightarrow> \<exists>gs. w = JObj gs"
  using print_same_kind [OF assms] by (cases w; simp split: if_splits)+

lemma print_items_prefix:
  assumes "print_items esc (x # xs) @ CHR '']'' # r = print_items esc ys @ CHR '']'' # s"
    and "no_float x" "list_all no_float ys"
    and head: "\<And>t y u. print esc x @ t = print esc y @ u \<Longrightarrow> no_float y \<Longrightarrow> delim t \<Longrightarrow> delim u \<Longrightarrow> x = y \<and> t = u"
    and tail: "\<And>zs. xs \<noteq> [] \<Longrightarrow> print_items esc xs @ CHR '']'' # r = print_items esc zs @ CHR '']'' # s \<Longrightarrow>
      list_all no_float zs \<Longrightarrow> xs = zs \<and> r = s"
  shows "x # xs = ys \<and> r = s"
proof (cases ys)
  case Nil
  then show ?thesis using assms(1,2) print_not_close [of s x] by (auto dest: sym)
next
  case (Cons y zs)
  let ?t = "(if xs = [] then [] else CHR '','' # print_items esc xs) @ CHR '']'' # r"
  let ?u = "(if zs = [] then [] else CHR '','' # print_items esc zs) @ CHR '']'' # s"
  have "print esc x @ ?t = print esc y @ ?u" using assms(1) Cons by simp
  then have xy: "x = y" and tu: "?t = ?u" using head [of ?t y ?u] assms(3) Cons by (auto split: if_splits)
  have "xs = zs \<and> r = s" by (rule more_prefix [OF tu]) (use tail assms(3) Cons in auto)
  with xy Cons show ?thesis by simp
qed

lemma print_fields_prefix:
  assumes "print_fields esc ((k, v) # fs) @ CHR ''}'' # r = print_fields esc gs @ CHR ''}'' # s"
    and "list_all (\<lambda>(k, v). no_float v) gs"
    and head: "\<And>t w u. print esc v @ t = print esc w @ u \<Longrightarrow> no_float w \<Longrightarrow> delim t \<Longrightarrow> delim u \<Longrightarrow> v = w \<and> t = u"
    and tail: "\<And>hs. fs \<noteq> [] \<Longrightarrow> print_fields esc fs @ CHR ''}'' # r = print_fields esc hs @ CHR ''}'' # s \<Longrightarrow>
      list_all (\<lambda>(k, v). no_float v) hs \<Longrightarrow> fs = hs \<and> r = s"
  shows "(k, v) # fs = gs \<and> r = s"
proof (cases gs)
  case Nil
  with assms(1) show ?thesis by (simp add: print_str_def)
next
  case (Cons g hs)
  obtain k' w where g: "g = (k', w)" by (cases g)
  let ?t = "(if fs = [] then [] else CHR '','' # print_fields esc fs) @ CHR ''}'' # r"
  let ?u = "(if hs = [] then [] else CHR '','' # print_fields esc hs) @ CHR ''}'' # s"
  have "print_str esc k @ CHR '':'' # print esc v @ ?t = print_str esc k' @ CHR '':'' # print esc w @ ?u"
    using assms(1) Cons g by simp
  from print_str_prefix [OF this] have kk: "k = k'" and "print esc v @ ?t = print esc w @ ?u" by simp_all
  then have vw: "v = w" and tu: "?t = ?u" using head [of ?t w ?u] assms(2) Cons g by (auto split: if_splits)
  have "fs = hs \<and> r = s" by (rule more_prefix [OF tu]) (use tail assms(2) Cons in auto)
  with kk vw Cons g show ?thesis by simp
qed

lemma print_prefix:
  "print esc v @ r = print esc w @ s \<Longrightarrow> no_float v \<Longrightarrow> no_float w \<Longrightarrow> delim r \<Longrightarrow> delim s \<Longrightarrow> v = w \<and> r = s"
  "print_items esc xs @ CHR '']'' # r = print_items esc ys @ CHR '']'' # s \<Longrightarrow>
     list_all no_float xs \<Longrightarrow> list_all no_float ys \<Longrightarrow> xs = ys \<and> r = s"
  "print_fields esc fs @ CHR ''}'' # r = print_fields esc gs @ CHR ''}'' # s \<Longrightarrow>
     list_all (\<lambda>(k, v). no_float v) fs \<Longrightarrow> list_all (\<lambda>(k, v). no_float v) gs \<Longrightarrow> fs = gs \<and> r = s"
proof (induction v and xs and fs arbitrary: w r s and ys r s and gs r s
    rule: print_induct)
  case 1
  have "w = JNull" by (rule print_shape(1) [OF 1(1-3) refl])
  with 1(1) show ?case by simp
next
  case (2 b)
  have "w = JBool b" by (rule print_shape(2) [OF 2(1-3) refl])
  with 2(1) show ?case by simp
next
  case (3 n)
  obtain m where "w = JInt m" using print_shape(3) [OF 3(1-3) refl] by (elim exE)
  with 3 str_int_prefix [of n r m s] show ?case by simp
next
  case (5 a)
  obtain b where "w = JStr b" using print_shape(4) [OF 5(1-3) refl] by (elim exE)
  with 5 print_str_prefix [of a r b s] show ?case by simp
next
  case (6 xs)
  obtain ys where w: "w = JList ys" using print_shape(5) [OF 6(2-4) refl] by (elim exE)
  have "print_items esc xs @ CHR '']'' # r = print_items esc ys @ CHR '']'' # s" using 6(2) w by simp
  then have "xs = ys \<and> r = s" by (rule 6(1)) (use 6(3,4) w in simp_all)
  with w show ?case by simp
next
  case (7 fs)
  obtain gs where w: "w = JObj gs" using print_shape(6) [OF 7(2-4) refl] by (elim exE)
  have "print_fields esc fs @ CHR ''}'' # r = print_fields esc gs @ CHR ''}'' # s" using 7(2) w by simp
  then have "fs = gs \<and> r = s" by (rule 7(1)) (use 7(3,4) w in simp_all)
  with w show ?case by simp
next
  case 8
  show ?case
  proof (cases ys)
    case (Cons y ys')
    with 8(1) have y: "CHR '']'' # r = print esc y @ ((if ys' = [] then [] else CHR '','' # print_items esc ys') @ CHR '']'' # s)"
      by simp
    with print_not_close [OF y] 8(3) Cons show ?thesis by simp
  qed (use 8(1) in simp)
next
  case (9 x xs)
  have x: "no_float x" "list_all no_float xs" using 9(4) by simp_all
  show ?case by (rule print_items_prefix [OF 9(3) x(1) 9(5) 9(1) [OF _ x(1)] 9(2) [OF _ _ x(2)]])
next
  case 10
  then show ?case
  proof (cases gs)
    case (Cons g gs')
    with 10(1) show ?thesis by (cases g) (simp add: print_str_def)
  qed simp
next
  case (11 k v fs)
  have v: "no_float v" "list_all (\<lambda>(k, v). no_float v) fs" using 11(4) by simp_all
  show ?case by (rule print_fields_prefix [OF 11(3,5) 11(1) [OF _ v(1)] 11(2) [OF _ _ v(2)]])
qed simp_all

lemma printed_inject:
  assumes "no_float v" and "no_float w" and "print esc (sort_keys v) = print esc (sort_keys w)"
  shows "sort_keys v = sort_keys w"
  using print_prefix(1) [of "sort_keys v" "[]" "sort_keys w" "[]"] assms by simp

end

lemma unesc_raw: "unesc (esc_raw c @ r) = Some (c, r)"
  by (auto simp: esc_raw_def)

interpretation ascii_json: json_escape esc_char unesc
  by unfold_locales (simp_all del: unesc.simps, auto simp: esc_char_def)

interpretation raw_json: json_escape esc_raw unesc
  by unfold_locales (simp_all del: unesc.simps add: unesc_raw, auto simp: esc_raw_def esc_char_def)

lemma dumps_inject: "no_float v \<Longrightarrow> no_float w \<Longrightarrow> dumps v = dumps w \<Longrightarrow> sort_keys v = sort_keys w"
  unfolding dumps_def by (rule ascii_json.printed_inject)

lemma dumps_raw_inject: "no_float v \<Longrightarrow> no_float w \<Longrightarrow> dumps_raw v = dumps_raw w \<Longrightarrow> sort_keys v = sort_keys w"
  unfolding dumps_raw_def by (rule raw_json.printed_inject)

end
