(* ===== verification/Catalog.thy ===== *)
theory Catalog
  imports Json
begin

text \<open>
  The coverage catalog (\<^verbatim>\<open>catalog/model.py\<close>, \<^verbatim>\<open>catalog/service.py\<close>): immutable
  manifests keyed by content hash, append-only revocations, gap-free coverage segments and
  the setups and play windows that are eligible for a requirement.

  A \<^verbatim>\<open>dict\<close> is an association list in insertion order, a \<^verbatim>\<open>frozenset\<close> a set, and
  each \<^verbatim>\<open>__post_init__\<close> a function that returns normally or raises. The lemmas show that
  gap subtraction yields exactly the uncovered instants as maximal intervals, that the
  eligible manifests are exactly those whose own interval covers the whole request without a
  gap, that windows and setups agree, and that manifests and revocations are write-once.
\<close>

section \<open>Facts\<close>

datatype ManifestStatus = PENDING | VALID | DEGRADED | QUARANTINED

datatype RedistributionClass = REDISTRIBUTABLE | USER_LICENSED | RESTRICTED | UNKNOWN_CLASS

datatype ExecutionTier = F0 | F0T | F1 | F2 | F3

fun rank :: "ExecutionTier \<Rightarrow> nat" where
  "rank F0 = 0" | "rank F0T = 1" | "rank F1 = 2" | "rank F2 = 3" | "rank F3 = 4"

datatype DataCapability =
    BARS | TRADES | BBO | L2_SNAPSHOTS | L2_DELTAS | L3 | MARK_PRICE | INDEX_PRICE | FUNDING
  | OPEN_INTEREST | LIQUIDATIONS

text \<open>The tiers are compared by their rank.\<close>

lemma rank_inject [simp]: "rank a = rank b \<longleftrightarrow> a = b"
  by (cases a; cases b) simp_all

instantiation ExecutionTier :: linorder
begin

definition less_eq_ExecutionTier :: "ExecutionTier \<Rightarrow> ExecutionTier \<Rightarrow> bool" where
  "a \<le> b \<longleftrightarrow> rank a \<le> rank b"

definition less_ExecutionTier :: "ExecutionTier \<Rightarrow> ExecutionTier \<Rightarrow> bool" where
  "a < b \<longleftrightarrow> rank a < rank b"

instance
  by standard (auto simp: less_eq_ExecutionTier_def less_ExecutionTier_def)

end

record Gap =
  gap_start_ns :: int
  gap_end_ns :: int
  gap_reason :: string

definition validate_sha256 :: "string \<Rightarrow> unit res" where
  "validate_sha256 value = require (is_sha256_hex value) ValueError"

definition validate_i64 :: "int \<Rightarrow> unit res" where
  "validate_i64 value = require (in_i64 value) ValueError"

definition Gap_post_init :: "Gap \<Rightarrow> unit res" where
  "Gap_post_init g =
     bindR (validate_i64 (gap_start_ns g)) (\<lambda>_.
     bindR (validate_i64 (gap_end_ns g)) (\<lambda>_.
     bindR (require (gap_start_ns g < gap_end_ns g) ValueError) (\<lambda>_.
     require (gap_reason g \<noteq> []) ValueError)))"

record ManifestRecord =
  m_manifest_hash :: string
  m_manifest_id :: string
  m_provider :: string
  m_dataset :: string
  m_venue_id :: string
  m_instrument_id :: string
  m_adapter_version :: string
  m_canonical_content_hash :: string
  m_actual_start_ns :: int
  m_actual_end_ns :: int
  m_status :: ManifestStatus
  m_redistribution_class :: RedistributionClass
  m_execution_tier :: ExecutionTier
  m_capabilities :: "DataCapability set"
  m_known_gaps :: "Gap list"
  m_quality_decisions :: "string list"
  m_provenance :: string
  m_ingested_at_ns :: int

definition ManifestRecord_post_init :: "ManifestRecord \<Rightarrow> unit res" where
  "ManifestRecord_post_init m =
     bindR (validate_sha256 (m_manifest_hash m)) (\<lambda>_.
     bindR (validate_sha256 (m_canonical_content_hash m)) (\<lambda>_.
     bindR (validate_i64 (m_actual_start_ns m)) (\<lambda>_.
     bindR (validate_i64 (m_actual_end_ns m)) (\<lambda>_.
     bindR (validate_i64 (m_ingested_at_ns m)) (\<lambda>_.
     bindR (require (m_actual_start_ns m < m_actual_end_ns m) ValueError) (\<lambda>_.
     require (list_all (\<lambda>value. value \<noteq> [])
       [m_manifest_id m, m_provider m, m_dataset m, m_venue_id m, m_instrument_id m,
        m_adapter_version m]) ValueError))))))"

record CoverageSegment =
  seg_instrument_id :: string
  seg_start_ns :: int
  seg_end_ns :: int
  seg_manifest_hash :: string
  seg_provider :: string
  seg_dataset :: string
  seg_venue_id :: string
  seg_execution_tier :: ExecutionTier
  seg_capabilities :: "DataCapability set"
  seg_redistribution_class :: RedistributionClass
  seg_status :: ManifestStatus

text \<open>The fields a dataclass with \<^verbatim>\<open>order=True\<close> compares, as one tuple.\<close>

definition CoverageSegment_key ::
    "CoverageSegment \<Rightarrow> string \<times> int \<times> int \<times> string \<times> string \<times> string \<times> string" where
  "CoverageSegment_key s = (seg_instrument_id s, seg_start_ns s, seg_end_ns s,
     seg_manifest_hash s, seg_provider s, seg_dataset s, seg_venue_id s)"

record SetupRequirement =
  req_instrument_id :: string
  req_play_start_ns :: int
  req_warmup_ns :: int
  req_duration_ns :: int
  req_minimum_tier :: ExecutionTier
  req_required_capabilities :: "DataCapability set"
  req_allowed_redistribution :: "RedistributionClass set"
  req_allow_degraded :: bool

definition required_start_ns :: "SetupRequirement \<Rightarrow> int" where
  "required_start_ns r = req_play_start_ns r - req_warmup_ns r"

definition required_end_ns :: "SetupRequirement \<Rightarrow> int" where
  "required_end_ns r = req_play_start_ns r + req_duration_ns r"

definition SetupRequirement_post_init :: "SetupRequirement \<Rightarrow> unit res" where
  "SetupRequirement_post_init r =
     bindR (require (req_instrument_id r \<noteq> []) ValueError) (\<lambda>_.
     bindR (validate_i64 (req_play_start_ns r)) (\<lambda>_.
     bindR (require (0 \<le> req_warmup_ns r) ValueError) (\<lambda>_.
     bindR (require (0 < req_duration_ns r) ValueError) (\<lambda>_.
     bindR (validate_i64 (required_start_ns r)) (\<lambda>_.
     bindR (validate_i64 (required_end_ns r)) (\<lambda>_.
     require (req_allowed_redistribution r \<noteq> {}) ValueError))))))"

record EligibleSetup =
  es_manifest_hash :: string
  es_coverage_start_ns :: int
  es_coverage_end_ns :: int
  es_play_start_ns :: int
  es_play_end_ns :: int

definition EligibleSetup_key :: "EligibleSetup \<Rightarrow> string \<times> int \<times> int \<times> int \<times> int" where
  "EligibleSetup_key e = (es_manifest_hash e, es_coverage_start_ns e, es_coverage_end_ns e,
     es_play_start_ns e, es_play_end_ns e)"

record EligibleWindow =
  ew_manifest_hash :: string
  ew_coverage_start_ns :: int
  ew_coverage_end_ns :: int
  ew_earliest_play_start_ns :: int
  ew_latest_play_start_ns :: int

definition EligibleWindow_key :: "EligibleWindow \<Rightarrow> string \<times> int \<times> int \<times> int \<times> int" where
  "EligibleWindow_key w = (ew_manifest_hash w, ew_coverage_start_ns w, ew_coverage_end_ns w,
     ew_earliest_play_start_ns w, ew_latest_play_start_ns w)"

section \<open>Gap subtraction\<close>

definition clip_gaps :: "int \<Rightarrow> int \<Rightarrow> Gap list \<Rightarrow> (int \<times> int) list" where
  "clip_gaps start_ns end_ns gaps =
     sort (map (\<lambda>g. (max start_ns (gap_start_ns g), min end_ns (gap_end_ns g)))
       (filter (\<lambda>g. start_ns < gap_end_ns g \<and> gap_start_ns g < end_ns) gaps))"

fun merge_gap :: "(int \<times> int) list \<Rightarrow> int \<times> int \<Rightarrow> (int \<times> int) list" where
  "merge_gap merged (gap_start, gap_end) =
     (if gap_end \<le> gap_start then merged
      else if merged \<noteq> [] \<and> gap_start \<le> snd (last merged) then
        butlast merged @ [(fst (last merged), max (snd (last merged)) gap_end)]
      else merged @ [(gap_start, gap_end)])"

fun subtract_gap :: "int \<times> (int \<times> int) list \<Rightarrow> int \<times> int \<Rightarrow> int \<times> (int \<times> int) list" where
  "subtract_gap (cursor, result) (gap_start, gap_end) =
     (max cursor gap_end, if cursor < gap_start then result @ [(cursor, gap_start)] else result)"

definition subtract_gaps :: "int \<Rightarrow> int \<Rightarrow> Gap list \<Rightarrow> (int \<times> int) list" where
  "subtract_gaps start_ns end_ns gaps =
     (let merged = foldl merge_gap [] (clip_gaps start_ns end_ns gaps);
          (cursor, result) = foldl subtract_gap (start_ns, []) merged
      in if cursor < end_ns then result @ [(cursor, end_ns)] else result)"

section \<open>The catalog\<close>

record CoverageCatalog =
  cat_manifests :: "(string \<times> ManifestRecord) list"
  cat_revocations :: "(string \<times> (int \<times> string)) list"

definition register :: "ManifestRecord \<Rightarrow> CoverageCatalog \<Rightarrow> (bool \<times> CoverageCatalog) res" where
  "register manifest c =
     (case map_of (cat_manifests c) (m_manifest_hash manifest) of
        None \<Rightarrow> Inr (True, c\<lparr>cat_manifests :=
                  AList.update (m_manifest_hash manifest) manifest (cat_manifests c)\<rparr>)
      | Some existing \<Rightarrow> if existing \<noteq> manifest then Inl ManifestHashConflict else Inr (False, c))"

fun register_all :: "ManifestRecord list \<Rightarrow> CoverageCatalog \<Rightarrow> CoverageCatalog res" where
  "register_all [] c = Inr c"
| "register_all (m # ms) c = bindR (register m c) (\<lambda>(_, c'). register_all ms c')"

definition CoverageCatalog_init :: "ManifestRecord list \<Rightarrow> CoverageCatalog res" where
  "CoverageCatalog_init manifests =
     register_all manifests \<lparr>cat_manifests = [], cat_revocations = []\<rparr>"

definition revoke :: "string \<Rightarrow> int \<Rightarrow> string \<Rightarrow> CoverageCatalog \<Rightarrow> (bool \<times> CoverageCatalog) res" where
  "revoke manifest_hash revoked_at_ns reason c =
     bindR (require (map_of (cat_manifests c) manifest_hash \<noteq> None) UnknownManifest) (\<lambda>_.
     bindR (require (reason \<noteq> []) ValueError) (\<lambda>_.
     bindR (require (in_i64 revoked_at_ns) ValueError) (\<lambda>_.
       case map_of (cat_revocations c) manifest_hash of
         None \<Rightarrow> Inr (True, c\<lparr>cat_revocations :=
                   AList.update manifest_hash (revoked_at_ns, reason) (cat_revocations c)\<rparr>)
       | Some existing \<Rightarrow>
           if existing \<noteq> (revoked_at_ns, reason) then Inl ValueError else Inr (False, c))))"

definition is_revoked :: "CoverageCatalog \<Rightarrow> string \<Rightarrow> bool" where
  "is_revoked c manifest_hash \<longleftrightarrow> map_of (cat_revocations c) manifest_hash \<noteq> None"

definition manifest_values :: "CoverageCatalog \<Rightarrow> ManifestRecord list" where
  "manifest_values c = map snd (cat_manifests c)"

definition manifest_versions :: "CoverageCatalog \<Rightarrow> string \<Rightarrow> ManifestRecord list" where
  "manifest_versions c manifest_id =
     sort_key (\<lambda>r. (m_ingested_at_ns r, m_manifest_hash r))
       (filter (\<lambda>r. m_manifest_id r = manifest_id) (manifest_values c))"

definition segment_of :: "ManifestRecord \<Rightarrow> int \<times> int \<Rightarrow> CoverageSegment" where
  "segment_of m iv =
     \<lparr>seg_instrument_id = m_instrument_id m, seg_start_ns = fst iv, seg_end_ns = snd iv,
      seg_manifest_hash = m_manifest_hash m, seg_provider = m_provider m,
      seg_dataset = m_dataset m, seg_venue_id = m_venue_id m,
      seg_execution_tier = m_execution_tier m, seg_capabilities = m_capabilities m,
      seg_redistribution_class = m_redistribution_class m, seg_status = m_status m\<rparr>"

definition manifest_segments ::
    "CoverageCatalog \<Rightarrow> string option \<Rightarrow> ManifestRecord \<Rightarrow> CoverageSegment list" where
  "manifest_segments c instrument_id m =
     (if instrument_id \<noteq> None \<and> Some (m_instrument_id m) \<noteq> instrument_id then []
      else if m_status m \<notin> {VALID, DEGRADED} then []
      else if is_revoked c (m_manifest_hash m) then []
      else map (segment_of m)
             (subtract_gaps (m_actual_start_ns m) (m_actual_end_ns m) (m_known_gaps m)))"

definition segments :: "CoverageCatalog \<Rightarrow> string option \<Rightarrow> CoverageSegment list" where
  "segments c instrument_id =
     sort_key CoverageSegment_key
       (concat (map (manifest_segments c instrument_id) (manifest_values c)))"

definition segment_meets_policy :: "CoverageSegment \<Rightarrow> SetupRequirement \<Rightarrow> bool" where
  "segment_meets_policy seg r \<longleftrightarrow>
     (if rank (seg_execution_tier seg) < rank (req_minimum_tier r) then False
      else if \<not> req_required_capabilities r \<subseteq> seg_capabilities seg then False
      else if seg_redistribution_class seg \<notin> req_allowed_redistribution r then False
      else seg_status seg \<noteq> DEGRADED \<or> req_allow_degraded r)"

definition setup_of :: "SetupRequirement \<Rightarrow> CoverageSegment \<Rightarrow> EligibleSetup" where
  "setup_of r seg =
     \<lparr>es_manifest_hash = seg_manifest_hash seg, es_coverage_start_ns = seg_start_ns seg,
      es_coverage_end_ns = seg_end_ns seg, es_play_start_ns = req_play_start_ns r,
      es_play_end_ns = required_end_ns r\<rparr>"

definition eligible_setups :: "CoverageCatalog \<Rightarrow> SetupRequirement \<Rightarrow> EligibleSetup list" where
  "eligible_setups c r =
     sort_key EligibleSetup_key (map (setup_of r)
       (filter (\<lambda>seg. segment_meets_policy seg r \<and>
           seg_start_ns seg \<le> required_start_ns r \<and> required_end_ns r \<le> seg_end_ns seg)
         (segments c (Some (req_instrument_id r)))))"

definition window_of :: "SetupRequirement \<Rightarrow> CoverageSegment \<Rightarrow> EligibleWindow" where
  "window_of r seg =
     \<lparr>ew_manifest_hash = seg_manifest_hash seg, ew_coverage_start_ns = seg_start_ns seg,
      ew_coverage_end_ns = seg_end_ns seg,
      ew_earliest_play_start_ns = seg_start_ns seg + req_warmup_ns r,
      ew_latest_play_start_ns = seg_end_ns seg - req_duration_ns r\<rparr>"

definition eligible_windows :: "CoverageCatalog \<Rightarrow> SetupRequirement \<Rightarrow> EligibleWindow list" where
  "eligible_windows c r =
     sort_key EligibleWindow_key (map (window_of r)
       (filter (\<lambda>seg. segment_meets_policy seg r \<and>
           seg_start_ns seg + req_warmup_ns r \<le> seg_end_ns seg - req_duration_ns r)
         (segments c (Some (req_instrument_id r)))))"

definition eligible_json :: "EligibleSetup \<Rightarrow> json" where
  "eligible_json e = JObj
     [(''manifest_hash'', JStr (es_manifest_hash e)),
      (''coverage_start_ns'', JStr (str_int (es_coverage_start_ns e))),
      (''coverage_end_ns'', JStr (str_int (es_coverage_end_ns e))),
      (''play_start_ns'', JStr (str_int (es_play_start_ns e))),
      (''play_end_ns'', JStr (str_int (es_play_end_ns e)))]"

definition eligibility_hash :: "CoverageCatalog \<Rightarrow> SetupRequirement \<Rightarrow> string" where
  "eligibility_hash c r =
     sha256_hex (ascii (dumps (JList (map eligible_json (eligible_setups c r)))))"

section \<open>Gap subtraction is exact\<close>

definition inside :: "int \<Rightarrow> int \<times> int \<Rightarrow> bool" where
  "inside t iv \<longleftrightarrow> fst iv \<le> t \<and> t < snd iv"

definition covers :: "(int \<times> int) list \<Rightarrow> int \<Rightarrow> bool" where
  "covers ivs t \<longleftrightarrow> list_ex (inside t) ivs"

text \<open>Non-empty intervals in increasing order, with room between neighbours.\<close>

definition separated :: "(int \<times> int) list \<Rightarrow> bool" where
  "separated ivs \<longleftrightarrow> list_all (\<lambda>iv. fst iv < snd iv) ivs \<and> sorted_wrt (\<lambda>x y. snd x < fst y) ivs"

lemma covers_simps [simp]:
  "covers [] t \<longleftrightarrow> False"
  "covers (iv # ivs) t \<longleftrightarrow> inside t iv \<or> covers ivs t"
  "covers (xs @ ys) t \<longleftrightarrow> covers xs t \<or> covers ys t"
  by (auto simp: covers_def)

lemma separated_snoc [simp]:
  "separated [] \<longleftrightarrow> True"
  "separated (ivs @ [iv]) \<longleftrightarrow> separated ivs \<and> fst iv < snd iv \<and> (\<forall>x\<in>set ivs. snd x < fst iv)"
  by (auto simp: separated_def sorted_wrt_append)

lemma separated_last:
  assumes "separated ivs" and "x \<in> set ivs"
  shows "snd x \<le> snd (last ivs)" and "fst x < snd (last ivs)"
proof -
  from assms(2) obtain pre l where ivs: "ivs = pre @ [l]" by (cases ivs rule: rev_cases) auto
  with assms show "snd x \<le> snd (last ivs)" by fastforce
  moreover have "fst x < snd x" using assms by (simp add: separated_def list_all_iff)
  ultimately show "fst x < snd (last ivs)" by simp
qed

lemma separated_cursor:
  assumes "separated ivs" and "\<forall>iv\<in>set ivs. s \<le> fst iv"
  shows "s \<le> (if ivs = [] then s else snd (last ivs))"
proof (cases "ivs = []")
  case False
  then have "s \<le> fst (last ivs)" "fst (last ivs) < snd (last ivs)"
    using assms separated_last(2) [of ivs "last ivs"] by auto
  with False show ?thesis by simp
qed simp

lemma covers_clip_gaps:
  "covers (clip_gaps s e gaps) t \<longleftrightarrow>
     s \<le> t \<and> t < e \<and> (\<exists>g\<in>set gaps. gap_start_ns g \<le> t \<and> t < gap_end_ns g)"
  by (auto simp: covers_def clip_gaps_def list_ex_iff inside_def)

lemma merge_gaps_spec:
  assumes "sorted xs"
  defines "m \<equiv> foldl merge_gap [] xs"
  shows "separated m \<and> (\<forall>t. covers m t \<longleftrightarrow> covers xs t) \<and> fst ` set m \<subseteq> fst ` set xs \<and>
    (\<forall>iv\<in>set m. snd iv \<in> snd ` set xs)"
  using assms(1) unfolding m_def
proof (induction xs rule: rev_induct)
  case (snoc x xs)
  let ?m = "foldl merge_gap [] xs"
  obtain a b where x: "x = (a, b)" by (cases x)
  have IH: "separated ?m" "\<And>t. covers ?m t \<longleftrightarrow> covers xs t" "fst ` set ?m \<subseteq> fst ` set xs"
     "\<forall>iv\<in>set ?m. snd iv \<in> snd ` set xs"
    using snoc by (auto simp: sorted_append)
  have le: "c \<le> a" if "(c, d) \<in> set xs" for c d
  proof -
    have "(c, d) \<le> x" using snoc.prems that by (auto simp: sorted_append simp del: less_eq_prod_simp)
    then show ?thesis by (auto simp: x)
  qed
  have fst_le: "fst iv \<le> a" if "iv \<in> set ?m" for iv
    using IH(3) that le by fastforce
  consider (skip) "b \<le> a" | (glue) "a < b" "?m \<noteq> []" "a \<le> snd (last ?m)"
    | (new) "a < b" "?m = [] \<or> snd (last ?m) < a" by linarith
  then show ?case
  proof cases
    case skip
    then have "\<not> inside t x" for t by (simp add: x inside_def)
    with skip IH show ?thesis by (auto simp: x)
  next
    case glue
    obtain m' c d where m: "?m = m' @ [(c, d)]" using glue(2) by (metis append_butlast_last_id surj_pair)
    have res: "foldl merge_gap [] (xs @ [x]) = m' @ [(c, max d b)]"
      using glue m by (simp add: x)
    have "c \<le> a" "a \<le> d" using fst_le [of "(c, d)"] glue(3) m by auto
    moreover have "covers xs t \<longleftrightarrow> covers m' t \<or> inside t (c, d)" for t
      using IH(2) [of t] m by simp
    ultimately show ?thesis using IH(1,3,4) glue(1) unfolding res m
      by (auto simp: x inside_def max_def)
  next
    case new
    have res: "foldl merge_gap [] (xs @ [x]) = ?m @ [(a, b)]" using new by (auto simp: x)
    have "snd y < a" if "y \<in> set ?m" for y
    proof -
      from that obtain m' l where m: "?m = m' @ [l]" by (cases ?m rule: rev_cases) auto
      with IH(1) that new(2) show ?thesis by auto
    qed
    then show ?thesis using IH new(1) unfolding res by (auto simp: x)
  qed
qed simp

lemma subtract_gap_spec:
  assumes "separated m" and "\<forall>iv\<in>set m. s \<le> fst iv"
  defines "r \<equiv> foldl subtract_gap (s, []) m"
  shows "fst r = (if m = [] then s else snd (last m)) \<and> separated (snd r) \<and>
    (\<forall>iv\<in>set (snd r). s \<le> fst iv \<and> m \<noteq> [] \<and> snd iv < snd (last m)) \<and>
    (\<forall>t. covers (snd r) t \<longleftrightarrow> s \<le> t \<and> t < fst r \<and> \<not> covers m t)"
  using assms(1,2) unfolding r_def
proof (induction m rule: rev_induct)
  case (snoc x m)
  obtain a b where x: "x = (a, b)" by (cases x)
  obtain c res where r: "foldl subtract_gap (s, []) m = (c, res)" by fastforce
  from snoc have ab: "s \<le> a" "a < b" and before: "\<forall>y\<in>set m. snd y < a"
    and c: "c = (if m = [] then s else snd (last m))" and sep: "separated res"
    and bnd: "\<forall>iv\<in>set res. s \<le> fst iv \<and> m \<noteq> [] \<and> snd iv < snd (last m)"
    and cov: "\<And>t. covers res t \<longleftrightarrow> s \<le> t \<and> t < c \<and> \<not> covers m t"
    by (auto simp: x r)
  have ca: "c \<le> a" and sc: "m \<noteq> [] \<Longrightarrow> c < a" using c ab before by (auto simp: less_imp_le)
  have off: "\<not> covers m t" if "c \<le> t" for t
  proof
    assume "covers m t"
    then obtain y where y: "y \<in> set m" "t < snd y" by (auto simp: covers_def list_ex_iff inside_def)
    then have "snd y \<le> c" using separated_last(1) [OF _ y(1)] snoc.prems(1) c by auto
    with y(2) that show False by simp
  qed
  have "s \<le> c" using separated_cursor [of m s] snoc.prems c by simp
  show ?case
  proof (cases "c < a")
    case True
    then have res: "foldl subtract_gap (s, []) (m @ [x]) = (b, res @ [(c, a)])"
      using ab by (simp add: x r)
    have "snd iv < c" if "iv \<in> set res" for iv using bnd c that by auto
    with True ab sep bnd cov off \<open>s \<le> c\<close> show ?thesis unfolding res
      by (fastforce simp: x inside_def)
  next
    case False
    then have "m = []" using sc by blast
    moreover from this False have "c = s" "a = s" using c ca by simp_all
    ultimately show ?thesis using r ab(2) by (auto simp: x inside_def)
  qed
qed simp

lemma subtract_gaps_spec:
  "separated (subtract_gaps s e gaps) \<and>
   (\<forall>t. covers (subtract_gaps s e gaps) t \<longleftrightarrow>
      s \<le> t \<and> t < e \<and> \<not> (\<exists>g\<in>set gaps. gap_start_ns g \<le> t \<and> t < gap_end_ns g))"
proof -
  let ?m = "foldl merge_gap [] (clip_gaps s e gaps)"
  obtain c r where cr: "foldl subtract_gap (s, []) ?m = (c, r)" by fastforce
  have clip: "sorted (clip_gaps s e gaps)" by (simp add: clip_gaps_def)
  have bound: "s \<le> fst iv \<and> snd iv \<le> e" if "iv \<in> set (clip_gaps s e gaps)" for iv
    using that by (auto simp: clip_gaps_def)
  note m = merge_gaps_spec [OF clip]
  have lo: "\<forall>iv\<in>set ?m. s \<le> fst iv" using m bound by fastforce
  have hi: "\<forall>iv\<in>set ?m. snd iv \<le> e" using m bound by fastforce
  from subtract_gap_spec [OF conjunct1 [OF m] lo] cr
  have c: "c = (if ?m = [] then s else snd (last ?m))" and sep: "separated r"
    and bnd: "\<forall>iv\<in>set r. s \<le> fst iv \<and> ?m \<noteq> [] \<and> snd iv < snd (last ?m)"
    and cov: "\<And>t. covers r t \<longleftrightarrow> s \<le> t \<and> t < c \<and> \<not> covers ?m t" by simp_all
  have mcov: "covers ?m t \<longleftrightarrow>
      s \<le> t \<and> t < e \<and> (\<exists>g\<in>set gaps. gap_start_ns g \<le> t \<and> t < gap_end_ns g)" for t
    using m covers_clip_gaps [of s e gaps t] by blast
  have ce: "c \<le> e \<or> ?m = []" using c hi by auto
  have past: "\<not> covers ?m t" if "c \<le> t" for t
    using that c separated_last(1) [OF conjunct1 [OF m]]
    by (force simp: covers_def list_ex_iff inside_def split: if_splits)
  have sc: "s \<le> c" using separated_cursor [OF conjunct1 [OF m] lo] c by simp
  have res: "subtract_gaps s e gaps = (if c < e then r @ [(c, e)] else r)"
    by (simp add: subtract_gaps_def cr)
  have lt: "snd x < c" if "x \<in> set r" for x using bnd c that by auto
  show ?thesis
  proof (cases "c < e")
    case True
    then show ?thesis unfolding res using sep lt cov mcov past sc by (fastforce simp: inside_def)
  next
    case False
    then have "t < e \<and> s \<le> t \<longrightarrow> t < c" for t by auto
    with False show ?thesis unfolding res using sep cov mcov ce c by fastforce
  qed
qed

lemma separated_apart:
  assumes "separated ivs" and "x \<in> set ivs" and "y \<in> set ivs" and "x \<noteq> y"
  shows "snd x < fst y \<or> snd y < fst x"
proof -
  from assms(2,3) obtain i j where "i < length ivs" "j < length ivs" "x = ivs ! i" "y = ivs ! j"
    by (auto simp: in_set_conv_nth)
  with assms show ?thesis
    by (cases i j rule: linorder_cases) (auto simp: separated_def sorted_wrt_iff_nth_less)
qed

text \<open>A stretch of instants is covered exactly if one single interval contains all of it.\<close>

lemma separated_contiguous:
  assumes "separated ivs" and "a < b"
  shows "(\<exists>iv\<in>set ivs. fst iv \<le> a \<and> b \<le> snd iv) \<longleftrightarrow> (\<forall>t. a \<le> t \<and> t < b \<longrightarrow> covers ivs t)"
proof
  assume all: "\<forall>t. a \<le> t \<and> t < b \<longrightarrow> covers ivs t"
  with assms(2) obtain x where x: "x \<in> set ivs" "fst x \<le> a" "a < snd x"
    by (auto simp: covers_def list_ex_iff inside_def)
  have "b \<le> snd x"
  proof (rule ccontr)
    assume "\<not> b \<le> snd x"
    with all x obtain y where y: "y \<in> set ivs" "fst y \<le> snd x" "snd x < snd y"
      by (auto simp: covers_def list_ex_iff inside_def dest!: spec [of _ "snd x"])
    then have "fst x < snd x" "x \<noteq> y" using x by auto
    with separated_apart [OF assms(1) x(1) y(1)] y(2,3) show False by linarith
  qed
  with x show "\<exists>iv\<in>set ivs. fst iv \<le> a \<and> b \<le> snd iv" by blast
qed (force simp: covers_def list_ex_iff inside_def)

section \<open>Reachable catalogs\<close>

inductive catalog_reach :: "CoverageCatalog \<Rightarrow> bool" where
  cat_init: "list_all (\<lambda>m. ManifestRecord_post_init m = Inr ()) ms \<Longrightarrow>
     CoverageCatalog_init ms = Inr c \<Longrightarrow> catalog_reach c"
| cat_register: "catalog_reach c \<Longrightarrow> ManifestRecord_post_init m = Inr () \<Longrightarrow>
     register m c = Inr (b, c') \<Longrightarrow> catalog_reach c'"
| cat_revoke: "catalog_reach c \<Longrightarrow> revoke h ns reason c = Inr (b, c') \<Longrightarrow> catalog_reach c'"

definition catalog_ok :: "CoverageCatalog \<Rightarrow> bool" where
  "catalog_ok c \<longleftrightarrow> distinct (map fst (cat_manifests c)) \<and>
     (\<forall>h m. map_of (cat_manifests c) h = Some m \<longrightarrow>
        h = m_manifest_hash m \<and> ManifestRecord_post_init m = Inr ()) \<and>
     distinct (map fst (cat_revocations c)) \<and>
     dom (map_of (cat_revocations c)) \<subseteq> dom (map_of (cat_manifests c))"

lemma update_fresh: "map_of kvs k = None \<Longrightarrow> AList.update k v kvs = kvs @ [(k, v)]"
  by (induction kvs) (auto split: if_splits)

lemma register_ok:
  assumes "catalog_ok c" and "ManifestRecord_post_init m = Inr ()" and "register m c = Inr (b, c')"
  shows "catalog_ok c'"
proof (cases "map_of (cat_manifests c) (m_manifest_hash m)")
  case None
  with assms(3) have c': "c' = c\<lparr>cat_manifests :=
      AList.update (m_manifest_hash m) m (cat_manifests c)\<rparr>" by (simp add: register_def)
  show ?thesis
    using assms(1,2) unfolding catalog_ok_def c'
    by (simp add: distinct_update del: map_of_eq_Some_iff) blast
qed (use assms in \<open>auto simp: register_def split: if_splits\<close>)

lemma register_all_ok:
  "catalog_ok c \<Longrightarrow> list_all (\<lambda>m. ManifestRecord_post_init m = Inr ()) ms \<Longrightarrow>
   register_all ms c = Inr c' \<Longrightarrow> catalog_ok c'"
  by (induction ms arbitrary: c) (auto dest: register_ok)

lemma revoke_ok:
  assumes "catalog_ok c" and "revoke h ns reason c = Inr (b, c')"
  shows "catalog_ok c'"
proof -
  from assms(2) have "h \<in> dom (map_of (cat_manifests c))" by (auto simp: revoke_def)
  moreover have "c' = c \<or> c' = c\<lparr>cat_revocations :=
      AList.update h (ns, reason) (cat_revocations c)\<rparr>"
    using assms(2) by (auto simp: revoke_def split: option.splits if_splits)
  ultimately show ?thesis
    using assms(1) unfolding catalog_ok_def
    by (elim disjE) (simp_all add: distinct_update del: map_of_eq_Some_iff)
qed

lemma catalog_reach_ok: "catalog_reach c \<Longrightarrow> catalog_ok c"
proof (induction rule: catalog_reach.induct)
  case (cat_init ms c)
  then show ?case
    using register_all_ok [of "\<lparr>cat_manifests = [], cat_revocations = []\<rparr>" ms c]
    by (simp add: CoverageCatalog_init_def catalog_ok_def)
qed (auto intro: register_ok revoke_ok)

lemma catalog_ok_lookup:
  "catalog_ok c \<Longrightarrow> (h, m) \<in> set (cat_manifests c) \<longleftrightarrow> map_of (cat_manifests c) h = Some m"
  by (simp add: catalog_ok_def)

lemma catalog_ok_values:
  assumes "catalog_ok c"
  shows "m \<in> set (manifest_values c) \<and> m_manifest_hash m = h \<longleftrightarrow> map_of (cat_manifests c) h = Some m"
proof
  assume m: "m \<in> set (manifest_values c) \<and> m_manifest_hash m = h"
  then obtain k where "(k, m) \<in> set (cat_manifests c)" by (auto simp: manifest_values_def)
  with assms have k: "map_of (cat_manifests c) k = Some m" by (simp add: catalog_ok_def)
  with assms have "k = m_manifest_hash m" by (simp add: catalog_ok_def del: map_of_eq_Some_iff)
  with k m show "map_of (cat_manifests c) h = Some m" by simp
next
  assume h: "map_of (cat_manifests c) h = Some m"
  with assms have "h = m_manifest_hash m" by (simp add: catalog_ok_def del: map_of_eq_Some_iff)
  with map_of_SomeD [OF h] show "m \<in> set (manifest_values c) \<and> m_manifest_hash m = h"
    by (force simp: manifest_values_def)
qed

section \<open>Manifests and revocations are write-once\<close>

interpretation manifests: write_once m_manifest_hash "\<lambda>c. map_of (cat_manifests c)" register
  by unfold_locales (auto simp: register_def split: option.splits if_splits)

lemma register_all_put_all: "register_all ms c = manifests.put_all ms c"
  by (induction ms arbitrary: c) (auto simp: bindR_def split: sum.splits)

lemma register_revocations: "register m c = Inr (b, c') \<Longrightarrow> cat_revocations c' = cat_revocations c"
  by (auto simp: register_def split: option.splits if_splits)

lemma revoke_manifests: "revoke h ns reason c = Inr (b, c') \<Longrightarrow> cat_manifests c' = cat_manifests c"
  by (auto simp: revoke_def split: option.splits if_splits)

text \<open>Revocations as facts that carry their own key.\<close>

definition revocation_fact :: "CoverageCatalog \<Rightarrow> string \<Rightarrow> (string \<times> int \<times> string) option" where
  "revocation_fact c h = map_option (\<lambda>f. (h, f)) (map_of (cat_revocations c) h)"

definition put_revocation ::
    "string \<times> int \<times> string \<Rightarrow> CoverageCatalog \<Rightarrow> (bool \<times> CoverageCatalog) res" where
  "put_revocation f c = (case f of (h, ns, reason) \<Rightarrow>
     if map_of (cat_revocations c) h = Some (ns, reason) then Inr (False, c)
     else revoke h ns reason c)"

interpretation revocations: write_once fst revocation_fact put_revocation
  by unfold_locales
    (auto simp: put_revocation_def revocation_fact_def revoke_def fun_eq_iff
      split: option.splits if_splits prod.splits)

lemma put_revocation_revoke:
  "revoke h ns reason c = Inr (b, c') \<Longrightarrow> put_revocation (h, ns, reason) c = Inr (b, c')"
  by (auto simp: put_revocation_def revoke_def split: option.splits if_splits)

section \<open>What eligibility means\<close>

text \<open>The specification: a manifest may serve a request at all, and it covers an instant.\<close>

definition manifest_serves :: "CoverageCatalog \<Rightarrow> SetupRequirement \<Rightarrow> ManifestRecord \<Rightarrow> bool" where
  "manifest_serves c r m \<longleftrightarrow>
     m_instrument_id m = req_instrument_id r \<and>
     (m_status m = VALID \<or> m_status m = DEGRADED \<and> req_allow_degraded r) \<and>
     \<not> is_revoked c (m_manifest_hash m) \<and>
     req_minimum_tier r \<le> m_execution_tier m \<and>
     req_required_capabilities r \<subseteq> m_capabilities m \<and>
     m_redistribution_class m \<in> req_allowed_redistribution r"

definition has_data_at :: "ManifestRecord \<Rightarrow> int \<Rightarrow> bool" where
  "has_data_at m t \<longleftrightarrow> m_actual_start_ns m \<le> t \<and> t < m_actual_end_ns m \<and>
     \<not> (\<exists>g\<in>set (m_known_gaps m). gap_start_ns g \<le> t \<and> t < gap_end_ns g)"

definition manifest_intervals :: "ManifestRecord \<Rightarrow> (int \<times> int) list" where
  "manifest_intervals m = subtract_gaps (m_actual_start_ns m) (m_actual_end_ns m) (m_known_gaps m)"

lemma manifest_intervals_spec:
  "separated (manifest_intervals m)" "covers (manifest_intervals m) t \<longleftrightarrow> has_data_at m t"
  using subtract_gaps_spec by (simp_all add: manifest_intervals_def has_data_at_def)

lemma segment_of_sel [simp]:
  "seg_start_ns (segment_of m iv) = fst iv" "seg_end_ns (segment_of m iv) = snd iv"
  "seg_manifest_hash (segment_of m iv) = m_manifest_hash m"
  by (simp_all add: segment_of_def)

lemma policy_segments:
  "{seg \<in> set (segments c (Some (req_instrument_id r))). segment_meets_policy seg r} =
   (\<Union>m\<in>{m \<in> set (manifest_values c). manifest_serves c r m}. segment_of m ` set (manifest_intervals m))"
  (is "?A = ?B")
proof -
  have "set (manifest_segments c (Some (req_instrument_id r)) m) \<inter> {seg. segment_meets_policy seg r} =
      (if manifest_serves c r m then segment_of m ` set (manifest_intervals m) else {})" for m
    by (auto simp: manifest_segments_def manifest_serves_def segment_meets_policy_def
        segment_of_def manifest_intervals_def less_eq_ExecutionTier_def)
  moreover have "?A = (\<Union>m\<in>set (manifest_values c).
      set (manifest_segments c (Some (req_instrument_id r)) m) \<inter> {seg. segment_meets_policy seg r})"
    by (auto simp: segments_def)
  ultimately show ?thesis by (simp split: if_splits) blast
qed

lemma image_filter_UN:
  "f ` {y \<in> (\<Union>m\<in>A. g m ` B m). P y} = (\<Union>m\<in>A. (f \<circ> g m) ` {x \<in> B m. P (g m x)})"
  by auto

lemma set_eligible_setups:
  "set (eligible_setups c r) =
   (\<Union>m\<in>{m \<in> set (manifest_values c). manifest_serves c r m}. (setup_of r \<circ> segment_of m) `
      {iv \<in> set (manifest_intervals m). fst iv \<le> required_start_ns r \<and> required_end_ns r \<le> snd iv})"
proof -
  have "set (eligible_setups c r) = setup_of r `
      {seg \<in> {seg \<in> set (segments c (Some (req_instrument_id r))). segment_meets_policy seg r}.
         seg_start_ns seg \<le> required_start_ns r \<and> required_end_ns r \<le> seg_end_ns seg}"
    by (auto simp: eligible_setups_def)
  then show ?thesis unfolding policy_segments image_filter_UN by simp
qed

lemma set_eligible_windows:
  "set (eligible_windows c r) =
   (\<Union>m\<in>{m \<in> set (manifest_values c). manifest_serves c r m}. (window_of r \<circ> segment_of m) `
      {iv \<in> set (manifest_intervals m). fst iv + req_warmup_ns r \<le> snd iv - req_duration_ns r})"
proof -
  have "set (eligible_windows c r) = window_of r `
      {seg \<in> {seg \<in> set (segments c (Some (req_instrument_id r))). segment_meets_policy seg r}.
         seg_start_ns seg + req_warmup_ns r \<le> seg_end_ns seg - req_duration_ns r}"
    by (auto simp: eligible_windows_def)
  then show ?thesis unfolding policy_segments image_filter_UN by simp
qed

lemma eligible_manifest:
  assumes "catalog_ok c" and "required_start_ns r < required_end_ns r"
  shows "(\<exists>e. e \<in> set (eligible_setups c r) \<and> es_manifest_hash e = h) \<longleftrightarrow>
    (\<exists>m. map_of (cat_manifests c) h = Some m \<and> manifest_serves c r m \<and>
       (\<forall>t. required_start_ns r \<le> t \<and> t < required_end_ns r \<longrightarrow> has_data_at m t))"
  (is "?L \<longleftrightarrow> ?R")
proof -
  have "?L \<longleftrightarrow> (\<exists>m. (m \<in> set (manifest_values c) \<and> m_manifest_hash m = h) \<and> manifest_serves c r m \<and>
      (\<exists>iv\<in>set (manifest_intervals m). fst iv \<le> required_start_ns r \<and> required_end_ns r \<le> snd iv))"
    unfolding set_eligible_setups by (force simp: setup_of_def)
  also have "\<dots> \<longleftrightarrow> ?R"
    using separated_contiguous [OF manifest_intervals_spec(1) assms(2)]
    by (simp add: manifest_intervals_spec(2) catalog_ok_values [OF assms(1)])
  finally show ?thesis .
qed

lemma EligibleSetup_key_inj: "inj EligibleSetup_key"
  by (rule injI) (simp add: EligibleSetup_key_def)

lemma eligible_json_inject:
  assumes "sort_keys (eligible_json a) = sort_keys (eligible_json b)"
  shows "a = b"
proof -
  have "sort_keys (eligible_json e) = JObj
     [(''coverage_end_ns'', JStr (str_int (es_coverage_end_ns e))),
      (''coverage_start_ns'', JStr (str_int (es_coverage_start_ns e))),
      (''manifest_hash'', JStr (es_manifest_hash e)),
      (''play_end_ns'', JStr (str_int (es_play_end_ns e))),
      (''play_start_ns'', JStr (str_int (es_play_start_ns e)))]" for e
    by (simp add: eligible_json_def)
  with assms show ?thesis by (simp add: str_int_inject)
qed

section \<open>Properties of the catalog\<close>

text \<open>C40: on every catalog that registration and revocation can produce, a manifest is offered
  for a valid request exactly if it is registered, may serve the request (same instrument, usable and
  permitted quality, not revoked, fidelity tier, capabilities, licence) and by itself has data at every
  instant from the start of the warm-up to the end of play: coverage is never stitched across a gap or
  across manifests, and no manifest that would do is missed.\<close>

theorem eligible_setups_exact:
  assumes "catalog_reach c" and "SetupRequirement_post_init r = Inr ()"
  shows "(\<exists>e. e \<in> set (eligible_setups c r) \<and> es_manifest_hash e = h) =
    (\<exists>m. map_of (cat_manifests c) h = Some m \<and> manifest_serves c r m \<and>
       (\<forall>t. required_start_ns r \<le> t \<and> t < required_end_ns r \<longrightarrow> has_data_at m t))"
proof -
  have "required_start_ns r < required_end_ns r"
    using assms(2) by (simp add: SetupRequirement_post_init_def required_start_ns_def required_end_ns_def)
  with catalog_reach_ok [OF assms(1)] show ?thesis by (rule eligible_manifest)
qed

text \<open>Setups and windows agree. An exact setup is eligible for a play start \<open>p\<close> precisely if
  \<open>p\<close> lies in one of the windows reported for the same warm-up, duration and policy, and it carries
  that window's manifest and coverage.\<close>

theorem windows_characterise_setups:
  "e \<in> set (eligible_setups c (r\<lparr>req_play_start_ns := p\<rparr>)) \<longleftrightarrow>
   (\<exists>w. w \<in> set (eligible_windows c r) \<and> ew_earliest_play_start_ns w \<le> p \<and>
      p \<le> ew_latest_play_start_ns w \<and>
      e = \<lparr>es_manifest_hash = ew_manifest_hash w, es_coverage_start_ns = ew_coverage_start_ns w,
           es_coverage_end_ns = ew_coverage_end_ns w, es_play_start_ns = p,
           es_play_end_ns = p + req_duration_ns r\<rparr>)"
proof -
  have "manifest_serves c (r\<lparr>req_play_start_ns := p\<rparr>) = manifest_serves c r"
    by (simp add: manifest_serves_def fun_eq_iff)
  then show ?thesis
    unfolding set_eligible_setups set_eligible_windows
    by (force simp: setup_of_def window_of_def required_start_ns_def required_end_ns_def)
qed

text \<open>Gap subtraction returns exactly the instants of the half-open manifest interval that
  no known gap contains, as non-empty intervals in increasing order that never touch (so each
  one is a maximal gap-free stretch). No assumption is made on the gaps: they may overlap, be
  out of order or lie outside of the interval.\<close>

theorem subtract_gaps_exact:
  "(\<forall>t. (\<exists>iv. iv \<in> set (subtract_gaps s e gaps) \<and> fst iv \<le> t \<and> t < snd iv) =
        (s \<le> t \<and> t < e \<and> \<not> (\<exists>g. g \<in> set gaps \<and> gap_start_ns g \<le> t \<and> t < gap_end_ns g))) \<and>
   list_all (\<lambda>iv. fst iv < snd iv) (subtract_gaps s e gaps) \<and>
   sorted_wrt (\<lambda>x y. snd x < fst y) (subtract_gaps s e gaps)"
  using subtract_gaps_spec [of s e gaps]
  unfolding separated_def covers_def list_ex_iff inside_def by blast

text \<open>The eligible list and its hash depend only on the recorded facts. Two reachable catalogs
  that hold the same manifests and the same revoked hashes give the same list in the same order, and
  the same eligibility hash, in whatever order the facts were recorded.\<close>

theorem eligibility_order_independent:
  assumes "catalog_reach c" and "catalog_reach d"
    and "map_of (cat_manifests c) = map_of (cat_manifests d)"
    and "is_revoked c = is_revoked d"
  shows "eligible_setups c r = eligible_setups d r \<and> eligibility_hash c r = eligibility_hash d r"
proof -
  have "mset (cat_manifests c) = mset (cat_manifests d)"
    using assms(3) catalog_reach_ok [OF assms(1)] catalog_reach_ok [OF assms(2)]
    by (simp add: catalog_ok_def set_eq_iff_mset_eq_distinct [symmetric] distinct_map map_of_inject_set)
  then have "mset (manifest_values c) = mset (manifest_values d)"
    by (simp add: manifest_values_def)
  moreover have "manifest_segments c = manifest_segments d"
    using assms(4) by (simp add: manifest_segments_def fun_eq_iff)
  ultimately have "mset (segments c i) = mset (segments d i)" for i
    by (simp add: segments_def mset_concat flip: sum_mset_sum_list)
  then have "eligible_setups c r = eligible_setups d r"
    unfolding eligible_setups_def by (intro sort_key_mset EligibleSetup_key_inj) simp
  then show ?thesis by (simp add: eligibility_hash_def)
qed

text \<open>The eligibility hash binds the eligible list. Two catalogs and requests with the same hash
  have the same eligible setups in the same order, unless a collision of SHA-256 is at hand.\<close>

theorem eligibility_hash_binding:
  assumes "eligibility_hash c r = eligibility_hash d q"
  shows "eligible_setups c r = eligible_setups d q \<or> sha256_collision"
proof -
  let ?j = "\<lambda>c r. JList (map eligible_json (eligible_setups c r))"
  have nf: "no_float (?j c r)" for c r by (simp add: list_all_iff eligible_json_def)
  from assms consider "ascii (dumps (?j c r)) = ascii (dumps (?j d q))" | sha256_collision
    unfolding eligibility_hash_def by (blast dest: sha256_hex_eqD)
  then show ?thesis
  proof cases
    case 1
    then have "sort_keys (?j c r) = sort_keys (?j d q)"
      by (intro dumps_inject nf) simp
    then have "map (sort_keys \<circ> eligible_json) (eligible_setups c r) =
        map (sort_keys \<circ> eligible_json) (eligible_setups d q)" by simp
    moreover have "inj (sort_keys \<circ> eligible_json)"
      by (rule injI) (simp add: eligible_json_inject)
    ultimately show ?thesis by (simp only: inj_map_eq_map simp_thms)
  qed simp
qed

text \<open>Revocation is final and precise. After an accepted revocation the manifest is kept but no
  coverage segment of it is ever returned again, whatever is registered or revoked later; coverage of
  every other manifest is as before.\<close>

theorem revoked_never_covers:
  assumes "revoke h ns reason c = Inr (b, c')"
  shows "cat_manifests c' = cat_manifests c \<and>
    (\<forall>ms d seg. register_all ms c' = Inr d \<longrightarrow> seg \<in> set (segments d i) \<longrightarrow> seg_manifest_hash seg \<noteq> h) \<and>
    filter (\<lambda>seg. seg_manifest_hash seg \<noteq> h) (segments c i) = segments c' i"
proof -
  have rev: "is_revoked c' = (is_revoked c)(h := True)"
    using assms by (auto simp: revoke_def is_revoked_def fun_eq_iff split: option.splits if_splits)
  have segs: "seg_manifest_hash seg = m_manifest_hash m"
    if "seg \<in> set (manifest_segments d i m)" for seg d m
    using that by (auto simp: manifest_segments_def split: if_splits)
  have keep: "register_all ms d = Inr d' \<Longrightarrow> is_revoked d' = is_revoked d" for ms d d'
    by (induction ms arbitrary: d) (auto simp: is_revoked_def dest!: register_revocations)
  have none: "seg_manifest_hash seg \<noteq> h" if "register_all ms c' = Inr d" "seg \<in> set (segments d i)" for ms d seg
  proof -
    from that(2) obtain m where m: "seg \<in> set (manifest_segments d i m)" by (auto simp: segments_def)
    then have "\<not> is_revoked d (m_manifest_hash m)" by (auto simp: manifest_segments_def split: if_splits)
    with keep [OF that(1)] rev segs [OF m] show ?thesis by auto
  qed
  have "filter (\<lambda>seg. seg_manifest_hash seg \<noteq> h) (manifest_segments c i m) = manifest_segments c' i m" for m
    by (cases "m_manifest_hash m = h") (auto simp: manifest_segments_def rev filter_empty_conv filter_id_conv)
  then have "filter (\<lambda>seg. seg_manifest_hash seg \<noteq> h) (segments c i) = segments c' i"
    by (simp add: segments_def filter_sort filter_concat manifest_values_def o_def revoke_manifests [OF assms])
  with none revoke_manifests [OF assms] show ?thesis by blast
qed

text \<open>Manifests are immutable. An accepted registration records the manifest under its hash, keeps
  every manifest that was there, and repeating it (at once or after further registrations) changes nothing;
  registering other facts under a known hash is refused.\<close>

theorem register_immutable:
  assumes "register m c = Inr (b, c')"
  shows "map_of (cat_manifests c') (m_manifest_hash m) = Some m \<and>
    (\<forall>h w. map_of (cat_manifests c) h = Some w \<longrightarrow> map_of (cat_manifests c') h = Some w) \<and>
    (\<forall>ms d. register_all ms c' = Inr d \<longrightarrow> register m d = Inr (False, d)) \<and>
    (\<forall>w. m_manifest_hash w = m_manifest_hash m \<and> w \<noteq> m \<longrightarrow> register w c' = Inl ManifestHashConflict)"
proof -
  note stored = manifests.put_stored [OF assms]
  have "register m d = Inr (False, d)" if "register_all ms c' = Inr d" for ms d
    using manifests.put_all_persists [OF that [unfolded register_all_put_all] stored]
    by (rule manifests.put_retry)
  moreover have "register w c' = Inl ManifestHashConflict"
    if "m_manifest_hash w = m_manifest_hash m" "w \<noteq> m" for w
    using stored that by (simp add: register_def)
  ultimately show ?thesis using stored manifests.put_persists [OF assms] by blast
qed

section \<open>Witnesses\<close>

definition demo_hash :: string where
  "demo_hash = replicate 64 (CHR ''a'')"

definition demo_manifest :: ManifestRecord where
  "demo_manifest =
     \<lparr>m_manifest_hash = demo_hash, m_manifest_id = ''btc'', m_provider = ''binance'',
      m_dataset = ''trades'', m_venue_id = ''binance'', m_instrument_id = ''BTC-USDT'',
      m_adapter_version = ''1'', m_canonical_content_hash = demo_hash,
      m_actual_start_ns = 0, m_actual_end_ns = 1000, m_status = VALID,
      m_redistribution_class = REDISTRIBUTABLE, m_execution_tier = F1,
      m_capabilities = {TRADES, BBO},
      m_known_gaps = [\<lparr>gap_start_ns = 700, gap_end_ns = 800, gap_reason = ''outage''\<rparr>,
                      \<lparr>gap_start_ns = 100, gap_end_ns = 200, gap_reason = ''outage''\<rparr>],
      m_quality_decisions = [], m_provenance = [], m_ingested_at_ns = 5\<rparr>"

definition demo_catalog :: CoverageCatalog where
  "demo_catalog = \<lparr>cat_manifests = [(demo_hash, demo_manifest)], cat_revocations = []\<rparr>"

definition demo_requirement :: SetupRequirement where
  "demo_requirement =
     \<lparr>req_instrument_id = ''BTC-USDT'', req_play_start_ns = 300, req_warmup_ns = 50,
      req_duration_ns = 400, req_minimum_tier = F0T, req_required_capabilities = {TRADES},
      req_allowed_redistribution = {REDISTRIBUTABLE, USER_LICENSED}, req_allow_degraded = False\<rparr>"

lemma demo_facts:
  "ManifestRecord_post_init demo_manifest = Inr ()"
  "SetupRequirement_post_init demo_requirement = Inr ()"
  "CoverageCatalog_init [demo_manifest] = Inr demo_catalog"
  by code_simp+

lemma demo_catalog_reach: "catalog_reach demo_catalog"
  by (rule cat_init [of "[demo_manifest]"]) (simp_all add: demo_facts)

lemma demo_eligible: "eligible_setups demo_catalog demo_requirement =
   [\<lparr>es_manifest_hash = demo_hash, es_coverage_start_ns = 200, es_coverage_end_ns = 700,
     es_play_start_ns = 300, es_play_end_ns = 700\<rparr>]"
  by code_simp

theorem eligible_setups_exact_witness:
  "\<exists>m. map_of (cat_manifests demo_catalog) demo_hash = Some m \<and>
     manifest_serves demo_catalog demo_requirement m \<and>
     (\<forall>t. required_start_ns demo_requirement \<le> t \<and> t < required_end_ns demo_requirement \<longrightarrow> has_data_at m t)"
  using eligible_setups_exact [OF demo_catalog_reach demo_facts(2), of demo_hash]
  by (simp add: demo_eligible)

lemma demo_register_again: "register demo_manifest demo_catalog = Inr (False, demo_catalog)"
  by code_simp

definition demo_manifest2 :: ManifestRecord where
  "demo_manifest2 = demo_manifest\<lparr>m_manifest_hash := replicate 64 (CHR ''b'')\<rparr>"

definition demo_ab :: CoverageCatalog where
  "demo_ab = \<lparr>cat_manifests = [(demo_hash, demo_manifest), (replicate 64 (CHR ''b''), demo_manifest2)],
     cat_revocations = []\<rparr>"

definition demo_ba :: CoverageCatalog where
  "demo_ba = \<lparr>cat_manifests = [(replicate 64 (CHR ''b''), demo_manifest2), (demo_hash, demo_manifest)],
     cat_revocations = []\<rparr>"

lemma demo_orders:
  "ManifestRecord_post_init demo_manifest2 = Inr ()"
  "CoverageCatalog_init [demo_manifest, demo_manifest2] = Inr demo_ab"
  "CoverageCatalog_init [demo_manifest2, demo_manifest] = Inr demo_ba"
  by code_simp+

lemma demo_orders_reach: "catalog_reach demo_ab" "catalog_reach demo_ba"
  by (rule cat_init [of "[demo_manifest, demo_manifest2]"], simp_all add: demo_facts demo_orders)
     (rule cat_init [of "[demo_manifest2, demo_manifest]"], simp_all add: demo_facts demo_orders)

lemma demo_orders_same:
  "map_of (cat_manifests demo_ab) = map_of (cat_manifests demo_ba)"
  "is_revoked demo_ab = is_revoked demo_ba"
  by (simp_all add: demo_ab_def demo_ba_def is_revoked_def demo_hash_def fun_upd_twist fun_eq_iff)

theorem eligibility_order_independent_witness:
  "eligible_setups demo_ab demo_requirement = eligible_setups demo_ba demo_requirement \<and>
   eligibility_hash demo_ab demo_requirement = eligibility_hash demo_ba demo_requirement"
  by (rule eligibility_order_independent [OF demo_orders_reach demo_orders_same])

lemma demo_same_hash: "eligibility_hash demo_catalog demo_requirement =
    eligibility_hash demo_catalog (demo_requirement\<lparr>req_minimum_tier := F1\<rparr>)"
proof -
  have "eligible_setups demo_catalog (demo_requirement\<lparr>req_minimum_tier := F1\<rparr>) =
      eligible_setups demo_catalog demo_requirement" by code_simp
  then show ?thesis by (simp add: eligibility_hash_def)
qed

theorem eligibility_hash_binding_witness:
  "eligible_setups demo_catalog demo_requirement =
     eligible_setups demo_catalog (demo_requirement\<lparr>req_minimum_tier := F1\<rparr>) \<or> sha256_collision"
  by (rule eligibility_hash_binding [OF demo_same_hash])

definition demo_revoked :: CoverageCatalog where
  "demo_revoked = demo_catalog\<lparr>cat_revocations := [(demo_hash, 7, ''licence'')]\<rparr>"

lemma demo_revoke: "revoke demo_hash 7 ''licence'' demo_catalog = Inr (True, demo_revoked)"
  by code_simp

theorem revoked_never_covers_witness:
  "filter (\<lambda>seg. seg_manifest_hash seg \<noteq> demo_hash) (segments demo_catalog None) = segments demo_revoked None"
  using revoked_never_covers [OF demo_revoke] by blast

theorem register_immutable_witness:
  "map_of (cat_manifests demo_catalog) demo_hash = Some demo_manifest \<and>
   register (demo_manifest\<lparr>m_provider := ''tardis''\<rparr>) demo_catalog = Inl ManifestHashConflict"
  using register_immutable [OF demo_register_again]
  by (simp add: demo_manifest_def)

end
