(* ===== verification/Database.thy ===== *)
theory Database
  imports Json
begin

text \<open>
  The tables of \<^verbatim>\<open>db/schema.py\<close> as lists of rows in insertion order, with the inserts and
  the session update the services issue. An insert refuses a row that breaks a primary key, a
  unique constraint, a check or a foreign key (\<open>IntegrityError\<close>).

  A transaction (\<^verbatim>\<open>with engine.begin()\<close>) is a function from a database to an exception or
  a value and the new database; an exception leaves the caller with the old database, which is
  the rollback. Transactions are atomic: each one runs on the state the previous one left. Text
  lengths are not enforced, and a number is read back as it was written.

  The locale \<open>hash_chain\<close> is the contract of an append-only log whose entries carry consecutive
  numbers and the hash of their predecessor; \<open>bound_chain\<close> adds that an entry's hash
  determines its content.
\<close>

section \<open>Rows\<close>

record ruleset_row =
  r_ruleset_id :: string
  r_ruleset_version :: string
  r_ruleset_hash :: string
  r_body_json :: json

record session_row =
  s_session_id :: string
  s_principal_id :: string
  s_status :: string
  s_version :: int
  s_ruleset_id :: "string option"
  s_commitment_hash :: "string option"
  s_created_at_ns :: int

record command_row =
  c_command_id :: string
  c_session_id :: string
  c_idempotency_key :: string
  c_payload_hash :: string
  c_expected_session_version :: int
  c_accepted_at_ns :: int
  c_payload_json :: json

record event_row =
  e_session_id :: string
  e_event_seq :: int
  e_logical_ts_ns :: int
  e_event_type :: string
  e_causation_id :: string
  e_correlation_id :: string
  e_payload_json :: json
  e_prior_event_hash :: string
  e_current_event_hash :: string

record snapshot_row =
  n_session_id :: string
  n_event_seq :: int
  n_state_version :: int
  n_state_hash :: string
  n_state_json :: json

record commitment_row =
  k_commitment_id :: string
  k_session_id :: string
  k_kind :: string
  k_algorithm_version :: string
  k_commitment_hash :: string
  k_setup_hash :: string
  k_eligible_set_hash :: string
  k_metadata_json :: json
  k_sealed_secret :: string
  k_revealed_secret :: "string option"

record result_row =
  x_session_id :: string
  x_result_hash :: string
  x_bundle_hash :: string
  x_proof_hash :: string
  x_export_hash :: string
  x_created_at_ns :: int
  x_bundle_json :: json
  x_proof_json :: json
  x_export_json :: json

record db =
  db_rulesets :: "ruleset_row list"
  db_sessions :: "session_row list"
  db_commands :: "command_row list"
  db_events :: "event_row list"
  db_snapshots :: "snapshot_row list"
  db_commitments :: "commitment_row list"
  db_results :: "result_row list"

type_synonym 'a tx = "db \<Rightarrow> ('a \<times> db) res"

definition create_schema :: db where
  "create_schema = \<lparr>db_rulesets = [], db_sessions = [], db_commands = [], db_events = [],
     db_snapshots = [], db_commitments = [], db_results = []\<rparr>"

section \<open>Queries\<close>

definition session_by_id :: "db \<Rightarrow> string \<Rightarrow> session_row option" where
  "session_by_id d session_id = find (\<lambda>r. s_session_id r = session_id) (db_sessions d)"

definition ruleset_by_id :: "db \<Rightarrow> string \<Rightarrow> ruleset_row option" where
  "ruleset_by_id d ruleset_id = find (\<lambda>r. r_ruleset_id r = ruleset_id) (db_rulesets d)"

definition session_events :: "db \<Rightarrow> string \<Rightarrow> event_row list" where
  "session_events d session_id =
     sort_key e_event_seq (filter (\<lambda>e. e_session_id e = session_id) (db_events d))"

definition last_event :: "db \<Rightarrow> string \<Rightarrow> event_row option" where
  "last_event d session_id =
     (if session_events d session_id = [] then None else Some (last (session_events d session_id)))"

section \<open>Constraints\<close>

definition session_row_ok :: "db \<Rightarrow> session_row \<Rightarrow> bool" where
  "session_row_ok d r \<longleftrightarrow> 0 \<le> s_version r \<and>
     (case s_ruleset_id r of None \<Rightarrow> True | Some i \<Rightarrow> ruleset_by_id d i \<noteq> None)"

definition insert_ruleset :: "ruleset_row \<Rightarrow> db \<Rightarrow> db res" where
  "insert_ruleset r d =
     bindR (require (list_all (\<lambda>q. r_ruleset_id q \<noteq> r_ruleset_id r \<and>
         r_ruleset_hash q \<noteq> r_ruleset_hash r) (db_rulesets d)) IntegrityError) (\<lambda>_.
     Inr (d\<lparr>db_rulesets := db_rulesets d @ [r]\<rparr>))"

definition insert_session :: "session_row \<Rightarrow> db \<Rightarrow> db res" where
  "insert_session r d =
     bindR (require (session_by_id d (s_session_id r) = None \<and> session_row_ok d r) IntegrityError) (\<lambda>_.
     Inr (d\<lparr>db_sessions := db_sessions d @ [r]\<rparr>))"

definition insert_command :: "command_row \<Rightarrow> db \<Rightarrow> db res" where
  "insert_command r d =
     bindR (require (list_all (\<lambda>q. c_command_id q \<noteq> c_command_id r \<and>
         (c_session_id q, c_idempotency_key q) \<noteq> (c_session_id r, c_idempotency_key r)) (db_commands d) \<and>
         session_by_id d (c_session_id r) \<noteq> None \<and> 0 \<le> c_expected_session_version r)
       IntegrityError) (\<lambda>_.
     Inr (d\<lparr>db_commands := db_commands d @ [r]\<rparr>))"

definition insert_event :: "event_row \<Rightarrow> db \<Rightarrow> db res" where
  "insert_event r d =
     bindR (require (list_all (\<lambda>q. e_session_id q = e_session_id r \<longrightarrow>
         e_event_seq q \<noteq> e_event_seq r \<and> e_current_event_hash q \<noteq> e_current_event_hash r) (db_events d) \<and>
         session_by_id d (e_session_id r) \<noteq> None \<and> 0 \<le> e_event_seq r)
       IntegrityError) (\<lambda>_.
     Inr (d\<lparr>db_events := db_events d @ [r]\<rparr>))"

fun insert_events :: "event_row list \<Rightarrow> db \<Rightarrow> db res" where
  "insert_events [] d = Inr d"
| "insert_events (r # rs) d = bindR (insert_event r d) (insert_events rs)"

definition insert_snapshot :: "snapshot_row \<Rightarrow> db \<Rightarrow> db res" where
  "insert_snapshot r d =
     bindR (require (list_all (\<lambda>q. (n_session_id q, n_event_seq q) \<noteq> (n_session_id r, n_event_seq r))
         (db_snapshots d) \<and> session_by_id d (n_session_id r) \<noteq> None \<and>
         0 \<le> n_event_seq r \<and> 0 < n_state_version r) IntegrityError) (\<lambda>_.
     Inr (d\<lparr>db_snapshots := db_snapshots d @ [r]\<rparr>))"

definition insert_commitment :: "commitment_row \<Rightarrow> db \<Rightarrow> db res" where
  "insert_commitment r d =
     bindR (require (list_all (\<lambda>q. k_commitment_id q \<noteq> k_commitment_id r \<and>
         (k_session_id q, k_kind q) \<noteq> (k_session_id r, k_kind r)) (db_commitments d) \<and>
         session_by_id d (k_session_id r) \<noteq> None) IntegrityError) (\<lambda>_.
     Inr (d\<lparr>db_commitments := db_commitments d @ [r]\<rparr>))"

definition insert_result :: "result_row \<Rightarrow> db \<Rightarrow> db res" where
  "insert_result r d =
     bindR (require (list_all (\<lambda>q. x_session_id q \<noteq> x_session_id r) (db_results d) \<and>
         session_by_id d (x_session_id r) \<noteq> None) IntegrityError) (\<lambda>_.
     Inr (d\<lparr>db_results := db_results d @ [r]\<rparr>))"

text \<open>\<^verbatim>\<open>UPDATE sessions SET ... WHERE ...\<close> with its row count.\<close>

definition update_sessions ::
    "(session_row \<Rightarrow> bool) \<Rightarrow> (session_row \<Rightarrow> session_row) \<Rightarrow> db \<Rightarrow> (nat \<times> db) res" where
  "update_sessions p f d =
     bindR (require (list_all (\<lambda>r. p r \<longrightarrow> session_row_ok d (f r)) (db_sessions d)) IntegrityError) (\<lambda>_.
     Inr (length (filter p (db_sessions d)),
          d\<lparr>db_sessions := map (\<lambda>r. if p r then f r else r) (db_sessions d)\<rparr>))"

section \<open>Well-formed databases\<close>

definition keys_ok :: "db \<Rightarrow> bool" where
  "keys_ok d \<longleftrightarrow> distinct (map s_session_id (db_sessions d)) \<and>
     distinct (map r_ruleset_id (db_rulesets d))"

lemma find_None_distinct:
  "find (\<lambda>r. k r = x) rows = None \<longleftrightarrow> x \<notin> k ` set rows"
  by (induction rows) auto

lemma find_map_other:
  assumes "\<And>r. k (f r) = k r"
  shows "find (\<lambda>r. k r = x) (map f rows) = map_option f (find (\<lambda>r. k r = x) rows)"
  by (induction rows) (auto simp: assms)

lemma find_append:
  "find p (xs @ ys) = (case find p xs of None \<Rightarrow> find p ys | Some x \<Rightarrow> Some x)"
  by (induction xs) auto

lemma find_SomeD: "find p xs = Some x \<Longrightarrow> x \<in> set xs \<and> p x"
  by (auto simp: find_Some_iff)

lemma filter_unique:
  "distinct (map k rows) \<Longrightarrow> filter (\<lambda>r. k r = x \<and> p r) rows =
     (case find (\<lambda>r. k r = x) rows of None \<Rightarrow> [] | Some r \<Rightarrow> if p r then [r] else [])"
proof (induction rows)
  case (Cons r rows)
  show ?case
  proof (cases "k r = x")
    case True
    with Cons.prems have "filter (\<lambda>q. k q = x \<and> p q) rows = []"
      by (auto simp: filter_empty_conv intro: rev_image_eqI)
    with True show ?thesis by simp
  qed (use Cons in simp)
qed simp

lemma insert_session_spec [simp]:
  "insert_session r d = Inr d' \<longleftrightarrow> session_by_id d (s_session_id r) = None \<and> session_row_ok d r \<and>
     d' = d\<lparr>db_sessions := db_sessions d @ [r]\<rparr>"
  by (auto simp: insert_session_def)

lemma insert_ruleset_spec [simp]:
  "insert_ruleset r d = Inr d' \<longleftrightarrow> ruleset_by_id d (r_ruleset_id r) = None \<and>
     r_ruleset_hash r \<notin> r_ruleset_hash ` set (db_rulesets d) \<and>
     d' = d\<lparr>db_rulesets := db_rulesets d @ [r]\<rparr>"
  by (auto simp: insert_ruleset_def ruleset_by_id_def find_None_distinct list_all_iff
      intro: rev_image_eqI)

lemma insert_event_spec:
  "insert_event r d = Inr d' \<longleftrightarrow>
     list_all (\<lambda>q. e_session_id q = e_session_id r \<longrightarrow>
         e_event_seq q \<noteq> e_event_seq r \<and> e_current_event_hash q \<noteq> e_current_event_hash r) (db_events d) \<and>
     session_by_id d (e_session_id r) \<noteq> None \<and> 0 \<le> e_event_seq r \<and>
     d' = d\<lparr>db_events := db_events d @ [r]\<rparr>"
  by (auto simp: insert_event_def)

lemma session_by_id_append [simp]:
  "session_by_id (d\<lparr>db_sessions := db_sessions d @ [r]\<rparr>) i =
     (case session_by_id d i of None \<Rightarrow> if s_session_id r = i then Some r else None | Some q \<Rightarrow> Some q)"
  by (auto simp: session_by_id_def find_append split: option.splits)

lemma session_by_id_events [simp]:
  "session_by_id (d\<lparr>db_events := es\<rparr>) = session_by_id d"
  "session_by_id (d\<lparr>db_rulesets := rs\<rparr>) = session_by_id d"
  "session_by_id (d\<lparr>db_commands := cs\<rparr>) = session_by_id d"
  "session_by_id (d\<lparr>db_snapshots := ns\<rparr>) = session_by_id d"
  "session_by_id (d\<lparr>db_commitments := ks\<rparr>) = session_by_id d"
  "session_by_id (d\<lparr>db_results := xs\<rparr>) = session_by_id d"
  by (simp_all add: session_by_id_def fun_eq_iff)

lemma session_events_frame [simp]:
  "session_events (d\<lparr>db_sessions := ss\<rparr>) = session_events d"
  "session_events (d\<lparr>db_rulesets := rs\<rparr>) = session_events d"
  "session_events (d\<lparr>db_commands := cs\<rparr>) = session_events d"
  "session_events (d\<lparr>db_snapshots := ns\<rparr>) = session_events d"
  "session_events (d\<lparr>db_commitments := ks\<rparr>) = session_events d"
  "session_events (d\<lparr>db_results := xs\<rparr>) = session_events d"
  by (simp_all add: session_events_def fun_eq_iff)

text \<open>Updating the one row of a session.\<close>

lemma update_sessions_one:
  assumes "keys_ok d" and "\<And>r. s_session_id (f r) = s_session_id r"
    and "update_sessions (\<lambda>r. s_session_id r = i \<and> p r) f d = Inr (n, d')"
  shows "n = (case session_by_id d i of None \<Rightarrow> 0 | Some r \<Rightarrow> if p r then 1 else 0) \<and>
    (\<forall>j. session_by_id d' j = (case session_by_id d j of None \<Rightarrow> None
       | Some r \<Rightarrow> Some (if j = i \<and> p r then f r else r))) \<and>
    keys_ok d' \<and> d' = d\<lparr>db_sessions := db_sessions d'\<rparr>"
proof -
  let ?g = "\<lambda>r. if s_session_id r = i \<and> p r then f r else r"
  from assms(3) have n: "n = length (filter (\<lambda>r. s_session_id r = i \<and> p r) (db_sessions d))"
    and d': "d' = d\<lparr>db_sessions := map ?g (db_sessions d)\<rparr>"
    by (auto simp: update_sessions_def)
  have g: "s_session_id (?g r) = s_session_id r" for r using assms(2) by simp
  have "session_by_id d' j = map_option ?g (session_by_id d j)" for j
    unfolding d' session_by_id_def by (simp add: find_map_other [where k = s_session_id, OF g])
  moreover have "s_session_id r = j" if "session_by_id d j = Some r" for j r
    using that find_SomeD by (fastforce simp: session_by_id_def)
  moreover have "keys_ok d'" using assms(1) g by (simp add: keys_ok_def d' o_def)
  moreover have "n = (case session_by_id d i of None \<Rightarrow> 0 | Some r \<Rightarrow> if p r then 1 else 0)"
    using filter_unique [of s_session_id "db_sessions d" i p] assms(1)
    by (simp add: n keys_ok_def session_by_id_def split: option.splits)
  moreover have "d' = d\<lparr>db_sessions := db_sessions d'\<rparr>" by (simp add: d')
  ultimately show ?thesis by (auto split: option.splits)
qed

section \<open>Hash chains\<close>

locale hash_chain =
  fixes seq :: "'e \<Rightarrow> int" and prior :: "'e \<Rightarrow> string" and current :: "'e \<Rightarrow> string"
    and genesis :: string
begin

fun linked :: "int \<Rightarrow> string \<Rightarrow> 'e list \<Rightarrow> bool" where
  "linked n h [] \<longleftrightarrow> True"
| "linked n h (e # es) \<longleftrightarrow> seq e = n \<and> prior e = h \<and> linked (n + 1) (current e) es"

definition chained :: "'e list \<Rightarrow> bool" where
  "chained es \<longleftrightarrow> linked 0 genesis es"

definition head :: "'e list \<Rightarrow> string" where
  "head es = (if es = [] then genesis else current (last es))"

lemma linked_append:
  "linked n h (xs @ ys) \<longleftrightarrow> linked n h xs \<and>
     linked (n + int (length xs)) (if xs = [] then h else current (last xs)) ys"
  by (induction xs arbitrary: n h) (auto simp: algebra_simps)

lemma chained_append: "chained (xs @ ys) \<longleftrightarrow> chained xs \<and> linked (int (length xs)) (head xs) ys"
  by (simp add: chained_def head_def linked_append)

lemma chained_snoc:
  "chained (xs @ [e]) \<longleftrightarrow> chained xs \<and> seq e = int (length xs) \<and> prior e = head xs"
  by (simp add: chained_append)

lemma head_snoc [simp]: "head (xs @ [e]) = current e"
  by (simp add: head_def)

lemma linked_seqs: "linked n h es \<Longrightarrow> i < length es \<Longrightarrow> seq (es ! i) = n + int i"
proof (induction es arbitrary: n h i)
  case (Cons e es)
  then show ?case by (cases i) force+
qed simp

lemma chained_seq: "chained es \<Longrightarrow> i < length es \<Longrightarrow> seq (es ! i) = int i"
  using linked_seqs [of 0 genesis es i] by (simp add: chained_def)

lemma linked_prior:
  "linked n h es \<Longrightarrow> i < length es \<Longrightarrow> prior (es ! i) = (if i = 0 then h else current (es ! (i - 1)))"
proof (induction es arbitrary: n h i)
  case (Cons e es)
  then show ?case by (cases i) (force split: if_splits)+
qed simp

lemma chained_prior:
  "chained es \<Longrightarrow> i < length es \<Longrightarrow> prior (es ! i) = (if i = 0 then genesis else current (es ! (i - 1)))"
  unfolding chained_def by (rule linked_prior)

lemma linked_sorted: "linked n h es \<Longrightarrow> sort_key seq es = es"
proof -
  assume "linked n h es"
  then have "map seq es = map (\<lambda>i. n + int i) [0..<length es]"
    by (intro nth_equalityI) (simp_all add: linked_seqs)
  then have "sorted (map seq es)" by (simp add: sorted_map sorted_wrt_upt sorted_wrt_iff_nth_less)
  then show ?thesis by (simp add: sorted_sort_id sort_key_id_if_sorted)
qed

end

locale bound_chain = hash_chain seq prior current genesis
  for seq :: "'e \<Rightarrow> int" and prior :: "'e \<Rightarrow> string" and current genesis +
  fixes sealed :: "'e \<Rightarrow> bool" and content :: "'e \<Rightarrow> 'b"
  assumes binding: "sealed e \<Longrightarrow> sealed e' \<Longrightarrow> current e = current e' \<Longrightarrow>
      content e = content e' \<or> sha256_collision"
    and content_prior: "content e = content e' \<Longrightarrow> prior e = prior e'"
begin

text \<open>Two logs of equal length with the same head hash have the same contents.\<close>

lemma tamper_evident:
  assumes "length xs = length ys" and "chained xs" and "chained ys" and "list_all sealed xs"
    and "list_all sealed ys" and "head xs = head ys"
  shows "map content xs = map content ys \<or> sha256_collision"
  using assms
proof (induction xs arbitrary: ys rule: rev_induct)
  case (snoc x xs)
  then obtain y ys' where ys: "ys = ys' @ [y]" by (cases ys rule: rev_cases) auto
  with snoc.prems have "content x = content y \<or> sha256_collision" by (intro binding) simp_all
  then show ?case
  proof
    assume c: "content x = content y"
    then have "head xs = head ys'" using snoc.prems(2,3) content_prior [OF c] by (simp add: ys chained_snoc)
    with snoc.IH [of ys'] snoc.prems c show ?thesis by (auto simp: ys chained_snoc)
  qed simp
qed simp

end

end
