(* ===== verification/Event_Store.thy ===== *)
theory Event_Store
  imports Database
begin

text \<open>
  The transactional event store (\<^verbatim>\<open>db/store.py\<close>): optimistic session versions, idempotent
  commands and the per-session hash chain of events.

  The lemmas show that every state the store can reach keeps one unbroken chain per session,
  what an accepted append changes (and that nothing else changes), and that a retry of an
  accepted command changes nothing.
\<close>

definition ZERO_HASH :: string where
  "ZERO_HASH = replicate 64 (CHR ''0'')"

record EventRecord =
  ev_event_seq :: int
  ev_logical_ts_ns :: int
  ev_event_type :: string
  ev_causation_id :: string
  ev_correlation_id :: string
  ev_payload :: json
  ev_prior_event_hash :: string
  ev_current_event_hash :: string

text \<open>The command record has exactly the columns of the command table.\<close>

type_synonym CommandRecord = command_row

record AppendResult =
  ar_command_id :: string
  ar_session_version :: int
  ar_event_seqs :: "int list"
  ar_replayed :: bool

definition create_session_row :: "string \<Rightarrow> string \<Rightarrow> int \<Rightarrow> string \<Rightarrow> db \<Rightarrow> (unit \<times> db) res" where
  "create_session_row session_id principal_id created_at_ns status d =
     bindR (insert_session \<lparr>s_session_id = session_id, s_principal_id = principal_id,
         s_status = status, s_version = 0, s_ruleset_id = None, s_commitment_hash = None,
         s_created_at_ns = created_at_ns\<rparr> d) (\<lambda>d'.
     Inr ((), d'))"

definition idempotent_retry :: "CommandRecord \<Rightarrow> db \<Rightarrow> AppendResult option res" where
  "idempotent_retry command d =
     (case find (\<lambda>r. c_session_id r = c_session_id command \<and>
                    c_idempotency_key r = c_idempotency_key command) (db_commands d) of
        None \<Rightarrow> Inr None
      | Some row \<Rightarrow>
          bindR (require (c_payload_hash row = c_payload_hash command) IdempotencyConflict) (\<lambda>_.
          case session_by_id d (c_session_id command) of
            None \<Rightarrow> Inl RuntimeError
          | Some s \<Rightarrow> Inr (Some
              \<lparr>ar_command_id = c_command_id row, ar_session_version = s_version s,
               ar_event_seqs = map e_event_seq
                 (filter (\<lambda>e. e_causation_id e = c_command_id row)
                   (session_events d (c_session_id command))),
               ar_replayed = True\<rparr>)))"

fun check_chain :: "int \<Rightarrow> string \<Rightarrow> EventRecord list \<Rightarrow> unit res" where
  "check_chain expected_seq expected_prior_hash [] = Inr ()"
| "check_chain expected_seq expected_prior_hash (event # events) =
     (if ev_event_seq event \<noteq> expected_seq \<or> ev_prior_event_hash event \<noteq> expected_prior_hash
      then Inl EventChainConflict
      else check_chain (expected_seq + 1) (ev_current_event_hash event) events)"

definition event_row_of :: "string \<Rightarrow> EventRecord \<Rightarrow> event_row" where
  "event_row_of session_id e =
     \<lparr>e_session_id = session_id, e_event_seq = ev_event_seq e,
      e_logical_ts_ns = ev_logical_ts_ns e, e_event_type = ev_event_type e,
      e_causation_id = ev_causation_id e, e_correlation_id = ev_correlation_id e,
      e_payload_json = ev_payload e, e_prior_event_hash = ev_prior_event_hash e,
      e_current_event_hash = ev_current_event_hash e\<rparr>"

definition append_body :: "CommandRecord \<Rightarrow> EventRecord list \<Rightarrow> db \<Rightarrow> (AppendResult \<times> db) res" where
  "append_body command events d =
     bindR (idempotent_retry command d) (\<lambda>replay.
     case replay of Some r \<Rightarrow> Inr (r, d) | None \<Rightarrow>
     bindR (require (session_by_id d (c_session_id command) \<noteq> None) SessionNotFound) (\<lambda>_.
     let last = last_event d (c_session_id command);
         expected_seq = (case last of None \<Rightarrow> 0 | Some e \<Rightarrow> e_event_seq e + 1);
         expected_prior_hash = (case last of None \<Rightarrow> ZERO_HASH | Some e \<Rightarrow> e_current_event_hash e)
     in bindR (check_chain expected_seq expected_prior_hash events) (\<lambda>_.
     bindR (update_sessions
         (\<lambda>r. s_session_id r = c_session_id command \<and> s_version r = c_expected_session_version command)
         (\<lambda>r. r\<lparr>s_version := c_expected_session_version command + 1\<rparr>) d) (\<lambda>(rowcount, d).
     bindR (require (rowcount = 1) ConcurrentSessionVersion) (\<lambda>_.
     bindR (insert_command command d) (\<lambda>d.
     bindR (insert_events (map (event_row_of (c_session_id command)) events) d) (\<lambda>d.
     Inr (\<lparr>ar_command_id = c_command_id command,
           ar_session_version = c_expected_session_version command + 1,
           ar_event_seqs = map ev_event_seq events, ar_replayed = False\<rparr>, d))))))))"

definition append_command :: "CommandRecord \<Rightarrow> EventRecord list \<Rightarrow> db \<Rightarrow> (AppendResult \<times> db) res" where
  "append_command command events d =
     catchR (append_body command events d) is_IntegrityError EventStoreError"

definition event_count :: "db \<Rightarrow> string \<Rightarrow> nat" where
  "event_count d session_id = length (filter (\<lambda>e. e_session_id e = session_id) (db_events d))"

section \<open>The event chain of every session\<close>

interpretation ev: hash_chain e_event_seq e_prior_event_hash e_current_event_hash ZERO_HASH .

definition raw_events :: "db \<Rightarrow> string \<Rightarrow> event_row list" where
  "raw_events d i = filter (\<lambda>e. e_session_id e = i) (db_events d)"

definition log_ok :: "db \<Rightarrow> bool" where
  "log_ok d \<longleftrightarrow> keys_ok d \<and> (\<forall>i. ev.chained (raw_events d i)) \<and>
     (\<forall>e\<in>set (db_events d). session_by_id d (e_session_id e) \<noteq> None)"

lemma log_ok_events: "log_ok d \<Longrightarrow> session_events d i = raw_events d i"
  unfolding session_events_def raw_events_def [symmetric]
  by (rule ev.linked_sorted [of 0 ZERO_HASH]) (simp add: log_ok_def ev.chained_def)

lemma log_ok_last:
  assumes "log_ok d"
  shows "(case last_event d i of None \<Rightarrow> 0 | Some e \<Rightarrow> e_event_seq e + 1) = int (length (raw_events d i))"
    and "(case last_event d i of None \<Rightarrow> ZERO_HASH | Some e \<Rightarrow> e_current_event_hash e) = ev.head (raw_events d i)"
proof -
  have "e_event_seq (last (raw_events d i)) = int (length (raw_events d i)) - 1" if "raw_events d i \<noteq> []"
    using that assms ev.chained_seq [of "raw_events d i" "length (raw_events d i) - 1"]
    by (simp add: log_ok_def last_conv_nth of_nat_diff Suc_leI)
  then show "(case last_event d i of None \<Rightarrow> 0 | Some e \<Rightarrow> e_event_seq e + 1) = int (length (raw_events d i))"
    by (auto simp: last_event_def log_ok_events [OF assms])
  show "(case last_event d i of None \<Rightarrow> ZERO_HASH | Some e \<Rightarrow> e_current_event_hash e) = ev.head (raw_events d i)"
    by (auto simp: last_event_def log_ok_events [OF assms] ev.head_def)
qed

lemma raw_events_append [simp]:
  "raw_events (d\<lparr>db_events := db_events d @ es\<rparr>) i =
     raw_events d i @ filter (\<lambda>e. e_session_id e = i) es"
  by (simp add: raw_events_def)

lemma raw_events_frame [simp]:
  "raw_events (d\<lparr>db_sessions := ss\<rparr>) = raw_events d"
  "raw_events (d\<lparr>db_rulesets := rs\<rparr>) = raw_events d"
  "raw_events (d\<lparr>db_commands := cs\<rparr>) = raw_events d"
  by (simp_all add: raw_events_def fun_eq_iff)

lemma insert_events_spec: "insert_events rs d = Inr d' \<Longrightarrow>
    d' = d\<lparr>db_events := db_events d @ rs\<rparr> \<and> (\<forall>r\<in>set rs. session_by_id d (e_session_id r) \<noteq> None)"
proof (induction rs arbitrary: d)
  case (Cons r rs)
  then obtain d1 where "insert_event r d = Inr d1" "insert_events rs d1 = Inr d'" by auto
  with Cons.IH [of d1] show ?case by (auto simp: insert_event_spec)
qed simp

lemma check_chain_linked:
  "check_chain n h events = Inr u \<longleftrightarrow> ev.linked n h (map (event_row_of i) events)"
  by (induction events arbitrary: n h) (auto simp: event_row_of_def)

text \<open>An accepted append is either an exact retry or a new command with its events.\<close>

lemma append_command_cases [consumes 2, case_names retry fresh]:
  assumes "log_ok d" and "append_command command events d = Inr (r, d')"
  obtains (retry) row where "d' = d" and "ar_replayed r"
      and "row \<in> set (db_commands d)" and "c_session_id row = c_session_id command"
      and "c_idempotency_key row = c_idempotency_key command" and "c_payload_hash row = c_payload_hash command"
  | (fresh) s where "\<not> ar_replayed r"
      and "r = \<lparr>ar_command_id = c_command_id command, ar_session_version = s_version s + 1,
           ar_event_seqs = map ev_event_seq events, ar_replayed = False\<rparr>"
      and "session_by_id d (c_session_id command) = Some s"
      and "s_version s = c_expected_session_version command"
      and "keys_ok d'"
      and "\<And>j. session_by_id d' j = (if j = c_session_id command
             then Some (s\<lparr>s_version := s_version s + 1\<rparr>) else session_by_id d j)"
      and "db_commands d' = db_commands d @ [command]"
      and "list_all (\<lambda>q. c_command_id q \<noteq> c_command_id command \<and>
             (c_session_id q, c_idempotency_key q) \<noteq> (c_session_id command, c_idempotency_key command)) (db_commands d)"
      and "db_events d' = db_events d @ map (event_row_of (c_session_id command)) events"
      and "ev.linked (int (length (raw_events d (c_session_id command))))
             (ev.head (raw_events d (c_session_id command))) (map (event_row_of (c_session_id command)) events)"
proof -
  let ?i = "c_session_id command"
  from assms(2) have body: "append_body command events d = Inr (r, d')" by (simp add: append_command_def)
  then obtain rep where rep: "idempotent_retry command d = Inr rep" by (auto simp: append_body_def)
  show ?thesis
  proof (cases rep)
    case (Some x)
    with body rep have "d' = d" "r = x" by (auto simp: append_body_def)
    with rep Some show ?thesis
      using retry by (auto simp: idempotent_retry_def split: option.splits dest!: find_SomeD)
  next
    case None
    have none: "find (\<lambda>q. c_session_id q = ?i \<and> c_idempotency_key q = c_idempotency_key command) (db_commands d) = None"
      using rep None by (auto simp: idempotent_retry_def split: option.splits)
    let ?f = "\<lambda>q. q\<lparr>s_version := c_expected_session_version command + 1\<rparr>"
    from body rep None obtain n d1 d2 where
        chk: "check_chain (int (length (raw_events d ?i))) (ev.head (raw_events d ?i)) events = Inr ()"
        and upd: "update_sessions (\<lambda>q. s_session_id q = ?i \<and> s_version q = c_expected_session_version command) ?f d = Inr (n, d1)"
        and n: "n = 1" and ins: "insert_command command d1 = Inr d2"
        and evs: "insert_events (map (event_row_of ?i) events) d2 = Inr d'"
        and r: "r = \<lparr>ar_command_id = c_command_id command,
           ar_session_version = c_expected_session_version command + 1,
           ar_event_seqs = map ev_event_seq events, ar_replayed = False\<rparr>"
      unfolding append_body_def Let_def log_ok_last [OF assms(1)] by auto
    have keys: "keys_ok d" using assms(1) by (simp add: log_ok_def)
    note u = update_sessions_one [OF keys _ upd, simplified]
    from u n obtain s where s: "session_by_id d ?i = Some s" "s_version s = c_expected_session_version command"
      by (auto split: option.splits if_splits)
    note e = insert_events_spec [OF evs]
    from ins have d2: "d2 = d1\<lparr>db_commands := db_commands d1 @ [command]\<rparr>"
      and uniq: "list_all (\<lambda>q. c_command_id q \<noteq> c_command_id command \<and>
         (c_session_id q, c_idempotency_key q) \<noteq> (?i, c_idempotency_key command)) (db_commands d1)"
      by (auto simp: insert_command_def)
    have d1: "d1 = d\<lparr>db_sessions := db_sessions d1\<rparr>" using u by simp
    have cmd: "db_commands d1 = db_commands d" "db_events d1 = db_events d"
      by (subst d1, simp)+
    show ?thesis
    proof (rule fresh [of s])
      show "keys_ok d'" using u e d2 by (simp add: keys_ok_def)
      show "session_by_id d' j = (if j = ?i then Some (s\<lparr>s_version := s_version s + 1\<rparr>) else session_by_id d j)" for j
        using u s e d2 by (auto split: option.splits)
      show "ev.linked (int (length (raw_events d ?i))) (ev.head (raw_events d ?i)) (map (event_row_of ?i) events)"
        using chk by (simp add: check_chain_linked [of _ _ _ _ ?i])
    qed (use s r uniq e d2 cmd in simp_all)
  qed
qed

lemma append_command_log:
  assumes "log_ok d" and "append_command command events d = Inr (r, d')"
  shows "log_ok d'"
  using assms
proof (cases rule: append_command_cases)
  case (fresh s)
  let ?i = "c_session_id command"
  have "raw_events d' i = raw_events d i @ (if i = ?i then map (event_row_of ?i) events else [])" for i
    using fresh(9) by (auto simp: raw_events_def event_row_of_def filter_empty_conv filter_id_conv)
  moreover have "ev.chained (raw_events d i)" for i using assms(1) by (simp add: log_ok_def)
  moreover have "\<forall>e\<in>set (db_events d'). session_by_id d' (e_session_id e) \<noteq> None"
    using assms(1) fresh(6,9) by (auto simp: log_ok_def event_row_of_def)
  ultimately show ?thesis using fresh(5,10) by (simp add: log_ok_def ev.chained_append)
qed (use assms in simp)

lemma insert_session_log:
  assumes "log_ok d" and "insert_session r d = Inr d'"
  shows "log_ok d'"
  using assms by (auto simp: log_ok_def keys_ok_def session_by_id_def find_None_distinct find_append split: option.splits)

section \<open>Reachable stores\<close>

inductive store_reach :: "db \<Rightarrow> bool" where
  store_init: "store_reach create_schema"
| store_session: "store_reach d \<Longrightarrow> create_session_row i p ts st d = Inr (u, d') \<Longrightarrow> store_reach d'"
| store_append: "store_reach d \<Longrightarrow> append_command c es d = Inr (r, d') \<Longrightarrow> store_reach d'"

lemma create_schema_log: "log_ok create_schema"
  by (simp add: log_ok_def create_schema_def keys_ok_def raw_events_def ev.chained_def)

lemma store_reach_log: "store_reach d \<Longrightarrow> log_ok d"
proof (induction rule: store_reach.induct)
  case (store_session d i p ts st u d')
  then show ?case
    by (auto simp: create_session_row_def simp del: insert_session_spec intro: insert_session_log)
qed (auto intro: create_schema_log append_command_log)

section \<open>Properties of the event store\<close>

text \<open>In every state that session creation and command appends can reach, the events of each
  session, read in sequence order, are numbered from zero without a gap, the first one refers to the
  zero hash and every later one to the hash of its predecessor.\<close>

theorem store_chain_unbroken:
  assumes "store_reach d" and "k < length (session_events d i)"
  shows "e_event_seq (session_events d i ! k) = int k \<and>
    e_prior_event_hash (session_events d i ! k) =
      (if k = 0 then ZERO_HASH else e_current_event_hash (session_events d i ! (k - 1))) \<and>
    length (session_events d i) = event_count d i"
proof -
  note ok = store_reach_log [OF assms(1)]
  have "ev.chained (raw_events d i)" using ok by (simp add: log_ok_def)
  with assms(2) show ?thesis
    unfolding log_ok_events [OF ok]
    by (simp add: ev.chained_seq ev.chained_prior event_count_def raw_events_def)
qed

text \<open>What an accepted append changes. Either it is a retry of a recorded command with the same
  payload hash and nothing changes, or the session stood at the expected version and now stands one
  higher, the command and exactly its events are appended, and every other session is untouched.\<close>

theorem append_command_effect:
  assumes "store_reach d" and "append_command command events d = Inr (r, d')"
  shows "ar_replayed r \<and> d' = d \<and> (\<exists>row. row \<in> set (db_commands d) \<and>
       c_session_id row = c_session_id command \<and> c_idempotency_key row = c_idempotency_key command \<and>
       c_payload_hash row = c_payload_hash command)
   \<or> \<not> ar_replayed r \<and> ar_event_seqs r = map ev_event_seq events \<and>
     ar_session_version r = c_expected_session_version command + 1 \<and>
     (\<exists>s. session_by_id d (c_session_id command) = Some s \<and>
        s_version s = c_expected_session_version command \<and>
        session_by_id d' = (session_by_id d)(c_session_id command \<mapsto> s\<lparr>s_version := s_version s + 1\<rparr>)) \<and>
     db_commands d' = db_commands d @ [command] \<and>
     db_events d' = db_events d @ map (event_row_of (c_session_id command)) events"
  using store_reach_log [OF assms(1)] assms(2)
  by (cases rule: append_command_cases) (auto simp: fun_eq_iff)

lemma find_fresh_command:
  assumes "list_all (\<lambda>q. c_command_id q \<noteq> c_command_id c \<and>
     (c_session_id q, c_idempotency_key q) \<noteq> (c_session_id c, c_idempotency_key c)) cs"
  shows "find (\<lambda>r. c_session_id r = c_session_id c \<and> c_idempotency_key r = c_idempotency_key c) (cs @ [c]) = Some c"
  using assms by (induction cs) auto

text \<open>An accepted command can be retried safely. Whatever events the retry carries, it changes
  nothing and reports the recorded command as replayed, at the version the session has now.\<close>

theorem append_command_retry:
  assumes "store_reach d" and "append_command command events d = Inr (r, d')"
  shows "\<exists>r'. append_command command events' d' = Inr (r', d') \<and> ar_replayed r' \<and>
    ar_command_id r' = ar_command_id r \<and>
    (\<exists>s. session_by_id d' (c_session_id command) = Some s \<and> ar_session_version r' = s_version s)"
  using store_reach_log [OF assms(1)] assms(2)
proof (cases rule: append_command_cases)
  case (retry row)
  then obtain x where "idempotent_retry command d = Inr (Some x)" "r = x"
    using assms(2) by (auto simp: append_command_def append_body_def Let_def split: option.splits)
  with retry(1,2) show ?thesis
    by (auto simp: append_command_def append_body_def idempotent_retry_def split: option.splits)
next
  case (fresh s)
  then show ?thesis
    by (auto simp: append_command_def append_body_def idempotent_retry_def find_fresh_command)
qed

text \<open>No lost update. Of two commands with different idempotency keys that expect the same version of
  the same session, once one is accepted as new the other is refused, and so is its every retry until it
  is sent with the new version.\<close>

theorem append_no_lost_update:
  assumes "store_reach d" and "append_command a es d = Inr (r, d')" and "\<not> ar_replayed r"
    and "c_session_id b = c_session_id a"
    and "c_expected_session_version b = c_expected_session_version a"
    and "\<forall>q. q \<in> set (db_commands d') \<longrightarrow> c_session_id q = c_session_id b \<longrightarrow> c_idempotency_key q \<noteq> c_idempotency_key b"
  shows "\<exists>e. append_command b fs d' = Inl e"
proof (rule ccontr)
  assume "\<not> ?thesis"
  then obtain r2 d2 where b: "append_command b fs d' = Inr (r2, d2)"
    by (cases "append_command b fs d'") auto
  note ok = store_reach_log [OF assms(1)]
  from ok assms(2,3) obtain s where s: "s_version s = c_expected_session_version a"
    "session_by_id d' (c_session_id a) = Some (s\<lparr>s_version := s_version s + 1\<rparr>)"
    by (cases rule: append_command_cases) auto
  from append_command_log [OF ok assms(2)] b show False
  proof (cases rule: append_command_cases)
    case (retry row)
    with assms(6) show False by auto
  next
    case (fresh s2)
    with s assms(4,5) show False by auto
  qed
qed

section \<open>Witnesses\<close>

definition demo_event :: EventRecord where
  "demo_event = \<lparr>ev_event_seq = 0, ev_logical_ts_ns = 5, ev_event_type = ''ORDER'',
     ev_causation_id = ''cmd-1'', ev_correlation_id = ''s1'', ev_payload = JObj [],
     ev_prior_event_hash = ZERO_HASH, ev_current_event_hash = replicate 64 (CHR ''1'')\<rparr>"

definition demo_command :: CommandRecord where
  "demo_command = \<lparr>c_command_id = ''cmd-1'', c_session_id = ''s1'', c_idempotency_key = ''k1'',
     c_payload_hash = replicate 64 (CHR ''2''), c_expected_session_version = 0, c_accepted_at_ns = 7,
     c_payload_json = JObj []\<rparr>"

definition demo_session_db :: db where
  "demo_session_db = create_schema\<lparr>db_sessions := [\<lparr>s_session_id = ''s1'', s_principal_id = ''p'',
     s_status = ''RUNNING'', s_version = 0, s_ruleset_id = None, s_commitment_hash = None,
     s_created_at_ns = 1\<rparr>]\<rparr>"

definition demo_appended :: "AppendResult \<times> db" where
  "demo_appended = (case append_command demo_command [demo_event] demo_session_db of
     Inr x \<Rightarrow> x | Inl _ \<Rightarrow> (\<lparr>ar_command_id = [], ar_session_version = 0, ar_event_seqs = [], ar_replayed = True\<rparr>, create_schema))"

lemma demo_create: "create_session_row ''s1'' ''p'' 1 ''RUNNING'' create_schema = Inr ((), demo_session_db)"
  by code_simp

lemma demo_append: "append_command demo_command [demo_event] demo_session_db =
    Inr (fst demo_appended, snd demo_appended)"
  by code_simp

lemma demo_store_reach: "store_reach demo_session_db" "store_reach (snd demo_appended)"
  by (rule store_session [OF store_init demo_create])
     (rule store_append [OF store_session [OF store_init demo_create] demo_append])

theorem store_chain_unbroken_witness:
  "e_prior_event_hash (session_events (snd demo_appended) ''s1'' ! 0) = ZERO_HASH"
proof -
  have "0 < length (session_events (snd demo_appended) ''s1'')" by code_simp
  from store_chain_unbroken [OF demo_store_reach(2) this] show ?thesis by simp
qed

theorem append_command_effect_witness:
  "db_commands (snd demo_appended) = db_commands demo_session_db @ [demo_command]"
proof -
  have "\<not> ar_replayed (fst demo_appended)" by code_simp
  with append_command_effect [OF demo_store_reach(1) demo_append] show ?thesis by blast
qed

theorem append_command_retry_witness:
  "\<exists>r'. append_command demo_command [] (snd demo_appended) = Inr (r', snd demo_appended) \<and> ar_replayed r'"
  using append_command_retry [OF demo_store_reach(1) demo_append, of "[]"] by blast

theorem append_no_lost_update_witness:
  "\<exists>e. append_command (demo_command\<lparr>c_command_id := ''cmd-2'', c_idempotency_key := ''k2''\<rparr>) []
     (snd demo_appended) = Inl e"
proof -
  have "\<not> ar_replayed (fst demo_appended)" by code_simp
  moreover have "db_commands (snd demo_appended) = [demo_command]" by code_simp
  ultimately show ?thesis
    by (intro append_no_lost_update [OF demo_store_reach(1) demo_append])
       (simp_all add: demo_command_def)
qed

end
