(* ===== verification/Session_Model.thy ===== *)
theory Session_Model
  imports Catalog
begin

text \<open>
  The session data of \<^verbatim>\<open>sessions/model.py\<close>: lifecycle states, rulesets, setup requests, the
  committed setup with its event payload, and the field decoders.

  A canonical JSON text that is only ever written by \<^verbatim>\<open>_canonical_json\<close> and read by
  \<^verbatim>\<open>json.loads\<close> (the ruleset body) is held as the value it denotes, with sorted keys; by
  \<open>dumps_inject\<close> the text and the value determine each other.

  The lemmas show that the decimal decoder accepts exactly the texts that \<^verbatim>\<open>str\<close> prints for
  64-bit integers (an interpretation of \<open>canonical_decimal\<close>), and that a setup is read back
  from its payload unchanged.
\<close>

section \<open>Enumerations\<close>

text \<open>\<^verbatim>\<open>Enum(value)\<close>: the member with that value, or \<^verbatim>\<open>ValueError\<close>.\<close>

definition enum_of :: "'a list \<Rightarrow> ('a \<Rightarrow> string) \<Rightarrow> string \<Rightarrow> 'a res" where
  "enum_of members val s = (case find (\<lambda>x. val x = s) members of None \<Rightarrow> Inl ValueError | Some x \<Rightarrow> Inr x)"

datatype SessionStatus = SETUP | COMMITTED | RUNNING | PAUSED | COMPLETED

fun SessionStatus_value :: "SessionStatus \<Rightarrow> string" where
  "SessionStatus_value SETUP = ''SETUP''"
| "SessionStatus_value COMMITTED = ''COMMITTED''"
| "SessionStatus_value RUNNING = ''RUNNING''"
| "SessionStatus_value PAUSED = ''PAUSED''"
| "SessionStatus_value COMPLETED = ''COMPLETED''"

definition SessionStatus_of :: "string \<Rightarrow> SessionStatus res" where
  "SessionStatus_of = enum_of [SETUP, COMMITTED, RUNNING, PAUSED, COMPLETED] SessionStatus_value"

datatype VisibilityMode = ABSOLUTE | RELATIVE | HIDDEN_CALENDAR

fun VisibilityMode_value :: "VisibilityMode \<Rightarrow> string" where
  "VisibilityMode_value ABSOLUTE = ''ABSOLUTE''"
| "VisibilityMode_value RELATIVE = ''RELATIVE''"
| "VisibilityMode_value HIDDEN_CALENDAR = ''HIDDEN_CALENDAR''"

definition VisibilityMode_of :: "string \<Rightarrow> VisibilityMode res" where
  "VisibilityMode_of = enum_of [ABSOLUTE, RELATIVE, HIDDEN_CALENDAR] VisibilityMode_value"

fun ExecutionTier_value :: "ExecutionTier \<Rightarrow> string" where
  "ExecutionTier_value F0 = ''F0''" | "ExecutionTier_value F0T = ''F0T''"
| "ExecutionTier_value F1 = ''F1''" | "ExecutionTier_value F2 = ''F2''"
| "ExecutionTier_value F3 = ''F3''"

definition ExecutionTier_of :: "string \<Rightarrow> ExecutionTier res" where
  "ExecutionTier_of = enum_of [F0, F0T, F1, F2, F3] ExecutionTier_value"

fun DataCapability_value :: "DataCapability \<Rightarrow> string" where
  "DataCapability_value BARS = ''BARS''" | "DataCapability_value TRADES = ''TRADES''"
| "DataCapability_value BBO = ''BBO''" | "DataCapability_value L2_SNAPSHOTS = ''L2_SNAPSHOTS''"
| "DataCapability_value L2_DELTAS = ''L2_DELTAS''" | "DataCapability_value L3 = ''L3''"
| "DataCapability_value MARK_PRICE = ''MARK_PRICE''" | "DataCapability_value INDEX_PRICE = ''INDEX_PRICE''"
| "DataCapability_value FUNDING = ''FUNDING''" | "DataCapability_value OPEN_INTEREST = ''OPEN_INTEREST''"
| "DataCapability_value LIQUIDATIONS = ''LIQUIDATIONS''"

definition DataCapability_of :: "string \<Rightarrow> DataCapability res" where
  "DataCapability_of = enum_of [BARS, TRADES, BBO, L2_SNAPSHOTS, L2_DELTAS, L3, MARK_PRICE,
     INDEX_PRICE, FUNDING, OPEN_INTEREST, LIQUIDATIONS] DataCapability_value"

fun RedistributionClass_value :: "RedistributionClass \<Rightarrow> string" where
  "RedistributionClass_value REDISTRIBUTABLE = ''REDISTRIBUTABLE''"
| "RedistributionClass_value USER_LICENSED = ''USER_LICENSED''"
| "RedistributionClass_value RESTRICTED = ''RESTRICTED''"
| "RedistributionClass_value UNKNOWN_CLASS = ''UNKNOWN''"

definition RedistributionClass_of :: "string \<Rightarrow> RedistributionClass res" where
  "RedistributionClass_of = enum_of [REDISTRIBUTABLE, USER_LICENSED, RESTRICTED, UNKNOWN_CLASS]
     RedistributionClass_value"

text \<open>\<^verbatim>\<open>sorted(item.value for item in items)\<close> of a frozenset.\<close>

definition sorted_values :: "('a \<Rightarrow> string) \<Rightarrow> 'a set \<Rightarrow> string list" where
  "sorted_values val S = sorted_list_of_set (val ` S)"

section \<open>Rulesets\<close>

record RulesetDefinition =
  rd_ruleset_id :: string
  rd_version :: string
  rd_allowed_execution_tiers :: "ExecutionTier set"
  rd_canonical_body :: json
  rd_ruleset_hash :: string

definition canonical_json :: "json \<Rightarrow> json res" where
  "canonical_json value = bindR (require (no_float value) ValueError) (\<lambda>_. Inr (sort_keys value))"

definition from_body ::
    "string \<Rightarrow> string \<Rightarrow> ExecutionTier set \<Rightarrow> fields \<Rightarrow> RulesetDefinition res" where
  "from_body ruleset_id version allowed_execution_tiers body =
     bindR (require (ruleset_id \<noteq> []) ValueError) (\<lambda>_.
     bindR (require (version \<noteq> []) ValueError) (\<lambda>_.
     bindR (require (allowed_execution_tiers \<noteq> {}) ValueError) (\<lambda>_.
     bindR (canonical_json (JObj body)) (\<lambda>canonical_body.
     let identity = JObj
       [(''allowed_execution_tiers'',
           JList (map JStr (sorted_values ExecutionTier_value allowed_execution_tiers))),
        (''body'', canonical_body),
        (''ruleset_id'', JStr ruleset_id),
        (''ruleset_version'', JStr version)]
     in Inr \<lparr>rd_ruleset_id = ruleset_id, rd_version = version,
             rd_allowed_execution_tiers = allowed_execution_tiers,
             rd_canonical_body = canonical_body,
             rd_ruleset_hash = sha256_hex (utf8 (dumps identity))\<rparr>))))"

definition ruleset_body :: "RulesetDefinition \<Rightarrow> fields res" where
  "ruleset_body d = (case rd_canonical_body d of JObj fs \<Rightarrow> Inr fs | _ \<Rightarrow> Inl RuntimeError)"

section \<open>Setup requests\<close>

record SetupRequest =
  sr_instrument_id :: string
  sr_manifest_hash :: string
  sr_play_start_ns :: int
  sr_warmup_ns :: int
  sr_duration_ns :: int
  sr_execution_tier :: ExecutionTier
  sr_ruleset :: RulesetDefinition
  sr_visibility_mode :: VisibilityMode
  sr_required_capabilities :: "DataCapability set"
  sr_allowed_redistribution :: "RedistributionClass set"
  sr_allow_degraded :: bool

definition SetupRequest_post_init :: "SetupRequest \<Rightarrow> unit res" where
  "SetupRequest_post_init r =
     bindR (require (sr_instrument_id r \<noteq> []) ValueError) (\<lambda>_.
     bindR (validate_sha256 (sr_manifest_hash r)) (\<lambda>_.
     bindR (validate_i64 (sr_play_start_ns r)) (\<lambda>_.
     bindR (validate_i64 (sr_warmup_ns r)) (\<lambda>_.
     bindR (validate_i64 (sr_duration_ns r)) (\<lambda>_.
     bindR (require (0 \<le> sr_warmup_ns r) ValueError) (\<lambda>_.
     bindR (require (0 < sr_duration_ns r) ValueError) (\<lambda>_.
     bindR (validate_i64 (sr_play_start_ns r - sr_warmup_ns r)) (\<lambda>_.
     bindR (validate_i64 (sr_play_start_ns r + sr_duration_ns r)) (\<lambda>_.
     require (sr_allowed_redistribution r \<noteq> {}) ValueError)))))))))"

section \<open>Committed setups\<close>

record CommittedSetup =
  cs_instrument_id :: string
  cs_manifest_hash :: string
  cs_eligibility_hash :: string
  cs_play_start_ns :: int
  cs_warmup_ns :: int
  cs_duration_ns :: int
  cs_execution_tier :: ExecutionTier
  cs_required_capabilities :: "DataCapability set"
  cs_allowed_redistribution :: "RedistributionClass set"
  cs_allow_degraded :: bool
  cs_visibility_mode :: VisibilityMode
  cs_ruleset_id :: string
  cs_ruleset_version :: string
  cs_ruleset_hash :: string

definition play_end_ns :: "CommittedSetup \<Rightarrow> int" where
  "play_end_ns s = cs_play_start_ns s + cs_duration_ns s"

definition to_payload :: "CommittedSetup \<Rightarrow> fields" where
  "to_payload s =
     [(''allow_degraded'', JBool (cs_allow_degraded s)),
      (''allowed_redistribution'',
         JList (map JStr (sorted_values RedistributionClass_value (cs_allowed_redistribution s)))),
      (''duration_ns'', JStr (str_int (cs_duration_ns s))),
      (''eligibility_hash'', JStr (cs_eligibility_hash s)),
      (''execution_tier'', JStr (ExecutionTier_value (cs_execution_tier s))),
      (''instrument_id'', JStr (cs_instrument_id s)),
      (''manifest_hash'', JStr (cs_manifest_hash s)),
      (''play_start_ns'', JStr (str_int (cs_play_start_ns s))),
      (''required_capabilities'',
         JList (map JStr (sorted_values DataCapability_value (cs_required_capabilities s)))),
      (''ruleset_hash'', JStr (cs_ruleset_hash s)),
      (''ruleset_id'', JStr (cs_ruleset_id s)),
      (''ruleset_version'', JStr (cs_ruleset_version s)),
      (''visibility_mode'', JStr (VisibilityMode_value (cs_visibility_mode s))),
      (''warmup_ns'', JStr (str_int (cs_warmup_ns s)))]"

definition string_field :: "fields \<Rightarrow> string \<Rightarrow> string res" where
  "string_field payload key =
     (case jget payload key of JStr value \<Rightarrow> if value = [] then Inl ValueError else Inr value
      | _ \<Rightarrow> Inl ValueError)"

definition sha_field :: "fields \<Rightarrow> string \<Rightarrow> string res" where
  "sha_field payload key =
     bindR (string_field payload key) (\<lambda>value. bindR (validate_sha256 value) (\<lambda>_. Inr value))"

definition decimal_i64_text :: "string \<Rightarrow> int res" where
  "decimal_i64_text raw =
     bindR (require (\<not> (raw = ''-0'' \<or> startswith raw ''+'' \<or> startswith raw ''0'' \<and> raw \<noteq> ''0''))
       ValueError) (\<lambda>_.
     let negative = startswith raw ''-''; digits = (if negative then tl raw else raw)
     in bindR (require (isdigit digits \<and> \<not> (negative \<and> startswith digits ''0'')) ValueError) (\<lambda>_.
     bindR (py_int raw) (\<lambda>value.
     bindR (validate_i64 value) (\<lambda>_. Inr value))))"

definition decimal_i64_field :: "fields \<Rightarrow> string \<Rightarrow> int res" where
  "decimal_i64_field payload key = bindR (string_field payload key) decimal_i64_text"

definition nonnegative_decimal_field :: "fields \<Rightarrow> string \<Rightarrow> int res" where
  "nonnegative_decimal_field payload key =
     bindR (decimal_i64_field payload key) (\<lambda>value.
     bindR (require (0 \<le> value) ValueError) (\<lambda>_. Inr value))"

definition positive_decimal_field :: "fields \<Rightarrow> string \<Rightarrow> int res" where
  "positive_decimal_field payload key =
     bindR (decimal_i64_field payload key) (\<lambda>value.
     bindR (require (0 < value) ValueError) (\<lambda>_. Inr value))"

fun json_string :: "json \<Rightarrow> string res" where
  "json_string (JStr s) = Inr s"
| "json_string _ = Inl ValueError"

definition string_list_field :: "fields \<Rightarrow> string \<Rightarrow> string list res" where
  "string_list_field payload key =
     (case jget payload key of JList items \<Rightarrow> mapR json_string items | _ \<Rightarrow> Inl ValueError)"

definition bool_field :: "fields \<Rightarrow> string \<Rightarrow> bool res" where
  "bool_field payload key = (case jget payload key of JBool b \<Rightarrow> Inr b | _ \<Rightarrow> Inl ValueError)"

definition from_payload :: "fields \<Rightarrow> CommittedSetup res" where
  "from_payload p =
     bindR (string_field p ''instrument_id'') (\<lambda>instrument_id.
     bindR (sha_field p ''manifest_hash'') (\<lambda>manifest_hash.
     bindR (sha_field p ''eligibility_hash'') (\<lambda>eligibility_hash.
     bindR (decimal_i64_field p ''play_start_ns'') (\<lambda>play_start_ns.
     bindR (nonnegative_decimal_field p ''warmup_ns'') (\<lambda>warmup_ns.
     bindR (positive_decimal_field p ''duration_ns'') (\<lambda>duration_ns.
     bindR (bindR (string_field p ''execution_tier'') ExecutionTier_of) (\<lambda>execution_tier.
     bindR (bindR (string_list_field p ''required_capabilities'') (mapR DataCapability_of)) (\<lambda>required_capabilities.
     bindR (bindR (string_list_field p ''allowed_redistribution'') (mapR RedistributionClass_of)) (\<lambda>allowed_redistribution.
     bindR (bool_field p ''allow_degraded'') (\<lambda>allow_degraded.
     bindR (bindR (string_field p ''visibility_mode'') VisibilityMode_of) (\<lambda>visibility_mode.
     bindR (string_field p ''ruleset_id'') (\<lambda>ruleset_id.
     bindR (string_field p ''ruleset_version'') (\<lambda>ruleset_version.
     bindR (sha_field p ''ruleset_hash'') (\<lambda>ruleset_hash.
     Inr \<lparr>cs_instrument_id = instrument_id, cs_manifest_hash = manifest_hash,
          cs_eligibility_hash = eligibility_hash, cs_play_start_ns = play_start_ns,
          cs_warmup_ns = warmup_ns, cs_duration_ns = duration_ns,
          cs_execution_tier = execution_tier,
          cs_required_capabilities = set required_capabilities,
          cs_allowed_redistribution = set allowed_redistribution,
          cs_allow_degraded = allow_degraded, cs_visibility_mode = visibility_mode,
          cs_ruleset_id = ruleset_id, cs_ruleset_version = ruleset_version,
          cs_ruleset_hash = ruleset_hash\<rparr>))))))))))))))"

record SessionRecord =
  rec_session_id :: string
  rec_principal_id :: string
  rec_status :: SessionStatus
  rec_version :: int
  rec_created_at_ns :: int
  rec_setup :: "CommittedSetup option"
  rec_logical_time_ns :: "int option"
  rec_parent_session_id :: "string option"

fun capabilities_for_tier :: "ExecutionTier \<Rightarrow> DataCapability set" where
  "capabilities_for_tier F0 = {BARS}"
| "capabilities_for_tier F0T = {TRADES}"
| "capabilities_for_tier F1 = {TRADES, BBO}"
| "capabilities_for_tier F2 = {TRADES, L2_SNAPSHOTS, L2_DELTAS}"
| "capabilities_for_tier F3 = {L3}"

definition validate_version :: "int \<Rightarrow> unit res" where
  "validate_version value = require (in_u64 value) ValueError"

section \<open>The decimal decoder\<close>

interpretation setup_decimal: canonical_decimal decimal_i64_text I64_MIN I64_MAX
proof unfold_locales
  fix n :: int
  assume "I64_MIN \<le> n" "n \<le> I64_MAX"
  then have "in_i64 n" by (simp add: in_i64_def)
  then show "decimal_i64_text (str_int n) = Inr n"
    using py_int_str_i64 [of n]
    by (auto simp: decimal_i64_text_def Let_def str_int_def validate_i64_def)
next
  fix s n
  assume a: "decimal_i64_text s = Inr n"
  then have n: "in_i64 n" and i: "py_int s = Inr n"
    by (auto simp: decimal_i64_text_def validate_i64_def Let_def)
  have "signed_canonical s"
  proof (cases "startswith s ''-''")
    case True
    then obtain t where s: "s = CHR ''-'' # t" by (cases s) auto
    with a show ?thesis
      using i by (auto simp: decimal_i64_text_def Let_def intro!: canonical_from_minus_isdigit)
  next
    case False
    with a i show ?thesis
      by (intro canonical_from_isdigit) (auto simp: decimal_i64_text_def Let_def)
  qed
  with i n show "s = str_int n \<and> I64_MIN \<le> n \<and> n \<le> I64_MAX"
    using py_int_signed [of s n] by (simp add: in_i64_def)
qed

section \<open>Enumerations and sets are read back\<close>

lemma enum_of_value:
  assumes "x \<in> set members" and "inj_on val (set members)"
  shows "enum_of members val (val x) = Inr x"
proof -
  obtain y where y: "find (\<lambda>z. val z = val x) members = Some y"
    using assms(1) by (cases "find (\<lambda>z. val z = val x) members") (auto simp: find_None_iff)
  then have "y \<in> set members" "val y = val x" by (auto simp: find_Some_iff)
  with assms have "y = x" by (auto dest: inj_onD)
  with y show ?thesis by (simp add: enum_of_def)
qed

lemma SessionStatus_roundtrip [simp]: "SessionStatus_of (SessionStatus_value x) = Inr x"
  by (cases x) (simp_all add: SessionStatus_of_def enum_of_def)

lemma VisibilityMode_roundtrip [simp]: "VisibilityMode_of (VisibilityMode_value x) = Inr x"
  by (cases x) (simp_all add: VisibilityMode_of_def enum_of_def)

lemma ExecutionTier_roundtrip [simp]: "ExecutionTier_of (ExecutionTier_value x) = Inr x"
  by (cases x) (simp_all add: ExecutionTier_of_def enum_of_def)

lemma DataCapability_roundtrip [simp]: "DataCapability_of (DataCapability_value x) = Inr x"
  by (cases x) (simp_all add: DataCapability_of_def enum_of_def)

lemma RedistributionClass_roundtrip [simp]: "RedistributionClass_of (RedistributionClass_value x) = Inr x"
  by (cases x) (simp_all add: RedistributionClass_of_def enum_of_def)

lemma SessionStatus_value_inject [simp]: "SessionStatus_value a = SessionStatus_value b \<longleftrightarrow> a = b"
  by (metis SessionStatus_roundtrip sum.inject(2))

lemma enum_values_not_Nil [simp]:
  "ExecutionTier_value t \<noteq> []" "VisibilityMode_value v \<noteq> []"
  by (cases t; simp) (cases v; simp)

text \<open>A set printed as its sorted values is read back as the same set.\<close>

lemma sorted_values_roundtrip:
  assumes "finite S" and "\<And>x. of_value (val x) = Inr x"
  shows "\<exists>xs. bindR (mapR json_string (map JStr (sorted_values val S))) (mapR of_value) = Inr xs \<and> set xs = S"
proof -
  let ?g = "\<lambda>s. case of_value s of Inr x \<Rightarrow> x | Inl e \<Rightarrow> undefined"
  have s: "set (sorted_values val S) = val ` S" using assms(1) by (simp add: sorted_values_def)
  have "mapR json_string (map JStr vs) = Inr vs" for vs by (induction vs) simp_all
  moreover have "mapR of_value (sorted_values val S) = Inr (map ?g (sorted_values val S))"
    by (rule mapR_map) (auto simp: s assms(2))
  moreover have "set (map ?g (sorted_values val S)) = S"
    using s assms(2) by (simp add: image_image)
  ultimately show ?thesis by simp
qed

lemma capabilities_finite [simp]: "finite (S :: DataCapability set)"
proof (rule finite_subset)
  show "S \<subseteq> {BARS, TRADES, BBO, L2_SNAPSHOTS, L2_DELTAS, L3, MARK_PRICE, INDEX_PRICE, FUNDING,
      OPEN_INTEREST, LIQUIDATIONS}"
    using DataCapability.exhaust by blast
qed simp

lemma redistribution_finite [simp]: "finite (S :: RedistributionClass set)"
proof (rule finite_subset)
  show "S \<subseteq> {REDISTRIBUTABLE, USER_LICENSED, RESTRICTED, UNKNOWN_CLASS}"
    using RedistributionClass.exhaust by blast
qed simp

text \<open>The setups that \<open>commit\<close> builds and \<open>from_payload\<close> returns.\<close>

definition setup_ok :: "CommittedSetup \<Rightarrow> bool" where
  "setup_ok s \<longleftrightarrow> cs_instrument_id s \<noteq> [] \<and> is_sha256_hex (cs_manifest_hash s) \<and>
     is_sha256_hex (cs_eligibility_hash s) \<and> in_i64 (cs_play_start_ns s) \<and>
     in_i64 (cs_warmup_ns s) \<and> 0 \<le> cs_warmup_ns s \<and> in_i64 (cs_duration_ns s) \<and> 0 < cs_duration_ns s \<and>
     cs_ruleset_id s \<noteq> [] \<and> cs_ruleset_version s \<noteq> [] \<and> is_sha256_hex (cs_ruleset_hash s)"

lemma string_field_JStr [simp]: "jget p k = JStr v \<Longrightarrow> v \<noteq> [] \<Longrightarrow> string_field p k = Inr v"
  by (simp add: string_field_def)

lemma sha_field_JStr: "jget p k = JStr v \<Longrightarrow> is_sha256_hex v \<Longrightarrow> sha_field p k = Inr v"
  by (auto simp: sha_field_def validate_sha256_def is_sha256_hex_def string_field_def)

lemma decimal_field_JStr: "jget p k = JStr (str_int n) \<Longrightarrow> in_i64 n \<Longrightarrow> decimal_i64_field p k = Inr n"
  by (simp add: decimal_i64_field_def setup_decimal.parse_iff in_i64_def)

lemma from_payload_fields:
  assumes "setup_ok s" and "\<And>k v. (k, v) \<in> set (to_payload s) \<Longrightarrow> jget p k = v"
  shows "from_payload p = Inr s"
proof -
  have get: "jget p ''allow_degraded'' = JBool (cs_allow_degraded s)"
    "jget p ''allowed_redistribution'' =
       JList (map JStr (sorted_values RedistributionClass_value (cs_allowed_redistribution s)))"
    "jget p ''duration_ns'' = JStr (str_int (cs_duration_ns s))"
    "jget p ''eligibility_hash'' = JStr (cs_eligibility_hash s)"
    "jget p ''execution_tier'' = JStr (ExecutionTier_value (cs_execution_tier s))"
    "jget p ''instrument_id'' = JStr (cs_instrument_id s)"
    "jget p ''manifest_hash'' = JStr (cs_manifest_hash s)"
    "jget p ''play_start_ns'' = JStr (str_int (cs_play_start_ns s))"
    "jget p ''required_capabilities'' =
       JList (map JStr (sorted_values DataCapability_value (cs_required_capabilities s)))"
    "jget p ''ruleset_hash'' = JStr (cs_ruleset_hash s)"
    "jget p ''ruleset_id'' = JStr (cs_ruleset_id s)"
    "jget p ''ruleset_version'' = JStr (cs_ruleset_version s)"
    "jget p ''visibility_mode'' = JStr (VisibilityMode_value (cs_visibility_mode s))"
    "jget p ''warmup_ns'' = JStr (str_int (cs_warmup_ns s))"
    by (rule assms(2), simp add: to_payload_def)+
  obtain caps where caps: "bindR (string_list_field p ''required_capabilities'') (mapR DataCapability_of) = Inr caps"
      "set caps = cs_required_capabilities s"
    using sorted_values_roundtrip [of "cs_required_capabilities s" DataCapability_of DataCapability_value]
    by (auto simp: string_list_field_def get)
  obtain reds where reds: "bindR (string_list_field p ''allowed_redistribution'') (mapR RedistributionClass_of) = Inr reds"
      "set reds = cs_allowed_redistribution s"
    using sorted_values_roundtrip [of "cs_allowed_redistribution s" RedistributionClass_of RedistributionClass_value]
    by (auto simp: string_list_field_def get)
  have "nonnegative_decimal_field p ''warmup_ns'' = Inr (cs_warmup_ns s)"
    "positive_decimal_field p ''duration_ns'' = Inr (cs_duration_ns s)"
    using assms(1) decimal_field_JStr [OF get(14)] decimal_field_JStr [OF get(3)]
    by (simp_all add: nonnegative_decimal_field_def positive_decimal_field_def setup_ok_def)
  moreover have "sha_field p ''manifest_hash'' = Inr (cs_manifest_hash s)"
    "sha_field p ''eligibility_hash'' = Inr (cs_eligibility_hash s)"
    "sha_field p ''ruleset_hash'' = Inr (cs_ruleset_hash s)"
    using assms(1) by (simp_all add: sha_field_JStr get setup_ok_def)
  ultimately show ?thesis
    unfolding from_payload_def caps(1) reds(1)
    using assms(1) decimal_field_JStr [OF get(8)] caps(2) reds(2)
    by (simp add: get setup_ok_def bool_field_def)
qed

lemma string_field_ne: "string_field p k = Inr v \<Longrightarrow> v \<noteq> []"
  by (auto simp: string_field_def split: json.splits if_splits)

lemma sha_field_hex: "sha_field p k = Inr v \<Longrightarrow> is_sha256_hex v"
  by (auto simp: sha_field_def validate_sha256_def)

lemma decimal_field_i64: "decimal_i64_field p k = Inr n \<Longrightarrow> in_i64 n"
  by (auto simp: decimal_i64_field_def setup_decimal.parse_iff in_i64_def)

lemma from_payload_ok: "from_payload p = Inr s \<Longrightarrow> setup_ok s"
  by (auto simp: from_payload_def setup_ok_def nonnegative_decimal_field_def positive_decimal_field_def
      dest: string_field_ne sha_field_hex decimal_field_i64)

lemma to_payload_get: "(k, v) \<in> set (to_payload s) \<Longrightarrow> jget (to_payload s) k = v"
  by (rule jget_mem) (simp_all add: to_payload_def)

section \<open>Properties of the session data\<close>

text \<open>A committed setup is read back from its event payload exactly if it is well formed (non-empty
  names, SHA-256 hex digests, a non-negative warm-up and a positive duration in 64 bits), and whatever
  the decoder accepts is well formed and is read back from its own payload.\<close>

theorem setup_payload_roundtrip:
  "(from_payload (to_payload s) = Inr s \<longleftrightarrow> setup_ok s) \<and>
   (\<forall>p r. from_payload p = Inr r \<longrightarrow> setup_ok r \<and> from_payload (to_payload r) = Inr r)"
  using from_payload_fields [OF _ to_payload_get] from_payload_ok by blast

text \<open>The decimal decoder of session payloads accepts a text for the number \<open>n\<close> exactly if \<open>n\<close> is in
  the signed 64-bit range and the text is the one that \<^verbatim>\<open>str(n)\<close> prints: no sign on zero, no leading
  zero, no plus sign, no grouping, no foreign digit.\<close>

theorem decimal_i64_text_canonical:
  "decimal_i64_text s = Inr n \<longleftrightarrow> in_i64 n \<and> s = str_int n"
  by (auto simp: setup_decimal.parse_iff in_i64_def)

text \<open>A ruleset hash binds the ruleset. Two definitions built by \<open>from_body\<close> with equal hashes have the
  same id, version, allowed tiers and canonical body, unless a collision of SHA-256 is at hand.\<close>

theorem ruleset_hash_binding:
  assumes "from_body i v T b = Inr r" and "from_body j w U c = Inr q"
    and "rd_ruleset_hash r = rd_ruleset_hash q"
  shows "r = q \<or> sha256_collision"
proof -
  let ?id = "\<lambda>T b i v. JObj
       [(''allowed_execution_tiers'', JList (map JStr (sorted_values ExecutionTier_value T))),
        (''body'', b), (''ruleset_id'', JStr i), (''ruleset_version'', JStr v)]"
  have fin: "finite (S :: ExecutionTier set)" for S
    by (rule finite_subset [of _ "{F0, F0T, F1, F2, F3}"]) (use ExecutionTier.exhaust in blast, simp)
  have inj: "inj ExecutionTier_value" by (rule injI) (metis ExecutionTier_roundtrip sum.inject(2))
  from assms(1) have r: "r = \<lparr>rd_ruleset_id = i, rd_version = v, rd_allowed_execution_tiers = T,
      rd_canonical_body = sort_keys (JObj b), rd_ruleset_hash = sha256_hex (utf8 (dumps (?id T (sort_keys (JObj b)) i v)))\<rparr>"
    and nb: "no_float (JObj b)" by (auto simp: from_body_def canonical_json_def Let_def)
  from assms(2) have q: "q = \<lparr>rd_ruleset_id = j, rd_version = w, rd_allowed_execution_tiers = U,
      rd_canonical_body = sort_keys (JObj c), rd_ruleset_hash = sha256_hex (utf8 (dumps (?id U (sort_keys (JObj c)) j w)))\<rparr>"
    and nc: "no_float (JObj c)" by (auto simp: from_body_def canonical_json_def Let_def)
  have nf: "no_float (?id T (sort_keys b) i v)" if "no_float b" for T b i v
    using that by (simp add: list_all_iff)
  from assms(3) consider "dumps (?id T (sort_keys (JObj b)) i v) = dumps (?id U (sort_keys (JObj c)) j w)" | sha256_collision
    using sha256_hex_eqD r q by fastforce
  then show ?thesis
  proof cases
    case 1
    have "sort_keys (?id T (sort_keys (JObj b)) i v) = sort_keys (?id U (sort_keys (JObj c)) j w)"
      by (rule dumps_inject [OF nf [OF nb] nf [OF nc] 1])
    then have "map JStr (sorted_values ExecutionTier_value T) = map JStr (sorted_values ExecutionTier_value U)"
      and e: "sort_keys (sort_keys (JObj b)) = sort_keys (sort_keys (JObj c))" "i = j" "v = w"
      by simp_all
    then have "set (sorted_values ExecutionTier_value T) = set (sorted_values ExecutionTier_value U)"
      by (metis list.inj_map_strong json.inject(4))
    then have "T = U" using inj fin by (simp add: sorted_values_def inj_image_eq_iff)
    with e show ?thesis by (simp only: r q sort_keys_idem simp_thms)
  qed simp
qed

section \<open>Witnesses\<close>

definition demo_setup :: CommittedSetup where
  "demo_setup =
     \<lparr>cs_instrument_id = ''BTC-USDT'', cs_manifest_hash = demo_hash, cs_eligibility_hash = demo_hash,
      cs_play_start_ns = 300, cs_warmup_ns = 50, cs_duration_ns = 400, cs_execution_tier = F1,
      cs_required_capabilities = {TRADES, BBO}, cs_allowed_redistribution = {REDISTRIBUTABLE},
      cs_allow_degraded = False, cs_visibility_mode = RELATIVE, cs_ruleset_id = ''crypto'',
      cs_ruleset_version = ''1'', cs_ruleset_hash = demo_hash\<rparr>"

lemma demo_setup_ok: "setup_ok demo_setup"
  by code_simp

theorem setup_payload_roundtrip_witness:
  "from_payload (to_payload demo_setup) = Inr demo_setup"
  using setup_payload_roundtrip [of demo_setup] demo_setup_ok by blast

definition demo_ruleset :: "RulesetDefinition" where
  "demo_ruleset = (case from_body ''crypto'' ''1'' {F0T, F1} [(''b'', JInt 1), (''a'', JBool True)] of
     Inr r \<Rightarrow> r | Inl _ \<Rightarrow> \<lparr>rd_ruleset_id = [], rd_version = [], rd_allowed_execution_tiers = {},
       rd_canonical_body = JNull, rd_ruleset_hash = []\<rparr>)"

lemma demo_ruleset_from_body:
  "from_body ''crypto'' ''1'' {F0T, F1} [(''b'', JInt 1), (''a'', JBool True)] = Inr demo_ruleset"
  "from_body ''crypto'' ''1'' {F1, F0T} [(''a'', JBool True), (''b'', JInt 1)] = Inr demo_ruleset"
  by (simp_all add: demo_ruleset_def from_body_def canonical_json_def Let_def insert_commute)

theorem ruleset_hash_binding_witness: "demo_ruleset = demo_ruleset \<or> sha256_collision"
  by (rule ruleset_hash_binding [OF demo_ruleset_from_body refl])

end
