(* ===== verification/Sessions.thy ===== *)
theory Sessions
  imports Session_Model Event_Store
begin

text \<open>
  The session service (\<^verbatim>\<open>sessions/service.py\<close>): setup validation against the catalog and the
  transactional lifecycle SETUP, COMMITTED, RUNNING, PAUSED, COMPLETED with forks. Each operation
  takes its arguments and the database and returns an exception or the session record with the new
  database.

  The theorems about these definitions are in \<open>Session_Lifecycle\<close>.
\<close>

section \<open>Guards\<close>

abbreviation session_error :: "session_code \<Rightarrow> exn" where
  "session_error \<equiv> SessionLifecycleError"

definition validate_identity :: "string \<Rightarrow> unit res" where
  "validate_identity value =
     require (\<not> (value = [] \<or> 160 < length value \<or> list_ex isspace_char value))
       (session_error SE_INVALID_VALUE)"

definition validate_lifecycle_version :: "int \<Rightarrow> unit res" where
  "validate_lifecycle_version value =
     catchR (validate_version value) is_ValueError (session_error SE_INVALID_VALUE)"

definition validate_lifecycle_i64 :: "int \<Rightarrow> unit res" where
  "validate_lifecycle_i64 value =
     catchR (validate_i64 value) is_ValueError (session_error SE_INVALID_VALUE)"

definition next_version :: "int \<Rightarrow> int res" where
  "next_version expected_version =
     bindR (validate_lifecycle_version expected_version) (\<lambda>_.
     bindR (require (expected_version \<noteq> 2 ^ 64 - 1) (session_error SE_VERSION_CONFLICT)) (\<lambda>_.
     Inr (expected_version + 1)))"

definition require_version :: "int \<Rightarrow> int \<Rightarrow> unit res" where
  "require_version stored expected =
     bindR (catchR (bindR (validate_version expected) (\<lambda>_. validate_version stored))
       (\<lambda>e. is_TypeError e \<or> is_ValueError e) (session_error SE_INVALID_VALUE)) (\<lambda>_.
     require (stored = expected) (session_error SE_VERSION_CONFLICT))"

definition require_status :: "SessionStatus \<Rightarrow> SessionStatus set \<Rightarrow> unit res" where
  "require_status status allowed = require (status \<in> allowed) (session_error SE_INVALID_TRANSITION)"

fun mapping :: "json \<Rightarrow> fields res" where
  "mapping (JObj fs) = Inr fs"
| "mapping _ = Inl ValueError"

section \<open>Events\<close>

definition event_hash :: "string \<Rightarrow> int \<Rightarrow> int \<Rightarrow> string \<Rightarrow> string \<Rightarrow> json \<Rightarrow> string \<Rightarrow> string" where
  "event_hash session_id event_seq logical_ts_ns event_type causation_id payload prior_hash =
     sha256_hex (ascii (dumps (JObj
       [(''causation_id'', JStr causation_id),
        (''event_seq'', JStr (str_int event_seq)),
        (''event_type'', JStr event_type),
        (''logical_ts_ns'', JStr (str_int logical_ts_ns)),
        (''payload'', payload),
        (''prior_event_hash'', JStr prior_hash),
        (''session_id'', JStr session_id)])))"

definition lifecycle_causation_id :: "string \<Rightarrow> int \<Rightarrow> string" where
  "lifecycle_causation_id session_id state_version =
     ''session-lifecycle:'' @ session_id @ '':v'' @ str_int state_version"

definition append_event :: "string \<Rightarrow> string \<Rightarrow> int \<Rightarrow> fields \<Rightarrow> int \<Rightarrow> db \<Rightarrow> db res" where
  "append_event session_id event_type logical_ts_ns payload state_version d =
     bindR (validate_i64 logical_ts_ns) (\<lambda>_.
     bindR (validate_version state_version) (\<lambda>_.
     let last = last_event d session_id;
         event_seq = (case last of None \<Rightarrow> 0 | Some e \<Rightarrow> e_event_seq e + 1)
     in bindR (validate_version event_seq) (\<lambda>_.
     let prior_hash = (case last of None \<Rightarrow> ZERO_HASH | Some e \<Rightarrow> e_current_event_hash e);
         causation_id = lifecycle_causation_id session_id state_version;
         current_hash = event_hash session_id event_seq logical_ts_ns event_type causation_id
           (JObj payload) prior_hash
     in insert_event
          \<lparr>e_session_id = session_id, e_event_seq = event_seq, e_logical_ts_ns = logical_ts_ns,
           e_event_type = event_type, e_causation_id = causation_id, e_correlation_id = session_id,
           e_payload_json = JObj payload, e_prior_event_hash = prior_hash,
           e_current_event_hash = current_hash\<rparr> d)))"

section \<open>Materialisation\<close>

type_synonym replayed = "CommittedSetup option \<times> int option \<times> string option"

fun replay_event :: "replayed \<Rightarrow> event_row \<Rightarrow> replayed res" where
  "replay_event (setup, logical_time_ns, parent_session_id) e =
     bindR (mapping (e_payload_json e)) (\<lambda>payload.
     if e_event_type e = ''SESSION_COMMITTED'' \<or> e_event_type e = ''SESSION_FORKED'' then
       bindR (require (setup = None) ValueError) (\<lambda>_.
       bindR (from_payload payload) (\<lambda>new_setup.
       if e_event_type e = ''SESSION_FORKED'' then
         bindR (string_field payload ''parent_session_id'') (\<lambda>parent.
         bindR (decimal_i64_field payload ''fork_logical_time_ns'') (\<lambda>time.
         Inr (Some new_setup, Some time, Some parent)))
       else Inr (Some new_setup, Some (cs_play_start_ns new_setup), parent_session_id)))
     else if e_event_type e = ''SESSION_ADVANCED'' then
       bindR (require (setup \<noteq> None) ValueError) (\<lambda>_.
       bindR (decimal_i64_field payload ''logical_time_ns'') (\<lambda>time.
       Inr (setup, Some time, parent_session_id)))
     else Inr (setup, logical_time_ns, parent_session_id))"

definition replay_events :: "db \<Rightarrow> string \<Rightarrow> replayed res" where
  "replay_events d session_id =
     catchR (foldR replay_event (None, None, None) (session_events d session_id))
       (\<lambda>e. is_TypeError e \<or> is_ValueError e) (session_error SE_INVALID_VALUE)"

definition materialize_from_row :: "db \<Rightarrow> session_row \<Rightarrow> string \<Rightarrow> SessionRecord res" where
  "materialize_from_row d row principal_id =
     bindR (require (s_principal_id row = principal_id) (session_error SE_PRINCIPAL_MISMATCH)) (\<lambda>_.
     bindR (replay_events d (s_session_id row)) (\<lambda>(setup, logical_time_ns, parent_session_id).
     bindR (catchR (bindR (validate_version (s_version row)) (\<lambda>_.
         bindR (validate_i64 (s_created_at_ns row)) (\<lambda>_.
         SessionStatus_of (s_status row))))
       (\<lambda>e. is_TypeError e \<or> is_ValueError e) (session_error SE_INVALID_VALUE)) (\<lambda>status.
     bindR (require (\<not> (status \<noteq> SETUP \<and> setup = None)) (session_error SE_INVALID_VALUE)) (\<lambda>_.
     bindR (require (case (setup, s_ruleset_id row) of
           (Some s, Some i) \<Rightarrow> i = cs_ruleset_id s | _ \<Rightarrow> True)
         (session_error SE_INVALID_VALUE)) (\<lambda>_.
     Inr \<lparr>rec_session_id = s_session_id row, rec_principal_id = principal_id, rec_status = status,
          rec_version = s_version row, rec_created_at_ns = s_created_at_ns row,
          rec_setup = setup, rec_logical_time_ns = logical_time_ns,
          rec_parent_session_id = parent_session_id\<rparr>)))))"

definition materialize :: "db \<Rightarrow> string \<Rightarrow> string \<Rightarrow> SessionRecord res" where
  "materialize d session_id principal_id =
     (case session_by_id d session_id of
        None \<Rightarrow> Inl (session_error SE_SESSION_NOT_FOUND)
      | Some row \<Rightarrow> materialize_from_row d row principal_id)"

definition get_session :: "db \<Rightarrow> string \<Rightarrow> string \<Rightarrow> SessionRecord res" where
  "get_session d session_id principal_id = materialize d session_id principal_id"

definition locked_row :: "db \<Rightarrow> string \<Rightarrow> string \<Rightarrow> session_row res" where
  "locked_row d session_id principal_id =
     (case session_by_id d session_id of
        None \<Rightarrow> Inl (session_error SE_SESSION_NOT_FOUND)
      | Some row \<Rightarrow>
          bindR (require (s_principal_id row = principal_id) (session_error SE_PRINCIPAL_MISMATCH))
            (\<lambda>_. Inr row))"

section \<open>Operations\<close>

definition create_session :: "string \<Rightarrow> string \<Rightarrow> int \<Rightarrow> SessionRecord tx" where
  "create_session session_id principal_id created_at_ns d =
     bindR (validate_identity session_id) (\<lambda>_.
     bindR (validate_identity principal_id) (\<lambda>_.
     bindR (validate_lifecycle_i64 created_at_ns) (\<lambda>_.
     catchR
       (bindR (insert_session \<lparr>s_session_id = session_id, s_principal_id = principal_id,
            s_status = SessionStatus_value SETUP, s_version = 0, s_ruleset_id = None,
            s_commitment_hash = None, s_created_at_ns = created_at_ns\<rparr> d) (\<lambda>d.
        bindR (materialize d session_id principal_id) (\<lambda>record.
        Inr (record, d))))
       is_IntegrityError (session_error SE_SESSION_EXISTS))))"

text \<open>Python compares dictionaries without regard to key order and identifies booleans with 0 and 1.\<close>

fun unbool :: "json \<Rightarrow> json" where
  "unbool (JBool b) = JInt (if b then 1 else 0)"
| "unbool (JList xs) = JList (map unbool xs)"
| "unbool (JObj fs) = JObj (map (\<lambda>(k, v). (k, unbool v)) fs)"
| "unbool v = v"

definition dict_eq :: "fields \<Rightarrow> fields \<Rightarrow> bool" where
  "dict_eq a b \<longleftrightarrow> sort_keys (unbool (JObj a)) = sort_keys (unbool (JObj b))"

definition persist_ruleset :: "SetupRequest \<Rightarrow> db \<Rightarrow> db res" where
  "persist_ruleset setup d =
     (let ruleset = sr_ruleset setup in
      bindR (ruleset_body ruleset) (\<lambda>body.
      case ruleset_by_id d (rd_ruleset_id ruleset) of
        None \<Rightarrow>
          bindR (require (rd_ruleset_hash ruleset \<notin> set (map r_ruleset_hash (db_rulesets d)))
            (session_error SE_RULESET_CONFLICT)) (\<lambda>_.
          insert_ruleset \<lparr>r_ruleset_id = rd_ruleset_id ruleset,
            r_ruleset_version = rd_version ruleset,
            r_ruleset_hash = rd_ruleset_hash ruleset, r_body_json = JObj body\<rparr> d)
      | Some existing \<Rightarrow>
          if r_ruleset_version existing \<noteq> rd_version ruleset \<or>
             r_ruleset_hash existing \<noteq> rd_ruleset_hash ruleset
          then Inl (session_error SE_RULESET_CONFLICT)
          else bindR (mapping (r_body_json existing)) (\<lambda>stored.
            bindR (require (dict_eq stored body) (session_error SE_RULESET_CONFLICT)) (\<lambda>_. Inr d))))"

definition advance_version :: "string \<Rightarrow> int \<Rightarrow> int \<Rightarrow> SessionStatus \<Rightarrow> db \<Rightarrow> db res" where
  "advance_version session_id expected_version new_version target_status d =
     bindR (update_sessions (\<lambda>r. s_session_id r = session_id \<and> s_version r = expected_version)
       (\<lambda>r. r\<lparr>s_status := SessionStatus_value target_status, s_version := new_version\<rparr>) d) (\<lambda>(rowcount, d).
     bindR (require (rowcount = 1) (session_error SE_VERSION_CONFLICT)) (\<lambda>_. Inr d))"

definition commit_requirement :: "SetupRequest \<Rightarrow> SetupRequirement" where
  "commit_requirement setup =
     \<lparr>req_instrument_id = sr_instrument_id setup, req_play_start_ns = sr_play_start_ns setup,
      req_warmup_ns = sr_warmup_ns setup, req_duration_ns = sr_duration_ns setup,
      req_minimum_tier = sr_execution_tier setup,
      req_required_capabilities =
        capabilities_for_tier (sr_execution_tier setup) \<union> sr_required_capabilities setup,
      req_allowed_redistribution = sr_allowed_redistribution setup,
      req_allow_degraded = sr_allow_degraded setup\<rparr>"

definition committed_setup :: "CoverageCatalog \<Rightarrow> SetupRequest \<Rightarrow> CommittedSetup" where
  "committed_setup catalog setup =
     \<lparr>cs_instrument_id = sr_instrument_id setup, cs_manifest_hash = sr_manifest_hash setup,
      cs_eligibility_hash = eligibility_hash catalog (commit_requirement setup),
      cs_play_start_ns = sr_play_start_ns setup, cs_warmup_ns = sr_warmup_ns setup,
      cs_duration_ns = sr_duration_ns setup, cs_execution_tier = sr_execution_tier setup,
      cs_required_capabilities =
        capabilities_for_tier (sr_execution_tier setup) \<union> sr_required_capabilities setup,
      cs_allowed_redistribution = sr_allowed_redistribution setup,
      cs_allow_degraded = sr_allow_degraded setup, cs_visibility_mode = sr_visibility_mode setup,
      cs_ruleset_id = rd_ruleset_id (sr_ruleset setup),
      cs_ruleset_version = rd_version (sr_ruleset setup),
      cs_ruleset_hash = rd_ruleset_hash (sr_ruleset setup)\<rparr>"

definition commit_checks :: "CoverageCatalog \<Rightarrow> SetupRequest \<Rightarrow> unit res" where
  "commit_checks catalog setup =
     bindR (require (sr_execution_tier setup \<in> rd_allowed_execution_tiers (sr_ruleset setup))
       (session_error SE_RULESET_FIDELITY_UNSUPPORTED)) (\<lambda>_.
     bindR (SetupRequirement_post_init (commit_requirement setup)) (\<lambda>_.
     let eligible = eligible_setups catalog (commit_requirement setup)
     in bindR (require (eligible \<noteq> []) (session_error SE_SETUP_INELIGIBLE)) (\<lambda>_.
     require (sr_manifest_hash setup \<in> set (map es_manifest_hash eligible))
       (session_error SE_MANIFEST_INELIGIBLE))))"

definition commit :: "CoverageCatalog \<Rightarrow> string \<Rightarrow> string \<Rightarrow> int \<Rightarrow> SetupRequest \<Rightarrow> SessionRecord tx" where
  "commit catalog session_id principal_id expected_version setup d =
     bindR (next_version expected_version) (\<lambda>next_version.
     bindR (commit_checks catalog setup) (\<lambda>_.
     bindR (locked_row d session_id principal_id) (\<lambda>row.
     bindR (require_version (s_version row) expected_version) (\<lambda>_.
     bindR (SessionStatus_of (s_status row)) (\<lambda>status.
     bindR (require_status status {SETUP}) (\<lambda>_.
     bindR (persist_ruleset setup d) (\<lambda>d.
     bindR (append_event session_id ''SESSION_COMMITTED'' (sr_play_start_ns setup)
       (to_payload (committed_setup catalog setup)) next_version d) (\<lambda>d.
     bindR (update_sessions
         (\<lambda>r. s_session_id r = session_id \<and> s_version r = expected_version \<and>
              s_status r = SessionStatus_value SETUP)
         (\<lambda>r. r\<lparr>s_status := SessionStatus_value COMMITTED, s_version := next_version,
               s_ruleset_id := Some (rd_ruleset_id (sr_ruleset setup))\<rparr>) d) (\<lambda>(rowcount, d).
     bindR (require (rowcount = 1) (session_error SE_VERSION_CONFLICT)) (\<lambda>_.
     bindR (materialize d session_id principal_id) (\<lambda>record. Inr (record, d))))))))))))"

definition status_transition ::
    "string \<Rightarrow> string \<Rightarrow> int \<Rightarrow> SessionStatus set \<Rightarrow> SessionStatus \<Rightarrow> string \<Rightarrow> SessionRecord tx" where
  "status_transition session_id principal_id expected_version allowed target event_type d =
     bindR (next_version expected_version) (\<lambda>next_version.
     bindR (locked_row d session_id principal_id) (\<lambda>row.
     bindR (require_version (s_version row) expected_version) (\<lambda>_.
     bindR (materialize_from_row d row principal_id) (\<lambda>current.
     bindR (require_status (rec_status current) allowed) (\<lambda>_.
     case rec_logical_time_ns current of None \<Rightarrow> Inl (session_error SE_INVALID_TRANSITION)
     | Some logical_time_ns \<Rightarrow>
     bindR (append_event session_id event_type logical_time_ns [] next_version d) (\<lambda>d.
     bindR (advance_version session_id expected_version next_version target d) (\<lambda>d.
     bindR (materialize d session_id principal_id) (\<lambda>record. Inr (record, d)))))))))"

definition start :: "string \<Rightarrow> string \<Rightarrow> int \<Rightarrow> SessionRecord tx" where
  "start session_id principal_id expected_version =
     status_transition session_id principal_id expected_version {COMMITTED, PAUSED} RUNNING ''SESSION_STARTED''"

definition pause :: "string \<Rightarrow> string \<Rightarrow> int \<Rightarrow> SessionRecord tx" where
  "pause session_id principal_id expected_version =
     status_transition session_id principal_id expected_version {RUNNING} PAUSED ''SESSION_PAUSED''"

definition advance :: "string \<Rightarrow> string \<Rightarrow> int \<Rightarrow> int \<Rightarrow> SessionRecord tx" where
  "advance session_id principal_id expected_version logical_time_ns d =
     bindR (validate_lifecycle_i64 logical_time_ns) (\<lambda>_.
     bindR (next_version expected_version) (\<lambda>next_version.
     bindR (locked_row d session_id principal_id) (\<lambda>row.
     bindR (require_version (s_version row) expected_version) (\<lambda>_.
     bindR (materialize_from_row d row principal_id) (\<lambda>current.
     bindR (require_status (rec_status current) {RUNNING}) (\<lambda>_.
     case (rec_setup current, rec_logical_time_ns current) of
       (Some setup, Some current_time) \<Rightarrow>
         bindR (require (\<not> (logical_time_ns \<le> current_time \<or> play_end_ns setup < logical_time_ns))
           (session_error SE_ADVANCE_OUT_OF_RANGE)) (\<lambda>_.
         bindR (append_event session_id ''SESSION_ADVANCED'' logical_time_ns
           [(''logical_time_ns'', JStr (str_int logical_time_ns))] next_version d) (\<lambda>d.
         bindR (advance_version session_id expected_version next_version RUNNING d) (\<lambda>d.
         bindR (materialize d session_id principal_id) (\<lambda>record. Inr (record, d)))))
     | _ \<Rightarrow> Inl (session_error SE_INVALID_TRANSITION)))))))"

definition complete :: "string \<Rightarrow> string \<Rightarrow> int \<Rightarrow> SessionRecord tx" where
  "complete session_id principal_id expected_version d =
     bindR (next_version expected_version) (\<lambda>next_version.
     bindR (locked_row d session_id principal_id) (\<lambda>row.
     bindR (require_version (s_version row) expected_version) (\<lambda>_.
     bindR (materialize_from_row d row principal_id) (\<lambda>current.
     bindR (require_status (rec_status current) {RUNNING, PAUSED}) (\<lambda>_.
     case (rec_setup current, rec_logical_time_ns current) of
       (Some setup, Some current_time) \<Rightarrow>
         bindR (require (current_time = play_end_ns setup) (session_error SE_INVALID_TRANSITION)) (\<lambda>_.
         bindR (append_event session_id ''SESSION_COMPLETED'' current_time [] next_version d) (\<lambda>d.
         bindR (advance_version session_id expected_version next_version COMPLETED d) (\<lambda>d.
         bindR (materialize d session_id principal_id) (\<lambda>record. Inr (record, d)))))
     | _ \<Rightarrow> Inl (session_error SE_INVALID_TRANSITION))))))"

definition fork_payload :: "CommittedSetup \<Rightarrow> int \<Rightarrow> string \<Rightarrow> int \<Rightarrow> fields" where
  "fork_payload setup logical_time_ns session_id expected_version =
     AList.update ''parent_version'' (JStr (str_int expected_version))
     (AList.update ''parent_session_id'' (JStr session_id)
     (AList.update ''fork_logical_time_ns'' (JStr (str_int logical_time_ns)) (to_payload setup)))"

definition fork :: "string \<Rightarrow> string \<Rightarrow> int \<Rightarrow> string \<Rightarrow> int \<Rightarrow> SessionRecord tx" where
  "fork session_id principal_id expected_version child_session_id created_at_ns d =
     bindR (validate_identity child_session_id) (\<lambda>_.
     bindR (validate_lifecycle_i64 created_at_ns) (\<lambda>_.
     bindR (validate_lifecycle_version expected_version) (\<lambda>_.
     bindR (require (child_session_id \<noteq> session_id) (session_error SE_INVALID_FORK_TARGET)) (\<lambda>_.
     catchR
       (bindR (locked_row d session_id principal_id) (\<lambda>row.
        bindR (require_version (s_version row) expected_version) (\<lambda>_.
        bindR (materialize_from_row d row principal_id) (\<lambda>current.
        bindR (require_status (rec_status current) {COMMITTED, RUNNING, PAUSED}) (\<lambda>_.
        case (rec_setup current, rec_logical_time_ns current) of
          (Some setup, Some logical_time_ns) \<Rightarrow>
            let child_status = (if logical_time_ns = cs_play_start_ns setup then COMMITTED else PAUSED)
            in bindR (insert_session
                \<lparr>s_session_id = child_session_id, s_principal_id = principal_id,
                 s_status = SessionStatus_value child_status, s_version = 1,
                 s_ruleset_id = Some (cs_ruleset_id setup), s_commitment_hash = None,
                 s_created_at_ns = created_at_ns\<rparr> d) (\<lambda>d.
            bindR (append_event child_session_id ''SESSION_FORKED'' logical_time_ns
              (fork_payload setup logical_time_ns session_id expected_version) 1 d) (\<lambda>d.
            bindR (materialize d child_session_id principal_id) (\<lambda>record. Inr (record, d))))
        | _ \<Rightarrow> Inl (session_error SE_INVALID_TRANSITION))))))
       is_IntegrityError (session_error SE_SESSION_EXISTS)))))"

end
