(* ===== verification/Session_Lifecycle.thy ===== *)
theory Session_Lifecycle
  imports Sessions
begin

text \<open>
  The correctness of the session service.

  \<open>session_state\<close> reads a session as the service materialises it. Every operation refines one
  step of the abstract lifecycle \<open>lifecycle_step\<close> on that view; all reachable databases keep
  the lifecycle invariant; and the committed setup, the logical frontier, versions, ownership, forks
  and the event chain behave as a replay session needs.
\<close>

section \<open>Sessions as the service reads them\<close>

definition session_state :: "db \<Rightarrow> string \<Rightarrow> SessionRecord option" where
  "session_state d i =
     (case session_by_id d i of None \<Rightarrow> None
      | Some row \<Rightarrow> (case materialize_from_row d row (s_principal_id row) of Inl _ \<Rightarrow> None | Inr r \<Rightarrow> Some r))"

definition replay_log :: "db \<Rightarrow> string \<Rightarrow> replayed res" where
  "replay_log d i = foldR replay_event (None, None, None) (session_events d i)"

lemma enum_of_sound: "enum_of members val s = Inr x \<Longrightarrow> s = val x"
  by (auto simp: enum_of_def split: option.splits dest!: find_SomeD)

lemma SessionStatus_of_iff: "SessionStatus_of s = Inr st \<longleftrightarrow> s = SessionStatus_value st"
proof
  assume "SessionStatus_of s = Inr st"
  then show "s = SessionStatus_value st" unfolding SessionStatus_of_def by (rule enum_of_sound)
qed simp

lemma session_by_id_key: "session_by_id d i = Some row \<Longrightarrow> s_session_id row = i"
  using find_SomeD by (fastforce simp: session_by_id_def)

lemma ruleset_agrees:
  "(case S of None \<Rightarrow> True | Some s \<Rightarrow> case x of None \<Rightarrow> True | Some i \<Rightarrow> i = cs_ruleset_id s) \<longleftrightarrow>
   (\<forall>s i. S = Some s \<longrightarrow> x = Some i \<longrightarrow> i = cs_ruleset_id s)"
  by (auto split: option.splits)

lemma materialize_from_row_iff:
  "materialize_from_row d row p = Inr r \<longleftrightarrow>
     s_principal_id row = p \<and>
     (\<exists>st S t q. s_status row = SessionStatus_value st \<and> replay_log d (s_session_id row) = Inr (S, t, q) \<and>
        in_u64 (s_version row) \<and> in_i64 (s_created_at_ns row) \<and> (st \<noteq> SETUP \<longrightarrow> S \<noteq> None) \<and>
        (\<forall>s i. S = Some s \<longrightarrow> s_ruleset_id row = Some i \<longrightarrow> i = cs_ruleset_id s) \<and>
        r = \<lparr>rec_session_id = s_session_id row, rec_principal_id = p, rec_status = st,
             rec_version = s_version row, rec_created_at_ns = s_created_at_ns row,
             rec_setup = S, rec_logical_time_ns = t, rec_parent_session_id = q\<rparr>)"
  by (auto simp: materialize_from_row_def replay_events_def replay_log_def validate_version_def
      validate_i64_def SessionStatus_of_iff ruleset_agrees)

lemma materialize_principal:
  "materialize_from_row d row p = Inr r \<Longrightarrow> s_principal_id row = p \<and> rec_principal_id r = p"
  by (auto simp: materialize_from_row_iff)

lemma materialize_iff:
  "materialize d i p = Inr r \<longleftrightarrow> session_state d i = Some r \<and> rec_principal_id r = p"
proof (cases "session_by_id d i")
  case (Some row)
  then show ?thesis
    using materialize_principal [of d row p r] materialize_principal [of d row "s_principal_id row" r]
    by (auto simp: materialize_def session_state_def split: sum.splits)
qed (simp add: materialize_def session_state_def)

lemma row_materialize:
  "session_by_id d i = Some row \<Longrightarrow> materialize_from_row d row p = Inr r \<Longrightarrow> session_state d i = Some r"
  using materialize_iff [of d i p r] by (simp add: materialize_def)

lemma session_state_cong:
  "session_by_id d' j = session_by_id d j \<Longrightarrow> session_events d' j = session_events d j \<Longrightarrow>
   session_state d' j = session_state d j"
  by (auto simp: session_state_def materialize_from_row_def replay_events_def
      dest!: session_by_id_key split: option.splits)

text \<open>What the service may assume of a materialised session.\<close>

definition record_ok :: "SessionRecord \<Rightarrow> bool" where
  "record_ok r \<longleftrightarrow> in_u64 (rec_version r) \<and> in_i64 (rec_created_at_ns r) \<and>
     (case rec_setup r of
        None \<Rightarrow> rec_status r = SETUP \<and> rec_logical_time_ns r = None \<and> rec_parent_session_id r = None
      | Some s \<Rightarrow> rec_status r \<noteq> SETUP \<and> setup_ok s \<and>
          (case rec_logical_time_ns r of None \<Rightarrow> False
           | Some t \<Rightarrow> in_i64 t \<and> cs_play_start_ns s \<le> t \<and> t \<le> play_end_ns s \<and>
               (rec_status r = COMMITTED \<longrightarrow> t = cs_play_start_ns s) \<and>
               (rec_status r = COMPLETED \<longrightarrow> t = play_end_ns s)))"

definition sessions_inv :: "db \<Rightarrow> bool" where
  "sessions_inv d \<longleftrightarrow> log_ok d \<and>
     (\<forall>i. session_by_id d i \<noteq> None \<longrightarrow> (\<exists>r. session_state d i = Some r \<and> record_ok r))"

section \<open>The abstract lifecycle\<close>

type_synonym lifecycle = "string \<Rightarrow> SessionRecord option"

inductive lifecycle_step :: "lifecycle \<Rightarrow> lifecycle \<Rightarrow> bool" where
  created: "\<sigma> i = None \<Longrightarrow> lifecycle_step \<sigma> (\<sigma>(i \<mapsto> \<lparr>rec_session_id = i, rec_principal_id = p,
      rec_status = SETUP, rec_version = 0, rec_created_at_ns = ts, rec_setup = None,
      rec_logical_time_ns = None, rec_parent_session_id = None\<rparr>))" if "in_i64 ts"
| committed: "\<sigma> i = Some r \<Longrightarrow> rec_status r = SETUP \<Longrightarrow> rec_setup r = None \<Longrightarrow>
    rec_logical_time_ns r = None \<Longrightarrow> setup_ok s \<Longrightarrow> rec_version r + 1 \<le> U64_MAX \<Longrightarrow>
    lifecycle_step \<sigma> (\<sigma>(i \<mapsto> r\<lparr>rec_status := COMMITTED, rec_version := rec_version r + 1,
      rec_setup := Some s, rec_logical_time_ns := Some (cs_play_start_ns s)\<rparr>))"
| switched: "\<sigma> i = Some r \<Longrightarrow> rec_status r \<in> {COMMITTED, PAUSED} \<and> st = RUNNING \<or>
      rec_status r = RUNNING \<and> st = PAUSED \<Longrightarrow> rec_version r + 1 \<le> U64_MAX \<Longrightarrow>
    lifecycle_step \<sigma> (\<sigma>(i \<mapsto> r\<lparr>rec_status := st, rec_version := rec_version r + 1\<rparr>))"
| advanced: "\<sigma> i = Some r \<Longrightarrow> rec_status r = RUNNING \<Longrightarrow> rec_setup r = Some s \<Longrightarrow>
      rec_logical_time_ns r = Some t \<Longrightarrow> t < u \<Longrightarrow> u \<le> play_end_ns s \<Longrightarrow> in_i64 u \<Longrightarrow>
      rec_version r + 1 \<le> U64_MAX \<Longrightarrow>
    lifecycle_step \<sigma> (\<sigma>(i \<mapsto> r\<lparr>rec_version := rec_version r + 1, rec_logical_time_ns := Some u\<rparr>))"
| completed: "\<sigma> i = Some r \<Longrightarrow> rec_status r \<in> {RUNNING, PAUSED} \<Longrightarrow> rec_setup r = Some s \<Longrightarrow>
      rec_logical_time_ns r = Some (play_end_ns s) \<Longrightarrow> rec_version r + 1 \<le> U64_MAX \<Longrightarrow>
    lifecycle_step \<sigma> (\<sigma>(i \<mapsto> r\<lparr>rec_status := COMPLETED, rec_version := rec_version r + 1\<rparr>))"
| forked: "\<sigma> i = Some r \<Longrightarrow> \<sigma> c = None \<Longrightarrow> rec_status r \<in> {COMMITTED, RUNNING, PAUSED} \<Longrightarrow>
      rec_setup r = Some s \<Longrightarrow> rec_logical_time_ns r = Some t \<Longrightarrow> in_i64 ts \<Longrightarrow>
    lifecycle_step \<sigma> (\<sigma>(c \<mapsto> \<lparr>rec_session_id = c, rec_principal_id = rec_principal_id r,
      rec_status = (if t = cs_play_start_ns s then COMMITTED else PAUSED), rec_version = 1,
      rec_created_at_ns = ts, rec_setup = Some s, rec_logical_time_ns = Some t,
      rec_parent_session_id = Some i\<rparr>))"
| traded: "\<sigma> i = Some r \<Longrightarrow> rec_status r = RUNNING \<Longrightarrow> rec_version r + 1 \<le> U64_MAX \<Longrightarrow>
    lifecycle_step \<sigma> (\<sigma>(i \<mapsto> r\<lparr>rec_version := rec_version r + 1\<rparr>))"

lemma record_okD:
  assumes "record_ok r" and "rec_status r \<noteq> SETUP"
  obtains s t where "rec_setup r = Some s" "rec_logical_time_ns r = Some t" "setup_ok s" "in_i64 t"
    "cs_play_start_ns s \<le> t" "t \<le> play_end_ns s"
    "rec_status r = COMMITTED \<Longrightarrow> t = cs_play_start_ns s" "rec_status r = COMPLETED \<Longrightarrow> t = play_end_ns s"
  using assms by (auto simp: record_ok_def split: option.splits)

lemma record_ok_bump:
  assumes "record_ok r" and "rec_version r + 1 \<le> U64_MAX" and "rec_status r \<noteq> SETUP"
    and "st \<in> {RUNNING, PAUSED}"
  shows "record_ok (r\<lparr>rec_status := st, rec_version := rec_version r + 1\<rparr>)"
  using assms(1,3)
proof (cases rule: record_okD)
  case (1 s t)
  with assms show ?thesis by (auto simp: record_ok_def in_u64_def)
qed

lemma record_stepI: "\<sigma>' = \<sigma>(k \<mapsto> q) \<Longrightarrow> record_ok q \<Longrightarrow> \<exists>k q. \<sigma>' = \<sigma>(k \<mapsto> q) \<and> record_ok q"
  by blast

lemma lifecycle_step_ok:
  assumes "lifecycle_step \<sigma> \<sigma>'" and "\<And>i r. \<sigma> i = Some r \<Longrightarrow> record_ok r"
  shows "\<exists>k q. \<sigma>' = \<sigma>(k \<mapsto> q) \<and> record_ok q"
  using assms(1)
proof (cases rule: lifecycle_step.cases)
  case (created ts i p)
  show ?thesis
    by (rule record_stepI [OF created(1)]) (use created in \<open>simp add: record_ok_def in_u64_def U64_MAX_def\<close>)
next
  case (committed i r s)
  have "record_ok r" using assms(2) committed by blast
  then show ?thesis
    by (intro record_stepI [OF committed(1)]) (use committed in \<open>auto simp: record_ok_def in_u64_def setup_ok_def play_end_ns_def split: option.splits\<close>)
next
  case (switched i r st)
  then have "record_ok (r\<lparr>rec_status := st, rec_version := rec_version r + 1\<rparr>)"
    using assms(2) [of i r] by (intro record_ok_bump) auto
  with switched show ?thesis by blast
next
  case (advanced i r s t u)
  have "record_ok r" using assms(2) advanced by blast
  then show ?thesis
    by (intro record_stepI [OF advanced(1)]) (use advanced in \<open>auto simp: record_ok_def in_u64_def split: option.splits\<close>)
next
  case (completed i r s)
  have "record_ok r" using assms(2) completed by blast
  then show ?thesis
    by (intro record_stepI [OF completed(1)]) (use completed in \<open>auto simp: record_ok_def in_u64_def setup_ok_def play_end_ns_def\<close>)
next
  case (forked i r c s t ts)
  have "record_ok r" using assms(2) forked by blast
  then show ?thesis
    by (intro record_stepI [OF forked(1)]) (use forked in \<open>auto simp: record_ok_def in_u64_def U64_MAX_def\<close>)
next
  case (traded i r)
  then have "record_ok (r\<lparr>rec_status := RUNNING, rec_version := rec_version r + 1\<rparr>)"
    using assms(2) [of i r] by (intro record_ok_bump) auto
  moreover have "r\<lparr>rec_status := RUNNING, rec_version := rec_version r + 1\<rparr> = r\<lparr>rec_version := rec_version r + 1\<rparr>"
    using traded by simp
  ultimately show ?thesis using traded by metis
qed

section \<open>Appending a lifecycle event\<close>

lemma append_event_spec:
  assumes "log_ok d" and "append_event i ty ts pl v d = Inr d'"
  obtains e where "d' = d\<lparr>db_events := db_events d @ [e]\<rparr>" "log_ok d'"
    "session_events d' = (session_events d)(i := session_events d i @ [e])"
    "e_event_type e = ty" "e_payload_json e = JObj pl" "in_i64 ts" "in_u64 v"
    "e_session_id e = i" "e_logical_ts_ns e = ts"
    "e_current_event_hash e = event_hash i (e_event_seq e) ts ty (e_causation_id e) (JObj pl) (e_prior_event_hash e)"
proof -
  let ?n = "int (length (raw_events d i))" and ?h = "ev.head (raw_events d i)"
  let ?c = "lifecycle_causation_id i v"
  let ?e = "\<lparr>e_session_id = i, e_event_seq = ?n, e_logical_ts_ns = ts, e_event_type = ty,
      e_causation_id = ?c, e_correlation_id = i, e_payload_json = JObj pl, e_prior_event_hash = ?h,
      e_current_event_hash = event_hash i ?n ts ty ?c (JObj pl) ?h\<rparr>"
  from assms(2) have v: "in_i64 ts" "in_u64 v" and ins: "insert_event ?e d = Inr d'"
    unfolding append_event_def Let_def log_ok_last [OF assms(1)]
    by (auto simp: validate_i64_def validate_version_def)
  from ins have d': "d' = d\<lparr>db_events := db_events d @ [?e]\<rparr>" and s: "session_by_id d i \<noteq> None"
    by (simp_all add: insert_event_spec)
  have raw: "raw_events d' j = raw_events d j @ (if j = i then [?e] else [])" for j by (simp add: d')
  have ok: "log_ok d'"
    using assms(1) s raw by (simp add: log_ok_def d' ev.chained_snoc keys_ok_def)
  moreover have "session_events d' = (session_events d)(i := session_events d i @ [?e])"
    using raw by (simp add: fun_eq_iff log_ok_events [OF assms(1)] log_ok_events [OF ok])
  ultimately show ?thesis using that [OF d'] v by simp
qed

lemma replay_log_snoc:
  "session_events d' i = session_events d i @ [e] \<Longrightarrow>
   replay_log d' i = bindR (replay_log d i) (\<lambda>s. replay_event s e)"
  by (simp add: replay_log_def foldR_append)

text \<open>The common shape of commit, start, pause, advance and complete: one event, one row.\<close>

lemma transition:
  assumes "log_ok d" and "append_event i ty ts pl v d = Inr d1"
    and "update_sessions (\<lambda>r. s_session_id r = i \<and> P r) f d1 = Inr (1, d2)"
    and "\<And>r. s_session_id (f r) = s_session_id r" and "\<And>r. s_principal_id (f r) = s_principal_id r"
    and "materialize d2 i p = Inr rec"
  obtains row e where "session_by_id d i = Some row" "P row" "log_ok d2"
    "session_by_id d2 = (session_by_id d)(i \<mapsto> f row)"
    "session_state d2 = (session_state d)(i \<mapsto> rec)"
    "materialize_from_row d2 (f row) p = Inr rec" "s_principal_id row = p"
    "replay_log d2 i = bindR (replay_log d i) (\<lambda>s. replay_event s e)"
    "e_event_type e = ty" "e_payload_json e = JObj pl" "in_i64 ts"
proof -
  from append_event_spec [OF assms(1,2)] obtain e where
    d1: "d1 = d\<lparr>db_events := db_events d @ [e]\<rparr>" "log_ok d1"
      "session_events d1 = (session_events d)(i := session_events d i @ [e])"
    and e: "e_event_type e = ty" "e_payload_json e = JObj pl" "in_i64 ts" .
  have keys: "keys_ok d1" using d1(2) by (simp add: log_ok_def)
  note u = update_sessions_one [OF keys assms(4,3)]
  have byid: "session_by_id d1 = session_by_id d" by (simp add: d1(1))
  from u obtain row where row: "session_by_id d i = Some row" "P row"
    by (auto simp: byid split: option.splits if_splits)
  have d2: "d2 = d1\<lparr>db_sessions := db_sessions d2\<rparr>" using u by blast
  have by2: "session_by_id d2 = (session_by_id d)(i \<mapsto> f row)"
    using u row by (auto simp: byid fun_eq_iff split: option.splits)
  have ev2: "session_events d2 = session_events d1" by (subst d2) simp
  have rlog: "replay_log d2 i = bindR (replay_log d i) (\<lambda>s. replay_event s e)"
    by (rule replay_log_snoc) (simp add: ev2 d1(3))
  have raw2: "raw_events d2 = raw_events d1" "db_events d2 = db_events d1" by (subst d2, simp)+
  have ok2: "log_ok d2"
    using d1(2) u by2 by (auto simp: log_ok_def raw2 byid)
  have st: "session_state d2 = (session_state d)(i \<mapsto> rec)"
  proof
    fix j
    show "session_state d2 j = ((session_state d)(i \<mapsto> rec)) j"
      using assms(6) session_state_cong [of d2 j d] by (auto simp: materialize_iff by2 ev2 d1(3))
  qed
  have mat: "materialize_from_row d2 (f row) p = Inr rec"
    using assms(6) by (simp add: materialize_def by2)
  then have "s_principal_id row = p" using materialize_principal assms(5) by metis
  with row ok2 by2 st mat rlog e show ?thesis using that by blast
qed

text \<open>An event that is no setup or advance leaves the replayed state alone.\<close>

lemma replay_event_other:
  "e_event_type e \<notin> {''SESSION_COMMITTED'', ''SESSION_FORKED'', ''SESSION_ADVANCED''} \<Longrightarrow>
   e_payload_json e = JObj pl \<Longrightarrow> replay_event s e = Inr s"
  by (cases s) simp

lemma next_version_iff: "next_version v = Inr w \<longleftrightarrow> in_u64 v \<and> v + 1 \<le> U64_MAX \<and> w = v + 1"
  by (auto simp: next_version_def validate_lifecycle_version_def validate_version_def in_u64_def U64_MAX_def)

lemma locked_row_iff:
  "locked_row d i p = Inr row \<longleftrightarrow> session_by_id d i = Some row \<and> s_principal_id row = p"
  by (auto simp: locked_row_def split: option.splits)

lemma require_version_iff: "require_version v w = Inr u \<longleftrightarrow> in_u64 w \<and> v = w"
  by (auto simp: require_version_def validate_version_def)

lemma advance_version_spec:
  "advance_version i v w st d = Inr d' \<longleftrightarrow>
     update_sessions (\<lambda>r. s_session_id r = i \<and> s_version r = v)
       (\<lambda>r. r\<lparr>s_status := SessionStatus_value st, s_version := w\<rparr>) d = Inr (1, d')"
  by (auto simp: advance_version_def)

lemmas guard_simps = next_version_iff locked_row_iff require_version_iff require_status_def

section \<open>Every operation refines a lifecycle step\<close>

definition refines_step :: "db \<Rightarrow> db \<Rightarrow> bool" where
  "refines_step d d' \<longleftrightarrow> lifecycle_step (session_state d) (session_state d') \<and> log_ok d' \<and>
     dom (session_by_id d') = dom (session_state d')"

lemma session_state_exists: "session_state d i = Some r \<Longrightarrow> session_by_id d i \<noteq> None"
  by (auto simp: session_state_def split: option.splits)

lemma sessions_inv_dom: "sessions_inv d \<Longrightarrow> dom (session_by_id d) = dom (session_state d)"
  using session_state_exists unfolding sessions_inv_def by blast

lemma sessions_inv_ok: "sessions_inv d \<Longrightarrow> session_state d i = Some r \<Longrightarrow> record_ok r"
  using session_state_exists unfolding sessions_inv_def by (metis option.inject)

lemma sessions_inv_log: "sessions_inv d \<Longrightarrow> log_ok d"
  by (simp add: sessions_inv_def)

lemma refines_inv:
  assumes "sessions_inv d" and "refines_step d d'"
  shows "sessions_inv d'"
proof -
  from assms(2) have step: "lifecycle_step (session_state d) (session_state d')" and ok: "log_ok d'"
    and dom: "dom (session_by_id d') = dom (session_state d')" by (auto simp: refines_step_def)
  obtain k q where kq: "session_state d' = (session_state d)(k \<mapsto> q)" "record_ok q"
    using lifecycle_step_ok [OF step] sessions_inv_ok [OF assms(1)] by metis
  have "\<exists>r. session_state d' i = Some r \<and> record_ok r" if "session_by_id d' i \<noteq> None" for i
  proof -
    from that dom obtain r where r: "session_state d' i = Some r" by blast
    with kq sessions_inv_ok [OF assms(1), of i r] show ?thesis by (cases "i = k") auto
  qed
  with ok show ?thesis by (simp add: sessions_inv_def)
qed

lemma materialize_again:
  assumes "materialize_from_row d row p = Inr cur" and "materialize_from_row d2 row2 p = Inr rec"
    and "s_session_id row2 = s_session_id row" and "s_created_at_ns row2 = s_created_at_ns row"
    and "replay_log d2 (s_session_id row) = Inr (S, t, q)" and "s_status row2 = SessionStatus_value st"
  shows "rec = cur\<lparr>rec_status := st, rec_version := s_version row2, rec_setup := S,
      rec_logical_time_ns := t, rec_parent_session_id := q\<rparr>"
  using assms by (auto simp: materialize_from_row_iff)

lemma materialize_replay:
  "materialize_from_row d row p = Inr cur \<Longrightarrow>
   replay_log d (s_session_id row) = Inr (rec_setup cur, rec_logical_time_ns cur, rec_parent_session_id cur) \<and>
   rec_version cur = s_version row \<and> s_status row = SessionStatus_value (rec_status cur)"
  by (auto simp: materialize_from_row_iff)

text \<open>One event and one row update, seen from outside.\<close>

lemma transition_step:
  assumes inv: "sessions_inv d" and row: "session_by_id d i = Some row"
    and cur: "materialize_from_row d row p = Inr cur" and v: "s_version row = v"
    and app: "append_event i ty ts pl (v + 1) d = Inr d1"
    and upd: "advance_version i v (v + 1) st d1 = Inr d2" and mat: "materialize d2 i p = Inr rec"
    and rep: "\<And>e s. e_event_type e = ty \<Longrightarrow> e_payload_json e = JObj pl \<Longrightarrow>
       replay_event (rec_setup cur, rec_logical_time_ns cur, rec_parent_session_id cur) e = Inr s \<Longrightarrow> s = (S, t, q)"
  shows "session_state d i = Some cur \<and> session_state d2 = (session_state d)(i \<mapsto> rec) \<and>
    rec = cur\<lparr>rec_status := st, rec_version := rec_version cur + 1, rec_setup := S,
      rec_logical_time_ns := t, rec_parent_session_id := q\<rparr> \<and> log_ok d2 \<and>
    dom (session_by_id d2) = dom (session_state d2)"
proof -
  let ?f = "\<lambda>r. r\<lparr>s_status := SessionStatus_value st, s_version := v + 1\<rparr>"
  note upd' = upd [unfolded advance_version_spec]
  obtain row' e where
    r: "session_by_id d i = Some row'" "log_ok d2" "session_by_id d2 = (session_by_id d)(i \<mapsto> ?f row')"
      "session_state d2 = (session_state d)(i \<mapsto> rec)" "materialize_from_row d2 (?f row') p = Inr rec"
      "replay_log d2 i = bindR (replay_log d i) (\<lambda>s. replay_event s e)"
    and e: "e_event_type e = ty" "e_payload_json e = JObj pl"
    by (rule transition [OF sessions_inv_log [OF inv] app upd' _ _ mat]) simp_all
  have [simp]: "row' = row" using r(1) row by simp
  have key: "s_session_id row = i" by (rule session_by_id_key [OF row])
  note c = materialize_replay [OF cur, unfolded key]
  have "replay_log d2 i = replay_event (rec_setup cur, rec_logical_time_ns cur, rec_parent_session_id cur) e"
    using r(6) c by simp
  moreover obtain s where "replay_log d2 i = Inr s"
    using r(5) key by (auto simp: materialize_from_row_iff)
  ultimately have "replay_log d2 i = Inr (S, t, q)" using rep [OF e] by metis
  then have "rec = cur\<lparr>rec_status := st, rec_version := s_version (?f row'), rec_setup := S,
      rec_logical_time_ns := t, rec_parent_session_id := q\<rparr>"
    by (intro materialize_again [OF cur r(5)]) (simp_all add: key)
  moreover have "rec_version cur = v" using c v by simp
  moreover have "dom (session_by_id d2) = dom (session_state d2)"
    using sessions_inv_dom [OF inv] by (simp add: r(3,4))
  ultimately show ?thesis using r(2,4) row_materialize [OF row cur] by simp
qed

lemma status_transition_spec:
  assumes inv: "sessions_inv d" and op: "status_transition i p v allowed st ty d = Inr (rec, d')"
    and ty: "ty \<notin> {''SESSION_COMMITTED'', ''SESSION_FORKED'', ''SESSION_ADVANCED''}"
  obtains r where "session_state d i = Some r" "rec_status r \<in> allowed" "rec_version r = v"
    "v + 1 \<le> U64_MAX" "rec_principal_id r = p"
    "rec = r\<lparr>rec_status := st, rec_version := rec_version r + 1\<rparr>"
    "session_state d' = (session_state d)(i \<mapsto> rec)" "log_ok d'"
    "dom (session_by_id d') = dom (session_state d')"
proof -
  from op obtain row cur t d1 where row: "session_by_id d i = Some row" "s_version row = v" "v + 1 \<le> U64_MAX"
    and cur: "materialize_from_row d row p = Inr cur" "rec_status cur \<in> allowed"
    and app: "append_event i ty t [] (v + 1) d = Inr d1"
    and upd: "advance_version i v (v + 1) st d1 = Inr d'" and mat: "materialize d' i p = Inr rec"
    by (auto simp: status_transition_def guard_simps case_option_Inr)
  have rep: "s = (rec_setup cur, rec_logical_time_ns cur, rec_parent_session_id cur)"
    if "e_event_type e = ty" "e_payload_json e = JObj []"
      "replay_event (rec_setup cur, rec_logical_time_ns cur, rec_parent_session_id cur) e = Inr s" for e s
    using that ty replay_event_other [of e "[]"] by auto
  note s = transition_step [OF inv row(1) cur(1) row(2) app upd mat rep]
  moreover have "rec_version cur = v" "rec_principal_id cur = p"
    using materialize_replay [OF cur(1)] materialize_principal [OF cur(1)] row(2) by simp_all
  ultimately show ?thesis using that [of cur] cur(2) row(3) by simp
qed

lemma start_refines:
  assumes "sessions_inv d" and "start i p v d = Inr (rec, d')"
  shows "refines_step d d'"
  using assms(1) assms(2) [unfolded start_def]
proof (rule status_transition_spec)
  fix r assume r: "session_state d i = Some r" "rec_status r \<in> {COMMITTED, PAUSED}" "rec_version r = v"
    "v + 1 \<le> U64_MAX" "rec = r\<lparr>rec_status := RUNNING, rec_version := rec_version r + 1\<rparr>"
    "session_state d' = (session_state d)(i \<mapsto> rec)" "log_ok d'" "dom (session_by_id d') = dom (session_state d')"
  from lifecycle_step.switched [of "session_state d" i r RUNNING] r show "refines_step d d'"
    by (simp add: refines_step_def)
qed simp

lemma pause_refines:
  assumes "sessions_inv d" and "pause i p v d = Inr (rec, d')"
  shows "refines_step d d'"
  using assms(1) assms(2) [unfolded pause_def]
proof (rule status_transition_spec)
  fix r assume r: "session_state d i = Some r" "rec_status r \<in> {RUNNING}" "rec_version r = v"
    "v + 1 \<le> U64_MAX" "rec = r\<lparr>rec_status := PAUSED, rec_version := rec_version r + 1\<rparr>"
    "session_state d' = (session_state d)(i \<mapsto> rec)" "log_ok d'" "dom (session_by_id d') = dom (session_state d')"
  from lifecycle_step.switched [of "session_state d" i r PAUSED] r show "refines_step d d'"
    by (simp add: refines_step_def)
qed simp

lemma advance_spec:
  assumes inv: "sessions_inv d" and op: "advance i p v u d = Inr (rec, d')"
  obtains r s t where "session_state d i = Some r" "rec_status r = RUNNING" "rec_version r = v"
    "v + 1 \<le> U64_MAX" "rec_principal_id r = p" "rec_setup r = Some s" "rec_logical_time_ns r = Some t"
    "t < u" "u \<le> play_end_ns s" "in_i64 u"
    "rec = r\<lparr>rec_version := rec_version r + 1, rec_logical_time_ns := Some u\<rparr>"
    "session_state d' = (session_state d)(i \<mapsto> rec)" "log_ok d'"
    "dom (session_by_id d') = dom (session_state d')"
proof -
  let ?pl = "[(''logical_time_ns'', JStr (str_int u))]"
  from op obtain row cur s t d1 where row: "session_by_id d i = Some row" "s_version row = v" "v + 1 \<le> U64_MAX"
    and cur: "materialize_from_row d row p = Inr cur" "rec_status cur = RUNNING"
      "rec_setup cur = Some s" "rec_logical_time_ns cur = Some t" and u: "t < u" "u \<le> play_end_ns s" "in_i64 u"
    and app: "append_event i ''SESSION_ADVANCED'' u ?pl (v + 1) d = Inr d1"
    and upd: "advance_version i v (v + 1) RUNNING d1 = Inr d'" and mat: "materialize d' i p = Inr rec"
    by (auto simp: advance_def guard_simps validate_lifecycle_i64_def validate_i64_def case_option_Inr)
  have rep: "x = (rec_setup cur, Some u, rec_parent_session_id cur)"
    if "e_event_type e = ''SESSION_ADVANCED''" "e_payload_json e = JObj ?pl"
      "replay_event (rec_setup cur, rec_logical_time_ns cur, rec_parent_session_id cur) e = Inr x" for e x
    using that decimal_field_JStr [of ?pl _ u] u(3) by auto
  note s = transition_step [OF inv row(1) cur(1) row(2) app upd mat rep]
  moreover have "rec_version cur = v" "rec_principal_id cur = p"
    using materialize_replay [OF cur(1)] materialize_principal [OF cur(1)] row(2) by simp_all
  ultimately show ?thesis using that [of cur s t] cur row(3) u by simp
qed

lemma advance_refines:
  assumes "sessions_inv d" and "advance i p v u d = Inr (rec, d')"
  shows "refines_step d d'"
  using assms
proof (rule advance_spec)
  fix r s t assume r: "session_state d i = Some r" "rec_status r = RUNNING" "rec_version r = v"
    "v + 1 \<le> U64_MAX" "rec_setup r = Some s" "rec_logical_time_ns r = Some t" "t < u" "u \<le> play_end_ns s" "in_i64 u"
    "rec = r\<lparr>rec_version := rec_version r + 1, rec_logical_time_ns := Some u\<rparr>"
    "session_state d' = (session_state d)(i \<mapsto> rec)" "log_ok d'" "dom (session_by_id d') = dom (session_state d')"
  from lifecycle_step.advanced [of "session_state d" i r s t u] r show "refines_step d d'" by (simp add: refines_step_def)
qed

lemma complete_spec:
  assumes inv: "sessions_inv d" and op: "complete i p v d = Inr (rec, d')"
  obtains r s where "session_state d i = Some r" "rec_status r \<in> {RUNNING, PAUSED}" "rec_version r = v"
    "v + 1 \<le> U64_MAX" "rec_principal_id r = p" "rec_setup r = Some s"
    "rec_logical_time_ns r = Some (play_end_ns s)"
    "rec = r\<lparr>rec_status := COMPLETED, rec_version := rec_version r + 1\<rparr>"
    "session_state d' = (session_state d)(i \<mapsto> rec)" "log_ok d'"
    "dom (session_by_id d') = dom (session_state d')"
proof -
  from op obtain row cur s d1 where row: "session_by_id d i = Some row" "s_version row = v" "v + 1 \<le> U64_MAX"
    and cur: "materialize_from_row d row p = Inr cur" "rec_status cur \<in> {RUNNING, PAUSED}"
      "rec_setup cur = Some s" "rec_logical_time_ns cur = Some (play_end_ns s)"
    and app: "append_event i ''SESSION_COMPLETED'' (play_end_ns s) [] (v + 1) d = Inr d1"
    and upd: "advance_version i v (v + 1) COMPLETED d1 = Inr d'" and mat: "materialize d' i p = Inr rec"
    by (auto simp: complete_def guard_simps case_option_Inr)
  have rep: "x = (rec_setup cur, rec_logical_time_ns cur, rec_parent_session_id cur)"
    if "e_event_type e = ''SESSION_COMPLETED''" "e_payload_json e = JObj []"
      "replay_event (rec_setup cur, rec_logical_time_ns cur, rec_parent_session_id cur) e = Inr x" for e x
    using that replay_event_other [of e "[]"] by auto
  have "session_state d i = Some cur \<and> session_state d' = (session_state d)(i \<mapsto> rec) \<and>
    rec = cur\<lparr>rec_status := COMPLETED, rec_version := rec_version cur + 1, rec_setup := rec_setup cur,
      rec_logical_time_ns := rec_logical_time_ns cur, rec_parent_session_id := rec_parent_session_id cur\<rparr> \<and>
    log_ok d' \<and> dom (session_by_id d') = dom (session_state d')"
    by (rule transition_step [OF inv row(1) cur(1) row(2) app upd mat]) (rule rep)
  moreover have "rec_version cur = v" "rec_principal_id cur = p"
    using materialize_replay [OF cur(1)] materialize_principal [OF cur(1)] row(2) by simp_all
  ultimately show ?thesis using that [of cur s] cur row(3) by simp
qed

lemma complete_refines:
  assumes "sessions_inv d" and "complete i p v d = Inr (rec, d')"
  shows "refines_step d d'"
  using assms
proof (rule complete_spec)
  fix r s assume r: "session_state d i = Some r" "rec_status r \<in> {RUNNING, PAUSED}" "rec_version r = v"
    "v + 1 \<le> U64_MAX" "rec_setup r = Some s" "rec_logical_time_ns r = Some (play_end_ns s)"
    "rec = r\<lparr>rec_status := COMPLETED, rec_version := rec_version r + 1\<rparr>"
    "session_state d' = (session_state d)(i \<mapsto> rec)" "log_ok d'" "dom (session_by_id d') = dom (session_state d')"
  from lifecycle_step.completed [of "session_state d" i r s] r show "refines_step d d'" by (simp add: refines_step_def)
qed

lemma to_payload_of_payload:
  assumes "from_payload (to_payload s) = Inr s'"
  shows "setup_ok s \<and> s' = s"
proof -
  note get = to_payload_get [of _ _ s]
  have str: "v \<noteq> []" if "string_field (to_payload s) k = Inr w" "(k, JStr v) \<in> set (to_payload s)" for k v w
    using that get by (auto simp: string_field_def split: if_splits)
  have sha: "is_sha256_hex v" if "sha_field (to_payload s) k = Inr w" "(k, JStr v) \<in> set (to_payload s)" for k v w
    using that get by (auto simp: sha_field_def string_field_def validate_sha256_def split: if_splits)
  have num: "in_i64 n \<and> m = n" if "decimal_i64_field (to_payload s) k = Inr m"
      "(k, JStr (str_int n)) \<in> set (to_payload s)" for k m n
    using that get by (auto simp: decimal_i64_field_def string_field_def setup_decimal.parse_iff in_i64_def split: if_splits)
  let ?p = "to_payload s"
  from assms obtain a b c e f g h i j where
    dec: "string_field ?p ''instrument_id'' = Inr a" "sha_field ?p ''manifest_hash'' = Inr b"
      "sha_field ?p ''eligibility_hash'' = Inr c" "decimal_i64_field ?p ''play_start_ns'' = Inr e"
      "decimal_i64_field ?p ''warmup_ns'' = Inr f" "0 \<le> f" "decimal_i64_field ?p ''duration_ns'' = Inr g" "0 < g"
      "string_field ?p ''ruleset_id'' = Inr h" "string_field ?p ''ruleset_version'' = Inr i"
      "sha_field ?p ''ruleset_hash'' = Inr j"
    unfolding from_payload_def nonnegative_decimal_field_def positive_decimal_field_def by auto
  have mem: "(''instrument_id'', JStr (cs_instrument_id s)) \<in> set ?p"
    "(''manifest_hash'', JStr (cs_manifest_hash s)) \<in> set ?p"
    "(''eligibility_hash'', JStr (cs_eligibility_hash s)) \<in> set ?p"
    "(''play_start_ns'', JStr (str_int (cs_play_start_ns s))) \<in> set ?p"
    "(''warmup_ns'', JStr (str_int (cs_warmup_ns s))) \<in> set ?p"
    "(''duration_ns'', JStr (str_int (cs_duration_ns s))) \<in> set ?p"
    "(''ruleset_id'', JStr (cs_ruleset_id s)) \<in> set ?p"
    "(''ruleset_version'', JStr (cs_ruleset_version s)) \<in> set ?p"
    "(''ruleset_hash'', JStr (cs_ruleset_hash s)) \<in> set ?p"
    by (simp_all add: to_payload_def)
  have "setup_ok s"
    unfolding setup_ok_def
    using str [OF dec(1) mem(1)] sha [OF dec(2) mem(2)] sha [OF dec(3) mem(3)] num [OF dec(4) mem(4)]
      num [OF dec(5) mem(5)] dec(6) num [OF dec(7) mem(6)] dec(8) str [OF dec(9) mem(7)]
      str [OF dec(10) mem(8)] sha [OF dec(11) mem(9)] by simp
  with assms show ?thesis using from_payload_fields [OF _ to_payload_get, of s] by simp
qed

lemma no_session_no_events:
  "log_ok d \<Longrightarrow> session_by_id d i = None \<Longrightarrow> session_events d i = []"
  by (auto simp: log_ok_events raw_events_def filter_empty_conv log_ok_def)

text \<open>A new row with its first materialisation.\<close>

lemma new_session_state:
  assumes "sessions_inv d" and "session_by_id d' = (session_by_id d)(i \<mapsto> row)"
    and "\<And>j. j \<noteq> i \<Longrightarrow> session_events d' j = session_events d j" and "materialize d' i p = Inr rec"
  shows "session_state d' = (session_state d)(i \<mapsto> rec) \<and> dom (session_by_id d') = dom (session_state d')"
proof -
  have "session_state d' j = session_state d j" if "j \<noteq> i" for j
    by (rule session_state_cong) (use assms(2,3) that in simp_all)
  moreover have "session_state d' i = Some rec" using assms(4) by (simp add: materialize_iff)
  ultimately have "session_state d' = (session_state d)(i \<mapsto> rec)" by (auto simp: fun_eq_iff)
  with sessions_inv_dom [OF assms(1)] show ?thesis by (simp add: assms(2))
qed

lemma create_session_spec:
  assumes inv: "sessions_inv d" and op: "create_session i p ts d = Inr (rec, d')"
  shows "session_state d i = None \<and> in_i64 ts \<and>
    rec = \<lparr>rec_session_id = i, rec_principal_id = p, rec_status = SETUP, rec_version = 0,
      rec_created_at_ns = ts, rec_setup = None, rec_logical_time_ns = None, rec_parent_session_id = None\<rparr> \<and>
    session_state d' = (session_state d)(i \<mapsto> rec) \<and> log_ok d' \<and>
    dom (session_by_id d') = dom (session_state d')"
proof -
  let ?row = "\<lparr>s_session_id = i, s_principal_id = p, s_status = SessionStatus_value SETUP, s_version = 0,
      s_ruleset_id = None, s_commitment_hash = None, s_created_at_ns = ts\<rparr>"
  from op have ts: "in_i64 ts" and ins: "insert_session ?row d = Inr d'" and mat: "materialize d' i p = Inr rec"
    by (auto simp: create_session_def validate_lifecycle_i64_def validate_i64_def simp del: insert_session_spec)
  from ins have none: "session_by_id d i = None" and d': "d' = d\<lparr>db_sessions := db_sessions d @ [?row]\<rparr>"
    by simp_all
  have byid: "session_by_id d' = (session_by_id d)(i \<mapsto> ?row)"
    using none by (auto simp: d' fun_eq_iff split: option.splits)
  have evs: "session_events d' = session_events d" by (simp add: d')
  have "replay_log d' i = Inr (None, None, None)"
    using no_session_no_events [OF sessions_inv_log [OF inv] none] by (simp add: replay_log_def evs)
  moreover have "materialize_from_row d' ?row p = Inr rec" using mat by (simp add: materialize_def byid)
  ultimately have "rec = \<lparr>rec_session_id = i, rec_principal_id = p, rec_status = SETUP, rec_version = 0,
      rec_created_at_ns = ts, rec_setup = None, rec_logical_time_ns = None, rec_parent_session_id = None\<rparr>"
    by (simp add: materialize_from_row_iff flip: SessionStatus_value.simps)
  moreover have "session_state d i = None" using none by (simp add: session_state_def)
  ultimately show ?thesis
    using new_session_state [OF inv byid _ mat] evs ts insert_session_log [OF sessions_inv_log [OF inv] ins] by simp
qed

lemma create_session_refines:
  assumes "sessions_inv d" and "create_session i p ts d = Inr (rec, d')"
  shows "refines_step d d'"
  using create_session_spec [OF assms] lifecycle_step.created [of ts "session_state d" i p]
  by (simp add: refines_step_def)

lemma persist_ruleset_frame:
  assumes "log_ok d" and "persist_ruleset setup d = Inr d'"
  shows "log_ok d' \<and> session_by_id d' = session_by_id d \<and> session_events d' = session_events d \<and>
    (\<exists>row. ruleset_by_id d' (rd_ruleset_id (sr_ruleset setup)) = Some row \<and>
       r_ruleset_hash row = rd_ruleset_hash (sr_ruleset setup) \<and> r_ruleset_version row = rd_version (sr_ruleset setup))"
proof (cases "ruleset_by_id d (rd_ruleset_id (sr_ruleset setup))")
  case None
  with assms(2) obtain row where d': "d' = d\<lparr>db_rulesets := db_rulesets d @ [row]\<rparr>"
    and row: "r_ruleset_id row = rd_ruleset_id (sr_ruleset setup)"
      "r_ruleset_hash row = rd_ruleset_hash (sr_ruleset setup)" "r_ruleset_version row = rd_version (sr_ruleset setup)"
    by (auto simp: persist_ruleset_def Let_def)
  have "ruleset_by_id d' (rd_ruleset_id (sr_ruleset setup)) = Some row"
    using None row(1) by (simp add: d' ruleset_by_id_def find_append)
  moreover have "r_ruleset_id row \<notin> r_ruleset_id ` set (db_rulesets d)"
    using None row(1) by (simp add: ruleset_by_id_def find_None_distinct)
  ultimately show ?thesis
    using assms(1) row by (auto simp: log_ok_def keys_ok_def d')
next
  case (Some row)
  with assms(2) have "d' = d" "r_ruleset_hash row = rd_ruleset_hash (sr_ruleset setup)"
    "r_ruleset_version row = rd_version (sr_ruleset setup)"
    by (auto simp: persist_ruleset_def Let_def split: if_splits)
  with assms(1) Some show ?thesis by simp
qed

lemma commit_spec:
  assumes inv: "sessions_inv d" and op: "commit cat i p v setup d = Inr (rec, d')"
  obtains r where "session_state d i = Some r" "rec_status r = SETUP" "rec_setup r = None"
    "rec_logical_time_ns r = None" "rec_version r = v"
    "v + 1 \<le> U64_MAX" "rec_principal_id r = p" "setup_ok (committed_setup cat setup)"
    "rec = r\<lparr>rec_status := COMMITTED, rec_version := rec_version r + 1,
       rec_setup := Some (committed_setup cat setup), rec_logical_time_ns := Some (sr_play_start_ns setup)\<rparr>"
    "session_state d' = (session_state d)(i \<mapsto> rec)" "log_ok d'"
    "dom (session_by_id d') = dom (session_state d')" "commit_checks cat setup = Inr ()"
proof -
  let ?cs = "committed_setup cat setup"
  let ?f = "\<lambda>r. r\<lparr>s_status := SessionStatus_value COMMITTED, s_version := v + 1,
               s_ruleset_id := Some (rd_ruleset_id (sr_ruleset setup))\<rparr>"
  from op obtain row d1 d2 where row: "session_by_id d i = Some row" "s_principal_id row = p" "s_version row = v"
    and v: "v + 1 \<le> U64_MAX" and st: "s_status row = SessionStatus_value SETUP"
    and per: "persist_ruleset setup d = Inr d1"
    and app: "append_event i ''SESSION_COMMITTED'' (sr_play_start_ns setup) (to_payload ?cs) (v + 1) d1 = Inr d2"
    and upd: "update_sessions (\<lambda>r. s_session_id r = i \<and> s_version r = v \<and> s_status r = SessionStatus_value SETUP)
        ?f d2 = Inr (1, d')" and mat: "materialize d' i p = Inr rec" and chk: "commit_checks cat setup = Inr ()"
    by (auto simp: commit_def guard_simps SessionStatus_of_iff)
  have log1: "log_ok d1" and by1: "session_by_id d1 = session_by_id d" and ev1: "session_events d1 = session_events d"
    using persist_ruleset_frame [OF sessions_inv_log [OF inv] per] by auto
  have st1: "session_state d1 = session_state d"
    by (rule ext, rule session_state_cong) (simp_all add: by1 ev1)
  obtain row' e where r: "session_by_id d1 i = Some row'" "log_ok d'"
      "session_by_id d' = (session_by_id d1)(i \<mapsto> ?f row')"
      "session_state d' = (session_state d1)(i \<mapsto> rec)" "materialize_from_row d' (?f row') p = Inr rec"
      "replay_log d' i = bindR (replay_log d1 i) (\<lambda>s. replay_event s e)"
    and e: "e_event_type e = ''SESSION_COMMITTED''" "e_payload_json e = JObj (to_payload ?cs)"
    by (rule transition [OF log1 app upd _ _ mat]) simp_all
  have [simp]: "row' = row" using r(1) row by1 by simp
  have key: "s_session_id row = i" by (rule session_by_id_key [OF row(1)])
  from inv row(1) obtain cur where cur: "session_state d i = Some cur" by (auto simp: sessions_inv_def)
  then have cur': "materialize_from_row d row p = Inr cur"
    using row by (auto simp: session_state_def split: sum.splits)
  note c = materialize_replay [OF cur', unfolded key]
  have "replay_log d' i = replay_event (rec_setup cur, rec_logical_time_ns cur, rec_parent_session_id cur) e"
    using r(6) c by (simp add: replay_log_def ev1)
  moreover obtain S where "replay_log d' i = Inr S" using r(5) key by (auto simp: materialize_from_row_iff)
  ultimately have S: "replay_event (rec_setup cur, rec_logical_time_ns cur, rec_parent_session_id cur) e = Inr S"
      "replay_log d' i = Inr S" by simp_all
  have new: "rec_setup cur = None" "setup_ok ?cs"
      "replay_log d' i = Inr (Some ?cs, Some (cs_play_start_ns ?cs), rec_parent_session_id cur)"
    using S(1) e to_payload_of_payload [of ?cs] unfolding S(2) by auto
  have "rec = cur\<lparr>rec_status := COMMITTED, rec_version := s_version (?f row'), rec_setup := Some ?cs,
      rec_logical_time_ns := Some (cs_play_start_ns ?cs), rec_parent_session_id := rec_parent_session_id cur\<rparr>"
    by (rule materialize_again [OF cur' r(5)]) (simp_all add: key new(3))
  moreover have "rec_version cur = v" "rec_principal_id cur = p"
    using c row(3) materialize_principal [OF cur'] by simp_all
  moreover have "rec_status cur = SETUP" using c st SessionStatus_value_inject by metis
  moreover have "dom (session_by_id d') = dom (session_state d')"
    using sessions_inv_dom [OF inv] by (simp add: r(3,4) st1 by1)
  moreover have "rec_logical_time_ns cur = None"
    using sessions_inv_ok [OF inv cur] new(1) by (simp add: record_ok_def)
  ultimately show ?thesis
    using that [OF cur] new(1,2) v r(2,4) st1 chk by (simp add: committed_setup_def)
qed

lemma commit_refines:
  assumes "sessions_inv d" and "commit cat i p v setup d = Inr (rec, d')"
  shows "refines_step d d'"
  using assms
proof (rule commit_spec)
  fix r assume r: "session_state d i = Some r" "rec_status r = SETUP" "rec_setup r = None"
    "rec_logical_time_ns r = None" "rec_version r = v"
    "v + 1 \<le> U64_MAX" "setup_ok (committed_setup cat setup)"
    "rec = r\<lparr>rec_status := COMMITTED, rec_version := rec_version r + 1,
       rec_setup := Some (committed_setup cat setup), rec_logical_time_ns := Some (sr_play_start_ns setup)\<rparr>"
    "session_state d' = (session_state d)(i \<mapsto> rec)" "log_ok d'" "dom (session_by_id d') = dom (session_state d')"
  from lifecycle_step.committed [of "session_state d" i r "committed_setup cat setup"] r show "refines_step d d'"
    by (simp add: refines_step_def committed_setup_def)
qed

lemma fork_payload_get:
  "(k, v) \<in> set (to_payload s) \<Longrightarrow> jget (fork_payload s t i n) k = v"
  "jget (fork_payload s t i n) ''parent_session_id'' = JStr i"
  "jget (fork_payload s t i n) ''fork_logical_time_ns'' = JStr (str_int t)"
proof -
  assume mem: "(k, v) \<in> set (to_payload s)"
  then have "k \<notin> {''parent_version'', ''parent_session_id'', ''fork_logical_time_ns''}"
    by (auto simp: to_payload_def)
  with to_payload_get [OF mem] show "jget (fork_payload s t i n) k = v" by (simp add: fork_payload_def)
qed (simp_all add: fork_payload_def)

lemma fork_spec:
  assumes inv: "sessions_inv d" and op: "fork i p v c ts d = Inr (rec, d')"
  obtains r s t where "session_state d i = Some r" "rec_status r \<in> {COMMITTED, RUNNING, PAUSED}"
    "rec_version r = v" "rec_principal_id r = p" "rec_setup r = Some s" "rec_logical_time_ns r = Some t"
    "session_state d c = None" "c \<noteq> i" "in_i64 ts"
    "rec = \<lparr>rec_session_id = c, rec_principal_id = p,
      rec_status = (if t = cs_play_start_ns s then COMMITTED else PAUSED), rec_version = 1,
      rec_created_at_ns = ts, rec_setup = Some s, rec_logical_time_ns = Some t, rec_parent_session_id = Some i\<rparr>"
    "session_state d' = (session_state d)(c \<mapsto> rec)" "log_ok d'"
    "dom (session_by_id d') = dom (session_state d')"
proof -
  let ?st = "\<lambda>s t. if t = cs_play_start_ns s then COMMITTED else PAUSED"
  let ?row = "\<lambda>s t. \<lparr>s_session_id = c, s_principal_id = p, s_status = SessionStatus_value (?st s t), s_version = 1,
      s_ruleset_id = Some (cs_ruleset_id s), s_commitment_hash = None, s_created_at_ns = ts\<rparr>"
  from op obtain row cur s t d1 where ts: "in_i64 ts" and c: "c \<noteq> i"
    and row: "session_by_id d i = Some row" "s_version row = v"
    and cur: "materialize_from_row d row p = Inr cur" "rec_status cur \<in> {COMMITTED, RUNNING, PAUSED}"
      "rec_setup cur = Some s" "rec_logical_time_ns cur = Some t"
    and ins: "insert_session (?row s t) d = Inr d1"
    and app: "append_event c ''SESSION_FORKED'' t (fork_payload s t i v) 1 d1 = Inr d'"
    and mat: "materialize d' c p = Inr rec"
    by (auto simp: fork_def guard_simps case_option_Inr validate_lifecycle_i64_def validate_i64_def Let_def
        simp del: insert_session_spec)
  note log = sessions_inv_log [OF inv]
  have state: "session_state d i = Some cur" by (rule row_materialize [OF row(1) cur(1)])
  have rok: "record_ok cur" by (rule sessions_inv_ok [OF inv state])
  have log1: "log_ok d1" by (rule insert_session_log [OF log ins])
  from ins have none: "session_by_id d c = None" and d1: "d1 = d\<lparr>db_sessions := db_sessions d @ [?row s t]\<rparr>"
    by simp_all
  obtain e where d': "d' = d1\<lparr>db_events := db_events d1 @ [e]\<rparr>" "log_ok d'"
    "session_events d' = (session_events d1)(c := session_events d1 c @ [e])"
    and e: "e_event_type e = ''SESSION_FORKED''" "e_payload_json e = JObj (fork_payload s t i v)" "in_i64 t"
    by (rule append_event_spec [OF log1 app])
  have byid: "session_by_id d' = (session_by_id d)(c \<mapsto> ?row s t)"
    using none by (auto simp: d'(1) d1 fun_eq_iff split: option.splits)
  have ne: "session_events d1 c = []" using no_session_no_events [OF log none] by (simp add: d1)
  let ?p = "fork_payload s t i v"
  have fp: "from_payload ?p = Inr s"
    by (rule from_payload_fields) (use rok cur(3) fork_payload_get(1) in \<open>auto simp: record_ok_def split: option.splits\<close>)
  have ft: "decimal_i64_field ?p ''fork_logical_time_ns'' = Inr t"
    by (rule decimal_field_JStr) (simp_all add: fork_payload_get e(3))
  have mat': "materialize_from_row d' (?row s t) p = Inr rec" using mat by (simp add: materialize_def byid)
  then obtain S where S: "replay_log d' c = Inr S" by (auto simp: materialize_from_row_iff)
  moreover have "replay_log d' c = replay_event (None, None, None) e" by (simp add: replay_log_def d'(3) ne)
  ultimately have "replay_event (None, None, None) e = Inr S" by simp
  then have "S = (Some s, Some t, Some i)"
    using e(1,2) fp ft fork_payload_get(2) [of s t i v] by (auto simp: string_field_def split: if_splits)
  with mat' S have rec: "rec = \<lparr>rec_session_id = c, rec_principal_id = p, rec_status = ?st s t, rec_version = 1,
      rec_created_at_ns = ts, rec_setup = Some s, rec_logical_time_ns = Some t, rec_parent_session_id = Some i\<rparr>"
    by (auto simp: materialize_from_row_iff simp del: SessionStatus_value.simps)
  have evs: "session_events d' j = session_events d j" if "j \<noteq> c" for j
    using that by (simp add: d'(3) d1)
  have "session_state d c = None" using none by (simp add: session_state_def)
  moreover have "rec_version cur = v" "rec_principal_id cur = p"
    using materialize_replay [OF cur(1)] materialize_principal [OF cur(1)] row(2) by simp_all
  ultimately show ?thesis
    using that [OF state cur(2) _ _ cur(3,4) _ c ts rec] new_session_state [OF inv byid evs mat] d'(2) by blast
qed

lemma fork_refines:
  assumes "sessions_inv d" and "fork i p v c ts d = Inr (rec, d')"
  shows "refines_step d d'"
  using assms
proof (rule fork_spec)
  fix r s t assume r: "session_state d i = Some r" "rec_status r \<in> {COMMITTED, RUNNING, PAUSED}"
    "rec_version r = v" "rec_principal_id r = p" "rec_setup r = Some s" "rec_logical_time_ns r = Some t"
    "session_state d c = None" "c \<noteq> i" "in_i64 ts"
    "rec = \<lparr>rec_session_id = c, rec_principal_id = p,
      rec_status = (if t = cs_play_start_ns s then COMMITTED else PAUSED), rec_version = 1,
      rec_created_at_ns = ts, rec_setup = Some s, rec_logical_time_ns = Some t, rec_parent_session_id = Some i\<rparr>"
    "session_state d' = (session_state d)(c \<mapsto> rec)" "log_ok d'" "dom (session_by_id d') = dom (session_state d')"
  from lifecycle_step.forked [of "session_state d" i r c s t ts] r show "refines_step d d'"
    by (simp add: refines_step_def)
qed

section \<open>Event hashes bind the log\<close>

definition event_content :: "event_row \<Rightarrow> string \<times> int \<times> int \<times> string \<times> string \<times> json \<times> string" where
  "event_content e = (e_session_id e, e_event_seq e, e_logical_ts_ns e, e_event_type e, e_causation_id e,
     sort_keys (e_payload_json e), e_prior_event_hash e)"

definition event_sealed :: "event_row \<Rightarrow> bool" where
  "event_sealed e \<longleftrightarrow> no_float (e_payload_json e) \<and>
     e_current_event_hash e = event_hash (e_session_id e) (e_event_seq e) (e_logical_ts_ns e)
       (e_event_type e) (e_causation_id e) (e_payload_json e) (e_prior_event_hash e)"

lemma event_hash_binding:
  assumes "event_hash i n ts ty c pl h = event_hash i' n' ts' ty' c' pl' h'" and "no_float pl" and "no_float pl'"
  shows "(i, n, ts, ty, c, sort_keys pl, h) = (i', n', ts', ty', c', sort_keys pl', h') \<or> sha256_collision"
proof -
  let ?j = "\<lambda>i n ts ty c pl h. JObj
       [(''causation_id'', JStr c), (''event_seq'', JStr (str_int n)), (''event_type'', JStr ty),
        (''logical_ts_ns'', JStr (str_int ts)), (''payload'', pl), (''prior_event_hash'', JStr h),
        (''session_id'', JStr i)]"
  from assms(1) consider "dumps (?j i n ts ty c pl h) = dumps (?j i' n' ts' ty' c' pl' h')" | sha256_collision
    unfolding event_hash_def using sha256_hex_eqD by fastforce
  then show ?thesis
  proof cases
    case 1
    then have "sort_keys (?j i n ts ty c pl h) = sort_keys (?j i' n' ts' ty' c' pl' h')"
      by (rule dumps_inject [rotated 2]) (simp_all add: assms(2,3))
    then show ?thesis by simp
  qed simp
qed

interpretation lifecycle_log: bound_chain e_event_seq e_prior_event_hash e_current_event_hash ZERO_HASH
  event_sealed event_content
  by unfold_locales (auto simp: event_sealed_def event_content_def dest: event_hash_binding)

lemma to_payload_no_float: "no_float (JObj (to_payload s))"
  by (simp add: to_payload_def list_all_iff)

lemma no_float_update: "list_all (\<lambda>(k, v). no_float v) fs \<Longrightarrow> no_float v \<Longrightarrow>
   list_all (\<lambda>(k, v). no_float v) (AList.update k v fs)"
  by (induction fs) auto

lemma fork_payload_no_float: "no_float (JObj (fork_payload s t i n))"
  using to_payload_no_float [of s] by (simp add: fork_payload_def no_float_update)

definition all_sealed :: "db \<Rightarrow> bool" where
  "all_sealed d \<longleftrightarrow> list_all event_sealed (db_events d)"

lemma append_event_sealed:
  assumes "log_ok d" and "append_event i ty ts pl v d = Inr d'" and "no_float (JObj pl)" and "all_sealed d"
  shows "all_sealed d'"
proof -
  from append_event_spec [OF assms(1,2)] obtain e where
    "d' = d\<lparr>db_events := db_events d @ [e]\<rparr>" "e_payload_json e = JObj pl" "e_session_id e = i"
    "e_logical_ts_ns e = ts" "e_event_type e = ty"
    "e_current_event_hash e = event_hash i (e_event_seq e) ts ty (e_causation_id e) (JObj pl) (e_prior_event_hash e)"
    by metis
  with assms(3,4) show ?thesis by (simp add: all_sealed_def event_sealed_def)
qed

section \<open>Reachable databases\<close>

inductive service_step :: "db \<Rightarrow> db \<Rightarrow> bool" where
  step_create: "create_session i p ts d = Inr (r, d') \<Longrightarrow> service_step d d'"
| step_commit: "commit cat i p v setup d = Inr (r, d') \<Longrightarrow> service_step d d'"
| step_start: "start i p v d = Inr (r, d') \<Longrightarrow> service_step d d'"
| step_pause: "pause i p v d = Inr (r, d') \<Longrightarrow> service_step d d'"
| step_advance: "advance i p v u d = Inr (r, d') \<Longrightarrow> service_step d d'"
| step_complete: "complete i p v d = Inr (r, d') \<Longrightarrow> service_step d d'"
| step_fork: "fork i p v c ts d = Inr (r, d') \<Longrightarrow> service_step d d'"

inductive service_reach :: "db \<Rightarrow> bool" where
  service_init: "service_reach create_schema"
| service_next: "service_reach d \<Longrightarrow> service_step d d' \<Longrightarrow> service_reach d'"

lemma service_step_refines: "service_step d d' \<Longrightarrow> sessions_inv d \<Longrightarrow> refines_step d d'"
  by (induction rule: service_step.induct)
     (blast intro: create_session_refines commit_refines start_refines pause_refines advance_refines
        complete_refines fork_refines)+

lemma create_schema_inv: "sessions_inv create_schema"
proof -
  have "session_by_id create_schema i = None" for i by (simp add: session_by_id_def create_schema_def)
  then show ?thesis by (simp add: sessions_inv_def create_schema_log)
qed

lemma service_reach_inv: "service_reach d \<Longrightarrow> sessions_inv d"
proof (induction rule: service_reach.induct)
  case (service_next d d')
  then show ?case using service_step_refines refines_inv by blast
qed (rule create_schema_inv)

lemma update_sessions_events: "update_sessions p f d = Inr (n, d') \<Longrightarrow> db_events d' = db_events d"
  by (auto simp: update_sessions_def)

lemma persist_ruleset_events: "persist_ruleset setup d = Inr d' \<Longrightarrow> db_events d' = db_events d"
  by (auto simp: persist_ruleset_def Let_def split: option.splits if_splits)

lemma all_sealed_cong: "db_events d' = db_events d \<Longrightarrow> all_sealed d' = all_sealed d"
  by (simp add: all_sealed_def)

lemma status_transition_sealed:
  assumes "status_transition i p v allowed st ty d = Inr (r, d')" and "log_ok d" and "all_sealed d"
  shows "all_sealed d'"
proof -
  from assms(1) obtain t w d1 where app: "append_event i ty t [] w d = Inr d1" and ev: "db_events d' = db_events d1"
    by (auto simp: status_transition_def case_option_Inr advance_version_spec dest!: update_sessions_events)
  from append_event_sealed [OF assms(2) app _ assms(3)] all_sealed_cong [OF ev] show ?thesis by simp
qed

lemma service_step_sealed:
  assumes "service_step d d'" and "log_ok d" and "all_sealed d"
  shows "all_sealed d'"
  using assms
proof (induction rule: service_step.induct)
  case (step_create i p ts d r d')
  then show ?case by (auto simp: create_session_def all_sealed_def)
next
  case (step_commit cat i p v rq d r d')
  then obtain d1 d2 w where d: "persist_ruleset rq d = Inr d1"
    "append_event i ''SESSION_COMMITTED'' (sr_play_start_ns rq) (to_payload (committed_setup cat rq)) w d1 = Inr d2"
    "db_events d' = db_events d2"
    by (auto simp: commit_def dest: update_sessions_events)
  from persist_ruleset_frame [OF step_commit(2) d(1)] append_event_sealed [OF _ d(2) to_payload_no_float]
  show ?case using step_commit(3) persist_ruleset_events [OF d(1)] by (simp add: d(3) all_sealed_def)
next
  case (step_start i p v d r d')
  then show ?case
    using status_transition_sealed by (auto simp: start_def)
next
  case (step_pause i p v d r d')
  then show ?case
    using status_transition_sealed by (auto simp: pause_def)
next
  case (step_advance i p v u d r d')
  then obtain w d1 where app: "append_event i ''SESSION_ADVANCED'' u [(''logical_time_ns'', JStr (str_int u))] w d = Inr d1"
    and ev: "db_events d' = db_events d1"
    by (auto simp: advance_def case_option_Inr advance_version_spec dest!: update_sessions_events)
  from append_event_sealed [OF step_advance(2) app _ step_advance(3)] all_sealed_cong [OF ev] show ?case by simp
next
  case (step_complete i p v d r d')
  then obtain t w d1 where app: "append_event i ''SESSION_COMPLETED'' t [] w d = Inr d1"
    and ev: "db_events d' = db_events d1"
    by (auto simp: complete_def case_option_Inr advance_version_spec dest!: update_sessions_events)
  from append_event_sealed [OF step_complete(2) app _ step_complete(3)] all_sealed_cong [OF ev] show ?case by simp
next
  case (step_fork i p v c ts d r d')
  then obtain row s t d1 where "insert_session row d = Inr d1"
    and app: "append_event c ''SESSION_FORKED'' t (fork_payload s t i v) 1 d1 = Inr d'"
    by (auto simp: fork_def case_option_Inr Let_def simp del: insert_session_spec)
  then have "log_ok d1" "all_sealed d1"
    using insert_session_log [OF step_fork(2)] step_fork(3) by (auto simp: all_sealed_def)
  with append_event_sealed [OF _ app fork_payload_no_float] show ?case by blast
qed

lemma service_reach_sealed: "service_reach d \<Longrightarrow> all_sealed d"
proof (induction rule: service_reach.induct)
  case (service_next d d')
  then show ?case using service_step_sealed sessions_inv_log [OF service_reach_inv] by blast
qed (simp add: all_sealed_def create_schema_def)

section \<open>How one session evolves\<close>

definition evolves :: "SessionRecord \<Rightarrow> SessionRecord \<Rightarrow> bool" where
  "evolves r r' \<longleftrightarrow>
     rec_session_id r' = rec_session_id r \<and> rec_principal_id r' = rec_principal_id r \<and>
     rec_created_at_ns r' = rec_created_at_ns r \<and> rec_parent_session_id r' = rec_parent_session_id r \<and>
     rec_version r \<le> rec_version r' \<and> (rec_version r = rec_version r' \<longrightarrow> r' = r) \<and>
     (\<forall>s. rec_setup r = Some s \<longrightarrow> rec_setup r' = Some s) \<and>
     (\<forall>t. rec_logical_time_ns r = Some t \<longrightarrow> (\<exists>t'. rec_logical_time_ns r' = Some t' \<and> t \<le> t')) \<and>
     (rec_status r = COMPLETED \<longrightarrow> r' = r)"

lemma evolves_refl: "evolves r r"
  by (simp add: evolves_def)

lemma evolves_trans: "evolves a b \<Longrightarrow> evolves b c \<Longrightarrow> evolves a c"
proof -
  assume a: "evolves a b" and b: "evolves b c"
  have "c = a" if "rec_version a = rec_version c"
    using a b that unfolding evolves_def by (metis order_antisym)
  moreover have "\<exists>t'. rec_logical_time_ns c = Some t' \<and> t \<le> t'" if "rec_logical_time_ns a = Some t" for t
    using a b that unfolding evolves_def by (metis order_trans)
  moreover have "rec_version a \<le> rec_version c" using a b unfolding evolves_def by (metis order_trans)
  ultimately show "evolves a c" using a b by (simp add: evolves_def)
qed

lemma evolves_update:
  assumes "\<sigma>' = \<sigma>(k \<mapsto> q)" and "\<sigma> i = Some r" and "\<And>r. \<sigma> k = Some r \<Longrightarrow> evolves r q"
  shows "\<exists>r'. \<sigma>' i = Some r' \<and> evolves r r'"
  using assms evolves_refl [of r] by (cases "i = k") simp_all

lemma lifecycle_step_evolves:
  assumes "lifecycle_step \<sigma> \<sigma>'" and "\<sigma> i = Some r"
  shows "\<exists>r'. \<sigma>' i = Some r' \<and> evolves r r'"
  using assms(1)
proof (cases rule: lifecycle_step.cases)
  case (created ts k p)
  show ?thesis by (rule evolves_update [OF created(1) assms(2)]) (simp add: created(3))
next
  case (committed k q s)
  show ?thesis by (rule evolves_update [OF committed(1) assms(2)]) (use committed in \<open>simp add: evolves_def\<close>)
next
  case (switched k q st)
  show ?thesis by (rule evolves_update [OF switched(1) assms(2)]) (use switched in \<open>auto simp: evolves_def\<close>)
next
  case (advanced k q s t u)
  show ?thesis by (rule evolves_update [OF advanced(1) assms(2)]) (use advanced in \<open>auto simp: evolves_def\<close>)
next
  case (completed k q s)
  show ?thesis by (rule evolves_update [OF completed(1) assms(2)]) (use completed in \<open>auto simp: evolves_def\<close>)
next
  case (forked k q c s t ts)
  show ?thesis by (rule evolves_update [OF forked(1) assms(2)]) (use forked in simp)
next
  case (traded k q)
  show ?thesis by (rule evolves_update [OF traded(1) assms(2)]) (use traded in \<open>simp add: evolves_def\<close>)
qed

lemma service_steps_evolve:
  assumes "service_step\<^sup>*\<^sup>* d d'" and "sessions_inv d" and "session_state d i = Some r"
  shows "sessions_inv d' \<and> (\<exists>r'. session_state d' i = Some r' \<and> evolves r r')"
  using assms
proof (induction rule: rtranclp_induct)
  case base
  then show ?case using evolves_refl by blast
next
  case (step d1 d2)
  then obtain r1 where r1: "sessions_inv d1" "session_state d1 i = Some r1" "evolves r r1" by blast
  have "refines_step d1 d2" by (rule service_step_refines [OF step(2) r1(1)])
  then show ?case
    using r1 refines_inv lifecycle_step_evolves [of "session_state d1" "session_state d2" i r1] evolves_trans
    unfolding refines_step_def by metis
qed

section \<open>Progress\<close>

lemma append_event_progress:
  assumes "log_ok d" and "session_by_id d i \<noteq> None" and "in_i64 ts" and "in_u64 v"
    and "in_u64 (int (length (raw_events d i)))" and "all_sealed d" and "no_float (JObj pl)"
  shows "(\<exists>d'. append_event i ty ts pl v d = Inr d') \<or> sha256_collision"
proof (cases "\<exists>q\<in>set (raw_events d i). e_current_event_hash q =
    event_hash i (int (length (raw_events d i))) ts ty (lifecycle_causation_id i v) (JObj pl) (ev.head (raw_events d i))")
  case True
  then obtain q where q: "q \<in> set (raw_events d i)" "e_current_event_hash q =
    event_hash i (int (length (raw_events d i))) ts ty (lifecycle_causation_id i v) (JObj pl) (ev.head (raw_events d i))"
    by blast
  then have "event_sealed q" using assms(6) by (auto simp: all_sealed_def raw_events_def list_all_iff)
  then have "e_event_seq q = int (length (raw_events d i)) \<or> sha256_collision"
    using event_hash_binding [OF _ _ assms(7)] q(2) unfolding event_sealed_def by (metis prod.inject)
  moreover have "e_event_seq q < int (length (raw_events d i))"
    using q(1) assms(1) ev.chained_seq unfolding log_ok_def in_set_conv_nth by fastforce
  ultimately show ?thesis by auto
next
  case False
  have "e_event_seq q \<noteq> int (length (raw_events d i))" if "q \<in> set (raw_events d i)" for q
    using that assms(1) ev.chained_seq unfolding log_ok_def in_set_conv_nth by fastforce
  with False have "list_all (\<lambda>q. e_session_id q = i \<longrightarrow> e_event_seq q \<noteq> int (length (raw_events d i)) \<and>
      e_current_event_hash q \<noteq> event_hash i (int (length (raw_events d i))) ts ty
        (lifecycle_causation_id i v) (JObj pl) (ev.head (raw_events d i))) (db_events d)"
    by (auto simp: list_all_iff raw_events_def)
  then show ?thesis
    unfolding append_event_def Let_def log_ok_last [OF assms(1)] insert_event_def
    using assms(2-5) by (simp add: validate_i64_def validate_version_def in_u64_def)
qed

lemma append_event_fresh:
  assumes "log_ok d" and "session_by_id d i \<noteq> None" and "in_i64 ts" and "in_u64 v" and "raw_events d i = []"
  shows "\<exists>d'. append_event i ty ts pl v d = Inr d'"
proof -
  have "\<forall>q\<in>set (db_events d). e_session_id q \<noteq> i" using assms(5) by (auto simp: raw_events_def filter_empty_conv)
  then show ?thesis
    unfolding append_event_def Let_def log_ok_last [OF assms(1)] insert_event_def
    using assms by (auto simp: validate_i64_def validate_version_def in_u64_def U64_MAX_def list_all_iff)
qed

definition rows_ok :: "db \<Rightarrow> bool" where
  "rows_ok d \<longleftrightarrow> list_all (session_row_ok d) (db_sessions d)"

lemma session_row_ok_cong: "db_rulesets d' = db_rulesets d \<Longrightarrow> session_row_ok d' = session_row_ok d"
  by (simp add: session_row_ok_def ruleset_by_id_def fun_eq_iff split: option.splits)

lemma rows_ok_row: "rows_ok d \<Longrightarrow> session_by_id d i = Some row \<Longrightarrow> session_row_ok d row"
  using find_SomeD by (fastforce simp: rows_ok_def list_all_iff session_by_id_def)

lemma rows_ok_insert: "rows_ok d \<Longrightarrow> insert_session r d = Inr d' \<Longrightarrow> rows_ok d'"
  using session_row_ok_cong [of d' d] by (auto simp: rows_ok_def)

lemma rows_ok_update: "rows_ok d \<Longrightarrow> update_sessions p f d = Inr (n, d') \<Longrightarrow> rows_ok d'"
  using session_row_ok_cong [of d' d] by (auto simp: rows_ok_def update_sessions_def list_all_iff)

lemma rows_ok_append: "rows_ok d \<Longrightarrow> append_event i ty ts pl v d = Inr d' \<Longrightarrow> rows_ok d'"
  using session_row_ok_cong [of d' d] by (auto simp: rows_ok_def append_event_def Let_def insert_event_spec)

lemma rows_ok_persist: "rows_ok d \<Longrightarrow> persist_ruleset rq d = Inr d' \<Longrightarrow> rows_ok d'"
  by (auto simp: rows_ok_def persist_ruleset_def Let_def list_all_iff session_row_ok_def ruleset_by_id_def
      find_append split: option.splits if_splits)

lemma service_step_rows: "service_step d d' \<Longrightarrow> rows_ok d \<Longrightarrow> rows_ok d'"
proof (induction rule: service_step.induct)
  case (step_commit cat i p v rq d r d')
  then obtain d1 d2 w ts pl q f where "persist_ruleset rq d = Inr d1" "append_event i ''SESSION_COMMITTED'' ts pl w d1 = Inr d2"
      "update_sessions q f d2 = Inr (1, d')"
    by (auto simp: commit_def)
  with step_commit(2) show ?case using rows_ok_persist rows_ok_append rows_ok_update by metis
qed (auto simp: create_session_def start_def pause_def status_transition_def advance_def complete_def
        fork_def case_option_Inr advance_version_spec Let_def simp del: insert_session_spec
        intro: rows_ok_insert rows_ok_update rows_ok_append)

lemma service_reach_rows: "service_reach d \<Longrightarrow> rows_ok d"
proof (induction rule: service_reach.induct)
  case service_init
  show ?case by (simp add: rows_ok_def create_schema_def)
qed (rule service_step_rows)

text \<open>The tables the session service never writes.\<close>

definition side_tables ::
    "db \<Rightarrow> command_row list \<times> snapshot_row list \<times> commitment_row list \<times> result_row list" where
  "side_tables d = (db_commands d, db_snapshots d, db_commitments d, db_results d)"

lemma side_tables_writes:
  "insert_session r d = Inr d' \<Longrightarrow> side_tables d' = side_tables d"
  "update_sessions p f d = Inr (n, d') \<Longrightarrow> side_tables d' = side_tables d"
  "append_event i ty ts pl v d = Inr d' \<Longrightarrow> side_tables d' = side_tables d"
  "persist_ruleset rq d = Inr d' \<Longrightarrow> side_tables d' = side_tables d"
  by (auto simp: side_tables_def insert_session_def update_sessions_def append_event_def insert_event_def
      persist_ruleset_def insert_ruleset_def Let_def split: option.splits if_splits)

lemma service_step_frame: "service_step d d' \<Longrightarrow> side_tables d' = side_tables d"
proof (induction rule: service_step.induct)
  case (step_commit cat i p v rq d r d')
  then obtain d1 d2 w ts pl q f where "persist_ruleset rq d = Inr d1" "append_event i ''SESSION_COMMITTED'' ts pl w d1 = Inr d2"
      "update_sessions q f d2 = Inr (1, d')"
    by (auto simp: commit_def)
  then show ?case using side_tables_writes by metis
qed (auto simp: create_session_def start_def pause_def status_transition_def advance_def complete_def
        fork_def case_option_Inr advance_version_spec Let_def simp del: insert_session_spec
        dest!: side_tables_writes)

lemma update_progress:
  assumes "keys_ok d" and "session_by_id d i = Some row" and "P row" and "session_row_ok d (f row)"
  shows "\<exists>d'. update_sessions (\<lambda>r. s_session_id r = i \<and> P r) f d = Inr (1, d')"
proof -
  have "r = row" if "r \<in> set (db_sessions d)" "s_session_id r = i" for r
  proof -
    have "row \<in> set (db_sessions d)" "s_session_id row = i"
      using assms(2) find_SomeD by (fastforce simp: session_by_id_def)+
    with that assms(1) show ?thesis by (auto simp: keys_ok_def distinct_map dest: inj_onD)
  qed
  then have "list_all (\<lambda>r. s_session_id r = i \<and> P r \<longrightarrow> session_row_ok d (f r)) (db_sessions d)"
    using assms(4) by (auto simp: list_all_iff)
  moreover have "length (filter (\<lambda>r. s_session_id r = i \<and> P r) (db_sessions d)) = 1"
    using filter_unique [of s_session_id "db_sessions d" i P] assms by (simp add: keys_ok_def session_by_id_def)
  ultimately show ?thesis by (auto simp: update_sessions_def)
qed

lemma materialize_progress:
  assumes "s_principal_id row = p" and "s_status row = SessionStatus_value st" and "in_u64 (s_version row)"
    and "in_i64 (s_created_at_ns row)" and "replay_log d (s_session_id row) = Inr (Some s, t, q)"
    and "s_ruleset_id row = None \<or> s_ruleset_id row = Some (cs_ruleset_id s)"
  shows "\<exists>rec. materialize_from_row d row p = Inr rec"
  using assms unfolding materialize_from_row_iff by auto

lemma session_row:
  assumes "session_state d i = Some r"
  obtains row where "session_by_id d i = Some row" "materialize_from_row d row (rec_principal_id r) = Inr r"
    "s_principal_id row = rec_principal_id r" "s_version row = rec_version r" "s_session_id row = i"
    "s_status row = SessionStatus_value (rec_status r)" "s_created_at_ns row = rec_created_at_ns r"
    "replay_log d i = Inr (rec_setup r, rec_logical_time_ns r, rec_parent_session_id r)"
    "\<And>s. rec_setup r = Some s \<Longrightarrow> s_ruleset_id row = None \<or> s_ruleset_id row = Some (cs_ruleset_id s)"
proof -
  from assms obtain row where row: "session_by_id d i = Some row"
      "materialize_from_row d row (s_principal_id row) = Inr r"
    by (auto simp: session_state_def split: option.splits sum.splits)
  moreover have "s_created_at_ns row = rec_created_at_ns r"
      "rec_setup r = Some s \<Longrightarrow> s_ruleset_id row = None \<or> s_ruleset_id row = Some (cs_ruleset_id s)" for s
    using row(2) unfolding materialize_from_row_iff by (cases "s_ruleset_id row"; auto)+
  ultimately show ?thesis
    using materialize_replay [OF row(2)] materialize_principal [OF row(2)] session_by_id_key [OF row(1)]
    by (intro that [of row]) simp_all
qed

lemma commit_progress:
  assumes inv: "sessions_inv d" and st: "session_state d i = Some r" "rec_status r = SETUP"
      "rec_principal_id r = p" "rec_version r = v"
    and v: "v + 1 \<le> U64_MAX" and fresh: "raw_events d i = []" and chk: "commit_checks cat rq = Inr ()"
    and per: "persist_ruleset rq d = Inr d1" and ok: "setup_ok (committed_setup cat rq)"
  shows "\<exists>rec d'. commit cat i p v rq d = Inr (rec, d')"
proof -
  let ?cs = "committed_setup cat rq"
  let ?f = "\<lambda>r. r\<lparr>s_status := SessionStatus_value COMMITTED, s_version := v + 1,
               s_ruleset_id := Some (rd_ruleset_id (sr_ruleset rq))\<rparr>"
  obtain row where row: "session_by_id d i = Some row" "s_principal_id row = p" "s_version row = v"
      "s_session_id row = i" "s_status row = SessionStatus_value SETUP" "s_created_at_ns row = rec_created_at_ns r"
    using session_row [OF st(1)] st(2-4) by metis
  have rok: "record_ok r" by (rule sessions_inv_ok [OF inv st(1)])
  then have u: "in_u64 v" "in_u64 (v + 1)" using st(4) v by (auto simp: record_ok_def in_u64_def)
  note f = persist_ruleset_frame [OF sessions_inv_log [OF inv] per]
  have fresh1: "raw_events d1 i = []" using persist_ruleset_events [OF per] fresh by (simp add: raw_events_def)
  have play: "in_i64 (sr_play_start_ns rq)" using ok by (simp add: setup_ok_def committed_setup_def)
  obtain d2 where app: "append_event i ''SESSION_COMMITTED'' (sr_play_start_ns rq) (to_payload ?cs) (v + 1) d1 = Inr d2"
    using append_event_fresh [OF conjunct1 [OF f] _ play u(2) fresh1] f row(1) by fastforce
  obtain e where d2: "d2 = d1\<lparr>db_events := db_events d1 @ [e]\<rparr>" "log_ok d2"
    "session_events d2 = (session_events d1)(i := session_events d1 i @ [e])"
    and e: "e_event_type e = ''SESSION_COMMITTED''" "e_payload_json e = JObj (to_payload ?cs)"
    by (rule append_event_spec [OF _ app]) (use f in simp)
  have by2: "session_by_id d2 i = Some row" using f row(1) by (simp add: d2(1))
  have "session_row_ok d2 (?f row)"
    using f u(2) by (auto simp: session_row_ok_def in_u64_def d2(1) ruleset_by_id_def)
  from update_progress [of d2 i row "\<lambda>q. s_version q = v \<and> s_status q = SessionStatus_value SETUP" ?f] this by2
  obtain d3 where upd: "update_sessions (\<lambda>q. s_session_id q = i \<and> s_version q = v \<and> s_status q = SessionStatus_value SETUP)
      ?f d2 = Inr (1, d3)" using d2(2) row by (auto simp: log_ok_def)
  have keys2: "keys_ok d2" using d2(2) by (simp add: log_ok_def)
  note up = update_sessions_one [OF keys2 _ upd, simplified]
  have by3: "session_by_id d3 i = Some (?f row)" using up by2 row by simp
  have "d3 = d2\<lparr>db_sessions := db_sessions d3\<rparr>" using up by blast
  then have ev3: "session_events d3 = session_events d2" by (metis session_events_frame(1))
  have "session_events d1 i = []" using log_ok_events [OF conjunct1 [OF f]] fresh1 by simp
  then have "replay_log d3 i = Inr (Some ?cs, Some (cs_play_start_ns ?cs), None)"
    using e from_payload_fields [OF ok to_payload_get] by (simp add: replay_log_def ev3 d2(3))
  then obtain rec where "materialize_from_row d3 (?f row) p = Inr rec"
    using materialize_progress [of "?f row" p COMMITTED d3 ?cs] row u(2) rok
    by (auto simp: record_ok_def committed_setup_def)
  then have "materialize d3 i p = Inr rec" by (simp add: materialize_def by3)
  moreover have "next_version v = Inr (v + 1)" "locked_row d i p = Inr row"
      "require_version (s_version row) v = Inr ()" "SessionStatus_of (s_status row) = Inr SETUP"
    using u v row by (simp_all add: guard_simps del: SessionStatus_value.simps)
  ultimately have "commit cat i p v rq d = Inr (rec, d3)"
    unfolding commit_def using per app upd chk by (simp add: require_status_def del: SessionStatus_value.simps)
  then show ?thesis by blast
qed

lemma transition_progress:
  assumes inv: "sessions_inv d" and sealed: "all_sealed d" and rows: "rows_ok d"
    and st: "session_state d i = Some r" "rec_principal_id r = p" "rec_version r = v"
    and v: "v + 1 \<le> U64_MAX" and len: "int (length (session_events d i)) \<le> U64_MAX"
    and ev: "in_i64 ts" "no_float (JObj pl)"
    and rep: "\<forall>e. e_event_type e = ty \<longrightarrow> e_payload_json e = JObj pl \<longrightarrow>
       replay_event (rec_setup r, rec_logical_time_ns r, rec_parent_session_id r) e = Inr (rec_setup r, t, q)"
    and ne: "rec_setup r = Some s"
  shows "(\<exists>row d1 d2 rec. locked_row d i p = Inr row \<and> require_version (s_version row) v = Inr () \<and>
      materialize_from_row d row p = Inr r \<and> next_version v = Inr (v + 1) \<and>
      append_event i ty ts pl (v + 1) d = Inr d1 \<and>
      advance_version i v (v + 1) target d1 = Inr d2 \<and> materialize d2 i p = Inr rec) \<or> sha256_collision"
proof (rule disjCI)
  assume nc: "\<not> sha256_collision"
  let ?f = "\<lambda>r. r\<lparr>s_status := SessionStatus_value target, s_version := v + 1\<rparr>"
  obtain row where row: "session_by_id d i = Some row" "materialize_from_row d row p = Inr r" "s_principal_id row = p"
      "s_version row = v" "s_session_id row = i" "s_created_at_ns row = rec_created_at_ns r"
      "replay_log d i = Inr (rec_setup r, rec_logical_time_ns r, rec_parent_session_id r)"
      "s_ruleset_id row = None \<or> s_ruleset_id row = Some (cs_ruleset_id s)"
    using session_row [OF st(1)] st(2,3) ne by metis
  have rok: "record_ok r" by (rule sessions_inv_ok [OF inv st(1)])
  then have u: "in_u64 v" "in_u64 (v + 1)" using st(3) v by (auto simp: record_ok_def in_u64_def)
  note log = sessions_inv_log [OF inv]
  obtain d1 where app: "append_event i ty ts pl (v + 1) d = Inr d1"
    using append_event_progress [OF log _ ev(1) u(2) _ sealed ev(2), of i ty] row(1) nc len
    by (auto simp: in_u64_def log_ok_events [OF log])
  obtain e where d1: "d1 = d\<lparr>db_events := db_events d @ [e]\<rparr>" "log_ok d1"
    "session_events d1 = (session_events d)(i := session_events d i @ [e])"
    and e: "e_event_type e = ty" "e_payload_json e = JObj pl"
    by (rule append_event_spec [OF log app])
  have by1: "session_by_id d1 i = Some row" using row(1) by (simp add: d1(1))
  have keys1: "keys_ok d1" using d1(2) by (simp add: log_ok_def)
  have "session_row_ok d1 (?f row)"
    using rows_ok_row [OF rows row(1)] session_row_ok_cong [of d1 d] u(2)
    by (simp add: d1(1) session_row_ok_def in_u64_def)
  then obtain d2 where upd: "update_sessions (\<lambda>q. s_session_id q = i \<and> s_version q = v) ?f d1 = Inr (1, d2)"
    using update_progress [OF keys1 by1, of "\<lambda>q. s_version q = v" ?f] row(4) by auto
  note up = update_sessions_one [OF keys1 _ upd, simplified]
  have by2: "session_by_id d2 i = Some (?f row)" using up by1 row(4) by simp
  have "d2 = d1\<lparr>db_sessions := db_sessions d2\<rparr>" using up by blast
  then have ev2: "session_events d2 = session_events d1" by (metis session_events_frame(1))
  have "replay_log d2 i = bindR (replay_log d i) (\<lambda>s. replay_event s e)"
    by (rule replay_log_snoc) (simp add: ev2 d1(3))
  then have "replay_log d2 i = Inr (Some s, t, q)" using row(7) rep e ne by simp
  then obtain rec where "materialize_from_row d2 (?f row) p = Inr rec"
    using materialize_progress [of "?f row" p target d2 s t q] row u(2) rok by (auto simp: record_ok_def)
  then have "materialize d2 i p = Inr rec" by (simp add: materialize_def by2)
  moreover have "locked_row d i p = Inr row" "require_version (s_version row) v = Inr ()" "next_version v = Inr (v + 1)"
    using row u v by (simp_all add: guard_simps)
  ultimately show "\<exists>row d1 d2 rec. locked_row d i p = Inr row \<and> require_version (s_version row) v = Inr () \<and>
      materialize_from_row d row p = Inr r \<and> next_version v = Inr (v + 1) \<and>
      append_event i ty ts pl (v + 1) d = Inr d1 \<and>
      advance_version i v (v + 1) target d1 = Inr d2 \<and> materialize d2 i p = Inr rec"
    using row(2) app upd unfolding advance_version_spec by blast
qed

lemma status_transition_progress:
  assumes "sessions_inv d" and "all_sealed d" and "rows_ok d" and "session_state d i = Some r"
    and "rec_principal_id r = p" and "rec_version r = v" and "v + 1 \<le> U64_MAX"
    and "int (length (session_events d i)) \<le> U64_MAX" and "rec_status r \<in> allowed" and "SETUP \<notin> allowed"
    and "ty \<notin> {''SESSION_COMMITTED'', ''SESSION_FORKED'', ''SESSION_ADVANCED''}"
  shows "(\<exists>rec d'. status_transition i p v allowed target ty d = Inr (rec, d')) \<or> sha256_collision"
proof -
  have ns: "rec_status r \<noteq> SETUP" using assms(9,10) by auto
  from sessions_inv_ok [OF assms(1,4)] ns obtain s t where st: "rec_setup r = Some s" "rec_logical_time_ns r = Some t"
    "in_i64 t" by (cases rule: record_okD) auto
  have rep: "\<forall>e. e_event_type e = ty \<longrightarrow> e_payload_json e = JObj [] \<longrightarrow>
      replay_event (rec_setup r, rec_logical_time_ns r, rec_parent_session_id r) e =
      Inr (rec_setup r, rec_logical_time_ns r, rec_parent_session_id r)"
    using assms(11) replay_event_other by blast
  have nf: "no_float (JObj [])" by simp
  from transition_progress [where target = target, OF assms(1-8) st(3) nf rep st(1)]
  consider (ok) row d1 d2 rec where "locked_row d i p = Inr row" "require_version (s_version row) v = Inr ()"
      "materialize_from_row d row p = Inr r" "next_version v = Inr (v + 1)"
      "append_event i ty t [] (v + 1) d = Inr d1"
      "advance_version i v (v + 1) target d1 = Inr d2" "materialize d2 i p = Inr rec" | (coll) sha256_collision by blast
  then show ?thesis
  proof cases
    case ok
    then have "status_transition i p v allowed target ty d = Inr (rec, d2)"
      unfolding status_transition_def using assms(9) st(2) by (simp add: require_status_def)
    then show ?thesis by blast
  qed simp
qed

lemma advance_progress:
  assumes "sessions_inv d" and "all_sealed d" and "rows_ok d" and "session_state d i = Some r"
    and "rec_principal_id r = p" and "rec_version r = v" and "v + 1 \<le> U64_MAX"
    and "int (length (session_events d i)) \<le> U64_MAX" and "rec_status r = RUNNING"
    and "rec_setup r = Some s" and "rec_logical_time_ns r = Some t" and "t < u" and "u \<le> play_end_ns s" and "in_i64 u"
  shows "(\<exists>rec d'. advance i p v u d = Inr (rec, d')) \<or> sha256_collision"
proof -
  let ?pl = "[(''logical_time_ns'', JStr (str_int u))]"
  have nf: "no_float (JObj ?pl)" by simp
  have rep: "\<forall>e. e_event_type e = ''SESSION_ADVANCED'' \<longrightarrow> e_payload_json e = JObj ?pl \<longrightarrow>
      replay_event (rec_setup r, rec_logical_time_ns r, rec_parent_session_id r) e =
      Inr (rec_setup r, Some u, rec_parent_session_id r)"
    using assms(10,14) decimal_field_JStr [of ?pl _ u] by simp
  from transition_progress [where target = RUNNING, OF assms(1-8,14) nf rep assms(10)]
  consider (ok) row d1 d2 rec where "locked_row d i p = Inr row" "require_version (s_version row) v = Inr ()"
      "materialize_from_row d row p = Inr r" "next_version v = Inr (v + 1)"
      "append_event i ''SESSION_ADVANCED'' u ?pl (v + 1) d = Inr d1"
      "advance_version i v (v + 1) RUNNING d1 = Inr d2" "materialize d2 i p = Inr rec" | (coll) sha256_collision by blast
  then show ?thesis
  proof cases
    case ok
    then have "advance i p v u d = Inr (rec, d2)"
      unfolding advance_def using assms(9-14) by (simp add: require_status_def validate_lifecycle_i64_def validate_i64_def)
    then show ?thesis by blast
  qed simp
qed

lemma complete_progress:
  assumes "sessions_inv d" and "all_sealed d" and "rows_ok d" and "session_state d i = Some r"
    and "rec_principal_id r = p" and "rec_version r = v" and "v + 1 \<le> U64_MAX"
    and "int (length (session_events d i)) \<le> U64_MAX" and "rec_status r \<in> {RUNNING, PAUSED}"
    and "rec_setup r = Some s" and "rec_logical_time_ns r = Some (play_end_ns s)" and "in_i64 (play_end_ns s)"
  shows "(\<exists>rec d'. complete i p v d = Inr (rec, d')) \<or> sha256_collision"
proof -
  have nf: "no_float (JObj [])" by simp
  have rep: "\<forall>e. e_event_type e = ''SESSION_COMPLETED'' \<longrightarrow> e_payload_json e = JObj [] \<longrightarrow>
      replay_event (rec_setup r, rec_logical_time_ns r, rec_parent_session_id r) e =
      Inr (rec_setup r, rec_logical_time_ns r, rec_parent_session_id r)"
    using replay_event_other by simp
  from transition_progress [where target = COMPLETED, OF assms(1-8,12) nf rep assms(10)]
  consider (ok) row d1 d2 rec where "locked_row d i p = Inr row" "require_version (s_version row) v = Inr ()"
      "materialize_from_row d row p = Inr r" "next_version v = Inr (v + 1)"
      "append_event i ''SESSION_COMPLETED'' (play_end_ns s) [] (v + 1) d = Inr d1"
      "advance_version i v (v + 1) COMPLETED d1 = Inr d2" "materialize d2 i p = Inr rec" | (coll) sha256_collision by blast
  then show ?thesis
  proof cases
    case ok
    then have "complete i p v d = Inr (rec, d2)"
      unfolding complete_def using assms(9-11) by (simp add: require_status_def)
    then show ?thesis by blast
  qed simp
qed

lemma append_update_events:
  assumes "log_ok d" and "append_event i ty ts pl w d = Inr d1" and "update_sessions q f d1 = Inr (n, d')"
  shows "\<exists>e. session_events d' i = session_events d i @ [e]"
proof -
  from append_event_spec [OF assms(1,2)] obtain e where
    "session_events d1 = (session_events d)(i := session_events d i @ [e])" by metis
  moreover have "session_events d' = session_events d1"
    using update_sessions_events [OF assms(3)] by (simp add: session_events_def fun_eq_iff)
  ultimately show ?thesis by simp
qed

lemma advance_events:
  assumes "log_ok d" and "advance i p v u d = Inr (rec, d')"
  shows "\<exists>e. session_events d' i = session_events d i @ [e]"
proof -
  from assms(2) obtain w pl d1 n q f where "append_event i ''SESSION_ADVANCED'' u pl w d = Inr d1"
    "update_sessions q f d1 = Inr (n, d')"
    by (auto simp: advance_def case_option_Inr advance_version_spec)
  then show ?thesis by (rule append_update_events [OF assms(1)])
qed

lemma start_events:
  assumes "log_ok d" and "start i p v d = Inr (rec, d')"
  shows "\<exists>e. session_events d' i = session_events d i @ [e]"
proof -
  from assms(2) obtain w ts pl d1 n q f where "append_event i ''SESSION_STARTED'' ts pl w d = Inr d1"
    "update_sessions q f d1 = Inr (n, d')"
    by (auto simp: start_def status_transition_def case_option_Inr advance_version_spec)
  then show ?thesis by (rule append_update_events [OF assms(1)])
qed

lemma commit_events:
  assumes "log_ok d" and "commit cat i p v rq d = Inr (rec, d')"
  shows "\<exists>e. session_events d' i = session_events d i @ [e]"
proof -
  from assms(2) obtain d0 w ts pl d1 n q f where per: "persist_ruleset rq d = Inr d0"
    and "append_event i ''SESSION_COMMITTED'' ts pl w d0 = Inr d1" "update_sessions q f d1 = Inr (n, d')"
    by (auto simp: commit_def)
  with persist_ruleset_frame [OF assms(1) per] append_update_events [of d0] show ?thesis by metis
qed

lemma fork_progress:
  assumes inv: "sessions_inv d" and st: "session_state d i = Some r" "rec_status r \<in> {COMMITTED, RUNNING, PAUSED}"
      "rec_principal_id r = p" "rec_version r = v" "rec_setup r = Some s"
    and rs: "ruleset_by_id d (cs_ruleset_id s) \<noteq> None" and new: "session_by_id d c = None" "c \<noteq> i" "i \<noteq> []"
    and id: "validate_identity c = Inr ()" and ts: "in_i64 ts"
  shows "\<exists>rec d'. fork i p v c ts d = Inr (rec, d')"
proof -
  have rok: "record_ok r" by (rule sessions_inv_ok [OF inv st(1)])
  then obtain t where t: "rec_logical_time_ns r = Some t" "in_i64 t" "setup_ok s"
    using st(5) by (auto simp: record_ok_def split: option.splits)
  let ?st = "if t = cs_play_start_ns s then COMMITTED else PAUSED"
  let ?row = "\<lparr>s_session_id = c, s_principal_id = p, s_status = SessionStatus_value ?st, s_version = 1,
      s_ruleset_id = Some (cs_ruleset_id s), s_commitment_hash = None, s_created_at_ns = ts\<rparr>"
  let ?p = "fork_payload s t i v"
  obtain row where row: "session_by_id d i = Some row" "materialize_from_row d row p = Inr r" "s_principal_id row = p"
      "s_version row = v" using session_row [OF st(1)] st(3,4) by metis
  have u: "in_u64 v" using rok st(4) by (simp add: record_ok_def)
  note log = sessions_inv_log [OF inv]
  define d1 where "d1 = d\<lparr>db_sessions := db_sessions d @ [?row]\<rparr>"
  have ins: "insert_session ?row d = Inr d1" using new(1) rs by (simp add: d1_def session_row_ok_def)
  have log1: "log_ok d1" by (rule insert_session_log [OF log ins])
  have none: "raw_events d1 c = []" "session_events d1 c = []"
    using no_session_no_events [OF log new(1)] log_ok_events [OF log] by (simp_all add: d1_def)
  have by1: "session_by_id d1 c = Some ?row" using new(1) by (simp add: d1_def)
  obtain d2 where app: "append_event c ''SESSION_FORKED'' t ?p 1 d1 = Inr d2"
    using append_event_fresh [OF log1 _ t(2) _ none(1), of 1] by1 by (auto simp: in_u64_def U64_MAX_def)
  obtain e where d2: "d2 = d1\<lparr>db_events := db_events d1 @ [e]\<rparr>"
    "session_events d2 = (session_events d1)(c := session_events d1 c @ [e])"
    and e: "e_event_type e = ''SESSION_FORKED''" "e_payload_json e = JObj ?p"
    by (rule append_event_spec [OF log1 app])
  have "from_payload ?p = Inr s" by (rule from_payload_fields [OF t(3) fork_payload_get(1)])
  moreover have "decimal_i64_field ?p ''fork_logical_time_ns'' = Inr t"
    by (rule decimal_field_JStr [OF fork_payload_get(3) t(2)])
  moreover have "string_field ?p ''parent_session_id'' = Inr i"
    by (rule string_field_JStr [OF fork_payload_get(2) new(3)])
  ultimately have "replay_log d2 c = Inr (Some s, Some t, Some i)"
    using e by (simp add: replay_log_def d2(2) none(2))
  then obtain rec where "materialize_from_row d2 ?row p = Inr rec"
    using materialize_progress [of ?row p ?st d2 s] ts by (auto simp: in_u64_def U64_MAX_def)
  then have "materialize d2 c p = Inr rec" by (simp add: materialize_def d2(1) by1)
  moreover have "locked_row d i p = Inr row" "require_version (s_version row) v = Inr ()"
    using row u by (simp_all add: guard_simps)
  ultimately have "fork i p v c ts d = Inr (rec, d2)"
    unfolding fork_def using row(2) st(2,5) t(1) ins app id ts new(2) u
    by (simp add: require_status_def validate_lifecycle_i64_def validate_i64_def validate_lifecycle_version_def
        validate_version_def Let_def del: insert_session_spec SessionStatus_value.simps)
  then show ?thesis by blast
qed

lemma commit_ruleset:
  assumes "log_ok d" and "commit cat i p v rq d = Inr (rec, d')"
  shows "ruleset_by_id d' (cs_ruleset_id (committed_setup cat rq)) \<noteq> None"
proof -
  from assms(2) obtain d1 d2 w ts pl n q f where per: "persist_ruleset rq d = Inr d1"
    and app: "append_event i ''SESSION_COMMITTED'' ts pl w d1 = Inr d2" and upd: "update_sessions q f d2 = Inr (n, d')"
    by (auto simp: commit_def)
  have "db_rulesets d' = db_rulesets d2" using upd by (auto simp: update_sessions_def)
  moreover have "db_rulesets d2 = db_rulesets d1" using app by (auto simp: append_event_def Let_def insert_event_spec)
  ultimately show ?thesis
    using persist_ruleset_frame [OF assms(1) per] by (auto simp: ruleset_by_id_def committed_setup_def)
qed

text \<open>Writes to the other tables do not show in the sessions.\<close>

definition core_tables :: "db \<Rightarrow> ruleset_row list \<times> session_row list \<times> event_row list" where
  "core_tables d = (db_rulesets d, db_sessions d, db_events d)"

lemma core_frame:
  assumes "core_tables d' = core_tables d"
  shows "session_state d' = session_state d" "session_by_id d' = session_by_id d" "session_events d' = session_events d"
    "sessions_inv d' = sessions_inv d"
proof -
  show sb: "session_by_id d' = session_by_id d" and se: "session_events d' = session_events d"
    using assms by (simp_all add: core_tables_def session_by_id_def session_events_def fun_eq_iff)
  show st: "session_state d' = session_state d" by (rule ext, rule session_state_cong) (simp_all add: sb se)
  have "raw_events d' = raw_events d" "keys_ok d' = keys_ok d"
    using assms by (simp_all add: core_tables_def raw_events_def keys_ok_def fun_eq_iff)
  then show "sessions_inv d' = sessions_inv d"
    using assms by (simp add: sessions_inv_def log_ok_def st sb core_tables_def)
qed

section \<open>Stored rulesets stay\<close>

definition rulesets_grow :: "db \<Rightarrow> db \<Rightarrow> bool" where
  "rulesets_grow d d' \<longleftrightarrow> (\<exists>rs. db_rulesets d' = db_rulesets d @ rs)"

lemma rulesets_kept: "rulesets_grow d d' \<Longrightarrow> ruleset_by_id d k = Some row \<Longrightarrow> ruleset_by_id d' k = Some row"
  by (auto simp: rulesets_grow_def ruleset_by_id_def find_append)

lemma rulesets_grow_trans: "rulesets_grow d d' \<Longrightarrow> rulesets_grow d' d'' \<Longrightarrow> rulesets_grow d d''"
  by (auto simp: rulesets_grow_def)

lemma rulesets_writes:
  "insert_session r d = Inr d' \<Longrightarrow> db_rulesets d' = db_rulesets d"
  "update_sessions p f d = Inr (n, d') \<Longrightarrow> db_rulesets d' = db_rulesets d"
  "append_event i ty ts pl v d = Inr d' \<Longrightarrow> db_rulesets d' = db_rulesets d"
  by (auto simp: insert_session_def update_sessions_def append_event_def insert_event_def Let_def split: if_splits)

lemma persist_rulesets: "persist_ruleset rq d = Inr d' \<Longrightarrow> rulesets_grow d d'"
  by (auto simp: rulesets_grow_def persist_ruleset_def insert_ruleset_def Let_def split: option.splits if_splits)

lemma service_step_rulesets: "service_step d d' \<Longrightarrow> rulesets_grow d d'"
proof (induction rule: service_step.induct)
  case (step_commit cat i p v rq d r d')
  then obtain d1 d2 w ts pl q f where per: "persist_ruleset rq d = Inr d1"
    and "append_event i ''SESSION_COMMITTED'' ts pl w d1 = Inr d2" "update_sessions q f d2 = Inr (1, d')"
    by (auto simp: commit_def)
  then have "db_rulesets d' = db_rulesets d1" by (simp add: rulesets_writes(2,3))
  with persist_rulesets [OF per] show ?case by (simp add: rulesets_grow_def)
qed (unfold rulesets_grow_def, rule exI [of _ "[]"], auto simp: create_session_def start_def pause_def status_transition_def
        advance_def complete_def fork_def case_option_Inr advance_version_spec Let_def simp del: insert_session_spec
        dest!: rulesets_writes)

end
