(* ===== verification/Session_Theorems.thy ===== *)
theory Session_Theorems
  imports Session_Lifecycle
begin

text \<open>
  The properties of the session service over every database its operations can reach: refinement
  of the abstract lifecycle, the lifecycle invariant, how a session may evolve, optimistic versions,
  ownership, forks, the tamper-evident log, eligibility of what is committed, and that a running
  session can be brought to completion.
\<close>


text \<open>C2: invariant. In every reachable database each stored session can be read by its owner, and the record is
  well formed: version and creation time in range; no setup and no logical time exactly while in SETUP; otherwise
  a valid setup and a logical time between the play start and the play end, equal to the start while COMMITTED
  and to the end when COMPLETED.\<close>

theorem lifecycle_invariant:
  assumes "service_reach d" and "session_by_id d i = Some row"
  shows "\<exists>r. get_session d i (s_principal_id row) = Inr r \<and>
    in_u64 (rec_version r) \<and> in_i64 (rec_created_at_ns r) \<and>
    (rec_status r = SETUP \<and> rec_setup r = None \<and> rec_logical_time_ns r = None \<or>
     rec_status r \<noteq> SETUP \<and> (\<exists>s t. rec_setup r = Some s \<and> setup_ok s \<and> rec_logical_time_ns r = Some t \<and>
        in_i64 t \<and> cs_play_start_ns s \<le> t \<and> t \<le> play_end_ns s \<and>
        (t = cs_play_start_ns s \<or> rec_status r \<noteq> COMMITTED) \<and> (t = play_end_ns s \<or> rec_status r \<noteq> COMPLETED)))"
proof -
  note inv = service_reach_inv [OF assms(1)]
  from inv assms(2) obtain r where r: "session_state d i = Some r" "record_ok r" by (auto simp: sessions_inv_def)
  obtain row' where "session_by_id d i = Some row'" "s_principal_id row' = rec_principal_id r"
    using session_row [OF r(1)] by metis
  with assms(2) r(1) have "get_session d i (s_principal_id row) = Inr r"
    by (simp add: get_session_def materialize_iff)
  with r(2) show ?thesis by (auto simp: record_ok_def split: option.splits)
qed

text \<open>C3: evolution. Along any sequence of operations a session never disappears; its owner, creation time and
  parent never change; its version never decreases and changes whenever anything changes; a committed setup
  is never replaced; the logical time never goes back; and a completed session never changes again.\<close>

theorem session_evolution:
  assumes "service_reach d" and "service_step\<^sup>*\<^sup>* d d'" and "session_state d i = Some r"
  shows "\<exists>r'. session_state d' i = Some r' \<and>
    rec_principal_id r' = rec_principal_id r \<and> rec_created_at_ns r' = rec_created_at_ns r \<and>
    rec_parent_session_id r' = rec_parent_session_id r \<and>
    rec_version r \<le> rec_version r' \<and> (r' = r \<or> rec_version r \<noteq> rec_version r') \<and>
    (rec_setup r = None \<or> rec_setup r' = rec_setup r) \<and>
    (rec_logical_time_ns r = None \<or> the (rec_logical_time_ns r) \<le> the (rec_logical_time_ns r') \<and>
       rec_logical_time_ns r' \<noteq> None) \<and>
    (r' = r \<or> rec_status r \<noteq> COMPLETED)"
proof -
  obtain r' where r': "session_state d' i = Some r'" and e: "evolves r r'"
    using service_steps_evolve [OF assms(2) service_reach_inv [OF assms(1)] assms(3)] by blast
  have "rec_setup r = None \<or> rec_setup r' = rec_setup r"
    using e by (cases "rec_setup r") (simp_all add: evolves_def)
  moreover have "rec_logical_time_ns r = None \<or>
      the (rec_logical_time_ns r) \<le> the (rec_logical_time_ns r') \<and> rec_logical_time_ns r' \<noteq> None"
    using e by (cases "rec_logical_time_ns r") (auto simp: evolves_def)
  moreover have "r' = r \<or> rec_version r \<noteq> rec_version r'" "r' = r \<or> rec_status r \<noteq> COMPLETED"
    using e unfolding evolves_def by blast+
  ultimately show ?thesis using r' e unfolding evolves_def by blast
qed

lemma next_version_u64:
  "in_u64 v \<Longrightarrow> next_version v = Inl (session_error SE_VERSION_CONFLICT) \<or> next_version v = Inr (v + 1)"
  by (cases "v = 2 ^ 64 - 1") (simp_all add: next_version_def validate_lifecycle_version_def validate_version_def)

lemma stale_guards:
  assumes "session_state d i = Some r" and "in_u64 (rec_version r)" and "in_u64 v" and "v \<noteq> rec_version r"
  obtains row where "locked_row d i (rec_principal_id r) = Inr row"
    "require_version (s_version row) v = Inl (session_error SE_VERSION_CONFLICT)"
proof -
  obtain row where "session_by_id d i = Some row" "s_principal_id row = rec_principal_id r" "s_version row = rec_version r"
    using session_row [OF assms(1)] by metis
  then show ?thesis using that [of row] assms by (simp add: locked_row_iff require_version_def validate_version_def)
qed


text \<open>C38: ownership. Another principal can neither read a session nor commit, start, pause, advance, complete or
  fork it: the read is refused as a principal mismatch and no operation succeeds.\<close>

theorem principal_isolation:
  assumes "service_reach d" and "session_state d i = Some r" and "p \<noteq> rec_principal_id r"
  shows "get_session d i p = Inl (session_error SE_PRINCIPAL_MISMATCH) \<and>
    \<not> (\<exists>q d' v u cat rq c ts. commit cat i p v rq d = Inr (q, d') \<or> start i p v d = Inr (q, d') \<or>
       pause i p v d = Inr (q, d') \<or> advance i p v u d = Inr (q, d') \<or> complete i p v d = Inr (q, d') \<or>
       fork i p v c ts d = Inr (q, d'))"
proof -
  obtain row where row: "session_by_id d i = Some row" "s_principal_id row = rec_principal_id r"
    using session_row [OF assms(2)] by metis
  have "locked_row d i p = Inl (session_error SE_PRINCIPAL_MISMATCH)"
    using row assms(3) by (simp add: locked_row_def)
  then have "\<And>q d' v u cat rq c ts. commit cat i p v rq d \<noteq> Inr (q, d') \<and> start i p v d \<noteq> Inr (q, d') \<and>
       pause i p v d \<noteq> Inr (q, d') \<and> advance i p v u d \<noteq> Inr (q, d') \<and> complete i p v d \<noteq> Inr (q, d') \<and>
       fork i p v c ts d \<noteq> Inr (q, d')"
    by (simp add: commit_def start_def pause_def status_transition_def advance_def complete_def fork_def)
  moreover have "get_session d i p = Inl (session_error SE_PRINCIPAL_MISMATCH)"
    using row assms(3) by (simp add: get_session_def materialize_def materialize_from_row_def)
  ultimately show ?thesis by blast
qed

text \<open>Forks. An accepted fork creates a session that did not exist, for the same owner, with the parent's setup
  and logical time, at version one and with the parent recorded, committed if nothing was played yet and paused
  otherwise; the parent and every other session keep their state and their events.\<close>

theorem fork_independent:
  assumes "service_reach d" and "fork i p v c ts d = Inr (rec, d')"
  shows "session_state d c = None \<and> session_state d' = (session_state d)(c \<mapsto> rec) \<and>
    (\<exists>r s t. session_state d i = Some r \<and> rec_principal_id r = p \<and> rec_version r = v \<and>
       rec_setup r = Some s \<and> rec_logical_time_ns r = Some t \<and>
       rec = \<lparr>rec_session_id = c, rec_principal_id = p,
         rec_status = (if t = cs_play_start_ns s then COMMITTED else PAUSED), rec_version = 1,
         rec_created_at_ns = ts, rec_setup = Some s, rec_logical_time_ns = Some t, rec_parent_session_id = Some i\<rparr>)"
  using service_reach_inv [OF assms(1)] assms(2) by (rule fork_spec) blast

text \<open>Tamper evidence. If two reachable databases hold equally many events of a session and the last event
  hashes agree, then all of its events agree in number, time, type, cause, payload (up to key order) and
  predecessor, unless a collision of SHA-256 is at hand.\<close>

theorem session_log_tamper_evident:
  assumes "service_reach d" and "service_reach d'"
    and "length (session_events d i) = length (session_events d' i)" and "session_events d i \<noteq> []"
    and "e_current_event_hash (last (session_events d i)) = e_current_event_hash (last (session_events d' i))"
  shows "map event_content (session_events d i) = map event_content (session_events d' i) \<or> sha256_collision"
proof -
  have s: "ev.chained (session_events x i) \<and> list_all event_sealed (session_events x i)" if "service_reach x" for x
  proof -
    note log = sessions_inv_log [OF service_reach_inv [OF that]]
    from service_reach_sealed [OF that] log show ?thesis
      unfolding log_ok_events [OF log] by (auto simp: log_ok_def all_sealed_def raw_events_def list_all_iff)
  qed
  have "session_events d' i \<noteq> []" using assms(3,4) by auto
  with assms(4,5) have "ev.head (session_events d i) = ev.head (session_events d' i)" by (simp add: ev.head_def)
  with s [OF assms(1)] s [OF assms(2)] assms(3) show ?thesis
    by (intro lifecycle_log.tamper_evident) simp_all
qed

text \<open>C4: what is committed is covered. When a commit is accepted, the pinned manifest is registered and not revoked,
  its tier, capabilities, licence and quality satisfy the request, and it has data at every instant from the start of
  the warm-up to the end of play; the session holds exactly the requested setup.\<close>

theorem commit_pins_eligible_manifest:
  assumes "service_reach d" and "catalog_reach cat" and "commit cat i p v rq d = Inr (rec, d')"
  shows "rec_setup rec = Some (committed_setup cat rq) \<and> rec_status rec = COMMITTED \<and>
    sr_execution_tier rq \<in> rd_allowed_execution_tiers (sr_ruleset rq) \<and>
    (\<exists>m. map_of (cat_manifests cat) (cs_manifest_hash (committed_setup cat rq)) = Some m \<and>
       manifest_serves cat (commit_requirement rq) m \<and>
       (\<forall>t. sr_play_start_ns rq - sr_warmup_ns rq \<le> t \<and> t < sr_play_start_ns rq + sr_duration_ns rq \<longrightarrow> has_data_at m t))"
  using service_reach_inv [OF assms(1)] assms(3)
proof (rule commit_spec)
  fix r
  assume rec: "rec = r\<lparr>rec_status := COMMITTED, rec_version := rec_version r + 1,
       rec_setup := Some (committed_setup cat rq), rec_logical_time_ns := Some (sr_play_start_ns rq)\<rparr>"
    and chk: "commit_checks cat rq = Inr ()"
  from chk have tier: "sr_execution_tier rq \<in> rd_allowed_execution_tiers (sr_ruleset rq)"
    and post: "SetupRequirement_post_init (commit_requirement rq) = Inr ()"
    and mem: "\<exists>e. e \<in> set (eligible_setups cat (commit_requirement rq)) \<and> es_manifest_hash e = sr_manifest_hash rq"
    by (auto simp: commit_checks_def Let_def)
  have "required_start_ns (commit_requirement rq) < required_end_ns (commit_requirement rq)"
    using post by (simp add: SetupRequirement_post_init_def required_start_ns_def required_end_ns_def)
  from eligible_manifest [OF catalog_reach_ok [OF assms(2)] this, of "sr_manifest_hash rq"] mem
  show ?thesis
    using rec tier by (auto simp: committed_setup_def required_start_ns_def required_end_ns_def commit_requirement_def)
qed


section \<open>Witnesses\<close>

definition demo_rules :: RulesetDefinition where
  "demo_rules = \<lparr>rd_ruleset_id = ''crypto'', rd_version = ''1'', rd_allowed_execution_tiers = {F0T, F1},
     rd_canonical_body = JObj [], rd_ruleset_hash = demo_hash\<rparr>"

definition demo_request :: SetupRequest where
  "demo_request = \<lparr>sr_instrument_id = ''BTC-USDT'', sr_manifest_hash = demo_hash, sr_play_start_ns = 300,
     sr_warmup_ns = 50, sr_duration_ns = 400, sr_execution_tier = F1, sr_ruleset = demo_rules,
     sr_visibility_mode = RELATIVE, sr_required_capabilities = {},
     sr_allowed_redistribution = {REDISTRIBUTABLE}, sr_allow_degraded = False\<rparr>"

definition demo_created :: db where
  "demo_created = create_schema\<lparr>db_sessions := [\<lparr>s_session_id = ''s1'', s_principal_id = ''alice'',
     s_status = ''SETUP'', s_version = 0, s_ruleset_id = None, s_commitment_hash = None, s_created_at_ns = 1\<rparr>]\<rparr>"

definition demo_record :: SessionRecord where
  "demo_record = \<lparr>rec_session_id = ''s1'', rec_principal_id = ''alice'', rec_status = SETUP, rec_version = 0,
     rec_created_at_ns = 1, rec_setup = None, rec_logical_time_ns = None, rec_parent_session_id = None\<rparr>"

lemma demo_create_session: "create_session ''s1'' ''alice'' 1 create_schema = Inr (demo_record, demo_created)"
  by code_simp

lemma demo_reach: "service_reach demo_created"
  by (rule service_next [OF service_init step_create [OF demo_create_session]])

lemma demo_state: "session_state demo_created ''s1'' = Some demo_record"
  by code_simp

lemma demo_commit_ok:
  "commit_checks demo_catalog demo_request = Inr ()" "raw_events demo_created ''s1'' = []"
  "\<exists>d. persist_ruleset demo_request demo_created = Inr d"
proof -
  show "commit_checks demo_catalog demo_request = Inr ()" "raw_events demo_created ''s1'' = []" by code_simp+
  show "\<exists>d. persist_ruleset demo_request demo_created = Inr d"
    by (simp add: persist_ruleset_def ruleset_body_def demo_request_def demo_rules_def demo_created_def create_schema_def
        ruleset_by_id_def)
qed

lemma demo_setup_valid: "setup_ok (committed_setup demo_catalog demo_request)"
proof -
  have "is_sha256_hex demo_hash" by code_simp
  then show ?thesis
    by (simp add: setup_ok_def committed_setup_def demo_request_def demo_rules_def eligibility_hash_def
        sha256_hex_valid range_defs)
qed

lemma demo_commit: "\<exists>r d. commit demo_catalog ''s1'' ''alice'' 0 demo_request demo_created = Inr (r, d)"
proof -
  obtain d1 where "persist_ruleset demo_request demo_created = Inr d1" using demo_commit_ok(3) by blast
  from commit_progress [OF service_reach_inv [OF demo_reach] demo_state _ _ _ _ demo_commit_ok(2,1) this demo_setup_valid]
  show ?thesis by (simp add: demo_record_def U64_MAX_def)
qed

lemma demo_committed:
  obtains r d where "commit demo_catalog ''s1'' ''alice'' 0 demo_request demo_created = Inr (r, d)" "service_reach d"
    "session_state d ''s1'' = Some r" "rec_status r = COMMITTED" "rec_version r = 1" "rec_principal_id r = ''alice''"
    "rec_setup r = Some (committed_setup demo_catalog demo_request)" "rec_logical_time_ns r = Some 300"
proof -
  from demo_commit obtain r d where c: "commit demo_catalog ''s1'' ''alice'' 0 demo_request demo_created = Inr (r, d)"
    by blast
  have "service_reach d" by (rule service_next [OF demo_reach step_commit [OF c]])
  moreover have "session_state d ''s1'' = Some r" "r = demo_record\<lparr>rec_status := COMMITTED, rec_version := 0 + 1,
      rec_setup := Some (committed_setup demo_catalog demo_request), rec_logical_time_ns := Some 300\<rparr>"
    by (rule commit_spec [OF service_reach_inv [OF demo_reach] c];
        use demo_state in \<open>simp add: demo_record_def demo_request_def\<close>)+
  ultimately show ?thesis using that [OF c] by (simp add: demo_record_def)
qed

lemma demo_running:
  assumes nc: "\<not> sha256_collision"
  obtains r d where "service_reach d" "session_state d ''s1'' = Some r" "rec_status r = RUNNING" "rec_version r = 2"
    "rec_principal_id r = ''alice''" "rec_setup r = Some (committed_setup demo_catalog demo_request)"
    "rec_logical_time_ns r = Some 300" "length (session_events d ''s1'') = 2" "side_tables d = ([], [], [], [])"
proof -
  obtain r d where d: "commit demo_catalog ''s1'' ''alice'' 0 demo_request demo_created = Inr (r, d)" "service_reach d"
    "session_state d ''s1'' = Some r" "rec_status r = COMMITTED" "rec_version r = 1" "rec_principal_id r = ''alice''"
    "rec_setup r = Some (committed_setup demo_catalog demo_request)" "rec_logical_time_ns r = Some 300"
    by (rule demo_committed)
  note inv = service_reach_inv [OF d(2)]
  have "session_events demo_created ''s1'' = []" by code_simp
  then obtain e where e: "session_events d ''s1'' = [e]"
    using commit_events [OF sessions_inv_log [OF service_reach_inv [OF demo_reach]] d(1)] by auto
  obtain r0 d0 where start: "start ''s1'' ''alice'' 1 d = Inr (r0, d0)"
    using status_transition_progress [OF inv service_reach_sealed [OF d(2)] service_reach_rows [OF d(2)] d(3,6,5),
        of "{COMMITTED, PAUSED}" "''SESSION_STARTED''" RUNNING] nc d(4) e
    by (auto simp: start_def U64_MAX_def)
  have reach0: "service_reach d0" by (rule service_next [OF d(2) step_start [OF start]])
  obtain e' where "session_events d0 ''s1'' = [e, e']"
    using start_events [OF sessions_inv_log [OF inv] start] e by auto
  moreover have "session_state d0 ''s1'' = Some r0" "r0 = r\<lparr>rec_status := RUNNING, rec_version := rec_version r + 1\<rparr>"
    by (rule status_transition_spec [OF inv start [unfolded start_def]]; use d(3) in simp)+
  moreover have "side_tables d0 = ([], [], [], [])"
    using service_step_frame [OF step_start [OF start]] service_step_frame [OF step_commit [OF d(1)]]
    by (simp add: side_tables_def demo_created_def create_schema_def)
  ultimately show ?thesis using that [OF reach0, of r0] d by simp
qed


theorem lifecycle_invariant_witness:
  "\<exists>r. get_session demo_created ''s1'' ''alice'' = Inr r \<and> in_u64 (rec_version r)"
proof -
  have "session_by_id demo_created ''s1'' = Some (hd (db_sessions demo_created))"
    "s_principal_id (hd (db_sessions demo_created)) = ''alice''" by code_simp+
  with lifecycle_invariant [OF demo_reach] show ?thesis by metis
qed

theorem session_evolution_witness:
  "\<exists>d r. service_step\<^sup>*\<^sup>* demo_created d \<and> session_state d ''s1'' = Some r \<and> rec_principal_id r = ''alice''"
proof -
  obtain r d where c: "commit demo_catalog ''s1'' ''alice'' 0 demo_request demo_created = Inr (r, d)"
    using demo_commit by blast
  have steps: "service_step\<^sup>*\<^sup>* demo_created d" using step_commit [OF c] by blast
  from session_evolution [OF demo_reach steps demo_state] steps show ?thesis by (auto simp: demo_record_def)
qed


theorem principal_isolation_witness:
  "get_session demo_created ''s1'' ''bob'' = Inl (session_error SE_PRINCIPAL_MISMATCH)"
  using principal_isolation [OF demo_reach demo_state, of "''bob''"] by (simp add: demo_record_def)

theorem fork_independent_witness:
  "\<exists>d rec d'. fork ''s1'' ''alice'' 1 ''s2'' 9 d = Inr (rec, d') \<and> session_state d' ''s2'' = Some rec \<and>
     session_state d' ''s1'' = session_state d ''s1'' \<and> rec_parent_session_id rec = Some ''s1''"
proof -
  obtain r d where d: "commit demo_catalog ''s1'' ''alice'' 0 demo_request demo_created = Inr (r, d)" "service_reach d"
    "session_state d ''s1'' = Some r" "rec_status r = COMMITTED" "rec_version r = 1" "rec_principal_id r = ''alice''"
    "rec_setup r = Some (committed_setup demo_catalog demo_request)" by (rule demo_committed)
  note inv = service_reach_inv [OF d(2)]
  have rs: "ruleset_by_id d (cs_ruleset_id (committed_setup demo_catalog demo_request)) \<noteq> None"
    by (rule commit_ruleset [OF sessions_inv_log [OF service_reach_inv [OF demo_reach]] d(1)])
  have "session_state demo_created ''s2'' = None" by code_simp
  moreover have "session_state d = (session_state demo_created)(''s1'' \<mapsto> r)"
    by (rule commit_spec [OF service_reach_inv [OF demo_reach] d(1)])
  ultimately have "session_state d ''s2'' = None" by simp
  then have none: "session_by_id d ''s2'' = None" using sessions_inv_dom [OF inv] by (metis domIff)
  have id: "validate_identity ''s2'' = Inr ()" by code_simp
  have "\<exists>rec d'. fork ''s1'' ''alice'' 1 ''s2'' 9 d = Inr (rec, d')"
    by (rule fork_progress [OF inv d(3) _ d(6,5,7) rs none _ _ id]) (simp_all add: d(4) range_defs)
  then obtain rec d' where f: "fork ''s1'' ''alice'' 1 ''s2'' 9 d = Inr (rec, d')" by blast
  from fork_independent [OF d(2) f] have "session_state d' ''s2'' = Some rec"
    "session_state d' ''s1'' = session_state d ''s1''" "rec_parent_session_id rec = Some ''s1''" by auto
  with f show ?thesis by blast
qed

theorem session_log_tamper_evident_witness:
  "\<exists>d. session_events d ''s1'' \<noteq> [] \<and>
     (map event_content (session_events d ''s1'') = map event_content (session_events d ''s1'') \<or> sha256_collision)"
proof -
  obtain r d where d: "service_reach d" "session_state d ''s1'' = Some r"
    "rec_setup r = Some (committed_setup demo_catalog demo_request)" by (rule demo_committed)
  have "session_events d ''s1'' \<noteq> []"
  proof
    assume "session_events d ''s1'' = []"
    then have "replay_log d ''s1'' = Inr (None, None, None)" by (simp add: replay_log_def)
    with d(2,3) show False using session_row [OF d(2)] by (metis Pair_inject option.simps(3) sum.inject(2))
  qed
  with session_log_tamper_evident [OF d(1,1) refl _ refl] show ?thesis by blast
qed

theorem commit_pins_eligible_manifest_witness:
  "\<exists>m. map_of (cat_manifests demo_catalog) demo_hash = Some m \<and>
     manifest_serves demo_catalog (commit_requirement demo_request) m \<and> has_data_at m 250"
proof -
  obtain r d where c: "commit demo_catalog ''s1'' ''alice'' 0 demo_request demo_created = Inr (r, d)"
    using demo_commit by blast
  from commit_pins_eligible_manifest [OF demo_reach demo_catalog_reach c] show ?thesis
    by (auto simp: committed_setup_def demo_request_def)
qed


end
