(* ===== verification/Auth.thy ===== *)
theory Auth
  imports Text
begin

text \<open>
  Authentication (\<^verbatim>\<open>auth/__init__.py\<close>) and the part of the HTTP layer every router shares:
  the principal, the local and the trusted-header authenticator, and \<open>_authenticate\<close>, which turns
  an authentication failure into status 401.

  Request headers are a lookup function. An outcome of a route is a value, an \<open>HTTPException\<close> with its
  status, or an exception the route lets through (answered by the framework with status 500).
\<close>

section \<open>Principals and authenticators\<close>

record Principal =
  p_principal_id :: string
  p_display_name :: string
  p_hosted :: bool

definition Principal_post_init :: "Principal \<Rightarrow> Principal res" where
  "Principal_post_init p =
     bindR (require (\<not> (p_principal_id p = [] \<or> p_display_name p = [])) ValueError) (\<lambda>_. Inr p)"

type_synonym headers = "string \<Rightarrow> string option"
type_synonym authenticator = "headers \<Rightarrow> Principal res"

definition LocalAuthenticator :: "string \<Rightarrow> string \<Rightarrow> authenticator" where
  "LocalAuthenticator principal_id display_name headers =
     Principal_post_init \<lparr>p_principal_id = principal_id, p_display_name = display_name, p_hosted = False\<rparr>"

definition header_value :: "headers \<Rightarrow> string \<Rightarrow> string" where
  "header_value headers name = strip (case headers name of None \<Rightarrow> [] | Some v \<Rightarrow> v)"

definition TrustedHeaderAuthenticator :: "string \<Rightarrow> string \<Rightarrow> authenticator" where
  "TrustedHeaderAuthenticator principal_header display_header headers =
     (let principal_id = header_value headers principal_header;
          display_name = header_value headers display_header
      in bindR (require (\<not> (principal_id = [] \<or> display_name = [])) AuthenticationError) (\<lambda>_.
      bindR (require (\<not> has_control principal_id) AuthenticationError) (\<lambda>_.
      Principal_post_init \<lparr>p_principal_id = principal_id, p_display_name = display_name, p_hosted = True\<rparr>)))"

section \<open>Routes\<close>

datatype http_failure = HTTPException nat | Unhandled exn

type_synonym 'a http = "http_failure + 'a"

definition bindH :: "'a http \<Rightarrow> ('a \<Rightarrow> 'b http) \<Rightarrow> 'b http" where
  "bindH m f = (case m of Inl e \<Rightarrow> Inl e | Inr x \<Rightarrow> f x)"

lemma bindH_simps [simp]: "bindH (Inl e) f = Inl e" "bindH (Inr x) f = f x"
  by (simp_all add: bindH_def)

lemma bindH_eq_Inr [simp]: "bindH m f = Inr y \<longleftrightarrow> (\<exists>x. m = Inr x \<and> f x = Inr y)"
  by (cases m) simp_all

text \<open>\<^verbatim>\<open>try: ... except ...Error as error: raise _http_error(error)\<close>.\<close>

definition catchH :: "(exn \<Rightarrow> http_failure) \<Rightarrow> 'a res \<Rightarrow> 'a http" where
  "catchH http_error m = (case m of Inl e \<Rightarrow> Inl (http_error e) | Inr x \<Rightarrow> Inr x)"

lemma catchH_simps [simp]: "catchH h (Inl e) = Inl (h e)" "catchH h (Inr x) = Inr x"
  "catchH h m = Inr y \<longleftrightarrow> m = Inr y"
  by (simp_all add: catchH_def split: sum.splits)

definition authenticate_request :: "authenticator \<Rightarrow> headers \<Rightarrow> string http" where
  "authenticate_request authenticator headers =
     (case authenticator headers of
        Inl e \<Rightarrow> Inl (if e = AuthenticationError then HTTPException 401 else Unhandled e)
      | Inr p \<Rightarrow> Inr (p_principal_id p))"

section \<open>What an authenticator promises\<close>

text \<open>The contract routes rely on: whoever is let through has a non-empty identity.\<close>

locale identity_provider =
  fixes authenticate :: authenticator
  assumes identified: "authenticate hs = Inr p \<Longrightarrow> p_principal_id p \<noteq> [] \<and> p_display_name p \<noteq> []"
begin

lemma request_identified: "authenticate_request authenticate hs = Inr i \<Longrightarrow> i \<noteq> []"
  using identified [of hs] by (auto simp: authenticate_request_def split: sum.splits)

lemma request_anonymous:
  assumes "authenticate hs = Inl AuthenticationError"
  shows "bindH (authenticate_request authenticate hs) f = Inl (HTTPException 401)"
  using assms by (simp add: authenticate_request_def)

end

lemma Principal_post_init_iff:
  "Principal_post_init p = Inr q \<longleftrightarrow> q = p \<and> p_principal_id p \<noteq> [] \<and> p_display_name p \<noteq> []"
  by (auto simp: Principal_post_init_def)

interpretation local_user: identity_provider "LocalAuthenticator i n"
  by unfold_locales (auto simp: LocalAuthenticator_def Principal_post_init_iff)

interpretation trusted_header: identity_provider "TrustedHeaderAuthenticator ph dh"
  by unfold_locales (auto simp: TrustedHeaderAuthenticator_def Principal_post_init_iff Let_def)

text \<open>Behind the trusted gateway a request is authenticated exactly when both identity headers are
  non-empty after trimming and the principal header holds no NUL, carriage return or line feed; the principal is
  then the trimmed header, and every other request is refused as unauthenticated.\<close>

theorem trusted_header_exact:
  "TrustedHeaderAuthenticator ph dh hs =
     (if header_value hs ph \<noteq> [] \<and> header_value hs dh \<noteq> [] \<and> \<not> has_control (header_value hs ph)
      then Inr \<lparr>p_principal_id = header_value hs ph, p_display_name = header_value hs dh, p_hosted = True\<rparr>
      else Inl AuthenticationError)"
  by (auto simp: TrustedHeaderAuthenticator_def Principal_post_init_def Let_def require_def)

end
