(* ===== verification/Commands.thy ===== *)
theory Commands
  imports Session_Lifecycle Auth
begin

text \<open>
  Trading commands (\<^verbatim>\<open>commands/model.py\<close>, \<^verbatim>\<open>commands/service.py\<close>,
  \<^verbatim>\<open>commands/store.py\<close>, \<^verbatim>\<open>commands/router.py\<close>): canonical decimal texts, strict field
  readers, preparation of the canonical payload, resolution of quote shortcuts, idempotent
  acceptance, and the HTTP mapping.

  A request body is an association list of JSON values. The visible quote comes from a resolver,
  which is an argument here; the locale \<open>quote_provider\<close> states what it promises and is
  interpreted on the market service. The clock is an argument too.
\<close>

section \<open>Model\<close>

abbreviation command_error :: "command_code \<Rightarrow> exn" where
  "command_error \<equiv> CommandServiceError"

abbreviation invalid_command :: exn where
  "invalid_command \<equiv> CommandServiceError CE_INVALID_COMMAND"

datatype PriceReference = REF_BID | REF_ASK | REF_MIDPOINT

fun PriceReference_value :: "PriceReference \<Rightarrow> string" where
  "PriceReference_value REF_BID = ''BID''"
| "PriceReference_value REF_ASK = ''ASK''"
| "PriceReference_value REF_MIDPOINT = ''MIDPOINT''"

definition PriceReference_of :: "string \<Rightarrow> PriceReference res" where
  "PriceReference_of = enum_of [REF_BID, REF_ASK, REF_MIDPOINT] PriceReference_value"

record VisibleQuote =
  q_event_id :: string
  q_bid_price_atoms :: int
  q_ask_price_atoms :: int

definition validate_positive_i64 :: "int \<Rightarrow> unit res" where
  "validate_positive_i64 value = require (\<not> (value \<le> 0 \<or> I64_MAX < value)) ValueError"

definition VisibleQuote_post_init :: "VisibleQuote \<Rightarrow> unit res" where
  "VisibleQuote_post_init q =
     bindR (require (q_event_id q \<noteq> []) ValueError) (\<lambda>_.
     bindR (validate_positive_i64 (q_bid_price_atoms q)) (\<lambda>_.
     bindR (validate_positive_i64 (q_ask_price_atoms q)) (\<lambda>_.
     require (q_bid_price_atoms q < q_ask_price_atoms q) ValueError)))"

record AcceptedCommand =
  ac_command_id :: string
  ac_session_id :: string
  ac_idempotency_key :: string
  ac_payload_hash :: string
  ac_expected_session_version :: int
  ac_resulting_session_version :: int
  ac_accepted_at_ns :: int
  ac_payload :: fields
  ac_replayed :: bool

record PreparedCommand =
  pc_payload :: fields
  pc_payload_hash :: string

definition command_canonical_json :: "json \<Rightarrow> string res" where
  "command_canonical_json value =
     bindR (require (no_float value) invalid_command) (\<lambda>_. Inr (dumps value))"

definition canonical_payload_hash :: "fields \<Rightarrow> string res" where
  "canonical_payload_hash payload =
     bindR (command_canonical_json (JObj payload)) (\<lambda>text. Inr (sha256_hex (utf8 text)))"

definition canonical_u64_text :: "json \<Rightarrow> bool \<Rightarrow> string res" where
  "canonical_u64_text v positive =
     (case v of JStr value \<Rightarrow>
        bindR (require (value \<noteq> []) invalid_command) (\<lambda>_.
        bindR (require (\<not> (startswith value ''+'' \<or> startswith value ''-'' \<or>
            startswith value ''0'' \<and> value \<noteq> ''0'')) invalid_command) (\<lambda>_.
        bindR (require (isascii value \<and> isdigit value) invalid_command) (\<lambda>_.
        bindR (py_int value) (\<lambda>parsed.
        bindR (require (\<not> (U64_MAX < parsed \<or> positive \<and> parsed = 0)) invalid_command) (\<lambda>_.
        Inr value)))))
      | _ \<Rightarrow> Inl invalid_command)"

definition canonical_i64_text :: "json \<Rightarrow> bool \<Rightarrow> string res" where
  "canonical_i64_text v positive =
     (case v of JStr value \<Rightarrow>
        bindR (require (\<not> (value = [] \<or> startswith value ''+'' \<or> value = ''-0'')) invalid_command) (\<lambda>_.
        let digits = (if startswith value ''-'' then tl value else value)
        in bindR (require (\<not> (digits = [] \<or> \<not> isascii digits \<or> \<not> isdigit digits \<or>
            startswith digits ''0'' \<and> digits \<noteq> ''0'')) invalid_command) (\<lambda>_.
        bindR (py_int value) (\<lambda>parsed.
        bindR (require (\<not> (parsed < I64_MIN \<or> I64_MAX < parsed \<or> positive \<and> parsed \<le> 0)) invalid_command) (\<lambda>_.
        Inr value))))
      | _ \<Rightarrow> Inl invalid_command)"

definition require_string :: "fields \<Rightarrow> string \<Rightarrow> string res" where
  "require_string fs name =
     (case jget fs name of JStr value \<Rightarrow>
        bindR (require (value \<noteq> []) invalid_command) (\<lambda>_.
        bindR (require (\<not> has_control value) invalid_command) (\<lambda>_. Inr value))
      | _ \<Rightarrow> Inl invalid_command)"

definition optional_bool :: "fields \<Rightarrow> string \<Rightarrow> bool res" where
  "optional_bool fs name =
     (case map_of fs name of None \<Rightarrow> Inr False | Some (JBool b) \<Rightarrow> Inr b | Some _ \<Rightarrow> Inl invalid_command)"

definition reject_unknown :: "fields \<Rightarrow> string list \<Rightarrow> unit res" where
  "reject_unknown fs allowed = require (list_all (\<lambda>(k, v). k \<in> set allowed) fs) invalid_command"

section \<open>Store\<close>

definition command_identity_ok :: "string \<Rightarrow> unit res" where
  "command_identity_ok value = require (\<not> (value = [] \<or> has_control value)) invalid_command"

definition validate_idempotency_key :: "string \<Rightarrow> unit res" where
  "validate_idempotency_key value =
     require (\<not> (value = [] \<or> 200 < length value \<or> has_control value)) invalid_command"

definition command_validate_version :: "int \<Rightarrow> unit res" where
  "command_validate_version value = require (in_u64 value) invalid_command"

definition command_validate_i64 :: "int \<Rightarrow> unit res" where
  "command_validate_i64 value = require (in_i64 value) invalid_command"

definition command_id_of :: "string \<Rightarrow> string \<Rightarrow> string \<Rightarrow> string" where
  "command_id_of session_id idempotency_key payload_hash =
     ''cmd_'' @ sha256_hex (utf8 (''TRL-COMMAND-ID-v1'' @ [CHR 0x5C, CHR ''0''] @ dumps (JObj
       [(''idempotency_key'', JStr idempotency_key), (''payload_hash'', JStr payload_hash),
        (''session_id'', JStr session_id)])))"

fun command_mapping :: "json \<Rightarrow> fields res" where
  "command_mapping (JObj fs) = Inr fs"
| "command_mapping _ = Inl (command_error CE_DATABASE_CONFLICT)"

definition command_materialize :: "command_row \<Rightarrow> bool \<Rightarrow> AcceptedCommand res" where
  "command_materialize row replayed =
     bindR (command_mapping (c_payload_json row)) (\<lambda>payload.
     Inr \<lparr>ac_command_id = c_command_id row, ac_session_id = c_session_id row,
          ac_idempotency_key = c_idempotency_key row, ac_payload_hash = c_payload_hash row,
          ac_expected_session_version = c_expected_session_version row,
          ac_resulting_session_version = c_expected_session_version row + 1,
          ac_accepted_at_ns = c_accepted_at_ns row, ac_payload = payload, ac_replayed = replayed\<rparr>)"

definition find_command :: "db \<Rightarrow> string \<Rightarrow> string \<Rightarrow> command_row option" where
  "find_command d session_id idempotency_key =
     find (\<lambda>r. c_session_id r = session_id \<and> c_idempotency_key r = idempotency_key) (db_commands d)"

definition accept_body ::
    "string \<Rightarrow> string \<Rightarrow> string \<Rightarrow> int \<Rightarrow> int \<Rightarrow> PreparedCommand \<Rightarrow> AcceptedCommand tx" where
  "accept_body session_id principal_id idempotency_key expected_session_version accepted_at_ns prepared d =
     (case session_by_id d session_id of None \<Rightarrow> Inl (command_error CE_SESSION_NOT_FOUND)
      | Some session \<Rightarrow>
      bindR (require (s_principal_id session = principal_id) (command_error CE_PRINCIPAL_MISMATCH)) (\<lambda>_.
      case find_command d session_id idempotency_key of
        Some existing \<Rightarrow>
          bindR (require (c_payload_hash existing = pc_payload_hash prepared)
            (command_error CE_IDEMPOTENCY_CONFLICT)) (\<lambda>_.
          bindR (command_materialize existing True) (\<lambda>a. Inr (a, d)))
      | None \<Rightarrow>
          bindR (require (s_status session = SessionStatus_value RUNNING)
            (command_error CE_SESSION_NOT_RUNNING)) (\<lambda>_.
          bindR (require (s_version session = expected_session_version)
            (command_error CE_VERSION_CONFLICT)) (\<lambda>_.
          bindR (require (expected_session_version + 1 \<le> U64_MAX)
            (command_error CE_VERSION_CONFLICT)) (\<lambda>_.
          let command_id = command_id_of session_id idempotency_key (pc_payload_hash prepared)
          in bindR (update_sessions
              (\<lambda>r. s_session_id r = session_id \<and> s_version r = expected_session_version \<and>
                   s_status r = SessionStatus_value RUNNING)
              (\<lambda>r. r\<lparr>s_version := expected_session_version + 1\<rparr>) d) (\<lambda>(rowcount, d).
          bindR (require (rowcount = 1) (command_error CE_VERSION_CONFLICT)) (\<lambda>_.
          bindR (insert_command
              \<lparr>c_command_id = command_id, c_session_id = session_id,
               c_idempotency_key = idempotency_key, c_payload_hash = pc_payload_hash prepared,
               c_expected_session_version = expected_session_version,
               c_accepted_at_ns = accepted_at_ns, c_payload_json = JObj (pc_payload prepared)\<rparr> d) (\<lambda>d.
          Inr (\<lparr>ac_command_id = command_id, ac_session_id = session_id,
                ac_idempotency_key = idempotency_key, ac_payload_hash = pc_payload_hash prepared,
                ac_expected_session_version = expected_session_version,
                ac_resulting_session_version = expected_session_version + 1,
                ac_accepted_at_ns = accepted_at_ns, ac_payload = pc_payload prepared,
                ac_replayed = False\<rparr>, d)))))))))"

definition accept ::
    "string \<Rightarrow> string \<Rightarrow> string \<Rightarrow> int \<Rightarrow> int \<Rightarrow> PreparedCommand \<Rightarrow> AcceptedCommand tx" where
  "accept session_id principal_id idempotency_key expected_session_version accepted_at_ns prepared d =
     bindR (command_identity_ok session_id) (\<lambda>_.
     bindR (command_identity_ok principal_id) (\<lambda>_.
     bindR (validate_idempotency_key idempotency_key) (\<lambda>_.
     bindR (command_validate_version expected_session_version) (\<lambda>_.
     bindR (command_validate_i64 accepted_at_ns) (\<lambda>_.
     catchR (accept_body session_id principal_id idempotency_key expected_session_version
       accepted_at_ns prepared d) is_IntegrityError (command_error CE_DATABASE_CONFLICT))))))"

definition get_command :: "db \<Rightarrow> string \<Rightarrow> string \<Rightarrow> string \<Rightarrow> AcceptedCommand res" where
  "get_command d session_id principal_id command_id =
     bindR (command_identity_ok session_id) (\<lambda>_.
     bindR (command_identity_ok principal_id) (\<lambda>_.
     bindR (command_identity_ok command_id) (\<lambda>_.
     case session_by_id d session_id of None \<Rightarrow> Inl (command_error CE_SESSION_NOT_FOUND)
     | Some session \<Rightarrow>
     bindR (require (s_principal_id session = principal_id) (command_error CE_PRINCIPAL_MISMATCH)) (\<lambda>_.
     case find (\<lambda>r. c_session_id r = session_id \<and> c_command_id r = command_id) (db_commands d) of
       None \<Rightarrow> Inl (command_error CE_COMMAND_NOT_FOUND)
     | Some row \<Rightarrow> command_materialize row False))))"

section \<open>Service\<close>

definition order_fields :: "string list" where
  "order_fields = [''instrument_id'', ''side'', ''quantity_atoms'', ''order_type'', ''limit_price_atoms'',
     ''stop_price_atoms'', ''price_reference'', ''time_in_force'', ''reduce_only'', ''post_only'',
     ''marketable_only'']"

definition replace_fields :: "string list" where
  "replace_fields = [''quantity_atoms'', ''limit_price_atoms'', ''stop_price_atoms'', ''time_in_force'',
     ''reduce_only'', ''post_only'', ''marketable_only'']"

type_synonym resolver = "string \<Rightarrow> string \<Rightarrow> VisibleQuote option res"

definition enum_string :: "fields \<Rightarrow> string \<Rightarrow> string list \<Rightarrow> string res" where
  "enum_string fs name allowed =
     (case jget fs name of JStr value \<Rightarrow> if value \<in> set allowed then Inr value else Inl invalid_command
      | _ \<Rightarrow> Inl invalid_command)"

fun reference_price :: "VisibleQuote \<Rightarrow> string \<Rightarrow> PriceReference \<Rightarrow> int" where
  "reference_price quote side REF_BID = q_bid_price_atoms quote"
| "reference_price quote side REF_ASK = q_ask_price_atoms quote"
| "reference_price quote side REF_MIDPOINT =
     (let total = q_bid_price_atoms quote + q_ask_price_atoms quote
      in if side = ''BUY'' then total div 2 else (total + 1) div 2)"

definition resolve_reference ::
    "resolver \<Rightarrow> string \<Rightarrow> string \<Rightarrow> string \<Rightarrow> json \<Rightarrow> (int \<times> string \<times> string) res" where
  "resolve_reference current_quote session_id principal_id side raw_reference =
     (case raw_reference of JStr raw \<Rightarrow>
        bindR (catchR (PriceReference_of raw) is_ValueError invalid_command) (\<lambda>reference.
        bindR (current_quote session_id principal_id) (\<lambda>quote.
        case quote of None \<Rightarrow> Inl (command_error CE_QUOTE_UNAVAILABLE)
        | Some q \<Rightarrow> Inr (reference_price q side reference, q_event_id q, PriceReference_value reference)))
      | _ \<Rightarrow> Inl invalid_command)"

definition limit_bearing :: "string list" where
  "limit_bearing = [''LIMIT'', ''STOP_LIMIT'']"

definition stop_bearing :: "string list" where
  "stop_bearing = [''STOP_MARKET'', ''STOP_LIMIT'']"

definition resolve_prices ::
    "resolver \<Rightarrow> string \<Rightarrow> string \<Rightarrow> string \<Rightarrow> string \<Rightarrow> fields \<Rightarrow> fields \<Rightarrow> fields res" where
  "resolve_prices current_quote session_id principal_id side order_type request payload =
     (let reference = jget request ''price_reference'';
          limit_raw = jget request ''limit_price_atoms'';
          stop_raw = jget request ''stop_price_atoms''
      in bindR (require (\<not> (reference \<noteq> JNull \<and> limit_raw \<noteq> JNull)) invalid_command) (\<lambda>_.
      bindR
        (if reference \<noteq> JNull then
           bindR (require (order_type \<in> set limit_bearing) invalid_command) (\<lambda>_.
           bindR (resolve_reference current_quote session_id principal_id side reference)
             (\<lambda>(resolved, event_id, reference_name).
           Inr (AList.update ''quote_event_id'' (JStr event_id)
             (AList.update ''price_reference'' (JStr reference_name)
             (AList.update ''limit_price_atoms'' (JStr (str_int resolved)) payload)))))
         else if order_type \<in> set limit_bearing then
           bindR (canonical_i64_text limit_raw True) (\<lambda>text.
           Inr (AList.update ''limit_price_atoms'' (JStr text) payload))
         else if limit_raw \<noteq> JNull then Inl invalid_command
         else Inr payload) (\<lambda>payload.
      if order_type \<in> set stop_bearing then
        bindR (canonical_i64_text stop_raw True) (\<lambda>text.
        Inr (AList.update ''stop_price_atoms'' (JStr text) payload))
      else if stop_raw \<noteq> JNull then Inl invalid_command
      else Inr payload)))"

definition prepare_order :: "resolver \<Rightarrow> string \<Rightarrow> string \<Rightarrow> fields \<Rightarrow> PreparedCommand res" where
  "prepare_order current_quote session_id principal_id request =
     bindR (reject_unknown request order_fields) (\<lambda>_.
     bindR (require_string request ''instrument_id'') (\<lambda>instrument_id.
     bindR (enum_string request ''side'' [''BUY'', ''SELL'']) (\<lambda>side.
     bindR (canonical_u64_text (jget request ''quantity_atoms'') True) (\<lambda>quantity.
     bindR (enum_string request ''order_type'' [''MARKET'', ''LIMIT'', ''STOP_MARKET'', ''STOP_LIMIT'']) (\<lambda>order_type.
     bindR (enum_string request ''time_in_force'' [''GTC'', ''IOC'', ''FOK'']) (\<lambda>time_in_force.
     bindR (optional_bool request ''reduce_only'') (\<lambda>reduce_only.
     bindR (optional_bool request ''post_only'') (\<lambda>post_only.
     bindR (optional_bool request ''marketable_only'') (\<lambda>marketable_only.
     bindR (require (\<not> (post_only \<and> order_type \<notin> set limit_bearing)) invalid_command) (\<lambda>_.
     bindR (resolve_prices current_quote session_id principal_id side order_type request
       [(''command_type'', JStr ''SUBMIT_ORDER''), (''instrument_id'', JStr instrument_id),
        (''side'', JStr side), (''quantity_atoms'', JStr quantity), (''order_type'', JStr order_type),
        (''time_in_force'', JStr time_in_force), (''reduce_only'', JBool reduce_only),
        (''post_only'', JBool post_only), (''marketable_only'', JBool marketable_only)]) (\<lambda>payload.
     bindR (canonical_payload_hash payload) (\<lambda>h.
     Inr \<lparr>pc_payload = payload, pc_payload_hash = h\<rparr>))))))))))))"

definition accept_payload :: "string \<Rightarrow> string \<Rightarrow> string \<Rightarrow> int \<Rightarrow> int \<Rightarrow> fields \<Rightarrow> AcceptedCommand tx" where
  "accept_payload session_id principal_id idempotency_key expected_session_version now_ns payload d =
     bindR (canonical_payload_hash payload) (\<lambda>h.
     accept session_id principal_id idempotency_key expected_session_version now_ns
       \<lparr>pc_payload = payload, pc_payload_hash = h\<rparr> d)"

definition submit_order ::
    "resolver \<Rightarrow> int \<Rightarrow> string \<Rightarrow> string \<Rightarrow> string \<Rightarrow> int \<Rightarrow> fields \<Rightarrow> AcceptedCommand tx" where
  "submit_order current_quote now_ns session_id principal_id idempotency_key expected_session_version request d =
     bindR (prepare_order current_quote session_id principal_id request) (\<lambda>prepared.
     accept session_id principal_id idempotency_key expected_session_version now_ns prepared d)"

definition safe_identifier :: "string \<Rightarrow> unit res" where
  "safe_identifier value = require (\<not> (value = [] \<or> has_control value)) invalid_command"

definition cancel_order ::
    "int \<Rightarrow> string \<Rightarrow> string \<Rightarrow> string \<Rightarrow> int \<Rightarrow> string \<Rightarrow> fields \<Rightarrow> AcceptedCommand tx" where
  "cancel_order now_ns session_id principal_id idempotency_key expected_session_version order_id request d =
     bindR (reject_unknown request []) (\<lambda>_.
     bindR (safe_identifier order_id) (\<lambda>_.
     accept_payload session_id principal_id idempotency_key expected_session_version now_ns
       [(''command_type'', JStr ''CANCEL_ORDER''), (''order_id'', JStr order_id)] d))"

definition copy_if :: "fields \<Rightarrow> string \<Rightarrow> json res \<Rightarrow> fields \<Rightarrow> fields res" where
  "copy_if request name value payload =
     (if jhas request name then bindR value (\<lambda>v. Inr (AList.update name v payload)) else Inr payload)"

definition copy_order_mutations :: "fields \<Rightarrow> fields \<Rightarrow> fields res" where
  "copy_order_mutations request payload =
     bindR (copy_if request ''quantity_atoms''
       (bindR (canonical_u64_text (jget request ''quantity_atoms'') True) (\<lambda>t. Inr (JStr t))) payload) (\<lambda>payload.
     bindR (copy_if request ''time_in_force''
       (bindR (enum_string request ''time_in_force'' [''GTC'', ''IOC'', ''FOK'']) (\<lambda>t. Inr (JStr t))) payload) (\<lambda>payload.
     bindR (copy_if request ''reduce_only'' (bindR (optional_bool request ''reduce_only'') (\<lambda>b. Inr (JBool b))) payload) (\<lambda>payload.
     bindR (copy_if request ''post_only'' (bindR (optional_bool request ''post_only'') (\<lambda>b. Inr (JBool b))) payload) (\<lambda>payload.
     bindR (copy_if request ''marketable_only'' (bindR (optional_bool request ''marketable_only'') (\<lambda>b. Inr (JBool b))) payload) (\<lambda>payload.
     bindR (copy_if request ''limit_price_atoms''
       (bindR (canonical_i64_text (jget request ''limit_price_atoms'') True) (\<lambda>t. Inr (JStr t))) payload) (\<lambda>payload.
     copy_if request ''stop_price_atoms''
       (bindR (canonical_i64_text (jget request ''stop_price_atoms'') True) (\<lambda>t. Inr (JStr t))) payload))))))"

definition replace_order ::
    "int \<Rightarrow> string \<Rightarrow> string \<Rightarrow> string \<Rightarrow> int \<Rightarrow> string \<Rightarrow> fields \<Rightarrow> AcceptedCommand tx" where
  "replace_order now_ns session_id principal_id idempotency_key expected_session_version order_id request d =
     bindR (safe_identifier order_id) (\<lambda>_.
     bindR (reject_unknown request replace_fields) (\<lambda>_.
     bindR (require (request \<noteq> []) invalid_command) (\<lambda>_.
     bindR (copy_order_mutations request
       [(''command_type'', JStr ''REPLACE_ORDER''), (''order_id'', JStr order_id)]) (\<lambda>payload.
     accept_payload session_id principal_id idempotency_key expected_session_version now_ns payload d))))"

definition set_leverage ::
    "int \<Rightarrow> string \<Rightarrow> string \<Rightarrow> string \<Rightarrow> int \<Rightarrow> fields \<Rightarrow> AcceptedCommand tx" where
  "set_leverage now_ns session_id principal_id idempotency_key expected_session_version request d =
     bindR (reject_unknown request [''leverage'']) (\<lambda>_.
     case jget request ''leverage'' of JInt leverage \<Rightarrow>
       if 1 \<le> leverage \<and> leverage \<le> 50 then
         accept_payload session_id principal_id idempotency_key expected_session_version now_ns
           [(''command_type'', JStr ''SET_LEVERAGE''), (''leverage'', JInt leverage)] d
       else Inl invalid_command
     | _ \<Rightarrow> Inl invalid_command)"

section \<open>HTTP mapping\<close>

fun command_http_status :: "command_code \<Rightarrow> nat" where
  "command_http_status CE_INVALID_COMMAND = 422"
| "command_http_status CE_SESSION_NOT_FOUND = 404"
| "command_http_status CE_PRINCIPAL_MISMATCH = 404"
| "command_http_status CE_SESSION_NOT_RUNNING = 409"
| "command_http_status CE_VERSION_CONFLICT = 409"
| "command_http_status CE_IDEMPOTENCY_CONFLICT = 409"
| "command_http_status CE_COMMAND_NOT_FOUND = 404"
| "command_http_status CE_QUOTE_UNAVAILABLE = 409"
| "command_http_status CE_DATABASE_CONFLICT = 409"

fun command_http_error :: "exn \<Rightarrow> http_failure" where
  "command_http_error (CommandServiceError code) = HTTPException (command_http_status code)"
| "command_http_error e = Unhandled e"

definition command_version_header :: "string \<Rightarrow> int res" where
  "command_version_header raw = bindR (canonical_u64_text (JStr raw) False) py_int"

definition command_response :: "AcceptedCommand \<Rightarrow> fields" where
  "command_response a =
     [(''command_id'', JStr (ac_command_id a)), (''session_id'', JStr (ac_session_id a)),
      (''idempotency_key'', JStr (ac_idempotency_key a)), (''payload_hash'', JStr (ac_payload_hash a)),
      (''expected_session_version'', JStr (str_int (ac_expected_session_version a))),
      (''resulting_session_version'', JStr (str_int (ac_resulting_session_version a))),
      (''accepted_at_ns'', JStr (str_int (ac_accepted_at_ns a))),
      (''payload'', JObj (ac_payload a)), (''replayed'', JBool (ac_replayed a))]"

text \<open>\<open>_authenticate\<close>, \<open>_version\<close> and \<open>_invoke\<close> around one service call.\<close>

definition command_route ::
    "authenticator \<Rightarrow> headers \<Rightarrow> string \<Rightarrow> (string \<Rightarrow> int \<Rightarrow> AcceptedCommand tx) \<Rightarrow> db \<Rightarrow> (fields \<times> db) http" where
  "command_route authenticator headers raw_version call d =
     bindH (authenticate_request authenticator headers) (\<lambda>principal_id.
     bindH (catchH command_http_error (command_version_header raw_version)) (\<lambda>version.
     bindH (catchH command_http_error (call principal_id version d)) (\<lambda>(a, d').
     Inr (command_response a, d'))))"

definition submit_order_route where
  "submit_order_route authenticator current_quote now_ns headers session_id idempotency_key raw_version body =
     command_route authenticator headers raw_version (\<lambda>principal_id version.
       submit_order current_quote now_ns session_id principal_id idempotency_key version body)"

definition cancel_order_route where
  "cancel_order_route authenticator now_ns headers session_id order_id idempotency_key raw_version body =
     command_route authenticator headers raw_version (\<lambda>principal_id version.
       cancel_order now_ns session_id principal_id idempotency_key version order_id body)"

definition replace_order_route where
  "replace_order_route authenticator now_ns headers session_id order_id idempotency_key raw_version body =
     command_route authenticator headers raw_version (\<lambda>principal_id version.
       replace_order now_ns session_id principal_id idempotency_key version order_id body)"

definition set_leverage_route where
  "set_leverage_route authenticator now_ns headers session_id idempotency_key raw_version body =
     command_route authenticator headers raw_version (\<lambda>principal_id version.
       set_leverage now_ns session_id principal_id idempotency_key version body)"

definition get_command_route :: "authenticator \<Rightarrow> headers \<Rightarrow> string \<Rightarrow> string \<Rightarrow> db \<Rightarrow> fields http" where
  "get_command_route authenticator headers session_id command_id d =
     bindH (authenticate_request authenticator headers) (\<lambda>principal_id.
     bindH (catchH command_http_error (get_command d session_id principal_id command_id)) (\<lambda>a.
     Inr (command_response a)))"

section \<open>Canonical decimal texts\<close>

lemma canonical_u64_text_iff:
  "canonical_u64_text v positive = Inr t \<longleftrightarrow>
     (\<exists>n. v = JStr t \<and> t = str_int n \<and> in_u64 n \<and> (positive \<longrightarrow> 0 < n))"
  (is "?L \<longleftrightarrow> ?R")
proof
  assume ?L
  then obtain n where v: "v = JStr t" and n: "py_int t = Inr n" "n \<le> U64_MAX" "positive \<longrightarrow> n \<noteq> 0"
    and t: "isascii t \<and> isdigit t" "startswith t ''0'' \<longrightarrow> t = ''0''"
    by (auto simp: canonical_u64_text_def split: json.splits)
  have "signed_canonical t" by (rule canonical_from_isdigit [OF _ n(1) t(2)]) (use t(1) in simp)
  then have "t = str_int n" by (rule py_int_signed [OF _ n(1)])
  moreover have "0 \<le> n"
  proof -
    have "t \<noteq> []" "list_all ascii_digit t" using t(1) isascii_isdigit [of t] by blast+
    with n(1) show ?thesis by (auto simp: py_int_digits split: if_splits)
  qed
  ultimately show ?R using v n by (auto simp: in_u64_def)
next
  assume ?R
  then obtain n where n: "v = JStr t" "t = str_int n" "in_u64 n" "positive \<longrightarrow> 0 < n" by blast
  then have t: "t = dec (nat n)" by (simp add: str_int_def in_u64_def)
  have "py_int (dec (nat n)) = Inr n" using py_int_str_u64 [OF n(3)] n(2) t by simp
  with n(3,4) show ?L by (auto simp: canonical_u64_text_def in_u64_def n(1) t)
qed

lemma canonical_i64_text_iff:
  "canonical_i64_text v positive = Inr t \<longleftrightarrow>
     (\<exists>n. v = JStr t \<and> t = str_int n \<and> in_i64 n \<and> (positive \<longrightarrow> 0 < n))"
  (is "?L \<longleftrightarrow> ?R")
proof
  assume ?L
  then obtain n where v: "v = JStr t" and n: "py_int t = Inr n" "I64_MIN \<le> n" "n \<le> I64_MAX" "positive \<longrightarrow> 0 < n"
    and t: "t \<noteq> ''-0''"
      "isdigit (if startswith t ''-'' then tl t else t)"
      "startswith (if startswith t ''-'' then tl t else t) ''0'' \<longrightarrow> (if startswith t ''-'' then tl t else t) = ''0''"
    by (auto simp: canonical_i64_text_def Let_def split: json.splits)
  have "signed_canonical t"
  proof (cases "startswith t ''-''")
    case True
    then obtain s where s: "t = CHR ''-'' # s" by (cases t) auto
    show ?thesis unfolding s
      by (rule canonical_from_minus_isdigit) (use t n(1) s in auto)
  next
    case False
    then show ?thesis using t n(1) by (intro canonical_from_isdigit) auto
  qed
  then have "t = str_int n" by (rule py_int_signed [OF _ n(1)])
  with v n show ?R by (auto simp: in_i64_def)
next
  assume ?R
  then obtain n where n: "v = JStr t" "t = str_int n" "in_i64 n" "positive \<longrightarrow> 0 < n" by blast
  then show ?L
    using py_int_str_i64 [of n] by (auto simp: canonical_i64_text_def in_i64_def Let_def str_int_def)
qed

interpretation version_header: canonical_decimal command_version_header 0 U64_MAX
proof unfold_locales
  fix n :: int
  assume "0 \<le> n" "n \<le> U64_MAX"
  then have "in_u64 n" by (simp add: in_u64_def)
  then have "canonical_u64_text (JStr (str_int n)) False = Inr (str_int n)"
    by (auto simp: canonical_u64_text_iff)
  with \<open>in_u64 n\<close> show "command_version_header (str_int n) = Inr n"
    by (simp add: command_version_header_def py_int_str_u64)
next
  fix s n
  assume "command_version_header s = Inr n"
  then obtain t where t: "canonical_u64_text (JStr s) False = Inr t" "py_int t = Inr n"
    by (auto simp: command_version_header_def)
  from t(1) obtain m where m: "s = t" "t = str_int m" "in_u64 m" unfolding canonical_u64_text_iff by blast
  with t(2) py_int_str_u64 [OF m(3)] show "s = str_int n \<and> 0 \<le> n \<and> n \<le> U64_MAX"
    by (auto simp: in_u64_def)
qed

section \<open>Acceptance\<close>

lemma accept_cases [consumes 2, case_names retry fresh]:
  assumes "keys_ok d" and "accept i p k v ts pc d = Inr (a, d')"
  obtains (retry) row fs where "d' = d" and "find_command d i k = Some row"
      and "c_payload_hash row = pc_payload_hash pc" and "c_payload_json row = JObj fs"
      and "command_materialize row True = Inr a"
      and "\<exists>s. session_by_id d i = Some s \<and> s_principal_id s = p"
  | (fresh) s where "find_command d i k = None" and "session_by_id d i = Some s" and "s_principal_id s = p"
      and "s_status s = SessionStatus_value RUNNING" and "s_version s = v" and "in_u64 v" and "v + 1 \<le> U64_MAX" and "in_i64 ts"
      and "a = \<lparr>ac_command_id = command_id_of i k (pc_payload_hash pc), ac_session_id = i,
             ac_idempotency_key = k, ac_payload_hash = pc_payload_hash pc, ac_expected_session_version = v,
             ac_resulting_session_version = v + 1, ac_accepted_at_ns = ts, ac_payload = pc_payload pc,
             ac_replayed = False\<rparr>"
      and "session_by_id d' = (session_by_id d)(i \<mapsto> s\<lparr>s_version := v + 1\<rparr>)" and "keys_ok d'"
      and "db_commands d' = db_commands d @ [\<lparr>c_command_id = command_id_of i k (pc_payload_hash pc),
             c_session_id = i, c_idempotency_key = k, c_payload_hash = pc_payload_hash pc,
             c_expected_session_version = v, c_accepted_at_ns = ts, c_payload_json = JObj (pc_payload pc)\<rparr>]"
      and "list_all (\<lambda>q. c_command_id q \<noteq> command_id_of i k (pc_payload_hash pc)) (db_commands d)"
      and "d' = d\<lparr>db_sessions := db_sessions d', db_commands := db_commands d'\<rparr>" and "rows_ok d \<Longrightarrow> rows_ok d'"
proof -
  from assms(2) have body: "accept_body i p k v ts pc d = Inr (a, d')" and vts: "in_u64 v" "in_i64 ts"
    by (auto simp: accept_def command_validate_version_def command_validate_i64_def)
  then obtain s where s: "session_by_id d i = Some s" "s_principal_id s = p"
    by (auto simp: accept_body_def case_option_Inr)
  show ?thesis
  proof (cases "find_command d i k")
    case (Some row)
    with body s have "c_payload_hash row = pc_payload_hash pc" "command_materialize row True = Inr a" "d' = d"
      by (auto simp: accept_body_def)
    moreover from this(2) obtain fs where "c_payload_json row = JObj fs"
      by (cases "c_payload_json row") (auto simp: command_materialize_def)
    ultimately show ?thesis using Some s retry by blast
  next
    case None
    let ?f = "\<lambda>r. r\<lparr>s_version := v + 1\<rparr>"
    let ?P = "\<lambda>r. s_version r = v \<and> s_status r = SessionStatus_value RUNNING"
    let ?row = "\<lparr>c_command_id = command_id_of i k (pc_payload_hash pc),
             c_session_id = i, c_idempotency_key = k, c_payload_hash = pc_payload_hash pc,
             c_expected_session_version = v, c_accepted_at_ns = ts, c_payload_json = JObj (pc_payload pc)\<rparr>"
    from body s None obtain d1 where st: "s_status s = SessionStatus_value RUNNING" "s_version s = v" "v + 1 \<le> U64_MAX"
      and upd: "update_sessions (\<lambda>r. s_session_id r = i \<and> ?P r) ?f d = Inr (1, d1)"
      and ins: "insert_command ?row d1 = Inr d'"
      and a: "a = \<lparr>ac_command_id = command_id_of i k (pc_payload_hash pc), ac_session_id = i,
             ac_idempotency_key = k, ac_payload_hash = pc_payload_hash pc, ac_expected_session_version = v,
             ac_resulting_session_version = v + 1, ac_accepted_at_ns = ts, ac_payload = pc_payload pc,
             ac_replayed = False\<rparr>"
      by (auto simp: accept_body_def Let_def)
    note u = update_sessions_one [OF assms(1) _ upd, simplified]
    have d1: "d1 = d\<lparr>db_sessions := db_sessions d1\<rparr>" using u by blast
    from ins have d': "d' = d1\<lparr>db_commands := db_commands d1 @ [?row]\<rparr>"
      and uniq: "list_all (\<lambda>q. c_command_id q \<noteq> c_command_id ?row) (db_commands d1)"
      by (auto simp: insert_command_def list_all_iff)
    have cmds: "db_commands d1 = db_commands d" by (subst d1) simp
    have by': "session_by_id d' = (session_by_id d)(i \<mapsto> ?f s)"
      using u s st by (auto simp: d' fun_eq_iff split: option.splits)
    have frame: "d' = d\<lparr>db_sessions := db_sessions d', db_commands := db_commands d'\<rparr>"
      unfolding d' by (subst d1) (simp add: cmds)
    have rows: "rows_ok d'" if "rows_ok d"
      using rows_ok_update [OF that upd] session_row_ok_cong [of d' d1] by (simp add: d' rows_ok_def)
    show ?thesis
      by (rule fresh [OF None s st(1,2) vts(1) st(3) vts(2) a by' _ _ _ frame rows])
         (use u uniq in \<open>simp_all add: d' cmds keys_ok_def\<close>)
  qed
qed

lemma find_command_append:
  "db_commands d' = db_commands d @ later \<Longrightarrow>
   find_command d' i k = (case find_command d i k of None \<Rightarrow>
      find (\<lambda>r. c_session_id r = i \<and> c_idempotency_key r = k) later | Some r \<Rightarrow> Some r)"
  by (simp add: find_command_def find_append)

lemma accept_stored:
  assumes "keys_ok d" and "accept i p k v ts pc d = Inr (a, d')"
  obtains row where "find_command d' i k = Some row" "c_payload_hash row = pc_payload_hash pc"
    "command_materialize row True = Inr (a\<lparr>ac_replayed := True\<rparr>)" "\<exists>s. session_by_id d' i = Some s \<and> s_principal_id s = p"
  using assms
proof (cases rule: accept_cases)
  case (retry row fs)
  from retry(4,5) have "a\<lparr>ac_replayed := True\<rparr> = a" by (auto simp: command_materialize_def)
  with retry show ?thesis using that by metis
next
  case (fresh s)
  let ?row = "\<lparr>c_command_id = command_id_of i k (pc_payload_hash pc),
             c_session_id = i, c_idempotency_key = k, c_payload_hash = pc_payload_hash pc,
             c_expected_session_version = v, c_accepted_at_ns = ts, c_payload_json = JObj (pc_payload pc)\<rparr>"
  show ?thesis
    by (rule that [of ?row])
       (use fresh in \<open>simp_all add: find_command_append [OF fresh(12)] command_materialize_def\<close>)
qed

section \<open>Prices\<close>

text \<open>The contract of a quote source: what it returns is a well-formed quote.\<close>

locale quote_provider =
  fixes current_quote :: "string \<Rightarrow> string \<Rightarrow> VisibleQuote option res"
  assumes quote_ok: "current_quote i p = Inr (Some q) \<Longrightarrow> VisibleQuote_post_init q = Inr ()"
begin

lemma quote_bounds:
  assumes "current_quote i p = Inr (Some q)"
  shows "0 < q_bid_price_atoms q" "q_bid_price_atoms q < q_ask_price_atoms q" "q_ask_price_atoms q \<le> I64_MAX"
  using quote_ok [OF assms] by (auto simp: VisibleQuote_post_init_def validate_positive_i64_def)

lemma resolved_reference:
  assumes "resolve_reference current_quote i p side ref = Inr (price, event_id, name)"
  obtains q r where "current_quote i p = Inr (Some q)" "ref = JStr name" "PriceReference_of name = Inr r"
    "price = reference_price q side r" "event_id = q_event_id q" "name = PriceReference_value r"
proof -
  from assms obtain raw r q where "ref = JStr raw" and r: "PriceReference_of raw = Inr r"
    and "current_quote i p = Inr (Some q)" "price = reference_price q side r" "event_id = q_event_id q"
    "name = PriceReference_value r"
    by (auto simp: resolve_reference_def case_option_Inr split: json.splits)
  moreover have "raw = PriceReference_value r" using r enum_of_sound unfolding PriceReference_of_def by metis
  ultimately show ?thesis using that by simp
qed

text \<open>A resolved price lies within the spread and is a positive 64-bit price.\<close>

lemma resolved_price_bounds:
  assumes "resolve_reference current_quote i p side ref = Inr (price, event_id, name)"
  shows "\<exists>q. current_quote i p = Inr (Some q) \<and> q_bid_price_atoms q \<le> price \<and> price \<le> q_ask_price_atoms q \<and>
    0 < price \<and> in_i64 price"
proof -
  from resolved_reference [OF assms] obtain q r where q: "current_quote i p = Inr (Some q)"
    "price = reference_price q side r" by metis
  note b = quote_bounds [OF q(1)]
  have "q_bid_price_atoms q \<le> price \<and> price \<le> q_ask_price_atoms q"
    using b(2) by (cases r) (auto simp: q(2) Let_def)
  with b q(1) show ?thesis by (auto simp: in_i64_def I64_MIN_def)
qed

text \<open>What price resolution leaves in the payload.\<close>

lemma resolve_prices_spec:
  assumes "resolve_prices current_quote i p side ot rq pl = Inr pl'"
    and "jget pl ''limit_price_atoms'' = JNull" and "jget pl ''stop_price_atoms'' = JNull"
  shows "(if ot \<in> set limit_bearing
      then \<exists>n. jget pl' ''limit_price_atoms'' = JStr (str_int n) \<and> 0 < n \<and> in_i64 n
      else jget pl' ''limit_price_atoms'' = JNull) \<and>
    (if ot \<in> set stop_bearing
      then \<exists>n. jget pl' ''stop_price_atoms'' = JStr (str_int n) \<and> 0 < n \<and> in_i64 n
      else jget pl' ''stop_price_atoms'' = JNull) \<and>
    (\<forall>k. k \<notin> {''limit_price_atoms'', ''price_reference'', ''quote_event_id'', ''stop_price_atoms''} \<longrightarrow>
       jget pl' k = jget pl k)"
proof -
  let ?limit = "\<lambda>pl. if ot \<in> set limit_bearing
      then \<exists>n. jget pl ''limit_price_atoms'' = JStr (str_int n) \<and> 0 < n \<and> in_i64 n
      else jget pl ''limit_price_atoms'' = JNull"
  let ?frame = "\<lambda>pl'. jget pl' ''stop_price_atoms'' = JNull \<and>
      (\<forall>k. k \<notin> {''limit_price_atoms'', ''price_reference'', ''quote_event_id'', ''stop_price_atoms''} \<longrightarrow>
        jget pl' k = jget pl k)"
  let ?stop = "\<lambda>m. if ot \<in> set stop_bearing then
        bindR (canonical_i64_text (jget rq ''stop_price_atoms'') True) (\<lambda>text.
        Inr (AList.update ''stop_price_atoms'' (JStr text) m))
      else if jget rq ''stop_price_atoms'' \<noteq> JNull then Inl invalid_command else Inr m"
  let ?ref = "jget rq ''price_reference''" and ?raw = "jget rq ''limit_price_atoms''"
  obtain m where X: "(if ?ref \<noteq> JNull then
           bindR (require (ot \<in> set limit_bearing) invalid_command) (\<lambda>_.
           bindR (resolve_reference current_quote i p side ?ref) (\<lambda>(resolved, event_id, reference_name).
           Inr (AList.update ''quote_event_id'' (JStr event_id)
             (AList.update ''price_reference'' (JStr reference_name)
             (AList.update ''limit_price_atoms'' (JStr (str_int resolved)) pl)))))
         else if ot \<in> set limit_bearing then
           bindR (canonical_i64_text ?raw True) (\<lambda>text. Inr (AList.update ''limit_price_atoms'' (JStr text) pl))
         else if ?raw \<noteq> JNull then Inl invalid_command else Inr pl) = Inr m"
    and m3: "?stop m = Inr pl'"
    using assms(1) unfolding resolve_prices_def Let_def bindR_eq_Inr by blast
  have m: "?limit m" "?frame m"
  proof -
    consider (ref) price event_id name where "ot \<in> set limit_bearing"
        "resolve_reference current_quote i p side ?ref = Inr (price, event_id, name)"
        "m = AList.update ''quote_event_id'' (JStr event_id) (AList.update ''price_reference'' (JStr name)
             (AList.update ''limit_price_atoms'' (JStr (str_int price)) pl))"
      | (raw) n where "ot \<in> set limit_bearing" "m = AList.update ''limit_price_atoms'' (JStr (str_int n)) pl" "0 < n" "in_i64 n"
      | (none) "ot \<notin> set limit_bearing" "m = pl"
      using X by (auto simp: canonical_i64_text_iff split: if_splits)
    then show "?limit m" "?frame m"
      using resolved_price_bounds [of i p side ?ref] assms(2,3) by (cases; fastforce)+
  qed
  note m = m m3
  from m(3) consider (stop) n where "ot \<in> set stop_bearing" "0 < n" "in_i64 n"
      "pl' = AList.update ''stop_price_atoms'' (JStr (str_int n)) m"
    | (none) "ot \<notin> set stop_bearing" "pl' = m"
    by (auto simp: canonical_i64_text_iff split: if_splits)
  then show ?thesis
  proof cases
    case stop
    with m(1,2) show ?thesis by (auto split: if_splits)
  next
    case none
    with m(1,2) show ?thesis by simp
  qed
qed

end

end
