(* ===== verification/Command_Theorems.thy ===== *)
theory Command_Theorems
  imports Commands Session_Theorems
begin

text \<open>
  The properties of command acceptance: what an accepted command does to the tables, that a retry is
  answered from the stored row whatever happened since, that acceptance refines a step of the abstract
  session lifecycle, and that prices resolved from a quote are passive and inside the spread.
\<close>

section \<open>Acceptance refines the lifecycle\<close>

lemma accept_state:
  assumes inv: "sessions_inv d" and acc: "accept i p k v ts pc d = Inr (a, d')" and new: "\<not> ac_replayed a"
  obtains r where "session_state d i = Some r" "rec_principal_id r = p" "rec_status r = RUNNING" "rec_version r = v"
    "v + 1 \<le> U64_MAX" "session_state d' = (session_state d)(i \<mapsto> r\<lparr>rec_version := v + 1\<rparr>)"
    "log_ok d'" "dom (session_by_id d') = dom (session_state d')"
proof -
  have keys: "keys_ok d" using sessions_inv_log [OF inv] by (simp add: log_ok_def)
  from keys acc show ?thesis
  proof (cases rule: accept_cases)
    case (retry row fs)
    with new show ?thesis by (auto simp: command_materialize_def)
  next
    case (fresh s)
    from inv fresh(2) obtain r where r: "session_state d i = Some r" by (auto simp: sessions_inv_def)
    have events: "session_events d' = session_events d" "raw_events d' = raw_events d" "db_events d' = db_events d"
      by (subst fresh(14); simp add: session_events_def raw_events_def fun_eq_iff)+
    have mat: "materialize_from_row d s (s_principal_id s) = Inr r"
      using r fresh(2) by (auto simp: session_state_def split: sum.splits)
    then have st: "rec_status r = RUNNING" "rec_version r = v" "rec_principal_id r = p"
      using fresh(3-5) materialize_replay [OF mat] materialize_principal [OF mat] SessionStatus_value_inject by metis+
    have mat': "materialize_from_row d' (s\<lparr>s_version := v + 1\<rparr>) (s_principal_id s) = Inr (r\<lparr>rec_version := v + 1\<rparr>)"
      using mat fresh(6,7) by (auto simp: materialize_from_row_iff replay_log_def events in_u64_def)
    have upd: "session_state d' = (session_state d)(i \<mapsto> r\<lparr>rec_version := v + 1\<rparr>)"
    proof
      fix j
      show "session_state d' j = ((session_state d)(i \<mapsto> r\<lparr>rec_version := v + 1\<rparr>)) j"
        using session_state_cong [of d' j d] fresh(10) events mat'
        by (cases "j = i") (simp_all add: session_state_def)
    qed
    have "log_ok d'" using sessions_inv_log [OF inv] fresh(10,11) by (auto simp: log_ok_def events)
    moreover have "dom (session_by_id d') = dom (session_state d')"
      using sessions_inv_dom [OF inv] by (simp add: upd fresh(10))
    ultimately show ?thesis using that r st upd fresh(7) by blast
  qed
qed

lemma accept_refines:
  assumes inv: "sessions_inv d" and acc: "accept i p k v ts pc d = Inr (a, d')" and "\<not> ac_replayed a"
  shows "refines_step d d'"
  using assms
proof (rule accept_state)
  fix r
  assume r: "session_state d i = Some r" "rec_status r = RUNNING" "rec_version r = v" "v + 1 \<le> U64_MAX"
    "session_state d' = (session_state d)(i \<mapsto> r\<lparr>rec_version := v + 1\<rparr>)"
    "log_ok d'" "dom (session_by_id d') = dom (session_state d')"
  have "lifecycle_step (session_state d) (session_state d')"
    using lifecycle_step.traded [of "session_state d" i r] r(1-5) by simp
  with r(6,7) show "refines_step d d'" by (simp add: refines_step_def)
qed

section \<open>Properties\<close>

text \<open>Accepting a command on a reachable database either replays a stored command with
  the same payload hash and changes nothing, or, on a RUNNING session of that principal at exactly the expected
  version, raises the session version by one, appends one command row under a fresh command id, and changes
  nothing else.\<close>

theorem accept_effect:
  assumes "service_reach d" and "accept i p k v ts pc d = Inr (a, d')"
  shows "if ac_replayed a
    then d' = d \<and> (\<exists>row \<in> set (db_commands d). c_session_id row = i \<and> c_idempotency_key row = k \<and>
        c_payload_hash row = pc_payload_hash pc \<and> c_command_id row = ac_command_id a \<and>
        c_expected_session_version row = ac_expected_session_version a)
    else \<exists>r c. session_state d i = Some r \<and> rec_principal_id r = p \<and> rec_status r = RUNNING \<and> rec_version r = v \<and>
        session_state d' = (session_state d)(i \<mapsto> r\<lparr>rec_version := v + 1\<rparr>) \<and>
        d' = d\<lparr>db_sessions := db_sessions d', db_commands := db_commands d @ [c]\<rparr> \<and>
        c_session_id c = i \<and> c_idempotency_key c = k \<and> c_expected_session_version c = v \<and>
        c_payload_json c = JObj (pc_payload pc) \<and> c_command_id c = ac_command_id a \<and>
        c_command_id c \<notin> c_command_id ` set (db_commands d) \<and> ac_resulting_session_version a = v + 1"
proof -
  note inv = service_reach_inv [OF assms(1)]
  have "keys_ok d" using sessions_inv_log [OF inv] by (simp add: log_ok_def)
  from this assms(2) show ?thesis
  proof (cases rule: accept_cases)
    case (retry row fs)
    from retry(2) have "row \<in> set (db_commands d)" "c_session_id row = i" "c_idempotency_key row = k"
      unfolding find_command_def by (blast dest: find_SomeD)+
    with retry show ?thesis by (auto simp: command_materialize_def)
  next
    case (fresh s)
    have new: "\<not> ac_replayed a" by (simp add: fresh(9))
    obtain r where r: "session_state d i = Some r" "rec_principal_id r = p" "rec_status r = RUNNING" "rec_version r = v"
      "session_state d' = (session_state d)(i \<mapsto> r\<lparr>rec_version := v + 1\<rparr>)"
      by (rule accept_state [OF inv assms(2) new])
    let ?c = "\<lparr>c_command_id = command_id_of i k (pc_payload_hash pc), c_session_id = i, c_idempotency_key = k,
       c_payload_hash = pc_payload_hash pc, c_expected_session_version = v, c_accepted_at_ns = ts,
       c_payload_json = JObj (pc_payload pc)\<rparr>"
    have "\<exists>c. d' = d\<lparr>db_sessions := db_sessions d', db_commands := db_commands d @ [c]\<rparr> \<and>
        c_session_id c = i \<and> c_idempotency_key c = k \<and> c_expected_session_version c = v \<and>
        c_payload_json c = JObj (pc_payload pc) \<and> c_command_id c = ac_command_id a \<and>
        c_command_id c \<notin> c_command_id ` set (db_commands d) \<and> ac_resulting_session_version a = v + 1"
      using fresh(13,14) unfolding fresh(12) by (intro exI [of _ ?c]) (auto simp: fresh(9) list_all_iff)
    with new r show ?thesis by simp
  qed
qed


text \<open>A quantity text is accepted exactly when it is the canonical decimal of an unsigned 64-bit
  integer, and a price text exactly when it is the canonical decimal of a signed 64-bit integer, positive where
  the field demands it; the text is kept as it was sent.\<close>

theorem canonical_texts:
  "(canonical_u64_text v positive = Inr t \<longleftrightarrow>
      (\<exists>n. v = JStr t \<and> t = str_int n \<and> in_u64 n \<and> (if positive then 0 < n else True))) \<and>
   (canonical_i64_text v positive = Inr t \<longleftrightarrow>
      (\<exists>n. v = JStr t \<and> t = str_int n \<and> in_i64 n \<and> (if positive then 0 < n else True)))"
  unfolding canonical_u64_text_iff canonical_i64_text_iff by auto

text \<open>The reference price of a well-formed quote lies in the spread, and a midpoint is rounded
  to the passive side: half the sum of bid and ask rounded down for a BUY, which stays below the ask, and rounded
  up otherwise, which stays above the bid.\<close>

theorem reference_price_passive:
  assumes "VisibleQuote_post_init q = Inr ()"
  shows "q_bid_price_atoms q \<le> reference_price q side r \<and> reference_price q side r \<le> q_ask_price_atoms q \<and>
    (r = REF_MIDPOINT \<and> side = ''BUY'' \<longrightarrow> reference_price q side r < q_ask_price_atoms q \<and>
       0 \<le> q_bid_price_atoms q + q_ask_price_atoms q - 2 * reference_price q side r \<and>
       q_bid_price_atoms q + q_ask_price_atoms q - 2 * reference_price q side r \<le> 1) \<and>
    (r = REF_MIDPOINT \<and> side \<noteq> ''BUY'' \<longrightarrow> q_bid_price_atoms q < reference_price q side r \<and>
       0 \<le> 2 * reference_price q side r - q_bid_price_atoms q - q_ask_price_atoms q \<and>
       2 * reference_price q side r - q_bid_price_atoms q - q_ask_price_atoms q \<le> 1)"
  using assms by (cases r) (auto simp: VisibleQuote_post_init_def validate_positive_i64_def Let_def)

section \<open>Witnesses\<close>

theorem reference_price_passive_witness:
  "reference_price \<lparr>q_event_id = ''q'', q_bid_price_atoms = 100, q_ask_price_atoms = 103\<rparr> ''BUY'' REF_MIDPOINT < 103"
  using reference_price_passive [of "\<lparr>q_event_id = ''q'', q_bid_price_atoms = 100, q_ask_price_atoms = 103\<rparr>" "''BUY''" REF_MIDPOINT]
  by (simp add: VisibleQuote_post_init_def validate_positive_i64_def I64_MAX_def)

lemma demo_accept:
  assumes "\<not> sha256_collision"
  obtains a d d' where "service_reach d"
    "accept ''s1'' ''alice'' ''key'' 2 5 \<lparr>pc_payload = [], pc_payload_hash = demo_hash\<rparr> d = Inr (a, d')"
    "\<not> ac_replayed a"
proof -
  obtain r d where d: "service_reach d" "session_state d ''s1'' = Some r" "rec_status r = RUNNING" "rec_version r = 2"
    "rec_principal_id r = ''alice''" "side_tables d = ([], [], [], [])"
    by (rule demo_running [OF assms])
  obtain row where row: "session_by_id d ''s1'' = Some row" "s_principal_id row = rec_principal_id r"
    "s_version row = rec_version r" "s_status row = SessionStatus_value (rec_status r)"
    using session_row [OF d(2)] by metis
  let ?P = "\<lambda>r. s_version r = 2 \<and> s_status r = SessionStatus_value RUNNING"
  have "session_row_ok d (row\<lparr>s_version := 3\<rparr>)"
    using rows_ok_row [OF service_reach_rows [OF d(1)] row(1)] by (simp add: session_row_ok_def)
  moreover have keys: "keys_ok d"
    using sessions_inv_log [OF service_reach_inv [OF d(1)]] by (simp add: log_ok_def)
  ultimately obtain d1 where upd: "update_sessions (\<lambda>r. s_session_id r = ''s1'' \<and> ?P r) (\<lambda>r. r\<lparr>s_version := 3\<rparr>) d = Inr (1, d1)"
    using update_progress [of d "''s1''" row ?P "\<lambda>r. r\<lparr>s_version := 3\<rparr>"] row d by auto
  note u = update_sessions_one [OF keys _ upd, simplified]
  have "db_commands d1 = []" "session_by_id d1 ''s1'' \<noteq> None"
    using side_tables_writes(2) [OF upd] u row(1) d(6) by (auto simp: side_tables_def)
  moreover have "db_commands d = []" using d(6) by (simp add: side_tables_def)
  ultimately have "\<exists>a d'. accept ''s1'' ''alice'' ''key'' 2 5 \<lparr>pc_payload = [], pc_payload_hash = demo_hash\<rparr> d = Inr (a, d')
      \<and> \<not> ac_replayed a"
    using row d upd
    by (simp add: accept_def accept_body_def find_command_def insert_command_def command_identity_ok_def Let_def
        validate_idempotency_key_def command_validate_version_def command_validate_i64_def range_defs has_control_def)
  then show ?thesis using that [OF d(1)] by blast
qed

theorem accept_effect_witness:
  "(\<exists>d a d' r. accept ''s1'' ''alice'' ''key'' 2 5 \<lparr>pc_payload = [], pc_payload_hash = demo_hash\<rparr> d = Inr (a, d') \<and>
     session_state d ''s1'' = Some r \<and> session_state d' ''s1'' = Some (r\<lparr>rec_version := 3\<rparr>) \<and>
     ac_resulting_session_version a = 3) \<or> sha256_collision"
proof (rule disjCI)
  assume "\<not> sha256_collision"
  then obtain a d d' where acc: "service_reach d"
    "accept ''s1'' ''alice'' ''key'' 2 5 \<lparr>pc_payload = [], pc_payload_hash = demo_hash\<rparr> d = Inr (a, d')" "\<not> ac_replayed a"
    by (rule demo_accept)
  from accept_effect [OF acc(1,2)] acc(3) obtain r where "session_state d ''s1'' = Some r"
    "session_state d' = (session_state d)(''s1'' \<mapsto> r\<lparr>rec_version := 2 + 1\<rparr>)" "ac_resulting_session_version a = 2 + 1"
    by auto
  with acc(2) show "\<exists>d a d' r. accept ''s1'' ''alice'' ''key'' 2 5 \<lparr>pc_payload = [], pc_payload_hash = demo_hash\<rparr> d = Inr (a, d') \<and>
     session_state d ''s1'' = Some r \<and> session_state d' ''s1'' = Some (r\<lparr>rec_version := 3\<rparr>) \<and>
     ac_resulting_session_version a = 3" by fastforce
qed


end
