(* ===== verification/Replay.thy ===== *)
theory Replay
  imports Session_Lifecycle
begin

text \<open>
  Replay coordination (\<^verbatim>\<open>replay/model.py\<close>, \<^verbatim>\<open>replay/store.py\<close>,
  \<^verbatim>\<open>replay/service.py\<close>): canonical inputs, the checkpoint store over the snapshot table,
  the persisted-event publisher, and the coordinator that recovers the simulator frontier and advances
  a session.

  The two ports that are not part of the repository are arguments: the source of canonical inputs is
  a function, the simulator a pair of functions over a machine state of its own. The coordinator commits
  several transactions, so its outcome keeps the database and the machine on errors too: a call
  returns \<open>(result, (database, machine))\<close>. The loop over the source may run for ever when the source
  never ends; then the call has no outcome (\<open>None\<close>).

  A canonical JSON text held by an input or a simulator state is represented by the key-sorted value it
  denotes; \<open>dumps_inject\<close> shows that the text and this value determine each other.
\<close>

section \<open>Model\<close>

abbreviation replay_error :: "replay_code \<Rightarrow> exn" where
  "replay_error \<equiv> ReplayError"

record ReplayInput =
  in_source_event_seq :: int
  in_logical_ts_ns :: int
  in_kind :: string
  in_canonical_payload :: json
  in_input_hash :: string

record SimulatorState =
  ss_state_version :: int
  ss_state_hash :: string
  ss_canonical_snapshot :: json

record ReplayCheckpoint =
  cp_logical_time_ns :: int
  cp_source_event_seq :: "int option"
  cp_simulator :: SimulatorState

record ReplayAdvanceResult =
  ra_session :: SessionRecord
  ra_checkpoint :: ReplayCheckpoint
  ra_applied_inputs :: int
  ra_recovered_inputs :: int

record PersistedReplayEvent =
  pe_event_seq :: int
  pe_logical_ts_ns :: int
  pe_event_type :: string
  pe_payload :: fields
  pe_current_event_hash :: string

definition replay_validate_u64 :: "int \<Rightarrow> unit res" where
  "replay_validate_u64 value = require (\<not> (value < 0 \<or> U64_MAX < value)) ValueError"

definition replay_validate_i64 :: "int \<Rightarrow> unit res" where
  "replay_validate_i64 value = require (\<not> (value < I64_MIN \<or> I64_MAX < value)) ValueError"

definition replay_validate_hash :: "string \<Rightarrow> unit res" where
  "replay_validate_hash value = require (is_sha256_hex value) ValueError"

definition replay_canonical_json :: "json \<Rightarrow> string res" where
  "replay_canonical_json value = bindR (require (no_float value) ValueError) (\<lambda>_. Inr (dumps value))"

text \<open>The canonical text of a value, represented by the value with sorted keys.\<close>

definition replay_canonical :: "json \<Rightarrow> json res" where
  "replay_canonical value = bindR (require (no_float value) ValueError) (\<lambda>_. Inr (sort_keys value))"

definition ReplayInput_from_payload :: "int \<Rightarrow> int \<Rightarrow> string \<Rightarrow> fields \<Rightarrow> ReplayInput res" where
  "ReplayInput_from_payload source_event_seq logical_ts_ns input_kind payload =
     bindR (replay_validate_u64 source_event_seq) (\<lambda>_.
     bindR (replay_validate_i64 logical_ts_ns) (\<lambda>_.
     bindR (require (input_kind \<noteq> []) ValueError) (\<lambda>_.
     bindR (replay_canonical (JObj payload)) (\<lambda>canonical.
     bindR (replay_canonical_json (JObj [(''kind'', JStr input_kind), (''logical_ts_ns'', JStr (str_int logical_ts_ns)),
         (''payload'', canonical), (''source_event_seq'', JStr (str_int source_event_seq))])) (\<lambda>identity.
     Inr \<lparr>in_source_event_seq = source_event_seq, in_logical_ts_ns = logical_ts_ns, in_kind = input_kind,
          in_canonical_payload = canonical, in_input_hash = sha256_hex (utf8 identity)\<rparr>)))))"

fun snapshot_object :: "json \<Rightarrow> fields res" where
  "snapshot_object (JObj fs) = Inr fs"
| "snapshot_object _ = Inl (replay_error RE_SNAPSHOT_CORRUPT)"

definition input_payload :: "ReplayInput \<Rightarrow> fields res" where
  "input_payload i = snapshot_object (in_canonical_payload i)"

definition SimulatorState_from_snapshot :: "int \<Rightarrow> string \<Rightarrow> fields \<Rightarrow> SimulatorState res" where
  "SimulatorState_from_snapshot state_version state_hash snapshot =
     bindR (replay_validate_u64 state_version) (\<lambda>_.
     bindR (replay_validate_hash state_hash) (\<lambda>_.
     bindR (replay_canonical (JObj snapshot)) (\<lambda>canonical.
     Inr \<lparr>ss_state_version = state_version, ss_state_hash = state_hash, ss_canonical_snapshot = canonical\<rparr>)))"

definition simulator_snapshot :: "SimulatorState \<Rightarrow> fields res" where
  "simulator_snapshot s = snapshot_object (ss_canonical_snapshot s)"

definition ReplayCheckpoint_of :: "int \<Rightarrow> int option \<Rightarrow> SimulatorState \<Rightarrow> ReplayCheckpoint res" where
  "ReplayCheckpoint_of logical_time_ns source_event_seq simulator =
     bindR (replay_validate_i64 logical_time_ns) (\<lambda>_.
     bindR (case source_event_seq of None \<Rightarrow> Inr () | Some s \<Rightarrow> replay_validate_u64 s) (\<lambda>_.
     Inr \<lparr>cp_logical_time_ns = logical_time_ns, cp_source_event_seq = source_event_seq, cp_simulator = simulator\<rparr>))"

section \<open>Checkpoint store\<close>

definition CHECKPOINT_FORMAT :: string where
  "CHECKPOINT_FORMAT = ''1''"

fun replay_mapping :: "json \<Rightarrow> fields res" where
  "replay_mapping (JObj fs) = Inr fs"
| "replay_mapping _ = Inl ValueError"

definition require_principal :: "db \<Rightarrow> string \<Rightarrow> string \<Rightarrow> unit res" where
  "require_principal d session_id principal_id =
     (case session_by_id d session_id of None \<Rightarrow> Inl (replay_error RE_SNAPSHOT_CORRUPT)
      | Some row \<Rightarrow> require (s_principal_id row = principal_id) (replay_error RE_SNAPSHOT_CORRUPT))"

definition checkpoint_payload :: "ReplayCheckpoint \<Rightarrow> fields res" where
  "checkpoint_payload checkpoint =
     bindR (simulator_snapshot (cp_simulator checkpoint)) (\<lambda>snapshot.
     Inr [(''checkpoint_format'', JStr CHECKPOINT_FORMAT),
          (''logical_time_ns'', JStr (str_int (cp_logical_time_ns checkpoint))),
          (''simulator_snapshot'', JObj snapshot),
          (''source_event_seq'', (case cp_source_event_seq checkpoint of
             None \<Rightarrow> JNull | Some s \<Rightarrow> JStr (str_int s)))])"

definition canonical_int :: "json \<Rightarrow> int res" where
  "canonical_int v =
     (case v of JStr value \<Rightarrow>
        bindR (require (\<not> (value = [] \<or> startswith value ''+'')) ValueError) (\<lambda>_.
        bindR (require (\<not> (value = ''-0'' \<or> startswith value ''0'' \<and> value \<noteq> ''0'')) ValueError) (\<lambda>_.
        let digits = (if startswith value ''-'' then tl value else value)
        in bindR (require (\<not> (\<not> isdigit digits \<or> startswith value ''-'' \<and> startswith digits ''0'')) ValueError) (\<lambda>_.
        py_int value)))
      | _ \<Rightarrow> Inl ValueError)"

definition decode_checkpoint :: "json \<Rightarrow> int \<Rightarrow> string \<Rightarrow> ReplayCheckpoint res" where
  "decode_checkpoint raw state_version state_hash =
     catchR
       (bindR (replay_mapping raw) (\<lambda>payload.
        bindR (require (jget payload ''checkpoint_format'' = JStr CHECKPOINT_FORMAT) ValueError) (\<lambda>_.
        bindR (canonical_int (jget payload ''logical_time_ns'')) (\<lambda>logical_time_ns.
        bindR (if jget payload ''source_event_seq'' = JNull then Inr None
               else bindR (canonical_int (jget payload ''source_event_seq'')) (\<lambda>s. Inr (Some s))) (\<lambda>source_event_seq.
        bindR (replay_mapping (jget payload ''simulator_snapshot'')) (\<lambda>snapshot_payload.
        bindR (SimulatorState_from_snapshot state_version state_hash snapshot_payload) (\<lambda>simulator.
        ReplayCheckpoint_of logical_time_ns source_event_seq simulator)))))))
       (\<lambda>e. is_TypeError e \<or> is_ValueError e) (replay_error RE_SNAPSHOT_CORRUPT)"

definition session_snapshots :: "db \<Rightarrow> string \<Rightarrow> snapshot_row list" where
  "session_snapshots d session_id =
     sort_key n_event_seq (filter (\<lambda>r. n_session_id r = session_id) (db_snapshots d))"

definition load_latest :: "db \<Rightarrow> string \<Rightarrow> string \<Rightarrow> ReplayCheckpoint option res" where
  "load_latest d session_id principal_id =
     bindR (require_principal d session_id principal_id) (\<lambda>_.
     if session_snapshots d session_id = [] then Inr None
     else let row = last (session_snapshots d session_id)
          in bindR (decode_checkpoint (n_state_json row) (n_state_version row) (n_state_hash row)) (\<lambda>c.
             Inr (Some c)))"

definition snapshot_at :: "db \<Rightarrow> string \<Rightarrow> int \<Rightarrow> snapshot_row option" where
  "snapshot_at d session_id session_version =
     find (\<lambda>r. n_session_id r = session_id \<and> n_event_seq r = session_version) (db_snapshots d)"

definition save_body :: "string \<Rightarrow> string \<Rightarrow> int \<Rightarrow> ReplayCheckpoint \<Rightarrow> fields \<Rightarrow> unit tx" where
  "save_body session_id principal_id session_version checkpoint state_json d =
     bindR (require_principal d session_id principal_id) (\<lambda>_.
     case snapshot_at d session_id session_version of
       Some existing \<Rightarrow>
         bindR (if n_state_version existing = ss_state_version (cp_simulator checkpoint) \<and>
             n_state_hash existing = ss_state_hash (cp_simulator checkpoint)
           then bindR (replay_mapping (n_state_json existing)) (\<lambda>old.
                bindR (replay_canonical_json (JObj old)) (\<lambda>a.
                bindR (replay_canonical_json (JObj state_json)) (\<lambda>b. Inr (a = b))))
           else Inr False) (\<lambda>same.
         if same then Inr ((), d) else Inl (replay_error RE_SNAPSHOT_CONFLICT))
     | None \<Rightarrow>
         bindR (insert_snapshot \<lparr>n_session_id = session_id, n_event_seq = session_version,
             n_state_version = ss_state_version (cp_simulator checkpoint),
             n_state_hash = ss_state_hash (cp_simulator checkpoint), n_state_json = JObj state_json\<rparr> d) (\<lambda>d.
         Inr ((), d)))"

definition save :: "string \<Rightarrow> string \<Rightarrow> int \<Rightarrow> ReplayCheckpoint \<Rightarrow> unit tx" where
  "save session_id principal_id session_version checkpoint d =
     bindR (require (\<not> session_version \<le> 0) ValueError) (\<lambda>_.
     bindR (checkpoint_payload checkpoint) (\<lambda>state_json.
     catchR (save_body session_id principal_id session_version checkpoint state_json d)
       is_IntegrityError (replay_error RE_SNAPSHOT_CONFLICT)))"

section \<open>Publisher\<close>

definition persisted_event :: "event_row \<Rightarrow> PersistedReplayEvent res" where
  "persisted_event row =
     bindR (replay_mapping (e_payload_json row)) (\<lambda>payload.
     Inr \<lparr>pe_event_seq = e_event_seq row, pe_logical_ts_ns = e_logical_ts_ns row,
          pe_event_type = e_event_type row, pe_payload = payload,
          pe_current_event_hash = e_current_event_hash row\<rparr>)"

definition read_after ::
    "db \<Rightarrow> string \<Rightarrow> string \<Rightarrow> int option \<Rightarrow> int \<Rightarrow> PersistedReplayEvent list res" where
  "read_after d session_id principal_id after_event_seq limit =
     bindR (require (\<not> (case after_event_seq of None \<Rightarrow> False | Some s \<Rightarrow> s < 0)) ValueError) (\<lambda>_.
     bindR (require (\<not> (limit \<le> 0 \<or> 10000 < limit)) ValueError) (\<lambda>_.
     bindR (require_principal d session_id principal_id) (\<lambda>_.
     mapR persisted_event (take (nat limit)
       (filter (\<lambda>e. case after_event_seq of None \<Rightarrow> True | Some s \<Rightarrow> s < e_event_seq e)
         (session_events d session_id))))))"

section \<open>Coordinator\<close>

type_synonym source = "string \<Rightarrow> int option \<Rightarrow> int \<Rightarrow> int \<Rightarrow> ReplayInput list res"

record 'm simulator =
  sim_restore :: "ReplayCheckpoint option \<Rightarrow> 'm \<Rightarrow> SimulatorState res \<times> 'm"
  sim_apply :: "ReplayInput \<Rightarrow> int \<Rightarrow> 'm \<Rightarrow> SimulatorState res \<times> 'm"

definition require_running :: "SessionRecord \<Rightarrow> unit res" where
  "require_running session =
     bindR (require (\<not> (rec_setup session = None \<or> rec_logical_time_ns session = None))
       (replay_error RE_SESSION_NOT_COMMITTED)) (\<lambda>_.
     require (rec_status session = RUNNING) (replay_error RE_SESSION_NOT_RUNNING))"

definition validate_simulator_state :: "SimulatorState \<Rightarrow> unit res" where
  "validate_simulator_state state =
     bindR (require (\<not> ss_state_version state < 0) (replay_error RE_SIMULATOR_VERSION)) (\<lambda>_.
     require (is_sha256_hex (ss_state_hash state)) (replay_error RE_SIMULATOR_HASH))"

definition require_same_state :: "SimulatorState \<Rightarrow> SimulatorState \<Rightarrow> unit res" where
  "require_same_state actual expected = require (actual = expected) (replay_error RE_SNAPSHOT_CORRUPT)"

definition validate_transition :: "SimulatorState \<Rightarrow> SimulatorState \<Rightarrow> unit res" where
  "validate_transition previous current =
     bindR (validate_simulator_state current) (\<lambda>_.
     bindR (require (ss_state_version current = ss_state_version previous + 1)
       (replay_error RE_SIMULATOR_VERSION)) (\<lambda>_.
     require (ss_state_hash current \<noteq> ss_state_hash previous) (replay_error RE_SIMULATOR_HASH)))"

definition validate_source_item :: "ReplayInput \<Rightarrow> int option \<Rightarrow> int \<Rightarrow> int \<Rightarrow> int \<Rightarrow> unit res" where
  "validate_source_item item after_seq prior_time warmup_start_ns target_ns =
     (let expected_seq = (case after_seq of None \<Rightarrow> 0 | Some s \<Rightarrow> s + 1)
      in bindR (require (in_source_event_seq item = expected_seq) (replay_error RE_SOURCE_SEQUENCE)) (\<lambda>_.
      bindR (require (\<not> (in_logical_ts_ns item < warmup_start_ns \<or> in_logical_ts_ns item < prior_time))
        (replay_error RE_SOURCE_TIME)) (\<lambda>_.
      require (\<not> target_ns < in_logical_ts_ns item) (replay_error RE_SOURCE_TIME))))"

text \<open>The variables of the loop: the state, the last sequence, the last time, the number applied.\<close>

record cursor =
  cur_state :: SimulatorState
  cur_after_seq :: "int option"
  cur_prior_time :: int
  cur_applied :: int

fun apply_batch :: "'m simulator \<Rightarrow> int \<Rightarrow> int \<Rightarrow> ReplayInput list \<Rightarrow> cursor \<Rightarrow> 'm \<Rightarrow> cursor res \<times> 'm" where
  "apply_batch sim warmup_start_ns target_ns [] cur m = (Inr cur, m)"
| "apply_batch sim warmup_start_ns target_ns (item # items) cur m =
     (case validate_source_item item (cur_after_seq cur) (cur_prior_time cur) warmup_start_ns target_ns of
        Inl e \<Rightarrow> (Inl e, m)
      | Inr _ \<Rightarrow>
        (case sim_apply sim item (ss_state_version (cur_state cur)) m of
           (Inl e, m') \<Rightarrow> (Inl e, m')
         | (Inr next_state, m') \<Rightarrow>
           (case validate_transition (cur_state cur) next_state of
              Inl e \<Rightarrow> (Inl e, m')
            | Inr _ \<Rightarrow> apply_batch sim warmup_start_ns target_ns items
                \<lparr>cur_state = next_state, cur_after_seq = Some (in_source_event_seq item),
                 cur_prior_time = in_logical_ts_ns item, cur_applied = cur_applied cur + 1\<rparr> m')))"

partial_function (option) run_batches ::
    "source \<Rightarrow> 'm simulator \<Rightarrow> string \<Rightarrow> int \<Rightarrow> int \<Rightarrow> int \<Rightarrow> cursor \<Rightarrow> 'm \<Rightarrow> (cursor res \<times> 'm) option" where
  "run_batches src sim manifest_hash warmup_start_ns target_ns batch_size cur m =
     (case src manifest_hash (cur_after_seq cur) target_ns batch_size of
        Inl e \<Rightarrow> Some (Inl e, m)
      | Inr batch \<Rightarrow>
        if batch_size < int (length batch) then Some (Inl (replay_error RE_SOURCE_SEQUENCE), m)
        else if batch = [] then Some (Inr cur, m)
        else (case apply_batch sim warmup_start_ns target_ns batch cur m of
                (Inl e, m') \<Rightarrow> Some (Inl e, m')
              | (Inr cur', m') \<Rightarrow>
                  if int (length batch) < batch_size then Some (Inr cur', m')
                  else run_batches src sim manifest_hash warmup_start_ns target_ns batch_size cur' m'))"

definition run_until ::
    "source \<Rightarrow> 'm simulator \<Rightarrow> string \<Rightarrow> int \<Rightarrow> int \<Rightarrow> ReplayCheckpoint option \<Rightarrow> int \<Rightarrow> 'm \<Rightarrow>
     ((ReplayCheckpoint \<times> int) res \<times> 'm) option" where
  "run_until src sim setup_manifest_hash warmup_start_ns target_ns checkpoint batch_size m =
     (case sim_restore sim checkpoint m of
        (Inl e, m) \<Rightarrow> Some (Inl e, m)
      | (Inr state, m) \<Rightarrow>
        (case bindR (case checkpoint of None \<Rightarrow> Inr () | Some c \<Rightarrow> require_same_state state (cp_simulator c))
                (\<lambda>_. validate_simulator_state state) of
           Inl e \<Rightarrow> Some (Inl e, m)
         | Inr _ \<Rightarrow>
           Option.bind (run_batches src sim setup_manifest_hash warmup_start_ns target_ns batch_size
             \<lparr>cur_state = state,
              cur_after_seq = (case checkpoint of None \<Rightarrow> None | Some c \<Rightarrow> cp_source_event_seq c),
              cur_prior_time = (case checkpoint of None \<Rightarrow> warmup_start_ns | Some c \<Rightarrow> cp_logical_time_ns c),
              cur_applied = 0\<rparr> m) (\<lambda>(r, m).
           Some (bindR r (\<lambda>cur.
             bindR (ReplayCheckpoint_of target_ns (cur_after_seq cur) (cur_state cur)) (\<lambda>c.
             Inr (c, cur_applied cur))), m))))"

definition recover_current_frontier ::
    "source \<Rightarrow> 'm simulator \<Rightarrow> CommittedSetup \<Rightarrow> int \<Rightarrow> ReplayCheckpoint option \<Rightarrow> int \<Rightarrow> 'm \<Rightarrow>
     ((ReplayCheckpoint \<times> int) res \<times> 'm) option" where
  "recover_current_frontier src sim st logical_time_ns checkpoint batch_size m =
     (case checkpoint of
        Some c \<Rightarrow>
          if logical_time_ns < cp_logical_time_ns c then Some (Inl (replay_error RE_SNAPSHOT_CORRUPT), m)
          else if cp_logical_time_ns c = logical_time_ns then
            (case sim_restore sim checkpoint m of
               (Inl e, m) \<Rightarrow> Some (Inl e, m)
             | (Inr restored, m) \<Rightarrow>
                 Some (bindR (require_same_state restored (cp_simulator c)) (\<lambda>_. Inr (c, 0)), m))
          else run_until src sim (cs_manifest_hash st) (cs_play_start_ns st - cs_warmup_ns st)
            logical_time_ns checkpoint batch_size m
      | None \<Rightarrow> run_until src sim (cs_manifest_hash st) (cs_play_start_ns st - cs_warmup_ns st)
            logical_time_ns checkpoint batch_size m)"

text \<open>\<open>advance_to\<close> up to the first call of the simulator.\<close>

definition advance_prepare ::
    "db \<Rightarrow> string \<Rightarrow> string \<Rightarrow> int \<Rightarrow> int \<Rightarrow> int \<Rightarrow>
     (SessionRecord \<times> CommittedSetup \<times> int \<times> ReplayCheckpoint option) res" where
  "advance_prepare d session_id principal_id expected_version target_logical_time_ns batch_size =
     bindR (require (\<not> (batch_size \<le> 0 \<or> 100000 < batch_size)) ValueError) (\<lambda>_.
     bindR (get_session d session_id principal_id) (\<lambda>session.
     bindR (require (rec_version session = expected_version) (replay_error RE_TARGET_OUT_OF_RANGE)) (\<lambda>_.
     bindR (require_running session) (\<lambda>_.
     case (rec_setup session, rec_logical_time_ns session) of
       (Some s, Some t) \<Rightarrow>
         bindR (require (\<not> (target_logical_time_ns < t \<or> play_end_ns s < target_logical_time_ns))
           (replay_error RE_TARGET_OUT_OF_RANGE)) (\<lambda>_.
         bindR (load_latest d session_id principal_id) (\<lambda>checkpoint.
         Inr (session, s, t, checkpoint)))
     | _ \<Rightarrow> Inl AssertionError))))"

text \<open>The second half: run to the target, advance the session, save the new checkpoint.\<close>

definition advance_run ::
    "source \<Rightarrow> 'm simulator \<Rightarrow> string \<Rightarrow> string \<Rightarrow> SessionRecord \<Rightarrow> CommittedSetup \<Rightarrow> int \<Rightarrow> int \<Rightarrow>
     ReplayCheckpoint \<Rightarrow> int \<Rightarrow> db \<Rightarrow> 'm \<Rightarrow> (ReplayAdvanceResult res \<times> db \<times> 'm) option" where
  "advance_run src sim session_id principal_id session s target_logical_time_ns batch_size checkpoint recovered d m =
     Option.bind (run_until src sim (cs_manifest_hash s) (cs_play_start_ns s - cs_warmup_ns s)
       target_logical_time_ns (Some checkpoint) batch_size m) (\<lambda>(run, m).
     case run of Inl e \<Rightarrow> Some (Inl e, d, m)
     | Inr (run_checkpoint, applied) \<Rightarrow>
       (case advance session_id principal_id (rec_version session) target_logical_time_ns d of
          Inl e \<Rightarrow> Some (Inl e, d, m)
        | Inr (advanced, d) \<Rightarrow>
          (case save session_id principal_id (rec_version advanced) run_checkpoint d of
             Inl e \<Rightarrow> Some (Inl e, d, m)
           | Inr (_, d) \<Rightarrow>
               Some (Inr \<lparr>ra_session = advanced, ra_checkpoint = run_checkpoint,
                 ra_applied_inputs = applied, ra_recovered_inputs = recovered\<rparr>, d, m))))"

definition advance_to ::
    "source \<Rightarrow> 'm simulator \<Rightarrow> string \<Rightarrow> string \<Rightarrow> int \<Rightarrow> int \<Rightarrow> int \<Rightarrow> db \<Rightarrow> 'm \<Rightarrow>
     (ReplayAdvanceResult res \<times> db \<times> 'm) option" where
  "advance_to src sim session_id principal_id expected_version target_logical_time_ns batch_size d m =
     (case advance_prepare d session_id principal_id expected_version target_logical_time_ns batch_size of
        Inl e \<Rightarrow> Some (Inl e, d, m)
      | Inr (session, s, logical_time_ns, stored) \<Rightarrow>
        Option.bind (recover_current_frontier src sim s logical_time_ns stored batch_size m) (\<lambda>(rec, m).
        case bindR rec (\<lambda>(checkpoint, recovered).
            bindR (require (cp_logical_time_ns checkpoint = logical_time_ns) (replay_error RE_SNAPSHOT_CORRUPT)) (\<lambda>_.
            bindR (save session_id principal_id (rec_version session) checkpoint d) (\<lambda>(_, d).
            Inr (checkpoint, recovered, d)))) of
          Inl e \<Rightarrow> Some (Inl e, d, m)
        | Inr (checkpoint, recovered, d) \<Rightarrow>
            if target_logical_time_ns = logical_time_ns then
              Some (Inr \<lparr>ra_session = session, ra_checkpoint = checkpoint, ra_applied_inputs = 0,
                ra_recovered_inputs = recovered\<rparr>, d, m)
            else advance_run src sim session_id principal_id session s target_logical_time_ns batch_size
              checkpoint recovered d m))"

end
