(* ===== verification/Replay_Theorems.thy ===== *)
theory Replay_Theorems
  imports Replay Session_Theorems
begin

text \<open>
  The properties of replay coordination.

  \<^item> Whatever the source returns, the simulator is never given an input beyond the target and
    always a gapless sequence (no look-ahead).
  \<^item> With a source that serves a canonical log and a deterministic simulator, the loop ends and its
    result is a fold over the log, independent of the batch size and of where earlier runs stopped.
  \<^item> A saved checkpoint is read back exactly; crash recovery from an older checkpoint
    reaches the state that would have been saved.
  \<^item> The publisher's pages are contiguous slices of the persisted log.
\<close>

section \<open>No look-ahead\<close>

text \<open>A gapless, time-ordered delivery after a cursor position.\<close>

definition next_seq :: "int option \<Rightarrow> int" where
  "next_seq after = (case after of None \<Rightarrow> 0 | Some s \<Rightarrow> s + 1)"

fun gapless :: "int option \<Rightarrow> int \<Rightarrow> ReplayInput list \<Rightarrow> bool" where
  "gapless after prior [] \<longleftrightarrow> True"
| "gapless after prior (x # xs) \<longleftrightarrow> in_source_event_seq x = next_seq after \<and> prior \<le> in_logical_ts_ns x \<and>
     gapless (Some (in_source_event_seq x)) (in_logical_ts_ns x) xs"

definition last_seq :: "int option \<Rightarrow> ReplayInput list \<Rightarrow> int option" where
  "last_seq after xs = (if xs = [] then after else Some (in_source_event_seq (last xs)))"

definition last_time :: "int \<Rightarrow> ReplayInput list \<Rightarrow> int" where
  "last_time prior xs = (if xs = [] then prior else in_logical_ts_ns (last xs))"

lemma last_simps [simp]:
  "last_seq after [] = after" "last_seq after (x # xs) = last_seq (Some (in_source_event_seq x)) xs"
  "last_time prior [] = prior" "last_time prior (x # xs) = last_time (in_logical_ts_ns x) xs"
  by (auto simp: last_seq_def last_time_def)

lemma last_append [simp]:
  "last_seq after (xs @ ys) = last_seq (last_seq after xs) ys"
  "last_time prior (xs @ ys) = last_time (last_time prior xs) ys"
  by (induction xs arbitrary: after prior) auto

lemma gapless_append:
  "gapless after prior (xs @ ys) \<longleftrightarrow> gapless after prior xs \<and> gapless (last_seq after xs) (last_time prior xs) ys"
  by (induction xs arbitrary: after prior) auto

lemma gapless_seq: "gapless after prior xs \<Longrightarrow> k < length xs \<Longrightarrow> in_source_event_seq (xs ! k) = next_seq after + int k"
proof (induction xs arbitrary: after prior k)
  case (Cons x xs)
  then show ?case by (cases k) (auto simp: next_seq_def)
qed simp

text \<open>What one run of the coordinator's loop hands to the simulator.\<close>

definition delivers :: "int \<Rightarrow> int \<Rightarrow> cursor \<Rightarrow> ReplayInput list \<Rightarrow> cursor res \<Rightarrow> bool" where
  "delivers w target cur ds r \<longleftrightarrow>
     gapless (cur_after_seq cur) (cur_prior_time cur) ds \<and>
     (\<forall>x\<in>set ds. w \<le> in_logical_ts_ns x \<and> in_logical_ts_ns x \<le> target) \<and>
     (\<forall>cur'. r = Inr cur' \<longrightarrow> cur_after_seq cur' = last_seq (cur_after_seq cur) ds \<and>
        cur_prior_time cur' = last_time (cur_prior_time cur) ds \<and>
        cur_applied cur' = cur_applied cur + int (length ds) \<and>
        ss_state_version (cur_state cur') = ss_state_version (cur_state cur) + int (length ds))"

lemma delivers_Nil [simp]: "delivers w target cur [] (Inr cur)" "delivers w target cur [] (Inl e)"
  by (simp_all add: delivers_def)

lemma delivers_append:
  assumes "delivers w target cur ds (Inr cur')" and "delivers w target cur' es r"
  shows "delivers w target cur (ds @ es) r"
proof -
  have c: "cur_after_seq cur' = last_seq (cur_after_seq cur) ds" "cur_prior_time cur' = last_time (cur_prior_time cur) ds"
    "cur_applied cur' = cur_applied cur + int (length ds)"
    "ss_state_version (cur_state cur') = ss_state_version (cur_state cur) + int (length ds)"
    using assms(1) by (simp_all add: delivers_def)
  have d: "gapless (cur_after_seq cur) (cur_prior_time cur) ds" "gapless (cur_after_seq cur') (cur_prior_time cur') es"
    "\<forall>x\<in>set (ds @ es). w \<le> in_logical_ts_ns x \<and> in_logical_ts_ns x \<le> target"
    using assms unfolding delivers_def by (blast, blast, auto)
  have "cur_after_seq c = last_seq (cur_after_seq cur) (ds @ es) \<and>
      cur_prior_time c = last_time (cur_prior_time cur) (ds @ es) \<and>
      cur_applied c = cur_applied cur + int (length (ds @ es)) \<and>
      ss_state_version (cur_state c) = ss_state_version (cur_state cur) + int (length (ds @ es))" if "r = Inr c" for c
    using assms(2) that c by (simp add: delivers_def)
  moreover have "gapless (cur_after_seq cur) (cur_prior_time cur) (ds @ es)" using d(1,2) c(1,2) by (simp add: gapless_append)
  ultimately show ?thesis using d(3) unfolding delivers_def by blast
qed

lemma delivers_error: "delivers w target cur ds r \<Longrightarrow> delivers w target cur ds (Inl e)"
  by (simp add: delivers_def)

definition records :: "'m simulator \<Rightarrow> ('m \<Rightarrow> ReplayInput list) \<Rightarrow> bool" where
  "records sim trace \<longleftrightarrow>
     (\<forall>x v m. trace (snd (sim_apply sim x v m)) = trace m @ [x]) \<and>
     (\<forall>c m. trace (snd (sim_restore sim c m)) = trace m)"

lemma apply_batch_trace:
  assumes "records sim trace"
  shows "apply_batch sim w target items cur m = (r, m') \<Longrightarrow>
     \<exists>ds. trace m' = trace m @ ds \<and> delivers w target cur ds r"
proof (induction items arbitrary: cur m)
  case Nil
  then show ?case by (auto intro!: exI [of _ "[]"])
next
  case (Cons x items)
  show ?case
  proof (cases "validate_source_item x (cur_after_seq cur) (cur_prior_time cur) w target")
    case (Inl e)
    with Cons.prems show ?thesis by (auto intro!: exI [of _ "[]"])
  next
    case (Inr u)
    then have x: "in_source_event_seq x = next_seq (cur_after_seq cur)" "w \<le> in_logical_ts_ns x"
      "cur_prior_time cur \<le> in_logical_ts_ns x" "in_logical_ts_ns x \<le> target"
      by (auto simp: validate_source_item_def next_seq_def Let_def)
    obtain s m1 where ap: "sim_apply sim x (ss_state_version (cur_state cur)) m = (s, m1)" by fastforce
    have tr: "trace m1 = trace m @ [x]" using assms ap by (metis records_def snd_conv)
    let ?next = "\<lambda>st. \<lparr>cur_state = st, cur_after_seq = Some (in_source_event_seq x),
                 cur_prior_time = in_logical_ts_ns x, cur_applied = cur_applied cur + 1\<rparr>"
    have one: "delivers w target cur [x] (Inl e)" for e using x by (simp add: delivers_def)
    show ?thesis
    proof (cases "\<exists>st. s = Inr st \<and> validate_transition (cur_state cur) st = Inr ()")
      case True
      then obtain st where st: "s = Inr st" "validate_transition (cur_state cur) st = Inr ()" by blast
      then have step: "delivers w target cur [x] (Inr (?next st))"
        using x by (auto simp: delivers_def validate_transition_def)
      from Cons.prems Inr ap st have "apply_batch sim w target items (?next st) m1 = (r, m')" by simp
      from Cons.IH [OF this] obtain ds where "trace m' = trace m1 @ ds" "delivers w target (?next st) ds r" by blast
      with tr delivers_append [OF step] show ?thesis by (metis append.assoc)
    next
      case False
      with Cons.prems Inr ap obtain e where "r = Inl e" "m' = m1" by (auto split: sum.splits)
      with tr one show ?thesis by blast
    qed
  qed
qed

lemma run_batches_trace:
  assumes "records sim trace" and ret: "run_batches src sim h w target n cur m = Some y"
  shows "\<exists>ds. trace (snd y) = trace m @ ds \<and> delivers w target cur ds (fst y)"
proof (rule run_batches.raw_induct [where P = "\<lambda>src sim h w target n cur m y. records sim trace \<longrightarrow>
      (\<exists>ds. trace (snd y) = trace m @ ds \<and> delivers w target cur ds (fst y))", OF _ ret, rule_format, OF _ assms(1)])
  fix f :: "source \<Rightarrow> 'a simulator \<Rightarrow> string \<Rightarrow> int \<Rightarrow> int \<Rightarrow> int \<Rightarrow> cursor \<Rightarrow> 'a \<Rightarrow> (cursor res \<times> 'a) option"
  fix src :: source and sim :: "'a simulator" and h w target n cur m y
  assume IH: "\<And>src sim h w target n cur m y. f src sim h w target n cur m = Some y \<Longrightarrow> records sim trace \<Longrightarrow>
      \<exists>ds. trace (snd y) = trace m @ ds \<and> delivers w target cur ds (fst y)"
    and eq: "(case src h (cur_after_seq cur) target n of
        Inl e \<Rightarrow> Some (Inl e, m)
      | Inr batch \<Rightarrow>
        if n < int (length batch) then Some (Inl (replay_error RE_SOURCE_SEQUENCE), m)
        else if batch = [] then Some (Inr cur, m)
        else (case apply_batch sim w target batch cur m of
                (Inl e, m') \<Rightarrow> Some (Inl e, m')
              | (Inr cur', m') \<Rightarrow>
                  if int (length batch) < n then Some (Inr cur', m')
                  else f src sim h w target n cur' m')) = Some y"
    and rec: "records sim trace"
  show "\<exists>ds. trace (snd y) = trace m @ ds \<and> delivers w target cur ds (fst y)"
  proof (cases "\<exists>batch. src h (cur_after_seq cur) target n = Inr batch \<and> \<not> n < int (length batch) \<and> batch \<noteq> []")
    case False
    with eq show ?thesis by (auto intro!: exI [of _ "[]"] split: sum.splits if_splits)
  next
    case True
    then obtain batch where b: "src h (cur_after_seq cur) target n = Inr batch" "\<not> n < int (length batch)" "batch \<noteq> []"
      by blast
    obtain r m1 where ap: "apply_batch sim w target batch cur m = (r, m1)" by fastforce
    from apply_batch_trace [OF rec ap] obtain ds where ds: "trace m1 = trace m @ ds" "delivers w target cur ds r" by blast
    show ?thesis
    proof (cases "\<exists>cur'. r = Inr cur' \<and> \<not> int (length batch) < n")
      case True
      then obtain cur' where r: "r = Inr cur'" "\<not> int (length batch) < n" by blast
      with eq b ap have "f src sim h w target n cur' m1 = Some y" by simp
      with IH rec obtain es where "trace (snd y) = trace m1 @ es" "delivers w target cur' es (fst y)" by blast
      with ds r delivers_append show ?thesis by (metis append.assoc)
    next
      case False
      with eq b ap have "y = (r, m1)" by (auto split: sum.splits if_splits)
      with ds show ?thesis by auto
    qed
  qed
qed

abbreviation from_seq :: "ReplayCheckpoint option \<Rightarrow> int option" where
  "from_seq checkpoint \<equiv> (case checkpoint of None \<Rightarrow> None | Some c \<Rightarrow> cp_source_event_seq c)"

abbreviation from_time :: "int \<Rightarrow> ReplayCheckpoint option \<Rightarrow> int" where
  "from_time w checkpoint \<equiv> (case checkpoint of None \<Rightarrow> w | Some c \<Rightarrow> cp_logical_time_ns c)"

definition within :: "int \<Rightarrow> int \<Rightarrow> ReplayInput list \<Rightarrow> bool" where
  "within lo hi xs \<longleftrightarrow> (\<forall>x\<in>set xs. lo \<le> in_logical_ts_ns x \<and> in_logical_ts_ns x \<le> hi)"

lemma within_simps [simp]: "within lo hi []" "within lo hi (xs @ ys) \<longleftrightarrow> within lo hi xs \<and> within lo hi ys"
  by (auto simp: within_def)

lemma within_mono: "within lo hi xs \<Longrightarrow> hi \<le> hi' \<Longrightarrow> within lo hi' xs"
  by (auto simp: within_def)

lemma gapless_mono: "gapless after prior xs \<Longrightarrow> prior' \<le> prior \<Longrightarrow> gapless after prior' xs"
  by (cases xs) auto

lemma last_time_le: "within lo hi xs \<Longrightarrow> prior \<le> hi \<Longrightarrow> last_time prior xs \<le> hi"
  by (auto simp: within_def last_time_def)

lemma ReplayCheckpoint_of_iff:
  "ReplayCheckpoint_of t s st = Inr c \<longleftrightarrow> in_i64 t \<and> (case s of None \<Rightarrow> True | Some n \<Rightarrow> in_u64 n) \<and>
     c = \<lparr>cp_logical_time_ns = t, cp_source_event_seq = s, cp_simulator = st\<rparr>"
  by (auto simp: ReplayCheckpoint_of_def replay_validate_i64_def replay_validate_u64_def in_i64_def in_u64_def
      split: option.splits)

lemma run_until_trace:
  assumes rec: "records sim trace" and run: "run_until src sim h w target checkpoint n m = Some (r, m')"
  obtains ds where "trace m' = trace m @ ds" "gapless (from_seq checkpoint) (from_time w checkpoint) ds"
    "within w target ds"
    "\<And>c k. r = Inr (c, k) \<Longrightarrow> k = int (length ds) \<and> cp_logical_time_ns c = target \<and>
       cp_source_event_seq c = last_seq (from_seq checkpoint) ds"
proof -
  obtain s m1 where rs: "sim_restore sim checkpoint m = (s, m1)" by fastforce
  have tr: "trace m1 = trace m" using rec rs by (metis records_def snd_conv)
  let ?chk = "\<lambda>state. bindR (case checkpoint of None \<Rightarrow> Inr () | Some c \<Rightarrow> require_same_state state (cp_simulator c))
                (\<lambda>_. validate_simulator_state state)"
  let ?cur = "\<lambda>state. \<lparr>cur_state = state, cur_after_seq = from_seq checkpoint, cur_prior_time = from_time w checkpoint,
    cur_applied = 0\<rparr>"
  show ?thesis
  proof (cases "\<exists>state. s = Inr state \<and> ?chk state = Inr ()")
    case False
    with run rs have "\<exists>e. r = Inl e \<and> m' = m1" by (auto simp: run_until_def split: sum.splits)
    with tr that [of "[]"] show ?thesis by auto
  next
    case True
    then obtain state where st: "s = Inr state" "?chk state = Inr ()" by blast
    with run rs obtain r1 where rb: "run_batches src sim h w target n (?cur state) m1 = Some (r1, m')"
      and r: "r = bindR r1 (\<lambda>cur. bindR (ReplayCheckpoint_of target (cur_after_seq cur) (cur_state cur)) (\<lambda>c.
             Inr (c, cur_applied cur)))"
      by (auto simp: run_until_def bind_eq_Some_conv)
    from run_batches_trace [OF rec rb] obtain ds where ds: "trace m' = trace m1 @ ds" "delivers w target (?cur state) ds r1"
      by auto
    show ?thesis
    proof (rule that [of ds])
      show "k = int (length ds) \<and> cp_logical_time_ns c = target \<and> cp_source_event_seq c = last_seq (from_seq checkpoint) ds"
        if "r = Inr (c, k)" for c k
        using ds(2) that r by (auto simp: delivers_def ReplayCheckpoint_of_iff)
    qed (use ds tr in \<open>auto simp: delivers_def within_def\<close>)
  qed
qed

lemma recover_trace:
  assumes rec: "records sim trace"
    and run: "recover_current_frontier src sim s t checkpoint n m = Some (r, m')"
  obtains ds where "trace m' = trace m @ ds"
    "gapless (from_seq checkpoint) (from_time (cs_play_start_ns s - cs_warmup_ns s) checkpoint) ds"
    "within (cs_play_start_ns s - cs_warmup_ns s) t ds"
    "\<And>c k. r = Inr (c, k) \<Longrightarrow> k = int (length ds) \<and> cp_logical_time_ns c = t \<and>
       cp_source_event_seq c = last_seq (from_seq checkpoint) ds \<and> from_time t checkpoint \<le> t"
proof (cases "\<exists>c. checkpoint = Some c \<and> t \<le> cp_logical_time_ns c")
  case False
  then have "run_until src sim (cs_manifest_hash s) (cs_play_start_ns s - cs_warmup_ns s) t checkpoint n m = Some (r, m')"
    using run by (auto simp: recover_current_frontier_def split: option.splits)
  then show ?thesis
  proof (rule run_until_trace [OF rec])
    fix ds
    assume ds: "trace m' = trace m @ ds" "gapless (from_seq checkpoint) (from_time (cs_play_start_ns s - cs_warmup_ns s) checkpoint) ds"
      "within (cs_play_start_ns s - cs_warmup_ns s) t ds"
      and r: "\<And>c k. r = Inr (c, k) \<Longrightarrow> k = int (length ds) \<and> cp_logical_time_ns c = t \<and>
       cp_source_event_seq c = last_seq (from_seq checkpoint) ds"
    have "from_time t checkpoint \<le> t" using False by (cases checkpoint) auto
    with that [OF ds] r show ?thesis by blast
  qed
next
  case True
  then obtain c where c: "checkpoint = Some c" "t \<le> cp_logical_time_ns c" by blast
  obtain s m1 where rs: "sim_restore sim checkpoint m = (s, m1)" by fastforce
  have tr: "trace m1 = trace m" using rec rs by (metis records_def snd_conv)
  from run rs c have "m' = m \<or> m' = m1" "\<And>c' k. r = Inr (c', k) \<Longrightarrow> c' = c \<and> k = 0 \<and> cp_logical_time_ns c = t"
    by (auto simp: recover_current_frontier_def split: sum.splits if_splits)
  with tr c that [of "[]"] show ?thesis by fastforce
qed

lemma advance_prepare_spec:
  assumes "advance_prepare d i p v target n = Inr (session, s, t, stored)"
  shows "get_session d i p = Inr session \<and> rec_version session = v \<and> rec_status session = RUNNING \<and>
    rec_setup session = Some s \<and> rec_logical_time_ns session = Some t \<and> t \<le> target \<and> target \<le> play_end_ns s \<and>
    0 < n \<and> n \<le> 100000 \<and> load_latest d i p = Inr stored"
  using assms by (auto simp: advance_prepare_def require_running_def)

lemma advance_run_cases [consumes 1, case_names run_fails advance_fails save_fails finished]:
  assumes "advance_run src sim i p session s target n c k d m = Some (r, d', m')"
  obtains (run_fails) e where "run_until src sim (cs_manifest_hash s) (cs_play_start_ns s - cs_warmup_ns s) target (Some c) n m
        = Some (Inl e, m')" "r = Inl e" "d' = d"
  | (advance_fails) x e where "run_until src sim (cs_manifest_hash s) (cs_play_start_ns s - cs_warmup_ns s) target (Some c) n m
        = Some (Inr x, m')" "advance i p (rec_version session) target d = Inl e" "r = Inl e" "d' = d"
  | (save_fails) c' k' adv e where "run_until src sim (cs_manifest_hash s) (cs_play_start_ns s - cs_warmup_ns s) target (Some c) n m
        = Some (Inr (c', k'), m')" "advance i p (rec_version session) target d = Inr (adv, d')"
      "save i p (rec_version adv) c' d' = Inl e" "r = Inl e"
  | (finished) c' k' adv d1 where "run_until src sim (cs_manifest_hash s) (cs_play_start_ns s - cs_warmup_ns s) target (Some c) n m
        = Some (Inr (c', k'), m')" "advance i p (rec_version session) target d = Inr (adv, d1)"
      "save i p (rec_version adv) c' d1 = Inr ((), d')"
      "r = Inr \<lparr>ra_session = adv, ra_checkpoint = c', ra_applied_inputs = k', ra_recovered_inputs = k\<rparr>"
proof -
  let ?run = "run_until src sim (cs_manifest_hash s) (cs_play_start_ns s - cs_warmup_ns s) target (Some c) n m"
  from assms obtain r1 m1 where ru: "?run = Some (r1, m1)" by (auto simp: advance_run_def bind_eq_Some_conv)
  note a = assms [unfolded advance_run_def ru]
  show ?thesis
  proof (cases r1)
    case (Inl e)
    with a ru show ?thesis by (intro run_fails) auto
  next
    case r1: (Inr x)
    obtain c' k' where x: "x = (c', k')" by (cases x)
    show ?thesis
    proof (cases "advance i p (rec_version session) target d")
      case (Inl e)
      with a ru r1 x show ?thesis by (intro advance_fails) auto
    next
      case adv: (Inr y)
      obtain adv d1 where y: "y = (adv, d1)" by (cases y)
      show ?thesis
      proof (cases "save i p (rec_version adv) c' d1")
        case (Inl e)
        with a ru r1 x adv y show ?thesis by (intro save_fails) auto
      next
        case (Inr z)
        with a ru r1 x adv y show ?thesis by (cases z) (intro finished, auto)
      qed
    qed
  qed
qed

lemma advance_run_trace:
  assumes rec: "records sim trace" and run: "advance_run src sim i p session s target n c k d m = Some (r, d', m')"
  shows "\<exists>ds. trace m' = trace m @ ds \<and> gapless (cp_source_event_seq c) (cp_logical_time_ns c) ds \<and>
    within (cs_play_start_ns s - cs_warmup_ns s) target ds \<and>
    (\<forall>res. r = Inr res \<longrightarrow> ra_recovered_inputs res = k \<and> ra_applied_inputs res = int (length ds) \<and>
       cp_logical_time_ns (ra_checkpoint res) = target)"
proof -
  from run obtain r1 where ru: "run_until src sim (cs_manifest_hash s) (cs_play_start_ns s - cs_warmup_ns s) target (Some c) n m
      = Some (r1, m')"
    and r: "\<And>res. r = Inr res \<Longrightarrow> r1 = Inr (ra_checkpoint res, ra_applied_inputs res) \<and> ra_recovered_inputs res = k"
    by (cases rule: advance_run_cases) auto
  from ru show ?thesis by (rule run_until_trace [OF rec]) (use r in fastforce)
qed

lemma advance_to_cases:
  assumes "advance_to src sim i p v target n d m = Some (r, d', m')"
  obtains (refused) e where "r = Inl e" "m' = m"
  | (unrecovered) session s t stored rc m1 e where "advance_prepare d i p v target n = Inr (session, s, t, stored)"
      "recover_current_frontier src sim s t stored n m = Some (rc, m1)" "r = Inl e" "m' = m1"
  | (arrived) session s t stored c k m1 where "advance_prepare d i p v target n = Inr (session, s, t, stored)"
      "recover_current_frontier src sim s t stored n m = Some (Inr (c, k), m1)" "target = t" "m' = m1"
      "r = Inr \<lparr>ra_session = session, ra_checkpoint = c, ra_applied_inputs = 0, ra_recovered_inputs = k\<rparr>"
  | (advanced) session s t stored c k m1 d1 where "advance_prepare d i p v target n = Inr (session, s, t, stored)"
      "recover_current_frontier src sim s t stored n m = Some (Inr (c, k), m1)"
      "target \<noteq> t" "advance_run src sim i p session s target n c k d1 m1 = Some (r, d', m')"
proof (cases "advance_prepare d i p v target n")
  case (Inl e)
  with assms show ?thesis by (intro refused) (auto simp: advance_to_def)
next
  case prep: (Inr q)
  obtain session s t stored where q: "q = (session, s, t, stored)" by (cases q)
  with assms prep obtain rc m1 where rc: "recover_current_frontier src sim s t stored n m = Some (rc, m1)"
    by (auto simp: advance_to_def bind_eq_Some_conv)
  let ?mid = "bindR rc (\<lambda>(c, k). bindR (require (cp_logical_time_ns c = t) (replay_error RE_SNAPSHOT_CORRUPT)) (\<lambda>_.
     bindR (save i p (rec_version session) c d) (\<lambda>(_, d). Inr (c, k, d))))"
  note a = assms [unfolded advance_to_def prep q] rc
  show ?thesis
  proof (cases ?mid)
    case (Inl e)
    with a show ?thesis by (intro unrecovered [OF prep [unfolded q] rc]) auto
  next
    case (Inr x)
    then obtain c k d1 where x: "x = (c, k, d1)" "rc = Inr (c, k)" by (cases x) auto
    with a Inr arrived [OF prep [unfolded q] rc [unfolded x(2)]] advanced [OF prep [unfolded q] rc [unfolded x(2)], of d1]
    show ?thesis by (auto split: if_splits)
  qed
qed

lemma advance_to_deliveries:
  assumes rec: "records sim trace" and adv: "advance_to src sim i p v target n d m = Some (r, d', m')"
  obtains (refused) e where "r = Inl e" "m' = m"
  | (ran) session s t stored rc m1 es where "advance_prepare d i p v target n = Inr (session, s, t, stored)"
      "recover_current_frontier src sim s t stored n m = Some (rc, m1)" "trace m' = trace m1 @ es"
      "within (cs_play_start_ns s - cs_warmup_ns s) target es"
      "es = [] \<or> (\<exists>c k. rc = Inr (c, k) \<and> gapless (cp_source_event_seq c) (cp_logical_time_ns c) es)"
      "\<And>res. r = Inr res \<Longrightarrow> \<exists>c k. rc = Inr (c, k) \<and> ra_recovered_inputs res = k \<and>
         ra_applied_inputs res = int (length es) \<and> (if target = t then ra_checkpoint res = c else cp_logical_time_ns (ra_checkpoint res) = target)"
  using adv
proof (cases rule: advance_to_cases)
  case (advanced session s t stored c k m1 d1)
  obtain es where "trace m' = trace m1 @ es"
    "gapless (cp_source_event_seq c) (cp_logical_time_ns c) es" "within (cs_play_start_ns s - cs_warmup_ns s) target es"
    "\<And>res. r = Inr res \<Longrightarrow> ra_recovered_inputs res = k \<and> ra_applied_inputs res = int (length es) \<and>
       cp_logical_time_ns (ra_checkpoint res) = target"
    using advance_run_trace [OF rec advanced(4)] by metis
  with advanced show ?thesis by (intro ran) auto
qed (rule refused ran; auto)+

lemma recovery_then:
  assumes rec: "records sim trace" and rc: "recover_current_frontier src sim s t stored n m = Some (rc, m1)"
    and es: "es = [] \<or> (\<exists>c k. rc = Inr (c, k) \<and> gapless (cp_source_event_seq c) (cp_logical_time_ns c) es)"
  obtains ds where "trace m1 = trace m @ ds"
    "gapless (from_seq stored) (min (from_time (cs_play_start_ns s - cs_warmup_ns s) stored) t) (ds @ es)"
    "within (cs_play_start_ns s - cs_warmup_ns s) t ds"
    "\<And>c k. rc = Inr (c, k) \<Longrightarrow> k = int (length ds) \<and> cp_logical_time_ns c = t"
proof -
  let ?w = "cs_play_start_ns s - cs_warmup_ns s"
  let ?u = "min (from_time ?w stored) t"
  obtain ds where ds: "trace m1 = trace m @ ds" "gapless (from_seq stored) (from_time ?w stored) ds" "within ?w t ds"
    and rc': "\<And>c k. rc = Inr (c, k) \<Longrightarrow> k = int (length ds) \<and> cp_logical_time_ns c = t \<and>
       cp_source_event_seq c = last_seq (from_seq stored) ds \<and> from_time t stored \<le> t"
    by (rule recover_trace [OF rec rc]) blast
  have "gapless (from_seq stored) ?u ds" by (rule gapless_mono [OF ds(2)]) simp
  moreover have "gapless (last_seq (from_seq stored) ds) (last_time ?u ds) es"
    using es rc' last_time_le [OF ds(3), of ?u] by (auto intro: gapless_mono)
  ultimately show ?thesis using ds rc' by (intro that) (auto simp: gapless_append)
qed


section \<open>The run as a fold over the log\<close>

text \<open>The documented behaviour of the two ports: a source serves, in order, the inputs of one log after a position and
  up to a time; a simulator restores what it is given and is a function of its continuation state.\<close>

definition pending :: "ReplayInput list \<Rightarrow> int option \<Rightarrow> int \<Rightarrow> ReplayInput list" where
  "pending log after through = filter (\<lambda>x. (case after of None \<Rightarrow> True | Some s \<Rightarrow> s < in_source_event_seq x) \<and>
     in_logical_ts_ns x \<le> through) log"

definition serves :: "source \<Rightarrow> string \<Rightarrow> ReplayInput list \<Rightarrow> bool" where
  "serves src h log \<longleftrightarrow>
     (\<forall>after through limit. src h after through limit = Inr (take (nat limit) (pending log after through)))"

definition canonical_log :: "int \<Rightarrow> ReplayInput list \<Rightarrow> bool" where
  "canonical_log w log \<longleftrightarrow> gapless None w log"

definition deterministic ::
    "'m simulator \<Rightarrow> SimulatorState \<Rightarrow> (SimulatorState \<Rightarrow> ReplayInput \<Rightarrow> SimulatorState res) \<Rightarrow>
     ('m \<Rightarrow> SimulatorState) \<Rightarrow> bool" where
  "deterministic sim pristine step current \<longleftrightarrow>
     (\<forall>m. \<exists>m'. sim_restore sim None m = (Inr pristine, m') \<and> current m' = pristine) \<and>
     (\<forall>c m. \<exists>m'. sim_restore sim (Some c) m = (Inr (cp_simulator c), m') \<and> current m' = cp_simulator c) \<and>
     (\<forall>x m. \<exists>m'. sim_apply sim x (ss_state_version (current m)) m = (step (current m) x, m') \<and>
        (\<forall>st. step (current m) x = Inr st \<longrightarrow> current m' = st))"

definition replay_step ::
    "(SimulatorState \<Rightarrow> ReplayInput \<Rightarrow> SimulatorState res) \<Rightarrow> int \<Rightarrow> int \<Rightarrow> cursor \<Rightarrow> ReplayInput \<Rightarrow> cursor res" where
  "replay_step step w target cur x =
     bindR (validate_source_item x (cur_after_seq cur) (cur_prior_time cur) w target) (\<lambda>_.
     bindR (step (cur_state cur) x) (\<lambda>st.
     bindR (validate_transition (cur_state cur) st) (\<lambda>_.
     Inr \<lparr>cur_state = st, cur_after_seq = Some (in_source_event_seq x),
          cur_prior_time = in_logical_ts_ns x, cur_applied = cur_applied cur + 1\<rparr>)))"

lemma apply_batch_fold:
  assumes "deterministic sim pristine step current"
  shows "current m = cur_state cur \<Longrightarrow>
    \<exists>m'. apply_batch sim w target items cur m = (foldR (replay_step step w target) cur items, m') \<and>
      (\<forall>cur'. foldR (replay_step step w target) cur items = Inr cur' \<longrightarrow> current m' = cur_state cur')"
proof (induction items arbitrary: cur m)
  case (Cons x items)
  obtain m1 where ap: "sim_apply sim x (ss_state_version (cur_state cur)) m = (step (cur_state cur) x, m1)"
    and cur: "\<And>st. step (cur_state cur) x = Inr st \<Longrightarrow> current m1 = st"
    using assms Cons.prems unfolding deterministic_def by metis
  show ?case
  proof (cases "replay_step step w target cur x")
    case (Inl e)
    with ap show ?thesis by (auto simp: replay_step_def bindR_eq_Inl)
  next
    case (Inr cur1)
    then have st: "step (cur_state cur) x = Inr (cur_state cur1)" by (auto simp: replay_step_def)
    have "apply_batch sim w target (x # items) cur m = apply_batch sim w target items cur1 m1"
      using Inr ap by (auto simp: replay_step_def)
    with Inr Cons.IH [OF cur [OF st]] show ?thesis by simp
  qed
qed simp

lemma replay_step_cursor:
  "foldR (replay_step step w target) cur xs = Inr cur' \<Longrightarrow>
     cur_after_seq cur' = last_seq (cur_after_seq cur) xs \<and> cur_prior_time cur' = last_time (cur_prior_time cur) xs \<and>
     cur_applied cur' = cur_applied cur + int (length xs)"
  by (induction xs arbitrary: cur) (auto simp: replay_step_def)

lemma gapless_sorted: "gapless after prior xs \<Longrightarrow> sorted_wrt (<) (map in_source_event_seq xs)"
proof (induction xs arbitrary: after prior)
  case (Cons x xs)
  have "in_source_event_seq x < in_source_event_seq y" if "y \<in> set xs" for y
    using that gapless_seq [of "Some (in_source_event_seq x)" "in_logical_ts_ns x" xs] Cons.prems
    by (auto simp: in_set_conv_nth next_seq_def)
  with Cons show ?case by auto
qed simp

lemma pending_drop:
  assumes "sorted_wrt (<) (map in_source_event_seq log)" and "take n (pending log after through) \<noteq> []"
  shows "pending log (last_seq after (take n (pending log after through))) through = drop n (pending log after through)"
proof -
  let ?P = "pending log after through"
  let ?s = "in_source_event_seq (last (take n ?P))"
  have sorted: "sorted_wrt (\<lambda>x y. in_source_event_seq x < in_source_event_seq y) ?P"
    using assms(1) by (simp add: pending_def sorted_wrt_map sorted_wrt_filter)
  have "last (take n ?P) \<in> set ?P" using last_in_set [OF assms(2)] by (rule in_set_takeD)
  then have after: "case after of None \<Rightarrow> True | Some s \<Rightarrow> s < ?s" by (simp add: pending_def split: option.splits)
  have "pending log (Some ?s) through = filter (\<lambda>x. ?s < in_source_event_seq x) ?P"
    using after by (auto simp: pending_def intro!: filter_cong split: option.splits)
  also have "\<dots> = drop n ?P" by (rule resume_after_page [OF sorted assms(2)])
  finally show ?thesis using assms(2) by (simp add: last_seq_def)
qed

lemma run_batches_unfold:
  assumes "src h (cur_after_seq cur) target n = Inr b" and "\<not> n < int (length b)" and "b \<noteq> []"
    and "apply_batch sim w target b cur m = (r, m1)"
  shows "run_batches src sim h w target n cur m =
    (case r of Inl e \<Rightarrow> Some (Inl e, m1)
     | Inr cur' \<Rightarrow> if int (length b) < n then Some (Inr cur', m1) else run_batches src sim h w target n cur' m1)"
  by (subst run_batches.simps) (simp add: assms)

lemma run_batches_fold:
  assumes ser: "serves src h log" and sorted: "sorted_wrt (<) (map in_source_event_seq log)" and n: "0 < n"
    and det: "deterministic sim pristine step current"
  shows "current m = cur_state cur \<Longrightarrow>
    \<exists>m'. run_batches src sim h w target n cur m =
      Some (foldR (replay_step step w target) cur (pending log (cur_after_seq cur) target), m')"
proof (induction "length (pending log (cur_after_seq cur) target)" arbitrary: cur m rule: less_induct)
  case less
  let ?P = "pending log (cur_after_seq cur) target"
  let ?b = "take (nat n) ?P"
  have src: "src h (cur_after_seq cur) target n = Inr ?b" using ser by (simp add: serves_def)
  have le: "\<not> n < int (length ?b)" using n by simp
  show ?case
  proof (cases "?b = []")
    case True
    with n have "?P = []" by simp
    then show ?thesis by (subst run_batches.simps) (use src n in simp)
  next
    case False
    obtain m1 where ap: "apply_batch sim w target ?b cur m = (foldR (replay_step step w target) cur ?b, m1)"
      and c1: "\<And>cur'. foldR (replay_step step w target) cur ?b = Inr cur' \<Longrightarrow> current m1 = cur_state cur'"
      using apply_batch_fold [OF det less.prems] by metis
    note unf = run_batches_unfold [where src = src and cur = cur, OF src le False ap]
    have fold: "foldR (replay_step step w target) cur ?P =
        bindR (foldR (replay_step step w target) cur ?b) (\<lambda>c. foldR (replay_step step w target) c (drop (nat n) ?P))"
      using foldR_append [of _ cur ?b "drop (nat n) ?P"] by simp
    show ?thesis
    proof (cases "foldR (replay_step step w target) cur ?b")
      case (Inl e)
      with unf fold show ?thesis by simp
    next
      case (Inr cur')
      have after: "pending log (cur_after_seq cur') target = drop (nat n) ?P"
        using pending_drop [OF sorted False] replay_step_cursor [OF Inr] by simp
      show ?thesis
      proof (cases "int (length ?b) < n")
        case True
        then have "drop (nat n) ?P = []" by simp
        then have "foldR (replay_step step w target) cur ?P = Inr cur'" using fold Inr by simp
        with unf Inr show ?thesis unfolding if_P [OF True] by simp
      next
        case more: False
        have "length (pending log (cur_after_seq cur') target) < length ?P"
          using False n by (cases ?P) (auto simp: after)
        from less.hyps [OF this c1 [OF Inr]] obtain m' where
          "run_batches src sim h w target n cur' m1 = Some (foldR (replay_step step w target) cur' (drop (nat n) ?P), m')"
          unfolding after by blast
        with unf Inr fold show ?thesis unfolding if_not_P [OF more] by simp
      qed
    qed
  qed
qed

text \<open>The reference semantics of a run: one fold over the inputs of the log.\<close>

definition start_state :: "SimulatorState \<Rightarrow> ReplayCheckpoint option \<Rightarrow> SimulatorState" where
  "start_state pristine checkpoint = (case checkpoint of None \<Rightarrow> pristine | Some c \<Rightarrow> cp_simulator c)"

definition replay_from where
  "replay_from step pristine w log target checkpoint =
     bindR (validate_simulator_state (start_state pristine checkpoint)) (\<lambda>_.
     bindR (foldR (replay_step step w target)
       \<lparr>cur_state = start_state pristine checkpoint, cur_after_seq = from_seq checkpoint,
        cur_prior_time = from_time w checkpoint, cur_applied = 0\<rparr> (pending log (from_seq checkpoint) target)) (\<lambda>cur.
     bindR (ReplayCheckpoint_of target (cur_after_seq cur) (cur_state cur)) (\<lambda>c. Inr (c, cur_applied cur))))"

definition sequenced :: "ReplayInput list \<Rightarrow> bool" where
  "sequenced log \<longleftrightarrow> sorted_wrt (<) (map in_source_event_seq log)"

lemma canonical_sequenced: "canonical_log w log \<Longrightarrow> sequenced log"
  unfolding canonical_log_def sequenced_def by (rule gapless_sorted)

lemma run_until_replay_from:
  assumes "serves src h log" and "sequenced log" and "0 < n" and "deterministic sim pristine step current"
  shows "\<exists>m'. run_until src sim h w target checkpoint n m = Some (replay_from step pristine w log target checkpoint, m')"
proof -
  let ?st = "start_state pristine checkpoint"
  have sorted: "sorted_wrt (<) (map in_source_event_seq log)" using assms(2) by (simp add: sequenced_def)
  obtain m1 where rs: "sim_restore sim checkpoint m = (Inr ?st, m1)" and cur: "current m1 = ?st"
    using assms(4) unfolding deterministic_def start_state_def by (cases checkpoint) (simp, metis)+
  have same: "(case checkpoint of None \<Rightarrow> Inr () | Some c \<Rightarrow> require_same_state ?st (cp_simulator c)) = Inr ()"
    by (simp add: start_state_def require_same_state_def split: option.splits)
  show ?thesis
  proof (cases "validate_simulator_state ?st")
    case (Inl e)
    with rs same show ?thesis by (simp add: run_until_def replay_from_def)
  next
    case (Inr u)
    let ?cur = "\<lparr>cur_state = ?st, cur_after_seq = from_seq checkpoint, cur_prior_time = from_time w checkpoint, cur_applied = 0\<rparr>"
    from run_batches_fold [OF assms(1) sorted assms(3,4), where cur = ?cur and m = m1 and w = w and target = target] cur
    obtain m' where "run_batches src sim h w target n ?cur m1 =
        Some (foldR (replay_step step w target) ?cur (pending log (from_seq checkpoint) target), m')" by auto
    with Inr rs same show ?thesis by (simp add: run_until_def replay_from_def)
  qed
qed

lemma gapless_times: "gapless after prior xs \<Longrightarrow> x \<in> set xs \<Longrightarrow> prior \<le> in_logical_ts_ns x"
proof (induction xs arbitrary: after prior)
  case (Cons y xs)
  then have "x = y \<or> in_logical_ts_ns y \<le> in_logical_ts_ns x" "prior \<le> in_logical_ts_ns y" by auto
  then show ?case by auto
qed simp

lemma filter_split_time:
  assumes "t1 \<le> t2"
  shows "gapless after prior xs \<Longrightarrow> filter (\<lambda>x. in_logical_ts_ns x \<le> t2) xs =
    filter (\<lambda>x. in_logical_ts_ns x \<le> t1) xs @
    filter (\<lambda>x. t1 < in_logical_ts_ns x \<and> in_logical_ts_ns x \<le> t2) xs"
proof (induction xs arbitrary: after prior)
  case (Cons x xs)
  show ?case
  proof (cases "in_logical_ts_ns x \<le> t1")
    case True
    with assms Cons show ?thesis by auto
  next
    case False
    then have "filter (\<lambda>x. in_logical_ts_ns x \<le> t1) (x # xs) = []"
      using gapless_times [of "Some (in_source_event_seq x)" "in_logical_ts_ns x" xs] Cons.prems by (fastforce simp: filter_empty_conv)
    moreover have "t1 < in_logical_ts_ns y" if "y \<in> set (x # xs)" for y
      using that gapless_times [of "Some (in_source_event_seq x)" "in_logical_ts_ns x" xs y] Cons.prems False by auto
    ultimately show ?thesis using filter_cong [of "x # xs" "x # xs"] by (metis (no_types, lifting) append_Nil)
  qed
qed simp

lemma fold_target:
  assumes "within w t1 xs" and "t1 \<le> t2"
  shows "foldR (replay_step step w t2) cur xs = foldR (replay_step step w t1) cur xs"
  using assms(1)
proof (induction xs arbitrary: cur)
  case (Cons x xs)
  then have "replay_step step w t2 cur x = replay_step step w t1 cur x"
    using assms(2) by (simp add: within_def replay_step_def validate_source_item_def)
  moreover have "within w t1 xs" using Cons.prems by (simp add: within_def)
  ultimately show ?case using Cons.IH by simp
qed simp

text \<open>The fold without the time of the cursor and with a relative count.\<close>

definition landing :: "int \<Rightarrow> cursor res \<Rightarrow> (SimulatorState \<times> int option \<times> int) res" where
  "landing k r = bindR r (\<lambda>cur. Inr (cur_state cur, cur_after_seq cur, cur_applied cur - k))"

lemma fold_count:
  "landing k1 (foldR (replay_step step w t) \<lparr>cur_state = s, cur_after_seq = a, cur_prior_time = p, cur_applied = k1\<rparr> xs) =
   landing k2 (foldR (replay_step step w t) \<lparr>cur_state = s, cur_after_seq = a, cur_prior_time = p, cur_applied = k2\<rparr> xs)"
proof -
  let ?c = "\<lambda>s a p k. \<lparr>cur_state = s, cur_after_seq = a, cur_prior_time = p, cur_applied = k\<rparr>"
  have "foldR (replay_step step w t) (?c s a p (k1 + j)) xs =
      bindR (foldR (replay_step step w t) (?c s a p k1) xs) (\<lambda>c. Inr (c\<lparr>cur_applied := cur_applied c + j\<rparr>))" for j k1
  proof (induction xs arbitrary: s a p k1)
    case (Cons x xs)
    show ?case
    proof (cases "replay_step step w t (?c s a p k1) x")
      case (Inl e)
      then have "replay_step step w t (?c s a p (k1 + j)) x = Inl e" by (auto simp: replay_step_def bindR_eq_Inl)
      with Inl show ?thesis by simp
    next
      case (Inr c)
      then obtain st where st: "c = ?c st (Some (in_source_event_seq x)) (in_logical_ts_ns x) (k1 + 1)"
        by (auto simp: replay_step_def)
      then have "replay_step step w t (?c s a p (k1 + j)) x =
          Inr (?c st (Some (in_source_event_seq x)) (in_logical_ts_ns x) (k1 + 1 + j))"
        using Inr by (auto simp: replay_step_def)
      with Inr st Cons.IH [of st _ _ "k1 + 1"] show ?thesis by simp
    qed
  qed simp
  from this [of k1 "k2 - k1"] show ?thesis
    by (cases "foldR (replay_step step w t) (?c s a p k1) xs") (simp_all add: landing_def)
qed

lemma fold_restart:
  assumes "\<forall>x\<in>set xs. p1 \<le> in_logical_ts_ns x \<and> p2 \<le> in_logical_ts_ns x"
  shows "landing k1 (foldR (replay_step step w t) \<lparr>cur_state = s, cur_after_seq = a, cur_prior_time = p1, cur_applied = k1\<rparr> xs) =
   landing k2 (foldR (replay_step step w t) \<lparr>cur_state = s, cur_after_seq = a, cur_prior_time = p2, cur_applied = k2\<rparr> xs)"
proof (cases xs)
  case Nil
  then show ?thesis by (simp add: landing_def)
next
  case (Cons x ys)
  have "replay_step step w t \<lparr>cur_state = s, cur_after_seq = a, cur_prior_time = p1, cur_applied = k\<rparr> x =
      replay_step step w t \<lparr>cur_state = s, cur_after_seq = a, cur_prior_time = p2, cur_applied = k\<rparr> x" for k
    using assms Cons by (simp add: replay_step_def validate_source_item_def)
  then have "foldR (replay_step step w t) \<lparr>cur_state = s, cur_after_seq = a, cur_prior_time = p1, cur_applied = k1\<rparr> xs =
      foldR (replay_step step w t) \<lparr>cur_state = s, cur_after_seq = a, cur_prior_time = p2, cur_applied = k1\<rparr> xs"
    using Cons by simp
  then show ?thesis using fold_count by metis
qed

lemma pending_None: "pending log None t = filter (\<lambda>x. in_logical_ts_ns x \<le> t) log"
  by (simp add: pending_def)

lemma canonical_within: "canonical_log w log \<Longrightarrow> within w t (pending log None t)"
  using gapless_times by (auto simp: canonical_log_def within_def pending_None)

lemma pending_split:
  assumes "canonical_log w log" and "t1 \<le> t2"
  shows "pending log None t2 = pending log None t1 @ pending log (last_seq None (pending log None t1)) t2 \<and>
    (\<forall>x\<in>set (pending log (last_seq None (pending log None t1)) t2). t1 < in_logical_ts_ns x)"
proof -
  let ?A = "pending log None t1"
  let ?B = "filter (\<lambda>x. t1 < in_logical_ts_ns x \<and> in_logical_ts_ns x \<le> t2) log"
  have AB: "pending log None t2 = ?A @ ?B"
    unfolding pending_None by (rule filter_split_time [OF assms(2) assms(1) [unfolded canonical_log_def]])
  have "pending log (last_seq None ?A) t2 = ?B"
  proof (cases "?A = []")
    case True
    then show ?thesis using AB by simp
  next
    case False
    have "sorted_wrt (<) (map in_source_event_seq log)" using canonical_sequenced [OF assms(1)] by (simp add: sequenced_def)
    from pending_drop [OF this, of "length ?A" None t2] show ?thesis using False by (simp add: AB)
  qed
  with AB show ?thesis by simp
qed

lemma fold_valid:
  "foldR (replay_step step w t) cur xs = Inr cur' \<Longrightarrow> validate_simulator_state (cur_state cur) = Inr () \<Longrightarrow>
   validate_simulator_state (cur_state cur') = Inr ()"
proof (induction xs arbitrary: cur)
  case (Cons x xs)
  then obtain c where "replay_step step w t cur x = Inr c" "foldR (replay_step step w t) c xs = Inr cur'" by auto
  moreover from this(1) have "validate_simulator_state (cur_state c) = Inr ()"
    by (auto simp: replay_step_def validate_transition_def)
  ultimately show ?case using Cons.IH by blast
qed simp

lemma replay_from_split:
  assumes log: "canonical_log w log" and t: "t1 \<le> t2"
    and one: "replay_from step pristine w log t1 None = Inr (c1, k1)"
  shows "replay_from step pristine w log t2 (Some c1) =
    bindR (replay_from step pristine w log t2 None) (\<lambda>(c, k). Inr (c, k - k1))"
proof -
  let ?A = "pending log None t1"
  let ?B = "pending log (last_seq None ?A) t2"
  let ?c0 = "\<lparr>cur_state = pristine, cur_after_seq = None, cur_prior_time = w, cur_applied = 0\<rparr>"
  from one obtain cur where v: "validate_simulator_state pristine = Inr ()"
    and A: "foldR (replay_step step w t1) ?c0 ?A = Inr cur"
    and c1: "c1 = \<lparr>cp_logical_time_ns = t1, cp_source_event_seq = cur_after_seq cur, cp_simulator = cur_state cur\<rparr>"
    and k1: "k1 = cur_applied cur"
    by (auto simp: replay_from_def start_state_def ReplayCheckpoint_of_iff)
  have ok: "validate_simulator_state (cp_simulator c1) = Inr ()" using fold_valid [OF A] v by (simp add: c1)
  have cur: "cur_after_seq cur = last_seq None ?A" "cur_prior_time cur = last_time w ?A"
    using replay_step_cursor [OF A] by auto
  note split = pending_split [OF log t]
  have A2: "foldR (replay_step step w t2) ?c0 ?A = Inr cur"
    using A fold_target [OF canonical_within [OF log] t] by simp
  let ?full = "foldR (replay_step step w t2) ?c0 (pending log None t2)"
  let ?tail = "foldR (replay_step step w t2) \<lparr>cur_state = cur_state cur, cur_after_seq = cur_after_seq cur,
      cur_prior_time = t1, cur_applied = 0\<rparr> ?B"
  have "landing k1 ?full = landing k1 (foldR (replay_step step w t2) cur ?B)"
    using split A2 by (simp add: foldR_append)
  also have "\<dots> = landing 0 ?tail"
  proof -
    have lo: "w \<le> in_logical_ts_ns x" if "x \<in> set ?B" for x
      using log that gapless_times by (auto simp: canonical_log_def pending_def)
    have hi: "t1 < in_logical_ts_ns x" if "x \<in> set ?B" for x using split that by blast
    have "last_time w ?A \<le> max w t1"
    proof (cases "?A = []")
      case False
      then have "last ?A \<in> set ?A" by simp
      then have "in_logical_ts_ns (last ?A) \<le> t1" using canonical_within [OF log, of t1] by (auto simp: within_def)
      with False show ?thesis by (simp add: last_time_def)
    qed simp
    then have "\<forall>x\<in>set ?B. cur_prior_time cur \<le> in_logical_ts_ns x \<and> t1 \<le> in_logical_ts_ns x"
      using lo hi unfolding cur(2) by (metis dual_order.trans less_imp_le max_def)
    then show ?thesis using fold_restart [of ?B "cur_prior_time cur" t1 k1 step w t2 "cur_state cur" "cur_after_seq cur" 0]
      by (cases cur) (simp add: k1)
  qed
  finally have land: "landing 0 ?tail = landing k1 ?full" by simp
  have "replay_from step pristine w log t2 (Some c1) =
      bindR (landing 0 ?tail) (\<lambda>(st, a, k). bindR (ReplayCheckpoint_of t2 a st) (\<lambda>c. Inr (c, k)))"
    using ok cur by (cases ?tail) (simp_all add: replay_from_def start_state_def c1 landing_def)
  also have "\<dots> = bindR (replay_from step pristine w log t2 None) (\<lambda>(c, k). Inr (c, k - k1))"
    unfolding land using v by (cases ?full; cases "ReplayCheckpoint_of t2 (cur_after_seq (projr ?full)) (cur_state (projr ?full))")
      (simp_all add: replay_from_def start_state_def landing_def)
  finally show ?thesis .
qed

text \<open>C8: termination. With a source that serves one log in order of its sequence numbers and a deterministic simulator, a run
  from any checkpoint returns, for every positive batch size, and what it returns is one fold of the
  simulator over exactly the inputs after the checkpoint and up to the target.\<close>

theorem run_until_reference:
  assumes "serves src h log" and "sequenced log" and "deterministic sim pristine step current" and "0 < n"
  shows "\<exists>m'. run_until src sim h w target checkpoint n m =
    Some (replay_from step pristine w log target checkpoint, m')"
  using run_until_replay_from [OF assms(1,2,4,3)] by blast

text \<open>C9: equivalence. Replaying to a target in one run, or in two runs with the checkpoint of the first handed to the
  second, gives the same final checkpoint and in sum the same number of inputs, whatever the batch sizes and whatever
  the simulator was doing before: a crash between two advances is invisible.\<close>

theorem replay_resume_equivalent:
  assumes "serves src h log" and "canonical_log w log" and "deterministic sim pristine step current"
    and "0 < n1" and "0 < n2" and "0 < n3" and "t1 \<le> t2"
    and "run_until src sim h w t1 None n1 m1 = Some (Inr (c1, k1), m1')"
  shows "\<exists>whole m2' m3'. run_until src sim h w t2 None n3 m3 = Some (whole, m3') \<and>
    run_until src sim h w t2 (Some c1) n2 m2 = Some (bindR whole (\<lambda>(c, k). Inr (c, k - k1)), m2')"
proof -
  note run = run_until_replay_from [OF assms(1) canonical_sequenced [OF assms(2)] _ assms(3)]
  have "replay_from step pristine w log t1 None = Inr (c1, k1)"
    using run [OF assms(4), of w t1 None m1] assms(8) by auto
  from replay_from_split [OF assms(2,7) this] run [OF assms(6), of w t2 None m3] run [OF assms(5), of w t2 "Some c1" m2]
  show ?thesis by auto
qed

section \<open>Checkpoints\<close>

definition state_ok :: "SimulatorState \<Rightarrow> bool" where
  "state_ok s \<longleftrightarrow> in_u64 (ss_state_version s) \<and> is_sha256_hex (ss_state_hash s) \<and>
     (\<exists>fs. ss_canonical_snapshot s = sort_keys (JObj fs)) \<and> no_float (ss_canonical_snapshot s)"

definition checkpoint_ok :: "ReplayCheckpoint \<Rightarrow> bool" where
  "checkpoint_ok c \<longleftrightarrow> in_i64 (cp_logical_time_ns c) \<and>
     (case cp_source_event_seq c of None \<Rightarrow> True | Some s \<Rightarrow> in_u64 s) \<and> state_ok (cp_simulator c)"

lemma py_int_signed_str: "in_i64 n \<or> in_u64 n \<Longrightarrow> py_int (str_int n) = Inr n"
  by (rule py_int_str) (auto simp: range_defs)

lemma canonical_int_str: "in_i64 n \<or> in_u64 n \<Longrightarrow> canonical_int (JStr (str_int n)) = Inr n"
  using py_int_signed_str [of n] by (auto simp: canonical_int_def str_int_def Let_def)

lemma from_snapshot_iff:
  "SimulatorState_from_snapshot v h fs = Inr s \<longleftrightarrow> in_u64 v \<and> is_sha256_hex h \<and> no_float (JObj fs) \<and>
     s = \<lparr>ss_state_version = v, ss_state_hash = h, ss_canonical_snapshot = sort_keys (JObj fs)\<rparr>"
  by (auto simp: SimulatorState_from_snapshot_def replay_validate_u64_def replay_validate_hash_def replay_canonical_def
      in_u64_def)

lemma checkpoint_payload_ok:
  assumes "checkpoint_ok c"
  obtains fs where "checkpoint_payload c = Inr [(''checkpoint_format'', JStr CHECKPOINT_FORMAT),
          (''logical_time_ns'', JStr (str_int (cp_logical_time_ns c))), (''simulator_snapshot'', JObj fs),
          (''source_event_seq'', (case cp_source_event_seq c of None \<Rightarrow> JNull | Some s \<Rightarrow> JStr (str_int s)))]"
    "sort_keys (JObj fs) = ss_canonical_snapshot (cp_simulator c)" "ss_canonical_snapshot (cp_simulator c) = JObj fs" "no_float (JObj fs)"
proof -
  from assms obtain gs where gs: "ss_canonical_snapshot (cp_simulator c) = sort_keys (JObj gs)"
    "no_float (ss_canonical_snapshot (cp_simulator c))" by (auto simp: checkpoint_ok_def state_ok_def)
  then obtain fs where fs: "ss_canonical_snapshot (cp_simulator c) = JObj fs" by (metis sort_keys.simps)
  then have "sort_keys (JObj fs) = JObj fs" using gs by (metis sort_keys_idem)
  with fs gs that show ?thesis by (simp add: checkpoint_payload_def simulator_snapshot_def)
qed

lemma decode_checkpoint_payload:
  assumes "checkpoint_ok c" and "checkpoint_payload c = Inr fs"
  shows "decode_checkpoint (JObj fs) (ss_state_version (cp_simulator c)) (ss_state_hash (cp_simulator c)) = Inr c"
proof -
  have *: "SimulatorState_from_snapshot (ss_state_version (cp_simulator c)) (ss_state_hash (cp_simulator c)) gs =
      Inr (cp_simulator c)" if "sort_keys (JObj gs) = ss_canonical_snapshot (cp_simulator c)" "no_float (JObj gs)" for gs
    using assms(1) that by (auto simp: from_snapshot_iff checkpoint_ok_def state_ok_def)
  have of: "ReplayCheckpoint_of (cp_logical_time_ns c) (cp_source_event_seq c) (cp_simulator c) = Inr c"
    using assms(1) by (auto simp: ReplayCheckpoint_of_iff checkpoint_ok_def split: option.splits)
  from assms(1) show ?thesis
  proof (rule checkpoint_payload_ok)
    fix gs
    assume "checkpoint_payload c = Inr [(''checkpoint_format'', JStr CHECKPOINT_FORMAT),
          (''logical_time_ns'', JStr (str_int (cp_logical_time_ns c))), (''simulator_snapshot'', JObj gs),
          (''source_event_seq'', (case cp_source_event_seq c of None \<Rightarrow> JNull | Some s \<Rightarrow> JStr (str_int s)))]"
    then have fs: "fs = [(''checkpoint_format'', JStr CHECKPOINT_FORMAT),
          (''logical_time_ns'', JStr (str_int (cp_logical_time_ns c))), (''simulator_snapshot'', JObj gs),
          (''source_event_seq'', (case cp_source_event_seq c of None \<Rightarrow> JNull | Some s \<Rightarrow> JStr (str_int s)))]"
      using assms(2) by simp
    assume "sort_keys (JObj gs) = ss_canonical_snapshot (cp_simulator c)" "no_float (JObj gs)"
    from * [OF this] of show ?thesis
      using assms(1) unfolding decode_checkpoint_def fs
      by (cases "cp_source_event_seq c") (simp_all add: checkpoint_ok_def canonical_int_str)
  qed
qed

lemma insort_snoc: "f a \<le> f x \<Longrightarrow> insort_key f a (ys @ [x]) = insort_key f a ys @ [x]"
  by (induction ys) auto

lemma sort_key_snoc: "\<forall>y\<in>set xs. f y \<le> f x \<Longrightarrow> sort_key f (xs @ [x]) = sort_key f xs @ [x]"
  by (induction xs) (auto simp: insort_snoc)

definition snapshot_of :: "string \<Rightarrow> int \<Rightarrow> ReplayCheckpoint \<Rightarrow> fields \<Rightarrow> snapshot_row" where
  "snapshot_of i v c fs = \<lparr>n_session_id = i, n_event_seq = v, n_state_version = ss_state_version (cp_simulator c),
     n_state_hash = ss_state_hash (cp_simulator c), n_state_json = JObj fs\<rparr>"

lemma require_principal_iff:
  "require_principal d i p = Inr u \<longleftrightarrow> (\<exists>row. session_by_id d i = Some row \<and> s_principal_id row = p)"
  by (auto simp: require_principal_def split: option.splits)

lemma save_fresh:
  assumes "snapshot_at d i v = None" and "require_principal d i p = Inr ()" and "0 < v" and "checkpoint_payload c = Inr fs"
  shows "save i p v c d = (if 0 < ss_state_version (cp_simulator c)
    then Inr ((), d\<lparr>db_snapshots := db_snapshots d @ [snapshot_of i v c fs]\<rparr>)
    else Inl (replay_error RE_SNAPSHOT_CONFLICT))"
proof -
  have "list_all (\<lambda>q. (n_session_id q, n_event_seq q) \<noteq> (i, v)) (db_snapshots d)"
    using assms(1) by (auto simp: snapshot_at_def find_None_iff list_all_iff)
  moreover have "session_by_id d i \<noteq> None" using assms(2) by (auto simp: require_principal_iff)
  ultimately show ?thesis
    using assms by (simp add: save_def save_body_def insert_snapshot_def snapshot_of_def)
qed

lemma save_existing:
  assumes "snapshot_at d i v = Some (snapshot_of i v c' fs')" and "require_principal d i p = Inr ()" and "0 < v"
    and "checkpoint_payload c = Inr fs" and "no_float (JObj fs)" and "no_float (JObj fs')"
  shows "save i p v c d =
    (if ss_state_version (cp_simulator c') = ss_state_version (cp_simulator c) \<and>
        ss_state_hash (cp_simulator c') = ss_state_hash (cp_simulator c) \<and> sort_keys (JObj fs') = sort_keys (JObj fs)
     then Inr ((), d) else Inl (replay_error RE_SNAPSHOT_CONFLICT))"
proof -
  have "dumps (JObj fs') = dumps (JObj fs) \<longleftrightarrow> sort_keys (JObj fs') = sort_keys (JObj fs)"
    using dumps_inject [OF assms(6,5)] by (auto simp: dumps_def)
  with assms show ?thesis
    by (simp add: save_def save_body_def snapshot_of_def replay_canonical_json_def del: sort_keys.simps)
qed

lemma payload_no_float: "checkpoint_ok c \<Longrightarrow> checkpoint_payload c = Inr fs \<Longrightarrow> no_float (JObj fs)"
  by (rule checkpoint_payload_ok [of c]) (auto split: option.splits)

lemma session_snapshots_snoc:
  assumes "\<forall>row\<in>set (session_snapshots d i). n_event_seq row < v"
  shows "session_snapshots (d\<lparr>db_snapshots := db_snapshots d @ [snapshot_of i v c fs]\<rparr>) i =
    session_snapshots d i @ [snapshot_of i v c fs]"
  unfolding session_snapshots_def using assms
  by (simp add: session_snapshots_def snapshot_of_def) (rule sort_key_snoc, fastforce)

lemma decode_snapshot_of:
  "checkpoint_ok c \<Longrightarrow> checkpoint_payload c = Inr fs \<Longrightarrow>
   decode_checkpoint (n_state_json (snapshot_of i v c fs)) (n_state_version (snapshot_of i v c fs))
     (n_state_hash (snapshot_of i v c fs)) = Inr c"
  by (simp add: snapshot_of_def decode_checkpoint_payload)

text \<open>With such ports an advance returns on every database.\<close>

lemma advance_to_returns:
  assumes "\<And>w target checkpoint m h. \<exists>y. run_until src sim h w target checkpoint n m = Some y"
  shows "\<exists>out d' m'. advance_to src sim i p v target n d m = Some (out, d', m')"
proof -
  have rec: "\<exists>y. recover_current_frontier src sim s t stored n m = Some y" for s t stored m
    using assms unfolding recover_current_frontier_def by (auto split: option.splits sum.splits prod.splits)
  have run: "\<exists>y. advance_run src sim i p session s target n c k d m = Some y" for session s c k d m
    using assms [of "cs_manifest_hash s" "cs_play_start_ns s - cs_warmup_ns s" target "Some c" m]
    unfolding advance_run_def by (auto split: sum.splits prod.splits)
  obtain e where "advance_prepare d i p v target n = Inl e \<or> (\<exists>a b c f. advance_prepare d i p v target n = Inr (a, b, c, f))"
    by (cases "advance_prepare d i p v target n") auto
  moreover have "\<exists>y. advance_to src sim i p v target n d m = Some y"
    if "advance_prepare d i p v target n = Inr (session, s, t, stored)" for session s t stored
  proof -
    obtain rc m1 where rc: "recover_current_frontier src sim s t stored n m = Some (rc, m1)" using rec by fastforce
    then show ?thesis using that run by (auto simp: advance_to_def split: sum.splits prod.splits)
  qed
  ultimately show ?thesis by (auto simp: advance_to_def)
qed


section \<open>Crash-safe advance\<close>

text \<open>The stored checkpoints of a session, given which checkpoints lie on its replay: each row holds such a
  checkpoint, none is ahead of the session, and a row of the current version is at the current frontier.\<close>

definition recoverable :: "(ReplayCheckpoint \<Rightarrow> bool) \<Rightarrow> db \<Rightarrow> string \<Rightarrow> SessionRecord \<Rightarrow> bool" where
  "recoverable on d i r \<longleftrightarrow>
     (\<forall>row\<in>set (session_snapshots d i). \<exists>c fs t. row = snapshot_of i (n_event_seq row) c fs \<and>
        checkpoint_payload c = Inr fs \<and> checkpoint_ok c \<and> on c \<and> rec_logical_time_ns r = Some t \<and>
        cp_logical_time_ns c \<le> t \<and> n_event_seq row \<le> rec_version r \<and>
        (n_event_seq row = rec_version r \<longrightarrow> cp_logical_time_ns c = t))"

lemma session_snapshots_key: "row \<in> set (session_snapshots d i) \<longleftrightarrow> row \<in> set (db_snapshots d) \<and> n_session_id row = i"
  by (auto simp: session_snapshots_def)

lemma snapshot_at_mem: "snapshot_at d i v = Some row \<Longrightarrow> row \<in> set (session_snapshots d i) \<and> n_event_seq row = v"
  unfolding snapshot_at_def by (auto simp: session_snapshots_key dest: find_SomeD)

lemma snapshots_state [simp]:
  "session_state (d\<lparr>db_snapshots := xs\<rparr>) = session_state d" "session_by_id (d\<lparr>db_snapshots := xs\<rparr>) = session_by_id d"
proof -
  show sb: "session_by_id (d\<lparr>db_snapshots := xs\<rparr>) = session_by_id d" by (simp add: session_by_id_def fun_eq_iff)
  show "session_state (d\<lparr>db_snapshots := xs\<rparr>) = session_state d"
    using session_state_cong [of "d\<lparr>db_snapshots := xs\<rparr>"] sb by (auto simp: session_events_def)
qed

lemma snapshots_inv [simp]: "sessions_inv (d\<lparr>db_snapshots := xs\<rparr>) = sessions_inv d"
  by (simp add: sessions_inv_def log_ok_def keys_ok_def raw_events_def)

lemma session_snapshots_cong: "db_snapshots d' = db_snapshots d \<Longrightarrow> session_snapshots d' = session_snapshots d"
  by (simp add: session_snapshots_def fun_eq_iff)

lemma recoverable_load:
  assumes "recoverable on d i r" and "require_principal d i p = Inr ()"
  shows "load_latest d i p = Inr None \<or> (\<exists>c t. load_latest d i p = Inr (Some c) \<and> on c \<and> rec_logical_time_ns r = Some t \<and>
    cp_logical_time_ns c \<le> t)"
proof (cases "session_snapshots d i = []")
  case True
  with assms(2) show ?thesis by (simp add: load_latest_def)
next
  case False
  let ?row = "last (session_snapshots d i)"
  from False have "?row \<in> set (session_snapshots d i)" by simp
  with assms(1) obtain c fs t where c: "?row = snapshot_of i (n_event_seq ?row) c fs" "checkpoint_payload c = Inr fs"
    "checkpoint_ok c" "on c" "rec_logical_time_ns r = Some t" "cp_logical_time_ns c \<le> t"
    unfolding recoverable_def by blast
  have "decode_checkpoint (n_state_json ?row) (n_state_version ?row) (n_state_hash ?row) = Inr c"
    by (subst (1 2 3) c(1)) (rule decode_snapshot_of [OF c(3,2)])
  with False assms(2) c(4-6) show ?thesis by (auto simp: load_latest_def Let_def)
qed

text \<open>Saving the frontier of the session keeps it recoverable.\<close>

lemma recoverable_save:
  assumes rec: "recoverable on d i r" and own: "require_principal d i p = Inr ()" and v: "rec_version r = v" "0 < v"
    and t: "rec_logical_time_ns r = Some t" "cp_logical_time_ns c = t"
    and c: "checkpoint_ok c" "on c" "0 < ss_state_version (cp_simulator c)"
    and unique: "\<And>c'. on c' \<Longrightarrow> cp_logical_time_ns c' = t \<Longrightarrow> c' = c"
  obtains d' where "save i p v c d = Inr ((), d')" "recoverable on d' i r"
    "d' = d\<lparr>db_snapshots := db_snapshots d'\<rparr>"
proof -
  obtain fs where fs: "checkpoint_payload c = Inr fs" using checkpoint_payload_ok [OF c(1)] by blast
  show ?thesis
  proof (cases "snapshot_at d i v")
    case (Some row)
    from snapshot_at_mem [OF Some] have row: "row \<in> set (session_snapshots d i)" "n_event_seq row = v" by auto
    with rec obtain c' fs' where r: "row = snapshot_of i v c' fs'" "checkpoint_payload c' = Inr fs'" "on c'"
      "cp_logical_time_ns c' = t" using v(1) t(1) unfolding recoverable_def by fastforce
    from unique [OF r(3,4)] have "c' = c" .
    with r fs have "row = snapshot_of i v c fs" by simp
    with save_existing [of d i v c fs p c fs] Some own v(2) fs payload_no_float [OF c(1) fs]
    have "save i p v c d = Inr ((), d)" by simp
    with rec that show ?thesis by simp
  next
    case None
    let ?row = "snapshot_of i v c fs"
    let ?d = "d\<lparr>db_snapshots := db_snapshots d @ [?row]\<rparr>"
    have "save i p v c d = Inr ((), ?d)" using save_fresh [OF None own v(2) fs] c(3) by simp
    moreover have "recoverable on ?d i r"
      unfolding recoverable_def
    proof
      fix row
      assume "row \<in> set (session_snapshots ?d i)"
      then have "row \<in> set (session_snapshots d i) \<or> row = ?row" by (auto simp: session_snapshots_key)
      then show "\<exists>c fs t. row = snapshot_of i (n_event_seq row) c fs \<and> checkpoint_payload c = Inr fs \<and> checkpoint_ok c \<and>
          on c \<and> rec_logical_time_ns r = Some t \<and> cp_logical_time_ns c \<le> t \<and> n_event_seq row \<le> rec_version r \<and>
          (n_event_seq row = rec_version r \<longrightarrow> cp_logical_time_ns c = t)"
      proof
        assume "row = ?row"
        moreover have "n_event_seq ?row = v" by (simp add: snapshot_of_def)
        ultimately show ?thesis using fs c t v by (intro exI [of _ c] exI [of _ fs] exI [of _ t]) simp
      qed (use rec in \<open>unfold recoverable_def, blast\<close>)
    qed
    ultimately show ?thesis using that by simp
  qed
qed

definition warmup_start :: "CommittedSetup \<Rightarrow> int" where
  "warmup_start s = cs_play_start_ns s - cs_warmup_ns s"

text \<open>The checkpoint of a setup's log at a logical time, and the checkpoints that lie on the replay.\<close>

definition frontier where
  "frontier step pristine s log t = bindR (replay_from step pristine (warmup_start s) log t None) (\<lambda>(c, k). Inr c)"

definition on_replay where
  "on_replay step pristine s log c \<longleftrightarrow> frontier step pristine s log (cp_logical_time_ns c) = Inr c"

lemma replay_from_time: "replay_from step pristine w log t checkpoint = Inr (c, k) \<Longrightarrow> cp_logical_time_ns c = t"
  by (auto simp: replay_from_def ReplayCheckpoint_of_iff)

lemma frontier_on: "frontier step pristine s log t = Inr c \<Longrightarrow> on_replay step pristine s log c \<and> cp_logical_time_ns c = t"
  using replay_from_time by (fastforce simp: on_replay_def frontier_def)

lemma resume_frontier:
  assumes "serves src (cs_manifest_hash s) log" and "canonical_log (warmup_start s) log"
    and "deterministic sim pristine step current" and "0 < n"
    and "on_replay step pristine s log c" and "cp_logical_time_ns c \<le> t" and "frontier step pristine s log t = Inr ct"
  shows "\<exists>k m'. run_until src sim (cs_manifest_hash s) (warmup_start s) t (Some c) n m = Some (Inr (ct, k), m')"
proof -
  obtain k kt where c: "replay_from step pristine (warmup_start s) log (cp_logical_time_ns c) None = Inr (c, k)"
    and ct: "replay_from step pristine (warmup_start s) log t None = Inr (ct, kt)"
    using assms(5,7) by (auto simp: on_replay_def frontier_def)
  from run_until_replay_from [OF assms(1) canonical_sequenced [OF assms(2)] assms(4,3), of "warmup_start s" t "Some c" m] replay_from_split [OF assms(2,6) c] ct
  show ?thesis by auto
qed

lemma recover_reaches:
  assumes "serves src (cs_manifest_hash s) log" and "canonical_log (warmup_start s) log"
    and "deterministic sim pristine step current" and "0 < n" and "frontier step pristine s log t = Inr ct"
    and "\<forall>c. stored = Some c \<longrightarrow> on_replay step pristine s log c \<and> cp_logical_time_ns c \<le> t"
  shows "\<exists>k m'. recover_current_frontier src sim s t stored n m = Some (Inr (ct, k), m')"
proof (cases stored)
  case None
  obtain kt where "replay_from step pristine (warmup_start s) log t None = Inr (ct, kt)"
    using assms(5) by (auto simp: frontier_def)
  with None run_until_replay_from [OF assms(1) canonical_sequenced [OF assms(2)] assms(4,3), of "warmup_start s" t None m] show ?thesis
    by (auto simp: recover_current_frontier_def warmup_start_def)
next
  case (Some c)
  with assms(6) have c: "on_replay step pristine s log c" "cp_logical_time_ns c \<le> t" by auto
  show ?thesis
  proof (cases "cp_logical_time_ns c = t")
    case True
    with c(1) assms(5) have "c = ct" by (simp add: on_replay_def)
    moreover obtain m' where "sim_restore sim (Some c) m = (Inr (cp_simulator c), m')"
      using assms(3) unfolding deterministic_def by metis
    ultimately show ?thesis using True Some by (simp add: recover_current_frontier_def require_same_state_def)
  next
    case False
    with resume_frontier [OF assms(1-4) c assms(5)] c(2) Some show ?thesis
      by (auto simp: recover_current_frontier_def warmup_start_def)
  qed
qed

lemma recoverable_later:
  assumes "recoverable on d i r" and "db_snapshots d' = db_snapshots d" and "rec_logical_time_ns r = Some t" and "t \<le> u"
  shows "recoverable on d' i (r\<lparr>rec_version := rec_version r + 1, rec_logical_time_ns := Some u\<rparr>)"
  unfolding recoverable_def session_snapshots_cong [OF assms(2)]
proof
  fix row
  let ?r = "r\<lparr>rec_version := rec_version r + 1, rec_logical_time_ns := Some u\<rparr>"
  assume "row \<in> set (session_snapshots d i)"
  with assms(1,3) obtain c fs where "row = snapshot_of i (n_event_seq row) c fs" "checkpoint_payload c = Inr fs"
    "checkpoint_ok c" "on c" "cp_logical_time_ns c \<le> t" "n_event_seq row \<le> rec_version r"
    unfolding recoverable_def by fastforce
  then show "\<exists>c fs t. row = snapshot_of i (n_event_seq row) c fs \<and> checkpoint_payload c = Inr fs \<and> checkpoint_ok c \<and>
      on c \<and> rec_logical_time_ns ?r = Some t \<and> cp_logical_time_ns c \<le> t \<and> n_event_seq row \<le> rec_version ?r \<and>
      (n_event_seq row = rec_version ?r \<longrightarrow> cp_logical_time_ns c = t)"
    using assms(4) by (intro exI [of _ c] exI [of _ fs] exI [of _ u]) simp
qed

lemma state_owner: "session_state d i = Some r \<Longrightarrow> require_principal d i (rec_principal_id r) = Inr ()"
  unfolding require_principal_iff using session_row by metis

text \<open>The second half of an advance, once the run to the target is known to succeed.\<close>

lemma advance_run_recovers:
  assumes ru: "run_until src sim (cs_manifest_hash s) (warmup_start s) target (Some c) n m = Some (Inr (cT, kT), m2)"
    and inv: "sessions_inv d" and r: "session_state d i = Some r" "rec_principal_id r = p" "rec_logical_time_ns r = Some t"
      "0 < rec_version r" and t: "t \<le> target"
    and rec: "recoverable on d i r" and cT: "cp_logical_time_ns cT = target" "checkpoint_ok cT" "on cT"
      "0 < ss_state_version (cp_simulator cT)"
    and unique: "\<And>c'. on c' \<Longrightarrow> cp_logical_time_ns c' = target \<Longrightarrow> c' = cT"
  shows "\<exists>out d' r'. advance_run src sim i p r s target n c k d m = Some (out, d', m2) \<and>
    session_state d' = (session_state d)(i \<mapsto> r') \<and> recoverable on d' i r' \<and>
    (case out of
       Inl e \<Rightarrow> r' = r \<and> advance i p (rec_version r) target d = Inl e
     | Inr res \<Rightarrow> ra_checkpoint res = cT \<and> ra_session res = r' \<and>
         r' = r\<lparr>rec_version := rec_version r + 1, rec_logical_time_ns := Some target\<rparr>)"
proof (cases "advance i p (rec_version r) target d")
  case (Inl e)
  then have "advance_run src sim i p r s target n c k d m = Some (Inl e, d, m2)"
    using ru by (simp add: advance_run_def warmup_start_def)
  with Inl rec r(1) show ?thesis
    by (intro exI [of _ "Inl e"] exI [of _ d] exI [of _ r]) (simp add: fun_upd_idem)
next
  case (Inr x)
  obtain r2 d2 where x: "x = (r2, d2)" by (cases x)
  note a = Inr [unfolded x]
  have r2: "r2 = r\<lparr>rec_version := rec_version r + 1, rec_logical_time_ns := Some target\<rparr>"
    "session_state d2 = (session_state d)(i \<mapsto> r2)"
    by (rule advance_spec [OF inv a]; use r(1) in simp)+
  have frame: "db_snapshots d2 = db_snapshots d"
    using service_step_frame [OF step_advance [OF a]] by (simp add: side_tables_def)
  have rec2: "recoverable on d2 i r2" unfolding r2(1) by (rule recoverable_later [OF rec frame r(3) t])
  have own2: "require_principal d2 i p = Inr ()" using state_owner [of d2 i r2] r(2) r2 by simp
  obtain d3 where d3: "save i p (rec_version r2) cT d2 = Inr ((), d3)" "recoverable on d3 i r2"
    "d3 = d2\<lparr>db_snapshots := db_snapshots d3\<rparr>"
    by (rule recoverable_save [OF rec2 own2 refl _ _ cT(1,2,3,4) unique]) (use r(4) r2(1) in simp_all)
  have "session_state d3 = session_state d2" by (subst d3(3)) simp
  moreover have "advance_run src sim i p r s target n c k d m = Some (Inr \<lparr>ra_session = r2, ra_checkpoint = cT,
      ra_applied_inputs = kT, ra_recovered_inputs = k\<rparr>, d3, m2)"
    using ru a d3(1) by (simp add: advance_run_def warmup_start_def)
  ultimately show ?thesis using d3(2) r2 by simp
qed

lemma advance_to_resumes:
  assumes "serves src (cs_manifest_hash s) log" and "canonical_log (warmup_start s) log"
    and "deterministic sim pristine step current" and n: "0 < n" "n \<le> 100000"
    and inv: "sessions_inv d" and r: "session_state d i = Some r" "rec_principal_id r = p" "rec_status r = RUNNING"
      "rec_setup r = Some s" "rec_logical_time_ns r = Some t" "0 < rec_version r"
    and target: "t \<le> target" "target \<le> play_end_ns s"
    and rec: "recoverable (on_replay step pristine s log) d i r"
    and fr: "frontier step pristine s log t = Inr ct" and ok: "checkpoint_ok ct" "0 < ss_state_version (cp_simulator ct)"
  obtains k d1 m1 where "session_state d1 = session_state d" "sessions_inv d1"
    "recoverable (on_replay step pristine s log) d1 i r"
    "advance_to src sim i p (rec_version r) target n d m =
      (if target = t then Some (Inr \<lparr>ra_session = r, ra_checkpoint = ct, ra_applied_inputs = 0, ra_recovered_inputs = k\<rparr>, d1, m1)
       else advance_run src sim i p r s target n ct k d1 m1)"
proof -
  let ?on = "on_replay step pristine s log"
  have own: "require_principal d i p = Inr ()" using state_owner [OF r(1)] r(2) by simp
  obtain stored where stored: "load_latest d i p = Inr stored"
    and st: "\<forall>c. stored = Some c \<longrightarrow> ?on c \<and> cp_logical_time_ns c \<le> t"
    using recoverable_load [OF rec own] r(5) by auto
  have prep: "advance_prepare d i p (rec_version r) target n = Inr (r, s, t, stored)"
    using n stored r target by (simp add: advance_prepare_def require_running_def get_session_def materialize_iff)
  obtain k m1 where recov: "recover_current_frontier src sim s t stored n m = Some (Inr (ct, k), m1)"
    using recover_reaches [OF assms(1-4) fr st] by blast
  have ct: "?on ct" "cp_logical_time_ns ct = t" using frontier_on [OF fr] by auto
  have unique: "c' = ct" if "?on c'" "cp_logical_time_ns c' = t" for c' using that fr by (auto simp: on_replay_def)
  obtain d1 where d1: "save i p (rec_version r) ct d = Inr ((), d1)" "recoverable ?on d1 i r"
    "d1 = d\<lparr>db_snapshots := db_snapshots d1\<rparr>"
    by (rule recoverable_save [OF rec own refl r(6,5) ct(2) ok(1) ct(1) ok(2) unique])
  have "session_state d1 = session_state d" "sessions_inv d1" using inv by (subst d1(3), simp)+
  then show ?thesis using ct(2) d1 by (intro that) (simp_all add: advance_to_def prep recov)
qed


section \<open>Published pages\<close>

context hash_chain
begin

lemma linked_filter: "linked n h es \<Longrightarrow> filter (\<lambda>e. s < seq e) es = drop (nat (s + 1 - n)) es"
proof (induction es arbitrary: n h)
  case (Cons e es)
  then have e: "seq e = n" "linked (n + 1) (current e) es" by auto
  have "filter (\<lambda>e. s < seq e) es = drop (nat (s - n)) es" using Cons.IH [OF e(2)] by simp
  moreover have "nat (s + 1 - n) = Suc (nat (s - n))" if "n \<le> s" using that by (simp add: nat_add_distrib [symmetric])
  moreover have "nat (s - n) = 0" "nat (s + 1 - n) = 0" if "\<not> n \<le> s" using that by simp_all
  ultimately show ?case using e(1) by (cases "n \<le> s") simp_all
qed simp

end

lemma replayed_payloads: "foldR replay_event s es = Inr s' \<Longrightarrow> e \<in> set es \<Longrightarrow> \<exists>fs. e_payload_json e = JObj fs"
proof (induction es arbitrary: s)
  case (Cons a es)
  then obtain s1 where "replay_event s a = Inr s1" "foldR replay_event s1 es = Inr s'" by auto
  moreover from this(1) have "\<exists>fs. e_payload_json a = JObj fs" by (cases s; cases "e_payload_json a") auto
  ultimately show ?case using Cons.IH [of s1] Cons.prems(2) by auto
qed simp

lemma persisted_event_JObj: "e_payload_json e = JObj fs \<Longrightarrow> \<exists>q. persisted_event e = Inr q \<and> pe_event_seq q = e_event_seq e \<and>
   pe_current_event_hash q = e_current_event_hash e \<and> JObj (pe_payload q) = e_payload_json e"
  by (simp add: persisted_event_def)

text \<open>What the publisher hands out for a session of a reachable database to its owner is exactly the
  slice of the persisted event chain after the given sequence, at most the limit long: the k-th event of the page has
  the k-th next sequence number and carries the hash of that persisted event, so consecutive pages neither skip nor
  repeat an event.\<close>

theorem published_page_exact:
  assumes "service_reach d" and "session_state d i = Some r" and "0 < limit" and "limit \<le> 10000"
    and "case after of None \<Rightarrow> True | Some s \<Rightarrow> 0 \<le> s"
  shows "\<exists>page. read_after d i (rec_principal_id r) after limit = Inr page \<and>
    length page = min (nat limit) (length (session_events d i) - nat (next_seq after)) \<and>
    (\<forall>k < length page. pe_event_seq (page ! k) = next_seq after + int k \<and>
       nat (next_seq after) + k < length (session_events d i) \<and>
       pe_current_event_hash (page ! k) = e_current_event_hash (session_events d i ! (nat (next_seq after) + k)) \<and>
       JObj (pe_payload (page ! k)) = e_payload_json (session_events d i ! (nat (next_seq after) + k)))"
proof -
  let ?log = "session_events d i" and ?n = "nat (next_seq after)"
  let ?page = "take (nat limit) (drop ?n ?log)"
  let ?f = "\<lambda>e. projr (persisted_event e)"
  note inv = service_reach_inv [OF assms(1)]
  have pos: "0 \<le> next_seq after" using assms(5) by (cases after) (simp_all add: next_seq_def)
  have chain: "ev.linked 0 ZERO_HASH ?log"
    using sessions_inv_log [OF inv] log_ok_events [of d i] by (simp add: log_ok_def ev.chained_def)
  have "replay_log d i = Inr (rec_setup r, rec_logical_time_ns r, rec_parent_session_id r)" using session_row [OF assms(2)] by metis
  then have pl: "persisted_event e = Inr (?f e) \<and> pe_event_seq (?f e) = e_event_seq e \<and>
      pe_current_event_hash (?f e) = e_current_event_hash e \<and> JObj (pe_payload (?f e)) = e_payload_json e" if "e \<in> set ?log" for e
    using replayed_payloads [of _ ?log _ e] persisted_event_JObj [of e] that unfolding replay_log_def by force
  have fil: "filter (\<lambda>e. case after of None \<Rightarrow> True | Some s \<Rightarrow> s < e_event_seq e) ?log = drop ?n ?log"
    using ev.linked_filter [OF chain] by (cases after) (simp_all add: next_seq_def)
  have "mapR persisted_event ?page = Inr (map ?f ?page)"
    by (rule mapR_map) (use pl in \<open>blast dest: in_set_takeD in_set_dropD\<close>)
  moreover have "\<not> (case after of None \<Rightarrow> False | Some s \<Rightarrow> s < 0)" using assms(5) by (cases after) simp_all
  ultimately have "read_after d i (rec_principal_id r) after limit = Inr (map ?f ?page)"
    using assms(3,4) state_owner [OF assms(2)] by (simp add: read_after_def fil)
  moreover have "pe_event_seq (map ?f ?page ! k) = next_seq after + int k \<and> ?n + k < length ?log \<and>
      pe_current_event_hash (map ?f ?page ! k) = e_current_event_hash (?log ! (?n + k)) \<and>
      JObj (pe_payload (map ?f ?page ! k)) = e_payload_json (?log ! (?n + k))" if "k < length (map ?f ?page)" for k
  proof -
    have k: "?n + k < length ?log" "map ?f ?page ! k = ?f (?log ! (?n + k))" using that by auto
    moreover have "e_event_seq (?log ! (?n + k)) = int (?n + k)" using ev.linked_seqs [OF chain k(1)] by simp
    ultimately show ?thesis using pl [of "?log ! (?n + k)"] pos by simp
  qed
  moreover have "length (map ?f ?page) = min (nat limit) (length ?log - ?n)" by simp
  ultimately show ?thesis by blast
qed

section \<open>Witnesses\<close>

text \<open>A simulator that counts its inputs and alternates between two hashes, recording what it is given, and a source over
  a log of two inputs, one in the warm-up and one in the played window.\<close>

definition demo_state_at :: "int \<Rightarrow> SimulatorState" where
  "demo_state_at v = \<lparr>ss_state_version = v,
     ss_state_hash = (if even v then replicate 64 CHR ''0'' else replicate 64 CHR ''1''), ss_canonical_snapshot = JObj []\<rparr>"

definition demo_sim_step :: "SimulatorState \<Rightarrow> ReplayInput \<Rightarrow> SimulatorState res" where
  "demo_sim_step st x = Inr (demo_state_at (ss_state_version st + 1))"

definition demo_simulator :: "(SimulatorState \<times> ReplayInput list) simulator" where
  "demo_simulator = \<lparr>sim_restore = (\<lambda>c (st, tr). let st = start_state (demo_state_at 1) c in (Inr st, st, tr)),
     sim_apply = (\<lambda>x v (st, tr). (demo_sim_step st x, demo_state_at (ss_state_version st + 1), tr @ [x]))\<rparr>"

definition demo_input :: "int \<Rightarrow> int \<Rightarrow> ReplayInput" where
  "demo_input n ts = \<lparr>in_source_event_seq = n, in_logical_ts_ns = ts, in_kind = ''QUOTE'', in_canonical_payload = JObj [],
     in_input_hash = demo_hash\<rparr>"

definition demo_log :: "ReplayInput list" where
  "demo_log = [demo_input 0 260, demo_input 1 350]"

definition demo_source :: source where
  "demo_source h after through limit = Inr (take (nat limit) (pending demo_log after through))"

lemma demo_serves: "serves demo_source h demo_log"
  by (simp add: serves_def demo_source_def)

lemma demo_canonical: "canonical_log 250 demo_log"
  by (simp add: canonical_log_def demo_log_def demo_input_def next_seq_def)

lemma demo_deterministic: "deterministic demo_simulator (demo_state_at 1) demo_sim_step fst"
  by (auto simp: deterministic_def demo_simulator_def demo_sim_step_def start_state_def Let_def)

lemma demo_records: "records demo_simulator snd"
  by (auto simp: records_def demo_simulator_def Let_def)

lemma demo_runs: "0 < n \<Longrightarrow> \<exists>m'. run_until demo_source demo_simulator h w target checkpoint n m =
    Some (replay_from demo_sim_step (demo_state_at 1) w demo_log target checkpoint, m')"
  by (rule run_until_replay_from [OF demo_serves canonical_sequenced [OF demo_canonical] _ demo_deterministic])

definition demo_checkpoint :: "int \<Rightarrow> int \<Rightarrow> ReplayCheckpoint" where
  "demo_checkpoint t n = \<lparr>cp_logical_time_ns = t, cp_source_event_seq = Some n, cp_simulator = demo_state_at (n + 2)\<rparr>"

lemma demo_replay:
  "replay_from demo_sim_step (demo_state_at 1) 250 demo_log 300 None = Inr (demo_checkpoint 300 0, 1)"
  "replay_from demo_sim_step (demo_state_at 1) 250 demo_log 400 None = Inr (demo_checkpoint 400 1, 2)"
  by code_simp+

lemma demo_checkpoint_ok: "checkpoint_ok (demo_checkpoint 300 0)" "checkpoint_ok (demo_checkpoint 400 1)"
proof -
  have "is_sha256_hex (replicate 64 CHR ''0'')" "is_sha256_hex (replicate 64 CHR ''1'')" by code_simp+
  then show "checkpoint_ok (demo_checkpoint 300 0)" "checkpoint_ok (demo_checkpoint 400 1)"
    by (auto simp: checkpoint_ok_def state_ok_def demo_checkpoint_def demo_state_at_def range_defs intro!: exI [of _ "[]"])
qed

definition demo_machine :: "SimulatorState \<times> ReplayInput list" where
  "demo_machine = (demo_state_at 7, [])"

lemma demo_warmup: "warmup_start (committed_setup demo_catalog demo_request) = 250"
  "play_end_ns (committed_setup demo_catalog demo_request) = 700"
  by (simp_all add: warmup_start_def play_end_ns_def committed_setup_def demo_request_def)

theorem run_until_reference_witness:
  "\<exists>m'. run_until demo_source demo_simulator demo_hash 250 400 None 1 demo_machine = Some (Inr (demo_checkpoint 400 1, 2), m')"
  using run_until_reference [OF demo_serves canonical_sequenced [OF demo_canonical] demo_deterministic, of 1 demo_hash 250 400 None demo_machine]
  by (simp add: demo_replay)

theorem replay_resume_equivalent_witness:
  "\<exists>m'. run_until demo_source demo_simulator demo_hash 250 400 (Some (demo_checkpoint 300 0)) 5 demo_machine =
     Some (Inr (demo_checkpoint 400 1, 1), m')"
proof -
  obtain m1 where first: "run_until demo_source demo_simulator demo_hash 250 300 None 1 demo_machine =
      Some (Inr (demo_checkpoint 300 0, 1), m1)" using demo_runs [of 1 demo_hash 250 300 None demo_machine] demo_replay by auto
  obtain m3 where third: "run_until demo_source demo_simulator demo_hash 250 400 None 9 demo_machine =
      Some (Inr (demo_checkpoint 400 1, 2), m3)" using demo_runs [of 9 demo_hash 250 400 None demo_machine] demo_replay by auto
  from replay_resume_equivalent [OF demo_serves demo_canonical demo_deterministic _ _ _ _ first, of 5 9 400 demo_machine demo_machine]
    third show ?thesis by auto
qed




theorem published_page_exact_witness:
  "\<exists>d page. read_after d ''s1'' ''alice'' None 10 = Inr page \<and> length page = 1 \<and> pe_event_seq (page ! 0) = 0"
proof -
  obtain r d where d: "commit demo_catalog ''s1'' ''alice'' 0 demo_request demo_created = Inr (r, d)" "service_reach d"
    "session_state d ''s1'' = Some r" "rec_principal_id r = ''alice''"
    by (rule demo_committed)
  have "session_events demo_created ''s1'' = []" by code_simp
  then obtain e where e: "session_events d ''s1'' = [e]"
    using commit_events [OF sessions_inv_log [OF service_reach_inv [OF demo_reach]] d(1)] by auto
  from published_page_exact [OF d(2,3), of 10 None] obtain page where "read_after d ''s1'' ''alice'' None 10 = Inr page" "length page = 1"
    "pe_event_seq (page ! 0) = 0" by (auto simp: e d(4) next_seq_def)
  then show ?thesis by blast
qed

end
