(* ===== verification/Market.thy ===== *)
theory Market
  imports Commands
begin

text \<open>
  Market reads (\<^verbatim>\<open>market/model.py\<close>, \<^verbatim>\<open>market/service.py\<close>,
  \<^verbatim>\<open>market/router.py\<close>): source events, the visibility context of a session, the page cache, the
  three event channels, candles, and the quote the command service resolves prices with.

  The canonical source is an argument, a record of its four queries. The page cache is a map that every
  read takes and returns. The candle loop pages through the source until it is exhausted or enough
  buckets are seen; a source without end would keep it running, so its outcome is an option.
\<close>

section \<open>Source events\<close>

record Trade =
  t_source_event_id :: string
  t_source_sequence :: int
  t_ts_ns :: int
  t_price_atoms :: int
  t_quantity_atoms :: int

record Bbo =
  b_source_event_id :: string
  b_source_sequence :: int
  b_ts_ns :: int
  b_bid_price_atoms :: int
  b_bid_quantity_atoms :: int
  b_ask_price_atoms :: int
  b_ask_quantity_atoms :: int

record DepthLevel =
  l_price_atoms :: int
  l_quantity_atoms :: int

record DepthSnapshot =
  d_source_event_id :: string
  d_source_sequence :: int
  d_ts_ns :: int
  d_bids :: "DepthLevel list"
  d_asks :: "DepthLevel list"

definition market_identity :: "string \<Rightarrow> unit res" where
  "market_identity value = require (\<not> (value = [] \<or> has_control value)) ValueError"

definition market_i64 :: "int \<Rightarrow> unit res" where
  "market_i64 value = require (\<not> (value < I64_MIN \<or> I64_MAX < value)) ValueError"

definition market_u64 :: "int \<Rightarrow> unit res" where
  "market_u64 value = require (\<not> (value < 0 \<or> U64_MAX < value)) ValueError"

definition market_positive_i64 :: "int \<Rightarrow> unit res" where
  "market_positive_i64 value = bindR (market_i64 value) (\<lambda>_. require (\<not> value \<le> 0) ValueError)"

definition market_positive_u64 :: "int \<Rightarrow> unit res" where
  "market_positive_u64 value = bindR (market_u64 value) (\<lambda>_. require (value \<noteq> 0) ValueError)"

definition Trade_post_init :: "Trade \<Rightarrow> unit res" where
  "Trade_post_init x =
     bindR (market_identity (t_source_event_id x)) (\<lambda>_.
     bindR (market_u64 (t_source_sequence x)) (\<lambda>_.
     bindR (market_i64 (t_ts_ns x)) (\<lambda>_.
     bindR (market_positive_i64 (t_price_atoms x)) (\<lambda>_.
     market_positive_u64 (t_quantity_atoms x)))))"

definition Bbo_post_init :: "Bbo \<Rightarrow> unit res" where
  "Bbo_post_init x =
     bindR (market_identity (b_source_event_id x)) (\<lambda>_.
     bindR (market_u64 (b_source_sequence x)) (\<lambda>_.
     bindR (market_i64 (b_ts_ns x)) (\<lambda>_.
     bindR (market_positive_i64 (b_bid_price_atoms x)) (\<lambda>_.
     bindR (market_positive_i64 (b_ask_price_atoms x)) (\<lambda>_.
     bindR (market_positive_u64 (b_bid_quantity_atoms x)) (\<lambda>_.
     bindR (market_positive_u64 (b_ask_quantity_atoms x)) (\<lambda>_.
     require (b_bid_price_atoms x < b_ask_price_atoms x) ValueError)))))))"

definition DepthLevel_post_init :: "DepthLevel \<Rightarrow> unit res" where
  "DepthLevel_post_init x =
     bindR (market_positive_i64 (l_price_atoms x)) (\<lambda>_. market_positive_u64 (l_quantity_atoms x))"

definition DepthSnapshot_post_init :: "DepthSnapshot \<Rightarrow> unit res" where
  "DepthSnapshot_post_init x =
     bindR (market_identity (d_source_event_id x)) (\<lambda>_.
     bindR (market_u64 (d_source_sequence x)) (\<lambda>_.
     bindR (market_i64 (d_ts_ns x)) (\<lambda>_.
     bindR (require (\<not> (d_bids x = [] \<or> d_asks x = [])) ValueError) (\<lambda>_.
     require (\<not> Min (set (map l_price_atoms (d_asks x))) \<le> Max (set (map l_price_atoms (d_bids x)))) ValueError))))"

text \<open>The source boundary: three paged queries (manifest, instrument, start, through, after, limit) and the latest
  quote (manifest, instrument, start, through).\<close>

type_synonym 'e query = "string \<Rightarrow> string \<Rightarrow> int \<Rightarrow> int \<Rightarrow> int option \<Rightarrow> int \<Rightarrow> 'e list res"

record MarketDataSource =
  src_trades :: "Trade query"
  src_bbo :: "Bbo query"
  src_depth :: "DepthSnapshot query"
  src_latest_bbo :: "string \<Rightarrow> string \<Rightarrow> int \<Rightarrow> int \<Rightarrow> Bbo option res"

section \<open>Service\<close>

abbreviation market_error :: "market_code \<Rightarrow> exn" where
  "market_error \<equiv> MarketServiceError"

definition SUPPORTED_INTERVALS_NS :: "int list" where
  "SUPPORTED_INTERVALS_NS = [1000000000, 5000000000, 15000000000, 60000000000, 300000000000, 900000000000,
     3600000000000, 86400000000000]"

definition MAX_PAGE_SIZE :: int where
  "MAX_PAGE_SIZE = 1000"

record MarketPage =
  pg_items :: "fields list"
  pg_next_cursor :: "string option"
  pg_frontier :: fields

record market_context =
  cx_session :: SessionRecord
  cx_setup :: CommittedSetup
  cx_frontier_ns :: "int option"
  cx_start_ns :: int

datatype channel = CH_TRADES | CH_BBO | CH_DEPTH | CH_CANDLES

record cache_key =
  ck_principal_id :: string
  ck_session_id :: string
  ck_version :: int
  ck_frontier_ns :: "int option"
  ck_channel :: channel
  ck_start_ns :: int
  ck_after_sequence :: "int option"
  ck_limit :: int
  ck_interval_ns :: "int option"

type_synonym cache = "cache_key \<Rightarrow> MarketPage option"

definition validate_query :: "int \<Rightarrow> int option \<Rightarrow> int \<Rightarrow> unit res" where
  "validate_query start_offset_ns after_sequence limit =
     bindR (require (\<not> start_offset_ns < 0) (market_error ME_INVALID_QUERY)) (\<lambda>_.
     bindR (require (\<not> (case after_sequence of None \<Rightarrow> False | Some a \<Rightarrow> a < 0)) (market_error ME_INVALID_QUERY)) (\<lambda>_.
     require (1 \<le> limit \<and> limit \<le> MAX_PAGE_SIZE) (market_error ME_INVALID_QUERY)))"

definition context_of :: "db \<Rightarrow> string \<Rightarrow> string \<Rightarrow> int \<Rightarrow> market_context res" where
  "context_of d session_id principal_id start_offset_ns =
     bindR (validate_query start_offset_ns None 1) (\<lambda>_.
     bindR (catchR (get_session d session_id principal_id) is_SessionLifecycleError
       (market_error ME_SESSION_UNAVAILABLE)) (\<lambda>session.
     case rec_setup session of
       None \<Rightarrow> Inl (market_error ME_SESSION_NOT_COMMITTED)
     | Some s \<Rightarrow>
       let start_ns = cs_play_start_ns s + start_offset_ns
       in bindR (require (\<not> (start_ns < cs_play_start_ns s \<or> play_end_ns s \<le> start_ns))
            (market_error ME_INVALID_QUERY)) (\<lambda>_.
          Inr \<lparr>cx_session = session, cx_setup = s,
               cx_frontier_ns = (case rec_logical_time_ns session of
                  None \<Rightarrow> None
                | Some t \<Rightarrow> let frontier = min t (play_end_ns s - 1)
                           in if frontier < cs_play_start_ns s then None else Some frontier),
               cx_start_ns = start_ns\<rparr>)))"

definition cache_key_of ::
    "channel \<Rightarrow> market_context \<Rightarrow> string \<Rightarrow> int option \<Rightarrow> int \<Rightarrow> int option \<Rightarrow> cache_key res" where
  "cache_key_of channel context principal_id after_sequence limit interval_ns =
     bindR (validate_query 0 after_sequence limit) (\<lambda>_.
     Inr \<lparr>ck_principal_id = principal_id, ck_session_id = rec_session_id (cx_session context),
          ck_version = rec_version (cx_session context), ck_frontier_ns = cx_frontier_ns context,
          ck_channel = channel, ck_start_ns = cx_start_ns context, ck_after_sequence = after_sequence,
          ck_limit = limit, ck_interval_ns = interval_ns\<rparr>)"

fun order_check :: "('e \<Rightarrow> int) \<Rightarrow> ('e \<Rightarrow> int) \<Rightarrow> int option \<Rightarrow> int option \<Rightarrow> 'e list \<Rightarrow> unit res" where
  "order_check sq ts prior_sequence prior_ts [] = Inr ()"
| "order_check sq ts prior_sequence prior_ts (e # es) =
     bindR (require (\<not> (case prior_sequence of None \<Rightarrow> False | Some s \<Rightarrow> sq e \<le> s)) (market_error ME_SOURCE_ORDER)) (\<lambda>_.
     bindR (require (\<not> (case prior_ts of None \<Rightarrow> False | Some t \<Rightarrow> ts e < t)) (market_error ME_SOURCE_ORDER)) (\<lambda>_.
     order_check sq ts (Some (sq e)) (Some (ts e)) es))"

definition validate_source_order :: "('e \<Rightarrow> int) \<Rightarrow> ('e \<Rightarrow> int) \<Rightarrow> 'e list \<Rightarrow> int option \<Rightarrow> unit res" where
  "validate_source_order sq ts events after_sequence = order_check sq ts after_sequence None events"

definition visible_events ::
    "('e \<Rightarrow> int) \<Rightarrow> ('e \<Rightarrow> int) \<Rightarrow> 'e list \<Rightarrow> market_context \<Rightarrow> int option \<Rightarrow> int \<Rightarrow> 'e list res" where
  "visible_events sq ts events context after_sequence limit =
     bindR (validate_query 0 after_sequence limit) (\<lambda>_.
     case cx_frontier_ns context of None \<Rightarrow> Inr []
     | Some frontier \<Rightarrow>
       let visible = filter (\<lambda>e. cx_start_ns context \<le> ts e \<and> ts e \<le> frontier \<and>
             (case after_sequence of None \<Rightarrow> True | Some a \<Rightarrow> a < sq e)) events
       in bindR (validate_source_order sq ts visible after_sequence) (\<lambda>_.
          Inr (take (nat limit) visible)))"

definition event_id :: "string \<Rightarrow> string \<Rightarrow> string" where
  "event_id session_id source_event_id =
     ''evt_'' @ sha256_hex (ascii ''TRL-VISIBLE-EVENT-v1'' @ [0] @ utf8 session_id @ [0] @ utf8 source_event_id)"

definition time_payload :: "market_context \<Rightarrow> int \<Rightarrow> fields" where
  "time_payload context ts_ns =
     (if cs_visibility_mode (cx_setup context) = ABSOLUTE then [(''ts_ns'', JStr (str_int ts_ns))]
      else [(''offset_ns'', JStr (str_int (ts_ns - cs_play_start_ns (cx_setup context))))])"

definition frontier_payload :: "market_context \<Rightarrow> fields" where
  "frontier_payload context =
     (case cx_frontier_ns context of None \<Rightarrow> [(''offset_ns'', JStr ''-1'')] | Some f \<Rightarrow> time_payload context f)"

definition project_trade :: "market_context \<Rightarrow> Trade \<Rightarrow> fields" where
  "project_trade context trade =
     [(''event_id'', JStr (event_id (rec_session_id (cx_session context)) (t_source_event_id trade)))] @
     time_payload context (t_ts_ns trade) @
     [(''price_atoms'', JStr (str_int (t_price_atoms trade))),
      (''quantity_atoms'', JStr (str_int (t_quantity_atoms trade)))]"

definition project_bbo :: "market_context \<Rightarrow> Bbo \<Rightarrow> fields" where
  "project_bbo context quote =
     [(''event_id'', JStr (event_id (rec_session_id (cx_session context)) (b_source_event_id quote)))] @
     time_payload context (b_ts_ns quote) @
     [(''bid_price_atoms'', JStr (str_int (b_bid_price_atoms quote))),
      (''bid_quantity_atoms'', JStr (str_int (b_bid_quantity_atoms quote))),
      (''ask_price_atoms'', JStr (str_int (b_ask_price_atoms quote))),
      (''ask_quantity_atoms'', JStr (str_int (b_ask_quantity_atoms quote)))]"

definition level_json :: "DepthLevel \<Rightarrow> json" where
  "level_json level = JObj [(''price_atoms'', JStr (str_int (l_price_atoms level))),
     (''quantity_atoms'', JStr (str_int (l_quantity_atoms level)))]"

definition project_depth :: "market_context \<Rightarrow> DepthSnapshot \<Rightarrow> fields" where
  "project_depth context snapshot =
     [(''event_id'', JStr (event_id (rec_session_id (cx_session context)) (d_source_event_id snapshot)))] @
     time_payload context (d_ts_ns snapshot) @
     [(''bids'', JList (map level_json (d_bids snapshot))), (''asks'', JList (map level_json (d_asks snapshot)))]"

definition next_cursor :: "('e \<Rightarrow> int) \<Rightarrow> 'e list \<Rightarrow> int \<Rightarrow> string option" where
  "next_cursor sq events limit =
     (if int (length events) < limit \<or> events = [] then None else Some (str_int (sq (last events))))"

section \<open>Event channels\<close>

text \<open>A page, computed from the source when the cache does not hold it.\<close>

definition channel_page ::
    "('e \<Rightarrow> int) \<Rightarrow> ('e \<Rightarrow> int) \<Rightarrow> 'e query \<Rightarrow> (market_context \<Rightarrow> 'e \<Rightarrow> fields) \<Rightarrow> market_context \<Rightarrow> int option \<Rightarrow> int \<Rightarrow>
     MarketPage res" where
  "channel_page sq ts fetch project context after_sequence limit =
     (case cx_frontier_ns context of
        None \<Rightarrow> Inr \<lparr>pg_items = [], pg_next_cursor = None, pg_frontier = frontier_payload context\<rparr>
      | Some frontier \<Rightarrow>
        bindR (fetch (cs_manifest_hash (cx_setup context)) (cs_instrument_id (cx_setup context))
          (cx_start_ns context) frontier after_sequence limit) (\<lambda>events.
        bindR (visible_events sq ts events context after_sequence limit) (\<lambda>visible.
        Inr \<lparr>pg_items = map (project context) visible, pg_next_cursor = next_cursor sq visible limit,
             pg_frontier = frontier_payload context\<rparr>)))"

definition read_channel ::
    "channel \<Rightarrow> ('e \<Rightarrow> int) \<Rightarrow> ('e \<Rightarrow> int) \<Rightarrow> 'e query \<Rightarrow> (market_context \<Rightarrow> 'e \<Rightarrow> fields) \<Rightarrow>
     db \<Rightarrow> string \<Rightarrow> string \<Rightarrow> int \<Rightarrow> int option \<Rightarrow> int \<Rightarrow> cache \<Rightarrow> (MarketPage \<times> cache) res" where
  "read_channel channel sq ts fetch project d session_id principal_id start_offset_ns after_sequence limit cache =
     bindR (context_of d session_id principal_id start_offset_ns) (\<lambda>context.
     bindR (cache_key_of channel context principal_id after_sequence limit None) (\<lambda>key.
     case cache key of Some page \<Rightarrow> Inr (page, cache)
     | None \<Rightarrow>
       bindR (channel_page sq ts fetch project context after_sequence limit) (\<lambda>page.
       Inr (page, cache(key \<mapsto> page)))))"

definition trades where
  "trades src = read_channel CH_TRADES t_source_sequence t_ts_ns (src_trades src) project_trade"

definition bbo where
  "bbo src = read_channel CH_BBO b_source_sequence b_ts_ns (src_bbo src) project_bbo"

definition depth where
  "depth src = read_channel CH_DEPTH d_source_sequence d_ts_ns (src_depth src) project_depth"

section \<open>Candles\<close>

type_synonym buckets = "(int \<times> Trade list) list"

text \<open>\<^verbatim>\<open>buckets.setdefault(bucket, []).append(trade)\<close>\<close>

definition bucket_add :: "int \<Rightarrow> Trade \<Rightarrow> buckets \<Rightarrow> buckets" where
  "bucket_add bucket trade buckets =
     AList.update bucket ((case map_of buckets bucket of None \<Rightarrow> [] | Some ts \<Rightarrow> ts) @ [trade]) buckets"

definition bucket_trade :: "market_context \<Rightarrow> int \<Rightarrow> int \<Rightarrow> buckets \<Rightarrow> Trade \<Rightarrow> buckets" where
  "bucket_trade context frontier interval_ns buckets trade =
     (if cx_start_ns context \<le> t_ts_ns trade \<and> t_ts_ns trade \<le> frontier
      then bucket_add ((t_ts_ns trade - cs_play_start_ns (cx_setup context)) div interval_ns) trade buckets
      else buckets)"

partial_function (option) bucket_loop ::
    "(int option \<Rightarrow> Trade list res) \<Rightarrow> market_context \<Rightarrow> int \<Rightarrow> int \<Rightarrow> int \<Rightarrow> int option \<Rightarrow> buckets \<Rightarrow> buckets res option" where
  "bucket_loop fetch context frontier interval_ns limit after_sequence buckets =
     (if limit < int (length buckets) then Some (Inr buckets)
      else case fetch after_sequence of
        Inl e \<Rightarrow> Some (Inl e)
      | Inr raw \<Rightarrow>
        if raw = [] then Some (Inr buckets)
        else (case validate_source_order t_source_sequence t_ts_ns raw after_sequence of
                Inl e \<Rightarrow> Some (Inl e)
              | Inr _ \<Rightarrow>
                let buckets' = foldl (bucket_trade context frontier interval_ns) buckets raw;
                    next_after = t_source_sequence (last raw)
                in if (case after_sequence of None \<Rightarrow> False | Some a \<Rightarrow> next_after \<le> a)
                   then Some (Inl (market_error ME_SOURCE_ORDER))
                   else if int (length raw) < MAX_PAGE_SIZE then Some (Inr buckets')
                   else bucket_loop fetch context frontier interval_ns limit (Some next_after) buckets'))"

definition candle_buckets :: "MarketDataSource \<Rightarrow> market_context \<Rightarrow> int \<Rightarrow> int \<Rightarrow> buckets res option" where
  "candle_buckets src context interval_ns limit =
     (case cx_frontier_ns context of None \<Rightarrow> Some (Inr [])
      | Some frontier \<Rightarrow>
          bucket_loop (\<lambda>after. src_trades src (cs_manifest_hash (cx_setup context))
            (cs_instrument_id (cx_setup context)) (cx_start_ns context) frontier after MAX_PAGE_SIZE)
            context frontier interval_ns limit None [])"

definition project_candle :: "market_context \<Rightarrow> int \<Rightarrow> int \<times> Trade list \<Rightarrow> fields" where
  "project_candle context interval_ns =
     (\<lambda>(bucket, trades). let prices = map t_price_atoms trades;
          volume = sum_list (map t_quantity_atoms trades);
          bucket_start_ns = cs_play_start_ns (cx_setup context) + bucket * interval_ns
      in time_payload context bucket_start_ns @
         [(''open_atoms'', JStr (str_int (hd prices))), (''high_atoms'', JStr (str_int (Max (set prices)))),
          (''low_atoms'', JStr (str_int (Min (set prices)))), (''close_atoms'', JStr (str_int (last prices))),
          (''base_volume_atoms'', JStr (str_int volume)), (''trade_count'', JStr (str_int (int (length trades))))])"

definition candle_page :: "MarketDataSource \<Rightarrow> market_context \<Rightarrow> int \<Rightarrow> int \<Rightarrow> MarketPage res option" where
  "candle_page src context interval_ns limit =
     (if cx_frontier_ns context = None
      then Some (Inr \<lparr>pg_items = [], pg_next_cursor = None, pg_frontier = frontier_payload context\<rparr>)
      else Option.bind (candle_buckets src context interval_ns limit) (\<lambda>r.
        Some (bindR r (\<lambda>buckets.
          Inr \<lparr>pg_items = map (project_candle context interval_ns) (take (nat limit) (sort_key fst buckets)),
               pg_next_cursor = None, pg_frontier = frontier_payload context\<rparr>))))"

definition candles ::
    "MarketDataSource \<Rightarrow> db \<Rightarrow> string \<Rightarrow> string \<Rightarrow> int \<Rightarrow> int \<Rightarrow> int \<Rightarrow> cache \<Rightarrow> (MarketPage \<times> cache) res option" where
  "candles src d session_id principal_id interval_ns start_offset_ns limit cache =
     (case bindR (require (interval_ns \<in> set SUPPORTED_INTERVALS_NS) (market_error ME_UNSUPPORTED_INTERVAL)) (\<lambda>_.
           bindR (context_of d session_id principal_id start_offset_ns) (\<lambda>context.
           bindR (cache_key_of CH_CANDLES context principal_id None limit (Some interval_ns)) (\<lambda>key.
           Inr (context, key)))) of
        Inl e \<Rightarrow> Some (Inl e)
      | Inr (context, key) \<Rightarrow>
        (case cache key of Some page \<Rightarrow> Some (Inr (page, cache))
         | None \<Rightarrow> Option.bind (candle_page src context interval_ns limit) (\<lambda>r.
             Some (bindR r (\<lambda>page. Inr (page, cache(key \<mapsto> page)))))))"

section \<open>The visible quote\<close>

definition current_quote :: "MarketDataSource \<Rightarrow> db \<Rightarrow> string \<Rightarrow> string \<Rightarrow> VisibleQuote option res" where
  "current_quote src d session_id principal_id =
     bindR (context_of d session_id principal_id 0) (\<lambda>context.
     case cx_frontier_ns context of None \<Rightarrow> Inr None
     | Some frontier \<Rightarrow>
       let s = cx_setup context
       in bindR (src_latest_bbo src (cs_manifest_hash s) (cs_instrument_id s)
            (cs_play_start_ns s - cs_warmup_ns s) frontier) (\<lambda>found.
          case found of None \<Rightarrow> Inr None
          | Some quote \<Rightarrow>
            if frontier < b_ts_ns quote then Inr None
            else if b_ts_ns quote < cs_play_start_ns s - cs_warmup_ns s then Inr None
            else let q = \<lparr>q_event_id = event_id (rec_session_id (cx_session context)) (b_source_event_id quote),
                   q_bid_price_atoms = b_bid_price_atoms quote, q_ask_price_atoms = b_ask_price_atoms quote\<rparr>
                 in bindR (VisibleQuote_post_init q) (\<lambda>_. Inr (Some q))))"

section \<open>Routes\<close>

fun market_http_status :: "market_code \<Rightarrow> nat" where
  "market_http_status ME_SESSION_UNAVAILABLE = 404"
| "market_http_status ME_SESSION_NOT_COMMITTED = 409"
| "market_http_status ME_INVALID_QUERY = 422"
| "market_http_status ME_UNSUPPORTED_INTERVAL = 422"
| "market_http_status ME_SOURCE_ORDER = 500"

fun market_http_error :: "exn \<Rightarrow> http_failure" where
  "market_http_error (MarketServiceError code) = HTTPException (market_http_status code)"
| "market_http_error e = Unhandled e"

definition query_error :: http_failure where
  "query_error = HTTPException 422"

definition nonnegative_decimal :: "string \<Rightarrow> int http" where
  "nonnegative_decimal value =
     (if value = [] \<or> startswith value ''+'' \<or> startswith value ''-'' \<or>
         startswith value ''0'' \<and> value \<noteq> ''0'' \<or> \<not> isascii value \<or> \<not> isdigit value
      then Inl query_error
      else bindH (catchH Unhandled (py_int value)) (\<lambda>parsed.
        if U64_MAX < parsed then Inl query_error else Inr parsed))"

definition optional_decimal :: "string option \<Rightarrow> int option http" where
  "optional_decimal value =
     (case value of None \<Rightarrow> Inr None | Some v \<Rightarrow> bindH (nonnegative_decimal v) (\<lambda>n. Inr (Some n)))"

definition positive_decimal :: "string \<Rightarrow> int http" where
  "positive_decimal value =
     bindH (nonnegative_decimal value) (\<lambda>parsed. if parsed = 0 then Inl query_error else Inr parsed)"

definition page_json :: "MarketPage \<Rightarrow> fields" where
  "page_json page =
     [(''items'', JList (map JObj (pg_items page))),
      (''next_cursor'', (case pg_next_cursor page of None \<Rightarrow> JNull | Some c \<Rightarrow> JStr c)),
      (''frontier'', JObj (pg_frontier page))]"

definition channel_route ::
    "authenticator \<Rightarrow> headers \<Rightarrow> string \<Rightarrow> string option \<Rightarrow>
     (string \<Rightarrow> int \<Rightarrow> int option \<Rightarrow> (MarketPage \<times> cache) res) \<Rightarrow> (fields \<times> cache) http" where
  "channel_route authenticator headers start_offset_ns after_sequence call =
     bindH (authenticate_request authenticator headers) (\<lambda>principal_id.
     bindH (nonnegative_decimal start_offset_ns) (\<lambda>start.
     bindH (optional_decimal after_sequence) (\<lambda>after.
     bindH (catchH market_http_error (call principal_id start after)) (\<lambda>(page, cache).
     Inr (page_json page, cache)))))"

definition trades_route where
  "trades_route authenticator src d headers session_id start_offset_ns after_sequence limit cache =
     channel_route authenticator headers start_offset_ns after_sequence (\<lambda>principal_id start after.
       trades src d session_id principal_id start after limit cache)"

definition bbo_route where
  "bbo_route authenticator src d headers session_id start_offset_ns after_sequence limit cache =
     channel_route authenticator headers start_offset_ns after_sequence (\<lambda>principal_id start after.
       bbo src d session_id principal_id start after limit cache)"

definition depth_route where
  "depth_route authenticator src d headers session_id start_offset_ns after_sequence limit cache =
     channel_route authenticator headers start_offset_ns after_sequence (\<lambda>principal_id start after.
       depth src d session_id principal_id start after limit cache)"

definition candles_route ::
    "authenticator \<Rightarrow> MarketDataSource \<Rightarrow> db \<Rightarrow> headers \<Rightarrow> string \<Rightarrow> string \<Rightarrow> string \<Rightarrow> int \<Rightarrow> cache \<Rightarrow>
     (fields \<times> cache) http option" where
  "candles_route authenticator src d headers session_id interval_ns start_offset_ns limit cache =
     (case bindH (authenticate_request authenticator headers) (\<lambda>principal_id.
           bindH (positive_decimal interval_ns) (\<lambda>interval.
           bindH (nonnegative_decimal start_offset_ns) (\<lambda>offset. Inr (principal_id, interval, offset)))) of
        Inl e \<Rightarrow> Some (Inl e)
      | Inr (principal_id, interval, offset) \<Rightarrow>
          Option.bind (candles src d session_id principal_id interval offset limit cache) (\<lambda>r.
          Some (bindH (catchH market_http_error r) (\<lambda>(page, cache). Inr (page_json page, cache)))))"

end
