(* ===== verification/Market_Theorems.thy ===== *)
theory Market_Theorems
  imports Market Command_Theorems
begin

text \<open>
  The properties of market reads: pages hold only events inside the visible window whatever the source
  returns, the page cache is transparent along every run of the program, candles equal the aggregation
  of all visible trades, relative visibility hides the calendar, and the market service is the quote
  provider the command service relies on.
\<close>

section \<open>The quote provider\<close>

interpretation market_quotes: quote_provider "current_quote src d"
  by unfold_locales (auto simp: current_quote_def Let_def split: option.splits if_splits)

section \<open>Visible windows\<close>

definition frontier_of :: "SessionRecord \<Rightarrow> CommittedSetup \<Rightarrow> int option" where
  "frontier_of r s = (case rec_logical_time_ns r of None \<Rightarrow> None
     | Some t \<Rightarrow> let frontier = min t (play_end_ns s - 1) in if frontier < cs_play_start_ns s then None else Some frontier)"

definition view :: "SessionRecord \<Rightarrow> CommittedSetup \<Rightarrow> int \<Rightarrow> market_context" where
  "view r s start_ns = \<lparr>cx_session = r, cx_setup = s, cx_frontier_ns = frontier_of r s, cx_start_ns = start_ns\<rparr>"

lemma context_of_iff:
  "context_of d i p off = Inr c \<longleftrightarrow>
     (\<exists>r s. session_state d i = Some r \<and> rec_principal_id r = p \<and> rec_setup r = Some s \<and> 0 \<le> off \<and>
        cs_play_start_ns s + off < play_end_ns s \<and> c = view r s (cs_play_start_ns s + off))"
proof -
  have "context_of d i p off = Inr c \<longleftrightarrow> (\<exists>r s. get_session d i p = Inr r \<and> rec_setup r = Some s \<and> 0 \<le> off \<and>
      cs_play_start_ns s + off < play_end_ns s \<and> c = view r s (cs_play_start_ns s + off))"
    by (auto simp: context_of_def validate_query_def MAX_PAGE_SIZE_def view_def frontier_of_def case_option_Inr Let_def)
  then show ?thesis by (auto simp: get_session_def materialize_iff)
qed

lemma frontier_bounds:
  "frontier_of r s = Some f \<Longrightarrow> \<exists>t. rec_logical_time_ns r = Some t \<and> f \<le> t \<and> f < play_end_ns s \<and> cs_play_start_ns s \<le> f"
  by (auto simp: frontier_of_def Let_def split: option.splits if_splits)

fun ordered :: "('e \<Rightarrow> int) \<Rightarrow> ('e \<Rightarrow> int) \<Rightarrow> 'e list \<Rightarrow> bool" where
  "ordered sq ts xs \<longleftrightarrow> sorted_wrt (\<lambda>x y. sq x < sq y \<and> ts x \<le> ts y) xs"

declare ordered.simps [simp del]

lemma order_check_ordered:
  "order_check sq ts a b es = Inr () \<Longrightarrow> ordered sq ts es \<and>
     (\<forall>e\<in>set es. (case a of None \<Rightarrow> True | Some s \<Rightarrow> s < sq e) \<and> (case b of None \<Rightarrow> True | Some t \<Rightarrow> t \<le> ts e))"
proof (induction es arbitrary: a b)
  case (Cons e es)
  then have e: "case a of None \<Rightarrow> True | Some s \<Rightarrow> s < sq e" "case b of None \<Rightarrow> True | Some t \<Rightarrow> t \<le> ts e"
    and es: "ordered sq ts es" "\<forall>x\<in>set es. sq e < sq x \<and> ts e \<le> ts x"
    using Cons.IH [of "Some (sq e)" "Some (ts e)"] by (auto split: option.splits)
  then show ?case by (cases a; cases b) (fastforce simp: ordered.simps)+
qed (simp add: ordered.simps)

lemma ordered_check:
  "ordered sq ts es \<Longrightarrow> \<forall>e\<in>set es. (case a of None \<Rightarrow> True | Some s \<Rightarrow> s < sq e) \<and> (case b of None \<Rightarrow> True | Some t \<Rightarrow> t \<le> ts e) \<Longrightarrow>
   order_check sq ts a b es = Inr ()"
proof (induction es arbitrary: a b)
  case (Cons e es)
  from Cons.prems have "order_check sq ts (Some (sq e)) (Some (ts e)) es = Inr ()"
    by (intro Cons.IH) (auto simp: ordered.simps)
  with Cons.prems show ?case by (cases a; cases b) auto
qed simp

text \<open>What a freshly computed page of an event channel holds.\<close>

lemma channel_page_spec:
  assumes "channel_page sq ts fetch project c after limit = Inr page"
  obtains evs where "pg_items page = map (project c) evs" "int (length evs) \<le> max 0 limit" "ordered sq ts evs"
    "\<forall>e\<in>set evs. cx_start_ns c \<le> ts e \<and> (\<exists>f. cx_frontier_ns c = Some f \<and> ts e \<le> f) \<and>
       (case after of None \<Rightarrow> True | Some a \<Rightarrow> a < sq e)"
    "pg_next_cursor page = next_cursor sq evs limit" "pg_frontier page = frontier_payload c"
    "\<forall>f events. cx_frontier_ns c = Some f \<longrightarrow>
       fetch (cs_manifest_hash (cx_setup c)) (cs_instrument_id (cx_setup c)) (cx_start_ns c) f after limit = Inr events \<longrightarrow>
       evs = take (nat limit) (filter (\<lambda>e. cx_start_ns c \<le> ts e \<and> ts e \<le> f \<and> (case after of None \<Rightarrow> True | Some a \<Rightarrow> a < sq e)) events)"
proof (cases "cx_frontier_ns c")
  case None
  then show ?thesis using assms by (intro that [of "[]"]) (auto simp: channel_page_def next_cursor_def ordered.simps)
next
  case (Some f)
  let ?vis = "filter (\<lambda>e. cx_start_ns c \<le> ts e \<and> ts e \<le> f \<and> (case after of None \<Rightarrow> True | Some a \<Rightarrow> a < sq e))"
  from assms Some obtain events visible where
    e1: "fetch (cs_manifest_hash (cx_setup c)) (cs_instrument_id (cx_setup c)) (cx_start_ns c) f after limit = Inr events"
    and e2: "visible_events sq ts events c after limit = Inr visible"
    and e3: "page = \<lparr>pg_items = map (project c) visible, pg_next_cursor = next_cursor sq visible limit, pg_frontier = frontier_payload c\<rparr>"
    unfolding channel_page_def by auto
  from e2 Some have o: "order_check sq ts after None (?vis events) = Inr ()" "visible = take (nat limit) (?vis events)"
    unfolding visible_events_def validate_source_order_def Let_def by auto
  have "ordered sq ts visible"
    using order_check_ordered [OF o(1)] by (simp add: o(2) ordered.simps sorted_wrt_take)
  moreover have "\<forall>e\<in>set visible. e \<in> set (?vis events)" unfolding o(2) by (blast dest: in_set_takeD)
  moreover have "int (length visible) \<le> max 0 limit" unfolding o(2) by simp
  ultimately show ?thesis using Some e1 e3 by (intro that [of visible]) (simp_all add: o(2) [symmetric])
qed

section \<open>The page cache\<close>

datatype market_query =
    Event_query channel string string int "int option" int
  | Candle_query string string int int int

fun market_read :: "MarketDataSource \<Rightarrow> db \<Rightarrow> market_query \<Rightarrow> cache \<Rightarrow> (MarketPage \<times> cache) res option" where
  "market_read src d (Event_query ch i p off after limit) cache =
     (case ch of CH_TRADES \<Rightarrow> Some (trades src d i p off after limit cache)
      | CH_BBO \<Rightarrow> Some (bbo src d i p off after limit cache)
      | CH_DEPTH \<Rightarrow> Some (depth src d i p off after limit cache)
      | CH_CANDLES \<Rightarrow> None)"
| "market_read src d (Candle_query i p interval off limit) cache = candles src d i p interval off limit cache"

text \<open>The page of a cache key, computed from the source.\<close>

definition fresh_page where
  "fresh_page src ch c after limit interval =
     (case ch of CH_TRADES \<Rightarrow> Some (channel_page t_source_sequence t_ts_ns (src_trades src) project_trade c after limit)
      | CH_BBO \<Rightarrow> Some (channel_page b_source_sequence b_ts_ns (src_bbo src) project_bbo c after limit)
      | CH_DEPTH \<Rightarrow> Some (channel_page d_source_sequence d_ts_ns (src_depth src) project_depth c after limit)
      | CH_CANDLES \<Rightarrow> (case interval of None \<Rightarrow> None | Some n \<Rightarrow> candle_page src c n limit))"

definition served :: "MarketDataSource \<Rightarrow> cache \<Rightarrow> channel \<Rightarrow> market_context \<Rightarrow> string \<Rightarrow> int option \<Rightarrow> int \<Rightarrow> int option \<Rightarrow>
    (MarketPage \<times> cache) res option" where
  "served src cache ch c p after limit interval =
     (case cache_key_of ch c p after limit interval of Inl e \<Rightarrow> Some (Inl e)
      | Inr key \<Rightarrow> (case cache key of Some page \<Rightarrow> Some (Inr (page, cache))
         | None \<Rightarrow> map_option (\<lambda>r. bindR r (\<lambda>page. Inr (page, cache(key \<mapsto> page)))) (fresh_page src ch c after limit interval)))"

lemma bindR_case: "bindR m f = (case m of Inl e \<Rightarrow> Inl e | Inr x \<Rightarrow> f x)"
  by (simp add: bindR_def)

lemma read_event:
  assumes "ch \<noteq> CH_CANDLES"
  shows "market_read src d (Event_query ch i p off after limit) cache =
    (case context_of d i p off of Inl e \<Rightarrow> Some (Inl e) | Inr c \<Rightarrow> served src cache ch c p after limit None)"
proof (cases "context_of d i p off")
  case (Inr c)
  then show ?thesis
    using assms by (cases ch; cases "cache_key_of ch c p after limit None")
      (auto simp: trades_def bbo_def depth_def read_channel_def served_def fresh_page_def split: option.splits)
qed (use assms in \<open>cases ch; simp add: trades_def bbo_def depth_def read_channel_def\<close>)

lemma read_candles:
  "market_read src d (Candle_query i p interval off limit) cache =
    (if interval \<in> set SUPPORTED_INTERVALS_NS
     then case context_of d i p off of Inl e \<Rightarrow> Some (Inl e) | Inr c \<Rightarrow> served src cache CH_CANDLES c p None limit (Some interval)
     else Some (Inl (market_error ME_UNSUPPORTED_INTERVAL)))"
proof (cases "interval \<in> set SUPPORTED_INTERVALS_NS")
  case True
  show ?thesis
  proof (cases "context_of d i p off")
    case (Inr c)
    with True show ?thesis
      by (cases "cache_key_of CH_CANDLES c p None limit (Some interval)"; cases "candle_page src c interval limit")
         (auto simp: candles_def served_def fresh_page_def split: option.splits)
  qed (simp add: candles_def True)
qed (simp add: candles_def)

inductive market_run :: "MarketDataSource \<Rightarrow> db \<Rightarrow> cache \<Rightarrow> bool" for src where
  run_init: "market_run src create_schema (\<lambda>_. None)"
| run_service: "market_run src d cache \<Longrightarrow> service_step d d' \<Longrightarrow> market_run src d' cache"
| run_accept: "market_run src d cache \<Longrightarrow> accept i p k v ts pc d = Inr (a, d') \<Longrightarrow> market_run src d' cache"
| run_read: "market_run src d cache \<Longrightarrow> market_read src d q cache = Some (Inr (page, cache')) \<Longrightarrow> market_run src d cache'"

definition cache_ok :: "MarketDataSource \<Rightarrow> db \<Rightarrow> cache \<Rightarrow> bool" where
  "cache_ok src d cache \<longleftrightarrow> (\<forall>key page. cache key = Some page \<longrightarrow>
     (\<exists>r r' s. session_state d (ck_session_id key) = Some r' \<and> evolves r r' \<and> rec_version r = ck_version key \<and>
        rec_setup r = Some s \<and> fresh_page src (ck_channel key) (view r s (ck_start_ns key)) (ck_after_sequence key)
          (ck_limit key) (ck_interval_ns key) = Some (Inr page)))"

lemma session_state_id: "session_state d i = Some r \<Longrightarrow> rec_session_id r = i"
proof -
  assume st: "session_state d i = Some r"
  obtain row where row: "materialize_from_row d row (rec_principal_id r) = Inr r" "s_session_id row = i"
    by (rule session_row [OF st])
  have "rec_session_id x = s_session_id row" if "materialize_from_row d row p = Inr x" for p x
    using that by (auto simp: materialize_from_row_iff)
  with row show "rec_session_id r = i" by simp
qed

lemma cache_key_of_iff:
  "cache_key_of ch c p after limit interval = Inr key \<longleftrightarrow> validate_query 0 after limit = Inr () \<and>
     key = \<lparr>ck_principal_id = p, ck_session_id = rec_session_id (cx_session c),
          ck_version = rec_version (cx_session c), ck_frontier_ns = cx_frontier_ns c, ck_channel = ch,
          ck_start_ns = cx_start_ns c, ck_after_sequence = after, ck_limit = limit, ck_interval_ns = interval\<rparr>"
  by (auto simp: cache_key_of_def)

lemma cache_hit:
  assumes "cache_ok src d cache" and "context_of d i p off = Inr c"
    and "cache_key_of ch c p after limit interval = Inr key" and "cache key = Some page"
  shows "fresh_page src ch c after limit interval = Some (Inr page)"
proof -
  from assms(2) obtain r0 s0 where c: "session_state d i = Some r0" "rec_setup r0 = Some s0"
    "c = view r0 s0 (cs_play_start_ns s0 + off)" unfolding context_of_iff by blast
  from assms(3) have key: "ck_session_id key = i" "ck_version key = rec_version r0" "ck_channel key = ch"
    "ck_start_ns key = cx_start_ns c" "ck_after_sequence key = after" "ck_limit key = limit" "ck_interval_ns key = interval"
    using session_state_id [OF c(1)] by (auto simp: cache_key_of_iff c(3) view_def)
  from assms(1,4) obtain r r' s where e: "session_state d (ck_session_id key) = Some r'" "evolves r r'"
    "rec_version r = ck_version key" "rec_setup r = Some s"
    "fresh_page src (ck_channel key) (view r s (ck_start_ns key)) (ck_after_sequence key) (ck_limit key) (ck_interval_ns key)
       = Some (Inr page)" unfolding cache_ok_def by blast
  have "r' = r0" using e(1) c(1) key(1) by simp
  moreover from this e(2,3) key(2) have "r' = r" by (simp add: evolves_def)
  ultimately have "r = r0" "s = s0" using e(4) c(2) by simp_all
  with e(5) show ?thesis by (simp add: key c(3) view_def)
qed

lemma served_transparent:
  assumes "cache_ok src d cache" and "context_of d i p off = Inr c"
  shows "map_option (\<lambda>r. bindR r (\<lambda>(page, _). Inr page)) (served src cache ch c p after limit interval) =
    map_option (\<lambda>r. bindR r (\<lambda>(page, _). Inr page)) (served src (\<lambda>_. None) ch c p after limit interval)"
proof (cases "cache_key_of ch c p after limit interval")
  case (Inr key)
  show ?thesis
  proof (cases "cache key")
    case None
    with Inr show ?thesis by (cases "fresh_page src ch c after limit interval") (auto simp: served_def bindR_case split: sum.splits)
  next
    case (Some page)
    with cache_hit [OF assms Inr] Inr show ?thesis by (simp add: served_def)
  qed
qed (simp add: served_def)

lemma cache_ok_evolves:
  assumes "cache_ok src d cache" and "\<And>i r. session_state d i = Some r \<Longrightarrow> \<exists>r'. session_state d' i = Some r' \<and> evolves r r'"
  shows "cache_ok src d' cache"
  unfolding cache_ok_def
proof (intro allI impI)
  fix key page
  assume "cache key = Some page"
  with assms(1) obtain r r' s where e: "session_state d (ck_session_id key) = Some r'" "evolves r r'"
    "rec_version r = ck_version key" "rec_setup r = Some s"
    "fresh_page src (ck_channel key) (view r s (ck_start_ns key)) (ck_after_sequence key) (ck_limit key) (ck_interval_ns key)
       = Some (Inr page)" unfolding cache_ok_def by blast
  from assms(2) [OF e(1)] obtain r2 where "session_state d' (ck_session_id key) = Some r2" "evolves r' r2" by blast
  with e evolves_trans [of r r' r2] show "\<exists>r r' s. session_state d' (ck_session_id key) = Some r' \<and> evolves r r' \<and>
      rec_version r = ck_version key \<and> rec_setup r = Some s \<and>
      fresh_page src (ck_channel key) (view r s (ck_start_ns key)) (ck_after_sequence key) (ck_limit key) (ck_interval_ns key)
        = Some (Inr page)" by blast
qed

lemma cache_ok_served:
  assumes ok: "cache_ok src d cache" and c: "context_of d i p off = Inr c"
    and s: "served src cache ch c p after limit interval = Some (Inr (page, cache'))"
  shows "cache_ok src d cache'"
proof (cases "cache' = cache")
  case False
  from c obtain r0 s0 where r0: "session_state d i = Some r0" "rec_setup r0 = Some s0"
    "c = view r0 s0 (cs_play_start_ns s0 + off)" unfolding context_of_iff by blast
  from s False obtain key where key: "cache_key_of ch c p after limit interval = Inr key"
    and new: "fresh_page src ch c after limit interval = Some (Inr page)" "cache' = cache(key \<mapsto> page)"
    by (auto simp: served_def split: sum.splits option.splits)
  have k: "ck_session_id key = i" "ck_version key = rec_version r0" "ck_channel key = ch" "ck_start_ns key = cx_start_ns c"
    "ck_after_sequence key = after" "ck_limit key = limit" "ck_interval_ns key = interval"
    using key session_state_id [OF r0(1)] by (auto simp: cache_key_of_iff r0(3) view_def)
  have "view r0 s0 (cx_start_ns c) = c" by (simp add: r0(3) view_def)
  then have "\<exists>r r' s. session_state d (ck_session_id key) = Some r' \<and> evolves r r' \<and> rec_version r = ck_version key \<and>
      rec_setup r = Some s \<and> fresh_page src (ck_channel key) (view r s (ck_start_ns key)) (ck_after_sequence key)
        (ck_limit key) (ck_interval_ns key) = Some (Inr page)"
    using r0 new(1) evolves_refl [of r0] by (intro exI [of _ r0] exI [of _ s0]) (simp add: k)
  with ok new(2) show ?thesis unfolding cache_ok_def by auto
qed (use ok in simp)

lemma read_served:
  assumes "market_read src d q cache = Some (Inr (page, cache'))"
  obtains i p off c ch after limit interval where "context_of d i p off = Inr c"
    "served src cache ch c p after limit interval = Some (Inr (page, cache'))"
proof (cases q)
  case (Event_query ch i p off after limit)
  then have "ch \<noteq> CH_CANDLES" using assms by auto
  with assms that show ?thesis unfolding Event_query read_event [OF \<open>ch \<noteq> CH_CANDLES\<close>] by (auto split: sum.splits)
next
  case (Candle_query i p interval off limit)
  with assms that show ?thesis unfolding Candle_query read_candles by (auto split: sum.splits if_splits)
qed

lemma market_run_ok: "market_run src d cache \<Longrightarrow> sessions_inv d \<and> cache_ok src d cache"
proof (induction rule: market_run.induct)
  case run_init
  then show ?case using create_schema_inv by (simp add: cache_ok_def)
next
  case (run_service d cache d')
  then have ref: "refines_step d d'" using service_step_refines by blast
  moreover have "\<exists>r'. session_state d' i = Some r' \<and> evolves r r'" if "session_state d i = Some r" for i r
    using ref lifecycle_step_evolves that unfolding refines_step_def by blast
  ultimately show ?case using run_service refines_inv cache_ok_evolves by blast
next
  case (run_accept d cache i p k v ts pc a d')
  show ?case
  proof (cases "ac_replayed a")
    case True
    have "keys_ok d" using run_accept sessions_inv_log [of d] by (simp add: log_ok_def)
    from this run_accept(2) have "d' = d" by (cases rule: accept_cases) (use True in auto)
    with run_accept show ?thesis by simp
  next
    case False
    have ref: "refines_step d d'" using accept_refines run_accept False by blast
    moreover have "\<exists>r'. session_state d' i = Some r' \<and> evolves r r'" if "session_state d i = Some r" for i r
      using ref lifecycle_step_evolves that unfolding refines_step_def by blast
    ultimately show ?thesis using run_accept refines_inv cache_ok_evolves by blast
  qed
next
  case (run_read d cache q page cache')
  from run_read(2) obtain i p off c ch after limit interval where "context_of d i p off = Inr c"
    "served src cache ch c p after limit interval = Some (Inr (page, cache'))" by (rule read_served)
  with run_read cache_ok_served show ?case by blast
qed

lemma read_transparent:
  assumes "market_run src d cache"
  shows "map_option (\<lambda>r. bindR r (\<lambda>(page, _). Inr page)) (market_read src d q cache) =
    map_option (\<lambda>r. bindR r (\<lambda>(page, _). Inr page)) (market_read src d q (\<lambda>_. None))"
proof -
  have ok: "cache_ok src d cache" using market_run_ok [OF assms] by blast
  show ?thesis
  proof (cases q)
    case (Event_query ch i p off after limit)
    show ?thesis
    proof (cases "ch = CH_CANDLES")
      case False
      show ?thesis unfolding Event_query read_event [OF False]
        by (cases "context_of d i p off") (simp_all add: served_transparent [OF ok])
    qed (simp add: Event_query)
  next
    case (Candle_query i p interval off limit)
    show ?thesis unfolding Candle_query read_candles
      by (cases "context_of d i p off") (simp_all add: served_transparent [OF ok])
  qed
qed

text \<open>C13: equivalence. The page cache is transparent: along every interleaving of session operations, accepted
  commands and market reads, from the empty database and the empty cache, any read gives the page or the error that it
  would give with an empty cache, although a session keeps moving and pages of older versions stay cached.\<close>

theorem cache_transparent:
  assumes "market_run src d cache"
  shows "map_option (\<lambda>r. bindR r (\<lambda>(page, _). Inr page)) (market_read src d q cache) =
    map_option (\<lambda>r. bindR r (\<lambda>(page, _). Inr page)) (market_read src d q (\<lambda>_. None))"
  using read_transparent [OF assms] .

lemma read_page:
  assumes "market_run src d cache" and "market_read src d q cache = Some (Inr (page, cache'))"
  obtains c2 where "market_read src d q (\<lambda>_. None) = Some (Inr (page, c2))"
  using read_transparent [OF assms(1), of q] assms(2)
  by (cases "market_read src d q (\<lambda>_. None)") (auto simp: eq_commute [of "Inr page"])

section \<open>What a page shows\<close>

definition visible_page where
  "visible_page sq ts project c after limit page \<longleftrightarrow>
     (\<exists>evs. pg_items page = map (project c) evs \<and> int (length evs) \<le> limit \<and> ordered sq ts evs \<and>
        (\<forall>e\<in>set evs. cx_start_ns c \<le> ts e \<and> ts e < play_end_ns (cx_setup c) \<and>
           (\<exists>t. rec_logical_time_ns (cx_session c) = Some t \<and> ts e \<le> t) \<and>
           (case after of None \<Rightarrow> True | Some a \<Rightarrow> a < sq e)) \<and>
        pg_next_cursor page = (if evs \<noteq> [] \<and> int (length evs) = limit then Some (str_int (sq (last evs))) else None))"

lemma served_empty:
  "served src (\<lambda>_. None) ch c p after limit interval = Some (Inr (page, cache')) \<Longrightarrow>
   validate_query 0 after limit = Inr () \<and> fresh_page src ch c after limit interval = Some (Inr page)"
  by (auto simp: served_def cache_key_of_def split: sum.splits)

lemma channel_page_visible:
  assumes "channel_page sq ts fetch project (view r s st) after limit = Inr page" and "1 \<le> limit"
  shows "visible_page sq ts project (view r s st) after limit page"
  using assms(1)
proof (rule channel_page_spec)
  fix evs
  assume e: "pg_items page = map (project (view r s st)) evs" "int (length evs) \<le> max 0 limit" "ordered sq ts evs"
    "\<forall>e\<in>set evs. cx_start_ns (view r s st) \<le> ts e \<and> (\<exists>f. cx_frontier_ns (view r s st) = Some f \<and> ts e \<le> f) \<and>
       (case after of None \<Rightarrow> True | Some a \<Rightarrow> a < sq e)" "pg_next_cursor page = next_cursor sq evs limit"
  have "ts e < play_end_ns s \<and> (\<exists>t. rec_logical_time_ns r = Some t \<and> ts e \<le> t)" if "e \<in> set evs" for e
    using e(4) that frontier_bounds [of r s] by (fastforce simp: view_def)
  with e assms(2) show ?thesis unfolding visible_page_def by (intro exI [of _ evs]) (auto simp: view_def next_cursor_def)
qed

lemma event_read_visible:
  assumes "market_run src d cache" and "ch \<noteq> CH_CANDLES"
    and "market_read src d (Event_query ch i p off after limit) cache = Some R"
    and "\<And>r s page. fresh_page src ch (view r s (cs_play_start_ns s + off)) after limit None = Some (Inr page) \<Longrightarrow> 1 \<le> limit \<Longrightarrow>
      Q (view r s (cs_play_start_ns s + off)) page"
  shows "case R of Inl _ \<Rightarrow> True | Inr (page, _) \<Rightarrow>
    \<exists>r s. session_state d i = Some r \<and> rec_principal_id r = p \<and> rec_setup r = Some s \<and>
      Q (view r s (cs_play_start_ns s + off)) page"
proof (cases R)
  case (Inr x)
  obtain page cache' where x: "x = (page, cache')" by (cases x)
  with assms(3) Inr have "market_read src d (Event_query ch i p off after limit) cache = Some (Inr (page, cache'))" by simp
  then obtain c2 where "market_read src d (Event_query ch i p off after limit) (\<lambda>_. None) = Some (Inr (page, c2))"
    by (rule read_page [OF assms(1)])
  then obtain c where c: "context_of d i p off = Inr c" "served src (\<lambda>_. None) ch c p after limit None = Some (Inr (page, c2))"
    unfolding read_event [OF assms(2)] by (auto split: sum.splits)
  from c(1) obtain r s where r: "session_state d i = Some r" "rec_principal_id r = p" "rec_setup r = Some s"
    "c = view r s (cs_play_start_ns s + off)" unfolding context_of_iff by blast
  with served_empty [OF c(2)] have "Q (view r s (cs_play_start_ns s + off)) page"
    by (intro assms(4)) (auto simp: validate_query_def)
  with r Inr x show ?thesis by auto
qed simp

text \<open>C12: safety. Whatever the source returns and whatever is cached, a page of trades, quotes or depth is
  served to the owner of a committed session only, and holds projections of source events that lie at or after the
  requested start, not beyond the logical time of the session and before the play end, after the cursor, in
  strict sequence and time order, at most the limit many; the continuation cursor is given exactly for a full page.\<close>

theorem market_pages_visible:
  assumes "market_run src d cache"
  shows "(case trades src d i p off after limit cache of Inl _ \<Rightarrow> True | Inr (page, _) \<Rightarrow>
      \<exists>r s. session_state d i = Some r \<and> rec_principal_id r = p \<and> rec_setup r = Some s \<and>
        visible_page t_source_sequence t_ts_ns project_trade (view r s (cs_play_start_ns s + off)) after limit page) \<and>
    (case bbo src d i p off after limit cache of Inl _ \<Rightarrow> True | Inr (page, _) \<Rightarrow>
      \<exists>r s. session_state d i = Some r \<and> rec_principal_id r = p \<and> rec_setup r = Some s \<and>
        visible_page b_source_sequence b_ts_ns project_bbo (view r s (cs_play_start_ns s + off)) after limit page) \<and>
    (case depth src d i p off after limit cache of Inl _ \<Rightarrow> True | Inr (page, _) \<Rightarrow>
      \<exists>r s. session_state d i = Some r \<and> rec_principal_id r = p \<and> rec_setup r = Some s \<and>
        visible_page d_source_sequence d_ts_ns project_depth (view r s (cs_play_start_ns s + off)) after limit page)"
proof (intro conjI, goal_cases)
  case 1
  show ?case by (rule event_read_visible [OF assms, where ch = CH_TRADES]) (auto simp: fresh_page_def intro: channel_page_visible)
next
  case 2
  show ?case by (rule event_read_visible [OF assms, where ch = CH_BBO]) (auto simp: fresh_page_def intro: channel_page_visible)
next
  case 3
  show ?case by (rule event_read_visible [OF assms, where ch = CH_DEPTH]) (auto simp: fresh_page_def intro: channel_page_visible)
qed

section \<open>Candles\<close>

text \<open>The reference: group all visible trades by bucket, in bucket order.\<close>

definition candle_groups :: "('e \<Rightarrow> int) \<Rightarrow> 'e list \<Rightarrow> (int \<times> 'e list) list" where
  "candle_groups bk xs = map (\<lambda>b. (b, filter (\<lambda>x. bk x = b) xs)) (sorted_list_of_set (bk ` set xs))"

lemma bucket_add_spec:
  "map_of (bucket_add b x bs) = (map_of bs)(b \<mapsto> (case map_of bs b of None \<Rightarrow> [] | Some ts \<Rightarrow> ts) @ [x])"
  "distinct (map fst bs) \<Longrightarrow> distinct (map fst (bucket_add b x bs))"
  by (simp_all add: bucket_add_def distinct_update)

lemma buckets_spec:
  fixes bk :: "Trade \<Rightarrow> int"
  defines "fill \<equiv> \<lambda>xs. foldl (\<lambda>bs x. bucket_add (bk x) x bs) [] xs"
  shows "distinct (map fst (fill xs)) \<and>
    map_of (fill xs) b = (if b \<in> bk ` set xs then Some (filter (\<lambda>x. bk x = b) xs) else None)"
proof (induction xs arbitrary: b rule: rev_induct)
  case Nil
  then show ?case by (simp add: fill_def)
next
  case (snoc x xs)
  have step: "fill (xs @ [x]) = bucket_add (bk x) x (fill xs)" by (simp add: fill_def)
  have "filter (\<lambda>y. bk y = bk x) xs = []" if "bk x \<notin> bk ` set xs" using that by (force simp: filter_empty_conv image_iff)
  then show ?case unfolding step using snoc.IH [of "bk x"] snoc.IH [of b] by (auto simp: bucket_add_spec)
qed

lemma buckets_groups:
  "sort_key fst (foldl (\<lambda>bs x. bucket_add (bk x) x bs) [] xs) = candle_groups bk xs"
proof -
  let ?bs = "foldl (\<lambda>bs x. bucket_add (bk x) x bs) [] xs"
  have dom: "fst ` set ?bs = bk ` set xs"
    using buckets_spec [of bk xs] by (auto simp flip: map_of_eq_None_iff simp: dom_map_of_conv_image_fst [symmetric] dom_def split: if_splits)
  have "sort_key fst ?bs = map (\<lambda>b. (b, the (map_of ?bs b))) (sorted_list_of_set (bk ` set xs))"
    using sort_items [of ?bs] buckets_spec [of bk xs] by (simp add: dom)
  then show ?thesis using buckets_spec [of bk xs] by (simp add: candle_groups_def)
qed

lemma groups_prefix:
  assumes "\<forall>x\<in>set xs. \<forall>y\<in>set ys. bk x \<le> bk y" and "n < length (candle_groups bk xs)"
  shows "take n (candle_groups bk (xs @ ys)) = take n (candle_groups bk xs)"
proof -
  let ?A = "bk ` set xs" and ?C = "bk ` set ys - bk ` set xs"
  let ?l = "sorted_list_of_set ?A"
  have n: "n < length ?l" using assms(2) by (simp add: candle_groups_def)
  have "\<forall>a\<in>?A. \<forall>c\<in>?C. a < c" using assms(1) by (metis DiffE imageE image_eqI order_le_less)
  then have "sorted_list_of_set (?A \<union> ?C) = ?l @ sorted_list_of_set ?C" by (intro sorted_list_of_set_append) auto
  moreover have "bk ` set (xs @ ys) = ?A \<union> ?C" by auto
  ultimately have keys: "take n (sorted_list_of_set (bk ` set (xs @ ys))) = take n ?l" using n by simp
  have "filter (\<lambda>x. bk x = b) ys = []" if "b \<in> set (take n ?l)" for b
  proof -
    from that obtain k where k: "k < n" "b = ?l ! k" by (auto simp: in_set_conv_nth)
    have "?l ! k < ?l ! n" using k(1) n strict_sorted_list_of_set [of ?A] sorted_wrt_nth_less by blast
    moreover have "?l ! n \<in> ?A" using nth_mem [OF n] by simp
    ultimately show ?thesis using assms(1) k(2) by (force simp: filter_empty_conv)
  qed
  then show ?thesis unfolding candle_groups_def take_map keys by (intro map_cong) auto
qed

text \<open>The documented behaviour of the trade query: the trades of one log in the window after a sequence, at most the limit.\<close>

definition beyond :: "int option \<Rightarrow> Trade \<Rightarrow> bool" where
  "beyond after x \<longleftrightarrow> (case after of None \<Rightarrow> True | Some a \<Rightarrow> a < t_source_sequence x)"

definition window :: "int \<Rightarrow> int \<Rightarrow> Trade list \<Rightarrow> Trade list" where
  "window lo hi log = filter (\<lambda>x. lo \<le> t_ts_ns x \<and> t_ts_ns x \<le> hi) log"

definition serves_trades :: "MarketDataSource \<Rightarrow> string \<Rightarrow> string \<Rightarrow> Trade list \<Rightarrow> bool" where
  "serves_trades src h instrument log \<longleftrightarrow>
     (\<forall>lo hi after limit. src_trades src h instrument lo hi after limit =
        Inr (take (nat limit) (filter (beyond after) (window lo hi log))))"

abbreviation ordered_trades :: "Trade list \<Rightarrow> bool" where
  "ordered_trades \<equiv> ordered t_source_sequence t_ts_ns"

lemma ordered_filter: "ordered sq ts xs \<Longrightarrow> ordered sq ts (filter P xs)"
  by (simp add: ordered.simps sorted_wrt_filter)

lemma page_rest:
  assumes ord: "ordered_trades V" and V: "V = P @ Q" and page: "take n Q \<noteq> []"
  shows "filter (beyond (Some (t_source_sequence (last (take n Q))))) V = drop n Q"
proof -
  let ?s = "t_source_sequence (last (take n Q))"
  have "last (take n Q) \<in> set Q" using last_in_set [OF page] by (rule in_set_takeD)
  then have "\<forall>x\<in>set P. \<not> ?s < t_source_sequence x"
    using ord by (fastforce simp: V ordered.simps sorted_wrt_append)
  moreover have "sorted_wrt (\<lambda>x y. t_source_sequence x < t_source_sequence y) Q"
    by (rule sorted_wrt_mono_rel [of Q "\<lambda>x y. t_source_sequence x < t_source_sequence y \<and> t_ts_ns x \<le> t_ts_ns y"])
       (use ord in \<open>auto simp: V ordered.simps sorted_wrt_append\<close>)
  moreover have "beyond (Some ?s) = (\<lambda>x. ?s < t_source_sequence x)" by (simp add: beyond_def fun_eq_iff)
  ultimately show ?thesis
    using resume_after_page [of t_source_sequence Q n] page by (simp add: V filter_empty_conv)
qed

lemma beyond_check:
  "ordered_trades xs \<Longrightarrow> \<forall>x\<in>set xs. beyond after x \<Longrightarrow> validate_source_order t_source_sequence t_ts_ns xs after = Inr ()"
  unfolding validate_source_order_def by (rule ordered_check) (simp_all add: beyond_def)

lemma beyond_advances: "beyond after x \<Longrightarrow> \<not> (case after of None \<Rightarrow> False | Some a \<Rightarrow> t_source_sequence x \<le> a)"
  by (cases after) (simp_all add: beyond_def)

lemma bucket_loop_page:
  assumes "\<not> limit < int (length buckets)" and "fetch after = Inr raw" and "raw \<noteq> []"
    and "validate_source_order t_source_sequence t_ts_ns raw after = Inr ()"
    and "\<not> (case after of None \<Rightarrow> False | Some a \<Rightarrow> t_source_sequence (last raw) \<le> a)"
  shows "bucket_loop fetch c f interval limit after buckets =
    (if int (length raw) < MAX_PAGE_SIZE then Some (Inr (foldl (bucket_trade c f interval) buckets raw))
     else bucket_loop fetch c f interval limit (Some (t_source_sequence (last raw)))
            (foldl (bucket_trade c f interval) buckets raw))"
  by (subst bucket_loop.simps) (simp add: assms Let_def)

lemma bucket_loop_exact:
  fixes c f interval
  defines "fill \<equiv> foldl (bucket_trade c f interval) []"
  assumes ord: "ordered_trades V" and fetch: "\<And>after. fetch after = Inr (take (nat MAX_PAGE_SIZE) (filter (beyond after) V))"
  shows "V = P @ filter (beyond after) V \<Longrightarrow> \<exists>P' R'. V = P' @ R' \<and>
    bucket_loop fetch c f interval limit after (fill P) = Some (Inr (fill P')) \<and>
    (R' = [] \<or> limit < int (length (fill P')))"
proof (induction "length (filter (beyond after) V)" arbitrary: P after rule: less_induct)
  case less
  let ?Q = "filter (beyond after) V"
  let ?raw = "take (nat MAX_PAGE_SIZE) ?Q"
  have max: "nat MAX_PAGE_SIZE = 1000" by (simp add: MAX_PAGE_SIZE_def)
  consider (full) "limit < int (length (fill P))" | (empty) "\<not> limit < int (length (fill P))" "?raw = []"
    | (page) "\<not> limit < int (length (fill P))" "?raw \<noteq> []" by blast
  then show ?case
  proof cases
    case full
    then have "bucket_loop fetch c f interval limit after (fill P) = Some (Inr (fill P))" by (subst bucket_loop.simps) simp
    with less.prems full show ?thesis by blast
  next
    case empty
    then have "bucket_loop fetch c f interval limit after (fill P) = Some (Inr (fill P))"
      by (subst bucket_loop.simps) (simp add: fetch)
    moreover have "?Q = []" using empty(2) max by simp
    ultimately show ?thesis using less.prems by (intro exI [of _ P] exI [of _ "[]"]) simp
  next
    case page
    let ?next = "t_source_sequence (last ?raw)"
    have mem: "\<forall>x\<in>set ?raw. beyond after x" by (auto dest: in_set_takeD)
    have "ordered_trades ?raw" using ordered_filter [OF ord] by (simp add: ordered.simps sorted_wrt_take)
    then have valid: "validate_source_order t_source_sequence t_ts_ns ?raw after = Inr ()"
      using mem by (rule beyond_check)
    have "beyond after (last ?raw)" using mem last_in_set [OF page(2)] by (rule bspec)
    then have adv: "\<not> (case after of None \<Rightarrow> False | Some a \<Rightarrow> ?next \<le> a)" by (rule beyond_advances)
    have grow: "foldl (bucket_trade c f interval) (fill P) ?raw = fill (P @ ?raw)" by (simp add: fill_def)
    have loop: "bucket_loop fetch c f interval limit after (fill P) =
      (if int (length ?raw) < MAX_PAGE_SIZE then Some (Inr (fill (P @ ?raw)))
       else bucket_loop fetch c f interval limit (Some ?next) (fill (P @ ?raw)))"
      using bucket_loop_page [where fetch = fetch and after = after and raw = ?raw and buckets = "fill P" and limit = limit
          and c = c and f = f and interval = interval, OF page(1) fetch page(2) valid adv]
      unfolding grow .
    show ?thesis
    proof (cases "int (length ?raw) < MAX_PAGE_SIZE")
      case True
      then have "?raw = ?Q" by (simp add: MAX_PAGE_SIZE_def)
      then have "V = (P @ ?raw) @ []" using less.prems by simp
      with loop True show ?thesis by (metis (full_types))
    next
      case False
      have rest: "filter (beyond (Some ?next)) V = drop (nat MAX_PAGE_SIZE) ?Q" by (rule page_rest [OF ord less.prems page(2)])
      have shrink: "length (filter (beyond (Some ?next)) V) < length ?Q"
        unfolding rest using page(2) by (cases ?Q) (simp_all add: max)
      have "V = (P @ ?raw) @ filter (beyond (Some ?next)) V" unfolding rest using less.prems by simp
      from less.hyps [OF shrink this] loop False show ?thesis by auto
    qed
  qed
qed

text \<open>The candles of a window: the first groups of its trades by bucket.\<close>

definition candle_bucket :: "CommittedSetup \<Rightarrow> int \<Rightarrow> Trade \<Rightarrow> int" where
  "candle_bucket s interval x = (t_ts_ns x - cs_play_start_ns s) div interval"

lemma fill_window:
  assumes "\<forall>x\<in>set xs. cx_start_ns c \<le> t_ts_ns x \<and> t_ts_ns x \<le> f"
  shows "foldl (bucket_trade c f interval) bs xs =
    foldl (\<lambda>bs x. bucket_add (candle_bucket (cx_setup c) interval x) x bs) bs xs"
  using assms by (induction xs arbitrary: bs) (simp_all add: bucket_trade_def candle_bucket_def)

lemma candle_page_exact:
  assumes c: "c = view r s st" and f: "frontier_of r s = Some f" and limit: "0 < limit" and interval: "0 < interval"
    and src: "serves_trades src (cs_manifest_hash s) (cs_instrument_id s) log" and ord: "ordered_trades log"
  shows "candle_page src c interval limit = Some (Inr
    \<lparr>pg_items = map (project_candle c interval) (take (nat limit) (candle_groups (candle_bucket s interval) (window st f log))),
     pg_next_cursor = None, pg_frontier = frontier_payload c\<rparr>)"
proof -
  let ?V = "window st f log" and ?bk = "candle_bucket s interval"
  have c': "cx_frontier_ns c = Some f" "cx_setup c = s" "cx_start_ns c = st" using f by (simp_all add: c view_def)
  have V: "\<forall>x\<in>set ?V. cx_start_ns c \<le> t_ts_ns x \<and> t_ts_ns x \<le> f" by (simp add: window_def c')
  have ordV: "ordered_trades ?V" unfolding window_def by (rule ordered_filter [OF ord])
  let ?fetch = "\<lambda>after. src_trades src (cs_manifest_hash s) (cs_instrument_id s) st f after MAX_PAGE_SIZE"
  have fetch: "?fetch after = Inr (take (nat MAX_PAGE_SIZE) (filter (beyond after) ?V))" for after
    using src by (simp add: serves_trades_def)
  have all: "?V = [] @ filter (beyond None) ?V" by (simp add: beyond_def)
  obtain P R where PR: "?V = P @ R"
    and loop: "bucket_loop ?fetch c f interval limit None [] = Some (Inr (foldl (bucket_trade c f interval) [] P))"
    and stop: "R = [] \<or> limit < int (length (foldl (bucket_trade c f interval) [] P))"
    using bucket_loop_exact [where fetch = ?fetch and c = c and f = f and interval = interval and limit = limit,
        OF ordV fetch all] by auto
  let ?bs = "foldl (bucket_trade c f interval) [] P"
  have groups: "sort_key fst ?bs = candle_groups ?bk P"
    using fill_window [of P c f interval "[]"] V buckets_groups [of ?bk P] by (simp add: PR c')
  have "take (nat limit) (candle_groups ?bk ?V) = take (nat limit) (candle_groups ?bk P)"
  proof (cases "R = []")
    case False
    then have "nat limit < length (sort_key fst ?bs)" using stop limit by (simp add: nat_less_iff)
    then have n: "nat limit < length (candle_groups ?bk P)" by (simp add: groups)
    have "\<forall>x\<in>set P. \<forall>y\<in>set R. ?bk x \<le> ?bk y"
      using ordV interval by (auto simp: PR ordered.simps sorted_wrt_append candle_bucket_def intro!: zdiv_mono1)
    from groups_prefix [OF this n] show ?thesis by (simp add: PR)
  qed (simp add: PR)
  then show ?thesis
    by (simp add: candle_page_def candle_buckets_def c' loop groups bindR_case)
qed

lemma supported_positive: "interval \<in> set SUPPORTED_INTERVALS_NS \<Longrightarrow> 0 < interval"
  by (auto simp: SUPPORTED_INTERVALS_NS_def)

lemma read_same:
  assumes "market_run src d cache" and "market_read src d q (\<lambda>_. None) = Some (Inr (page, c2))"
  shows "\<exists>cache'. market_read src d q cache = Some (Inr (page, cache'))"
  using read_transparent [OF assms(1), of q] assms(2)
  by (cases "market_read src d q cache") (auto split: sum.splits simp: bindR_case)

text \<open>C14: termination. A candle query against a source that serves one ordered trade log through pages of a thousand
  returns after finitely many pages, and its candles are those of a reference that groups all trades of the visible
  window by bucket at once: the early stop after more buckets than the limit loses no trade of a returned candle.\<close>

theorem candles_reference:
  assumes run: "market_run src d cache" and r: "session_state d i = Some r" "rec_setup r = Some s"
    and off: "0 \<le> off" "off < cs_duration_ns s" and f: "frontier_of r s = Some f"
    and limit: "1 \<le> limit" "limit \<le> MAX_PAGE_SIZE" and interval: "interval \<in> set SUPPORTED_INTERVALS_NS"
    and src: "serves_trades src (cs_manifest_hash s) (cs_instrument_id s) log" and ord: "ordered_trades log"
  shows "\<exists>page cache'. candles src d i (rec_principal_id r) interval off limit cache = Some (Inr (page, cache')) \<and>
    pg_items page = map (project_candle (view r s (cs_play_start_ns s + off)) interval)
      (take (nat limit) (candle_groups (candle_bucket s interval) (window (cs_play_start_ns s + off) f log)))"
proof -
  let ?c = "view r s (cs_play_start_ns s + off)" and ?q = "Candle_query i (rec_principal_id r) interval off limit"
  have c: "context_of d i (rec_principal_id r) off = Inr ?c"
    unfolding context_of_iff using r off by (auto simp: play_end_ns_def)
  have "0 < limit" "0 < interval" using limit interval supported_positive by auto
  note page = candle_page_exact [OF refl f this src ord, of "cs_play_start_ns s + off"]
  obtain key where "cache_key_of CH_CANDLES ?c (rec_principal_id r) None limit (Some interval) = Inr key"
    using limit by (auto simp: cache_key_of_def validate_query_def)
  then have "market_read src d ?q (\<lambda>_. None) = Some (Inr (the_page, [key \<mapsto> the_page]))"
    if "candle_page src ?c interval limit = Some (Inr the_page)" for the_page
    unfolding read_candles using that c interval by (simp add: served_def fresh_page_def)
  from read_same [OF run this [OF page]] show ?thesis by auto
qed

section \<open>Blinded timelines\<close>

text \<open>Two views of sessions that do not show absolute time, the second one later by a constant.\<close>

definition shifted :: "int \<Rightarrow> market_context \<Rightarrow> market_context \<Rightarrow> bool" where
  "shifted k c c' \<longleftrightarrow> cs_visibility_mode (cx_setup c) \<noteq> ABSOLUTE \<and> cs_visibility_mode (cx_setup c') \<noteq> ABSOLUTE \<and>
     cs_play_start_ns (cx_setup c') = cs_play_start_ns (cx_setup c) + k \<and> cx_start_ns c' = cx_start_ns c + k \<and>
     cx_frontier_ns c' = map_option (\<lambda>f. f + k) (cx_frontier_ns c) \<and>
     rec_session_id (cx_session c') = rec_session_id (cx_session c)"

definition shifted_query :: "int \<Rightarrow> (int \<Rightarrow> 'e \<Rightarrow> 'e) \<Rightarrow> CommittedSetup \<Rightarrow> CommittedSetup \<Rightarrow> 'e query \<Rightarrow> 'e query \<Rightarrow> bool" where
  "shifted_query k sh s s' fetch fetch' \<longleftrightarrow> (\<forall>lo hi after limit.
     fetch' (cs_manifest_hash s') (cs_instrument_id s') (lo + k) (hi + k) after limit =
     map_sum id (map (sh k)) (fetch (cs_manifest_hash s) (cs_instrument_id s) lo hi after limit))"

lemma order_check_shift:
  assumes "\<And>x. sq (sh x) = sq x" and "\<And>x. ts (sh x) = ts x + k"
  shows "order_check sq ts a (map_option (\<lambda>t. t + k) b) (map sh es) = order_check sq ts a b es"
proof (induction es arbitrary: a b)
  case (Cons e es)
  from Cons.IH [of "Some (sq e)" "Some (ts e)"] show ?case by (cases a; cases b) (simp_all add: assms)
qed simp

lemma channel_page_shift:
  assumes sh: "shifted k c c'" and q: "shifted_query k sh (cx_setup c) (cx_setup c') fetch fetch'"
    and sq: "\<And>x. sq (sh k x) = sq x" and ts: "\<And>x. ts (sh k x) = ts x + k"
    and pr: "\<And>x. project c' (sh k x) = project c x"
  shows "channel_page sq ts fetch' project c' after limit = channel_page sq ts fetch project c after limit"
proof (cases "cx_frontier_ns c")
  case None
  with sh show ?thesis by (simp add: channel_page_def shifted_def frontier_payload_def)
next
  case (Some f)
  have c': "cx_frontier_ns c' = Some (f + k)" "cx_start_ns c' = cx_start_ns c + k" using sh Some by (simp_all add: shifted_def)
  let ?in = "\<lambda>k e. cx_start_ns c + k \<le> ts e \<and> ts e \<le> f + k \<and> (case after of None \<Rightarrow> True | Some a \<Rightarrow> a < sq e)"
  have "?in k (sh k e) = ?in 0 e" for e by (cases after) (simp_all add: sq ts)
  then have vis: "filter (?in k) (map (sh k) events) = map (sh k) (filter (?in 0) events)" for events
    unfolding filter_map comp_def by presburger
  have "visible_events sq ts (map (sh k) events) c' after limit =
      map_sum id (map (sh k)) (visible_events sq ts events c after limit)" for events
  proof -
    have "order_check sq ts after None (filter (?in k) (map (sh k) events)) = order_check sq ts after None (filter (?in 0) events)"
      unfolding vis using order_check_shift [of sq "sh k" ts k after None "filter (?in 0) events", OF sq ts] by simp
    then show ?thesis
      unfolding visible_events_def validate_source_order_def c' Some option.case Let_def vis
      by (auto simp: take_map bindR_case split: sum.splits)
  qed
  moreover have "next_cursor sq (map (sh k) es) limit = next_cursor sq es limit" for es
    by (cases es rule: rev_cases) (simp_all add: next_cursor_def sq)
  moreover have "frontier_payload c' = frontier_payload c" using sh Some by (simp add: shifted_def frontier_payload_def time_payload_def)
  moreover have "map (project c' \<circ> sh k) es = map (project c) es" for es by (simp add: pr)
  ultimately show ?thesis
    using q by (auto simp: channel_page_def Some c' shifted_query_def bindR_case split: sum.splits)
qed

definition shift_trade :: "int \<Rightarrow> Trade \<Rightarrow> Trade" where
  "shift_trade k x = x\<lparr>t_ts_ns := t_ts_ns x + k\<rparr>"

definition shift_bbo :: "int \<Rightarrow> Bbo \<Rightarrow> Bbo" where
  "shift_bbo k x = x\<lparr>b_ts_ns := b_ts_ns x + k\<rparr>"

definition shift_depth :: "int \<Rightarrow> DepthSnapshot \<Rightarrow> DepthSnapshot" where
  "shift_depth k x = x\<lparr>d_ts_ns := d_ts_ns x + k\<rparr>"

definition shifted_source :: "int \<Rightarrow> CommittedSetup \<Rightarrow> CommittedSetup \<Rightarrow> MarketDataSource \<Rightarrow> MarketDataSource \<Rightarrow> bool" where
  "shifted_source k s s' src src' \<longleftrightarrow> shifted_query k shift_trade s s' (src_trades src) (src_trades src') \<and>
     shifted_query k shift_bbo s s' (src_bbo src) (src_bbo src') \<and> shifted_query k shift_depth s s' (src_depth src) (src_depth src')"

definition shifted_session :: "int \<Rightarrow> SessionRecord \<Rightarrow> CommittedSetup \<Rightarrow> SessionRecord \<Rightarrow> CommittedSetup \<Rightarrow> bool" where
  "shifted_session k r s r' s' \<longleftrightarrow> rec_setup r = Some s \<and> rec_setup r' = Some s' \<and> rec_principal_id r' = rec_principal_id r \<and>
     rec_logical_time_ns r' = map_option (\<lambda>t. t + k) (rec_logical_time_ns r) \<and>
     cs_play_start_ns s' = cs_play_start_ns s + k \<and> cs_duration_ns s' = cs_duration_ns s \<and>
     cs_visibility_mode s \<noteq> ABSOLUTE \<and> cs_visibility_mode s' \<noteq> ABSOLUTE"

lemma shifted_views:
  assumes "shifted_session k r s r' s'" and "rec_session_id r' = rec_session_id r"
  shows "shifted k (view r s (cs_play_start_ns s + off)) (view r' s' (cs_play_start_ns s' + off))"
  using assms by (cases "rec_logical_time_ns r")
    (auto simp: shifted_session_def shifted_def view_def frontier_of_def Let_def play_end_ns_def)

lemma shifted_payload:
  assumes "shifted k c c'"
  shows "time_payload c' (t + k) = time_payload c t" "rec_session_id (cx_session c') = rec_session_id (cx_session c)"
  using assms by (simp_all add: shifted_def time_payload_def)

lemma fresh_page_shift:
  assumes sh: "shifted k c c'" and "shifted_source k (cx_setup c) (cx_setup c') src src'" and "ch \<noteq> CH_CANDLES"
  shows "fresh_page src' ch c' after limit None = fresh_page src ch c after limit None"
proof (cases ch)
  case CH_TRADES
  have "channel_page t_source_sequence t_ts_ns (src_trades src') project_trade c' after limit =
      channel_page t_source_sequence t_ts_ns (src_trades src) project_trade c after limit"
    by (rule channel_page_shift [OF sh, where sh = shift_trade])
       (use assms(2) in \<open>simp_all add: shifted_source_def shift_trade_def project_trade_def shifted_payload [OF sh]\<close>)
  then show ?thesis by (simp add: fresh_page_def CH_TRADES)
next
  case CH_BBO
  have "channel_page b_source_sequence b_ts_ns (src_bbo src') project_bbo c' after limit =
      channel_page b_source_sequence b_ts_ns (src_bbo src) project_bbo c after limit"
    by (rule channel_page_shift [OF sh, where sh = shift_bbo])
       (use assms(2) in \<open>simp_all add: shifted_source_def shift_bbo_def project_bbo_def shifted_payload [OF sh]\<close>)
  then show ?thesis by (simp add: fresh_page_def CH_BBO)
next
  case CH_DEPTH
  have "channel_page d_source_sequence d_ts_ns (src_depth src') project_depth c' after limit =
      channel_page d_source_sequence d_ts_ns (src_depth src) project_depth c after limit"
    by (rule channel_page_shift [OF sh, where sh = shift_depth])
       (use assms(2) in \<open>simp_all add: shifted_source_def shift_depth_def project_depth_def shifted_payload [OF sh]\<close>)
  then show ?thesis by (simp add: fresh_page_def CH_DEPTH)
qed (use assms in simp)

text \<open>C15: safety. Sessions that do not show absolute time cannot be told apart by when their market lies: if a second
  session has the same owner, duration and identifier but plays a market that lies later by a constant, every page
  of trades, quotes and depth, with its items, its cursor and its frontier, is the same, whatever the caches hold.\<close>

theorem blinded_pages_shift_invariant:
  assumes run: "market_run src d cache" "market_run src' d' cache'"
    and st: "session_state d i = Some r" "session_state d' i = Some r'" and sh: "shifted_session k r s r' s'"
    and src: "shifted_source k s s' src src'" and off: "0 \<le> off" "off < cs_duration_ns s"
    and p: "p = rec_principal_id r" and q: "q = Event_query ch i p off after limit"
  shows "map_option (\<lambda>r. bindR r (\<lambda>(page, _). Inr page)) (market_read src' d' q cache') =
    map_option (\<lambda>r. bindR r (\<lambda>(page, _). Inr page)) (market_read src d q cache)"
proof (cases "ch = CH_CANDLES")
  case False
  let ?c = "view r s (cs_play_start_ns s + off)" and ?c' = "view r' s' (cs_play_start_ns s' + off)"
  have c: "context_of d i p off = Inr ?c" "context_of d' i p off = Inr ?c'"
    using st sh off p unfolding context_of_iff by (auto simp: shifted_session_def play_end_ns_def)
  have "rec_session_id r' = rec_session_id r" using session_state_id [OF st(1)] session_state_id [OF st(2)] by simp
  then have views: "shifted k ?c ?c'" by (rule shifted_views [OF sh])
  moreover have "shifted_source k (cx_setup ?c) (cx_setup ?c') src src'" using src by (simp add: view_def)
  ultimately have "fresh_page src' ch ?c' after limit None = fresh_page src ch ?c after limit None"
    using False by (rule fresh_page_shift)
  then have "map_option (\<lambda>r. bindR r (\<lambda>(page, _). Inr page)) (served src' (\<lambda>_. None) ch ?c' p after limit None) =
      map_option (\<lambda>r. bindR r (\<lambda>(page, _). Inr page)) (served src (\<lambda>_. None) ch ?c p after limit None)"
    by (cases "validate_query 0 after limit") (auto simp: served_def cache_key_of_def option.map_comp comp_def bindR_case
        intro!: option.map_cong split: sum.splits)
  then show ?thesis
    unfolding read_transparent [OF run(1), of q] read_transparent [OF run(2), of q]
    unfolding q read_event [OF False] c by simp
qed (simp add: q)

section \<open>Orders priced at the visible quote\<close>

text \<open>An order prepared against the market service has a side, an order type, a time in force and a positive
  unsigned quantity in canonical decimal text; a limit order and a stop-limit order carry a positive 64-bit limit price,
  whether it was given or resolved from the visible quote, the stop orders a positive 64-bit stop price, and no other order
  carries either; a post-only order bears a limit.\<close>

theorem prepared_order_wellformed:
  assumes "prepare_order (current_quote src d) i p request = Inr pc"
  shows "\<exists>side ot tif n. jget (pc_payload pc) ''side'' = JStr side \<and> side \<in> {''BUY'', ''SELL''} \<and>
    jget (pc_payload pc) ''order_type'' = JStr ot \<and> ot \<in> {''MARKET'', ''LIMIT'', ''STOP_MARKET'', ''STOP_LIMIT''} \<and>
    jget (pc_payload pc) ''time_in_force'' = JStr tif \<and> tif \<in> {''GTC'', ''IOC'', ''FOK''} \<and>
    jget (pc_payload pc) ''quantity_atoms'' = JStr (str_int n) \<and> 0 < n \<and> in_u64 n \<and>
    (if ot \<in> {''LIMIT'', ''STOP_LIMIT''}
      then \<exists>l. jget (pc_payload pc) ''limit_price_atoms'' = JStr (str_int l) \<and> 0 < l \<and> in_i64 l
      else jget (pc_payload pc) ''limit_price_atoms'' = JNull \<and> jget (pc_payload pc) ''post_only'' = JBool False) \<and>
    (if ot \<in> {''STOP_MARKET'', ''STOP_LIMIT''}
      then \<exists>l. jget (pc_payload pc) ''stop_price_atoms'' = JStr (str_int l) \<and> 0 < l \<and> in_i64 l
      else jget (pc_payload pc) ''stop_price_atoms'' = JNull)"
proof -
  obtain ins side quantity ot tif ro po mo payload where
    e: "enum_string request ''side'' [''BUY'', ''SELL''] = Inr side"
      "canonical_u64_text (jget request ''quantity_atoms'') True = Inr quantity"
      "enum_string request ''order_type'' [''MARKET'', ''LIMIT'', ''STOP_MARKET'', ''STOP_LIMIT''] = Inr ot"
      "enum_string request ''time_in_force'' [''GTC'', ''IOC'', ''FOK''] = Inr tif"
    and po: "\<not> (po \<and> ot \<notin> set limit_bearing)"
    and r: "resolve_prices (current_quote src d) i p side ot request
      [(''command_type'', JStr ''SUBMIT_ORDER''), (''instrument_id'', JStr ins),
        (''side'', JStr side), (''quantity_atoms'', JStr quantity), (''order_type'', JStr ot),
        (''time_in_force'', JStr tif), (''reduce_only'', JBool ro),
        (''post_only'', JBool po), (''marketable_only'', JBool mo)] = Inr payload"
    and pc: "pc_payload pc = payload"
    using assms unfolding prepare_order_def bindR_eq_Inr require_simps(3) by (elim exE conjE) (rule that, (assumption | auto)+)
  have enum: "x \<in> set xs" if "enum_string request k xs = Inr x" for x k xs
    using that by (auto simp: enum_string_def split: json.splits if_splits)
  from e(2) obtain n where n: "quantity = str_int n" "0 < n" "in_u64 n" by (auto simp: canonical_u64_text_iff)
  let ?initial = "[(''command_type'', JStr ''SUBMIT_ORDER''), (''instrument_id'', JStr ins),
        (''side'', JStr side), (''quantity_atoms'', JStr quantity), (''order_type'', JStr ot),
        (''time_in_force'', JStr tif), (''reduce_only'', JBool ro),
        (''post_only'', JBool po), (''marketable_only'', JBool mo)]"
  have "jget ?initial ''limit_price_atoms'' = JNull" "jget ?initial ''stop_price_atoms'' = JNull" by (simp_all add: jget_def)
  note spec = market_quotes.resolve_prices_spec [OF r this]
  have "jget payload k = jget [(''side'', JStr side), (''quantity_atoms'', JStr quantity), (''order_type'', JStr ot),
      (''time_in_force'', JStr tif), (''post_only'', JBool po)] k"
    if "k \<in> {''side'', ''quantity_atoms'', ''order_type'', ''time_in_force'', ''post_only''}" for k
    using spec that by (auto simp: jget_def)
  then have fs: "jget payload ''side'' = JStr side" "jget payload ''quantity_atoms'' = JStr quantity"
    "jget payload ''order_type'' = JStr ot" "jget payload ''time_in_force'' = JStr tif" "jget payload ''post_only'' = JBool po"
    by (simp_all add: jget_def)
  have "(if ot \<in> set limit_bearing
      then \<exists>n. jget payload ''limit_price_atoms'' = JStr (str_int n) \<and> 0 < n \<and> in_i64 n
      else jget payload ''limit_price_atoms'' = JNull)"
    "(if ot \<in> set stop_bearing
      then \<exists>n. jget payload ''stop_price_atoms'' = JStr (str_int n) \<and> 0 < n \<and> in_i64 n
      else jget payload ''stop_price_atoms'' = JNull)"
    using spec by blast+
  then show ?thesis
    using enum [OF e(1)] enum [OF e(3)] enum [OF e(4)] po
    by - (rule exI [of _ side], rule exI [of _ ot], rule exI [of _ tif], rule exI [of _ n],
       auto simp: pc n fs limit_bearing_def stop_bearing_def)
qed

section \<open>Witnesses\<close>

abbreviation demo_setup :: CommittedSetup where
  "demo_setup \<equiv> committed_setup demo_catalog demo_request"

definition demo_trade :: "int \<Rightarrow> int \<Rightarrow> Trade" where
  "demo_trade t n = \<lparr>t_source_event_id = ''e'', t_source_sequence = n, t_ts_ns = t, t_price_atoms = 100, t_quantity_atoms = 5\<rparr>"

definition demo_market :: "Trade list \<Rightarrow> Bbo list \<Rightarrow> MarketDataSource" where
  "demo_market log quotes = \<lparr>src_trades = \<lambda>h instrument lo hi after limit. Inr (take (nat limit) (filter (beyond after) (window lo hi log))),
     src_bbo = \<lambda>h instrument lo hi after limit. Inr [], src_depth = \<lambda>h instrument lo hi after limit. Inr [],
     src_latest_bbo = \<lambda>h instrument lo hi. Inr (case quotes of [] \<Rightarrow> None | q # _ \<Rightarrow> Some q)\<rparr>"

lemma demo_market_serves: "serves_trades (demo_market log quotes) h instrument log"
  by (simp add: serves_trades_def demo_market_def)

lemma reach_run: "service_reach d \<Longrightarrow> market_run src d (\<lambda>_. None)"
  by (induction rule: service_reach.induct) (auto intro: market_run.intros)

lemma demo_market_session:
  obtains r d where "market_run src d (\<lambda>_. None)" "session_state d ''s1'' = Some r" "rec_principal_id r = ''alice''"
    "rec_setup r = Some demo_setup" "frontier_of r demo_setup = Some 300" "rec_logical_time_ns r = Some 300"
proof -
  obtain r d where d: "service_reach d" "session_state d ''s1'' = Some r" "rec_principal_id r = ''alice''"
    "rec_setup r = Some demo_setup" "rec_logical_time_ns r = Some 300"
    by (rule demo_committed)
  have "frontier_of r demo_setup = Some 300"
    using d(5) by (simp add: frontier_of_def play_end_ns_def committed_setup_def demo_request_def)
  with d that reach_run show ?thesis by blast
qed

lemma demo_read:
  assumes "session_state d ''s1'' = Some r" "rec_principal_id r = ''alice''" "rec_setup r = Some demo_setup"
    "frontier_of r demo_setup = Some 300" and ord: "ordered_trades log"
  shows "\<exists>page cache. market_read (demo_market log quotes) d (Event_query CH_TRADES ''s1'' ''alice'' 0 None 10) (\<lambda>_. None) =
    Some (Inr (page, cache)) \<and> cache \<noteq> (\<lambda>_. None)"
proof -
  let ?c = "view r demo_setup (cs_play_start_ns demo_setup + 0)" and ?src = "demo_market log quotes"
  have c: "context_of d ''s1'' ''alice'' 0 = Inr ?c"
    using assms(1-3) unfolding context_of_iff by (auto simp: play_end_ns_def committed_setup_def demo_request_def)
  have "ordered_trades (filter P (take n (filter Q (window lo hi log))))" for P n Q lo hi
    using ord by (simp add: window_def ordered.simps sorted_wrt_filter sorted_wrt_take)
  then have "\<exists>page. channel_page t_source_sequence t_ts_ns (src_trades ?src) project_trade ?c None 10 = Inr page"
    using assms(4) by (auto simp: channel_page_def view_def demo_market_def visible_events_def validate_query_def
        MAX_PAGE_SIZE_def validate_source_order_def Let_def ordered_check [where a = None and b = None])
  then obtain page where page: "fresh_page ?src CH_TRADES ?c None 10 None = Some (Inr page)" by (auto simp: fresh_page_def)
  obtain key where key: "cache_key_of CH_TRADES ?c ''alice'' None 10 None = Inr key"
    by (simp add: cache_key_of_def validate_query_def MAX_PAGE_SIZE_def)
  have "served ?src (\<lambda>_. None) CH_TRADES ?c ''alice'' None 10 None = Some (Inr (page, [key \<mapsto> page]))"
    using page key by (simp add: served_def)
  moreover have "[key \<mapsto> page] \<noteq> (\<lambda>_. None)" by simp
  ultimately show ?thesis
    unfolding read_event [of CH_TRADES, simplified channel.distinct not_False_eq_True True_implies_equals] c by auto
qed

theorem candles_reference_witness:
  "\<exists>d page cache'. candles (demo_market [demo_trade 300 1, demo_trade 310 2] []) d ''s1'' ''alice'' 1000000000 0 10 (\<lambda>_. None) =
     Some (Inr (page, cache')) \<and> length (pg_items page) = 1"
proof -
  let ?src = "demo_market [demo_trade 300 1, demo_trade 310 2] []"
  obtain r d where d: "market_run ?src d (\<lambda>_. None)" "session_state d ''s1'' = Some r" "rec_principal_id r = ''alice''"
    "rec_setup r = Some demo_setup" "frontier_of r demo_setup = Some 300" "rec_logical_time_ns r = Some 300"
    by (rule demo_market_session)
  have s: "cs_duration_ns demo_setup = 400" "cs_play_start_ns demo_setup = 300"
    by (simp_all add: committed_setup_def demo_request_def)
  have "ordered_trades [demo_trade 300 1, demo_trade 310 2]" by (simp add: ordered.simps demo_trade_def)
  from candles_reference [OF d(1,2,4) _ _ d(5) _ _ _ demo_market_serves this, of 0 10 1000000000]
  obtain page cache' where "candles ?src d ''s1'' ''alice'' 1000000000 0 10 (\<lambda>_. None) = Some (Inr (page, cache'))"
    "pg_items page = map (project_candle (view r demo_setup 300) 1000000000)
      (take 10 (candle_groups (candle_bucket demo_setup 1000000000) (window 300 300 [demo_trade 300 1, demo_trade 310 2])))"
    by (auto simp: d(3) s MAX_PAGE_SIZE_def SUPPORTED_INTERVALS_NS_def)
  then show ?thesis
    by (intro exI [of _ d] exI [of _ page] exI [of _ cache']) (simp add: window_def demo_trade_def candle_groups_def)
qed

theorem cache_transparent_witness:
  "\<exists>d page cache. cache \<noteq> (\<lambda>_. None) \<and>
     map_option (\<lambda>r. bindR r (\<lambda>(page, _). Inr page))
       (market_read (demo_market [] []) d (Event_query CH_TRADES ''s1'' ''alice'' 0 None 10) cache) = Some (Inr page)"
proof -
  let ?src = "demo_market [] []" and ?q = "Event_query CH_TRADES ''s1'' ''alice'' 0 None 10"
  obtain r d where d: "market_run ?src d (\<lambda>_. None)" "session_state d ''s1'' = Some r" "rec_principal_id r = ''alice''"
    "rec_setup r = Some demo_setup" "frontier_of r demo_setup = Some 300" "rec_logical_time_ns r = Some 300"
    by (rule demo_market_session)
  obtain page cache where read: "market_read ?src d ?q (\<lambda>_. None) = Some (Inr (page, cache))" and c: "cache \<noteq> (\<lambda>_. None)"
    using demo_read [OF d(2-5), of "[]" "[]"] by (auto simp: ordered.simps simp del: market_read.simps)
  from cache_transparent [OF run_read [OF d(1) read], of ?q] read c show ?thesis by auto
qed

theorem market_pages_visible_witness:
  "\<exists>d page cache' r. trades (demo_market [demo_trade 300 1, demo_trade 310 2] []) d ''s1'' ''alice'' 0 None 10 (\<lambda>_. None) =
     Inr (page, cache') \<and> session_state d ''s1'' = Some r \<and>
     visible_page t_source_sequence t_ts_ns project_trade (view r demo_setup 300) None 10 page"
proof -
  let ?src = "demo_market [demo_trade 300 1, demo_trade 310 2] []"
  obtain r d where d: "market_run ?src d (\<lambda>_. None)" "session_state d ''s1'' = Some r" "rec_principal_id r = ''alice''"
    "rec_setup r = Some demo_setup" "frontier_of r demo_setup = Some 300" "rec_logical_time_ns r = Some 300"
    by (rule demo_market_session)
  have "ordered_trades [demo_trade 300 1, demo_trade 310 2]" by (simp add: ordered.simps demo_trade_def)
  then obtain page cache where read: "trades ?src d ''s1'' ''alice'' 0 None 10 (\<lambda>_. None) = Inr (page, cache)"
    using demo_read [OF d(2-5), of "[demo_trade 300 1, demo_trade 310 2]" "[]"] by auto
  moreover have "cs_play_start_ns demo_setup = 300" by (simp add: committed_setup_def demo_request_def)
  ultimately show ?thesis
    using market_pages_visible [OF d(1), of "''s1''" "''alice''" 0 None 10] d(2-4) by auto
qed

definition demo_earlier :: SetupRequest where
  "demo_earlier = demo_request\<lparr>sr_play_start_ns := 290\<rparr>"

lemma demo_earlier_commit: "\<exists>r d. commit demo_catalog ''s1'' ''alice'' 0 demo_earlier demo_created = Inr (r, d)"
proof -
  have "commit_checks demo_catalog demo_earlier = Inr ()" by code_simp
  moreover have "setup_ok (committed_setup demo_catalog demo_earlier)"
    using demo_setup_valid by (simp add: setup_ok_def committed_setup_def demo_earlier_def demo_request_def range_defs
        eligibility_hash_def sha256_hex_valid)
  moreover have "persist_ruleset demo_earlier = persist_ruleset demo_request"
    by (simp add: fun_eq_iff persist_ruleset_def ruleset_body_def demo_earlier_def)
  then obtain d1 where "persist_ruleset demo_earlier demo_created = Inr d1" using demo_commit_ok(3) by auto
  ultimately show ?thesis
    using commit_progress [OF service_reach_inv [OF demo_reach] demo_state _ _ _ _ demo_commit_ok(2), of _ _ demo_catalog demo_earlier d1]
    by (simp add: demo_record_def U64_MAX_def)
qed

theorem blinded_pages_shift_invariant_witness:
  "\<exists>d d' r r'. session_state d ''s1'' = Some r \<and> session_state d' ''s1'' = Some r' \<and>
     rec_logical_time_ns r = Some 300 \<and> rec_logical_time_ns r' = Some 290 \<and>
     map_option (\<lambda>r. bindR r (\<lambda>(page, _). Inr page))
       (market_read (demo_market [demo_trade 290 1] []) d' (Event_query CH_TRADES ''s1'' ''alice'' 0 None 10) (\<lambda>_. None)) =
     map_option (\<lambda>r. bindR r (\<lambda>(page, _). Inr page))
       (market_read (demo_market [demo_trade 300 1] []) d (Event_query CH_TRADES ''s1'' ''alice'' 0 None 10) (\<lambda>_. None))"
proof -
  let ?src = "demo_market [demo_trade 300 1] []" and ?src' = "demo_market [demo_trade 290 1] []"
  let ?s' = "committed_setup demo_catalog demo_earlier"
  obtain r d where d: "market_run ?src d (\<lambda>_. None)" "session_state d ''s1'' = Some r" "rec_principal_id r = ''alice''"
    "rec_setup r = Some demo_setup" "frontier_of r demo_setup = Some 300" "rec_logical_time_ns r = Some 300"
    by (rule demo_market_session)
  from demo_earlier_commit obtain r' d' where c: "commit demo_catalog ''s1'' ''alice'' 0 demo_earlier demo_created = Inr (r', d')"
    by blast
  have run': "market_run ?src' d' (\<lambda>_. None)" by (rule reach_run [OF service_next [OF demo_reach step_commit [OF c]]])
  have r': "session_state d' ''s1'' = Some r'" "r' = demo_record\<lparr>rec_status := COMMITTED, rec_version := 0 + 1,
      rec_setup := Some ?s', rec_logical_time_ns := Some 290\<rparr>"
    by (rule commit_spec [OF service_reach_inv [OF demo_reach] c];
        use demo_state in \<open>simp add: demo_record_def demo_earlier_def\<close>)+
  have "shifted_session (- 10) r demo_setup r' ?s'"
    using d by (simp add: shifted_session_def r'(2) demo_record_def committed_setup_def demo_earlier_def demo_request_def)
  moreover have "shifted_source (- 10) demo_setup ?s' ?src ?src'"
    by (auto simp: shifted_source_def shifted_query_def demo_market_def window_def demo_trade_def shift_trade_def beyond_def take_Cons'
        split: option.splits)
  moreover have "cs_duration_ns demo_setup = 400" by (simp add: committed_setup_def demo_request_def)
  ultimately show ?thesis
    using blinded_pages_shift_invariant [OF d(1) run' d(2) r'(1), of "- 10" demo_setup ?s' 0 "''alice''" _ CH_TRADES None 10] d(2,3,6) r'
    by (intro exI [of _ d] exI [of _ d'] exI [of _ r] exI [of _ r']) simp
qed

theorem prepared_order_wellformed_witness:
  "\<exists>pc n. prepare_order (current_quote (demo_market [] []) demo_created) ''s1'' ''alice''
      [(''instrument_id'', JStr ''BTC-USDT''), (''side'', JStr ''BUY''), (''quantity_atoms'', JStr ''7''),
       (''order_type'', JStr ''LIMIT''), (''time_in_force'', JStr ''GTC''), (''limit_price_atoms'', JStr ''42'')] = Inr pc \<and>
    jget (pc_payload pc) ''limit_price_atoms'' = JStr (str_int n) \<and> 0 < n"
proof -
  let ?request = "[(''instrument_id'', JStr ''BTC-USDT''), (''side'', JStr ''BUY''), (''quantity_atoms'', JStr ''7''),
       (''order_type'', JStr ''LIMIT''), (''time_in_force'', JStr ''GTC''), (''limit_price_atoms'', JStr ''42'')]"
  have texts: "canonical_u64_text (JStr ''7'') True = Inr ''7''" "canonical_i64_text (JStr ''42'') True = Inr ''42''"
    "\<not> has_control ''BTC-USDT''" by code_simp+
  obtain pc where pc: "prepare_order (current_quote (demo_market [] []) demo_created) ''s1'' ''alice'' ?request = Inr pc"
    "jget (pc_payload pc) ''order_type'' = JStr ''LIMIT''"
    using texts
    by (simp add: prepare_order_def reject_unknown_def order_fields_def require_string_def enum_string_def optional_bool_def
        resolve_prices_def limit_bearing_def stop_bearing_def jget_def jhas_def canonical_payload_hash_def
        command_canonical_json_def)
  from prepared_order_wellformed [OF pc(1)] pc show ?thesis by auto
qed

end
