(* ===== verification/Base64.thy ===== *)
theory Base64
  imports Bytes
begin

text \<open>
  \<^verbatim>\<open>base64.urlsafe_b64encode\<close> and \<^verbatim>\<open>base64.b64decode(s, altchars=b"-_", validate=True)\<close>, the text form of
  sealed secrets. The strict decoder accepts whole quads only, padding only in the last one, and besides the two
  alternative characters also the standard ones, which the translation of \<^verbatim>\<open>altchars\<close> leaves in place.
\<close>

definition b64_char :: "nat \<Rightarrow> char" where
  "b64_char n = char_of (if n < 26 then 65 + n else if n < 52 then 71 + n else if n < 62 then n - 4
     else if n = 62 then 45 else 95)"

definition b64_val :: "char \<Rightarrow> nat option" where
  "b64_val c = (let k = ord c in
     if 65 \<le> k \<and> k \<le> 90 then Some (k - 65) else if 97 \<le> k \<and> k \<le> 122 then Some (k - 71)
     else if 48 \<le> k \<and> k \<le> 57 then Some (k + 4)
     else if k = 45 \<or> k = 43 then Some 62 else if k = 95 \<or> k = 47 then Some 63 else None)"

abbreviation pad_char :: char where
  "pad_char \<equiv> CHR ''=''"

fun urlsafe_b64encode :: "bytes \<Rightarrow> string" where
  "urlsafe_b64encode [] = []"
| "urlsafe_b64encode [a] = [b64_char (unat a div 4), b64_char (unat a mod 4 * 16), pad_char, pad_char]"
| "urlsafe_b64encode [a, b] =
     [b64_char (unat a div 4), b64_char (unat a mod 4 * 16 + unat b div 16), b64_char (unat b mod 16 * 4), pad_char]"
| "urlsafe_b64encode (a # b # c # r) =
     [b64_char (unat a div 4), b64_char (unat a mod 4 * 16 + unat b div 16),
      b64_char (unat b mod 16 * 4 + unat c div 64), b64_char (unat c mod 64)] @ urlsafe_b64encode r"

definition byte1 :: "nat \<Rightarrow> nat \<Rightarrow> byte" where
  "byte1 p q = of_nat (p * 4 + q div 16)"

definition byte2 :: "nat \<Rightarrow> nat \<Rightarrow> byte" where
  "byte2 q u = of_nat (q mod 16 * 16 + u div 4)"

definition byte3 :: "nat \<Rightarrow> nat \<Rightarrow> byte" where
  "byte3 u v = of_nat (u mod 4 * 64 + v)"

fun b64decode :: "string \<Rightarrow> bytes res" where
  "b64decode [] = Inr []"
| "b64decode (w # x # y # z # r) =
     (case (b64_val w, b64_val x) of (Some p, Some q) \<Rightarrow>
        if z = pad_char then
          if r \<noteq> [] then Inl ValueError
          else if y = pad_char then Inr [byte1 p q]
          else (case b64_val y of None \<Rightarrow> Inl ValueError | Some u \<Rightarrow> Inr [byte1 p q, byte2 q u])
        else (case (b64_val y, b64_val z) of
            (Some u, Some v) \<Rightarrow> bindR (b64decode r) (\<lambda>bs. Inr (byte1 p q # byte2 q u # byte3 u v # bs))
          | _ \<Rightarrow> Inl ValueError)
      | _ \<Rightarrow> Inl ValueError)"
| "b64decode _ = Inl ValueError"

lemma ord_b64_char:
  "n < 64 \<Longrightarrow> ord (b64_char n) = (if n < 26 then 65 + n else if n < 52 then 71 + n else if n < 62 then n - 4
     else if n = 62 then 45 else 95)"
  by (simp add: b64_char_def)

lemma b64_val_char [simp]: "n < 64 \<Longrightarrow> b64_val (b64_char n) = Some n"
  by (auto simp: b64_val_def ord_b64_char Let_def)

lemma b64_char_not_pad [simp]: "n < 64 \<Longrightarrow> b64_char n \<noteq> pad_char"
proof
  assume "n < 64" "b64_char n = pad_char"
  then have "ord (b64_char n) = 61" by simp
  with ord_b64_char [OF \<open>n < 64\<close>] show False by (simp split: if_splits)
qed

lemma sextets:
  "unat (a :: byte) div 4 < 64" "unat a mod 4 * 16 + unat (b :: byte) div 16 < 64"
  "unat b mod 16 * 4 + unat (c :: byte) div 64 < 64" "unat a mod 4 * 16 < 64" "unat b mod 16 * 4 < 64" "unat c mod 64 < 64"
  using unat_less_256 [of a] unat_less_256 [of b] unat_less_256 [of c] by linarith+

lemma rebuilt_bytes:
  "byte1 (unat a div 4) (unat a mod 4 * 16 + unat b div 16) = a"
  "byte2 (unat a mod 4 * 16 + unat b div 16) (unat b mod 16 * 4 + unat c div 64) = b"
  "byte3 (unat b mod 16 * 4 + unat c div 64) (unat c mod 64) = c"
  "byte1 (unat a div 4) (unat a mod 4 * 16) = a"
  "byte2 (unat a mod 4 * 16 + unat b div 16) (unat b mod 16 * 4) = b"
proof -
  have small: "unat a div 16 < 16" "unat b div 16 < 16" "unat c div 64 < 4"
    using unat_less_256 [of a] unat_less_256 [of b] unat_less_256 [of c] by linarith+
  have "(unat a div 4) * 4 + (unat a mod 4 * 16 + unat b div 16) div 16 = unat a" using small by simp
  then show "byte1 (unat a div 4) (unat a mod 4 * 16 + unat b div 16) = a" unfolding byte1_def by (metis of_nat_unat ucast_id)
  have "(unat a mod 4 * 16 + unat b div 16) mod 16 * 16 + (unat b mod 16 * 4 + unat c div 64) div 4 = unat b" using small by simp
  then show "byte2 (unat a mod 4 * 16 + unat b div 16) (unat b mod 16 * 4 + unat c div 64) = b"
    unfolding byte2_def by (metis of_nat_unat ucast_id)
  have "(unat b mod 16 * 4 + unat c div 64) mod 4 * 64 + unat c mod 64 = unat c" using small by simp
  then show "byte3 (unat b mod 16 * 4 + unat c div 64) (unat c mod 64) = c" unfolding byte3_def by (metis of_nat_unat ucast_id)
  have "(unat a div 4) * 4 + (unat a mod 4 * 16) div 16 = unat a" by simp
  then show "byte1 (unat a div 4) (unat a mod 4 * 16) = a" unfolding byte1_def by (metis of_nat_unat ucast_id)
  have "(unat a mod 4 * 16 + unat b div 16) mod 16 * 16 + (unat b mod 16 * 4) div 4 = unat b" using small by simp
  then show "byte2 (unat a mod 4 * 16 + unat b div 16) (unat b mod 16 * 4) = b" unfolding byte2_def by (metis of_nat_unat ucast_id)
qed

lemma b64decode_encode [simp]: "b64decode (urlsafe_b64encode bs) = Inr bs"
  by (induction bs rule: urlsafe_b64encode.induct) (simp_all add: sextets rebuilt_bytes)

lemma isascii_b64 [simp]: "isascii (urlsafe_b64encode bs)"
proof -
  have "n < 64 \<Longrightarrow> ord (b64_char n) < 128" for n by (auto simp: ord_b64_char)
  then show ?thesis by (induction bs rule: urlsafe_b64encode.induct) (simp_all add: isascii_def sextets)
qed

end
