(* ===== verification/Commitments.thy ===== *)
theory Commitments
  imports Base64 Sha256 Session_Theorems
begin

text \<open>
  \<^verbatim>\<open>commitments/__init__.py\<close>: the pre-selection commitment of an episode, its draw by rejection sampling, the
  reveal after completion and the offline verification of the completion proof. The AES-GCM cipher is a parameter
  (\<open>aead\<close>), and so are the two values the entropy source returns while a selection is prepared, in the order of the
  calls: the 32-byte secret and the 12-byte nonce.
\<close>

section \<open>Constants and parameters\<close>

definition ALGORITHM_VERSION :: string where
  "ALGORITHM_VERSION = ''trl-episode-v1''"

definition KIND :: string where
  "KIND = ''EPISODE_SELECTION''"

definition MAX_PLAYER_NONCE_BYTES :: nat where
  "MAX_PLAYER_NONCE_BYTES = 256"

text \<open>\<^verbatim>\<open>AESGCM(key)\<close>: nonce, data and associated data.\<close>

record aead =
  aead_encrypt :: "bytes \<Rightarrow> bytes \<Rightarrow> bytes \<Rightarrow> bytes"
  aead_decrypt :: "bytes \<Rightarrow> bytes \<Rightarrow> bytes \<Rightarrow> bytes res"

text \<open>\<^verbatim>\<open>hmac.compare_digest\<close> on texts refuses characters outside ASCII.\<close>

definition compare_digest :: "string \<Rightarrow> string \<Rightarrow> bool res" where
  "compare_digest a b = bindR (require (isascii a \<and> isascii b) TypeError) (\<lambda>_. Inr (a = b))"

section \<open>Validation\<close>

definition commitment_i64 :: "int \<Rightarrow> unit res" where
  "commitment_i64 value = require (\<not> (value < I64_MIN \<or> I64_MAX < value)) ValueError"

definition commitment_sha256 :: "string \<Rightarrow> unit res" where
  "commitment_sha256 value =
     bindR (require (length value = 64) ValueError) (\<lambda>_.
     bindR (catchR (fromhex value) is_ValueError ValueError) (\<lambda>decoded.
     require (hex decoded = value) ValueError))"

definition require_canonical_strings :: "string list \<Rightarrow> unit res" where
  "require_canonical_strings values =
     bindR (require (\<not> list_ex (\<lambda>v. v = []) values) ValueError) (\<lambda>_.
     require (values = sort values \<and> length (remdups values) = length values) ValueError)"

definition validate_player_nonce :: "bytes \<Rightarrow> unit res" where
  "validate_player_nonce value = require (length value \<le> MAX_PLAYER_NONCE_BYTES) ValueError"

section \<open>Records\<close>

record SelectionSetup =
  ss_instrument_id :: string
  ss_ruleset_hash :: string
  ss_execution_tier :: string
  ss_warmup_ns :: int
  ss_duration_ns :: int
  ss_visibility_mode :: string
  ss_required_capabilities :: "string list"
  ss_allowed_redistribution :: "string list"
  ss_allow_degraded :: bool

definition SelectionSetup_post_init :: "SelectionSetup \<Rightarrow> unit res" where
  "SelectionSetup_post_init s =
     bindR (require (\<not> (ss_instrument_id s = [] \<or> ss_execution_tier s = [] \<or> ss_visibility_mode s = [])) ValueError) (\<lambda>_.
     bindR (commitment_sha256 (ss_ruleset_hash s)) (\<lambda>_.
     bindR (commitment_i64 (ss_warmup_ns s)) (\<lambda>_.
     bindR (commitment_i64 (ss_duration_ns s)) (\<lambda>_.
     bindR (require (\<not> (ss_warmup_ns s < 0 \<or> ss_duration_ns s \<le> 0)) ValueError) (\<lambda>_.
     bindR (require_canonical_strings (ss_required_capabilities s)) (\<lambda>_.
     require_canonical_strings (ss_allowed_redistribution s)))))))"

record EligibleEpisode =
  ep_episode_id :: string
  ep_manifest_hash :: string
  ep_play_start_ns :: int
  ep_play_end_ns :: int

definition EligibleEpisode_post_init :: "EligibleEpisode \<Rightarrow> unit res" where
  "EligibleEpisode_post_init e =
     bindR (require (ep_episode_id e \<noteq> []) ValueError) (\<lambda>_.
     bindR (commitment_sha256 (ep_manifest_hash e)) (\<lambda>_.
     bindR (commitment_i64 (ep_play_start_ns e)) (\<lambda>_.
     bindR (commitment_i64 (ep_play_end_ns e)) (\<lambda>_.
     require (\<not> ep_play_end_ns e \<le> ep_play_start_ns e) ValueError))))"

record PublicCommitment =
  pu_commitment_id :: string
  pu_session_id :: string
  pu_algorithm_version :: string
  pu_commitment_hash :: string
  pu_setup_hash :: string
  pu_eligible_set_hash :: string
  pu_revealed_secret_hex :: "string option"

record PreparedSelection =
  ps_public_commitment :: PublicCommitment
  ps_selected_episode :: EligibleEpisode

record CompletionProof =
  cp_algorithm_version :: string
  cp_commitment_hash :: string
  cp_setup_hash :: string
  cp_eligible_set_hash :: string
  cp_secret_hex :: string
  cp_player_nonce_hex :: string
  cp_selected_index :: int
  cp_draw_counter :: int
  cp_selected_episode :: EligibleEpisode

record SelectionResult =
  se_setup_hash :: string
  se_eligible_set_hash :: string
  se_commitment_hash :: string
  se_selected_index :: nat
  se_draw_counter :: nat

section \<open>Canonical bytes\<close>

definition commitment_text :: "string \<Rightarrow> bytes res" where
  "commitment_text value =
     bindR (require (value \<noteq> []) ValueError) (\<lambda>_. Inr (len_prefixed (utf8 value)))"

definition commitment_strings :: "string list \<Rightarrow> bytes res" where
  "commitment_strings values =
     bindR (mapR commitment_text values) (\<lambda>parts. Inr (to_bytes 8 (length values) @ concat parts))"

definition commitment_i64_bytes :: "int \<Rightarrow> bytes res" where
  "commitment_i64_bytes value = bindR (commitment_i64 value) (\<lambda>_. Inr (to_bytes_signed 8 value))"

definition canonical_setup_bytes :: "SelectionSetup \<Rightarrow> bytes res" where
  "canonical_setup_bytes s =
     bindR (commitment_text (ss_instrument_id s)) (\<lambda>instrument.
     bindR (fromhex (ss_ruleset_hash s)) (\<lambda>ruleset.
     bindR (commitment_text (ss_execution_tier s)) (\<lambda>tier.
     bindR (commitment_i64_bytes (ss_warmup_ns s)) (\<lambda>warmup.
     bindR (commitment_i64_bytes (ss_duration_ns s)) (\<lambda>duration.
     bindR (commitment_text (ss_visibility_mode s)) (\<lambda>visibility.
     bindR (commitment_strings (ss_required_capabilities s)) (\<lambda>required.
     bindR (commitment_strings (ss_allowed_redistribution s)) (\<lambda>allowed.
     Inr (ascii ''trl:episode-setup:v1'' @ instrument @ ruleset @ tier @ warmup @ duration @ visibility @
       required @ allowed @ (if ss_allow_degraded s then [1] else [0]))))))))))"

definition episode_bytes :: "EligibleEpisode \<Rightarrow> bytes res" where
  "episode_bytes e =
     bindR (commitment_text (ep_episode_id e)) (\<lambda>identity.
     bindR (fromhex (ep_manifest_hash e)) (\<lambda>manifest.
     bindR (commitment_i64_bytes (ep_play_start_ns e)) (\<lambda>start_ns.
     bindR (commitment_i64_bytes (ep_play_end_ns e)) (\<lambda>end_ns.
     Inr (len_prefixed (identity @ manifest @ start_ns @ end_ns))))))"

definition canonical_eligible_bytes :: "EligibleEpisode list \<Rightarrow> bytes res" where
  "canonical_eligible_bytes episodes =
     bindR (require (episodes \<noteq> []) ValueError) (\<lambda>_.
     let identifiers = map ep_episode_id episodes in
     bindR (require (identifiers = sort identifiers \<and> length (remdups identifiers) = length identifiers) ValueError) (\<lambda>_.
     bindR (mapR episode_bytes episodes) (\<lambda>parts.
     Inr (ascii ''trl:eligible-episodes:v1'' @ to_bytes 8 (length episodes) @ concat parts))))"

definition selection_setup_hash :: "SelectionSetup \<Rightarrow> string res" where
  "selection_setup_hash s = bindR (canonical_setup_bytes s) (\<lambda>bytes. Inr (sha256_hex bytes))"

definition eligible_set_hash :: "EligibleEpisode list \<Rightarrow> string res" where
  "eligible_set_hash episodes = bindR (canonical_eligible_bytes episodes) (\<lambda>bytes. Inr (sha256_hex bytes))"

definition commitment_hash_of :: "bytes \<Rightarrow> string \<Rightarrow> string \<Rightarrow> bytes \<Rightarrow> string res" where
  "commitment_hash_of secret setup_digest eligible_digest player_nonce =
     bindR (fromhex setup_digest) (\<lambda>setup_bytes.
     bindR (fromhex eligible_digest) (\<lambda>eligible_bytes.
     Inr (sha256_hex (ascii ''trl:episode-commitment:v1'' @ secret @ setup_bytes @ eligible_bytes @
       to_bytes 8 (length player_nonce) @ player_nonce))))"

section \<open>The draw\<close>

definition draw_space :: nat where
  "draw_space = 2 ^ 256"

definition draw_limit :: "nat \<Rightarrow> nat" where
  "draw_limit choices = draw_space - draw_space mod choices"

text \<open>What one digest of the sequence gives: an index, or nothing when it is rejected.\<close>

definition draw_accept :: "nat \<Rightarrow> nat \<Rightarrow> nat option" where
  "draw_accept choices candidate = (if candidate < draw_limit choices then Some (candidate mod choices) else None)"

function draw_loop :: "(nat \<Rightarrow> nat) \<Rightarrow> nat \<Rightarrow> nat \<Rightarrow> (nat \<times> nat) res" where
  "draw_loop candidate choices counter =
     (if counter < 2 ^ 64 then
        case draw_accept choices (candidate counter) of
          Some i \<Rightarrow> Inr (i, counter)
        | None \<Rightarrow> draw_loop candidate choices (counter + 1)
      else Inl RuntimeError)"
  by pat_completeness auto
termination by (relation "measure (\<lambda>(_, _, counter). 2 ^ 64 - counter)") auto

declare draw_loop.simps [simp del]

definition draw_index :: "bytes \<Rightarrow> string \<Rightarrow> string \<Rightarrow> bytes \<Rightarrow> nat \<Rightarrow> (nat \<times> nat) res" where
  "draw_index secret setup_digest eligible_digest player_nonce choices =
     bindR (require (\<not> choices \<le> 0) ValueError) (\<lambda>_.
     bindR (fromhex setup_digest) (\<lambda>setup_bytes.
     bindR (fromhex eligible_digest) (\<lambda>eligible_bytes.
     draw_loop (\<lambda>counter. from_bytes (hmac_sha256 secret (ascii ''trl:episode-draw:v1'' @ setup_bytes @ eligible_bytes @
       to_bytes 8 (length player_nonce) @ player_nonce @ to_bytes 8 counter))) choices 0)))"

definition derive_selection :: "SelectionSetup \<Rightarrow> EligibleEpisode list \<Rightarrow> bytes \<Rightarrow> bytes \<Rightarrow> SelectionResult res" where
  "derive_selection s episodes secret player_nonce =
     bindR (require (length secret = 32) ValueError) (\<lambda>_.
     bindR (validate_player_nonce player_nonce) (\<lambda>_.
     bindR (require (episodes \<noteq> []) ValueError) (\<lambda>_.
     bindR (selection_setup_hash s) (\<lambda>setup_digest.
     bindR (eligible_set_hash episodes) (\<lambda>eligible_digest.
     bindR (commitment_hash_of secret setup_digest eligible_digest player_nonce) (\<lambda>commitment_digest.
     bindR (draw_index secret setup_digest eligible_digest player_nonce (length episodes)) (\<lambda>(selected_index, counter).
     Inr \<lparr>se_setup_hash = setup_digest, se_eligible_set_hash = eligible_digest,
          se_commitment_hash = commitment_digest, se_selected_index = selected_index,
          se_draw_counter = counter\<rparr>)))))))"

text \<open>\<^verbatim>\<open>except (ValueError, TypeError)\<close>\<close>

definition is_encoding_error :: "exn \<Rightarrow> bool" where
  "is_encoding_error e \<longleftrightarrow> is_ValueError e \<or> is_TypeError e"

definition verify_completion_proof ::
    "SelectionSetup \<Rightarrow> EligibleEpisode list \<Rightarrow> CompletionProof \<Rightarrow> EligibleEpisode res" where
  "verify_completion_proof s episodes proof =
     bindR (require (cp_algorithm_version proof = ALGORITHM_VERSION) CommitmentVerificationError) (\<lambda>_.
     bindR (catchR (bindR (fromhex (cp_secret_hex proof)) (\<lambda>secret.
        bindR (fromhex (cp_player_nonce_hex proof)) (\<lambda>nonce.
        derive_selection s episodes secret nonce))) is_encoding_error CommitmentVerificationError) (\<lambda>derived.
     bindR (compare_digest (se_setup_hash derived) (cp_setup_hash proof)) (\<lambda>same.
     bindR (require same CommitmentVerificationError) (\<lambda>_.
     bindR (compare_digest (se_eligible_set_hash derived) (cp_eligible_set_hash proof)) (\<lambda>same.
     bindR (require same CommitmentVerificationError) (\<lambda>_.
     bindR (compare_digest (se_commitment_hash derived) (cp_commitment_hash proof)) (\<lambda>same.
     bindR (require same CommitmentVerificationError) (\<lambda>_.
     bindR (require (\<not> (int (se_selected_index derived) \<noteq> cp_selected_index proof \<or>
         int (se_draw_counter derived) \<noteq> cp_draw_counter proof)) CommitmentVerificationError) (\<lambda>_.
     bindR (require (\<not> (cp_selected_index proof < 0 \<or> int (length episodes) \<le> cp_selected_index proof))
       CommitmentVerificationError) (\<lambda>_.
     let selected = episodes ! nat (cp_selected_index proof) in
     bindR (require (selected = cp_selected_episode proof) CommitmentVerificationError) (\<lambda>_.
     Inr selected)))))))))))"

section \<open>The service\<close>

text \<open>The constructor keeps the cipher of the master key, \<^verbatim>\<open>AESGCM(master_key)\<close>.\<close>

definition CommitmentService_init :: "(bytes \<Rightarrow> aead) \<Rightarrow> bytes \<Rightarrow> aead res" where
  "CommitmentService_init AESGCM master_key =
     bindR (require (length master_key = 32) ValueError) (\<lambda>_. Inr (AESGCM master_key))"

definition require_session :: "db \<Rightarrow> string \<Rightarrow> string \<Rightarrow> string option \<Rightarrow> unit res" where
  "require_session d session_id principal_id expected_status =
     (case session_by_id d session_id of
        None \<Rightarrow> Inl CommitmentNotFound
      | Some row \<Rightarrow>
        bindR (require (s_principal_id row = principal_id) CommitmentPrincipalMismatch) (\<lambda>_.
        require (case expected_status of None \<Rightarrow> True | Some st \<Rightarrow> s_status row = st) CommitmentStateError))"

definition commitment_by_session :: "db \<Rightarrow> string \<Rightarrow> commitment_row option" where
  "commitment_by_session d session_id =
     find (\<lambda>r. k_session_id r = session_id \<and> k_kind r = KIND) (db_commitments d)"

definition associated_data :: "string \<Rightarrow> string \<Rightarrow> bytes res" where
  "associated_data session_id commitment_id =
     bindR (commitment_text session_id) (\<lambda>session_text.
     bindR (commitment_text commitment_id) (\<lambda>commitment_text.
     Inr (ascii ''trl:sealed-episode-secret:v1'' @ session_text @ commitment_text)))"

definition seal_secret :: "aead \<Rightarrow> bytes \<Rightarrow> string \<Rightarrow> string \<Rightarrow> bytes \<Rightarrow> string res" where
  "seal_secret cipher nonce session_id commitment_id secret =
     bindR (require (length nonce = 12) RuntimeError) (\<lambda>_.
     bindR (associated_data session_id commitment_id) (\<lambda>ad.
     Inr (urlsafe_b64encode (nonce @ aead_encrypt cipher nonce secret ad))))"

text \<open>\<^verbatim>\<open>except (InvalidTag, ValueError)\<close>\<close>

definition is_decrypt_error :: "exn \<Rightarrow> bool" where
  "is_decrypt_error e \<longleftrightarrow> e = InvalidTag \<or> is_ValueError e"

definition unseal_secret :: "aead \<Rightarrow> string \<Rightarrow> string \<Rightarrow> string \<Rightarrow> bytes res" where
  "unseal_secret cipher session_id commitment_id sealed =
     bindR (catchR (bindR (require (isascii sealed) ValueError) (\<lambda>_. b64decode sealed)) is_ValueError
       CommitmentVerificationError) (\<lambda>payload.
     bindR (require (\<not> length payload < 13) CommitmentVerificationError) (\<lambda>_.
     bindR (catchR (bindR (associated_data session_id commitment_id) (\<lambda>ad.
         aead_decrypt cipher (take 12 payload) (drop 12 payload) ad)) is_decrypt_error
       CommitmentVerificationError) (\<lambda>secret.
     bindR (require (length secret = 32) CommitmentVerificationError) (\<lambda>_.
     Inr secret))))"

definition selection_metadata :: "SelectionResult \<Rightarrow> bytes \<Rightarrow> EligibleEpisode \<Rightarrow> fields" where
  "selection_metadata result player_nonce selected =
     [(''draw_counter'', JStr (str_int (int (se_draw_counter result)))),
      (''player_nonce_hex'', JStr (hex player_nonce)),
      (''selected_episode_id'', JStr (ep_episode_id selected)),
      (''selected_index'', JStr (str_int (int (se_selected_index result)))),
      (''selected_manifest_hash'', JStr (ep_manifest_hash selected)),
      (''selected_play_end_ns'', JStr (str_int (ep_play_end_ns selected))),
      (''selected_play_start_ns'', JStr (str_int (ep_play_start_ns selected)))]"

text \<open>\<open>secret\<close> and \<open>nonce\<close> are what \<^verbatim>\<open>entropy(32)\<close> and \<^verbatim>\<open>entropy(12)\<close> return.\<close>

definition prepare_episode_selection ::
    "aead \<Rightarrow> bytes \<Rightarrow> bytes \<Rightarrow> string \<Rightarrow> string \<Rightarrow> string \<Rightarrow> SelectionSetup \<Rightarrow> EligibleEpisode list \<Rightarrow> bytes \<Rightarrow>
     PreparedSelection tx" where
  "prepare_episode_selection cipher secret nonce commitment_id session_id principal_id s episodes player_nonce d =
     bindR (require (\<not> (commitment_id = [] \<or> session_id = [] \<or> principal_id = [])) ValueError) (\<lambda>_.
     bindR (require (length secret = 32) RuntimeError) (\<lambda>_.
     bindR (derive_selection s episodes secret player_nonce) (\<lambda>result.
     let selected = episodes ! se_selected_index result in
     bindR (seal_secret cipher nonce session_id commitment_id secret) (\<lambda>sealed_secret.
     bindR (catchR
        (bindR (require_session d session_id principal_id (Some ''SETUP'')) (\<lambda>_.
         insert_commitment \<lparr>k_commitment_id = commitment_id, k_session_id = session_id, k_kind = KIND,
           k_algorithm_version = ALGORITHM_VERSION, k_commitment_hash = se_commitment_hash result,
           k_setup_hash = se_setup_hash result, k_eligible_set_hash = se_eligible_set_hash result,
           k_metadata_json = JObj (selection_metadata result player_nonce selected),
           k_sealed_secret = sealed_secret, k_revealed_secret = None\<rparr> d))
        is_IntegrityError CommitmentExists) (\<lambda>d'.
     Inr (\<lparr>ps_public_commitment = \<lparr>pu_commitment_id = commitment_id, pu_session_id = session_id,
            pu_algorithm_version = ALGORITHM_VERSION, pu_commitment_hash = se_commitment_hash result,
            pu_setup_hash = se_setup_hash result, pu_eligible_set_hash = se_eligible_set_hash result,
            pu_revealed_secret_hex = None\<rparr>,
           ps_selected_episode = selected\<rparr>, d'))))))"

definition get_public :: "db \<Rightarrow> string \<Rightarrow> string \<Rightarrow> PublicCommitment res" where
  "get_public d session_id principal_id =
     bindR (require_session d session_id principal_id None) (\<lambda>_.
     case commitment_by_session d session_id of
       None \<Rightarrow> Inl CommitmentNotFound
     | Some row \<Rightarrow>
       Inr \<lparr>pu_commitment_id = k_commitment_id row, pu_session_id = session_id,
            pu_algorithm_version = k_algorithm_version row, pu_commitment_hash = k_commitment_hash row,
            pu_setup_hash = k_setup_hash row, pu_eligible_set_hash = k_eligible_set_hash row,
            pu_revealed_secret_hex = k_revealed_secret row\<rparr>)"

definition metadata_fields :: "json \<Rightarrow> fields res" where
  "metadata_fields value = (case value of JObj fs \<Rightarrow> Inr fs | _ \<Rightarrow> Inl CommitmentVerificationError)"

definition metadata_string :: "fields \<Rightarrow> string \<Rightarrow> string res" where
  "metadata_string value key =
     (case jget value key of JStr item \<Rightarrow> Inr item | _ \<Rightarrow> Inl CommitmentVerificationError)"

definition metadata_int :: "fields \<Rightarrow> string \<Rightarrow> int res" where
  "metadata_int value key =
     bindR (metadata_string value key) (\<lambda>item.
     bindR (require (\<not> (item = [] \<or> hd item = CHR ''-'' \<and> \<not> isdigit (tl item) \<or>
         hd item \<noteq> CHR ''-'' \<and> \<not> isdigit item)) CommitmentVerificationError) (\<lambda>_.
     bindR (py_int item) (\<lambda>parsed.
     bindR (commitment_i64 parsed) (\<lambda>_. Inr parsed))))"

definition metadata_u64 :: "fields \<Rightarrow> string \<Rightarrow> int res" where
  "metadata_u64 value key =
     bindR (metadata_string value key) (\<lambda>item.
     bindR (require (\<not> (item = [] \<or> \<not> isdigit item)) CommitmentVerificationError) (\<lambda>_.
     bindR (py_int item) (\<lambda>parsed.
     bindR (require (\<not> U64_MAX < parsed) CommitmentVerificationError) (\<lambda>_. Inr parsed))))"

definition reveal_update :: "commitment_row \<Rightarrow> string \<Rightarrow> db \<Rightarrow> db" where
  "reveal_update row secret_hex d =
     (if k_revealed_secret row = None
      then d\<lparr>db_commitments := map (\<lambda>r. if k_commitment_id r = k_commitment_id row
             then r\<lparr>k_revealed_secret := Some secret_hex\<rparr> else r) (db_commitments d)\<rparr>
      else d)"

definition selected_of :: "fields \<Rightarrow> EligibleEpisode res" where
  "selected_of metadata =
     bindR (metadata_string metadata ''selected_episode_id'') (\<lambda>episode_id.
     bindR (metadata_string metadata ''selected_manifest_hash'') (\<lambda>manifest_hash.
     bindR (metadata_int metadata ''selected_play_start_ns'') (\<lambda>play_start_ns.
     bindR (metadata_int metadata ''selected_play_end_ns'') (\<lambda>play_end_ns.
     let e = \<lparr>ep_episode_id = episode_id, ep_manifest_hash = manifest_hash,
              ep_play_start_ns = play_start_ns, ep_play_end_ns = play_end_ns\<rparr> in
     bindR (EligibleEpisode_post_init e) (\<lambda>_. Inr e)))))"

definition reveal_row :: "aead \<Rightarrow> string \<Rightarrow> commitment_row \<Rightarrow> CompletionProof res" where
  "reveal_row cipher session_id row =
     bindR (require (k_algorithm_version row = ALGORITHM_VERSION) CommitmentVerificationError) (\<lambda>_.
     bindR (unseal_secret cipher session_id (k_commitment_id row) (k_sealed_secret row)) (\<lambda>secret.
     let secret_hex = hex secret in
     bindR (case k_revealed_secret row of None \<Rightarrow> Inr ()
        | Some stored \<Rightarrow> bindR (compare_digest stored secret_hex) (\<lambda>same.
            require same CommitmentVerificationError)) (\<lambda>_.
     bindR (metadata_fields (k_metadata_json row)) (\<lambda>metadata.
     bindR (metadata_string metadata ''player_nonce_hex'') (\<lambda>player_nonce_hex.
     bindR (catchR (fromhex player_nonce_hex) is_ValueError CommitmentVerificationError) (\<lambda>player_nonce.
     bindR (commitment_hash_of secret (k_setup_hash row) (k_eligible_set_hash row) player_nonce) (\<lambda>recomputed.
     bindR (compare_digest (k_commitment_hash row) recomputed) (\<lambda>same.
     bindR (require same CommitmentVerificationError) (\<lambda>_.
     bindR (selected_of metadata) (\<lambda>selected_episode.
     bindR (metadata_u64 metadata ''selected_index'') (\<lambda>selected_index.
     bindR (metadata_u64 metadata ''draw_counter'') (\<lambda>draw_counter.
     Inr \<lparr>cp_algorithm_version = k_algorithm_version row, cp_commitment_hash = k_commitment_hash row,
          cp_setup_hash = k_setup_hash row, cp_eligible_set_hash = k_eligible_set_hash row,
          cp_secret_hex = secret_hex, cp_player_nonce_hex = player_nonce_hex,
          cp_selected_index = selected_index, cp_draw_counter = draw_counter,
          cp_selected_episode = selected_episode\<rparr>))))))))))))"

text \<open>The update and the answer are one transaction: a failure of either leaves the table as it was.\<close>

definition reveal_completed :: "aead \<Rightarrow> string \<Rightarrow> string \<Rightarrow> CompletionProof tx" where
  "reveal_completed cipher session_id principal_id d =
     bindR (require_session d session_id principal_id (Some ''COMPLETED'')) (\<lambda>_.
     case commitment_by_session d session_id of
       None \<Rightarrow> Inl CommitmentNotFound
     | Some row \<Rightarrow>
       bindR (reveal_row cipher session_id row) (\<lambda>p.
       Inr (p, reveal_update row (cp_secret_hex p) d)))"

end
