(* ===== verification/Results.thy ===== *)
theory Results
  imports Commitments Commands
begin

text \<open>
  \<^verbatim>\<open>results/model.py\<close>, \<^verbatim>\<open>results/store.py\<close>, \<^verbatim>\<open>results/service.py\<close> and \<^verbatim>\<open>results/router.py\<close>: the
  evidence of a completed replay, its consistency checks against the persisted facts, the domain-separated commitments of
  the offline proof, and the write-once result store. Rows read from the store are dictionaries, as in the sources.
\<close>

section \<open>Model\<close>

abbreviation result_error :: "result_code \<Rightarrow> exn" where
  "result_error \<equiv> ResultServiceError"

abbreviation invalid_evidence :: exn where
  "invalid_evidence \<equiv> ResultServiceError XE_INVALID_EVIDENCE"

abbreviation persisted_conflict :: exn where
  "persisted_conflict \<equiv> ResultServiceError XE_PERSISTED_CONFLICT"

definition result_identity :: "string \<Rightarrow> unit res" where
  "result_identity value = require (\<not> (value = [] \<or> 200 < length value \<or> has_control value)) ValueError"

definition result_i64 :: "int \<Rightarrow> unit res" where
  "result_i64 value = require (\<not> (value < I64_MIN \<or> I64_MAX < value)) ValueError"

definition result_u64 :: "int \<Rightarrow> unit res" where
  "result_u64 value = require (\<not> (value < 0 \<or> U64_MAX < value)) ValueError"

definition result_sha256 :: "string \<Rightarrow> unit res" where
  "result_sha256 value = require (\<not> (length value \<noteq> 64 \<or> \<not> list_all hex_char value)) ValueError"

definition result_hex :: "string \<Rightarrow> nat option \<Rightarrow> unit res" where
  "result_hex value exact_bytes =
     bindR (require (\<not> (length value mod 2 \<noteq> 0 \<or> \<not> list_all hex_char value)) ValueError) (\<lambda>_.
     require (\<not> (case exact_bytes of None \<Rightarrow> False | Some n \<Rightarrow> length value \<noteq> n * 2)) ValueError)"

record CommandReplayMetadata =
  cm_command_id :: string
  cm_logical_ts_ns :: int
  cm_arrival_seq :: int

definition CommandReplayMetadata_post_init :: "CommandReplayMetadata \<Rightarrow> unit res" where
  "CommandReplayMetadata_post_init m =
     bindR (result_identity (cm_command_id m)) (\<lambda>_.
     bindR (result_i64 (cm_logical_ts_ns m)) (\<lambda>_.
     result_u64 (cm_arrival_seq m)))"

record CanonicalInput =
  ci_session_id :: string
  ci_input_seq :: int
  ci_expected_state_version :: int
  ci_logical_ts_ns :: int
  ci_kind :: string
  ci_payload_hex :: string

definition CanonicalInput_post_init :: "CanonicalInput \<Rightarrow> unit res" where
  "CanonicalInput_post_init x =
     bindR (result_identity (ci_session_id x)) (\<lambda>_.
     bindR (result_identity (ci_kind x)) (\<lambda>_.
     bindR (result_u64 (ci_input_seq x)) (\<lambda>_.
     bindR (result_u64 (ci_expected_state_version x)) (\<lambda>_.
     bindR (result_i64 (ci_logical_ts_ns x)) (\<lambda>_.
     result_hex (ci_payload_hex x) None)))))"

record StateHashEvidence =
  sh_event_seq :: int
  sh_hash :: string

definition StateHashEvidence_post_init :: "StateHashEvidence \<Rightarrow> unit res" where
  "StateHashEvidence_post_init x = bindR (result_u64 (sh_event_seq x)) (\<lambda>_. result_sha256 (sh_hash x))"

record LedgerPostingEvidence =
  lp_account :: string
  lp_amount_minor :: int
  lp_currency :: string

definition LedgerPostingEvidence_post_init :: "LedgerPostingEvidence \<Rightarrow> unit res" where
  "LedgerPostingEvidence_post_init x =
     bindR (result_identity (lp_account x)) (\<lambda>_.
     bindR (result_identity (lp_currency x)) (\<lambda>_.
     result_i64 (lp_amount_minor x)))"

record LedgerTransactionEvidence =
  lt_event_seq :: int
  lt_transaction_id :: string
  lt_postings :: "LedgerPostingEvidence list"

definition LedgerTransactionEvidence_post_init :: "LedgerTransactionEvidence \<Rightarrow> unit res" where
  "LedgerTransactionEvidence_post_init x =
     bindR (result_u64 (lt_event_seq x)) (\<lambda>_.
     bindR (result_identity (lt_transaction_id x)) (\<lambda>_.
     require (\<not> length (lt_postings x) < 2) ValueError))"

record ResultMetrics =
  rm_survived :: bool
  rm_terminal_return_ppb :: int
  rm_max_drawdown_ppb :: int
  rm_peak_effective_leverage_ppb :: int
  rm_benchmark_return_ppb :: int

definition ResultMetrics_post_init :: "ResultMetrics \<Rightarrow> unit res" where
  "ResultMetrics_post_init m =
     bindR (result_i64 (rm_terminal_return_ppb m)) (\<lambda>_.
     bindR (result_i64 (rm_max_drawdown_ppb m)) (\<lambda>_.
     bindR (result_i64 (rm_peak_effective_leverage_ppb m)) (\<lambda>_.
     result_i64 (rm_benchmark_return_ppb m))))"

record ResultEvidence =
  re_command_metadata :: "CommandReplayMetadata list"
  re_inputs :: "CanonicalInput list"
  re_state_hashes :: "StateHashEvidence list"
  re_ledger_transactions :: "LedgerTransactionEvidence list"
  re_metrics :: ResultMetrics
  re_eligible_episodes :: "EligibleEpisode list"

record FrozenResult =
  fr_session_id :: string
  fr_result_hash :: string
  fr_bundle_hash :: string
  fr_proof_hash :: string
  fr_export_hash :: string
  fr_created_at_ns :: int
  fr_bundle :: fields
  fr_proof :: fields
  fr_export :: fields
  fr_replayed :: bool

text \<open>\<open>_validate_json\<close>: the values of the model are JSON values with string keys, so only floats are left to refuse.\<close>

definition result_canonical_json :: "json \<Rightarrow> string res" where
  "result_canonical_json value = bindR (require (no_float value) invalid_evidence) (\<lambda>_. Inr (dumps value))"

definition canonical_hash :: "json \<Rightarrow> string res" where
  "canonical_hash value = bindR (result_canonical_json value) (\<lambda>text. Inr (sha256_hex (utf8 text)))"

definition result_mapping :: "json \<Rightarrow> fields res" where
  "result_mapping value = (case value of JObj fs \<Rightarrow> Inr fs | _ \<Rightarrow> Inl persisted_conflict)"

section \<open>Store\<close>

record AuthoritativeResultData =
  ad_ruleset :: fields
  ad_commands :: "fields list"
  ad_domain_events :: "fields list"
  ad_commitments :: "fields list"

definition result_principal :: "db \<Rightarrow> string \<Rightarrow> string \<Rightarrow> unit res" where
  "result_principal d session_id principal_id =
     require (case session_by_id d session_id of None \<Rightarrow> False | Some row \<Rightarrow> s_principal_id row = principal_id)
       (result_error XE_SESSION_UNAVAILABLE)"

definition ruleset_fields :: "ruleset_row \<Rightarrow> fields res" where
  "ruleset_fields row =
     bindR (result_mapping (r_body_json row)) (\<lambda>body.
     Inr [(''ruleset_id'', JStr (r_ruleset_id row)), (''ruleset_version'', JStr (r_ruleset_version row)),
          (''ruleset_hash'', JStr (r_ruleset_hash row)), (''body'', JObj body)])"

definition command_fields :: "command_row \<Rightarrow> fields res" where
  "command_fields row =
     bindR (result_mapping (c_payload_json row)) (\<lambda>payload.
     Inr [(''command_id'', JStr (c_command_id row)), (''idempotency_key'', JStr (c_idempotency_key row)),
          (''payload_hash'', JStr (c_payload_hash row)),
          (''expected_session_version'', JInt (c_expected_session_version row)),
          (''accepted_at_ns'', JInt (c_accepted_at_ns row)), (''payload'', JObj payload)])"

definition event_fields :: "event_row \<Rightarrow> fields res" where
  "event_fields row =
     bindR (result_mapping (e_payload_json row)) (\<lambda>payload.
     Inr [(''event_seq'', JInt (e_event_seq row)), (''logical_ts_ns'', JInt (e_logical_ts_ns row)),
          (''event_type'', JStr (e_event_type row)), (''causation_id'', JStr (e_causation_id row)),
          (''correlation_id'', JStr (e_correlation_id row)), (''payload'', JObj payload),
          (''prior_event_hash'', JStr (e_prior_event_hash row)),
          (''current_event_hash'', JStr (e_current_event_hash row))])"

definition commitment_fields :: "commitment_row \<Rightarrow> fields res" where
  "commitment_fields row =
     bindR (result_mapping (k_metadata_json row)) (\<lambda>metadata.
     Inr [(''commitment_id'', JStr (k_commitment_id row)), (''kind'', JStr (k_kind row)),
          (''algorithm_version'', JStr (k_algorithm_version row)),
          (''commitment_hash'', JStr (k_commitment_hash row)), (''setup_hash'', JStr (k_setup_hash row)),
          (''eligible_set_hash'', JStr (k_eligible_set_hash row)), (''metadata'', JObj metadata),
          (''revealed_secret'', (case k_revealed_secret row of None \<Rightarrow> JNull | Some s \<Rightarrow> JStr s))])"

definition authoritative :: "db \<Rightarrow> string \<Rightarrow> string \<Rightarrow> string \<Rightarrow> AuthoritativeResultData res" where
  "authoritative d session_id principal_id ruleset_id =
     bindR (result_principal d session_id principal_id) (\<lambda>_.
     case ruleset_by_id d ruleset_id of None \<Rightarrow> Inl persisted_conflict
     | Some row \<Rightarrow>
       bindR (ruleset_fields row) (\<lambda>ruleset.
       bindR (mapR command_fields (sort_key (\<lambda>r. (c_expected_session_version r, c_command_id r))
         (filter (\<lambda>r. c_session_id r = session_id) (db_commands d)))) (\<lambda>commands.
       bindR (mapR event_fields (session_events d session_id)) (\<lambda>domain_events.
       bindR (mapR commitment_fields (sort_key (\<lambda>r. (k_kind r, k_commitment_id r))
         (filter (\<lambda>r. k_session_id r = session_id) (db_commitments d)))) (\<lambda>commitments.
       Inr \<lparr>ad_ruleset = ruleset, ad_commands = commands, ad_domain_events = domain_events,
            ad_commitments = commitments\<rparr>)))))"

text \<open>\<^verbatim>\<open>str(value)\<close> of a scalar. The text of a list, an object or a float is never a stored hash and counts as none.\<close>

fun json_text :: "json \<Rightarrow> string option" where
  "json_text (JStr s) = Some s"
| "json_text JNull = Some ''None''"
| "json_text (JBool b) = Some (if b then ''True'' else ''False'')"
| "json_text (JInt n) = Some (str_int n)"
| "json_text _ = None"

definition result_materialize :: "result_row \<Rightarrow> bool \<Rightarrow> FrozenResult res" where
  "result_materialize row replayed =
     bindR (result_mapping (x_bundle_json row)) (\<lambda>bundle.
     bindR (result_mapping (x_proof_json row)) (\<lambda>proof.
     bindR (result_mapping (x_export_json row)) (\<lambda>export.
     bindR (canonical_hash (JObj bundle)) (\<lambda>bundle_hash.
     bindR (require (bundle_hash = x_bundle_hash row) persisted_conflict) (\<lambda>_.
     bindR (canonical_hash (JObj proof)) (\<lambda>proof_hash.
     bindR (require (proof_hash = x_proof_hash row) persisted_conflict) (\<lambda>_.
     bindR (canonical_hash (JObj export)) (\<lambda>export_hash.
     bindR (require (export_hash = x_export_hash row) persisted_conflict) (\<lambda>_.
     bindR (require (json_text (jget bundle ''result_hash'') = Some (x_result_hash row)) persisted_conflict) (\<lambda>_.
     Inr \<lparr>fr_session_id = x_session_id row, fr_result_hash = x_result_hash row,
          fr_bundle_hash = x_bundle_hash row, fr_proof_hash = x_proof_hash row, fr_export_hash = x_export_hash row,
          fr_created_at_ns = x_created_at_ns row, fr_bundle = bundle, fr_proof = proof, fr_export = export,
          fr_replayed = replayed\<rparr>))))))))))"

definition result_by_session :: "db \<Rightarrow> string \<Rightarrow> result_row option" where
  "result_by_session d session_id = find (\<lambda>r. x_session_id r = session_id) (db_results d)"

definition freeze :: "string \<Rightarrow> FrozenResult \<Rightarrow> FrozenResult tx" where
  "freeze principal_id result d =
     catchR (bindR (result_principal d (fr_session_id result) principal_id) (\<lambda>_.
       case result_by_session d (fr_session_id result) of
         Some existing \<Rightarrow>
           bindR (result_materialize existing True) (\<lambda>materialized.
           bindR (require (fr_export_hash materialized = fr_export_hash result) (result_error XE_RESULT_CONFLICT)) (\<lambda>_.
           Inr (materialized, d)))
       | None \<Rightarrow>
           bindR (insert_result \<lparr>x_session_id = fr_session_id result, x_result_hash = fr_result_hash result,
             x_bundle_hash = fr_bundle_hash result, x_proof_hash = fr_proof_hash result,
             x_export_hash = fr_export_hash result, x_created_at_ns = fr_created_at_ns result,
             x_bundle_json = JObj (fr_bundle result), x_proof_json = JObj (fr_proof result),
             x_export_json = JObj (fr_export result)\<rparr> d) (\<lambda>d'.
           Inr (result, d'))))
       is_IntegrityError (result_error XE_DATABASE_CONFLICT)"

definition get_result :: "db \<Rightarrow> string \<Rightarrow> string \<Rightarrow> FrozenResult res" where
  "get_result d session_id principal_id =
     bindR (result_principal d session_id principal_id) (\<lambda>_.
     case result_by_session d session_id of
       None \<Rightarrow> Inl (result_error XE_RESULT_NOT_FOUND)
     | Some row \<Rightarrow> result_materialize row False)"

section \<open>Service: readers and canonical bytes\<close>

definition SCHEMA_VERSION :: string where "SCHEMA_VERSION = ''1.0.0''"

definition VERIFICATION_VERSION :: string where "VERIFICATION_VERSION = ''1''"

definition EXPORT_VERSION :: string where "EXPORT_VERSION = ''1''"

definition validated_sha :: "string \<Rightarrow> string res" where
  "validated_sha value =
     bindR (require (\<not> (length value \<noteq> 64 \<or> \<not> list_all hex_char value)) invalid_evidence) (\<lambda>_. Inr value)"

fun is_ResultServiceError :: "exn \<Rightarrow> bool" where
  "is_ResultServiceError (ResultServiceError _) = True"
| "is_ResultServiceError _ = False"

definition result_string_field :: "fields \<Rightarrow> string \<Rightarrow> string res" where
  "result_string_field fs name =
     (case jget fs name of JStr value \<Rightarrow> bindR (require (value \<noteq> []) persisted_conflict) (\<lambda>_. Inr value)
      | _ \<Rightarrow> Inl persisted_conflict)"

definition result_int_field :: "fields \<Rightarrow> string \<Rightarrow> int res" where
  "result_int_field fs name = (case jget fs name of JInt value \<Rightarrow> Inr value | _ \<Rightarrow> Inl persisted_conflict)"

definition result_sha_field :: "fields \<Rightarrow> string \<Rightarrow> string res" where
  "result_sha_field fs name =
     bindR (result_string_field fs name) (\<lambda>value.
     catchR (validated_sha value) is_ResultServiceError persisted_conflict)"

definition result_object_field :: "fields \<Rightarrow> string \<Rightarrow> fields res" where
  "result_object_field fs name = (case jget fs name of JObj payload \<Rightarrow> Inr payload | _ \<Rightarrow> Inl persisted_conflict)"

definition result_metadata_string :: "fields \<Rightarrow> string \<Rightarrow> string res" where
  "result_metadata_string fs name = (case jget fs name of JStr value \<Rightarrow> Inr value | _ \<Rightarrow> Inl persisted_conflict)"

definition result_metadata_sha :: "fields \<Rightarrow> string \<Rightarrow> string res" where
  "result_metadata_sha fs name =
     bindR (result_metadata_string fs name) (\<lambda>value.
     catchR (validated_sha value) is_ResultServiceError persisted_conflict)"

definition result_metadata_int :: "fields \<Rightarrow> string \<Rightarrow> int res" where
  "result_metadata_int fs name =
     bindR (result_metadata_string fs name) (\<lambda>value.
     bindR (require (\<not> (value = [] \<or> startswith value ''+'' \<or> startswith value ''0'' \<and> value \<noteq> ''0''))
       persisted_conflict) (\<lambda>_.
     bindR (require (\<not> (\<not> isascii value \<or> \<not> isdigit value)) persisted_conflict) (\<lambda>_.
     bindR (py_int value) (\<lambda>parsed.
     bindR (require (\<not> U64_MAX < parsed) persisted_conflict) (\<lambda>_. Inr parsed)))))"

definition evidence_u64 :: "int \<Rightarrow> bytes res" where
  "evidence_u64 value =
     bindR (require (\<not> (value < 0 \<or> U64_MAX < value)) invalid_evidence) (\<lambda>_. Inr (to_bytes 8 (nat value)))"

definition evidence_i64 :: "int \<Rightarrow> unit res" where
  "evidence_i64 value = require (\<not> (value < I64_MIN \<or> I64_MAX < value)) invalid_evidence"

definition evidence_i64_bytes :: "int \<Rightarrow> bytes res" where
  "evidence_i64_bytes value = bindR (evidence_i64 value) (\<lambda>_. Inr (to_bytes_signed 8 value))"

definition evidence_bytes :: "bytes \<Rightarrow> bytes res" where
  "evidence_bytes value = bindR (evidence_u64 (int (length value))) (\<lambda>n. Inr (n @ value))"

definition evidence_text :: "string \<Rightarrow> bytes res" where
  "evidence_text value = evidence_bytes (utf8 value)"

section \<open>Service: persisted facts\<close>

text \<open>The metadata by command, refused when a command or an arrival number occurs twice.\<close>

fun command_index :: "CommandReplayMetadata list \<Rightarrow> (string \<times> CommandReplayMetadata) list \<Rightarrow> int list \<Rightarrow>
    (string \<times> CommandReplayMetadata) list res" where
  "command_index [] by_id arrival_sequences = Inr by_id"
| "command_index (item # metadata) by_id arrival_sequences =
     bindR (require (\<not> (cm_command_id item \<in> fst ` set by_id \<or> cm_arrival_seq item \<in> set arrival_sequences))
       invalid_evidence) (\<lambda>_.
     command_index metadata (by_id @ [(cm_command_id item, item)]) (arrival_sequences @ [cm_arrival_seq item]))"

definition project_command :: "string \<Rightarrow> string \<Rightarrow> (string \<times> CommandReplayMetadata) list \<Rightarrow> fields \<Rightarrow> (int \<times> fields) res" where
  "project_command session_id principal_id by_id row =
     bindR (result_string_field row ''command_id'') (\<lambda>command_id.
     case map_of by_id command_id of None \<Rightarrow> Inl KeyError
     | Some item \<Rightarrow>
       bindR (result_object_field row ''payload'') (\<lambda>payload.
       bindR (result_string_field row ''idempotency_key'') (\<lambda>idempotency_key.
       bindR (result_int_field row ''accepted_at_ns'') (\<lambda>accepted_at_ns.
       bindR (result_int_field row ''expected_session_version'') (\<lambda>expected_session_version.
       bindR (result_sha_field row ''payload_hash'') (\<lambda>payload_hash.
       Inr (cm_arrival_seq item,
         [(''schema_version'', JStr SCHEMA_VERSION), (''command_id'', JStr command_id),
          (''idempotency_key'', JStr idempotency_key), (''session_id'', JStr session_id),
          (''principal_id'', JStr principal_id), (''accepted_at_ns'', JStr (str_int accepted_at_ns)),
          (''logical_ts_ns'', JStr (str_int (cm_logical_ts_ns item))),
          (''arrival_seq'', JStr (str_int (cm_arrival_seq item))),
          (''expected_session_version'', JStr (str_int expected_session_version)),
          (''payload'', JObj payload), (''payload_hash'', JStr payload_hash)])))))))"

definition export_commands ::
    "string \<Rightarrow> string \<Rightarrow> fields list \<Rightarrow> CommandReplayMetadata list \<Rightarrow> fields list res" where
  "export_commands session_id principal_id rows metadata =
     bindR (command_index metadata [] []) (\<lambda>by_id.
     bindR (mapR (\<lambda>row. result_string_field row ''command_id'') rows) (\<lambda>row_ids.
     bindR (require (set row_ids = fst ` set by_id) invalid_evidence) (\<lambda>_.
     bindR (mapR (project_command session_id principal_id by_id) rows) (\<lambda>projected.
     Inr (map snd (sort_key fst projected))))))"

fun export_events :: "string \<Rightarrow> int option \<Rightarrow> string option \<Rightarrow> fields list \<Rightarrow> fields list res" where
  "export_events session_id prior_seq prior_hash [] = Inr []"
| "export_events session_id prior_seq prior_hash (row # rows) =
     bindR (result_int_field row ''event_seq'') (\<lambda>event_seq.
     bindR (result_sha_field row ''current_event_hash'') (\<lambda>current_hash.
     bindR (result_sha_field row ''prior_event_hash'') (\<lambda>declared_prior.
     bindR (require (\<not> (case prior_seq of None \<Rightarrow> False | Some s \<Rightarrow> event_seq \<le> s)) persisted_conflict) (\<lambda>_.
     bindR (require (\<not> (case prior_hash of None \<Rightarrow> False | Some h \<Rightarrow> declared_prior \<noteq> h)) persisted_conflict) (\<lambda>_.
     bindR (result_object_field row ''payload'') (\<lambda>payload.
     bindR (result_int_field row ''logical_ts_ns'') (\<lambda>logical_ts_ns.
     bindR (result_string_field row ''event_type'') (\<lambda>event_type.
     bindR (result_string_field row ''causation_id'') (\<lambda>causation_id.
     bindR (result_string_field row ''correlation_id'') (\<lambda>correlation_id.
     bindR (export_events session_id (Some event_seq) (Some current_hash) rows) (\<lambda>output.
     Inr ([(''schema_version'', JStr SCHEMA_VERSION), (''session_id'', JStr session_id),
           (''event_seq'', JStr (str_int event_seq)), (''logical_ts_ns'', JStr (str_int logical_ts_ns)),
           (''event_type'', JStr event_type), (''causation_id'', JStr causation_id),
           (''correlation_id'', JStr correlation_id), (''payload'', JObj payload),
           (''prior_event_hash'', JStr declared_prior), (''current_event_hash'', JStr current_hash)] # output))))))))))))"

definition selection_setup :: "CommittedSetup \<Rightarrow> SelectionSetup res" where
  "selection_setup s =
     (let x = \<lparr>ss_instrument_id = cs_instrument_id s, ss_ruleset_hash = cs_ruleset_hash s,
          ss_execution_tier = ExecutionTier_value (cs_execution_tier s), ss_warmup_ns = cs_warmup_ns s,
          ss_duration_ns = cs_duration_ns s, ss_visibility_mode = VisibilityMode_value (cs_visibility_mode s),
          ss_required_capabilities = sorted_values DataCapability_value (cs_required_capabilities s),
          ss_allowed_redistribution = sorted_values RedistributionClass_value (cs_allowed_redistribution s),
          ss_allow_degraded = cs_allow_degraded s\<rparr>
      in bindR (SelectionSetup_post_init x) (\<lambda>_. Inr x))"

text \<open>\<^verbatim>\<open>except (ValueError, RuntimeError)\<close> around the verification; commitment errors are runtime errors.\<close>

definition is_proof_error :: "exn \<Rightarrow> bool" where
  "is_proof_error e \<longleftrightarrow> is_ValueError e \<or> e = RuntimeError \<or> e = CommitmentVerificationError"

definition stored_proof :: "fields \<Rightarrow> string \<Rightarrow> (string \<times> CompletionProof) res" where
  "stored_proof row commitment_hash =
     bindR (result_string_field row ''algorithm_version'') (\<lambda>algorithm_version.
     bindR (require (algorithm_version = ALGORITHM_VERSION) persisted_conflict) (\<lambda>_.
     bindR (case jget row ''revealed_secret'' of JStr s \<Rightarrow> bindR (require (length s = 64) invalid_evidence) (\<lambda>_. Inr s)
        | _ \<Rightarrow> Inl invalid_evidence) (\<lambda>revealed_secret.
     bindR (result_object_field row ''metadata'') (\<lambda>metadata.
     bindR (result_metadata_string metadata ''player_nonce_hex'') (\<lambda>nonce.
     bindR (result_sha_field row ''setup_hash'') (\<lambda>setup_hash.
     bindR (result_sha_field row ''eligible_set_hash'') (\<lambda>eligible_set_hash.
     bindR (result_metadata_int metadata ''selected_index'') (\<lambda>selected_index.
     bindR (result_metadata_int metadata ''draw_counter'') (\<lambda>draw_counter.
     bindR (result_metadata_string metadata ''selected_episode_id'') (\<lambda>episode_id.
     bindR (result_metadata_sha metadata ''selected_manifest_hash'') (\<lambda>manifest_hash.
     bindR (result_metadata_int metadata ''selected_play_start_ns'') (\<lambda>play_start_ns.
     bindR (result_metadata_int metadata ''selected_play_end_ns'') (\<lambda>play_end_ns.
     let episode = \<lparr>ep_episode_id = episode_id, ep_manifest_hash = manifest_hash,
           ep_play_start_ns = play_start_ns, ep_play_end_ns = play_end_ns\<rparr> in
     bindR (EligibleEpisode_post_init episode) (\<lambda>_.
     Inr (nonce, \<lparr>cp_algorithm_version = ALGORITHM_VERSION, cp_commitment_hash = commitment_hash,
       cp_setup_hash = setup_hash, cp_eligible_set_hash = eligible_set_hash, cp_secret_hex = revealed_secret,
       cp_player_nonce_hex = nonce, cp_selected_index = selected_index, cp_draw_counter = draw_counter,
       cp_selected_episode = episode\<rparr>)))))))))))))))"

fun commitment_exports ::
    "fields list \<Rightarrow> CommittedSetup \<Rightarrow> EligibleEpisode list \<Rightarrow> (string list \<times> string list) res" where
  "commitment_exports [] s eligible_episodes = Inr ([], [])"
| "commitment_exports (row # rows) s eligible_episodes =
     bindR (result_sha_field row ''commitment_hash'') (\<lambda>commitment_hash.
     bindR (result_string_field row ''kind'') (\<lambda>kind.
     bindR (if kind \<noteq> ''EPISODE_SELECTION'' then Inr []
        else bindR (stored_proof row commitment_hash) (\<lambda>(nonce, pf).
          bindR (require (eligible_episodes \<noteq> []) invalid_evidence) (\<lambda>_.
          bindR (catchR (bindR (selection_setup s) (\<lambda>x. verify_completion_proof x eligible_episodes pf))
            is_proof_error invalid_evidence) (\<lambda>_. Inr [nonce])))) (\<lambda>nonce.
     bindR (commitment_exports rows s eligible_episodes) (\<lambda>(hashes, nonces).
     Inr (commitment_hash # hashes, nonce @ nonces)))))"

section \<open>Service: the offline proof\<close>

definition input_json :: "CanonicalInput \<Rightarrow> json" where
  "input_json x = JObj [(''session_id'', JStr (ci_session_id x)), (''input_seq'', JStr (str_int (ci_input_seq x))),
     (''expected_state_version'', JStr (str_int (ci_expected_state_version x))),
     (''logical_ts_ns'', JStr (str_int (ci_logical_ts_ns x))), (''kind'', JStr (ci_kind x)),
     (''payload_hex'', JStr (ci_payload_hex x))]"

definition state_hash_json :: "StateHashEvidence list \<Rightarrow> json" where
  "state_hash_json states = JList (map (\<lambda>x. JObj [(''event_seq'', JStr (str_int (sh_event_seq x))), (''hash'', JStr (sh_hash x))]) states)"

definition posting_json :: "LedgerPostingEvidence \<Rightarrow> json" where
  "posting_json x = JObj [(''account'', JStr (lp_account x)), (''amount_minor'', JStr (str_int (lp_amount_minor x))),
     (''currency'', JStr (lp_currency x))]"

definition ledger_json :: "LedgerTransactionEvidence list \<Rightarrow> json" where
  "ledger_json transactions = JList (map (\<lambda>x. JObj [(''event_seq'', JStr (str_int (lt_event_seq x))),
     (''transaction_id'', JStr (lt_transaction_id x)), (''postings'', JList (map posting_json (lt_postings x)))]) transactions)"

definition metrics_json :: "ResultMetrics \<Rightarrow> json" where
  "metrics_json m = JObj [(''survived'', JBool (rm_survived m)),
     (''terminal_return_ppb'', JStr (str_int (rm_terminal_return_ppb m))),
     (''max_drawdown_ppb'', JStr (str_int (rm_max_drawdown_ppb m))),
     (''peak_effective_leverage_ppb'', JStr (str_int (rm_peak_effective_leverage_ppb m))),
     (''benchmark_return_ppb'', JStr (str_int (rm_benchmark_return_ppb m)))]"

definition kernel_input_bytes :: "CanonicalInput \<Rightarrow> bytes \<Rightarrow> bytes res" where
  "kernel_input_bytes x payload =
     bindR (evidence_text (ci_session_id x)) (\<lambda>session_id.
     bindR (evidence_u64 (ci_input_seq x)) (\<lambda>input_seq.
     bindR (evidence_u64 (ci_expected_state_version x)) (\<lambda>version.
     bindR (evidence_i64_bytes (ci_logical_ts_ns x)) (\<lambda>logical_ts_ns.
     bindR (evidence_text (ci_kind x)) (\<lambda>kind.
     bindR (evidence_bytes payload) (\<lambda>body.
     Inr (ascii ''TRL-KERNEL-INPUT-v1'' @ [0] @ session_id @ input_seq @ version @ logical_ts_ns @ kind @ body)))))))"

definition kernel_event_bytes :: "bytes \<Rightarrow> nat \<Rightarrow> CanonicalInput \<Rightarrow> bytes \<Rightarrow> bytes res" where
  "kernel_event_bytes prior_hash index x payload =
     bindR (kernel_input_bytes x payload) (\<lambda>canonical_input.
     bindR (evidence_u64 (int index)) (\<lambda>seq.
     bindR (evidence_u64 (int (index + 1))) (\<lambda>version.
     bindR (evidence_i64_bytes (ci_logical_ts_ns x)) (\<lambda>logical_ts_ns.
     bindR (evidence_text (ci_kind x)) (\<lambda>kind.
     bindR (evidence_bytes canonical_input) (\<lambda>body.
     Inr (ascii ''TRL-KERNEL-EVENT-v1'' @ [0] @ prior_hash @ seq @ version @ logical_ts_ns @ kind @ sha256 payload @ body)))))))"

fun kernel_events :: "string \<Rightarrow> nat \<Rightarrow> bytes \<Rightarrow> CanonicalInput list \<Rightarrow> (fields list \<times> bytes) res" where
  "kernel_events session_id index prior_hash [] = Inr ([], prior_hash)"
| "kernel_events session_id index prior_hash (x # inputs) =
     bindR (require (ci_session_id x = session_id) invalid_evidence) (\<lambda>_.
     bindR (require (\<not> (ci_input_seq x \<noteq> int index \<or> ci_expected_state_version x \<noteq> int index)) invalid_evidence) (\<lambda>_.
     bindR (fromhex (ci_payload_hex x)) (\<lambda>payload.
     bindR (kernel_event_bytes prior_hash index x payload) (\<lambda>event_bytes.
     let current_hash = sha256 event_bytes in
     bindR (kernel_events session_id (index + 1) current_hash inputs) (\<lambda>(events, final_hash).
     Inr ([(''event_seq'', JStr (str_int (int index))), (''state_version'', JStr (str_int (int (index + 1)))),
           (''logical_ts_ns'', JStr (str_int (ci_logical_ts_ns x))), (''kind'', JStr (ci_kind x)),
           (''payload_hash'', JStr (hex (sha256 payload))), (''prior_event_hash'', JStr (hex prior_hash)),
           (''current_event_hash'', JStr (hex current_hash))] # events, final_hash))))))"

definition manifest_commitment :: "string list \<Rightarrow> string res" where
  "manifest_commitment hashes =
     (let ordered = sort hashes in
      bindR (evidence_u64 (int (length ordered))) (\<lambda>n.
      bindR (mapR (\<lambda>item. bindR (validated_sha item) fromhex) ordered) (\<lambda>parts.
      Inr (sha256_hex (ascii ''TRL-MANIFEST-SET-v1'' @ [0] @ n @ concat parts)))))"

fun state_hash_parts :: "int option \<Rightarrow> StateHashEvidence list \<Rightarrow> bytes res" where
  "state_hash_parts prior [] = Inr []"
| "state_hash_parts prior (x # states) =
     bindR (require (\<not> (case prior of None \<Rightarrow> False | Some p \<Rightarrow> sh_event_seq x \<le> p)) invalid_evidence) (\<lambda>_.
     bindR (evidence_u64 (sh_event_seq x)) (\<lambda>seq.
     bindR (fromhex (sh_hash x)) (\<lambda>h.
     bindR (state_hash_parts (Some (sh_event_seq x)) states) (\<lambda>rest.
     Inr (seq @ h @ rest)))))"

definition state_hash_commitment :: "StateHashEvidence list \<Rightarrow> string res" where
  "state_hash_commitment states =
     bindR (evidence_u64 (int (length states))) (\<lambda>n.
     bindR (state_hash_parts None states) (\<lambda>parts.
     Inr (sha256_hex (ascii ''TRL-STATE-HASHES-v1'' @ [0] @ n @ parts))))"

text \<open>The totals per currency, in the order of their first posting.\<close>

definition posting_totals :: "LedgerPostingEvidence list \<Rightarrow> (string \<times> int) list" where
  "posting_totals postings =
     foldl (\<lambda>totals p. AList.update (lp_currency p)
       ((case map_of totals (lp_currency p) of None \<Rightarrow> 0 | Some t \<Rightarrow> t) + lp_amount_minor p) totals) [] postings"

definition require_balanced :: "LedgerTransactionEvidence \<Rightarrow> unit res" where
  "require_balanced x = require (\<not> list_ex (\<lambda>(_, amount). amount \<noteq> 0) (posting_totals (lt_postings x))) invalid_evidence"

definition posting_bytes :: "LedgerPostingEvidence \<Rightarrow> bytes res" where
  "posting_bytes p =
     bindR (evidence_text (lp_currency p)) (\<lambda>currency.
     bindR (evidence_text (lp_account p)) (\<lambda>account.
     bindR (evidence_i64_bytes (lp_amount_minor p)) (\<lambda>amount.
     Inr (currency @ account @ amount))))"

definition posting_key :: "LedgerPostingEvidence \<Rightarrow> string \<times> int \<times> string" where
  "posting_key p = (lp_account p, lp_amount_minor p, lp_currency p)"

definition transaction_bytes :: "LedgerTransactionEvidence \<Rightarrow> bytes res" where
  "transaction_bytes x =
     bindR (evidence_u64 (lt_event_seq x)) (\<lambda>seq.
     bindR (evidence_text (lt_transaction_id x)) (\<lambda>transaction_id.
     let postings = sort_key posting_key (lt_postings x) in
     bindR (evidence_u64 (int (length postings))) (\<lambda>n.
     bindR (mapR posting_bytes postings) (\<lambda>parts.
     Inr (seq @ transaction_id @ n @ concat parts)))))"

fun ledger_parts :: "string list \<Rightarrow> int option \<Rightarrow> LedgerTransactionEvidence list \<Rightarrow> bytes res" where
  "ledger_parts seen prior_seq [] = Inr []"
| "ledger_parts seen prior_seq (x # transactions) =
     bindR (require (lt_transaction_id x \<notin> set seen) invalid_evidence) (\<lambda>_.
     bindR (require (\<not> (case prior_seq of None \<Rightarrow> False | Some p \<Rightarrow> lt_event_seq x < p)) invalid_evidence) (\<lambda>_.
     bindR (require_balanced x) (\<lambda>_.
     bindR (transaction_bytes x) (\<lambda>part.
     bindR (ledger_parts (lt_transaction_id x # seen) (Some (lt_event_seq x)) transactions) (\<lambda>rest.
     Inr (part @ rest))))))"

definition ledger_commitment :: "LedgerTransactionEvidence list \<Rightarrow> string res" where
  "ledger_commitment transactions =
     bindR (evidence_u64 (int (length transactions))) (\<lambda>n.
     bindR (ledger_parts [] None transactions) (\<lambda>parts.
     Inr (sha256_hex (ascii ''TRL-LEDGER-PROOF-v1'' @ [0] @ n @ parts))))"

definition result_commitment :: "string \<Rightarrow> string \<Rightarrow> string \<Rightarrow> string \<Rightarrow> string \<Rightarrow> ResultMetrics \<Rightarrow> string res" where
  "result_commitment session_id manifest_set_hash final_event_hash state_hashes_hash ledger_hash m =
     bindR (evidence_text session_id) (\<lambda>session_text.
     bindR (mapR fromhex [manifest_set_hash, final_event_hash, state_hashes_hash, ledger_hash]) (\<lambda>hashes.
     bindR (evidence_u64 (if rm_survived m then 1 else 0)) (\<lambda>survived.
     bindR (mapR evidence_i64_bytes [rm_terminal_return_ppb m, rm_max_drawdown_ppb m,
         rm_peak_effective_leverage_ppb m, rm_benchmark_return_ppb m]) (\<lambda>metrics.
     Inr (sha256_hex (ascii ''TRL-VERIFIER-RESULT-v1'' @ [0] @ session_text @ concat hashes @ survived @ concat metrics))))))"

definition build_proof :: "string \<Rightarrow> string \<Rightarrow> ResultEvidence \<Rightarrow> fields res" where
  "build_proof session_id manifest_hash evidence =
     bindR (manifest_commitment [manifest_hash]) (\<lambda>manifest_set_hash.
     bindR (kernel_events session_id 0 (replicate 32 0) (re_inputs evidence)) (\<lambda>(events, final_hash).
     let final_event_hash = hex final_hash in
     bindR (state_hash_commitment (re_state_hashes evidence)) (\<lambda>state_hashes_hash.
     bindR (ledger_commitment (re_ledger_transactions evidence)) (\<lambda>ledger_hash.
     bindR (result_commitment session_id manifest_set_hash final_event_hash state_hashes_hash ledger_hash
       (re_metrics evidence)) (\<lambda>result_hash.
     Inr [(''verification_version'', JStr VERIFICATION_VERSION), (''session_id'', JStr session_id),
          (''manifest_hashes'', JList [JStr manifest_hash]), (''manifest_set_hash'', JStr manifest_set_hash),
          (''inputs'', JList (map input_json (re_inputs evidence))), (''kernel_events'', JList (map JObj events)),
          (''state_hashes'', state_hash_json (re_state_hashes evidence)),
          (''state_hashes_hash'', JStr state_hashes_hash),
          (''ledger_transactions'', ledger_json (re_ledger_transactions evidence)),
          (''ledger_hash'', JStr ledger_hash), (''metrics'', metrics_json (re_metrics evidence)),
          (''result_hash'', JStr result_hash)])))))"

section \<open>Service: finalization\<close>

definition completed_session :: "db \<Rightarrow> string \<Rightarrow> string \<Rightarrow> SessionRecord res" where
  "completed_session d session_id principal_id =
     bindR (catchR (get_session d session_id principal_id) is_SessionLifecycleError
       (result_error XE_SESSION_UNAVAILABLE)) (\<lambda>session.
     bindR (require (rec_status session = COMPLETED) (result_error XE_SESSION_NOT_COMPLETED)) (\<lambda>_.
     Inr session))"

definition validate_ruleset :: "AuthoritativeResultData \<Rightarrow> string \<Rightarrow> string \<Rightarrow> unit res" where
  "validate_ruleset a expected_version expected_hash =
     require (\<not> (jget (ad_ruleset a) ''ruleset_version'' \<noteq> JStr expected_version \<or>
         jget (ad_ruleset a) ''ruleset_hash'' \<noteq> JStr expected_hash)) persisted_conflict"

definition bundle_fields ::
    "string \<Rightarrow> CommittedSetup \<Rightarrow> fields \<Rightarrow> string list \<Rightarrow> string list \<Rightarrow> fields list \<Rightarrow> fields list \<Rightarrow> ResultEvidence \<Rightarrow> string \<Rightarrow> fields" where
  "bundle_fields session_id s ruleset commitments revealed_nonces command_payloads domain_payloads evidence result_hash =
     [(''schema_version'', JStr SCHEMA_VERSION), (''session_id'', JStr session_id),
      (''setup'', JObj (to_payload s)), (''ruleset'', JObj ruleset),
      (''commitments'', JList (map JStr commitments)), (''revealed_nonces'', JList (map JStr revealed_nonces)),
      (''manifest_hashes'', JList [JStr (cs_manifest_hash s)]), (''commands'', JList (map JObj command_payloads)),
      (''domain_events'', JList (map JObj domain_payloads)), (''state_hashes'', state_hash_json (re_state_hashes evidence)),
      (''metrics'', metrics_json (re_metrics evidence)), (''result_hash'', JStr result_hash)]"

definition export_fields :: "string \<Rightarrow> string \<Rightarrow> string \<Rightarrow> string \<Rightarrow> fields \<Rightarrow> fields \<Rightarrow> fields" where
  "export_fields session_id result_hash bundle_hash proof_hash bundle proof =
     [(''export_version'', JStr EXPORT_VERSION), (''session_id'', JStr session_id), (''result_hash'', JStr result_hash),
      (''bundle_hash'', JStr bundle_hash), (''proof_hash'', JStr proof_hash), (''result_bundle'', JObj bundle),
      (''verifier_proof'', JObj proof)]"

definition frozen_result :: "string \<Rightarrow> int \<Rightarrow> string \<Rightarrow> fields \<Rightarrow> fields \<Rightarrow> FrozenResult res" where
  "frozen_result session_id created_at_ns result_hash bundle proof =
     bindR (canonical_hash (JObj bundle)) (\<lambda>bundle_hash.
     bindR (canonical_hash (JObj proof)) (\<lambda>proof_hash.
     let export = export_fields session_id result_hash bundle_hash proof_hash bundle proof in
     bindR (canonical_hash (JObj export)) (\<lambda>export_hash.
     Inr \<lparr>fr_session_id = session_id, fr_result_hash = result_hash, fr_bundle_hash = bundle_hash,
          fr_proof_hash = proof_hash, fr_export_hash = export_hash, fr_created_at_ns = created_at_ns,
          fr_bundle = bundle, fr_proof = proof, fr_export = export, fr_replayed = False\<rparr>)))"

definition build_result :: "db \<Rightarrow> string \<Rightarrow> string \<Rightarrow> ResultEvidence \<Rightarrow> int \<Rightarrow> FrozenResult res" where
  "build_result d session_id principal_id evidence created_at_ns =
     bindR (evidence_i64 created_at_ns) (\<lambda>_.
     bindR (completed_session d session_id principal_id) (\<lambda>session.
     case rec_setup session of None \<Rightarrow> Inl persisted_conflict
     | Some s \<Rightarrow>
       bindR (authoritative d session_id principal_id (cs_ruleset_id s)) (\<lambda>a.
       bindR (validate_ruleset a (cs_ruleset_version s) (cs_ruleset_hash s)) (\<lambda>_.
       bindR (export_commands session_id principal_id (ad_commands a) (re_command_metadata evidence)) (\<lambda>command_payloads.
       bindR (export_events session_id None None (ad_domain_events a)) (\<lambda>domain_payloads.
       bindR (commitment_exports (ad_commitments a) s (re_eligible_episodes evidence)) (\<lambda>(commitments, revealed_nonces).
       bindR (build_proof session_id (cs_manifest_hash s) evidence) (\<lambda>proof.
       bindR (result_string_field proof ''result_hash'') (\<lambda>result_hash.
       frozen_result session_id created_at_ns result_hash
         (bundle_fields session_id s (ad_ruleset a) commitments revealed_nonces command_payloads domain_payloads
           evidence result_hash) proof)))))))))"

definition finalize :: "string \<Rightarrow> string \<Rightarrow> ResultEvidence \<Rightarrow> int \<Rightarrow> FrozenResult tx" where
  "finalize session_id principal_id evidence created_at_ns d =
     bindR (build_result d session_id principal_id evidence created_at_ns) (\<lambda>frozen.
     freeze principal_id frozen d)"

section \<open>Routes\<close>

fun result_http_status :: "result_code \<Rightarrow> nat" where
  "result_http_status XE_SESSION_UNAVAILABLE = 404"
| "result_http_status XE_SESSION_NOT_COMPLETED = 409"
| "result_http_status XE_INVALID_EVIDENCE = 422"
| "result_http_status XE_PERSISTED_CONFLICT = 409"
| "result_http_status XE_RESULT_CONFLICT = 409"
| "result_http_status XE_RESULT_NOT_FOUND = 404"
| "result_http_status XE_DATABASE_CONFLICT = 409"

fun result_http_error :: "exn \<Rightarrow> http_failure" where
  "result_http_error (ResultServiceError code) = HTTPException (result_http_status code)"
| "result_http_error e = Unhandled e"

text \<open>\<^verbatim>\<open>str.isalnum\<close> of one Latin-1 character.\<close>

definition isalnum_char :: "char \<Rightarrow> bool" where
  "isalnum_char c = (let k = ord c in 48 \<le> k \<and> k \<le> 57 \<or> 65 \<le> k \<and> k \<le> 90 \<or> 97 \<le> k \<and> k \<le> 122 \<or>
     k \<in> {170, 178, 179, 181, 185, 186, 188, 189, 190} \<or> 192 \<le> k \<and> k \<noteq> 215 \<and> k \<noteq> 247)"

definition filename_token :: "string \<Rightarrow> string" where
  "filename_token session_id =
     (let token = take 80 (map (\<lambda>c. if isalnum_char c \<or> c = CHR ''-'' \<or> c = CHR ''_'' then c else CHR ''_'') session_id)
      in if token = [] then ''session'' else token)"

record download =
  dl_content :: string
  dl_disposition :: string
  dl_filename :: string
  dl_content_hash :: string

definition json_download :: "fields \<Rightarrow> string \<Rightarrow> string \<Rightarrow> bool \<Rightarrow> download http" where
  "json_download value content_hash filename attachment =
     bindH (catchH Unhandled (result_canonical_json (JObj value))) (\<lambda>content.
     Inr \<lparr>dl_content = content, dl_disposition = (if attachment then ''attachment'' else ''inline''),
          dl_filename = filename, dl_content_hash = content_hash\<rparr>)"

definition result_route ::
    "(FrozenResult \<Rightarrow> fields) \<Rightarrow> (FrozenResult \<Rightarrow> string) \<Rightarrow> string \<Rightarrow> bool \<Rightarrow> authenticator \<Rightarrow> db \<Rightarrow> headers \<Rightarrow> string \<Rightarrow>
     download http" where
  "result_route value content_hash suffix attachment authenticator d headers session_id =
     bindH (authenticate_request authenticator headers) (\<lambda>principal_id.
     bindH (catchH result_http_error (get_result d session_id principal_id)) (\<lambda>result.
     json_download (value result) (content_hash result) (filename_token session_id @ suffix) attachment))"

definition result_bundle_route where
  "result_bundle_route = result_route fr_bundle fr_bundle_hash ''-result.json'' False"

definition verifier_proof_route where
  "verifier_proof_route = result_route fr_proof fr_proof_hash ''-proof.json'' True"

definition export_package_route where
  "export_package_route = result_route fr_export fr_export_hash ''-export.json'' True"

end
