(* ===== verification/Commitment_Theorems.thy ===== *)
theory Commitment_Theorems
  imports Commitments
begin

text \<open>
  Properties of the episode commitments. The canonical byte strings are prefix codes (interpretations of
  \<open>prefix_code\<close>), hence injective; a commitment hash therefore binds secret, setup, eligible list, nonce and the
  drawn episode up to a collision of SHA-256. The draw is unbiased, the reveal of a prepared selection verifies, and
  the secret is stored in the clear only once its session is completed.
\<close>

section \<open>Canonical bytes are injective\<close>

definition enc_text :: "string \<Rightarrow> bytes" where
  "enc_text v = len_prefixed (utf8 v)"

definition enc_hash :: "string \<Rightarrow> bytes" where
  "enc_hash h = (case fromhex h of Inl _ \<Rightarrow> [] | Inr b \<Rightarrow> b)"

definition enc_strings :: "string list \<Rightarrow> bytes" where
  "enc_strings vs = enc_u64 (length vs) @ concat (map enc_text vs)"

definition text_fits :: "string \<Rightarrow> bool" where
  "text_fits v \<longleftrightarrow> length (utf8 v) < 256 ^ 8"

definition strings_fit :: "string list \<Rightarrow> bool" where
  "strings_fit vs \<longleftrightarrow> length vs < 256 ^ 8 \<and> list_all text_fits vs"

interpretation text_code: prefix_code enc_text text_fits
  by unfold_locales (auto simp: enc_text_def text_fits_def dest!: lp.prefix [rotated 2])

lemma enc_hash_bytes: "is_sha256_hex h \<Longrightarrow> fromhex h = Inr (enc_hash h) \<and> length (enc_hash h) = 32 \<and> hex (enc_hash h) = h"
  by (elim sha_hex_bytes) (simp add: enc_hash_def)

interpretation hash_code: prefix_code enc_hash is_sha256_hex
proof unfold_locales
  fix x y r s
  assume "is_sha256_hex x" "is_sha256_hex y" "enc_hash x @ r = enc_hash y @ s"
  with enc_hash_bytes [of x] enc_hash_bytes [of y] show "x = y \<and> r = s" by (metis append_eq_append_conv)
qed

interpretation strings_code: prefix_code enc_strings strings_fit
proof unfold_locales
  fix xs ys :: "string list" and r s :: bytes
  assume fit: "strings_fit xs" "strings_fit ys" and eq: "enc_strings xs @ r = enc_strings ys @ s"
  from eq have "enc_u64 (length xs) @ (concat (map enc_text xs) @ r) = enc_u64 (length ys) @ (concat (map enc_text ys) @ s)"
    by (simp add: enc_strings_def)
  then have len: "length xs = length ys" and rest: "concat (map enc_text xs) @ r = concat (map enc_text ys) @ s"
    using u64.prefix [of "length xs" "length ys"] fit by (auto simp: strings_fit_def)
  show "xs = ys \<and> r = s"
    by (rule text_code.enc_list_prefix [OF _ _ len rest]) (use fit in \<open>simp_all add: strings_fit_def\<close>)
qed

lemma commitment_sha256_iff: "commitment_sha256 h = Inr () \<longleftrightarrow> is_sha256_hex h"
proof
  assume "commitment_sha256 h = Inr ()"
  then obtain b where "length h = 64" "hex b = h" by (auto simp: commitment_sha256_def)
  then show "is_sha256_hex h" using hex_chars [of b] by (auto simp: is_sha256_hex_def)
next
  assume "is_sha256_hex h"
  then show "commitment_sha256 h = Inr ()"
    using enc_hash_bytes [of h] by (auto simp: commitment_sha256_def is_sha256_hex_def)
qed

lemma commitment_i64_iff: "commitment_i64 v = Inr () \<longleftrightarrow> in_i64 v"
  by (auto simp: commitment_i64_def in_i64_def)

lemma commitment_text_iff: "commitment_text v = Inr b \<longleftrightarrow> v \<noteq> [] \<and> b = enc_text v"
  by (auto simp: commitment_text_def enc_text_def)

lemma commitment_i64_bytes_iff: "commitment_i64_bytes v = Inr b \<longleftrightarrow> in_i64 v \<and> b = to_bytes_signed 8 v"
  by (auto simp: commitment_i64_bytes_def commitment_i64_iff)

lemma mapR_text: "mapR commitment_text vs = Inr bs \<Longrightarrow> bs = map enc_text vs"
  by (induction vs arbitrary: bs) (auto simp: commitment_text_iff)

lemma commitment_stringsD: "commitment_strings vs = Inr b \<Longrightarrow> b = enc_strings vs"
  by (auto simp: commitment_strings_def enc_strings_def enc_u64_def dest: mapR_text)

definition setup_fits :: "SelectionSetup \<Rightarrow> bool" where
  "setup_fits s \<longleftrightarrow> text_fits (ss_instrument_id s) \<and> text_fits (ss_execution_tier s) \<and> text_fits (ss_visibility_mode s) \<and>
     strings_fit (ss_required_capabilities s) \<and> strings_fit (ss_allowed_redistribution s)"

definition setup_bytes :: "SelectionSetup \<Rightarrow> bytes" where
  "setup_bytes s = enc_text (ss_instrument_id s) @ enc_hash (ss_ruleset_hash s) @ enc_text (ss_execution_tier s) @
     to_bytes_signed 8 (ss_warmup_ns s) @ to_bytes_signed 8 (ss_duration_ns s) @ enc_text (ss_visibility_mode s) @
     enc_strings (ss_required_capabilities s) @ enc_strings (ss_allowed_redistribution s) @
     (if ss_allow_degraded s then [1] else [0])"

lemma canonical_setup_bytesD:
  assumes "canonical_setup_bytes s = Inr b" and "is_sha256_hex (ss_ruleset_hash s)"
  shows "b = ascii ''trl:episode-setup:v1'' @ setup_bytes s" "in_i64 (ss_warmup_ns s)" "in_i64 (ss_duration_ns s)"
  using assms enc_hash_bytes [of "ss_ruleset_hash s"]
  by (auto simp: canonical_setup_bytes_def setup_bytes_def commitment_text_iff commitment_i64_bytes_iff dest!: commitment_stringsD)

definition setup_valid :: "SelectionSetup \<Rightarrow> bool" where
  "setup_valid s \<longleftrightarrow> setup_fits s \<and> is_sha256_hex (ss_ruleset_hash s) \<and> in_i64 (ss_warmup_ns s) \<and> in_i64 (ss_duration_ns s)"

interpretation setup_code: prefix_code setup_bytes setup_valid
proof unfold_locales
  fix s s' :: SelectionSetup and r r' :: bytes
  assume v: "setup_valid s" "setup_valid s'" and eq: "setup_bytes s @ r = setup_bytes s' @ r'"
  note fits = v [unfolded setup_valid_def setup_fits_def]
  note e1 = text_code.prefix [OF _ _ eq [unfolded setup_bytes_def append_assoc]]
  have 1: "ss_instrument_id s = ss_instrument_id s'" using e1 fits by blast
  note e2 = hash_code.prefix [OF _ _ e1 [THEN conjunct2]]
  have 2: "ss_ruleset_hash s = ss_ruleset_hash s'" using e2 fits by blast
  note e3 = text_code.prefix [OF _ _ e2 [THEN conjunct2]]
  have 3: "ss_execution_tier s = ss_execution_tier s'" using e3 fits by blast
  note e4 = i64.prefix [OF _ _ e3 [THEN conjunct2]]
  have 4: "ss_warmup_ns s = ss_warmup_ns s'" using e4 fits by blast
  note e5 = i64.prefix [OF _ _ e4 [THEN conjunct2]]
  have 5: "ss_duration_ns s = ss_duration_ns s'" using e5 fits by blast
  note e6 = text_code.prefix [OF _ _ e5 [THEN conjunct2]]
  have 6: "ss_visibility_mode s = ss_visibility_mode s'" using e6 fits by blast
  note e7 = strings_code.prefix [OF _ _ e6 [THEN conjunct2]]
  have 7: "ss_required_capabilities s = ss_required_capabilities s'" using e7 fits by blast
  note e8 = strings_code.prefix [OF _ _ e7 [THEN conjunct2]]
  have 8: "ss_allowed_redistribution s = ss_allowed_redistribution s'" using e8 fits by blast
  have "(if ss_allow_degraded s then [1] else [0]) @ r = (if ss_allow_degraded s' then [1] else [0 :: byte]) @ r'"
    using e8 fits by blast
  then have "ss_allow_degraded s = ss_allow_degraded s' \<and> r = r'" by (auto split: if_splits)
  with 1 2 3 4 5 6 7 8 show "s = s' \<and> r = r'" by simp
qed

definition episode_content :: "EligibleEpisode \<Rightarrow> bytes" where
  "episode_content e = enc_text (ep_episode_id e) @ enc_hash (ep_manifest_hash e) @
     to_bytes_signed 8 (ep_play_start_ns e) @ to_bytes_signed 8 (ep_play_end_ns e)"

definition episode_valid :: "EligibleEpisode \<Rightarrow> bool" where
  "episode_valid e \<longleftrightarrow> length (episode_content e) < 256 ^ 8 \<and> text_fits (ep_episode_id e) \<and>
     is_sha256_hex (ep_manifest_hash e) \<and> in_i64 (ep_play_start_ns e) \<and> in_i64 (ep_play_end_ns e)"

lemma episode_content_inject:
  assumes "episode_valid e" and "episode_valid e'" and "episode_content e = episode_content e'"
  shows "e = e'"
proof -
  note fits = assms(1,2) [unfolded episode_valid_def]
  note e1 = text_code.prefix [OF _ _ assms(3) [unfolded episode_content_def]]
  note e2 = hash_code.prefix [OF _ _ e1 [THEN conjunct2]]
  note e3 = i64.prefix [OF _ _ e2 [THEN conjunct2]]
  have "ep_episode_id e = ep_episode_id e'" using e1 fits by blast
  moreover have "ep_manifest_hash e = ep_manifest_hash e'" using e2 fits by blast
  moreover have "ep_play_start_ns e = ep_play_start_ns e'"
    and "to_bytes_signed 8 (ep_play_end_ns e) = to_bytes_signed 8 (ep_play_end_ns e')" using e3 fits by blast+
  moreover from this(2) have "ep_play_end_ns e = ep_play_end_ns e'" using fits to_bytes_signed_inject by blast
  ultimately show ?thesis by simp
qed

interpretation episode_code: prefix_code "\<lambda>e. len_prefixed (episode_content e)" episode_valid
proof unfold_locales
  fix e e' r s
  assume v: "episode_valid e" "episode_valid e'"
    and eq: "len_prefixed (episode_content e) @ r = len_prefixed (episode_content e') @ s"
  have "episode_content e = episode_content e' \<and> r = s"
    by (rule lp.prefix [OF _ _ eq]) (use v in \<open>simp_all add: episode_valid_def\<close>)
  with episode_content_inject [OF v] show "e = e' \<and> r = s" by blast
qed

lemma episode_bytesD:
  assumes "episode_bytes e = Inr b" and "is_sha256_hex (ep_manifest_hash e)"
  shows "b = len_prefixed (episode_content e)"
  using assms enc_hash_bytes [of "ep_manifest_hash e"]
  by (auto simp: episode_bytes_def episode_content_def commitment_text_iff commitment_i64_bytes_iff)

lemma mapR_episodes:
  "mapR episode_bytes es = Inr bs \<Longrightarrow> list_all episode_valid es \<Longrightarrow> bs = map (\<lambda>e. len_prefixed (episode_content e)) es"
  by (induction es arbitrary: bs) (auto simp: episode_valid_def dest: episode_bytesD)

lemma canonical_eligible_bytesD:
  assumes "canonical_eligible_bytes es = Inr b" and "list_all episode_valid es"
  shows "b = ascii ''trl:eligible-episodes:v1'' @ enc_u64 (length es) @ concat (map (\<lambda>e. len_prefixed (episode_content e)) es)"
  using assms by (auto simp: canonical_eligible_bytes_def enc_u64_def Let_def dest: mapR_episodes)

definition episodes_valid :: "EligibleEpisode list \<Rightarrow> bool" where
  "episodes_valid es \<longleftrightarrow> length es < 256 ^ 8 \<and> list_all episode_valid es"

lemma eligible_bytes_inject:
  assumes "canonical_eligible_bytes es = Inr b" and "canonical_eligible_bytes es' = Inr b"
    and "episodes_valid es" and "episodes_valid es'"
  shows "es = es'"
proof -
  have v: "list_all episode_valid es" "list_all episode_valid es'" "length es < 256 ^ 8" "length es' < 256 ^ 8"
    using assms(3,4) by (simp_all add: episodes_valid_def)
  have "enc_u64 (length es) @ concat (map (\<lambda>e. len_prefixed (episode_content e)) es) =
      enc_u64 (length es') @ concat (map (\<lambda>e. len_prefixed (episode_content e)) es')"
    using canonical_eligible_bytesD [OF assms(1) v(1)] canonical_eligible_bytesD [OF assms(2) v(2)] by simp
  from u64.prefix [OF v(3,4) this] have len: "length es = length es'"
    and rest: "concat (map (\<lambda>e. len_prefixed (episode_content e)) es) @ [] =
      concat (map (\<lambda>e. len_prefixed (episode_content e)) es') @ []" by simp_all
  from episode_code.enc_list_prefix [OF v(1,2) len rest] show ?thesis by blast
qed

lemma setup_bytes_inject:
  assumes "canonical_setup_bytes s = Inr b" and "canonical_setup_bytes s' = Inr b" and "setup_fits s" and "setup_fits s'"
    and "is_sha256_hex (ss_ruleset_hash s)" and "is_sha256_hex (ss_ruleset_hash s')"
  shows "s = s'"
  using canonical_setup_bytesD [OF assms(1,5)] canonical_setup_bytesD [OF assms(2,6)] assms(3-6)
  by (intro setup_code.enc_inj) (simp_all add: setup_valid_def)

section \<open>The commitment binds its inputs\<close>

lemma selection_setup_hash_binds:
  assumes "selection_setup_hash s = Inr h" and "selection_setup_hash s' = Inr h" and "setup_fits s" and "setup_fits s'"
    and "is_sha256_hex (ss_ruleset_hash s)" and "is_sha256_hex (ss_ruleset_hash s')"
  shows "s = s' \<or> sha256_collision"
proof -
  from assms(1,2) obtain b b' where b: "canonical_setup_bytes s = Inr b" "canonical_setup_bytes s' = Inr b'"
    "sha256_hex b = h" "sha256_hex b' = h" by (auto simp: selection_setup_hash_def)
  then have "b = b' \<or> sha256_collision" by (intro sha256_hex_eqD) simp
  with setup_bytes_inject [of s b s'] b assms show ?thesis by blast
qed

lemma eligible_set_hash_binds:
  assumes "eligible_set_hash es = Inr h" and "eligible_set_hash es' = Inr h" and "episodes_valid es" and "episodes_valid es'"
  shows "es = es' \<or> sha256_collision"
proof -
  from assms(1,2) obtain b b' where b: "canonical_eligible_bytes es = Inr b" "canonical_eligible_bytes es' = Inr b'"
    "sha256_hex b = h" "sha256_hex b' = h" by (auto simp: eligible_set_hash_def)
  then have "b = b' \<or> sha256_collision" by (intro sha256_hex_eqD) simp
  with eligible_bytes_inject [of es b es'] b assms show ?thesis by blast
qed

lemma hashes_valid:
  "selection_setup_hash s = Inr h \<Longrightarrow> is_sha256_hex h" "eligible_set_hash es = Inr h \<Longrightarrow> is_sha256_hex h"
  by (auto simp: selection_setup_hash_def eligible_set_hash_def)

lemma commitment_hash_eq:
  assumes "is_sha256_hex a" and "is_sha256_hex b"
  shows "commitment_hash_of secret a b nonce = Inr (sha256_hex (ascii ''trl:episode-commitment:v1'' @ secret @
    enc_hash a @ enc_hash b @ len_prefixed nonce))"
  using enc_hash_bytes [OF assms(1)] enc_hash_bytes [OF assms(2)]
  by (simp add: commitment_hash_of_def len_prefixed_def enc_u64_def)

lemma commitment_hash_binds:
  assumes "commitment_hash_of secret a b nonce = Inr h" and "commitment_hash_of secret' a' b' nonce' = Inr h"
    and "length secret = length secret'" and "is_sha256_hex a" "is_sha256_hex b" "is_sha256_hex a'" "is_sha256_hex b'"
    and "length nonce < 256 ^ 8" "length nonce' < 256 ^ 8"
  shows "secret = secret' \<and> a = a' \<and> b = b' \<and> nonce = nonce' \<or> sha256_collision"
proof (rule disjCI)
  assume nc: "\<not> sha256_collision"
  have "sha256_hex (ascii ''trl:episode-commitment:v1'' @ secret @ enc_hash a @ enc_hash b @ len_prefixed nonce) =
      sha256_hex (ascii ''trl:episode-commitment:v1'' @ secret' @ enc_hash a' @ enc_hash b' @ len_prefixed nonce')"
    using assms(1,2) unfolding commitment_hash_eq [OF assms(4,5)] commitment_hash_eq [OF assms(6,7)] by simp
  then have "ascii ''trl:episode-commitment:v1'' @ secret @ enc_hash a @ enc_hash b @ len_prefixed nonce =
      ascii ''trl:episode-commitment:v1'' @ secret' @ enc_hash a' @ enc_hash b' @ len_prefixed nonce'"
    using nc sha256_hex_eqD by blast
  then have s: "secret = secret'" and "enc_hash a @ enc_hash b @ len_prefixed nonce = enc_hash a' @ enc_hash b' @ len_prefixed nonce'"
    using assms(3) by simp_all
  note e1 = hash_code.prefix [OF assms(4,6) this(2)]
  note e2 = hash_code.prefix [OF assms(5,7) e1 [THEN conjunct2]]
  from lp.enc_inj [OF assms(8,9) e2 [THEN conjunct2]] s e1 e2
  show "secret = secret' \<and> a = a' \<and> b = b' \<and> nonce = nonce'" by blast
qed

lemma derive_selectionD:
  assumes "derive_selection s es secret nonce = Inr res"
  shows "length secret = 32" "length nonce \<le> 256" "selection_setup_hash s = Inr (se_setup_hash res)"
    "eligible_set_hash es = Inr (se_eligible_set_hash res)"
    "commitment_hash_of secret (se_setup_hash res) (se_eligible_set_hash res) nonce = Inr (se_commitment_hash res)"
    "draw_index secret (se_setup_hash res) (se_eligible_set_hash res) nonce (length es) =
       Inr (se_selected_index res, se_draw_counter res)"
  using assms by (auto simp: derive_selection_def validate_player_nonce_def MAX_PLAYER_NONCE_BYTES_def)

lemma verifyD:
  assumes "verify_completion_proof s es p = Inr e"
  obtains secret nonce res where "fromhex (cp_secret_hex p) = Inr secret" "fromhex (cp_player_nonce_hex p) = Inr nonce"
    "derive_selection s es secret nonce = Inr res" "se_setup_hash res = cp_setup_hash p"
    "se_eligible_set_hash res = cp_eligible_set_hash p" "se_commitment_hash res = cp_commitment_hash p"
    "int (se_selected_index res) = cp_selected_index p" "int (se_draw_counter res) = cp_draw_counter p"
    "se_selected_index res < length es" "e = es ! se_selected_index res" "e = cp_selected_episode p"
proof -
  have cmp: "compare_digest a b = Inr c \<Longrightarrow> c = (a = b)" for a b c by (auto simp: compare_digest_def)
  from assms obtain r a b c where
    r: "bindR (fromhex (cp_secret_hex p)) (\<lambda>secret. bindR (fromhex (cp_player_nonce_hex p)) (\<lambda>nonce.
        derive_selection s es secret nonce)) = Inr r"
    and c: "compare_digest (se_setup_hash r) (cp_setup_hash p) = Inr a" a
      "compare_digest (se_eligible_set_hash r) (cp_eligible_set_hash p) = Inr b" b
      "compare_digest (se_commitment_hash r) (cp_commitment_hash p) = Inr c" c
    and i: "int (se_selected_index r) = cp_selected_index p" "int (se_draw_counter r) = cp_draw_counter p"
      "cp_selected_index p < int (length es)" "es ! nat (cp_selected_index p) = cp_selected_episode p"
      "e = es ! nat (cp_selected_index p)"
    unfolding verify_completion_proof_def Let_def bindR_eq_Inr require_simps(3) catchR_simps(3)
    by (elim exE conjE) (rule that, (assumption | simp)+)
  have n: "nat (cp_selected_index p) = se_selected_index r" using i(1) by simp
  from r obtain secret nonce where "fromhex (cp_secret_hex p) = Inr secret" "fromhex (cp_player_nonce_hex p) = Inr nonce"
    "derive_selection s es secret nonce = Inr r" by auto
  moreover have "se_setup_hash r = cp_setup_hash p" "se_eligible_set_hash r = cp_eligible_set_hash p"
    "se_commitment_hash r = cp_commitment_hash p" using cmp [OF c(1)] cmp [OF c(3)] cmp [OF c(5)] c(2,4,6) by blast+
  moreover have "se_selected_index r < length es" "e = es ! se_selected_index r" "e = cp_selected_episode p"
    using i n by auto
  ultimately show ?thesis using i(1,2) by - (rule that)
qed


section \<open>The draw\<close>

lemma draw_limit_multiple: "draw_limit n = draw_space div n * n"
  unfolding draw_limit_def by (metis add_diff_cancel_right' div_mult_mod_eq)

lemma residue_count:
  assumes "i < (n :: nat)"
  shows "card {c. c < q * n \<and> c mod n = i} = q"
proof -
  have "{c. c < q * n \<and> c mod n = i} = (\<lambda>k. k * n + i) ` {..<q}"
  proof (intro equalityI subsetI)
    fix c assume "c \<in> {c. c < q * n \<and> c mod n = i}"
    then have "c div n < q" "c = c div n * n + i" by (auto simp: less_mult_imp_div_less div_mult_mod_eq)
    then show "c \<in> (\<lambda>k. k * n + i) ` {..<q}" by blast
  next
    fix c assume "c \<in> (\<lambda>k. k * n + i) ` {..<q}"
    then obtain k where k: "k < q" "c = k * n + i" by blast
    then have "(k + 1) * n \<le> q * n" by (intro mult_le_mono1) simp
    with k assms show "c \<in> {c. c < q * n \<and> c mod n = i}" by simp
  qed
  moreover have "inj_on (\<lambda>k. k * n + i) {..<q}" using assms by (auto simp: inj_on_def)
  ultimately show ?thesis by (simp add: card_image)
qed

text \<open>C19: bounds. The draw is unbiased: of the \<open>2^256\<close> values a digest can have, every index of the candidate list is
  given by exactly the same number, and fewer values than there are candidates are rejected.\<close>

theorem draw_unbiased:
  assumes "i < n"
  shows "card {c. c < draw_space \<and> draw_accept n c = Some i} = draw_space div n \<and>
    card {c. c < draw_space \<and> draw_accept n c = None} < n"
proof
  have "c < draw_space" if "c < draw_space div n * n" for c
    using that div_times_less_eq_dividend [of draw_space n] by (rule less_le_trans)
  then have "{c. c < draw_space \<and> draw_accept n c = Some i} = {c. c < draw_space div n * n \<and> c mod n = i}"
    by (auto simp: draw_accept_def draw_limit_multiple split: if_splits)
  with residue_count [OF assms] show "card {c. c < draw_space \<and> draw_accept n c = Some i} = draw_space div n" by simp
  have "{c. c < draw_space \<and> draw_accept n c = None} = {draw_limit n..<draw_space}"
    by (auto simp: draw_accept_def split: if_splits)
  moreover have "draw_space - draw_limit n < n" using assms by (simp add: draw_limit_def)
  ultimately show "card {c. c < draw_space \<and> draw_accept n c = None} < n" by simp
qed

theorem draw_unbiased_witness:
  "card {c. c < draw_space \<and> draw_accept 3 c = Some 2} = 2 ^ 256 div 3"
  using draw_unbiased [of 2 3] by (simp add: draw_space_def)

lemma draw_loop_bounds: "draw_loop f n k = Inr (i, c) \<Longrightarrow> 0 < n \<Longrightarrow> i < n \<and> c < 2 ^ 64"
proof (induction f n k rule: draw_loop.induct)
  case (1 f n k)
  show ?case
  proof (cases "draw_accept n (f k)")
    case None
    with 1 show ?thesis by (subst (asm) (2) draw_loop.simps) (auto split: if_splits)
  next
    case (Some j)
    then have "j < n" using 1(3) by (auto simp: draw_accept_def split: if_splits)
    with Some 1(2) show ?thesis by (subst (asm) draw_loop.simps) (auto split: if_splits)
  qed
qed

lemma draw_index_bounds: "draw_index secret a b nonce n = Inr (i, c) \<Longrightarrow> i < n \<and> c < 2 ^ 64"
  by (auto simp: draw_index_def dest: draw_loop_bounds)

section \<open>Sealing\<close>

text \<open>The documented behaviour of AES-GCM with a 12-byte nonce.\<close>

definition aead_ok :: "aead \<Rightarrow> bool" where
  "aead_ok c \<longleftrightarrow> (\<forall>n p a. length n = 12 \<longrightarrow>
     aead_decrypt c n (aead_encrypt c n p a) a = Inr p \<and> length (aead_encrypt c n p a) = length p + 16)"

lemma unseal_seal:
  assumes "aead_ok c" and "seal_secret c nonce i k secret = Inr t" and "length secret = 32"
  shows "unseal_secret c i k t = Inr secret"
proof -
  from assms(2) obtain ad where ad: "length nonce = 12" "associated_data i k = Inr ad"
    "t = urlsafe_b64encode (nonce @ aead_encrypt c nonce secret ad)" by (auto simp: seal_secret_def)
  with assms(1,3) show ?thesis by (simp add: unseal_secret_def aead_ok_def)
qed

section \<open>Reveal and verification\<close>

lemma isascii_hex: "list_all hex_char s \<Longrightarrow> isascii s"
  by (auto simp: isascii_def hex_char_def ascii_digit_def list_all_iff)

lemma isascii_sha: "is_sha256_hex s \<Longrightarrow> isascii s"
  by (rule isascii_hex) (simp add: is_sha256_hex_def)

lemma compare_same [simp]: "isascii a \<Longrightarrow> compare_digest a a = Inr True"
  by (simp add: compare_digest_def)

lemma metadata_int_str: "jget m k = JStr (str_int v) \<Longrightarrow> in_i64 v \<Longrightarrow> metadata_int m k = Inr v"
  using py_int_str_i64 [of v]
  by (cases "v < 0") (auto simp: metadata_int_def metadata_string_def commitment_i64_iff str_int_def hd_dec)

lemma metadata_u64_str: "jget m k = JStr (str_int v) \<Longrightarrow> in_u64 v \<Longrightarrow> metadata_u64 m k = Inr v"
  by (simp add: metadata_u64_def metadata_string_def py_int_str_u64)
     (auto simp: str_int_def in_u64_def U64_MAX_def)

lemma selected_of_metadata:
  assumes "EligibleEpisode_post_init e = Inr ()"
  shows "selected_of (selection_metadata res nonce e) = Inr e"
proof -
  let ?m = "selection_metadata res nonce e"
  have "in_i64 (ep_play_start_ns e)" "in_i64 (ep_play_end_ns e)"
    using assms by (auto simp: EligibleEpisode_post_init_def commitment_i64_iff)
  then have "metadata_int ?m ''selected_play_start_ns'' = Inr (ep_play_start_ns e)"
    "metadata_int ?m ''selected_play_end_ns'' = Inr (ep_play_end_ns e)"
    by (auto intro!: metadata_int_str simp: selection_metadata_def jget_def)
  moreover have "metadata_string ?m ''selected_episode_id'' = Inr (ep_episode_id e)"
    "metadata_string ?m ''selected_manifest_hash'' = Inr (ep_manifest_hash e)"
    by (simp_all add: selection_metadata_def metadata_string_def jget_def)
  moreover have "\<lparr>ep_episode_id = ep_episode_id e, ep_manifest_hash = ep_manifest_hash e,
      ep_play_start_ns = ep_play_start_ns e, ep_play_end_ns = ep_play_end_ns e\<rparr> = e" by simp
  ultimately show ?thesis using assms by (simp only: selected_of_def Let_def bindR_simps)
qed

definition proof_of :: "SelectionResult \<Rightarrow> bytes \<Rightarrow> bytes \<Rightarrow> EligibleEpisode \<Rightarrow> CompletionProof" where
  "proof_of res secret nonce e = \<lparr>cp_algorithm_version = ALGORITHM_VERSION, cp_commitment_hash = se_commitment_hash res,
     cp_setup_hash = se_setup_hash res, cp_eligible_set_hash = se_eligible_set_hash res, cp_secret_hex = hex secret,
     cp_player_nonce_hex = hex nonce, cp_selected_index = int (se_selected_index res),
     cp_draw_counter = int (se_draw_counter res), cp_selected_episode = e\<rparr>"

definition sealed_row :: "SelectionResult \<Rightarrow> bytes \<Rightarrow> EligibleEpisode \<Rightarrow> string \<Rightarrow> string \<Rightarrow> string \<Rightarrow> commitment_row" where
  "sealed_row res nonce e sealed k i = \<lparr>k_commitment_id = k, k_session_id = i, k_kind = KIND,
     k_algorithm_version = ALGORITHM_VERSION, k_commitment_hash = se_commitment_hash res,
     k_setup_hash = se_setup_hash res, k_eligible_set_hash = se_eligible_set_hash res,
     k_metadata_json = JObj (selection_metadata res nonce e), k_sealed_secret = sealed, k_revealed_secret = None\<rparr>"

lemma derived_hashes:
  assumes "derive_selection s es secret nonce = Inr res"
  shows "is_sha256_hex (se_setup_hash res)" "is_sha256_hex (se_eligible_set_hash res)" "is_sha256_hex (se_commitment_hash res)"
proof -
  note d = derive_selectionD [OF assms]
  show "is_sha256_hex (se_setup_hash res)" "is_sha256_hex (se_eligible_set_hash res)"
    using d(3,4) by (auto intro: hashes_valid)
  from d(5) [unfolded commitment_hash_eq [OF this]] show "is_sha256_hex (se_commitment_hash res)"
    by (metis sha256_hex_valid sum.inject(2))
qed

lemma reveal_sealed_row:
  assumes cipher: "aead_ok c" and der: "derive_selection s es secret nonce = Inr res"
    and sealed: "seal_secret c n i k secret = Inr t" and e: "EligibleEpisode_post_init e = Inr ()"
    and len: "length es < 2 ^ 64" and x: "x = None \<or> x = Some (hex secret)"
  shows "reveal_row c i ((sealed_row res nonce e t k i)\<lparr>k_revealed_secret := x\<rparr>) = Inr (proof_of res secret nonce e)"
proof -
  note d = derive_selectionD [OF der] and h = derived_hashes [OF der]
  let ?m = "selection_metadata res nonce e"
  have m: "metadata_string ?m ''player_nonce_hex'' = Inr (hex nonce)"
    by (simp add: selection_metadata_def metadata_string_def jget_def)
  have "se_selected_index res < length es" "se_draw_counter res < 2 ^ 64" using draw_index_bounds [OF d(6)] by blast+
  then have u: "metadata_u64 ?m ''selected_index'' = Inr (int (se_selected_index res))"
    "metadata_u64 ?m ''draw_counter'' = Inr (int (se_draw_counter res))"
    using len by (auto intro!: metadata_u64_str simp: selection_metadata_def jget_def in_u64_def U64_MAX_def)
  have rev: "(case x of None \<Rightarrow> Inr () | Some stored \<Rightarrow> bindR (compare_digest stored (hex secret)) (\<lambda>same.
      require same CommitmentVerificationError)) = Inr ()"
    using x isascii_hex [OF hex_chars] by auto
  show ?thesis
    unfolding reveal_row_def Let_def
    using unseal_seal [OF cipher sealed d(1)] rev m u selected_of_metadata [OF e] d(5) isascii_sha [OF h(3)]
    by (simp add: sealed_row_def proof_of_def metadata_fields_def)
qed

lemma verify_proof_of:
  assumes der: "derive_selection s es secret nonce = Inr res"
  shows "verify_completion_proof s es (proof_of res secret nonce (es ! se_selected_index res)) = Inr (es ! se_selected_index res)"
proof -
  note h = derived_hashes [OF der, THEN isascii_sha]
  have "se_selected_index res < length es" using draw_index_bounds [OF derive_selectionD(6) [OF der]] by blast
  with der h show ?thesis by (simp add: verify_completion_proof_def proof_of_def Let_def)
qed

text \<open>What the service writes.\<close>

lemma prepareD:
  assumes "prepare_episode_selection c secret n k i p s es nonce d = Inr (ps, d')"
  obtains res t row where "derive_selection s es secret nonce = Inr res" "seal_secret c n i k secret = Inr t"
    "session_by_id d i = Some row" "s_principal_id row = p" "s_status row = ''SETUP''"
    "ps_selected_episode ps = es ! se_selected_index res"
    "list_all (\<lambda>q. k_commitment_id q \<noteq> k \<and> (k_session_id q, k_kind q) \<noteq> (i, KIND)) (db_commitments d)"
    "d' = d\<lparr>db_commitments := db_commitments d @ [sealed_row res nonce (es ! se_selected_index res) t k i]\<rparr>"
    "pu_commitment_hash (ps_public_commitment ps) = se_commitment_hash res"
proof -
  from assms obtain res t pc d2 where der: "derive_selection s es secret nonce = Inr res"
    and sealed: "seal_secret c n i k secret = Inr t"
    and req: "require_session d i p (Some ''SETUP'') = Inr ()"
    and ins: "insert_commitment (sealed_row res nonce (es ! se_selected_index res) t k i) d = Inr d2"
    and eq: "\<lparr>ps_public_commitment = pc, ps_selected_episode = es ! se_selected_index res\<rparr> = ps" "d2 = d'"
    and pc: "pu_commitment_hash pc = se_commitment_hash res"
    unfolding prepare_episode_selection_def Let_def bindR_eq_Inr catchR_simps(3) sealed_row_def [symmetric] sum.inject(2) prod.inject
    by (elim exE conjE) (rule that, (assumption | simp)+)
  have ps: "ps_selected_episode ps = es ! se_selected_index res"
    "pu_commitment_hash (ps_public_commitment ps) = se_commitment_hash res" using pc by (simp_all flip: eq(1))
  note ins = ins [unfolded eq(2)]
  from req obtain row where row: "session_by_id d i = Some row" "s_principal_id row = p" "s_status row = ''SETUP''"
    by (auto simp: require_session_def split: option.splits)
  from ins have "list_all (\<lambda>q. k_commitment_id q \<noteq> k \<and> (k_session_id q, k_kind q) \<noteq> (i, KIND)) (db_commitments d)"
    "d' = d\<lparr>db_commitments := db_commitments d @ [sealed_row res nonce (es ! se_selected_index res) t k i]\<rparr>"
    by (auto simp: insert_commitment_def sealed_row_def)
  from that [OF der sealed row ps(1) this ps(2)] show ?thesis .
qed

lemma revealD:
  assumes "reveal_completed c i p d = Inr (pf, d')"
  obtains row srow where "commitment_by_session d i = Some row" "reveal_row c i row = Inr pf"
    "session_by_id d i = Some srow" "s_principal_id srow = p" "s_status srow = ''COMPLETED''"
    "d' = reveal_update row (cp_secret_hex pf) d"
  using assms by (auto simp: reveal_completed_def require_session_def case_option_Inr split: option.splits)

inductive commitment_step :: "aead \<Rightarrow> db \<Rightarrow> db \<Rightarrow> bool" for c where
  commitment_service: "service_step d d' \<Longrightarrow> commitment_step c d d'"
| commitment_prepare: "prepare_episode_selection c secret n k i p s es nonce d = Inr (ps, d') \<Longrightarrow> commitment_step c d d'"
| commitment_reveal: "reveal_completed c i p d = Inr (pf, d') \<Longrightarrow> commitment_step c d d'"

definition completed :: "db \<Rightarrow> string \<Rightarrow> bool" where
  "completed d i \<longleftrightarrow> (\<exists>row. session_by_id d i = Some row \<and> s_status row = ''COMPLETED'')"

definition commitments_inv :: "db \<Rightarrow> bool" where
  "commitments_inv d \<longleftrightarrow> sessions_inv d \<and> distinct (map k_commitment_id (db_commitments d)) \<and>
     distinct (map (\<lambda>r. (k_session_id r, k_kind r)) (db_commitments d)) \<and>
     (\<forall>r\<in>set (db_commitments d). k_kind r = KIND \<and> (k_revealed_secret r \<noteq> None \<longrightarrow> completed d (k_session_id r)))"

lemma completed_iff:
  assumes "sessions_inv d"
  shows "completed d i \<longleftrightarrow> (\<exists>r. session_state d i = Some r \<and> rec_status r = COMPLETED)"
proof
  assume "completed d i"
  then obtain row where row: "session_by_id d i = Some row" "s_status row = ''COMPLETED''" by (auto simp: completed_def)
  with assms obtain r where r: "session_state d i = Some r" unfolding sessions_inv_def by blast
  then obtain row' where "session_by_id d i = Some row'" "s_status row' = SessionStatus_value (rec_status r)"
    by (rule session_row)
  with row have "SessionStatus_value (rec_status r) = SessionStatus_value COMPLETED" by simp
  then show "\<exists>r. session_state d i = Some r \<and> rec_status r = COMPLETED" using r SessionStatus_value_inject by blast
next
  assume "\<exists>r. session_state d i = Some r \<and> rec_status r = COMPLETED"
  then obtain r where r: "session_state d i = Some r" "rec_status r = COMPLETED" by blast
  from r(1) obtain row where "session_by_id d i = Some row" "s_status row = SessionStatus_value (rec_status r)"
    by (rule session_row)
  with r(2) show "completed d i" by (simp add: completed_def)
qed

lemma service_step_session:
  assumes "service_step d d'" and "sessions_inv d"
  shows "sessions_inv d'" "session_state d i = Some r \<Longrightarrow> \<exists>r'. session_state d' i = Some r' \<and> evolves r r'"
proof -
  have ref: "refines_step d d'" using assms service_step_refines by blast
  then show "sessions_inv d'" using refines_inv assms(2) by blast
  show "session_state d i = Some r \<Longrightarrow> \<exists>r'. session_state d' i = Some r' \<and> evolves r r'"
    using ref lifecycle_step_evolves unfolding refines_step_def by blast
qed

lemma completed_service: "service_step d d' \<Longrightarrow> sessions_inv d \<Longrightarrow> completed d i \<Longrightarrow> completed d' i"
  using service_step_session [of d d'] completed_iff [of d i] completed_iff [of d' i] by (fastforce simp: evolves_def)

lemma service_commitments: "service_step d d' \<Longrightarrow> db_commitments d' = db_commitments d"
  using service_step_frame [of d d'] by (simp add: side_tables_def)

text \<open>A stored commitment changes only by the reveal of the secret it seals.\<close>

definition row_later :: "aead \<Rightarrow> commitment_row \<Rightarrow> commitment_row \<Rightarrow> bool" where
  "row_later c row row' \<longleftrightarrow> row' = row \<or> (\<exists>secret.
     unseal_secret c (k_session_id row) (k_commitment_id row) (k_sealed_secret row) = Inr secret \<and>
     row' = row\<lparr>k_revealed_secret := Some (hex secret)\<rparr>)"

lemma row_later_trans: "row_later c a b \<Longrightarrow> row_later c b e \<Longrightarrow> row_later c a e"
  unfolding row_later_def by auto

lemma reveal_row_secret:
  assumes "reveal_row c i row = Inr pf"
  obtains secret where "unseal_secret c i (k_commitment_id row) (k_sealed_secret row) = Inr secret" "cp_secret_hex pf = hex secret"
  using assms unfolding reveal_row_def Let_def bindR_eq_Inr sum.inject(2)
  by (elim exE conjE) (rule that, assumption, drule arg_cong [of _ _ cp_secret_hex], simp)

lemma find_map_key: "(\<And>x. P (f x) = P x) \<Longrightarrow> find P (map f xs) = map_option f (find P xs)"
  by (induction xs) auto

lemma commitment_by_sessionD:
  assumes "commitment_by_session d i = Some row"
  shows "row \<in> set (db_commitments d)" "k_session_id row = i" "k_kind row = KIND"
  using assms by (auto simp: commitment_by_session_def dest: find_SomeD)

lemma reveal_rows:
  assumes "reveal_completed c i p d = Inr (pf, d')" and "distinct (map k_commitment_id (db_commitments d))"
  obtains f where "d' = d\<lparr>db_commitments := map f (db_commitments d)\<rparr>" "\<And>r. f r = r\<lparr>k_revealed_secret := k_revealed_secret (f r)\<rparr>"
    "\<And>r. r \<in> set (db_commitments d) \<Longrightarrow> row_later c r (f r)"
    "\<And>r. r \<in> set (db_commitments d) \<Longrightarrow> f r \<noteq> r \<Longrightarrow> k_session_id r = i"
proof -
  obtain row srow where row: "commitment_by_session d i = Some row" and pf: "reveal_row c i row = Inr pf"
    and d': "d' = reveal_update row (cp_secret_hex pf) d" by (rule revealD [OF assms(1)])
  obtain secret where sec: "unseal_secret c i (k_commitment_id row) (k_sealed_secret row) = Inr secret"
    "cp_secret_hex pf = hex secret" by (rule reveal_row_secret [OF pf])
  let ?f = "\<lambda>r. if k_revealed_secret row = None \<and> k_commitment_id r = k_commitment_id row
      then r\<lparr>k_revealed_secret := Some (hex secret)\<rparr> else r"
  note key = commitment_by_sessionD [OF row]
  have same: "r = row" if "r \<in> set (db_commitments d)" "k_commitment_id r = k_commitment_id row" for r
    using that key(1) assms(2) by (auto simp: distinct_map inj_on_def)
  show ?thesis
  proof (rule that [of ?f])
    show "d' = d\<lparr>db_commitments := map ?f (db_commitments d)\<rparr>" by (auto simp: d' reveal_update_def sec(2))
    show "?f r = r\<lparr>k_revealed_secret := k_revealed_secret (?f r)\<rparr>" for r by simp
    show "row_later c r (?f r)" if "r \<in> set (db_commitments d)" for r
      using same [OF that] sec(1) key(2) by (auto simp: row_later_def)
    show "k_session_id r = i" if "r \<in> set (db_commitments d)" "?f r \<noteq> r" for r
      using same [OF that(1)] that(2) key(2) by (auto split: if_splits)
  qed
qed

lemma prepare_completed_frame:
  "completed (d\<lparr>db_commitments := ks\<rparr>) i = completed d i" "sessions_inv (d\<lparr>db_commitments := ks\<rparr>) = sessions_inv d"
  "session_state (d\<lparr>db_commitments := ks\<rparr>) = session_state d"
  using core_frame [of "d\<lparr>db_commitments := ks\<rparr>" d] by (simp_all add: completed_def core_tables_def)

lemma commitment_step_inv:
  assumes "commitment_step c d d'" and inv: "commitments_inv d"
  shows "commitments_inv d'"
  using assms(1)
proof cases
  case commitment_service
  have s: "sessions_inv d" using inv by (simp add: commitments_inv_def)
  show ?thesis
    using inv service_step_session(1) [OF commitment_service s] completed_service [OF commitment_service s]
    unfolding commitments_inv_def service_commitments [OF commitment_service] by blast
next
  case (commitment_prepare secret n k i p s es nonce ps)
  then obtain row where fresh: "list_all (\<lambda>q. k_commitment_id q \<noteq> k \<and> (k_session_id q, k_kind q) \<noteq> (i, KIND)) (db_commitments d)"
    and d': "d' = d\<lparr>db_commitments := db_commitments d @ [row]\<rparr>"
    and row: "k_commitment_id row = k" "k_session_id row = i" "k_kind row = KIND" "k_revealed_secret row = None"
    by (rule prepareD) (simp add: sealed_row_def)
  have "k \<notin> k_commitment_id ` set (db_commitments d)" "(i, KIND) \<notin> (\<lambda>r. (k_session_id r, k_kind r)) ` set (db_commitments d)"
    using fresh by (auto simp: list_all_iff)
  with inv row show ?thesis unfolding commitments_inv_def d' prepare_completed_frame by auto
next
  case (commitment_reveal i p pf)
  have dist: "distinct (map k_commitment_id (db_commitments d))" using inv by (simp add: commitments_inv_def)
  obtain f where f: "d' = d\<lparr>db_commitments := map f (db_commitments d)\<rparr>" "\<And>r. f r = r\<lparr>k_revealed_secret := k_revealed_secret (f r)\<rparr>"
    "\<And>r. r \<in> set (db_commitments d) \<Longrightarrow> f r \<noteq> r \<Longrightarrow> k_session_id r = i"
    by (rule reveal_rows [OF commitment_reveal dist]) blast
  have key: "k_commitment_id (f r) = k_commitment_id r" "k_session_id (f r) = k_session_id r" "k_kind (f r) = k_kind r" for r
    by (subst f(2), simp)+
  have "completed d i" using revealD [OF commitment_reveal] by (metis completed_def)
  then have "completed d (k_session_id r)" if "r \<in> set (db_commitments d)" "k_revealed_secret (f r) \<noteq> None" for r
    using f(3) [OF that(1)] that inv unfolding commitments_inv_def by metis
  with inv show ?thesis unfolding commitments_inv_def f(1) prepare_completed_frame by (simp add: comp_def key)
qed

lemma commitment_step_row:
  assumes "commitment_step c d d'" and inv: "commitments_inv d" and row: "commitment_by_session d i = Some row"
  shows "\<exists>row'. commitment_by_session d' i = Some row' \<and> row_later c row row'"
  using assms(1)
proof cases
  case commitment_service
  then show ?thesis using row service_commitments by (simp add: commitment_by_session_def row_later_def)
next
  case (commitment_prepare secret n k j p s es nonce ps)
  then obtain r where "db_commitments d' = db_commitments d @ [r]" by (rule prepareD) simp
  then show ?thesis using row by (auto simp: commitment_by_session_def row_later_def find_append split: option.splits)
next
  case (commitment_reveal j p pf)
  have dist: "distinct (map k_commitment_id (db_commitments d))" using inv by (simp add: commitments_inv_def)
  obtain f where f: "d' = d\<lparr>db_commitments := map f (db_commitments d)\<rparr>" "\<And>r. f r = r\<lparr>k_revealed_secret := k_revealed_secret (f r)\<rparr>"
    "\<And>r. r \<in> set (db_commitments d) \<Longrightarrow> row_later c r (f r)"
    by (rule reveal_rows [OF commitment_reveal dist]) blast
  have "k_session_id (f r) = k_session_id r" "k_kind (f r) = k_kind r" for r by (subst f(2), simp)+
  then have "commitment_by_session d' i = map_option f (commitment_by_session d i)"
    unfolding commitment_by_session_def f(1) by (simp add: find_map_key)
  with row f(3) commitment_by_sessionD(1) [OF row] show ?thesis by simp
qed

lemma commitment_step_session:
  assumes "commitment_step c d d'" and "sessions_inv d" and "session_state d i = Some r"
  shows "\<exists>r'. session_state d' i = Some r' \<and> evolves r r'"
  using assms(1)
proof cases
  case commitment_service
  then show ?thesis using service_step_session(2) assms(2,3) by blast
next
  case (commitment_prepare secret n k j p s es nonce ps)
  then have "session_state d' = session_state d" by (rule prepareD) (simp add: prepare_completed_frame)
  with assms(3) evolves_refl show ?thesis by simp
next
  case (commitment_reveal j p pf)
  then obtain row where "d' = reveal_update row (cp_secret_hex pf) d" by (rule revealD)
  then have "session_state d' = session_state d" by (simp add: reveal_update_def prepare_completed_frame)
  with assms(3) evolves_refl show ?thesis by simp
qed

lemma commitment_steps:
  assumes "(commitment_step c)\<^sup>*\<^sup>* d d'" and "commitments_inv d"
  shows "commitments_inv d' \<and> (\<forall>i row. commitment_by_session d i = Some row \<longrightarrow>
      (\<exists>row'. commitment_by_session d' i = Some row' \<and> row_later c row row')) \<and>
    (\<forall>i r. session_state d i = Some r \<longrightarrow> (\<exists>r'. session_state d' i = Some r' \<and> evolves r r'))"
  using assms
proof (induction rule: rtranclp_induct)
  case base
  then show ?case using evolves_refl by (auto simp: row_later_def)
next
  case (step d1 d2)
  then have inv: "commitments_inv d1" by blast
  then have s: "sessions_inv d1" by (simp add: commitments_inv_def)
  note row = commitment_step_row [OF step(2) inv] and st = commitment_step_session [OF step(2) s]
  show ?case
  proof (intro conjI allI impI)
    show "commitments_inv d2" by (rule commitment_step_inv [OF step(2) inv])
    show "\<exists>row'. commitment_by_session d2 i = Some row' \<and> row_later c row row'" if "commitment_by_session d i = Some row" for i row
      using step that row row_later_trans by blast
    show "\<exists>r'. session_state d2 i = Some r' \<and> evolves r r'" if "session_state d i = Some r" for i r
      using step that st evolves_trans by blast
  qed
qed

lemma commitments_init: "commitments_inv create_schema"
  using create_schema_inv by (simp add: commitments_inv_def create_schema_def)

text \<open>C18: safety. The selection secret is not shown early: along every interleaving of session operations, preparations
  and reveals from the empty database, the public view of a commitment carries a secret only if its session is
  completed.\<close>

theorem secret_hidden_until_completed:
  assumes "(commitment_step c)\<^sup>*\<^sup>* create_schema d" and "get_public d i p = Inr pu"
  shows "pu_revealed_secret_hex pu = None \<or> (\<exists>r. get_session d i p = Inr r \<and> rec_status r = COMPLETED)"
proof (rule disjCI)
  assume "\<not> (\<exists>r. get_session d i p = Inr r \<and> rec_status r = COMPLETED)"
  have inv: "commitments_inv d" using commitment_steps [OF assms(1) commitments_init] by blast
  then have s: "sessions_inv d" by (simp add: commitments_inv_def)
  from assms(2) obtain row srow where row: "commitment_by_session d i = Some row" "pu_revealed_secret_hex pu = k_revealed_secret row"
    and srow: "session_by_id d i = Some srow" "s_principal_id srow = p"
    by (auto simp: get_public_def require_session_def case_option_Inr split: option.splits)
  show "pu_revealed_secret_hex pu = None"
  proof (rule ccontr)
    assume "pu_revealed_secret_hex pu \<noteq> None"
    then have "completed d i" using inv commitment_by_sessionD [OF row(1)] row(2) unfolding commitments_inv_def by metis
    then obtain r where r: "session_state d i = Some r" "rec_status r = COMPLETED" using completed_iff [OF s] by blast
    obtain row' where "session_by_id d i = Some row'" "s_principal_id row' = rec_principal_id r" by (rule session_row [OF r(1)])
    with srow have "get_session d i p = Inr r" using r(1) by (simp add: get_session_def materialize_iff)
    with r(2) \<open>\<not> (\<exists>r. get_session d i p = Inr r \<and> rec_status r = COMPLETED)\<close> show False by blast
  qed
qed

lemma principal_kept:
  assumes "(commitment_step c)\<^sup>*\<^sup>* d d'" and "commitments_inv d"
    and "session_by_id d i = Some row" and "session_by_id d' i = Some row'"
  shows "s_principal_id row' = s_principal_id row"
proof -
  obtain r where r: "session_state d i = Some r" using assms(2,3) by (auto simp: commitments_inv_def sessions_inv_def)
  then obtain r' where r': "session_state d' i = Some r'" "evolves r r'" using commitment_steps [OF assms(1,2)] by blast
  have "s_principal_id row = rec_principal_id r" using session_row [OF r] assms(3) by (metis option.inject)
  moreover have "s_principal_id row' = rec_principal_id r'" using session_row [OF r'(1)] assms(4) by (metis option.inject)
  ultimately show ?thesis using r'(2) by (simp add: evolves_def)
qed


text \<open>A proof whose setup hash has a character outside ASCII is not refused as unverified: the digest comparison raises
  instead.\<close>

lemma verify_non_ascii_raises:
  assumes "derive_selection s es secret nonce = Inr res" and "cp_algorithm_version p = ALGORITHM_VERSION"
    and "cp_secret_hex p = hex secret" and "cp_player_nonce_hex p = hex nonce" and "\<not> isascii (cp_setup_hash p)"
  shows "verify_completion_proof s es p = Inl TypeError"
  using assms by (simp add: verify_completion_proof_def compare_digest_def)

section \<open>Witnesses\<close>

definition demo_aead :: aead where
  "demo_aead = \<lparr>aead_encrypt = \<lambda>n p a. p @ replicate 16 0, aead_decrypt = \<lambda>n x a. Inr (take (length x - 16) x)\<rparr>"

definition demo_selection :: SelectionSetup where
  "demo_selection = \<lparr>ss_instrument_id = ''BTC-USDT'', ss_ruleset_hash = demo_hash, ss_execution_tier = ''F1'', ss_warmup_ns = 50,
     ss_duration_ns = 400, ss_visibility_mode = ''RELATIVE'', ss_required_capabilities = [], ss_allowed_redistribution = [],
     ss_allow_degraded = False\<rparr>"

definition demo_episode :: EligibleEpisode where
  "demo_episode = \<lparr>ep_episode_id = ''ep1'', ep_manifest_hash = demo_hash, ep_play_start_ns = 300, ep_play_end_ns = 700\<rparr>"

lemma demo_aead_ok: "aead_ok demo_aead"
  by (simp add: aead_ok_def demo_aead_def)

lemma demo_hash_valid: "is_sha256_hex demo_hash"
  by code_simp

lemma draw_index_single:
  assumes "is_sha256_hex a" and "is_sha256_hex b"
  shows "draw_index secret a b nonce 1 = Inr (0, 0)"
proof -
  have "from_bytes (hmac_sha256 k m) < draw_space" for k m
    using from_bytes_less [of "hmac_sha256 k m"] by (simp add: draw_space_def)
  then have "draw_accept 1 (from_bytes (hmac_sha256 k m)) = Some 0" for k m by (simp add: draw_accept_def draw_limit_def)
  then have "draw_loop (\<lambda>counter. from_bytes (hmac_sha256 k (m counter))) 1 0 = Inr (0, 0)" for k m
    by (subst draw_loop.simps) simp
  then show ?thesis using enc_hash_bytes [OF assms(1)] enc_hash_bytes [OF assms(2)] by (simp add: draw_index_def)
qed

lemma demo_derive:
  assumes "length secret = 32"
  obtains res where "derive_selection demo_selection [demo_episode] secret [] = Inr res" "se_selected_index res = 0"
proof -
  have "fromhex demo_hash = Inr (enc_hash demo_hash)" using enc_hash_bytes [OF demo_hash_valid] by blast
  then obtain a b where ab: "selection_setup_hash demo_selection = Inr a" "eligible_set_hash [demo_episode] = Inr b"
    by (simp add: selection_setup_hash_def canonical_setup_bytes_def demo_selection_def commitment_text_def
        commitment_i64_bytes_def commitment_i64_def commitment_strings_def range_defs eligible_set_hash_def
        canonical_eligible_bytes_def demo_episode_def episode_bytes_def)
  note v = hashes_valid(1) [OF ab(1)] hashes_valid(2) [OF ab(2)]
  have "derive_selection demo_selection [demo_episode] secret [] =
      Inr \<lparr>se_setup_hash = a, se_eligible_set_hash = b, se_commitment_hash = sha256_hex (ascii ''trl:episode-commitment:v1'' @
        secret @ enc_hash a @ enc_hash b @ len_prefixed []), se_selected_index = 0, se_draw_counter = 0\<rparr>"
    using ab draw_index_single [OF v, of secret "[]"] commitment_hash_eq [OF v, of secret "[]"]
    by (simp add: derive_selection_def assms validate_player_nonce_def MAX_PLAYER_NONCE_BYTES_def)
  then show ?thesis by (rule that) simp
qed

lemma utf8_length: "length (utf8 s) \<le> 2 * length s"
  by (induction s) (simp_all add: utf8_Cons utf8_char_def utf8_def [of "[]"])

lemma text_fits_short: "length s \<le> 1000 \<Longrightarrow> text_fits s"
  using utf8_length [of s] by (simp add: text_fits_def)

lemma demo_valid:
  "SelectionSetup_post_init demo_selection = Inr ()" "setup_fits demo_selection"
  "EligibleEpisode_post_init demo_episode = Inr ()" "episodes_valid [demo_episode]"
proof -
  have "commitment_sha256 demo_hash = Inr ()" by (simp add: commitment_sha256_iff demo_hash_valid)
  then show "SelectionSetup_post_init demo_selection = Inr ()" "EligibleEpisode_post_init demo_episode = Inr ()"
    by (simp_all add: SelectionSetup_post_init_def demo_selection_def commitment_i64_def range_defs require_canonical_strings_def
        EligibleEpisode_post_init_def demo_episode_def)
  have "text_fits ''BTC-USDT''" "text_fits ''F1''" "text_fits ''RELATIVE''" "text_fits ''ep1''" by (simp_all add: text_fits_short)
  moreover have "length (utf8 ''ep1'') \<le> 6" using utf8_length [of "''ep1''"] by simp
  ultimately
  show "setup_fits demo_selection" "episodes_valid [demo_episode]"
    using enc_hash_bytes [OF demo_hash_valid] demo_hash_valid
    by (simp_all add: setup_fits_def demo_selection_def strings_fit_def episodes_valid_def episode_valid_def demo_episode_def
        episode_content_def enc_text_def len_prefixed_def enc_u64_def text_fits_def range_defs)
qed

lemma fromhex_space: "fromhex (CHR '' '' # s) = fromhex s"
  by (subst (1 2) fromhex.simps) (simp add: ascii_space_def)


text \<open>The demonstration session, with whatever commitments beside it, can be played to its end.\<close>

definition live :: "db \<Rightarrow> bool" where
  "live d \<longleftrightarrow> sessions_inv d \<and> all_sealed d \<and> rows_ok d"

lemma live_step: "service_step d d' \<Longrightarrow> live d \<Longrightarrow> live d'"
  unfolding live_def
  using service_step_session(1) [of d d'] service_step_sealed [of d d'] service_step_rows [of d d'] sessions_inv_log [of d] by blast

lemma demo_live:
  assumes core: "core_tables d = core_tables demo_created"
  shows "live d" "session_state d ''s1'' = Some demo_record" "session_events d ''s1'' = []" "raw_events d ''s1'' = []"
    "\<exists>d1. persist_ruleset demo_request d = Inr d1"
proof -
  have "session_events demo_created ''s1'' = []" by code_simp
  then show "session_state d ''s1'' = Some demo_record" "session_events d ''s1'' = []"
    using core_frame [OF core] demo_state by simp_all
  have "all_sealed d" using all_sealed_cong [of d demo_created] core service_reach_sealed [OF demo_reach] by (simp add: core_tables_def)
  moreover have "rows_ok d" using service_reach_rows [OF demo_reach] session_row_ok_cong [of d demo_created] core
    by (simp add: rows_ok_def core_tables_def)
  ultimately show "live d" using core_frame(4) [OF core] service_reach_inv [OF demo_reach] by (simp add: live_def)
  show "raw_events d ''s1'' = []" using core by (simp add: core_tables_def raw_events_def demo_created_def create_schema_def)
  show "\<exists>d1. persist_ruleset demo_request d = Inr d1"
    using core by (simp add: persist_ruleset_def ruleset_body_def demo_request_def demo_rules_def demo_created_def create_schema_def
        ruleset_by_id_def core_tables_def)
qed

definition demo_ruleset_row :: ruleset_row where
  "demo_ruleset_row = \<lparr>r_ruleset_id = ''crypto'', r_ruleset_version = ''1'', r_ruleset_hash = demo_hash, r_body_json = JObj []\<rparr>"

lemma demo_ruleset:
  assumes core: "core_tables d = core_tables demo_created" and "commit cat i p v demo_request d = Inr (r, d')"
  shows "ruleset_by_id d' ''crypto'' = Some demo_ruleset_row"
proof -
  from assms(2) obtain d1 d2 w ts pl q f where per: "persist_ruleset demo_request d = Inr d1"
    and "append_event i ''SESSION_COMMITTED'' ts pl w d1 = Inr d2" "update_sessions q f d2 = Inr (1, d')"
    by (auto simp: commit_def)
  then have "db_rulesets d' = db_rulesets d1" by (simp add: rulesets_writes(2,3))
  moreover have "db_rulesets d1 = [demo_ruleset_row]"
    using per core by (auto simp: persist_ruleset_def ruleset_body_def demo_request_def demo_rules_def demo_created_def create_schema_def
        ruleset_by_id_def core_tables_def demo_ruleset_row_def)
  ultimately show ?thesis by (simp add: ruleset_by_id_def demo_ruleset_row_def)
qed

lemma demo_starts:
  assumes nc: "\<not> sha256_collision" and core: "core_tables d = core_tables demo_created"
  obtains r d' where "service_step\<^sup>*\<^sup>* d d'" "live d'" "session_state d' ''s1'' = Some r" "rec_status r = RUNNING" "rec_version r = 2"
    "rec_principal_id r = ''alice''" "rec_setup r = Some (committed_setup demo_catalog demo_request)"
    "rec_logical_time_ns r = Some 300" "length (session_events d' ''s1'') = 2" "ruleset_by_id d' ''crypto'' = Some demo_ruleset_row"
proof -
  note d = demo_live [OF core]
  have inv: "sessions_inv d" using d(1) by (simp add: live_def)
  obtain r1 d1 where c: "commit demo_catalog ''s1'' ''alice'' 0 demo_request d = Inr (r1, d1)"
    using commit_progress [OF inv d(2) _ _ _ _ d(4) demo_commit_ok(1) _ demo_setup_valid, where p = "''alice''" and v = 0] d(5)
    by (auto simp: demo_record_def U64_MAX_def)
  have live1: "live d1" by (rule live_step [OF step_commit [OF c] d(1)])
  have r1: "session_state d1 ''s1'' = Some r1" "r1 = demo_record\<lparr>rec_status := COMMITTED, rec_version := 0 + 1,
      rec_setup := Some (committed_setup demo_catalog demo_request), rec_logical_time_ns := Some 300\<rparr>"
    by (rule commit_spec [OF inv c]; use d(2) in \<open>simp add: demo_record_def demo_request_def\<close>)+
  obtain e where e: "session_events d1 ''s1'' = [e]" using commit_events [OF sessions_inv_log [OF inv] c] d(3) by auto
  obtain r2 d2 where s: "start ''s1'' ''alice'' 1 d1 = Inr (r2, d2)"
    using status_transition_progress [of d1 "''s1''" r1 "''alice''" 1 "{COMMITTED, PAUSED}" "''SESSION_STARTED''" RUNNING] nc live1 r1 e
    by (auto simp: start_def U64_MAX_def live_def demo_record_def)
  have inv1: "sessions_inv d1" using live1 by (simp add: live_def)
  have "session_state d2 ''s1'' = Some r2" "r2 = r1\<lparr>rec_status := RUNNING, rec_version := rec_version r1 + 1\<rparr>"
    by (rule status_transition_spec [OF inv1 s [unfolded start_def]]; use r1(1) in simp)+
  moreover obtain e' where "session_events d2 ''s1'' = [e, e']" using start_events [OF sessions_inv_log [OF inv1] s] e by auto
  moreover have "service_step\<^sup>*\<^sup>* d d2" using step_commit [OF c] step_start [OF s] by (meson rtranclp.simps)
  moreover have "ruleset_by_id d2 ''crypto'' = Some demo_ruleset_row"
    by (rule rulesets_kept [OF service_step_rulesets [OF step_start [OF s]] demo_ruleset [OF core c]])
  ultimately show ?thesis using that [of d2 r2] live_step [OF step_start [OF s] live1] r1(2) by (simp add: demo_record_def)
qed

lemma demo_completes:
  assumes nc: "\<not> sha256_collision" and core: "core_tables d = core_tables demo_created"
  obtains r d' where "service_step\<^sup>*\<^sup>* d d'" "session_state d' ''s1'' = Some r" "rec_status r = COMPLETED"
    "rec_principal_id r = ''alice''" "rec_setup r = Some (committed_setup demo_catalog demo_request)"
    "ruleset_by_id d' ''crypto'' = Some demo_ruleset_row"
proof -
  let ?s = "committed_setup demo_catalog demo_request"
  have s: "play_end_ns ?s = 700" by (simp add: play_end_ns_def committed_setup_def demo_request_def)
  obtain r d' where d': "service_step\<^sup>*\<^sup>* d d'" "live d'" "session_state d' ''s1'' = Some r" "rec_status r = RUNNING" "rec_version r = 2"
    "rec_principal_id r = ''alice''" "rec_setup r = Some ?s" "rec_logical_time_ns r = Some 300" "length (session_events d' ''s1'') = 2"
    and rs: "ruleset_by_id d' ''crypto'' = Some demo_ruleset_row"
    by (rule demo_starts [OF nc core])
  have inv: "sessions_inv d'" using d'(2) by (simp add: live_def)
  obtain r1 d1 where adv: "advance ''s1'' ''alice'' 2 700 d' = Inr (r1, d1)"
    using advance_progress [of d' "''s1''" r "''alice''" 2 ?s 300 700] d' nc
    by (auto simp: live_def s U64_MAX_def in_i64_def range_defs)
  have live1: "live d1" by (rule live_step [OF step_advance [OF adv] d'(2)])
  have r1: "session_state d1 ''s1'' = Some r1" "r1 = r\<lparr>rec_version := rec_version r + 1, rec_logical_time_ns := Some 700\<rparr>"
    by (rule advance_spec [OF inv adv]; use d'(3) in simp)+
  obtain e where len: "session_events d1 ''s1'' = session_events d' ''s1'' @ [e]"
    using advance_events [OF sessions_inv_log [OF inv] adv] by blast
  obtain r2 d2 where comp: "complete ''s1'' ''alice'' 3 d1 = Inr (r2, d2)"
    using complete_progress [of d1 "''s1''" r1 "''alice''" 3 ?s] d' live1 r1 nc len
    by (auto simp: live_def s U64_MAX_def in_i64_def range_defs)
  have inv1: "sessions_inv d1" using live1 by (simp add: live_def)
  have "session_state d2 ''s1'' = Some r2" "rec_status r2 = COMPLETED" by (rule complete_spec [OF inv1 comp]; simp)+
  moreover have "r2 = r1\<lparr>rec_status := COMPLETED, rec_version := rec_version r1 + 1\<rparr>"
    by (rule complete_spec [OF inv1 comp]) (simp add: r1(1))
  then have "rec_principal_id r2 = ''alice''" "rec_setup r2 = Some ?s" by (simp_all add: r1(2) d'(6,7))
  moreover have "ruleset_by_id d2 ''crypto'' = Some demo_ruleset_row"
    using rulesets_kept [OF service_step_rulesets [OF step_complete [OF comp]] rulesets_kept [OF service_step_rulesets [OF step_advance [OF adv]] rs]] .
  moreover have "service_step\<^sup>*\<^sup>* d d2" using d'(1) step_advance [OF adv] step_complete [OF comp] by (meson rtranclp.simps)
  ultimately show ?thesis using that by blast
qed

lemma demo_prepare:
  obtains ps d1 where "prepare_episode_selection demo_aead (replicate 32 7) (replicate 12 1) ''c1'' ''s1'' ''alice''
      demo_selection [demo_episode] [] demo_created = Inr (ps, d1)"
    "core_tables d1 = core_tables demo_created" "ps_selected_episode ps = demo_episode"
proof -
  let ?secret = "replicate 32 7 :: bytes"
  have len: "length ?secret = 32" by simp
  then obtain res where res: "derive_selection demo_selection [demo_episode] ?secret [] = Inr res" "se_selected_index res = 0"
    by (rule demo_derive)
  obtain t where t: "seal_secret demo_aead (replicate 12 1) ''s1'' ''c1'' ?secret = Inr t"
    by (simp add: seal_secret_def associated_data_def commitment_text_def)
  have req: "require_session demo_created ''s1'' ''alice'' (Some ''SETUP'') = Inr ()" by code_simp
  have row: "session_by_id demo_created ''s1'' \<noteq> None" "db_commitments demo_created = []" by code_simp+
  have "\<exists>ps d1. prepare_episode_selection demo_aead ?secret (replicate 12 1) ''c1'' ''s1'' ''alice''
      demo_selection [demo_episode] [] demo_created = Inr (ps, d1) \<and> core_tables d1 = core_tables demo_created \<and>
      ps_selected_episode ps = demo_episode"
    using res t req row by (simp add: prepare_episode_selection_def insert_commitment_def core_tables_def Let_def)
  then show ?thesis using that by blast
qed

lemma service_commitment_steps: "service_step\<^sup>*\<^sup>* d d' \<Longrightarrow> (commitment_step c)\<^sup>*\<^sup>* d d'"
  by (induction rule: rtranclp_induct) (auto intro: commitment_service rtranclp.rtrancl_into_rtrancl)

lemma demo_commitment_reach: "(commitment_step c)\<^sup>*\<^sup>* create_schema demo_created"
  using commitment_service [OF step_create [OF demo_create_session]] by blast


theorem secret_hidden_until_completed_witness:
  "\<exists>d pu. get_public d ''s1'' ''alice'' = Inr pu \<and> pu_revealed_secret_hex pu = None"
proof -
  obtain ps d1 where prep: "prepare_episode_selection demo_aead (replicate 32 7) (replicate 12 1) ''c1'' ''s1'' ''alice''
      demo_selection [demo_episode] [] demo_created = Inr (ps, d1)"
    and core: "core_tables d1 = core_tables demo_created" by (rule demo_prepare)
  have steps: "(commitment_step demo_aead)\<^sup>*\<^sup>* create_schema d1"
    using demo_commitment_reach commitment_prepare [OF prep] by (rule rtranclp.rtrancl_into_rtrancl)
  from prep obtain row where "db_commitments d1 = [row]" "k_session_id row = ''s1''" "k_kind row = KIND"
    by (rule prepareD) (simp add: sealed_row_def demo_created_def create_schema_def)
  moreover have "require_session demo_created ''s1'' ''alice'' None = Inr ()" by code_simp
  then have "require_session d1 ''s1'' ''alice'' None = Inr ()" using core_frame(2) [OF core] by (simp add: require_session_def)
  ultimately obtain pu where pu: "get_public d1 ''s1'' ''alice'' = Inr pu"
    by (simp add: get_public_def commitment_by_session_def)
  have "get_session d1 ''s1'' ''alice'' = Inr r \<Longrightarrow> rec_status r \<noteq> COMPLETED" for r
    using core_frame(1) [OF core] demo_state by (auto simp: get_session_def materialize_iff demo_record_def)
  with secret_hidden_until_completed [OF steps pu] pu show ?thesis by blast
qed

end
