(* ===== verification/Result_Theorems.thy ===== *)
theory Result_Theorems
  imports Results Commitment_Theorems
begin

text \<open>
  Properties of finalized results: the result hash binds the whole evidence up to a collision of SHA-256, finalization
  accepts only consistent evidence of a completed session, and a stored result never changes.
\<close>

section \<open>Canonical bytes\<close>

lemma evidence_u64_iff: "evidence_u64 v = Inr b \<longleftrightarrow> in_u64 v \<and> b = enc_u64 (nat v)"
  by (auto simp: evidence_u64_def in_u64_def enc_u64_def)

lemma evidence_i64_bytes_iff: "evidence_i64_bytes v = Inr b \<longleftrightarrow> in_i64 v \<and> b = to_bytes_signed 8 v"
  by (auto simp: evidence_i64_bytes_def evidence_i64_def in_i64_def)

lemma evidence_bytes_iff: "evidence_bytes v = Inr b \<longleftrightarrow> length v < 256 ^ 8 \<and> b = len_prefixed v"
  by (auto simp: evidence_bytes_def evidence_u64_iff in_u64_def U64_MAX_def len_prefixed_def)

lemma evidence_text_iff: "evidence_text v = Inr b \<longleftrightarrow> text_fits v \<and> b = enc_text v"
  by (auto simp: evidence_text_def evidence_bytes_iff text_fits_def enc_text_def)

lemmas evidence_iffs = evidence_u64_iff evidence_i64_bytes_iff evidence_bytes_iff evidence_text_iff

lemma in_u64_nat: "in_u64 v \<Longrightarrow> nat v < 256 ^ 8"
  by (simp add: in_u64_def U64_MAX_def nat_less_iff)

definition enc_uint :: "int \<Rightarrow> bytes" where
  "enc_uint v = enc_u64 (nat v)"

interpretation uint_code: prefix_code enc_uint in_u64
proof unfold_locales
  fix x y r s
  assume v: "in_u64 x" "in_u64 y" and eq: "enc_uint x @ r = enc_uint y @ s"
  from u64.prefix [OF in_u64_nat [OF v(1)] in_u64_nat [OF v(2)] eq [unfolded enc_uint_def]] v
  show "x = y \<and> r = s" by (auto simp: in_u64_def)
qed

section \<open>Kernel inputs\<close>

definition fixed32 :: "bytes \<Rightarrow> bool" where
  "fixed32 b \<longleftrightarrow> length b = 32"

interpretation digest_code: prefix_code "\<lambda>b. b" fixed32
  by unfold_locales (auto simp: fixed32_def append_eq_append_conv)

definition input_bytes :: "CanonicalInput \<times> bytes \<Rightarrow> bytes" where
  "input_bytes = (\<lambda>(x, payload). enc_text (ci_session_id x) @ enc_uint (ci_input_seq x) @ enc_uint (ci_expected_state_version x) @
     to_bytes_signed 8 (ci_logical_ts_ns x) @ enc_text (ci_kind x) @ len_prefixed payload)"

definition input_fits :: "CanonicalInput \<times> bytes \<Rightarrow> bool" where
  "input_fits = (\<lambda>(x, payload). text_fits (ci_session_id x) \<and> in_u64 (ci_input_seq x) \<and> in_u64 (ci_expected_state_version x) \<and>
     in_i64 (ci_logical_ts_ns x) \<and> text_fits (ci_kind x) \<and> length payload < 256 ^ 8 \<and> ci_payload_hex x = hex payload)"

lemma kernel_input_bytesD:
  assumes "kernel_input_bytes x payload = Inr b" and "ci_payload_hex x = hex payload"
  shows "b = ascii ''TRL-KERNEL-INPUT-v1'' @ [0] @ input_bytes (x, payload)" "input_fits (x, payload)"
  using assms by (auto simp: kernel_input_bytes_def evidence_iffs input_bytes_def input_fits_def enc_uint_def)

lemma input_bytes_inject:
  assumes "input_fits (x, p)" and "input_fits (y, q)" and "input_bytes (x, p) = input_bytes (y, q)"
  shows "x = y"
proof -
  note fits = assms(1,2) [unfolded input_fits_def prod.case]
  note e1 = text_code.prefix [OF _ _ assms(3) [unfolded input_bytes_def prod.case]]
  note e2 = uint_code.prefix [OF _ _ e1 [THEN conjunct2]]
  note e3 = uint_code.prefix [OF _ _ e2 [THEN conjunct2]]
  note e4 = i64.prefix [OF _ _ e3 [THEN conjunct2]]
  note e5 = text_code.prefix [OF _ _ e4 [THEN conjunct2]]
  note e6 = lp.enc_inj [OF _ _ e5 [THEN conjunct2]]
  have "ci_session_id x = ci_session_id y" using e1 fits by blast
  moreover have "ci_input_seq x = ci_input_seq y" using e2 fits by blast
  moreover have "ci_expected_state_version x = ci_expected_state_version y" using e3 fits by blast
  moreover have "ci_logical_ts_ns x = ci_logical_ts_ns y" using e4 fits by blast
  moreover have "ci_kind x = ci_kind y" using e5 fits by blast
  moreover have "p = q" using e6 fits by blast
  then have "ci_payload_hex x = ci_payload_hex y" using fits by simp
  ultimately show ?thesis by simp
qed

lemma kernel_event_bytesD:
  assumes "kernel_event_bytes h n x payload = Inr b" and "ci_payload_hex x = hex payload"
  shows "b = ascii ''TRL-KERNEL-EVENT-v1'' @ [0] @ h @ enc_uint (int n) @ enc_uint (int (n + 1)) @
      to_bytes_signed 8 (ci_logical_ts_ns x) @ enc_text (ci_kind x) @ sha256 payload @
      len_prefixed (ascii ''TRL-KERNEL-INPUT-v1'' @ [0] @ input_bytes (x, payload))"
    "input_fits (x, payload)" "in_u64 (int n)" "in_u64 (int (n + 1))"
    "length (ascii ''TRL-KERNEL-INPUT-v1'' @ [0] @ input_bytes (x, payload)) < 256 ^ 8"
proof -
  from assms(1) obtain c where c: "kernel_input_bytes x payload = Inr c" "in_u64 (int n)" "in_u64 (int (n + 1))"
    "length c < 256 ^ 8" "b = ascii ''TRL-KERNEL-EVENT-v1'' @ [0] @ h @ enc_uint (int n) @ enc_uint (int (n + 1)) @
      to_bytes_signed 8 (ci_logical_ts_ns x) @ enc_text (ci_kind x) @ sha256 payload @ len_prefixed c"
    by (auto simp: kernel_event_bytes_def evidence_iffs enc_uint_def)
  note k = kernel_input_bytesD [OF c(1) assms(2)]
  show "b = ascii ''TRL-KERNEL-EVENT-v1'' @ [0] @ h @ enc_uint (int n) @ enc_uint (int (n + 1)) @
      to_bytes_signed 8 (ci_logical_ts_ns x) @ enc_text (ci_kind x) @ sha256 payload @
      len_prefixed (ascii ''TRL-KERNEL-INPUT-v1'' @ [0] @ input_bytes (x, payload))"
    "length (ascii ''TRL-KERNEL-INPUT-v1'' @ [0] @ input_bytes (x, payload)) < 256 ^ 8"
    using c(5,4) unfolding k(1) .
  show "input_fits (x, payload)" "in_u64 (int n)" "in_u64 (int (n + 1))" using k(2) c(2,3) .
qed

lemma kernel_event_bytes_inject:
  assumes "kernel_event_bytes h n x p = Inr b" and "kernel_event_bytes h' m y q = Inr b"
    and "ci_payload_hex x = hex p" and "ci_payload_hex y = hex q" and "length h = 32" and "length h' = 32"
  shows "h = h' \<and> n = m \<and> x = y"
proof -
  note fx = kernel_event_bytesD [OF assms(1,3)] and fy = kernel_event_bytesD [OF assms(2,4)]
  have "h @ enc_uint (int n) @ enc_uint (int (n + 1)) @ to_bytes_signed 8 (ci_logical_ts_ns x) @ enc_text (ci_kind x) @
      sha256 p @ len_prefixed (ascii ''TRL-KERNEL-INPUT-v1'' @ [0] @ input_bytes (x, p)) =
    h' @ enc_uint (int m) @ enc_uint (int (m + 1)) @ to_bytes_signed 8 (ci_logical_ts_ns y) @ enc_text (ci_kind y) @
      sha256 q @ len_prefixed (ascii ''TRL-KERNEL-INPUT-v1'' @ [0] @ input_bytes (y, q))"
    by (rule append_eq_append_conv [THEN iffD1, THEN conjunct2, OF disjI1 [OF refl]],
        rule append_eq_append_conv [THEN iffD1, THEN conjunct2, OF disjI1 [OF refl]],
        rule trans [OF fx(1) [symmetric] fy(1)])
  note e0 = digest_code.prefix [OF _ _ this]
  note e1 = uint_code.prefix [OF _ _ e0 [THEN conjunct2]]
  note e2 = uint_code.prefix [OF _ _ e1 [THEN conjunct2]]
  note e3 = i64.prefix [OF _ _ e2 [THEN conjunct2]]
  note e4 = text_code.prefix [OF _ _ e3 [THEN conjunct2]]
  note e5 = digest_code.prefix [OF _ _ e4 [THEN conjunct2]]
  note e6 = lp.enc_inj [OF _ _ e5 [THEN conjunct2]]
  have f32: "fixed32 h" "fixed32 h'" "fixed32 (sha256 p)" "fixed32 (sha256 q)" using assms(5,6) by (simp_all add: fixed32_def)
  note fits = fx(3-5) fy(3-5) fx(2) [unfolded input_fits_def prod.case] fy(2) [unfolded input_fits_def prod.case] f32
  have "h = h'" using e0 fits by blast
  moreover have "int n = int m" using e1 fits by blast
  moreover have "ascii ''TRL-KERNEL-INPUT-v1'' @ [0] @ input_bytes (x, p) = ascii ''TRL-KERNEL-INPUT-v1'' @ [0] @ input_bytes (y, q)"
    using e6 fits by blast
  then have "x = y" using input_bytes_inject [OF fx(2) fy(2)] by simp
  ultimately show ?thesis by simp
qed

lemma kernel_events_snoc:
  assumes "kernel_events s n h (xs @ [x]) = Inr (evs, f)"
  obtains evs' h' payload b where "kernel_events s n h xs = Inr (evs', h')" "fromhex (ci_payload_hex x) = Inr payload"
    "kernel_event_bytes h' (n + length xs) x payload = Inr b" "f = sha256 b"
  using assms
proof (induction xs arbitrary: n h evs thesis)
  case Nil
  then show ?case by (auto simp: Let_def)
next
  case (Cons y ys)
  from Cons.prems(2) obtain payload b evs1 where y: "ci_session_id y = s" "ci_input_seq y = int n" "ci_expected_state_version y = int n"
    "fromhex (ci_payload_hex y) = Inr payload" "kernel_event_bytes h n y payload = Inr b"
    and rest: "kernel_events s (n + 1) (sha256 b) (ys @ [x]) = Inr (evs1, f)"
    by (auto simp: Let_def)
  show ?case
    by (rule Cons.IH [OF _ rest]) (rule Cons.prems(1), use y in \<open>simp_all add: Let_def\<close>)
qed

lemma kernel_events_length: "kernel_events s n h xs = Inr (evs, f) \<Longrightarrow> length h = 32 \<Longrightarrow> length f = 32"
  by (induction xs arbitrary: n h evs) (auto simp: Let_def)

definition input_ok :: "CanonicalInput \<Rightarrow> bool" where
  "input_ok x \<longleftrightarrow> CanonicalInput_post_init x = Inr ()"

lemma input_payload_hex:
  assumes "input_ok x" and "fromhex (ci_payload_hex x) = Inr p"
  shows "ci_payload_hex x = hex p"
proof -
  have "list_all hex_char (ci_payload_hex x)" "even (length (ci_payload_hex x))"
    using assms(1) by (auto simp: input_ok_def CanonicalInput_post_init_def result_hex_def)
  from fromhex_canonical [OF this] assms(2) show ?thesis by auto
qed

lemma kernel_last_inject:
  assumes "kernel_events s 0 (replicate 32 0) (xs @ [x]) = Inr (evs, f)"
    and "kernel_events s' 0 (replicate 32 0) (ys @ [y]) = Inr (evs', f)" and "input_ok x" and "input_ok y"
    and nc: "\<not> sha256_collision"
  shows "length xs = length ys \<and> x = y \<and> (\<exists>e e' h. kernel_events s 0 (replicate 32 0) xs = Inr (e, h) \<and>
    kernel_events s' 0 (replicate 32 0) ys = Inr (e', h))"
proof -
  obtain e h p b where X: "kernel_events s 0 (replicate 32 0) xs = Inr (e, h)" "fromhex (ci_payload_hex x) = Inr p"
    "kernel_event_bytes h (0 + length xs) x p = Inr b" "f = sha256 b" by (rule kernel_events_snoc [OF assms(1)])
  obtain e' h' q b' where Y: "kernel_events s' 0 (replicate 32 0) ys = Inr (e', h')" "fromhex (ci_payload_hex y) = Inr q"
    "kernel_event_bytes h' (0 + length ys) y q = Inr b'" "f = sha256 b'" by (rule kernel_events_snoc [OF assms(2)])
  have "b = b'" using X(4) Y(4) nc unfolding sha256_collision_def by metis
  then have "h = h' \<and> 0 + length xs = 0 + length ys \<and> x = y"
    using X(3) Y(3) input_payload_hex [OF assms(3) X(2)] input_payload_hex [OF assms(4) Y(2)]
      kernel_events_length [OF X(1)] kernel_events_length [OF Y(1)]
    by (intro kernel_event_bytes_inject) simp_all
  with X(1) Y(1) show ?thesis by auto
qed

lemma kernel_inputs_bound:
  assumes "kernel_events s 0 (replicate 32 0) xs = Inr (evs, f)" and "kernel_events s' 0 (replicate 32 0) ys = Inr (evs', f)"
    and "list_all input_ok xs" and "list_all input_ok ys" and nc: "\<not> sha256_collision" and "length xs = length ys"
  shows "xs = ys"
  using assms(1-4,6)
proof (induction xs arbitrary: ys evs evs' f rule: rev_induct)
  case (snoc x xs)
  then obtain ys' y where ys: "ys = ys' @ [y]" by (cases ys rule: rev_cases) auto
  have "input_ok x" "input_ok y" using snoc.prems by (simp_all add: ys)
  from kernel_last_inject [OF snoc.prems(1) snoc.prems(2) [unfolded ys] this nc] obtain e e' h where
    k: "x = y" "length xs = length ys'" "kernel_events s 0 (replicate 32 0) xs = Inr (e, h)"
      "kernel_events s' 0 (replicate 32 0) ys' = Inr (e', h)" by blast
  from snoc.IH [OF k(3,4)] snoc.prems k show ?case by (simp add: ys)
qed simp

lemma kernel_hash_binds:
  assumes "kernel_events s 0 (replicate 32 0) xs = Inr (evs, f)" and "kernel_events s' 0 (replicate 32 0) ys = Inr (evs', f)"
    and "list_all input_ok xs" and "list_all input_ok ys" and nc: "\<not> sha256_collision" and "xs \<noteq> []" and "ys \<noteq> []"
  shows "xs = ys"
proof -
  obtain xs' x ys' y where e: "xs = xs' @ [x]" "ys = ys' @ [y]" using assms(6,7) by (metis rev_exhaust)
  have "input_ok x" "input_ok y" using assms(3,4) by (simp_all add: e)
  from kernel_last_inject [OF assms(1) [unfolded e] assms(2) [unfolded e] this nc] have "length xs = length ys" by (simp add: e)
  with kernel_inputs_bound [OF assms(1-4) nc] show ?thesis by blast
qed

section \<open>State hashes and ledger\<close>

definition state_bytes :: "StateHashEvidence \<Rightarrow> bytes" where
  "state_bytes x = enc_uint (sh_event_seq x) @ enc_hash (sh_hash x)"

definition state_fits :: "StateHashEvidence \<Rightarrow> bool" where
  "state_fits x \<longleftrightarrow> in_u64 (sh_event_seq x) \<and> is_sha256_hex (sh_hash x)"

interpretation state_code: prefix_code state_bytes state_fits
proof unfold_locales
  fix x y :: StateHashEvidence and r s
  assume v: "state_fits x" "state_fits y" and eq: "state_bytes x @ r = state_bytes y @ s"
  note e1 = uint_code.prefix [OF _ _ eq [unfolded state_bytes_def append_assoc]]
  note e2 = hash_code.prefix [OF _ _ e1 [THEN conjunct2]]
  have "sh_event_seq x = sh_event_seq y" using e1 v by (simp add: state_fits_def)
  moreover have "sh_hash x = sh_hash y \<and> r = s" using e2 v by (simp add: state_fits_def)
  ultimately show "x = y \<and> r = s" by simp
qed

lemma state_hash_partsD:
  "state_hash_parts p xs = Inr b \<Longrightarrow> list_all (\<lambda>x. StateHashEvidence_post_init x = Inr ()) xs \<Longrightarrow>
   b = concat (map state_bytes xs) \<and> list_all state_fits xs"
proof (induction xs arbitrary: p b)
  case (Cons x xs)
  have sha: "is_sha256_hex (sh_hash x)" "in_u64 (sh_event_seq x)"
    using Cons.prems by (auto simp: StateHashEvidence_post_init_def result_sha256_def result_u64_def is_sha256_hex_def in_u64_def)
  from Cons.prems(1) obtain rest where r: "state_hash_parts (Some (sh_event_seq x)) xs = Inr rest" "b = state_bytes x @ rest"
    using enc_hash_bytes [OF sha(1)] by (auto simp: evidence_u64_iff state_bytes_def enc_uint_def)
  from Cons.IH [OF r(1)] Cons.prems(2) r(2) sha show ?case by (simp add: state_fits_def)
qed simp

lemma state_hash_commitment_binds:
  assumes "state_hash_commitment xs = Inr h" and "state_hash_commitment ys = Inr h" and nc: "\<not> sha256_collision"
    and "list_all (\<lambda>x. StateHashEvidence_post_init x = Inr ()) xs" and "list_all (\<lambda>x. StateHashEvidence_post_init x = Inr ()) ys"
  shows "xs = ys"
proof -
  from assms(1) obtain b where X: "in_u64 (int (length xs))" "state_hash_parts None xs = Inr b"
    "h = sha256_hex (ascii ''TRL-STATE-HASHES-v1'' @ [0] @ enc_uint (int (length xs)) @ b)"
    by (auto simp: state_hash_commitment_def evidence_u64_iff enc_uint_def)
  from assms(2) obtain c where Y: "in_u64 (int (length ys))" "state_hash_parts None ys = Inr c"
    "h = sha256_hex (ascii ''TRL-STATE-HASHES-v1'' @ [0] @ enc_uint (int (length ys)) @ c)"
    by (auto simp: state_hash_commitment_def evidence_u64_iff enc_uint_def)
  have "ascii ''TRL-STATE-HASHES-v1'' @ [0] @ enc_uint (int (length xs)) @ b =
      ascii ''TRL-STATE-HASHES-v1'' @ [0] @ enc_uint (int (length ys)) @ c"
    using sha256_hex_eqD [OF trans [OF X(3) [symmetric] Y(3)]] nc by blast
  then have "enc_uint (int (length xs)) @ b = enc_uint (int (length ys)) @ c" by simp
  from uint_code.prefix [OF X(1) Y(1) this] have len: "length xs = length ys" and "b = c" by simp_all
  with state_hash_partsD [OF X(2) assms(4)] state_hash_partsD [OF Y(2) assms(5)]
  have "concat (map state_bytes xs) @ [] = concat (map state_bytes ys) @ []" "list_all state_fits xs" "list_all state_fits ys" by simp_all
  from state_code.enc_list_prefix [OF this(2,3) len this(1)] show ?thesis by blast
qed

definition posting_enc :: "LedgerPostingEvidence \<Rightarrow> bytes" where
  "posting_enc p = enc_text (lp_currency p) @ enc_text (lp_account p) @ to_bytes_signed 8 (lp_amount_minor p)"

definition posting_fits :: "LedgerPostingEvidence \<Rightarrow> bool" where
  "posting_fits p \<longleftrightarrow> text_fits (lp_currency p) \<and> text_fits (lp_account p) \<and> in_i64 (lp_amount_minor p)"

interpretation posting_code: prefix_code posting_enc posting_fits
proof unfold_locales
  fix x y :: LedgerPostingEvidence and r s
  assume v: "posting_fits x" "posting_fits y" and eq: "posting_enc x @ r = posting_enc y @ s"
  note e1 = text_code.prefix [OF _ _ eq [unfolded posting_enc_def append_assoc]]
  note e2 = text_code.prefix [OF _ _ e1 [THEN conjunct2]]
  note e3 = i64.prefix [OF _ _ e2 [THEN conjunct2]]
  note fits = v [unfolded posting_fits_def]
  have "lp_currency x = lp_currency y" "lp_account x = lp_account y" "lp_amount_minor x = lp_amount_minor y \<and> r = s"
    using e1 e2 e3 fits by blast+
  then show "x = y \<and> r = s" by simp
qed

text \<open>What the ledger commitment says of a transaction: its postings, in no particular order.\<close>

definition normal_transaction :: "LedgerTransactionEvidence \<Rightarrow> int \<times> string \<times> LedgerPostingEvidence list" where
  "normal_transaction x = (lt_event_seq x, lt_transaction_id x, sort_key posting_key (lt_postings x))"

definition transaction_enc :: "int \<times> string \<times> LedgerPostingEvidence list \<Rightarrow> bytes" where
  "transaction_enc = (\<lambda>(seq, transaction_id, ps). enc_uint seq @ enc_text transaction_id @ enc_uint (int (length ps)) @
     concat (map posting_enc ps))"

definition transaction_fits :: "int \<times> string \<times> LedgerPostingEvidence list \<Rightarrow> bool" where
  "transaction_fits = (\<lambda>(seq, transaction_id, ps). in_u64 seq \<and> text_fits transaction_id \<and> in_u64 (int (length ps)) \<and>
     list_all posting_fits ps)"

interpretation transaction_code: prefix_code transaction_enc transaction_fits
proof unfold_locales
  fix x y :: "int \<times> string \<times> LedgerPostingEvidence list" and r s
  assume v: "transaction_fits x" "transaction_fits y" and eq: "transaction_enc x @ r = transaction_enc y @ s"
  obtain a t ps where x: "x = (a, t, ps)" by (cases x)
  obtain b u qs where y: "y = (b, u, qs)" by (cases y)
  note e1 = uint_code.prefix [OF _ _ eq [unfolded transaction_enc_def x y prod.case append_assoc]]
  note e2 = text_code.prefix [OF _ _ e1 [THEN conjunct2]]
  note e3 = uint_code.prefix [OF _ _ e2 [THEN conjunct2]]
  note fits = v [unfolded transaction_fits_def x y prod.case]
  have ab: "a = b" "t = u" "int (length ps) = int (length qs)"
    and rest: "concat (map posting_enc ps) @ r = concat (map posting_enc qs) @ s" using e1 e2 e3 fits by blast+
  have "length ps = length qs" using ab(3) by simp
  from posting_code.enc_list_prefix [OF _ _ this rest] fits ab show "x = y \<and> r = s" by (auto simp: x y)
qed

lemma posting_bytesD: "posting_bytes p = Inr b \<Longrightarrow> b = posting_enc p \<and> posting_fits p"
  by (auto simp: posting_bytes_def evidence_iffs posting_enc_def posting_fits_def)

lemma mapR_postings: "mapR posting_bytes ps = Inr bs \<Longrightarrow> bs = map posting_enc ps \<and> list_all posting_fits ps"
  by (induction ps arbitrary: bs) (auto dest: posting_bytesD)

lemma transaction_bytesD:
  "transaction_bytes x = Inr b \<Longrightarrow> b = transaction_enc (normal_transaction x) \<and> transaction_fits (normal_transaction x)"
  by (auto simp: transaction_bytes_def evidence_iffs transaction_enc_def transaction_fits_def normal_transaction_def enc_uint_def
      Let_def dest!: mapR_postings)

lemma ledger_partsD:
  "ledger_parts seen p xs = Inr b \<Longrightarrow> b = concat (map transaction_enc (map normal_transaction xs)) \<and>
     list_all transaction_fits (map normal_transaction xs) \<and> (\<forall>x\<in>set xs. require_balanced x = Inr ())"
proof (induction xs arbitrary: seen p b)
  case (Cons x xs)
  then obtain part rest where "require_balanced x = Inr ()" "transaction_bytes x = Inr part" "b = part @ rest"
    "ledger_parts (lt_transaction_id x # seen) (Some (lt_event_seq x)) xs = Inr rest" by auto
  with Cons.IH [OF this(4)] transaction_bytesD show ?case by auto
qed simp

lemma ledger_commitment_binds:
  assumes "ledger_commitment xs = Inr h" and "ledger_commitment ys = Inr h" and nc: "\<not> sha256_collision"
  shows "map normal_transaction xs = map normal_transaction ys"
proof -
  from assms(1) obtain b where X: "in_u64 (int (length xs))" "ledger_parts [] None xs = Inr b"
    "h = sha256_hex (ascii ''TRL-LEDGER-PROOF-v1'' @ [0] @ enc_uint (int (length xs)) @ b)"
    by (auto simp: ledger_commitment_def evidence_u64_iff enc_uint_def)
  from assms(2) obtain c where Y: "in_u64 (int (length ys))" "ledger_parts [] None ys = Inr c"
    "h = sha256_hex (ascii ''TRL-LEDGER-PROOF-v1'' @ [0] @ enc_uint (int (length ys)) @ c)"
    by (auto simp: ledger_commitment_def evidence_u64_iff enc_uint_def)
  have "ascii ''TRL-LEDGER-PROOF-v1'' @ [0] @ enc_uint (int (length xs)) @ b =
      ascii ''TRL-LEDGER-PROOF-v1'' @ [0] @ enc_uint (int (length ys)) @ c"
    using sha256_hex_eqD [OF trans [OF X(3) [symmetric] Y(3)]] nc by blast
  then have "enc_uint (int (length xs)) @ b = enc_uint (int (length ys)) @ c" by simp
  from uint_code.prefix [OF X(1) Y(1) this] have len: "length (map normal_transaction xs) = length (map normal_transaction ys)"
    and "b = c" by simp_all
  with ledger_partsD [OF X(2)] ledger_partsD [OF Y(2)]
  have "concat (map transaction_enc (map normal_transaction xs)) @ [] = concat (map transaction_enc (map normal_transaction ys)) @ []"
    and f: "list_all transaction_fits (map normal_transaction xs)" "list_all transaction_fits (map normal_transaction ys)" by simp_all
  from transaction_code.enc_list_prefix [OF f len this(1)] show ?thesis by blast
qed

section \<open>The result hash\<close>

definition metrics_ok :: "ResultMetrics \<Rightarrow> bool" where
  "metrics_ok m \<longleftrightarrow> in_i64 (rm_terminal_return_ppb m) \<and> in_i64 (rm_max_drawdown_ppb m) \<and>
     in_i64 (rm_peak_effective_leverage_ppb m) \<and> in_i64 (rm_benchmark_return_ppb m)"

definition metrics_bytes :: "ResultMetrics \<Rightarrow> bytes" where
  "metrics_bytes m = enc_uint (if rm_survived m then 1 else 0) @ to_bytes_signed 8 (rm_terminal_return_ppb m) @
     to_bytes_signed 8 (rm_max_drawdown_ppb m) @ to_bytes_signed 8 (rm_peak_effective_leverage_ppb m) @
     to_bytes_signed 8 (rm_benchmark_return_ppb m)"

lemma metrics_bytes_inject:
  assumes "metrics_ok m" and "metrics_ok m'" and "metrics_bytes m = metrics_bytes m'"
  shows "m = m'"
proof -
  note fits = assms(1,2) [unfolded metrics_ok_def]
  note e1 = uint_code.prefix [OF _ _ assms(3) [unfolded metrics_bytes_def]]
  note e2 = i64.prefix [OF _ _ e1 [THEN conjunct2]]
  note e3 = i64.prefix [OF _ _ e2 [THEN conjunct2]]
  note e4 = i64.prefix [OF _ _ e3 [THEN conjunct2]]
  note e5 = i64.enc_inj [OF _ _ e4 [THEN conjunct2]]
  have u: "in_u64 (if b then 1 else 0)" for b by (simp add: in_u64_def U64_MAX_def)
  have "(if rm_survived m then 1 else 0 :: int) = (if rm_survived m' then 1 else 0)" using e1 u by blast
  then have "rm_survived m = rm_survived m'" by (auto split: if_splits)
  moreover have "rm_terminal_return_ppb m = rm_terminal_return_ppb m'" using e2 u fits by blast
  moreover have "rm_max_drawdown_ppb m = rm_max_drawdown_ppb m'" using e3 u fits by blast
  moreover have "rm_peak_effective_leverage_ppb m = rm_peak_effective_leverage_ppb m'" using e4 u fits by blast
  moreover have "rm_benchmark_return_ppb m = rm_benchmark_return_ppb m'" using e5 u fits by blast
  ultimately show ?thesis by simp
qed

lemma result_commitmentD:
  assumes "result_commitment s a b c d m = Inr h"
    and "is_sha256_hex a" "is_sha256_hex b" "is_sha256_hex c" "is_sha256_hex d"
  shows "h = sha256_hex (ascii ''TRL-VERIFIER-RESULT-v1'' @ [0] @ enc_text s @ enc_hash a @ enc_hash b @ enc_hash c @ enc_hash d @ metrics_bytes m)"
    "text_fits s" "metrics_ok m"
  using assms(1) enc_hash_bytes [OF assms(2)] enc_hash_bytes [OF assms(3)] enc_hash_bytes [OF assms(4)] enc_hash_bytes [OF assms(5)]
  by (auto simp: result_commitment_def evidence_iffs metrics_bytes_def metrics_ok_def enc_uint_def)

lemma result_commitment_binds:
  assumes "result_commitment s a b c d m = Inr h" and "result_commitment s' a' b' c' d' m' = Inr h" and nc: "\<not> sha256_collision"
    and v: "is_sha256_hex a" "is_sha256_hex b" "is_sha256_hex c" "is_sha256_hex d"
    and v': "is_sha256_hex a'" "is_sha256_hex b'" "is_sha256_hex c'" "is_sha256_hex d'"
  shows "s = s' \<and> a = a' \<and> b = b' \<and> c = c' \<and> d = d' \<and> m = m'"
proof -
  note X = result_commitmentD [OF assms(1) v] and Y = result_commitmentD [OF assms(2) v']
  have "ascii ''TRL-VERIFIER-RESULT-v1'' @ [0] @ enc_text s @ enc_hash a @ enc_hash b @ enc_hash c @ enc_hash d @ metrics_bytes m =
      ascii ''TRL-VERIFIER-RESULT-v1'' @ [0] @ enc_text s' @ enc_hash a' @ enc_hash b' @ enc_hash c' @ enc_hash d' @ metrics_bytes m'"
    using sha256_hex_eqD [OF trans [OF X(1) [symmetric] Y(1)]] nc by blast
  then have "enc_text s @ enc_hash a @ enc_hash b @ enc_hash c @ enc_hash d @ metrics_bytes m =
      enc_text s' @ enc_hash a' @ enc_hash b' @ enc_hash c' @ enc_hash d' @ metrics_bytes m'" by simp
  note e0 = text_code.prefix [OF X(2) Y(2) this]
  note e1 = hash_code.prefix [OF v(1) v'(1) e0 [THEN conjunct2]]
  note e2 = hash_code.prefix [OF v(2) v'(2) e1 [THEN conjunct2]]
  note e3 = hash_code.prefix [OF v(3) v'(3) e2 [THEN conjunct2]]
  note e4 = hash_code.prefix [OF v(4) v'(4) e3 [THEN conjunct2]]
  from metrics_bytes_inject [OF X(3) Y(3) e4 [THEN conjunct2]] e0 e1 e2 e3 e4 show ?thesis by blast
qed

definition evidence_ok :: "ResultEvidence \<Rightarrow> bool" where
  "evidence_ok e \<longleftrightarrow> re_inputs e \<noteq> [] \<and> list_all input_ok (re_inputs e) \<and>
     list_all (\<lambda>x. StateHashEvidence_post_init x = Inr ()) (re_state_hashes e)"

lemma manifest_commitmentD:
  assumes "manifest_commitment [m] = Inr h"
  shows "is_sha256_hex m" "h = sha256_hex (ascii ''TRL-MANIFEST-SET-v1'' @ [0] @ enc_u64 1 @ enc_hash m)"
proof -
  show m: "is_sha256_hex m" using assms by (auto simp: manifest_commitment_def validated_sha_def is_sha256_hex_def Let_def)
  show "h = sha256_hex (ascii ''TRL-MANIFEST-SET-v1'' @ [0] @ enc_u64 1 @ enc_hash m)"
    using assms enc_hash_bytes [OF m] by (auto simp: manifest_commitment_def validated_sha_def evidence_u64_iff Let_def)
qed

lemma build_proofD:
  assumes "build_proof s m e = Inr p"
  obtains a evs f c d h where "manifest_commitment [m] = Inr a"
    "kernel_events s 0 (replicate 32 0) (re_inputs e) = Inr (evs, f)" "length f = 32"
    "state_hash_commitment (re_state_hashes e) = Inr c" "ledger_commitment (re_ledger_transactions e) = Inr d"
    "result_commitment s a (hex f) c d (re_metrics e) = Inr h" "jget p ''result_hash'' = JStr h"
    "is_sha256_hex a" "is_sha256_hex (hex f)" "is_sha256_hex c" "is_sha256_hex d"
proof -
  from assms obtain a evs f c d h where k: "manifest_commitment [m] = Inr a"
    "kernel_events s 0 (replicate 32 0) (re_inputs e) = Inr (evs, f)"
    "state_hash_commitment (re_state_hashes e) = Inr c" "ledger_commitment (re_ledger_transactions e) = Inr d"
    "result_commitment s a (hex f) c d (re_metrics e) = Inr h" "jget p ''result_hash'' = JStr h"
    by (auto simp: build_proof_def Let_def)
  have f: "length f = 32" by (rule kernel_events_length [OF k(2)]) simp
  have "is_sha256_hex a" "is_sha256_hex c" "is_sha256_hex d"
    using k(1,3,4) by (auto simp: manifest_commitment_def state_hash_commitment_def ledger_commitment_def Let_def)
  with k f is_sha256_hex_hex [OF f] that show ?thesis by blast
qed


section \<open>Consistent evidence\<close>

definition balance :: "string \<Rightarrow> LedgerPostingEvidence list \<Rightarrow> int" where
  "balance c ps = sum_list (map lp_amount_minor (filter (\<lambda>p. lp_currency p = c) ps))"

lemma balance_absent: "c \<notin> lp_currency ` set ps \<Longrightarrow> balance c ps = 0"
proof -
  assume "c \<notin> lp_currency ` set ps"
  then have "filter (\<lambda>q. lp_currency q = c) ps = []" by (force simp: filter_empty_conv image_iff)
  then show ?thesis by (simp add: balance_def)
qed

lemma posting_totals_spec:
  "distinct (map fst (posting_totals ps)) \<and>
   map_of (posting_totals ps) c = (if c \<in> lp_currency ` set ps then Some (balance c ps) else None)"
proof (induction ps arbitrary: c rule: rev_induct)
  case Nil
  then show ?case by (simp add: posting_totals_def)
next
  case (snoc p ps)
  let ?c = "lp_currency p"
  have step: "posting_totals (ps @ [p]) = AList.update ?c ((case map_of (posting_totals ps) ?c of None \<Rightarrow> 0 | Some t \<Rightarrow> t) +
      lp_amount_minor p) (posting_totals ps)" by (simp add: posting_totals_def)
  have "(case map_of (posting_totals ps) ?c of None \<Rightarrow> 0 | Some t \<Rightarrow> t) = balance ?c ps" using snoc.IH [of ?c] balance_absent [of ?c ps] by simp
  then show ?case unfolding step using snoc.IH [of c] by (auto simp: distinct_update balance_def)
qed

lemma require_balanced_iff: "require_balanced x = Inr () \<longleftrightarrow> (\<forall>c. balance c (lt_postings x) = 0)"
proof -
  let ?ps = "lt_postings x"
  have "(c, a) \<in> set (posting_totals ?ps) \<longleftrightarrow> c \<in> lp_currency ` set ?ps \<and> a = balance c ?ps" for c a
    using posting_totals_spec [of ?ps c] map_of_eq_Some_iff [of "posting_totals ?ps" c a] by (auto split: if_splits)
  then have "require_balanced x = Inr () \<longleftrightarrow> (\<forall>c\<in>lp_currency ` set ?ps. balance c ?ps = 0)"
    by (fastforce simp: require_balanced_def list_ex_iff)
  with balance_absent [of _ ?ps] show ?thesis by blast
qed

lemma state_hash_parts_sorted:
  "state_hash_parts p xs = Inr b \<Longrightarrow> sorted_wrt (<) (map sh_event_seq xs) \<and> (\<forall>x\<in>set xs. \<forall>q. p = Some q \<longrightarrow> q < sh_event_seq x)"
proof (induction xs arbitrary: p b)
  case (Cons x xs)
  then obtain rest where "state_hash_parts (Some (sh_event_seq x)) xs = Inr rest" "\<forall>q. p = Some q \<longrightarrow> q < sh_event_seq x"
    by (auto split: option.splits)
  with Cons.IH [OF this(1)] show ?case by fastforce
qed simp

lemma mapR_set: "mapR f xs = Inr ys \<Longrightarrow> x \<in> set xs \<Longrightarrow> \<exists>y\<in>set ys. f x = Inr y"
  by (induction xs arbitrary: ys) auto

lemma commitment_exports_verified:
  assumes "commitment_exports rows s es = Inr (hs, ns)" and "row \<in> set rows" and "jget row ''kind'' = JStr KIND"
  shows "\<exists>x pf e. selection_setup s = Inr x \<and> verify_completion_proof x es pf = Inr e \<and>
    jget row ''commitment_hash'' = JStr (cp_commitment_hash pf)"
  using assms
proof (induction rows arbitrary: hs ns)
  case (Cons r rows)
  from Cons.prems(1) obtain h k n hs' ns' where k: "result_sha_field r ''commitment_hash'' = Inr h" "result_string_field r ''kind'' = Inr k"
    "(if k \<noteq> ''EPISODE_SELECTION'' then Inr []
        else bindR (stored_proof r h) (\<lambda>(nonce, pf).
          bindR (require (es \<noteq> []) invalid_evidence) (\<lambda>_.
          bindR (catchR (bindR (selection_setup s) (\<lambda>x. verify_completion_proof x es pf))
            is_proof_error invalid_evidence) (\<lambda>_. Inr [nonce])))) = Inr n"
    and rest: "commitment_exports rows s es = Inr (hs', ns')" by auto
  show ?case
  proof (cases "row = r")
    case True
    have "k = KIND" using k(2) Cons.prems(3) by (auto simp: True result_string_field_def)
    then obtain x pf e nonce where "selection_setup s = Inr x" "verify_completion_proof x es pf = Inr e" "stored_proof r h = Inr (nonce, pf)"
      using k(3) by (auto simp: KIND_def)
    moreover from this(3) have "cp_commitment_hash pf = h" by (auto simp: stored_proof_def Let_def)
    moreover have "jget r ''commitment_hash'' = JStr h"
      using k(1) by (auto simp: result_sha_field_def result_string_field_def validated_sha_def split: json.splits)
    ultimately show ?thesis by (auto simp: True)
  qed (use Cons.IH [OF rest] Cons.prems in auto)
qed simp

lemma frozen_resultD:
  assumes "frozen_result i t h b p = Inr fr"
  shows "fr_session_id fr = i" "fr_replayed fr = False" "fr_result_hash fr = h" "fr_bundle fr = b" "fr_proof fr = p"
    "canonical_hash (JObj (fr_bundle fr)) = Inr (fr_bundle_hash fr)" "canonical_hash (JObj (fr_proof fr)) = Inr (fr_proof_hash fr)"
    "canonical_hash (JObj (fr_export fr)) = Inr (fr_export_hash fr)"
  using assms by (auto simp: frozen_result_def Let_def)

lemma build_resultD:
  assumes "build_result d i p e t = Inr fr"
  obtains r s a cmds hs ns pf where "get_session d i p = Inr r" "rec_status r = COMPLETED" "rec_setup r = Some s"
    "authoritative d i p (cs_ruleset_id s) = Inr a" "export_commands i p (ad_commands a) (re_command_metadata e) = Inr cmds"
    "commitment_exports (ad_commitments a) s (re_eligible_episodes e) = Inr (hs, ns)"
    "build_proof i (cs_manifest_hash s) e = Inr pf" "fr_proof fr = pf" "fr_session_id fr = i" "fr_replayed fr = False"
    "canonical_hash (JObj (fr_bundle fr)) = Inr (fr_bundle_hash fr)" "canonical_hash (JObj (fr_proof fr)) = Inr (fr_proof_hash fr)"
    "canonical_hash (JObj (fr_export fr)) = Inr (fr_export_hash fr)" "jget (fr_bundle fr) ''result_hash'' = JStr (fr_result_hash fr)"
proof -
  from assms obtain r s a cmds evs hs ns pf h where r: "get_session d i p = Inr r" "rec_status r = COMPLETED" "rec_setup r = Some s"
    "authoritative d i p (cs_ruleset_id s) = Inr a" "export_commands i p (ad_commands a) (re_command_metadata e) = Inr cmds"
    "commitment_exports (ad_commitments a) s (re_eligible_episodes e) = Inr (hs, ns)"
    "build_proof i (cs_manifest_hash s) e = Inr pf"
    and fr: "frozen_result i t h (bundle_fields i s (ad_ruleset a) hs ns cmds evs e h) pf = Inr fr"
    by (auto simp: build_result_def completed_session_def case_option_Inr)
  note f = frozen_resultD [OF fr]
  have "jget (fr_bundle fr) ''result_hash'' = JStr (fr_result_hash fr)" unfolding f(3,4) by (simp add: bundle_fields_def)
  from that [OF r f(5,1,2,6-8) this] show ?thesis .
qed

lemma authoritative_rows:
  assumes "authoritative d i p k = Inr a"
  shows "row \<in> set (db_commitments d) \<Longrightarrow> k_session_id row = i \<Longrightarrow> \<exists>fs\<in>set (ad_commitments a). commitment_fields row = Inr fs"
    "row' \<in> set (db_commands d) \<Longrightarrow> c_session_id row' = i \<Longrightarrow> \<exists>fs\<in>set (ad_commands a). command_fields row' = Inr fs"
proof -
  from assms obtain ks cs where "mapR commitment_fields (sort_key (\<lambda>r. (k_kind r, k_commitment_id r))
         (filter (\<lambda>r. k_session_id r = i) (db_commitments d))) = Inr ks" "ad_commitments a = ks"
    "mapR command_fields (sort_key (\<lambda>r. (c_expected_session_version r, c_command_id r))
         (filter (\<lambda>r. c_session_id r = i) (db_commands d))) = Inr cs" "ad_commands a = cs"
    by (auto simp: authoritative_def case_option_Inr)
  then show "row \<in> set (db_commitments d) \<Longrightarrow> k_session_id row = i \<Longrightarrow> \<exists>fs\<in>set (ad_commitments a). commitment_fields row = Inr fs"
    "row' \<in> set (db_commands d) \<Longrightarrow> c_session_id row' = i \<Longrightarrow> \<exists>fs\<in>set (ad_commands a). command_fields row' = Inr fs"
    using mapR_set by fastforce+
qed


text \<open>The verified draw is not compared with what was played: the exported commitments do not depend on the manifest and the
  start of the committed setup.\<close>

lemma commitment_exports_played:
  "commitment_exports rows (s\<lparr>cs_play_start_ns := t, cs_manifest_hash := m\<rparr>) es = commitment_exports rows s es"
proof -
  have "selection_setup (s\<lparr>cs_play_start_ns := t, cs_manifest_hash := m\<rparr>) = selection_setup s" by (simp add: selection_setup_def)
  then show ?thesis by (induction rows) (simp_all cong: if_cong)
qed

text \<open>A draw from before the epoch cannot be exported: the reader of its metadata has no sign.\<close>

lemma negative_metadata_rejected: "n < 0 \<Longrightarrow> jget fs k = JStr (str_int n) \<Longrightarrow> result_metadata_int fs k = Inl persisted_conflict"
  by (auto simp: result_metadata_int_def result_metadata_string_def str_int_def startswith_def isdigit_def isdigit_char_def ascii_digit_def)

section \<open>Stored results do not change\<close>

inductive result_step :: "aead \<Rightarrow> db \<Rightarrow> db \<Rightarrow> bool" for c where
  result_commitment: "commitment_step c d d' \<Longrightarrow> result_step c d d'"
| result_finalize: "finalize i p e t d = Inr (fr, d') \<Longrightarrow> result_step c d d'"

lemma commitment_results: "commitment_step c d d' \<Longrightarrow> db_results d' = db_results d"
proof (induction rule: commitment_step.induct)
  case (commitment_service d d')
  then show ?case using service_step_frame [of d d'] by (simp add: side_tables_def)
next
  case (commitment_prepare secret n k i p s es nonce d ps d')
  then show ?case by (rule prepareD) simp
next
  case (commitment_reveal i p d pf d')
  then obtain row where "d' = reveal_update row (cp_secret_hex pf) d" by (rule revealD)
  then show ?case by (simp add: reveal_update_def)
qed

lemma freezeD:
  assumes "freeze p fr d = Inr (out, d')"
  shows "(\<exists>row. result_by_session d (fr_session_id fr) = Some row \<and> result_materialize row True = Inr out \<and> d' = d) \<or>
    (result_by_session d (fr_session_id fr) = None \<and> out = fr \<and> d' = d\<lparr>db_results := db_results d @
       [\<lparr>x_session_id = fr_session_id fr, x_result_hash = fr_result_hash fr,
             x_bundle_hash = fr_bundle_hash fr, x_proof_hash = fr_proof_hash fr,
             x_export_hash = fr_export_hash fr, x_created_at_ns = fr_created_at_ns fr,
             x_bundle_json = JObj (fr_bundle fr), x_proof_json = JObj (fr_proof fr),
             x_export_json = JObj (fr_export fr)\<rparr>]\<rparr>)"
    and "\<exists>srow. session_by_id d (fr_session_id fr) = Some srow \<and> s_principal_id srow = p"
  using assms by (auto simp: freeze_def result_principal_def insert_result_def split: option.splits)

lemma finalizeD:
  assumes "finalize i p e t d = Inr (fr, d')"
  obtains row srow where "result_by_session d' i = Some row" "result_materialize row False = Inr (fr\<lparr>fr_replayed := False\<rparr>)"
    "core_tables d' = core_tables d" "db_commitments d' = db_commitments d"
    "session_by_id d i = Some srow" "s_principal_id srow = p"
    "d' = d \<or> result_by_session d i = None \<and> db_results d' = db_results d @ [row]"
proof -
  from assms obtain fr0 where b: "build_result d i p e t = Inr fr0" and f: "freeze p fr0 d = Inr (fr, d')"
    by (auto simp: finalize_def)
  obtain pf where i: "fr_session_id fr0 = i" "fr_replayed fr0 = False" "fr_proof fr0 = pf"
    and h: "canonical_hash (JObj (fr_bundle fr0)) = Inr (fr_bundle_hash fr0)" "canonical_hash (JObj (fr_proof fr0)) = Inr (fr_proof_hash fr0)"
      "canonical_hash (JObj (fr_export fr0)) = Inr (fr_export_hash fr0)" "jget (fr_bundle fr0) ''result_hash'' = JStr (fr_result_hash fr0)"
    by (rule build_resultD [OF b])
  obtain srow where srow: "session_by_id d i = Some srow" "s_principal_id srow = p" using freezeD(2) [OF f] i by auto
  from freezeD(1) [OF f] show ?thesis
  proof (elim disjE exE conjE)
    fix row
    assume row: "result_by_session d (fr_session_id fr0) = Some row" "result_materialize row True = Inr fr" "d' = d"
    then have "result_materialize row False = Inr (fr\<lparr>fr_replayed := False\<rparr>)" by (auto simp: result_materialize_def)
    with row srow that show ?thesis by (simp add: i)
  next
    let ?row = "\<lparr>x_session_id = fr_session_id fr0, x_result_hash = fr_result_hash fr0,
             x_bundle_hash = fr_bundle_hash fr0, x_proof_hash = fr_proof_hash fr0,
             x_export_hash = fr_export_hash fr0, x_created_at_ns = fr_created_at_ns fr0,
             x_bundle_json = JObj (fr_bundle fr0), x_proof_json = JObj (fr_proof fr0),
             x_export_json = JObj (fr_export fr0)\<rparr>"
    assume new: "result_by_session d (fr_session_id fr0) = None" "fr = fr0" "d' = d\<lparr>db_results := db_results d @ [?row]\<rparr>"
    have "result_by_session d' i = Some ?row"
      using new(1) by (simp add: result_by_session_def new(3) find_append i)
    moreover have "result_materialize ?row False = Inr (fr\<lparr>fr_replayed := False\<rparr>)"
      using h by (simp add: result_materialize_def result_mapping_def new(2))
    moreover have "result_by_session d i = None" "core_tables d' = core_tables d" "db_commitments d' = db_commitments d"
      "db_results d' = db_results d @ [?row]" using new(1) by (simp_all add: i new(3) core_tables_def)
    ultimately show ?thesis using that srow by blast
  qed
qed

lemma result_step_kept:
  assumes "result_step c d d'" and "commitments_inv d"
  shows "commitments_inv d' \<and> (\<forall>i row. result_by_session d i = Some row \<longrightarrow> result_by_session d' i = Some row) \<and>
    (\<forall>i r. session_state d i = Some r \<longrightarrow> (\<exists>r'. session_state d' i = Some r' \<and> evolves r r'))"
  using assms(1)
proof cases
  case result_commitment
  have "result_by_session d' = result_by_session d"
    using commitment_results [OF result_commitment] by (simp add: result_by_session_def fun_eq_iff)
  then show ?thesis
    using commitment_step_inv [OF result_commitment assms(2)] commitment_step_session [OF result_commitment] assms(2)
    by (auto simp: commitments_inv_def)
next
  case (result_finalize i p e t fr)
  then obtain row where f: "core_tables d' = core_tables d" "db_commitments d' = db_commitments d"
    "d' = d \<or> result_by_session d i = None \<and> db_results d' = db_results d @ [row]" by (rule finalizeD)
  have "commitments_inv d'"
    using assms(2) core_frame [OF f(1)] by (simp add: commitments_inv_def f(2) completed_def)
  moreover have "result_by_session d' j = Some x" if "result_by_session d j = Some x" for j x
    using f(3) that by (auto simp: result_by_session_def find_append)
  ultimately show ?thesis using core_frame(1) [OF f(1)] evolves_refl by auto
qed

lemma result_steps_kept:
  assumes "(result_step c)\<^sup>*\<^sup>* d d'" and "commitments_inv d"
  shows "commitments_inv d' \<and> (\<forall>i row. result_by_session d i = Some row \<longrightarrow> result_by_session d' i = Some row) \<and>
    (\<forall>i r. session_state d i = Some r \<longrightarrow> (\<exists>r'. session_state d' i = Some r' \<and> evolves r r'))"
  using assms
proof (induction rule: rtranclp_induct)
  case base
  then show ?case using evolves_refl by blast
next
  case (step d1 d2)
  then have inv: "commitments_inv d1" by blast
  note s = result_step_kept [OF step(2) inv]
  show ?case
  proof (intro conjI allI impI)
    show "commitments_inv d2" using s by blast
    show "result_by_session d2 i = Some row" if "result_by_session d i = Some row" for i row using step that s by blast
    show "\<exists>r'. session_state d2 i = Some r' \<and> evolves r r'" if r: "session_state d i = Some r" for i r
    proof -
      obtain r1 where r1: "session_state d1 i = Some r1" "evolves r r1" using step.IH [OF step.prems] r by blast
      then obtain r2 where "session_state d2 i = Some r2" "evolves r1 r2" using s by blast
      with evolves_trans [OF r1(2)] show ?thesis by blast
    qed
  qed
qed


section \<open>Finalization succeeds on a completed session\<close>

text \<open>Every event the session service writes can be exported.\<close>

definition event_named :: "event_row \<Rightarrow> bool" where
  "event_named e \<longleftrightarrow> e_event_type e \<noteq> [] \<and> e_causation_id e \<noteq> [] \<and> e_correlation_id e = e_session_id e \<and>
     (\<exists>fs. e_payload_json e = JObj fs)"

definition all_named :: "db \<Rightarrow> bool" where
  "all_named d \<longleftrightarrow> list_all event_named (db_events d)"

lemma all_named_cong: "db_events d' = db_events d \<Longrightarrow> all_named d' = all_named d"
  by (simp add: all_named_def)

lemma append_event_named: "append_event i ty ts pl v d = Inr d' \<Longrightarrow> ty \<noteq> [] \<Longrightarrow> all_named d \<Longrightarrow> all_named d'"
  by (auto simp: append_event_def all_named_def event_named_def lifecycle_causation_id_def Let_def insert_event_spec)

lemma status_transition_named:
  assumes "status_transition i p v allowed st ty d = Inr (r, d')" and "ty \<noteq> []" and "all_named d"
  shows "all_named d'"
proof -
  from assms(1) obtain t w d1 where app: "append_event i ty t [] w d = Inr d1" and ev: "db_events d' = db_events d1"
    by (auto simp: status_transition_def case_option_Inr advance_version_spec dest!: update_sessions_events)
  from append_event_named [OF app assms(2,3)] all_named_cong [OF ev] show ?thesis by simp
qed

lemma service_step_named: "service_step d d' \<Longrightarrow> all_named d \<Longrightarrow> all_named d'"
proof (induction rule: service_step.induct)
  case (step_create i p ts d r d')
  then show ?case by (auto simp: create_session_def all_named_def)
next
  case (step_commit cat i p v rq d r d')
  then obtain d1 d2 w where d: "persist_ruleset rq d = Inr d1" "db_events d' = db_events d2"
    "append_event i ''SESSION_COMMITTED'' (sr_play_start_ns rq) (to_payload (committed_setup cat rq)) w d1 = Inr d2"
    by (auto simp: commit_def dest: update_sessions_events)
  from append_event_named [OF d(3)] all_named_cong [OF persist_ruleset_events [OF d(1)]] all_named_cong [OF d(2)] step_commit(2)
  show ?case by simp
next
  case (step_start i p v d r d')
  then show ?case using status_transition_named by (auto simp: start_def)
next
  case (step_pause i p v d r d')
  then show ?case using status_transition_named by (auto simp: pause_def)
next
  case (step_advance i p v u d r d')
  then obtain w pl d1 where app: "append_event i ''SESSION_ADVANCED'' u pl w d = Inr d1" and ev: "db_events d' = db_events d1"
    by (auto simp: advance_def case_option_Inr advance_version_spec dest!: update_sessions_events)
  from append_event_named [OF app _ step_advance(2)] all_named_cong [OF ev] show ?case by simp
next
  case (step_complete i p v d r d')
  then obtain t w pl d1 where app: "append_event i ''SESSION_COMPLETED'' t pl w d = Inr d1" and ev: "db_events d' = db_events d1"
    by (auto simp: complete_def case_option_Inr advance_version_spec dest!: update_sessions_events)
  from append_event_named [OF app _ step_complete(2)] all_named_cong [OF ev] show ?case by simp
next
  case (step_fork i p v c ts d r d')
  then obtain row pl t d1 where ins: "insert_session row d = Inr d1" and app: "append_event c ''SESSION_FORKED'' t pl 1 d1 = Inr d'"
    by (auto simp: fork_def case_option_Inr Let_def simp del: insert_session_spec)
  from ins have "db_events d1 = db_events d" by auto
  from append_event_named [OF app] all_named_cong [OF this] step_fork(2) show ?case by simp
qed

lemma service_steps_export:
  assumes "service_step\<^sup>*\<^sup>* d d'"
  shows "rulesets_grow d d' \<and> (all_named d \<longrightarrow> all_named d') \<and> (live d \<longrightarrow> live d') \<and> side_tables d' = side_tables d"
  using assms
proof (induction rule: rtranclp_induct)
  case base
  then show ?case by (simp add: rulesets_grow_def)
next
  case (step d1 d2)
  then show ?case
    using service_step_rulesets [OF step(2)] service_step_named [OF step(2)] live_step [OF step(2)] service_step_frame [OF step(2)]
      rulesets_grow_trans by auto
qed

lemma export_events_progress:
  assumes "ev.linked n h es" and "\<forall>e\<in>set es. event_named e \<and> event_sealed e \<and> e_session_id e \<noteq> []" and "is_sha256_hex h"
    and "prior_seq = None \<or> prior_seq = Some (n - 1)" and "prior_hash = None \<or> prior_hash = Some h"
  shows "\<exists>rows out. mapR event_fields es = Inr rows \<and> export_events i prior_seq prior_hash rows = Inr out \<and>
    list_all (\<lambda>fs. no_float (JObj fs)) out"
  using assms
proof (induction es arbitrary: n h prior_seq prior_hash)
  case (Cons e es)
  obtain fs where fs: "e_payload_json e = JObj fs" using Cons.prems(2) by (auto simp: event_named_def)
  have ne: "e_event_type e \<noteq> []" "e_causation_id e \<noteq> []" "e_correlation_id e \<noteq> []" "no_float (JObj fs)" "is_sha256_hex (e_current_event_hash e)"
    using Cons.prems(2) fs by (auto simp: event_named_def event_sealed_def event_hash_def)
  have chain: "e_event_seq e = n" "e_prior_event_hash e = h" "ev.linked (n + 1) (e_current_event_hash e) es" using Cons.prems(1) by auto
  obtain rows out where r: "mapR event_fields es = Inr rows" "list_all (\<lambda>fs. no_float (JObj fs)) out"
    "export_events i (Some n) (Some (e_current_event_hash e)) rows = Inr out"
    using Cons.IH [OF chain(3) _ ne(5), of "Some n" "Some (e_current_event_hash e)"] Cons.prems(2) by auto
  have sha: "validated_sha h = Inr h" "validated_sha (e_current_event_hash e) = Inr (e_current_event_hash e)"
    "h \<noteq> []" "e_current_event_hash e \<noteq> []"
    using Cons.prems(3) ne(5) by (auto simp: validated_sha_def is_sha256_hex_def)
  obtain row where row: "event_fields e = Inr row" "jget row ''payload'' = JObj fs" "jget row ''event_seq'' = JInt n"
    "jget row ''logical_ts_ns'' = JInt (e_logical_ts_ns e)" "jget row ''event_type'' = JStr (e_event_type e)"
    "jget row ''causation_id'' = JStr (e_causation_id e)" "jget row ''correlation_id'' = JStr (e_correlation_id e)"
    "jget row ''prior_event_hash'' = JStr h" "jget row ''current_event_hash'' = JStr (e_current_event_hash e)"
    by (simp add: event_fields_def fs result_mapping_def chain)
  have "\<exists>fs'. export_events i prior_seq prior_hash (row # rows) = Inr (fs' # out) \<and> no_float (JObj fs')"
    using Cons.prems(4,5) r(3) ne(4)
    by (auto simp: result_int_field_def result_sha_field_def result_string_field_def result_object_field_def sha row ne(1-3))
  then show ?case using r(1,2) row(1) by auto
qed simp

lemma kernel_events_no_float: "kernel_events s n h xs = Inr (evs, f) \<Longrightarrow> list_all (\<lambda>fs. no_float (JObj fs)) evs"
  by (induction xs arbitrary: n h evs) (auto simp: Let_def)

lemma build_proof_no_float:
  assumes "build_proof s m e = Inr p"
  shows "no_float (JObj p)"
proof -
  from assms obtain a evs f c d h where "kernel_events s 0 (replicate 32 0) (re_inputs e) = Inr (evs, f)" and
    p: "p = [(''verification_version'', JStr VERIFICATION_VERSION), (''session_id'', JStr s),
          (''manifest_hashes'', JList [JStr m]), (''manifest_set_hash'', JStr a),
          (''inputs'', JList (map input_json (re_inputs e))), (''kernel_events'', JList (map JObj evs)),
          (''state_hashes'', state_hash_json (re_state_hashes e)), (''state_hashes_hash'', JStr c),
          (''ledger_transactions'', ledger_json (re_ledger_transactions e)),
          (''ledger_hash'', JStr d), (''metrics'', metrics_json (re_metrics e)), (''result_hash'', JStr h)]"
    by (auto simp: build_proof_def Let_def)
  then show ?thesis using kernel_events_no_float
    by (fastforce simp: p list_all_iff input_json_def state_hash_json_def ledger_json_def posting_json_def metrics_json_def)
qed

lemma frozen_result_progress:
  assumes "no_float (JObj b)" and "no_float (JObj p)"
  shows "\<exists>fr. frozen_result i t h b p = Inr fr \<and> fr_session_id fr = i"
  using assms by (simp add: frozen_result_def canonical_hash_def result_canonical_json_def export_fields_def Let_def)

lemma finalize_progress:
  assumes live: "live d" and named: "all_named d" and st: "session_state d i = Some r" "rec_status r = COMPLETED" "rec_setup r = Some s" "i \<noteq> []"
    and rs: "ruleset_by_id d (cs_ruleset_id s) = Some row" "r_ruleset_version row = cs_ruleset_version s"
      "r_ruleset_hash row = cs_ruleset_hash s" "r_body_json row = JObj body" "no_float (JObj body)"
    and none: "db_commands d = []" "db_commitments d = []" "re_command_metadata e = []"
    and pf: "build_proof i (cs_manifest_hash s) e = Inr pf" and t: "in_i64 t" and new: "db_results d = []"
  shows "\<exists>fr d'. finalize i (rec_principal_id r) e t d = Inr (fr, d')"
proof -
  let ?p = "rec_principal_id r"
  obtain srow where srow: "session_by_id d i = Some srow" "s_principal_id srow = ?p" by (rule session_row [OF st(1)])
  have ses: "completed_session d i ?p = Inr r" using st by (simp add: completed_session_def get_session_def materialize_iff [THEN iffD2])
  have log: "log_ok d" using live by (simp add: live_def sessions_inv_log)
  have "ev.linked 0 ZERO_HASH (session_events d i)" using log log_ok_events [OF log] by (simp add: log_ok_def ev.chained_def)
  moreover have "\<forall>e\<in>set (session_events d i). event_named e \<and> event_sealed e \<and> e_session_id e \<noteq> []"
    using live named st(4) by (auto simp: session_events_def all_named_def live_def all_sealed_def list_all_iff)
  moreover have "is_sha256_hex ZERO_HASH" by code_simp
  ultimately obtain rows out where ev: "mapR event_fields (session_events d i) = Inr rows" "export_events i None None rows = Inr out"
    "list_all (\<lambda>fs. no_float (JObj fs)) out"
    using export_events_progress by blast
  let ?a = "\<lparr>ad_ruleset = [(''ruleset_id'', JStr (r_ruleset_id row)), (''ruleset_version'', JStr (r_ruleset_version row)),
          (''ruleset_hash'', JStr (r_ruleset_hash row)), (''body'', JObj body)], ad_commands = [], ad_domain_events = rows,
          ad_commitments = []\<rparr>"
  have a: "authoritative d i ?p (cs_ruleset_id s) = Inr ?a"
    using srow ev(1) by (simp add: authoritative_def result_principal_def rs(1,4) ruleset_fields_def result_mapping_def none)
  have "validate_ruleset ?a (cs_ruleset_version s) (cs_ruleset_hash s) = Inr ()" by (simp add: validate_ruleset_def rs)
  moreover obtain h where h: "jget pf ''result_hash'' = JStr h" "result_string_field pf ''result_hash'' = Inr h"
  proof (rule build_proofD [OF pf])
    fix a b c d h
    assume "result_commitment i a b c d (re_metrics e) = Inr h" and j: "jget pf ''result_hash'' = JStr h"
    then have "is_sha256_hex h" by (auto simp: result_commitment_def)
    then have "h \<noteq> []" by (auto simp: is_sha256_hex_def)
    with j show ?thesis using that by (simp add: result_string_field_def)
  qed
  moreover let ?b = "bundle_fields i s (ad_ruleset ?a) [] [] [] out e h"
  have "no_float (JObj ?b)"
    using ev(3) to_payload_no_float [of s] rs(5)
    by (simp add: bundle_fields_def state_hash_json_def metrics_json_def list_all_iff)
  then obtain fr where fr: "frozen_result i t h ?b pf = Inr fr" "fr_session_id fr = i"
    using frozen_result_progress [OF _ build_proof_no_float [OF pf]] by blast
  ultimately have "build_result d i ?p e t = Inr fr"
    using t ses a ev(2) pf st(3) none(3)
    by (simp add: build_result_def evidence_i64_def in_i64_def export_commands_def)
  then show ?thesis
    using srow by (simp add: finalize_def freeze_def result_principal_def fr(2) result_by_session_def new insert_result_def)
qed

section \<open>Witnesses\<close>

definition demo_evidence :: ResultEvidence where
  "demo_evidence = \<lparr>re_command_metadata = [], re_inputs = [\<lparr>ci_session_id = ''s1'', ci_input_seq = 0, ci_expected_state_version = 0,
       ci_logical_ts_ns = 300, ci_kind = ''MARKET'', ci_payload_hex = ''00''\<rparr>],
     re_state_hashes = [\<lparr>sh_event_seq = 0, sh_hash = demo_hash\<rparr>],
     re_ledger_transactions = [\<lparr>lt_event_seq = 0, lt_transaction_id = ''t1'', lt_postings =
       [\<lparr>lp_account = ''cash'', lp_amount_minor = - 5, lp_currency = ''USD''\<rparr>,
        \<lparr>lp_account = ''fees'', lp_amount_minor = 5, lp_currency = ''USD''\<rparr>]\<rparr>],
     re_metrics = \<lparr>rm_survived = True, rm_terminal_return_ppb = 0, rm_max_drawdown_ppb = 0,
       rm_peak_effective_leverage_ppb = 0, rm_benchmark_return_ppb = 0\<rparr>, re_eligible_episodes = [demo_episode]\<rparr>"

lemma evidence_progress:
  "length s \<le> 1000 \<Longrightarrow> evidence_text s = Inr (enc_text s)"
  "in_u64 n \<Longrightarrow> evidence_u64 n = Inr (enc_u64 (nat n))"
  "in_i64 z \<Longrightarrow> evidence_i64_bytes z = Inr (to_bytes_signed 8 z)"
  "length b < 256 ^ 8 \<Longrightarrow> evidence_bytes b = Inr (len_prefixed b)"
  by (simp_all add: evidence_iffs text_fits_short)

lemma demo_kernel:
  obtains evs f where "kernel_events ''s1'' 0 (replicate 32 0) (re_inputs demo_evidence) = Inr (evs, f)"
proof -
  let ?x = "hd (re_inputs demo_evidence)"
  have hex0: "fromhex ''00'' = Inr [0]" by code_simp
  obtain c where c: "kernel_input_bytes ?x [0] = Inr c" "length c \<le> 1000"
    using utf8_length [of "''s1''"] utf8_length [of "''MARKET''"] utf8_length [of "''TRL-KERNEL-INPUT-v1''"]
    by (simp add: kernel_input_bytes_def evidence_progress demo_evidence_def range_defs enc_text_def len_prefixed_def enc_u64_def)
  then have "\<exists>b. kernel_event_bytes (replicate 32 0) 0 ?x [0] = Inr b"
    by (simp add: kernel_event_bytes_def evidence_progress demo_evidence_def range_defs)
  then show ?thesis using that hex0 by (auto simp: demo_evidence_def Let_def)
qed

lemma mapR_progress: "(\<And>x. x \<in> set xs \<Longrightarrow> \<exists>y. f x = Inr y) \<Longrightarrow> \<exists>ys. mapR f xs = Inr ys"
  by (induction xs) fastforce+

lemma demo_ledger: obtains h where "ledger_commitment (re_ledger_transactions demo_evidence) = Inr h" "is_sha256_hex h"
proof -
  let ?x = "hd (re_ledger_transactions demo_evidence)"
  have x: "re_ledger_transactions demo_evidence = [?x]" by (simp add: demo_evidence_def)
  have "\<exists>b. posting_bytes p = Inr b" if "p \<in> set (sort_key posting_key (lt_postings ?x))" for p
  proof -
    have "p \<in> set (lt_postings ?x)" using that by simp
    then show ?thesis by (auto simp: posting_bytes_def evidence_progress demo_evidence_def range_defs)
  qed
  then obtain ps where "mapR posting_bytes (sort_key posting_key (lt_postings ?x)) = Inr ps" using mapR_progress by metis
  then have "\<exists>b. transaction_bytes ?x = Inr b"
    by (simp add: transaction_bytes_def evidence_progress range_defs Let_def) (simp add: evidence_progress demo_evidence_def range_defs)
  then obtain b where "transaction_bytes ?x = Inr b" ..
  moreover have "require_balanced ?x = Inr ()"
    by (auto simp: require_balanced_iff balance_def demo_evidence_def)
  ultimately have "ledger_commitment [?x] = Inr (sha256_hex (ascii ''TRL-LEDGER-PROOF-v1'' @ [0] @ enc_u64 1 @ b))"
    by (simp add: ledger_commitment_def evidence_progress range_defs)
  with that show ?thesis by (metis x sha256_hex_valid)
qed

lemma demo_proof: obtains pf where "build_proof ''s1'' demo_hash demo_evidence = Inr pf"
proof -
  have h: "fromhex demo_hash = Inr (enc_hash demo_hash)" "validated_sha demo_hash = Inr demo_hash"
    using enc_hash_bytes [OF demo_hash_valid] demo_hash_valid by (simp_all add: validated_sha_def is_sha256_hex_def)
  obtain a where a: "manifest_commitment [demo_hash] = Inr a" "is_sha256_hex a"
    by (simp add: manifest_commitment_def h evidence_u64_def U64_MAX_def)
  obtain c where c: "state_hash_commitment (re_state_hashes demo_evidence) = Inr c" "is_sha256_hex c"
    by (simp add: state_hash_commitment_def h evidence_progress demo_evidence_def range_defs)
  obtain evs f where k: "kernel_events ''s1'' 0 (replicate 32 0) (re_inputs demo_evidence) = Inr (evs, f)" by (rule demo_kernel)
  have f: "is_sha256_hex (hex f)" using kernel_events_length [OF k] is_sha256_hex_hex by simp
  obtain l where l: "ledger_commitment (re_ledger_transactions demo_evidence) = Inr l" "is_sha256_hex l" by (rule demo_ledger)
  have "\<exists>r. result_commitment ''s1'' a (hex f) c l (re_metrics demo_evidence) = Inr r"
    using enc_hash_bytes [OF a(2)] enc_hash_bytes [OF c(2)] enc_hash_bytes [OF f] enc_hash_bytes [OF l(2)]
    by (auto simp: result_commitment_def evidence_progress demo_evidence_def range_defs)
  then show ?thesis using that a c k l by (auto simp: build_proof_def Let_def)
qed

lemma demo_evidence_ok: "evidence_ok demo_evidence"
proof -
  have "list_all hex_char ''00''" by code_simp
  moreover have "result_sha256 demo_hash = Inr ()" using demo_hash_valid by (simp add: result_sha256_def is_sha256_hex_def)
  ultimately show ?thesis
    by (simp add: evidence_ok_def demo_evidence_def input_ok_def CanonicalInput_post_init_def result_identity_def has_control_def
        result_u64_def result_i64_def result_hex_def StateHashEvidence_post_init_def range_defs)
qed

lemma demo_finalize:
  assumes nc: "\<not> sha256_collision"
  obtains d fr d' where "(result_step demo_aead)\<^sup>*\<^sup>* create_schema d" "finalize ''s1'' ''alice'' demo_evidence 900 d = Inr (fr, d')"
proof -
  let ?s = "committed_setup demo_catalog demo_request"
  obtain r d where d: "service_step\<^sup>*\<^sup>* demo_created d" "session_state d ''s1'' = Some r" "rec_status r = COMPLETED"
    "rec_principal_id r = ''alice''" "rec_setup r = Some ?s" "ruleset_by_id d ''crypto'' = Some demo_ruleset_row"
    by (rule demo_completes [OF nc refl])
  note ex = service_steps_export [OF d(1)]
  have named: "all_named d" using ex by (simp add: all_named_def demo_created_def create_schema_def)
  have live: "live d" using ex demo_live(1) [OF refl] by blast
  have side: "db_commands d = []" "db_commitments d = []" "db_results d = []"
    using ex by (simp_all add: side_tables_def demo_created_def create_schema_def)
  obtain pf where pf: "build_proof ''s1'' demo_hash demo_evidence = Inr pf" by (rule demo_proof)
  have s: "cs_ruleset_id ?s = ''crypto''" "cs_ruleset_version ?s = ''1''" "cs_ruleset_hash ?s = demo_hash" "cs_manifest_hash ?s = demo_hash"
    by (simp_all add: committed_setup_def demo_request_def demo_rules_def)
  have "\<exists>fr d'. finalize ''s1'' (rec_principal_id r) demo_evidence 900 d = Inr (fr, d')"
  proof (rule finalize_progress [OF live named d(2,3,5), where row = demo_ruleset_row and body = "[]"])
    show "build_proof ''s1'' (cs_manifest_hash ?s) demo_evidence = Inr pf" by (simp add: s pf)
    show "in_i64 900" by (simp add: in_i64_def range_defs)
  qed (use d(6) side in \<open>simp_all add: s demo_ruleset_row_def demo_evidence_def\<close>)
  moreover have "(commitment_step demo_aead)\<^sup>*\<^sup>* create_schema d"
    using demo_commitment_reach service_commitment_steps [OF d(1)] by (rule rtranclp_trans)
  then have "(result_step demo_aead)\<^sup>*\<^sup>* create_schema d"
    by (rule rtranclp_mono [THEN predicate2D, rotated]) (blast intro: result_commitment)
  ultimately show ?thesis using that d(4) by auto
qed




end
