(* ===== verification/Strings.thy ===== *)
theory Strings
  imports Json
begin

text \<open>
  The string methods the ingest worker and the contract runtime use beyond \<open>Text\<close>, and the readers of canonical decimal
  integers. Error messages matter here: a quality report quotes them, so a reader of this theory returns \<open>Inl\<close> the
  message of the \<^verbatim>\<open>ValueError\<close> it raises.
\<close>

definition endswith :: "string \<Rightarrow> string \<Rightarrow> bool" where
  "endswith s p \<longleftrightarrow> length p \<le> length s \<and> drop (length s - length p) s = p"

lemma endswith_append [simp]: "endswith (s @ p) p"
  by (simp add: endswith_def)

lemma endswith_iff: "endswith s p \<longleftrightarrow> (\<exists>t. s = t @ p)"
proof
  assume "endswith s p"
  then have "s = take (length s - length p) s @ p" by (metis append_take_drop_id endswith_def)
  then show "\<exists>t. s = t @ p" by blast
qed auto

type_synonym 'a msg = "string + 'a"

definition bindM :: "'a msg \<Rightarrow> ('a \<Rightarrow> 'b msg) \<Rightarrow> 'b msg" where
  "bindM m f = (case m of Inl e \<Rightarrow> Inl e | Inr x \<Rightarrow> f x)"

definition requireM :: "bool \<Rightarrow> string \<Rightarrow> unit msg" where
  "requireM b e = (if b then Inr () else Inl e)"

lemma bindM_simps [simp]:
  "bindM (Inl e) f = Inl e" "bindM (Inr x) f = f x"
  "bindM m f = Inr y \<longleftrightarrow> (\<exists>x. m = Inr x \<and> f x = Inr y)"
  by (cases m; simp add: bindM_def)+

lemma requireM_simps [simp]:
  "requireM True e = Inr ()" "requireM False e = Inl e" "requireM b e = Inr u \<longleftrightarrow> b"
  by (simp_all add: requireM_def)

fun mapM :: "('a \<Rightarrow> 'b msg) \<Rightarrow> 'a list \<Rightarrow> 'b list msg" where
  "mapM f [] = Inr []"
| "mapM f (x # xs) = bindM (f x) (\<lambda>y. bindM (mapM f xs) (\<lambda>ys. Inr (y # ys)))"

lemma mapM_eq_Inr: "mapM f xs = Inr ys \<longleftrightarrow> list_all2 (\<lambda>x y. f x = Inr y) xs ys"
  by (induction xs arbitrary: ys) (auto simp: list_all2_Cons1)

text \<open>\<^verbatim>\<open>int(value, 10)\<close> of a checked decimal text fails only on the length limit of the interpreter.\<close>

definition int_limit_message :: "nat \<Rightarrow> string" where
  "int_limit_message n = ''Exceeds the limit ('' @ dec int_max_str_digits @ '' digits) for integer string conversion: value has '' @
     dec n @ '' digits; use sys.set_int_max_str_digits() to increase the limit''"

definition int_checked :: "string \<Rightarrow> int msg" where
  "int_checked value = (case py_int value of Inr n \<Rightarrow> Inr n
     | Inl _ \<Rightarrow> Inl (int_limit_message (length (if startswith value ''-'' then tl value else value))))"

lemma canonical_str_int: "signed_canonical s \<longleftrightarrow> (\<exists>n. s = str_int n)"
proof
  assume s: "signed_canonical s"
  show "\<exists>n. s = str_int n"
  proof (cases "startswith s ''-''")
    case True
    then obtain d where d: "s = CHR ''-'' # d" by (cases s) auto
    with s have "canonical_digits d" "d \<noteq> ''0''" by (auto simp: signed_canonical_def)
    then have "0 < dec_val d" "dec (dec_val d) = d" using dec_val_zero dec_dec_val by blast+
    then have "s = str_int (- int (dec_val d))" by (simp add: d str_int_def)
    then show ?thesis ..
  next
    case False
    with s have "dec (dec_val s) = s" using dec_dec_val by (simp add: signed_canonical_def)
    then have "s = str_int (int (dec_val s))" by (simp add: str_int_def)
    then show ?thesis ..
  qed
qed auto

text \<open>A set membership test hashes its left side, which fails for arrays and objects.\<close>

fun hashable :: "json \<Rightarrow> bool" where
  "hashable (JList _) = False"
| "hashable (JObj _) = False"
| "hashable _ = True"

definition in_set :: "json \<Rightarrow> string list \<Rightarrow> bool res" where
  "in_set value names = (if hashable value then Inr (value \<in> JStr ` set names) else Inl TypeError)"

text \<open>Truth of a value in a condition; the text of a float is zero if it is \<^verbatim>\<open>0.0\<close> or \<^verbatim>\<open>-0.0\<close>.\<close>

fun truthy :: "json \<Rightarrow> bool" where
  "truthy JNull = False"
| "truthy (JBool b) = b"
| "truthy (JInt n) = (n \<noteq> 0)"
| "truthy (JFloat r) = (r \<notin> {''0.0'', ''-0.0''})"
| "truthy (JStr s) = (s \<noteq> [])"
| "truthy (JList xs) = (xs \<noteq> [])"
| "truthy (JObj fs) = (fs \<noteq> [])"

section \<open>Decoding UTF-8\<close>

text \<open>\<^verbatim>\<open>bytes.decode("utf-8")\<close> for the characters a \<open>string\<close> has, those up to 255; a longer sequence of bytes
  is treated like an invalid one.\<close>

fun utf8_decode :: "bytes \<Rightarrow> string res" where
  "utf8_decode [] = Inr []"
| "utf8_decode (b # bs) =
     (if b < 128 then bindR (utf8_decode bs) (\<lambda>s. Inr (char_of (unat b) # s))
      else case bs of
          c # cs \<Rightarrow>
            if (b = 194 \<or> b = 195) \<and> 128 \<le> c \<and> c < 192 then
              bindR (utf8_decode cs) (\<lambda>s. Inr (char_of (64 * (unat b - 192) + (unat c - 128)) # s))
            else Inl ValueError
        | [] \<Rightarrow> Inl ValueError)"

lemma utf8_decode_utf8 [simp]: "utf8_decode (utf8 s) = Inr s"
proof (induction s)
  case Nil
  then show ?case by (simp add: utf8_def)
next
  case (Cons c s)
  have lt: "ord c < 256" by simp
  show ?case
  proof (cases "ord c < 128")
    case True
    then have "(of_nat (ord c) :: 8 word) < 128" "unat (of_nat (ord c) :: 8 word) = ord c"
      by (simp_all add: word_less_nat_alt unat_of_nat)
    with True Cons show ?thesis by (simp add: utf8_Cons utf8_char_def)
  next
    case False
    let ?b = "of_nat (192 + ord c div 64) :: 8 word" and ?c = "of_nat (128 + ord c mod 64) :: 8 word"
    have "ord c div 64 < 4" using lt by (simp add: less_mult_imp_div_less)
    then have ub: "unat ?b = 192 + ord c div 64" by (intro unat_of_nat_byte) simp
    have "ord c mod 64 < 64" by simp
    then have uc: "unat ?c = 128 + ord c mod 64" by (intro unat_of_nat_byte) linarith
    have "ord c div 64 = 2 \<or> ord c div 64 = 3" using False \<open>ord c div 64 < 4\<close> by linarith
    then have b: "?b = 194 \<or> ?b = 195" by auto
    have b2: "\<not> ?b < 128" unfolding word_less_nat_alt ub by simp
    have c: "128 \<le> ?c" "?c < 192" unfolding word_le_nat_alt word_less_nat_alt uc using \<open>ord c mod 64 < 64\<close> by simp_all
    have "64 * (unat ?b - 192) + (unat ?c - 128) = ord c" unfolding ub uc by simp
    with b b2 c Cons False show ?thesis by (simp add: utf8_Cons utf8_char_def del: of_nat_add)
  qed
qed

end
