(* ===== verification/Quality.thy ===== *)
theory Quality
  imports Strings
begin

text \<open>
  \<^verbatim>\<open>quality/__init__.py\<close> of the ingest worker: the checks of a canonical event feed and the immutable status
  decision derived from them. Issue details are modelled with their text, since the decision hash covers them.
\<close>

section \<open>Data\<close>

datatype Severity = SEV_INFO | SEV_DEGRADED | SEV_QUARANTINED

fun severity_int :: "Severity \<Rightarrow> int" where
  "severity_int SEV_INFO = 0"
| "severity_int SEV_DEGRADED = 1"
| "severity_int SEV_QUARANTINED = 2"

instantiation Severity :: linorder
begin

definition less_eq_Severity :: "Severity \<Rightarrow> Severity \<Rightarrow> bool" where
  "less_eq_Severity a b \<longleftrightarrow> severity_int a \<le> severity_int b"

definition less_Severity :: "Severity \<Rightarrow> Severity \<Rightarrow> bool" where
  "less_Severity a b \<longleftrightarrow> severity_int a < severity_int b"

instance
proof
  fix a b :: Severity
  show "a \<le> b \<Longrightarrow> b \<le> a \<Longrightarrow> a = b" by (cases a; cases b) (simp_all add: less_eq_Severity_def)
qed (auto simp: less_eq_Severity_def less_Severity_def)

end

record QualityIssue =
  qi_code :: string
  qi_severity :: Severity
  qi_event_index :: "nat option"
  qi_detail :: string

record QualityPolicy =
  qp_tick_size_atoms :: int
  qp_qty_increment_atoms :: int
  qp_max_gap_ns :: int
  qp_max_quote_staleness_ns :: int

definition QualityPolicy_post_init :: "QualityPolicy \<Rightarrow> unit res" where
  "QualityPolicy_post_init p =
     bindR (require (\<not> (qp_tick_size_atoms p \<le> 0 \<or> qp_qty_increment_atoms p \<le> 0)) ValueError) (\<lambda>_.
     require (\<not> (qp_max_gap_ns p < 0 \<or> qp_max_quote_staleness_ns p < 0)) ValueError)"

record QualityReport =
  qr_status :: string
  qr_row_count :: nat
  qr_min_event_ts_ns :: "int option"
  qr_max_event_ts_ns :: "int option"
  qr_duplicates :: nat
  qr_issues :: "QualityIssue list"
  qr_decision_hash :: string

section \<open>Readers\<close>

definition quality_wire_int :: "json \<Rightarrow> int msg" where
  "quality_wire_int value =
     (case value of
        JStr text \<Rightarrow>
          bindM (requireM (text \<noteq> []) ''exact integer must be a canonical decimal string'') (\<lambda>_.
          bindM (requireM (\<not> (text = ''-0'' \<or> startswith text ''+'' \<or> 1 < length text \<and> startswith text ''0''))
            ''non-canonical decimal integer'') (\<lambda>_.
          bindM (if startswith text ''-''
             then bindM (requireM (\<not> (tl text = [] \<or> 1 < length (tl text) \<and> startswith (tl text) ''0''))
               ''non-canonical decimal integer'') (\<lambda>_. Inr (tl text))
             else Inr text) (\<lambda>digits.
          bindM (requireM (\<not> (\<not> isascii digits \<or> \<not> isdigit digits)) ''non-canonical decimal integer'') (\<lambda>_.
          int_checked text))))
      | _ \<Rightarrow> Inl ''exact integer must be a canonical decimal string'')"

definition quality_payload :: "fields \<Rightarrow> fields msg" where
  "quality_payload event = (case jget event ''payload'' of JObj fs \<Rightarrow> Inr fs | _ \<Rightarrow> Inl ''payload must be an object'')"

definition quality_level :: "json \<Rightarrow> (int \<times> int) msg" where
  "quality_level level =
     (case level of
        JObj fs \<Rightarrow>
          bindM (quality_wire_int (jget fs ''price_atoms'')) (\<lambda>price.
          bindM (quality_wire_int (jget fs ''qty_atoms'')) (\<lambda>qty.
          Inr (price, qty)))
      | _ \<Rightarrow> Inl ''book level must be an object'')"

definition quality_levels :: "fields \<Rightarrow> string \<Rightarrow> (int \<times> int) list msg" where
  "quality_levels payload side =
     (case jget payload side of
        JList raw \<Rightarrow> mapM quality_level raw
      | _ \<Rightarrow> Inl (side @ '' must be an array''))"

definition price_issues :: "QualityPolicy \<Rightarrow> nat \<Rightarrow> string \<Rightarrow> json \<Rightarrow> QualityIssue list" where
  "price_issues policy index key item =
     (case quality_wire_int item of
        Inl error \<Rightarrow> [\<lparr>qi_code = ''INVALID_INTEGER'', qi_severity = SEV_QUARANTINED, qi_event_index = Some index, qi_detail = error\<rparr>]
      | Inr atoms \<Rightarrow>
          if \<bar>atoms\<bar> mod qp_tick_size_atoms policy \<noteq> 0
          then [\<lparr>qi_code = ''PRICE_INCREMENT'', qi_severity = SEV_QUARANTINED, qi_event_index = Some index,
                 qi_detail = key @ ''='' @ str_int atoms @ '' is not aligned to '' @ str_int (qp_tick_size_atoms policy)\<rparr>]
          else [])"

definition qty_issues :: "QualityPolicy \<Rightarrow> nat \<Rightarrow> string \<Rightarrow> json \<Rightarrow> QualityIssue list" where
  "qty_issues policy index key item =
     (case quality_wire_int item of
        Inl error \<Rightarrow> [\<lparr>qi_code = ''INVALID_INTEGER'', qi_severity = SEV_QUARANTINED, qi_event_index = Some index, qi_detail = error\<rparr>]
      | Inr atoms \<Rightarrow>
          if atoms < 0 \<or> atoms mod qp_qty_increment_atoms policy \<noteq> 0
          then [\<lparr>qi_code = ''QUANTITY_INCREMENT'', qi_severity = SEV_QUARANTINED, qi_event_index = Some index,
                 qi_detail = key @ ''='' @ str_int atoms @ '' is not aligned to '' @ str_int (qp_qty_increment_atoms policy)\<rparr>]
          else [])"

fun increment_issues :: "QualityPolicy \<Rightarrow> nat \<Rightarrow> fields \<Rightarrow> QualityIssue list"
  and increment_issues_nested :: "QualityPolicy \<Rightarrow> nat \<Rightarrow> json list \<Rightarrow> QualityIssue list" where
  "increment_issues policy index [] = []"
| "increment_issues policy index ((key, item) # rest) =
     (if endswith key ''price_atoms'' then price_issues policy index key item
      else if endswith key ''qty_atoms'' \<or> endswith key ''volume_atoms'' then qty_issues policy index key item
      else case item of
          JObj nested \<Rightarrow> increment_issues policy index nested
        | JList items \<Rightarrow> increment_issues_nested policy index items
        | _ \<Rightarrow> []) @ increment_issues policy index rest"
| "increment_issues_nested policy index [] = []"
| "increment_issues_nested policy index (item # items) =
     (case item of JObj nested \<Rightarrow> increment_issues policy index nested | _ \<Rightarrow> []) @
     increment_issues_nested policy index items"

section \<open>The decision\<close>

definition optional_int :: "int option \<Rightarrow> json" where
  "optional_int x = (case x of None \<Rightarrow> JNull | Some n \<Rightarrow> JInt n)"

definition issue_json :: "QualityIssue \<Rightarrow> json" where
  "issue_json x = JObj [(''code'', JStr (qi_code x)), (''detail'', JStr (qi_detail x)),
     (''event_index'', optional_int (map_option int (qi_event_index x))),
     (''severity'', JInt (severity_int (qi_severity x)))]"

definition decision_hash ::
    "string \<Rightarrow> nat \<Rightarrow> int option \<Rightarrow> int option \<Rightarrow> nat \<Rightarrow> QualityIssue list \<Rightarrow> string" where
  "decision_hash status row_count minimum maximum duplicates issues =
     sha256_hex (utf8 (dumps_raw (JObj [(''duplicates'', JInt (int duplicates)),
       (''issues'', JList (map issue_json issues)), (''max_event_ts_ns'', optional_int maximum),
       (''min_event_ts_ns'', optional_int minimum), (''row_count'', JInt (int row_count)), (''status'', JStr status)])))"

section \<open>The loop\<close>

record quality_state =
  qs_issues :: "QualityIssue list"
  qs_seen :: "bytes list"
  qs_duplicates :: nat
  qs_minimum :: "int option"
  qs_maximum :: "int option"
  qs_prior_ts :: "int option"
  qs_prior_sequence :: "int option"
  qs_prior_quote_ts :: "int option"
  qs_book_ready :: bool

definition quality_init :: quality_state where
  "quality_init = \<lparr>qs_issues = [], qs_seen = [], qs_duplicates = 0, qs_minimum = None, qs_maximum = None,
     qs_prior_ts = None, qs_prior_sequence = None, qs_prior_quote_ts = None, qs_book_ready = False\<rparr>"

definition add_issue :: "string \<Rightarrow> Severity \<Rightarrow> nat \<Rightarrow> string \<Rightarrow> quality_state \<Rightarrow> quality_state" where
  "add_issue code severity index detail s = s\<lparr>qs_issues := qs_issues s @
     [\<lparr>qi_code = code, qi_severity = severity, qi_event_index = Some index, qi_detail = detail\<rparr>]\<rparr>"

definition event_bytes :: "fields \<Rightarrow> bytes" where
  "event_bytes event = utf8 (dumps_raw (JObj event))"

definition check_duplicate :: "nat \<Rightarrow> fields \<Rightarrow> quality_state \<Rightarrow> quality_state" where
  "check_duplicate index event s =
     (if event_bytes event \<in> set (qs_seen s)
      then add_issue ''DUPLICATE'' SEV_DEGRADED index ''exact duplicate event'' (s\<lparr>qs_duplicates := qs_duplicates s + 1\<rparr>)
      else s\<lparr>qs_seen := qs_seen s @ [event_bytes event]\<rparr>)"

definition check_time :: "QualityPolicy \<Rightarrow> nat \<Rightarrow> int \<Rightarrow> quality_state \<Rightarrow> quality_state" where
  "check_time policy index ts s0 =
     (let s = s0\<lparr>qs_minimum := Some (case qs_minimum s0 of None \<Rightarrow> ts | Some m \<Rightarrow> min m ts),
                 qs_maximum := Some (case qs_maximum s0 of None \<Rightarrow> ts | Some m \<Rightarrow> max m ts)\<rparr>;
          s = (case qs_prior_ts s of
                 None \<Rightarrow> s
               | Some prior \<Rightarrow>
                   if ts < prior then add_issue ''OUT_OF_ORDER'' SEV_QUARANTINED index ''event timestamp regressed'' s
                   else if ts - prior > qp_max_gap_ns policy
                   then add_issue ''TIME_GAP'' SEV_DEGRADED index
                     (''gap '' @ str_int (ts - prior) @ ''ns exceeds '' @ str_int (qp_max_gap_ns policy) @ ''ns'') s
                   else s)
      in s\<lparr>qs_prior_ts := Some ts\<rparr>)"

definition check_sequence :: "nat \<Rightarrow> fields \<Rightarrow> quality_state \<Rightarrow> quality_state res" where
  "check_sequence index event s =
     (if jget event ''source_sequence'' = JNull then Inr s
      else case quality_wire_int (jget event ''source_sequence'') of
        Inl error \<Rightarrow> Inr (add_issue ''INVALID_SEQUENCE'' SEV_QUARANTINED index error s)
      | Inr sequence \<Rightarrow>
          bindR (case qs_prior_sequence s of
              None \<Rightarrow> Inr s
            | Some prior \<Rightarrow>
                if sequence = prior + 1 then Inr s
                else let kind = jget event ''kind'' in
                  bindR (require (hashable kind) TypeError) (\<lambda>_.
                  let severity = (if kind \<in> {JStr ''BOOK_DELTA_L2'', JStr ''BOOK_SNAPSHOT_L2''} then SEV_QUARANTINED else SEV_DEGRADED);
                      code = (if severity = SEV_QUARANTINED then ''BOOK_SEQUENCE_GAP'' else ''SOURCE_SEQUENCE_GAP'')
                  in Inr (add_issue code severity index
                       (''expected '' @ str_int (prior + 1) @ '', received '' @ str_int sequence) s))) (\<lambda>s.
          Inr (s\<lparr>qs_prior_sequence := Some sequence\<rparr>)))"

definition check_snapshot :: "nat \<Rightarrow> fields \<Rightarrow> quality_state \<Rightarrow> quality_state" where
  "check_snapshot index payload s =
     (case bindM (quality_levels payload ''bids'') (\<lambda>bids. bindM (quality_levels payload ''asks'') (\<lambda>asks. Inr (bids, asks))) of
        Inl error \<Rightarrow> add_issue ''INVALID_BOOK'' SEV_QUARANTINED index error s
      | Inr (bids, asks) \<Rightarrow>
          let s = s\<lparr>qs_book_ready := True\<rparr> in
          if bids \<noteq> [] \<and> asks \<noteq> [] \<and> Max (set (map fst bids)) \<ge> Min (set (map fst asks))
          then add_issue ''CROSSED_BOOK'' SEV_QUARANTINED index ''snapshot bid crosses ask'' s else s)"

definition check_crossed :: "nat \<Rightarrow> fields \<Rightarrow> quality_state \<Rightarrow> quality_state" where
  "check_crossed index payload s =
     (let bid = jget payload ''bid_price_atoms''; ask = jget payload ''ask_price_atoms'' in
      if bid \<noteq> JNull \<and> ask \<noteq> JNull
      then case bindM (quality_wire_int bid) (\<lambda>b. bindM (quality_wire_int ask) (\<lambda>a. Inr (b \<ge> a))) of
          Inl error \<Rightarrow> add_issue ''INVALID_BBO'' SEV_QUARANTINED index error s
        | Inr crossed \<Rightarrow> if crossed then add_issue ''CROSSED_BBO'' SEV_DEGRADED index ''bid is not below ask'' s else s
      else s)"

definition check_stale :: "QualityPolicy \<Rightarrow> nat \<Rightarrow> int \<Rightarrow> quality_state \<Rightarrow> quality_state" where
  "check_stale policy index ts s =
     (case qs_prior_quote_ts s of
        None \<Rightarrow> s
      | Some prior \<Rightarrow>
          if ts - prior > qp_max_quote_staleness_ns policy
          then add_issue ''STALE_QUOTE_INTERVAL'' SEV_DEGRADED index ''BBO update interval exceeded threshold'' s
          else s)"

definition check_bbo :: "QualityPolicy \<Rightarrow> nat \<Rightarrow> int \<Rightarrow> fields \<Rightarrow> quality_state \<Rightarrow> quality_state" where
  "check_bbo policy index ts payload s =
     (check_stale policy index ts (check_crossed index payload s))\<lparr>qs_prior_quote_ts := Some ts\<rparr>"

definition check_kind :: "QualityPolicy \<Rightarrow> nat \<Rightarrow> int \<Rightarrow> json \<Rightarrow> fields \<Rightarrow> quality_state \<Rightarrow> quality_state" where
  "check_kind policy index ts event_kind payload s =
     (if event_kind = JStr ''BOOK_SNAPSHOT_L2'' then check_snapshot index payload s
      else if event_kind = JStr ''BOOK_DELTA_L2'' \<and> \<not> qs_book_ready s
      then add_issue ''DELTA_WITHOUT_SNAPSHOT'' SEV_QUARANTINED index ''L2 delta cannot be reconstructed'' s
      else if event_kind = JStr ''BBO'' then check_bbo policy index ts payload s
      else s)"

definition validate_event :: "QualityPolicy \<Rightarrow> quality_state \<Rightarrow> nat \<times> fields \<Rightarrow> quality_state res" where
  "validate_event policy s0 = (\<lambda>(index, event).
     let s = check_duplicate index event s0 in
     case quality_wire_int (jget event ''ts_event_ns'') of
       Inl error \<Rightarrow> Inr (add_issue ''INVALID_TIMESTAMP'' SEV_QUARANTINED index error s)
     | Inr ts \<Rightarrow>
         bindR (check_sequence index event (check_time policy index ts s)) (\<lambda>s.
         case quality_payload event of
           Inl error \<Rightarrow> Inr (add_issue ''INVALID_PAYLOAD'' SEV_QUARANTINED index error s)
         | Inr payload \<Rightarrow>
             Inr (check_kind policy index ts (jget event ''kind'') payload
               (s\<lparr>qs_issues := qs_issues s @ increment_issues policy index payload\<rparr>))))"

definition highest_severity :: "QualityIssue list \<Rightarrow> Severity" where
  "highest_severity issues = (if issues = [] then SEV_INFO else Max (set (map qi_severity issues)))"

definition quality_status :: "QualityIssue list \<Rightarrow> string" where
  "quality_status issues =
     (if highest_severity issues = SEV_QUARANTINED then ''QUARANTINED''
      else if highest_severity issues = SEV_DEGRADED then ''DEGRADED'' else ''VALID'')"

definition validate_events :: "fields list \<Rightarrow> QualityPolicy \<Rightarrow> QualityReport res" where
  "validate_events events policy =
     bindR (foldR (validate_event policy) quality_init (enumerate 0 events)) (\<lambda>s.
     let status = quality_status (qs_issues s) in
     Inr \<lparr>qr_status = status, qr_row_count = length events, qr_min_event_ts_ns = qs_minimum s,
          qr_max_event_ts_ns = qs_maximum s, qr_duplicates = qs_duplicates s, qr_issues = qs_issues s,
          qr_decision_hash = decision_hash status (length events) (qs_minimum s) (qs_maximum s) (qs_duplicates s) (qs_issues s)\<rparr>)"

end
