(* ===== verification/Quality_Theorems.thy ===== *)
theory Quality_Theorems
  imports Quality
begin

text \<open>
  What a quality report says about a feed: it is \<^verbatim>\<open>VALID\<close> exactly for the well-formed feeds, and its counts and
  time bounds are exact for every feed.
\<close>

section \<open>Exact integers\<close>

text \<open>The text of an integer within the length limit of the interpreter.\<close>

definition exact :: "json \<Rightarrow> int \<Rightarrow> bool" where
  "exact v n \<longleftrightarrow> v = JStr (str_int n) \<and> length (dec (nat \<bar>n\<bar>)) \<le> int_max_str_digits"

lemma int_checked_str: "int_checked (str_int n) = Inr m \<longleftrightarrow> m = n \<and> length (dec (nat \<bar>n\<bar>)) \<le> int_max_str_digits"
proof (cases "n < 0")
  case True
  then show ?thesis
    by (auto simp: int_checked_def str_int_def py_int_minus dec_ascii split: sum.splits if_splits)
next
  case False
  then show ?thesis
    by (auto simp: int_checked_def str_int_def py_int_digits dec_ascii split: sum.splits if_splits)
qed

lemma quality_wire_int_iff: "quality_wire_int v = Inr n \<longleftrightarrow> exact v n"
proof
  assume w: "quality_wire_int v = Inr n"
  then obtain s where v: "v = JStr s" by (cases v) (auto simp: quality_wire_int_def)
  have "signed_canonical s"
  proof (cases "startswith s ''-''")
    case True
    then obtain d where s: "s = CHR ''-'' # d" by (cases s) auto
    from w have "isascii d \<and> isdigit d" "1 < length d \<longrightarrow> \<not> startswith d ''0''" "d \<noteq> ''0''" "d \<noteq> []"
      by (auto simp: v s quality_wire_int_def)
    then show ?thesis
      by (auto simp: s signed_canonical_def canonical_digits_def isascii_isdigit startswith_hd) (cases d; cases "tl d"; auto)
  next
    case False
    with w have "isascii s \<and> isdigit s" "1 < length s \<longrightarrow> \<not> startswith s ''0''" "s \<noteq> []"
      by (auto simp: v quality_wire_int_def)
    with False show ?thesis
      by (auto simp: signed_canonical_def canonical_digits_def isascii_isdigit startswith_hd) (cases s; cases "tl s"; auto)
  qed
  then obtain m where "s = str_int m" using canonical_str_int by blast
  with w show "exact v n" by (auto simp: v quality_wire_int_def exact_def int_checked_str split: if_splits)
next
  assume v: "exact v n"
  have zero: "\<not> (1 < length (dec k) \<and> startswith (dec k) ''0'')" for k
    by (cases "k = 0") auto
  show "quality_wire_int v = Inr n"
    using v int_checked_str [of n n] zero [of "nat n"] zero [of "nat (- n)"]
    by (cases "n < 0") (auto simp: exact_def quality_wire_int_def str_int_def)
qed

section \<open>Increments\<close>

text \<open>The fields of a payload whose increments are checked, in nested objects and in objects of lists.\<close>

fun atom_fields :: "fields \<Rightarrow> (string \<times> json) list" and atom_items :: "json list \<Rightarrow> (string \<times> json) list" where
  "atom_fields [] = []"
| "atom_fields ((k, v) # fs) =
     (if endswith k ''price_atoms'' \<or> endswith k ''qty_atoms'' \<or> endswith k ''volume_atoms'' then [(k, v)]
      else case v of JObj gs \<Rightarrow> atom_fields gs | JList xs \<Rightarrow> atom_items xs | _ \<Rightarrow> []) @ atom_fields fs"
| "atom_items [] = []"
| "atom_items (x # xs) = (case x of JObj gs \<Rightarrow> atom_fields gs | _ \<Rightarrow> []) @ atom_items xs"

definition aligned :: "QualityPolicy \<Rightarrow> string \<times> json \<Rightarrow> bool" where
  "aligned p = (\<lambda>(k, v). \<exists>n. exact v n \<and>
     (if endswith k ''price_atoms'' then qp_tick_size_atoms p dvd n else 0 \<le> n \<and> qp_qty_increment_atoms p dvd n))"

lemma price_issues_Nil: "endswith k ''price_atoms'' \<Longrightarrow> price_issues p i k v = [] \<longleftrightarrow> aligned p (k, v)"
  by (cases "quality_wire_int v") (auto simp: price_issues_def aligned_def mod_eq_0_iff_dvd quality_wire_int_iff [symmetric])

lemma qty_issues_Nil: "\<not> endswith k ''price_atoms'' \<Longrightarrow> qty_issues p i k v = [] \<longleftrightarrow> aligned p (k, v)"
  by (cases "quality_wire_int v") (auto simp: qty_issues_def aligned_def mod_eq_0_iff_dvd quality_wire_int_iff [symmetric])

lemma increment_issues_Nil:
  "increment_issues p i fs = [] \<longleftrightarrow> list_all (aligned p) (atom_fields fs)"
  "increment_issues_nested p i xs = [] \<longleftrightarrow> list_all (aligned p) (atom_items xs)"
proof (induction p i fs and p i xs rule: increment_issues_increment_issues_nested.induct)
  case (2 p i k v fs)
  then show ?case by (cases v) (auto simp: price_issues_Nil qty_issues_Nil)
next
  case (4 p i x xs)
  then show ?case by (cases x) auto
qed auto

section \<open>Well-formed feeds\<close>

definition time_of :: "fields \<Rightarrow> int" where
  "time_of e = (case quality_wire_int (jget e ''ts_event_ns'') of Inr t \<Rightarrow> t | Inl _ \<Rightarrow> 0)"

definition sequence_of :: "fields \<Rightarrow> int option" where
  "sequence_of e = (if jget e ''source_sequence'' = JNull then None
     else case quality_wire_int (jget e ''source_sequence'') of Inr n \<Rightarrow> Some n | Inl _ \<Rightarrow> None)"

definition of_kind :: "string \<Rightarrow> fields \<Rightarrow> bool" where
  "of_kind k e \<longleftrightarrow> jget e ''kind'' = JStr k"

definition sequences :: "fields list \<Rightarrow> int list" where
  "sequences es = List.map_filter sequence_of es"

definition quotes :: "fields list \<Rightarrow> int list" where
  "quotes es = map time_of (filter (of_kind ''BBO'') es)"

definition book_clean :: "fields \<Rightarrow> bool" where
  "book_clean fs \<longleftrightarrow> (\<exists>bids asks. quality_levels fs ''bids'' = Inr bids \<and> quality_levels fs ''asks'' = Inr asks \<and>
     (\<forall>b\<in>set bids. \<forall>a\<in>set asks. fst b < fst a))"

definition quote_clean :: "fields \<Rightarrow> bool" where
  "quote_clean fs \<longleftrightarrow> jget fs ''bid_price_atoms'' = JNull \<or> jget fs ''ask_price_atoms'' = JNull \<or>
     (\<exists>b a. exact (jget fs ''bid_price_atoms'') b \<and> exact (jget fs ''ask_price_atoms'') a \<and> b < a)"

definition event_clean :: "QualityPolicy \<Rightarrow> fields \<Rightarrow> bool" where
  "event_clean p e \<longleftrightarrow> (\<exists>t. exact (jget e ''ts_event_ns'') t) \<and>
     (jget e ''source_sequence'' = JNull \<or> (\<exists>n. exact (jget e ''source_sequence'') n)) \<and>
     (\<exists>fs. jget e ''payload'' = JObj fs \<and> list_all (aligned p) (atom_fields fs) \<and>
        (of_kind ''BOOK_SNAPSHOT_L2'' e \<longrightarrow> book_clean fs) \<and> (of_kind ''BBO'' e \<longrightarrow> quote_clean fs))"

definition feed_ok :: "QualityPolicy \<Rightarrow> fields list \<Rightarrow> bool" where
  "feed_ok p es \<longleftrightarrow> list_all (event_clean p) es \<and> distinct (map event_bytes es) \<and>
     successively (\<lambda>a b. a \<le> b \<and> b - a \<le> qp_max_gap_ns p) (map time_of es) \<and>
     successively (\<lambda>a b. b = a + 1) (sequences es) \<and>
     successively (\<lambda>a b. b - a \<le> qp_max_quote_staleness_ns p) (quotes es) \<and>
     (\<forall>pre e post. es = pre @ e # post \<longrightarrow> of_kind ''BOOK_DELTA_L2'' e \<longrightarrow> list_ex (of_kind ''BOOK_SNAPSHOT_L2'') pre)"

definition last_of :: "'a list \<Rightarrow> 'a option" where
  "last_of xs = (if xs = [] then None else Some (last xs))"

lemma last_of_snoc [simp]: "last_of [] = None" "last_of (xs @ [x]) = Some x"
  by (simp_all add: last_of_def)

definition follows :: "('a \<Rightarrow> 'a \<Rightarrow> bool) \<Rightarrow> 'a option \<Rightarrow> 'a \<Rightarrow> bool" where
  "follows R x y \<longleftrightarrow> (\<forall>a. x = Some a \<longrightarrow> R a y)"

lemma successively_snoc: "successively R (xs @ [x]) \<longleftrightarrow> successively R xs \<and> follows R (last_of xs) x"
  by (auto simp: successively_append_iff follows_def last_of_def)

text \<open>What an event must satisfy to extend a well-formed feed.\<close>

definition extends :: "QualityPolicy \<Rightarrow> fields list \<Rightarrow> fields \<Rightarrow> bool" where
  "extends p es e \<longleftrightarrow> event_clean p e \<and> event_bytes e \<notin> set (map event_bytes es) \<and>
     follows (\<lambda>a b. a \<le> b \<and> b - a \<le> qp_max_gap_ns p) (last_of (map time_of es)) (time_of e) \<and>
     (\<forall>n. sequence_of e = Some n \<longrightarrow> follows (\<lambda>a b. b = a + 1) (last_of (sequences es)) n) \<and>
     (of_kind ''BBO'' e \<longrightarrow> follows (\<lambda>a b. b - a \<le> qp_max_quote_staleness_ns p) (last_of (quotes es)) (time_of e)) \<and>
     (of_kind ''BOOK_DELTA_L2'' e \<longrightarrow> list_ex (of_kind ''BOOK_SNAPSHOT_L2'') es)"

lemma feed_ok_snoc: "feed_ok p (es @ [e]) \<longleftrightarrow> feed_ok p es \<and> extends p es e"
proof -
  have "(\<forall>pre x post. es @ [e] = pre @ x # post \<longrightarrow> Q x \<longrightarrow> P pre) \<longleftrightarrow>
      (\<forall>pre x post. es = pre @ x # post \<longrightarrow> Q x \<longrightarrow> P pre) \<and> (Q e \<longrightarrow> P es)" for Q P
  proof (intro iffI conjI allI impI)
    fix pre x post
    assume "(\<forall>pre x post. es = pre @ x # post \<longrightarrow> Q x \<longrightarrow> P pre) \<and> (Q e \<longrightarrow> P es)" and "es @ [e] = pre @ x # post" and "Q x"
    then show "P pre" by (cases post rule: rev_cases) auto
  qed auto
  then show ?thesis
    by (cases "sequence_of e") (auto simp: feed_ok_def extends_def sequences_def quotes_def map_filter_def successively_snoc)
qed

section \<open>The checks\<close>

text \<open>What the state remembers of a feed without issues.\<close>

definition remembers :: "fields list \<Rightarrow> quality_state \<Rightarrow> bool" where
  "remembers es s \<longleftrightarrow> qs_seen s = map event_bytes es \<and> qs_prior_ts s = last_of (map time_of es) \<and>
     qs_prior_sequence s = last_of (sequences es) \<and> qs_prior_quote_ts s = last_of (quotes es) \<and>
     qs_book_ready s = list_ex (of_kind ''BOOK_SNAPSHOT_L2'') es"

lemma add_issue_simps [simp]:
  "qs_issues (add_issue c v i m s) \<noteq> []" "[] \<noteq> qs_issues (add_issue c v i m s)"
  by (simp_all add: add_issue_def)

lemma check_duplicate_clean:
  "qs_issues (check_duplicate i e s) = [] \<longleftrightarrow> qs_issues s = [] \<and> event_bytes e \<notin> set (qs_seen s)"
  "event_bytes e \<notin> set (qs_seen s) \<Longrightarrow> check_duplicate i e s = s\<lparr>qs_seen := qs_seen s @ [event_bytes e]\<rparr>"
  by (auto simp: check_duplicate_def)

lemma check_time_clean:
  "qs_issues (check_time p i ts s) = [] \<longleftrightarrow>
     qs_issues s = [] \<and> follows (\<lambda>a b. a \<le> b \<and> b - a \<le> qp_max_gap_ns p) (qs_prior_ts s) ts"
  "qs_issues (check_time p i ts s) = [] \<Longrightarrow> \<exists>m n. check_time p i ts s = s\<lparr>qs_minimum := m, qs_maximum := n, qs_prior_ts := Some ts\<rparr>"
  by (auto simp: check_time_def follows_def Let_def split: option.splits)

lemma check_sequence_clean:
  assumes "check_sequence i e s = Inr s'"
  shows "qs_issues s' = [] \<longleftrightarrow> qs_issues s = [] \<and>
     (jget e ''source_sequence'' = JNull \<or> (\<exists>n. exact (jget e ''source_sequence'') n)) \<and>
     (\<forall>n. sequence_of e = Some n \<longrightarrow> follows (\<lambda>a b. b = a + 1) (qs_prior_sequence s) n)"
    "qs_issues s' = [] \<Longrightarrow> s' = s\<lparr>qs_prior_sequence := (case sequence_of e of None \<Rightarrow> qs_prior_sequence s | Some n \<Rightarrow> Some n)\<rparr>"
  using assms
  by (auto simp: check_sequence_def sequence_of_def follows_def Let_def quality_wire_int_iff [symmetric]
      split: option.splits sum.splits if_splits)

lemma crossed_iff:
  fixes bids asks :: "(int \<times> int) list"
  shows "bids \<noteq> [] \<and> asks \<noteq> [] \<and> Max (set (map fst bids)) \<ge> Min (set (map fst asks)) \<longleftrightarrow>
    \<not> (\<forall>b\<in>set bids. \<forall>a\<in>set asks. fst b < fst a)"
proof (cases "bids = [] \<or> asks = []")
  case False
  then have "Min (set (map fst asks)) \<le> Max (set (map fst bids)) \<longleftrightarrow> (\<exists>a\<in>set (map fst asks). \<exists>b\<in>set (map fst bids). a \<le> b)"
    by (subst Min_le_iff; simp) (subst Max_ge_iff; simp)
  with False show ?thesis by (auto simp: not_less)
qed auto

lemma check_snapshot_eq:
  assumes "quality_levels fs ''bids'' = Inr bids" and "quality_levels fs ''asks'' = Inr asks"
  shows "check_snapshot i fs s = (if \<forall>b\<in>set bids. \<forall>a\<in>set asks. fst b < fst a then s\<lparr>qs_book_ready := True\<rparr>
    else add_issue ''CROSSED_BOOK'' SEV_QUARANTINED i ''snapshot bid crosses ask'' (s\<lparr>qs_book_ready := True\<rparr>))"
  unfolding check_snapshot_def assms bindM_simps sum.case prod.case Let_def crossed_iff by simp

lemma check_snapshot_clean:
  "qs_issues (check_snapshot i fs s) = [] \<longleftrightarrow> qs_issues s = [] \<and> book_clean fs"
  "qs_issues (check_snapshot i fs s) = [] \<Longrightarrow> check_snapshot i fs s = s\<lparr>qs_book_ready := True\<rparr>"
proof -
  have "(qs_issues (check_snapshot i fs s) = [] \<longleftrightarrow> qs_issues s = [] \<and> book_clean fs) \<and>
    (qs_issues (check_snapshot i fs s) = [] \<longrightarrow> check_snapshot i fs s = s\<lparr>qs_book_ready := True\<rparr>)"
  proof (cases "\<exists>bids asks. quality_levels fs ''bids'' = Inr bids \<and> quality_levels fs ''asks'' = Inr asks")
    case True
    then obtain bids asks where l: "quality_levels fs ''bids'' = Inr bids" "quality_levels fs ''asks'' = Inr asks" by blast
    show ?thesis unfolding check_snapshot_eq [OF l] using l by (simp add: book_clean_def)
  next
    case False
    then have "\<exists>m. bindM (quality_levels fs ''bids'') (\<lambda>bids. bindM (quality_levels fs ''asks'') (\<lambda>asks. Inr (bids, asks))) = Inl m"
      by (cases "quality_levels fs ''bids''"; cases "quality_levels fs ''asks''") auto
    with False show ?thesis by (auto simp: check_snapshot_def book_clean_def)
  qed
  then show "qs_issues (check_snapshot i fs s) = [] \<longleftrightarrow> qs_issues s = [] \<and> book_clean fs"
    "qs_issues (check_snapshot i fs s) = [] \<Longrightarrow> check_snapshot i fs s = s\<lparr>qs_book_ready := True\<rparr>" by blast+
qed

lemma check_crossed_clean:
  "qs_issues (check_crossed i fs s) = [] \<longleftrightarrow> qs_issues s = [] \<and> quote_clean fs"
  "qs_issues (check_crossed i fs s) = [] \<Longrightarrow> check_crossed i fs s = s"
  "qs_prior_quote_ts (check_crossed i fs s) = qs_prior_quote_ts s"
  by (cases "quality_wire_int (jget fs ''bid_price_atoms'')"; cases "quality_wire_int (jget fs ''ask_price_atoms'')";
      auto simp: check_crossed_def Let_def quote_clean_def quality_wire_int_iff [symmetric] add_issue_def not_le split: if_splits)+

lemma check_stale_clean:
  "qs_issues (check_stale p i ts s) = [] \<longleftrightarrow> qs_issues s = [] \<and>
     follows (\<lambda>a b. b - a \<le> qp_max_quote_staleness_ns p) (qs_prior_quote_ts s) ts"
  "qs_issues (check_stale p i ts s) = [] \<Longrightarrow> check_stale p i ts s = s"
  by (cases "qs_prior_quote_ts s"; auto simp: check_stale_def follows_def split: if_splits)+

lemma check_bbo_clean:
  "qs_issues (check_bbo p i ts fs s) = [] \<longleftrightarrow> qs_issues s = [] \<and> quote_clean fs \<and>
     follows (\<lambda>a b. b - a \<le> qp_max_quote_staleness_ns p) (qs_prior_quote_ts s) ts"
  "qs_issues (check_bbo p i ts fs s) = [] \<Longrightarrow> check_bbo p i ts fs s = s\<lparr>qs_prior_quote_ts := Some ts\<rparr>"
proof -
  show "qs_issues (check_bbo p i ts fs s) = [] \<longleftrightarrow> qs_issues s = [] \<and> quote_clean fs \<and>
     follows (\<lambda>a b. b - a \<le> qp_max_quote_staleness_ns p) (qs_prior_quote_ts s) ts"
    by (simp add: check_bbo_def check_stale_clean(1) check_crossed_clean(1,3))
  assume "qs_issues (check_bbo p i ts fs s) = []"
  then have "qs_issues (check_stale p i ts (check_crossed i fs s)) = []" by (simp add: check_bbo_def)
  moreover from this have "qs_issues (check_crossed i fs s) = []" by (simp add: check_stale_clean(1))
  ultimately show "check_bbo p i ts fs s = s\<lparr>qs_prior_quote_ts := Some ts\<rparr>"
    unfolding check_bbo_def by (metis check_stale_clean(2) check_crossed_clean(2))
qed

lemma check_kind_clean:
  "qs_issues (check_kind p i ts k fs s) = [] \<longleftrightarrow> qs_issues s = [] \<and> (k = JStr ''BOOK_SNAPSHOT_L2'' \<longrightarrow> book_clean fs) \<and>
     (k = JStr ''BOOK_DELTA_L2'' \<longrightarrow> qs_book_ready s) \<and>
     (k = JStr ''BBO'' \<longrightarrow> quote_clean fs \<and> follows (\<lambda>a b. b - a \<le> qp_max_quote_staleness_ns p) (qs_prior_quote_ts s) ts)"
  "qs_issues (check_kind p i ts k fs s) = [] \<Longrightarrow> check_kind p i ts k fs s =
     (if k = JStr ''BOOK_SNAPSHOT_L2'' then s\<lparr>qs_book_ready := True\<rparr>
      else if k = JStr ''BBO'' then s\<lparr>qs_prior_quote_ts := Some ts\<rparr> else s)"
proof -
  consider "k = JStr ''BOOK_SNAPSHOT_L2''" | "k = JStr ''BOOK_DELTA_L2''" | "k = JStr ''BBO''"
    | "k \<notin> {JStr ''BOOK_SNAPSHOT_L2'', JStr ''BOOK_DELTA_L2'', JStr ''BBO''}" by blast
  then have "(qs_issues (check_kind p i ts k fs s) = [] \<longleftrightarrow> qs_issues s = [] \<and> (k = JStr ''BOOK_SNAPSHOT_L2'' \<longrightarrow> book_clean fs) \<and>
     (k = JStr ''BOOK_DELTA_L2'' \<longrightarrow> qs_book_ready s) \<and>
     (k = JStr ''BBO'' \<longrightarrow> quote_clean fs \<and> follows (\<lambda>a b. b - a \<le> qp_max_quote_staleness_ns p) (qs_prior_quote_ts s) ts)) \<and>
    (qs_issues (check_kind p i ts k fs s) = [] \<longrightarrow> check_kind p i ts k fs s =
     (if k = JStr ''BOOK_SNAPSHOT_L2'' then s\<lparr>qs_book_ready := True\<rparr>
      else if k = JStr ''BBO'' then s\<lparr>qs_prior_quote_ts := Some ts\<rparr> else s))"
  proof cases
    case 1
    then show ?thesis using check_snapshot_clean [of i fs s] by (simp add: check_kind_def)
  next
    case 3
    then show ?thesis using check_bbo_clean [of p i ts fs s] by (simp add: check_kind_def)
  qed (simp_all add: check_kind_def)
  then show "qs_issues (check_kind p i ts k fs s) = [] \<longleftrightarrow> qs_issues s = [] \<and> (k = JStr ''BOOK_SNAPSHOT_L2'' \<longrightarrow> book_clean fs) \<and>
     (k = JStr ''BOOK_DELTA_L2'' \<longrightarrow> qs_book_ready s) \<and>
     (k = JStr ''BBO'' \<longrightarrow> quote_clean fs \<and> follows (\<lambda>a b. b - a \<le> qp_max_quote_staleness_ns p) (qs_prior_quote_ts s) ts)"
    "qs_issues (check_kind p i ts k fs s) = [] \<Longrightarrow> check_kind p i ts k fs s =
     (if k = JStr ''BOOK_SNAPSHOT_L2'' then s\<lparr>qs_book_ready := True\<rparr>
      else if k = JStr ''BBO'' then s\<lparr>qs_prior_quote_ts := Some ts\<rparr> else s)" by blast+
qed

text \<open>One event: invalid time, invalid payload, or all checks passed through.\<close>

lemma validate_event_cases:
  assumes "validate_event p s (i, e) = Inr s'"
  obtains (bad_time) m where "quality_wire_int (jget e ''ts_event_ns'') = Inl m"
      "s' = add_issue ''INVALID_TIMESTAMP'' SEV_QUARANTINED i m (check_duplicate i e s)"
    | (bad_payload) ts s1 m where "quality_wire_int (jget e ''ts_event_ns'') = Inr ts"
      "check_sequence i e (check_time p i ts (check_duplicate i e s)) = Inr s1" "quality_payload e = Inl m"
      "s' = add_issue ''INVALID_PAYLOAD'' SEV_QUARANTINED i m s1"
    | (checked) ts s1 fs where "quality_wire_int (jget e ''ts_event_ns'') = Inr ts"
      "check_sequence i e (check_time p i ts (check_duplicate i e s)) = Inr s1" "jget e ''payload'' = JObj fs"
      "s' = check_kind p i ts (jget e ''kind'') fs (s1\<lparr>qs_issues := qs_issues s1 @ increment_issues p i fs\<rparr>)"
proof (cases "quality_wire_int (jget e ''ts_event_ns'')")
  case (Inl m)
  then show thesis using assms bad_time by (simp add: validate_event_def Let_def)
next
  case (Inr ts)
  with assms obtain s1 where s1: "check_sequence i e (check_time p i ts (check_duplicate i e s)) = Inr s1"
    "(case quality_payload e of Inl error \<Rightarrow> Inr (add_issue ''INVALID_PAYLOAD'' SEV_QUARANTINED i error s1)
      | Inr payload \<Rightarrow> Inr (check_kind p i ts (jget e ''kind'') payload
               (s1\<lparr>qs_issues := qs_issues s1 @ increment_issues p i payload\<rparr>))) = (Inr s' :: quality_state res)"
    by (auto simp: validate_event_def Let_def)
  show thesis
  proof (cases "quality_payload e")
    case (Inl m)
    then show thesis using bad_payload [OF Inr s1(1)] s1(2) by simp
  next
    case (Inr fs)
    then have "jget e ''payload'' = JObj fs" by (auto simp: quality_payload_def split: json.splits)
    then show thesis using checked [OF \<open>quality_wire_int (jget e ''ts_event_ns'') = Inr ts\<close> s1(1)] s1(2) Inr by simp
  qed
qed

lemma issues_kept:
  assumes "validate_event p s (i, e) = Inr s'" and "qs_issues s' = []"
  shows "qs_issues s = []"
  using assms(1)
proof (cases rule: validate_event_cases)
  case (checked ts s1 fs)
  have "qs_issues s1 = []" using assms(2) unfolding checked(4) by (simp add: check_kind_clean(1))
  with checked(2) show ?thesis by (simp add: check_sequence_clean(1) check_time_clean(1) check_duplicate_clean(1))
qed (use assms(2) in simp_all)

lemma issues_back:
  assumes "check_sequence i e (check_time p i ts (check_duplicate i e s)) = Inr s1" and "qs_issues s1 = []"
  obtains m n where "event_bytes e \<notin> set (qs_seen s)"
    "follows (\<lambda>a b. a \<le> b \<and> b - a \<le> qp_max_gap_ns p) (qs_prior_ts s) ts"
    "jget e ''source_sequence'' = JNull \<or> (\<exists>n. exact (jget e ''source_sequence'') n)"
    "\<forall>n. sequence_of e = Some n \<longrightarrow> follows (\<lambda>a b. b = a + 1) (qs_prior_sequence s) n"
    "s1 = s\<lparr>qs_seen := qs_seen s @ [event_bytes e], qs_minimum := m, qs_maximum := n, qs_prior_ts := Some ts,
       qs_prior_sequence := (case sequence_of e of None \<Rightarrow> qs_prior_sequence s | Some n \<Rightarrow> Some n)\<rparr>"
proof -
  let ?d = "check_duplicate i e s" and ?t = "check_time p i ts (check_duplicate i e s)"
  note q = check_sequence_clean(1) [OF assms(1), THEN iffD1, OF assms(2)] check_sequence_clean(2) [OF assms(1,2)]
  have "qs_issues ?t = []" using q(1) by blast
  note t = check_time_clean(1) [THEN iffD1, OF this] check_time_clean(2) [OF this]
  have "event_bytes e \<notin> set (qs_seen s)" using t(1) by (simp add: check_duplicate_clean(1))
  note d = this check_duplicate_clean(2) [OF this, of i]
  obtain m n where mn: "?t = ?d\<lparr>qs_minimum := m, qs_maximum := n, qs_prior_ts := Some ts\<rparr>" using t(2) by blast
  then have seq: "qs_prior_sequence ?t = qs_prior_sequence s" using d by simp
  show thesis
  proof (rule that [OF d(1)])
    show "s1 = s\<lparr>qs_seen := qs_seen s @ [event_bytes e], qs_minimum := m, qs_maximum := n, qs_prior_ts := Some ts,
       qs_prior_sequence := (case sequence_of e of None \<Rightarrow> qs_prior_sequence s | Some n \<Rightarrow> Some n)\<rparr>"
      unfolding q(2) seq mn [unfolded d(2)] d(2) by (cases "sequence_of e") simp_all
  qed (use t(1) q(1) seq d in simp_all)
qed

lemma clean_back:
  assumes "check_sequence i e (check_time p i ts (check_duplicate i e s)) = Inr s1" and "qs_issues s = []"
    and "event_bytes e \<notin> set (qs_seen s)" and "follows (\<lambda>a b. a \<le> b \<and> b - a \<le> qp_max_gap_ns p) (qs_prior_ts s) ts"
    and "jget e ''source_sequence'' = JNull \<or> (\<exists>n. exact (jget e ''source_sequence'') n)"
    and "\<forall>n. sequence_of e = Some n \<longrightarrow> follows (\<lambda>a b. b = a + 1) (qs_prior_sequence s) n"
  shows "qs_issues s1 = []"
proof -
  let ?t = "check_time p i ts (check_duplicate i e s)"
  have i: "qs_issues ?t = []" using assms(2-4) by (simp add: check_time_clean(1) check_duplicate_clean)
  then obtain m n where "?t = (check_duplicate i e s)\<lparr>qs_minimum := m, qs_maximum := n, qs_prior_ts := Some ts\<rparr>"
    using check_time_clean(2) by blast
  then have "qs_prior_sequence ?t = qs_prior_sequence s" using assms(3) by (simp add: check_duplicate_clean(2))
  with check_sequence_clean(1) [OF assms(1)] i assms(5,6) show ?thesis by simp
qed

lemma validate_event_extends:
  assumes "remembers es s" and "qs_issues s = []" and "validate_event p s (i, e) = Inr s'"
  shows "(qs_issues s' = [] \<longleftrightarrow> extends p es e) \<and> (qs_issues s' = [] \<longrightarrow> remembers (es @ [e]) s')"
  using assms(3)
proof (cases rule: validate_event_cases)
  case (bad_time m)
  then have "\<not> event_clean p e" by (auto simp: event_clean_def quality_wire_int_iff [symmetric])
  with bad_time show ?thesis by (simp add: extends_def)
next
  case (bad_payload ts s1 m)
  then have "\<not> event_clean p e" by (auto simp: event_clean_def quality_payload_def)
  with bad_payload show ?thesis by (simp add: extends_def)
next
  case (checked ts s1 fs)
  have ts: "time_of e = ts" using checked(1) by (simp add: time_of_def)
  have iff: "qs_issues s' = [] \<longleftrightarrow> qs_issues s1 = [] \<and> list_all (aligned p) (atom_fields fs) \<and>
      (of_kind ''BOOK_SNAPSHOT_L2'' e \<longrightarrow> book_clean fs) \<and> (of_kind ''BOOK_DELTA_L2'' e \<longrightarrow> qs_book_ready s1) \<and>
      (of_kind ''BBO'' e \<longrightarrow> quote_clean fs \<and> follows (\<lambda>a b. b - a \<le> qp_max_quote_staleness_ns p) (qs_prior_quote_ts s1) ts)"
    unfolding checked(4) check_kind_clean(1) of_kind_def by (auto simp: increment_issues_Nil)
  show ?thesis
  proof (cases "qs_issues s1 = []")
    case True
    obtain m n where b: "event_bytes e \<notin> set (qs_seen s)"
      "follows (\<lambda>a b. a \<le> b \<and> b - a \<le> qp_max_gap_ns p) (qs_prior_ts s) ts"
      "jget e ''source_sequence'' = JNull \<or> (\<exists>n. exact (jget e ''source_sequence'') n)"
      "\<forall>n. sequence_of e = Some n \<longrightarrow> follows (\<lambda>a b. b = a + 1) (qs_prior_sequence s) n"
      and s1: "s1 = s\<lparr>qs_seen := qs_seen s @ [event_bytes e], qs_minimum := m, qs_maximum := n, qs_prior_ts := Some ts,
       qs_prior_sequence := (case sequence_of e of None \<Rightarrow> qs_prior_sequence s | Some n \<Rightarrow> Some n)\<rparr>"
      by (rule issues_back [OF checked(2) True])
    have "extends p es e \<longleftrightarrow> qs_issues s' = []"
      unfolding iff using True b checked(1,3) assms(1) ts
      by (auto simp: s1 extends_def event_clean_def remembers_def quality_wire_int_iff)
    moreover have "remembers (es @ [e]) s'" if clean: "qs_issues s' = []"
    proof -
      let ?s = "s1\<lparr>qs_issues := qs_issues s1 @ increment_issues p i fs\<rparr>"
      have s': "s' = (if of_kind ''BOOK_SNAPSHOT_L2'' e then ?s\<lparr>qs_book_ready := True\<rparr>
          else if of_kind ''BBO'' e then ?s\<lparr>qs_prior_quote_ts := Some ts\<rparr> else ?s)"
        using check_kind_clean(2) [OF clean [unfolded checked(4)]] unfolding checked(4) [symmetric] of_kind_def .
      have kinds: "\<not> (of_kind ''BOOK_SNAPSHOT_L2'' e \<and> of_kind ''BBO'' e)" by (simp add: of_kind_def)
      have seqs: "last_of (sequences (es @ [e])) = (case sequence_of e of None \<Rightarrow> last_of (sequences es) | Some n \<Rightarrow> Some n)"
        by (cases "sequence_of e") (simp_all add: sequences_def map_filter_def)
      have quo: "last_of (quotes (es @ [e])) = (if of_kind ''BBO'' e then Some ts else last_of (quotes es))"
        using ts by (simp add: quotes_def)
      show ?thesis using assms(1) ts kinds unfolding remembers_def seqs quo s' s1 by (cases "sequence_of e") simp_all
    qed
    ultimately show ?thesis by blast
  next
    case False
    then have "\<not> extends p es e"
      using clean_back [OF checked(2) assms(2)] assms(1) ts
      by (auto simp: extends_def event_clean_def remembers_def)
    with False iff show ?thesis by simp
  qed
qed

lemma foldR_snoc: "foldR f s (xs @ [x]) = bindR (foldR f s xs) (\<lambda>s'. f s' x)"
  by (simp add: foldR_append)

lemma validate_feed:
  "foldR (validate_event p) quality_init (enumerate 0 es) = Inr s \<Longrightarrow>
   (qs_issues s = [] \<longleftrightarrow> feed_ok p es) \<and> (qs_issues s = [] \<longrightarrow> remembers es s)"
proof (induction es arbitrary: s rule: rev_induct)
  case Nil
  then have "s = quality_init" by simp
  then show ?case by (simp add: quality_init_def feed_ok_def remembers_def sequences_def quotes_def map_filter_def)
next
  case (snoc e es)
  then obtain s0 where s0: "foldR (validate_event p) quality_init (enumerate 0 es) = Inr s0"
    and s: "validate_event p s0 (length es, e) = Inr s"
    by (auto simp: enumerate_append_eq foldR_snoc)
  note IH = snoc.IH [OF s0]
  show ?case
  proof (cases "qs_issues s0 = []")
    case True
    with validate_event_extends [OF _ True s] IH show ?thesis by (simp add: feed_ok_snoc)
  next
    case False
    with issues_kept [OF s] IH show ?thesis by (auto simp: feed_ok_snoc)
  qed
qed

text \<open>No issue is merely informative, so a report without degradation has no issue.\<close>

definition graded :: "QualityIssue list \<Rightarrow> bool" where
  "graded ps \<longleftrightarrow> list_all (\<lambda>x. qi_severity x \<noteq> SEV_INFO) ps"

lemma status_valid:
  assumes "graded ps"
  shows "quality_status ps = ''VALID'' \<longleftrightarrow> ps = []"
proof (cases "ps = []")
  case False
  have "Max (set (map qi_severity ps)) \<in> set (map qi_severity ps)" using False by (intro Max_in) simp_all
  then have "Max (set (map qi_severity ps)) \<noteq> SEV_INFO" using assms by (auto simp: graded_def list_all_iff)
  with False show ?thesis by (cases "Max (set (map qi_severity ps))") (auto simp: quality_status_def highest_severity_def)
qed (simp add: quality_status_def highest_severity_def)

lemma graded_add [simp]: "v \<noteq> SEV_INFO \<Longrightarrow> graded (qs_issues (add_issue c v i m s)) = graded (qs_issues s)"
  by (simp add: graded_def add_issue_def)

lemma graded_checks:
  "graded (qs_issues s) \<Longrightarrow> graded (qs_issues (check_duplicate i e s))"
  "graded (qs_issues s) \<Longrightarrow> graded (qs_issues (check_time p i ts s))"
  "graded (qs_issues s) \<Longrightarrow> graded (qs_issues (check_snapshot i fs s))"
  "graded (qs_issues s) \<Longrightarrow> graded (qs_issues (check_crossed i fs s))"
  "graded (qs_issues s) \<Longrightarrow> graded (qs_issues (check_stale p i ts s))"
  by (simp_all add: check_duplicate_def check_time_def check_snapshot_def check_crossed_def check_stale_def Let_def
      split: option.split sum.split prod.split)

lemma graded_sequence: "graded (qs_issues s) \<Longrightarrow> check_sequence i e s = Inr s' \<Longrightarrow> graded (qs_issues s')"
  by (auto simp: check_sequence_def Let_def split: option.splits sum.splits if_splits)

lemma graded_kind: "graded (qs_issues s) \<Longrightarrow> graded (qs_issues (check_kind p i ts k fs s))"
  by (simp add: check_kind_def check_bbo_def graded_checks)

lemma graded_increments:
  "graded (increment_issues p i fs)" "graded (increment_issues_nested p i xs)"
proof (induction p i fs and p i xs rule: increment_issues_increment_issues_nested.induct)
  case (2 p i k v fs)
  then show ?case
    by (cases v; cases "quality_wire_int v") (auto simp: graded_def price_issues_def qty_issues_def)
next
  case (4 p i x xs)
  then show ?case by (cases x) (auto simp: graded_def)
qed (auto simp: graded_def)

lemma graded_event:
  assumes "graded (qs_issues s)" and "validate_event p s (i, e) = Inr s'"
  shows "graded (qs_issues s')"
  using assms(2)
proof (cases rule: validate_event_cases)
  case (bad_payload ts s1 m)
  then have "graded (qs_issues s1)" using assms(1) graded_sequence graded_checks(1,2) by blast
  then show ?thesis by (simp add: bad_payload(4))
next
  case (checked ts s1 fs)
  then have "graded (qs_issues s1)" using assms(1) graded_sequence graded_checks(1,2) by blast
  then have "graded (qs_issues (s1\<lparr>qs_issues := qs_issues s1 @ increment_issues p i fs\<rparr>))"
    using graded_increments(1) [of p i fs] by (simp add: graded_def)
  then show ?thesis unfolding checked(4) by (rule graded_kind)
qed (use assms(1) graded_checks(1) in simp)

lemma graded_feed: "foldR (validate_event p) quality_init (enumerate 0 es) = Inr s \<Longrightarrow> graded (qs_issues s)"
proof (induction es arbitrary: s rule: rev_induct)
  case Nil
  then have "s = quality_init" by simp
  then show ?case by (simp add: quality_init_def graded_def)
next
  case (snoc e es)
  then show ?case using graded_event by (fastforce simp: enumerate_append_eq foldR_snoc)
qed

section \<open>Counts\<close>

definition counts :: "quality_state \<Rightarrow> bytes list \<times> nat \<times> int option \<times> int option" where
  "counts s = (qs_seen s, qs_duplicates s, qs_minimum s, qs_maximum s)"

lemma counts_add [simp]: "counts (add_issue c v i m s) = counts s"
  by (simp add: counts_def add_issue_def)

lemma counts_fields [simp]:
  "counts (s\<lparr>qs_issues := a\<rparr>) = counts s" "counts (s\<lparr>qs_prior_ts := b\<rparr>) = counts s"
  "counts (s\<lparr>qs_prior_sequence := c\<rparr>) = counts s" "counts (s\<lparr>qs_prior_quote_ts := b\<rparr>) = counts s"
  "counts (s\<lparr>qs_book_ready := x\<rparr>) = counts s"
  by (simp_all add: counts_def)

lemma counts_kind: "counts (check_kind p i ts k fs s) = counts s"
  by (simp add: check_kind_def check_bbo_def check_snapshot_def check_crossed_def check_stale_def Let_def
      split: option.split sum.split prod.split)

lemma counts_sequence: "check_sequence i e s = Inr s' \<Longrightarrow> counts s' = counts s"
  by (auto simp: check_sequence_def Let_def split: option.splits sum.splits if_splits)

lemma counts_time: "counts (check_time p i ts s) = (qs_seen s, qs_duplicates s,
   Some (case qs_minimum s of None \<Rightarrow> ts | Some m \<Rightarrow> min m ts), Some (case qs_maximum s of None \<Rightarrow> ts | Some m \<Rightarrow> max m ts))"
  by (simp add: check_time_def counts_def add_issue_def Let_def split: option.split)

definition times_of :: "fields list \<Rightarrow> int set" where
  "times_of es = {t. \<exists>e\<in>set es. exact (jget e ''ts_event_ns'') t}"

lemma times_of_snoc: "times_of (es @ [e]) = (case quality_wire_int (jget e ''ts_event_ns'') of Inl _ \<Rightarrow> times_of es | Inr t \<Rightarrow> insert t (times_of es))"
  by (cases "quality_wire_int (jget e ''ts_event_ns'')") (auto simp: times_of_def quality_wire_int_iff [symmetric])

lemma times_of_finite [simp]: "finite (times_of es)"
  by (induction es rule: rev_induct) (simp_all add: times_of_snoc times_of_def [of "[]"] split: sum.split)

definition exact_counts :: "fields list \<Rightarrow> quality_state \<Rightarrow> bool" where
  "exact_counts es s \<longleftrightarrow> set (qs_seen s) = set (map event_bytes es) \<and> distinct (qs_seen s) \<and>
     qs_duplicates s + length (qs_seen s) = length es \<and>
     qs_minimum s = (if times_of es = {} then None else Some (Min (times_of es))) \<and>
     qs_maximum s = (if times_of es = {} then None else Some (Max (times_of es)))"

lemma exact_counts_cong: "counts s = counts s' \<Longrightarrow> exact_counts es s \<longleftrightarrow> exact_counts es s'"
  by (simp add: exact_counts_def counts_def)

lemma min_insert_option:
  assumes "finite A" and "m = (if A = {} then None else Some (Min A))"
  shows "Some (case m of None \<Rightarrow> t | Some x \<Rightarrow> min x t) = Some (Min (insert t A))"
  using assms by (auto simp: min.commute)

lemma max_insert_option:
  assumes "finite A" and "m = (if A = {} then None else Some (Max A))"
  shows "Some (case m of None \<Rightarrow> t | Some x \<Rightarrow> max x t) = Some (Max (insert t A))"
  using assms by (auto simp: max.commute)

lemma exact_counts_event:
  assumes "exact_counts es s" and "validate_event p s (i, e) = Inr s'"
  shows "exact_counts (es @ [e]) s'"
proof -
  let ?d = "check_duplicate i e s"
  have d: "set (qs_seen ?d) = set (map event_bytes (es @ [e]))" "distinct (qs_seen ?d)" "qs_duplicates ?d + length (qs_seen ?d) = length (es @ [e])"
    "qs_minimum ?d = qs_minimum s" "qs_maximum ?d = qs_maximum s"
    using assms(1) by (auto simp: check_duplicate_def exact_counts_def add_issue_def)
  have timed: "exact_counts (es @ [e]) s'"
    if "quality_wire_int (jget e ''ts_event_ns'') = Inr ts" "counts s' = counts (check_time p i ts ?d)" for ts
    using that(2) d(1-3) min_insert_option [of "times_of es" "qs_minimum s" ts] max_insert_option [of "times_of es" "qs_maximum s" ts]
      assms(1) by (simp add: counts_time counts_def [of s'] exact_counts_def times_of_snoc that(1) d(4,5))
  from assms(2) show ?thesis
  proof (cases rule: validate_event_cases)
    case (bad_time m)
    then have "counts s' = counts ?d" by simp
    with d assms(1) show ?thesis by (simp add: counts_def exact_counts_def times_of_snoc bad_time(1))
  next
    case (bad_payload ts s1 m)
    with timed [OF bad_payload(1)] counts_sequence [OF bad_payload(2)] show ?thesis by simp
  next
    case (checked ts s1 fs)
    with timed [OF checked(1)] counts_sequence [OF checked(2)] show ?thesis by (simp add: counts_kind)
  qed
qed

section \<open>Properties\<close>

text \<open>C33: equivalence. A report is \<^verbatim>\<open>VALID\<close> exactly when the feed is well formed: every event has an exact
  timestamp, an exact sequence number if any, and a payload whose prices and quantities are exact multiples of the
  increments; no event occurs twice; times never go back and never jump by more than the allowed gap; sequence numbers
  are consecutive; quotes and books are uncrossed and quotes not stale; and no book delta precedes a snapshot.\<close>

theorem valid_report_iff:
  assumes "validate_events es p = Inr r"
  shows "qr_status r = ''VALID'' \<longleftrightarrow> feed_ok p es"
proof -
  from assms obtain s where s: "foldR (validate_event p) quality_init (enumerate 0 es) = Inr s"
    "qr_status r = quality_status (qs_issues s)"
    by (auto simp: validate_events_def Let_def)
  show ?thesis using validate_feed [OF s(1)] status_valid [OF graded_feed [OF s(1)]] s(2) by simp
qed

text \<open>The counts of a report are exact for every feed, valid or not: it counts every event, its
  duplicates are the events whose canonical bytes occurred before, and its bounds are the least and the greatest
  exact timestamp.\<close>

theorem report_counts_exact:
  assumes "validate_events es p = Inr r"
  shows "qr_row_count r = length es \<and> qr_duplicates r = length es - card (event_bytes ` set es) \<and>
    qr_min_event_ts_ns r = (if times_of es = {} then None else Some (Min (times_of es))) \<and>
    qr_max_event_ts_ns r = (if times_of es = {} then None else Some (Max (times_of es)))"
proof -
  have "exact_counts es s" if "foldR (validate_event p) quality_init (enumerate 0 es) = Inr s" for s
    using that
  proof (induction es arbitrary: s rule: rev_induct)
    case Nil
    then have "s = quality_init" by simp
    then show ?case by (simp add: exact_counts_def quality_init_def times_of_def)
  next
    case (snoc e es)
    then show ?case using exact_counts_event by (fastforce simp: enumerate_append_eq foldR_snoc)
  qed
  moreover from assms obtain s where s: "foldR (validate_event p) quality_init (enumerate 0 es) = Inr s"
    "qr_row_count r = length es" "qr_duplicates r = qs_duplicates s" "qr_min_event_ts_ns r = qs_minimum s" "qr_max_event_ts_ns r = qs_maximum s"
    by (auto simp: validate_events_def Let_def)
  ultimately have c: "exact_counts es s" by blast
  then have "card (event_bytes ` set es) = length (qs_seen s)" unfolding exact_counts_def by (metis distinct_card list.set_map)
  with c s show ?thesis by (auto simp: exact_counts_def)
qed

section \<open>Witnesses\<close>

definition demo_policy :: QualityPolicy where
  "demo_policy = \<lparr>qp_tick_size_atoms = 5, qp_qty_increment_atoms = 2, qp_max_gap_ns = 100, qp_max_quote_staleness_ns = 50\<rparr>"

definition demo_trade :: fields where
  "demo_trade = [(''ts_event_ns'', JStr ''17''), (''kind'', JStr ''TRADE''), (''source_sequence'', JStr ''3''),
     (''payload'', JObj [(''price_atoms'', JStr ''25''), (''qty_atoms'', JStr ''4'')])]"

lemma demo_report: obtains r where "validate_events [demo_trade] demo_policy = Inr r" "qr_status r = ''VALID'' "
proof -
  have w: "quality_wire_int (JStr ''17'') = Inr 17" "quality_wire_int (JStr ''25'') = Inr 25"
    "quality_wire_int (JStr ''4'') = Inr 4" "quality_wire_int (JStr ''3'') = Inr 3" by code_simp+
  have e: "\<not> endswith ''qty_atoms'' ''price_atoms''" "endswith ''qty_atoms'' ''qty_atoms''" "endswith ''price_atoms'' ''price_atoms''"
    by code_simp+
  have "\<exists>s. foldR (validate_event demo_policy) quality_init (enumerate 0 [demo_trade]) = Inr s \<and> qs_issues s = []"
    by (simp add: validate_event_def demo_trade_def demo_policy_def quality_init_def check_duplicate_def check_time_def
        check_sequence_def quality_payload_def w e price_issues_def qty_issues_def check_kind_def)
  with that show thesis by (auto simp: validate_events_def quality_status_def highest_severity_def Let_def)
qed

theorem valid_report_iff_witness: "\<exists>r. validate_events [demo_trade] demo_policy = Inr r \<and> feed_ok demo_policy [demo_trade]"
  using demo_report valid_report_iff by metis

theorem report_counts_exact_witness:
  "\<exists>r. validate_events [demo_trade] demo_policy = Inr r \<and> qr_row_count r = 1 \<and> qr_duplicates r = 0"
proof -
  obtain r where r: "validate_events [demo_trade] demo_policy = Inr r" by (rule demo_report)
  from r report_counts_exact [OF r] show ?thesis by auto
qed

end
