(* ===== verification/Ingest.thy ===== *)
theory Ingest
  imports Strings
begin

text \<open>
  The core of the ingest worker, \<^verbatim>\<open>core/\<close>: canonical JSON, fetch requests and plans, the budget guard, the
  content-addressed cache, the checkpoint store, the canonical writer and the resumable runner.

  The worker's world is its file system and its budget counters. A call returns its outcome and the world it leaves
  behind, also when it raises, since a failed run keeps what it stored. A file holds bytes; a JSON document is kept with
  the value its text denotes, which is what \<^verbatim>\<open>json.loads\<close> of the text returns. Directories are not
  represented: a write creates the directories above it.
\<close>

section \<open>Canonical JSON\<close>

definition require_json_value :: "json \<Rightarrow> json res" where
  "require_json_value value = bindR (require (no_float value) TypeError) (\<lambda>_. Inr value)"

definition canonical_bytes :: "json \<Rightarrow> bytes res" where
  "canonical_bytes value = bindR (require_json_value value) (\<lambda>normalized. Inr (utf8 (dumps_raw normalized)))"

section \<open>Requests and plans\<close>

record FetchRequest =
  fq_provider :: string
  fq_dataset :: string
  fq_instrument_id :: string
  fq_start_ns :: int
  fq_end_ns :: int
  fq_options :: "(string \<times> string) list"

definition request_canonical :: "FetchRequest \<Rightarrow> fields" where
  "request_canonical q =
     [(''provider'', JStr (fq_provider q)), (''dataset'', JStr (fq_dataset q)),
      (''instrument_id'', JStr (fq_instrument_id q)), (''start_ns'', JStr (str_int (fq_start_ns q))),
      (''end_ns'', JStr (str_int (fq_end_ns q))),
      (''options'', JList (map (\<lambda>(key, value). JList [JStr key, JStr value]) (sort (fq_options q))))]"

definition job_id_of :: "FetchRequest \<Rightarrow> string res" where
  "job_id_of q = bindR (canonical_bytes (JObj (request_canonical q))) (\<lambda>b. Inr (sha256_hex b))"

record FetchChunk =
  fc_key :: string
  fc_source_ref :: string
  fc_expected_bytes :: "int option"
  fc_estimated_cost_minor :: int

type_synonym FetchPlan = "FetchChunk list"

definition plan_cost_minor :: "FetchPlan \<Rightarrow> int" where
  "plan_cost_minor plan = sum_list (map fc_estimated_cost_minor plan)"

text \<open>The provider boundary: a parameter of the runner.\<close>

record adapter =
  ad_plan :: "FetchRequest \<Rightarrow> FetchPlan res"
  ad_fetch :: "FetchChunk \<Rightarrow> bytes res"
  ad_normalize :: "FetchChunk \<Rightarrow> bytes \<Rightarrow> fields list res"

section \<open>Budget\<close>

record BudgetGuard =
  bg_max_requests :: int
  bg_max_bytes :: int
  bg_max_cost_minor :: int
  bg_requests :: int
  bg_bytes :: int
  bg_cost_minor :: int

definition preflight :: "int \<Rightarrow> int \<Rightarrow> BudgetGuard \<Rightarrow> unit res" where
  "preflight requests cost_minor b =
     bindR (require (\<not> (requests < 0 \<or> cost_minor < 0)) ValueError) (\<lambda>_.
     bindR (require (\<not> bg_requests b + requests > bg_max_requests b) BudgetExceeded) (\<lambda>_.
     require (\<not> bg_cost_minor b + cost_minor > bg_max_cost_minor b) BudgetExceeded))"

definition consume :: "int \<Rightarrow> int \<Rightarrow> BudgetGuard \<Rightarrow> BudgetGuard res" where
  "consume bytes_count cost_minor b =
     bindR (require (\<not> (bytes_count < 0 \<or> cost_minor < 0)) ValueError) (\<lambda>_.
     let next_requests = bg_requests b + 1;
         next_bytes = bg_bytes b + bytes_count;
         next_cost = bg_cost_minor b + cost_minor
     in bindR (require (\<not> next_requests > bg_max_requests b) BudgetExceeded) (\<lambda>_.
        bindR (require (\<not> next_bytes > bg_max_bytes b) BudgetExceeded) (\<lambda>_.
        bindR (require (\<not> next_cost > bg_max_cost_minor b) BudgetExceeded) (\<lambda>_.
        Inr (b\<lparr>bg_requests := next_requests, bg_bytes := next_bytes, bg_cost_minor := next_cost\<rparr>)))))"

section \<open>Files\<close>

type_synonym path = "string list"

datatype content = Raw bytes | JsonText string json

type_synonym files = "path \<rightharpoonup> content"

definition read_bytes :: "content \<Rightarrow> bytes" where
  "read_bytes c = (case c of Raw b \<Rightarrow> b | JsonText text _ \<Rightarrow> utf8 text)"

text \<open>\<^verbatim>\<open>temporary.write_bytes(...)\<close> followed by \<^verbatim>\<open>temporary.replace(path)\<close>.\<close>

definition write_replace :: "path \<Rightarrow> path \<Rightarrow> content \<Rightarrow> files \<Rightarrow> files" where
  "write_replace temporary path content fs =
     (let written = fs(temporary \<mapsto> content) in (written(path := written temporary))(temporary := None))"

text \<open>\<^verbatim>\<open>path.with_suffix(path.suffix + ".tmp")\<close> appends to the last component.\<close>

definition tmp_path :: "path \<Rightarrow> path" where
  "tmp_path path = butlast path @ [last path @ ''.tmp'']"

section \<open>Cache\<close>

definition cache_path :: "path \<Rightarrow> string \<Rightarrow> path" where
  "cache_path root digest = root @ [take 2 digest, drop 2 digest]"

definition cache_get :: "path \<Rightarrow> files \<Rightarrow> string \<Rightarrow> bytes res" where
  "cache_get root fs digest =
     (case fs (cache_path root digest) of
        None \<Rightarrow> Inl FileNotFoundError
      | Some content \<Rightarrow>
          let payload = read_bytes content in
          bindR (require (sha256_hex payload = digest) CacheCorruption) (\<lambda>_. Inr payload))"

definition cache_put :: "path \<Rightarrow> bytes \<Rightarrow> files \<Rightarrow> (string \<times> files) res" where
  "cache_put root payload fs =
     (let digest = sha256_hex payload; path = cache_path root digest in
      if fs path \<noteq> None
      then bindR (cache_get root fs digest) (\<lambda>stored.
           bindR (require (stored = payload) CacheCorruption) (\<lambda>_. Inr (digest, fs)))
      else Inr (digest, write_replace (tmp_path path) path (Raw payload) fs))"

section \<open>Checkpoints\<close>

record JobCheckpoint =
  jc_job_id :: string
  jc_completed :: "(string \<times> string) list"

definition state_path :: "path \<Rightarrow> string \<Rightarrow> path" where
  "state_path root job_id = root @ [job_id @ ''.json'']"

definition completed_entry :: "string \<times> json \<Rightarrow> (string \<times> string) res" where
  "completed_entry = (\<lambda>(key, digest). case digest of JStr d \<Rightarrow> Inr (key, d) | _ \<Rightarrow> Inl ValueError)"

definition state_load :: "path \<Rightarrow> files \<Rightarrow> string \<Rightarrow> JobCheckpoint res" where
  "state_load root fs job_id =
     (case fs (state_path root job_id) of
        None \<Rightarrow> Inr \<lparr>jc_job_id = job_id, jc_completed = []\<rparr>
      | Some (Raw _) \<Rightarrow> Inl ValueError
      | Some (JsonText _ value) \<Rightarrow>
          (case value of
             JObj doc \<Rightarrow>
               bindR (require (jget doc ''job_id'' = JStr job_id) ValueError) (\<lambda>_.
               case jget doc ''completed'' of
                 JObj entries \<Rightarrow>
                   bindR (mapR completed_entry entries) (\<lambda>completed.
                   Inr \<lparr>jc_job_id = job_id, jc_completed = completed\<rparr>)
               | _ \<Rightarrow> Inl ValueError)
           | _ \<Rightarrow> Inl ValueError))"

definition checkpoint_json :: "JobCheckpoint \<Rightarrow> json" where
  "checkpoint_json checkpoint =
     JObj [(''completed'', JObj (map (\<lambda>(key, digest). (key, JStr digest)) (jc_completed checkpoint))),
           (''job_id'', JStr (jc_job_id checkpoint))]"

definition state_save :: "path \<Rightarrow> JobCheckpoint \<Rightarrow> files \<Rightarrow> files" where
  "state_save root checkpoint =
     write_replace (root @ [jc_job_id checkpoint @ ''.tmp'']) (state_path root (jc_job_id checkpoint))
       (JsonText (dumps (checkpoint_json checkpoint) @ [CHR 0x0A]) (sort_keys (checkpoint_json checkpoint)))"

section \<open>Writer\<close>

text \<open>\<^verbatim>\<open>json.dumps(value, sort_keys=True, indent=2)\<close>\<close>

definition newline_indent :: "nat \<Rightarrow> string" where
  "newline_indent n = CHR 0x0A # replicate (2 * n) (CHR '' '')"

fun print_indent :: "nat \<Rightarrow> json \<Rightarrow> string"
  and print_indent_items :: "nat \<Rightarrow> json list \<Rightarrow> string"
  and print_indent_fields :: "nat \<Rightarrow> fields \<Rightarrow> string" where
  "print_indent n (JList xs) = (if xs = [] then ''[]'' else
     CHR ''['' # newline_indent (Suc n) @ print_indent_items (Suc n) xs @ newline_indent n @ '']'')"
| "print_indent n (JObj fs) = (if fs = [] then ''{}'' else
     CHR ''{'' # newline_indent (Suc n) @ print_indent_fields (Suc n) fs @ newline_indent n @ ''}'')"
| "print_indent n v = print esc_char v"
| "print_indent_items n [] = []"
| "print_indent_items n (x # xs) =
     print_indent n x @ (if xs = [] then [] else CHR '','' # newline_indent n @ print_indent_items n xs)"
| "print_indent_fields n [] = []"
| "print_indent_fields n ((k, v) # fs) =
     print_str esc_char k @ '': '' @ print_indent n v @
     (if fs = [] then [] else CHR '','' # newline_indent n @ print_indent_fields n fs)"

definition dumps_indent :: "json \<Rightarrow> string" where
  "dumps_indent v = print_indent 0 (sort_keys v)"

text \<open>\<^verbatim>\<open>event.get(name, "0")\<close>\<close>

definition get_default :: "fields \<Rightarrow> string \<Rightarrow> json \<Rightarrow> json" where
  "get_default fs key fallback = (case map_of fs key of None \<Rightarrow> fallback | Some v \<Rightarrow> v)"

definition event_sort_key :: "fields \<Rightarrow> (int \<times> int \<times> int) res" where
  "event_sort_key event =
     (case jget event ''ts_event_ns'' of
        JStr timestamp \<Rightarrow>
          (case (get_default event ''source_sequence'' (JStr ''0''), get_default event ''canonical_tie_breaker'' (JStr ''0'')) of
             (JStr sequence, JStr tie) \<Rightarrow>
               bindR (py_int timestamp) (\<lambda>t. bindR (py_int sequence) (\<lambda>s. bindR (py_int tie) (\<lambda>b. Inr (t, s, b))))
           | _ \<Rightarrow> Inl ValueError)
      | _ \<Rightarrow> Inl ValueError)"

definition sort_events :: "fields list \<Rightarrow> fields list res" where
  "sort_events events =
     bindR (mapR event_sort_key events) (\<lambda>keys. Inr (map snd (sort_key fst (zip keys events))))"

definition event_lines :: "fields list \<Rightarrow> bytes res" where
  "event_lines events = bindR (mapR (\<lambda>event. canonical_bytes (JObj event)) events) (\<lambda>parts. Inr (concat (map (\<lambda>p. p @ [10]) parts)))"

definition manifest_json :: "string \<Rightarrow> (string \<times> string) list \<Rightarrow> string \<Rightarrow> nat \<Rightarrow> json" where
  "manifest_json content_hash chunk_hashes job_id row_count =
     JObj [(''canonical_content_sha256'', JStr content_hash),
           (''chunks'', JList (map (\<lambda>(key, digest). JList [JStr key, JStr digest]) chunk_hashes)),
           (''job_id'', JStr job_id), (''row_count'', JInt (int row_count))]"

definition write_canonical ::
    "path \<Rightarrow> path \<Rightarrow> string \<Rightarrow> fields list \<Rightarrow> (string \<times> string) list \<Rightarrow> files \<Rightarrow> (string \<times> files) res" where
  "write_canonical output_path manifest_path job_id events chunk_hashes fs =
     bindR (mapR (\<lambda>event. require_json_value (JObj event)) events) (\<lambda>_.
     bindR (sort_events events) (\<lambda>ordered.
     bindR (event_lines ordered) (\<lambda>body.
     let content_hash = sha256_hex body;
         fs = write_replace (tmp_path output_path) output_path (Raw body) fs;
         manifest = manifest_json content_hash chunk_hashes job_id (length ordered)
     in Inr (content_hash, write_replace (tmp_path manifest_path) manifest_path
          (JsonText (dumps_indent manifest @ [CHR 0x0A]) (sort_keys manifest)) fs))))"

section \<open>Runner\<close>

record world =
  w_files :: files
  w_budget :: BudgetGuard

record IngestionRunner =
  ir_cache :: path
  ir_state :: path

record RunResult =
  rr_job_id :: string
  rr_content_sha256 :: string
  rr_row_count :: nat

text \<open>One chunk: its raw bytes and digest, from the cache if the checkpoint has it, else fetched, accounted, cached and
  recorded.\<close>

definition run_chunk ::
    "IngestionRunner \<Rightarrow> adapter \<Rightarrow> FetchChunk \<Rightarrow> JobCheckpoint \<Rightarrow> world \<Rightarrow> (bytes \<times> string \<times> JobCheckpoint) res \<times> world" where
  "run_chunk runner a chunk checkpoint w =
     (case map_of (jc_completed checkpoint) (fc_key chunk) of
        None \<Rightarrow>
          (case ad_fetch a chunk of Inl e \<Rightarrow> (Inl e, w)
           | Inr raw \<Rightarrow>
               (case consume (int (length raw)) (fc_estimated_cost_minor chunk) (w_budget w) of Inl e \<Rightarrow> (Inl e, w)
                | Inr budget \<Rightarrow>
                    let w = w\<lparr>w_budget := budget\<rparr> in
                    (case cache_put (ir_cache runner) raw (w_files w) of Inl e \<Rightarrow> (Inl e, w)
                     | Inr (digest, fs) \<Rightarrow>
                         let checkpoint = checkpoint\<lparr>jc_completed := AList.update (fc_key chunk) digest (jc_completed checkpoint)\<rparr>
                         in (Inr (raw, digest, checkpoint), w\<lparr>w_files := state_save (ir_state runner) checkpoint fs\<rparr>))))
      | Some digest \<Rightarrow>
          (case cache_get (ir_cache runner) (w_files w) digest of Inl e \<Rightarrow> (Inl e, w)
           | Inr raw \<Rightarrow> (Inr (raw, digest, checkpoint), w)))"

fun run_chunks ::
    "IngestionRunner \<Rightarrow> adapter \<Rightarrow> FetchChunk list \<Rightarrow> JobCheckpoint \<Rightarrow> fields list \<Rightarrow> (string \<times> string) list \<Rightarrow> world \<Rightarrow>
     (fields list \<times> (string \<times> string) list) res \<times> world" where
  "run_chunks runner a [] checkpoint events hashes w = (Inr (events, hashes), w)"
| "run_chunks runner a (chunk # chunks) checkpoint events hashes w =
     (case run_chunk runner a chunk checkpoint w of (Inl e, w) \<Rightarrow> (Inl e, w)
      | (Inr (raw, digest, checkpoint), w) \<Rightarrow>
          (case ad_normalize a chunk raw of Inl e \<Rightarrow> (Inl e, w)
           | Inr batch \<Rightarrow> run_chunks runner a chunks checkpoint (events @ batch) (hashes @ [(fc_key chunk, digest)]) w))"

definition run_job ::
    "IngestionRunner \<Rightarrow> adapter \<Rightarrow> FetchRequest \<Rightarrow> path \<Rightarrow> path \<Rightarrow> world \<Rightarrow> RunResult res \<times> world" where
  "run_job runner a request output_path manifest_path w =
     (case bindR (ad_plan a request) (\<lambda>plan.
           bindR (preflight (int (length plan)) (plan_cost_minor plan) (w_budget w)) (\<lambda>_.
           bindR (job_id_of request) (\<lambda>job_id.
           bindR (state_load (ir_state runner) (w_files w) job_id) (\<lambda>checkpoint. Inr (plan, job_id, checkpoint))))) of
        Inl e \<Rightarrow> (Inl e, w)
      | Inr (plan, job_id, checkpoint) \<Rightarrow>
          (case run_chunks runner a plan checkpoint [] [] w of (Inl e, w) \<Rightarrow> (Inl e, w)
           | (Inr (events, hashes), w) \<Rightarrow>
               (case write_canonical output_path manifest_path job_id events hashes (w_files w) of Inl e \<Rightarrow> (Inl e, w)
                | Inr (content_hash, fs) \<Rightarrow>
                    (Inr \<lparr>rr_job_id = job_id, rr_content_sha256 = content_hash, rr_row_count = length events\<rparr>,
                     w\<lparr>w_files := fs\<rparr>))))"

end
