(* ===== verification/Ingest_Theorems.thy ===== *)
theory Ingest_Theorems
  imports Ingest
begin

text \<open>
  What the ingest core promises: a content-addressed store (the locale \<open>content_addressed\<close>, interpreted on the cache),
  a budget that no run exceeds, and a job whose interrupted and resumed execution writes what one uninterrupted execution
  would have written.
\<close>

section \<open>Files\<close>

lemma write_replace_eq:
  "temporary \<noteq> path \<Longrightarrow> write_replace temporary path c fs = fs(path \<mapsto> c, temporary := None)"
  by (simp add: write_replace_def)

lemma tmp_path_neq [simp]: "path \<noteq> [] \<Longrightarrow> tmp_path path \<noteq> path" "path \<noteq> [] \<Longrightarrow> path \<noteq> tmp_path path"
  by (cases path rule: rev_cases; simp add: tmp_path_def)+

lemma write_tmp:
  "path \<noteq> [] \<Longrightarrow> write_replace (tmp_path path) path c fs = fs(path \<mapsto> c, tmp_path path := None)"
  by (simp add: write_replace_eq)

section \<open>Content-addressed stores\<close>

text \<open>A store that files a payload under its address, never loses a payload and returns only what hashes to the address.\<close>

locale content_addressed =
  fixes addr :: "'p \<Rightarrow> 'a"
    and get :: "'s \<Rightarrow> 'a \<Rightarrow> 'p res"
    and put :: "'p \<Rightarrow> 's \<Rightarrow> ('a \<times> 's) res"
  assumes put_get: "put x s = Inr (d, s') \<Longrightarrow> d = addr x \<and> get s' d = Inr x"
    and put_keeps: "put x s = Inr (d, s') \<Longrightarrow> get s k = Inr y \<Longrightarrow> get s' k = Inr y"
    and get_addr: "get s k = Inr y \<Longrightarrow> addr y = k"
begin

fun put_many :: "'p list \<Rightarrow> 's \<Rightarrow> ('a list \<times> 's) res" where
  "put_many [] s = Inr ([], s)"
| "put_many (x # xs) s = bindR (put x s) (\<lambda>(d, s'). bindR (put_many xs s') (\<lambda>(ds, s''). Inr (d # ds, s'')))"

lemma put_many_keeps: "put_many xs s = Inr (ds, s') \<Longrightarrow> get s k = Inr y \<Longrightarrow> get s' k = Inr y"
  by (induction xs arbitrary: s ds) (auto dest: put_keeps)

lemma put_many_get:
  "put_many xs s = Inr (ds, s') \<Longrightarrow> ds = map addr xs \<and> list_all2 (\<lambda>x d. get s' d = Inr x) xs ds"
proof (induction xs arbitrary: s ds)
  case (Cons x xs)
  then obtain d t es where x: "put x s = Inr (d, t)" and xs: "put_many xs t = Inr (es, s')" and ds: "ds = d # es" by auto
  from put_get [OF x] put_many_keeps [OF xs] have "d = addr x" "get s' d = Inr x" by blast+
  with Cons.IH [OF xs] ds show ?case by auto
qed simp

end

lemma hex_no_dot: "is_sha256_hex d \<Longrightarrow> CHR ''.'' \<notin> set d"
  by (auto simp: is_sha256_hex_def list_all_iff hex_char_def ascii_digit_def)

lemma cache_path_ne [simp]: "cache_path root d \<noteq> []"
  by (simp add: cache_path_def)

lemma cache_tmp_apart:
  assumes "is_sha256_hex d"
  shows "tmp_path (cache_path root e) \<noteq> cache_path root d"
proof
  assume "tmp_path (cache_path root e) = cache_path root d"
  then have "drop 2 d = drop 2 e @ ''.tmp''" by (simp add: tmp_path_def cache_path_def butlast_append)
  then have "CHR ''.'' \<in> set (drop 2 d)" by simp
  with hex_no_dot [OF assms] show False by (meson in_set_dropD)
qed

lemma cache_path_inj: "is_sha256_hex d \<Longrightarrow> is_sha256_hex e \<Longrightarrow> cache_path root d = cache_path root e \<Longrightarrow> d = e"
  by (simp add: cache_path_def) (metis append_take_drop_id)

lemma cache_get_Inr:
  "cache_get root fs d = Inr x \<longleftrightarrow> (\<exists>c. fs (cache_path root d) = Some c \<and> read_bytes c = x \<and> sha256_hex x = d)"
  by (auto simp: cache_get_def Let_def split: option.splits)

lemma cache_put_Inr:
  "cache_put root x fs = Inr (d, fs') \<longleftrightarrow> d = sha256_hex x \<and>
     (cache_get root fs d = Inr x \<and> fs' = fs \<or>
      fs (cache_path root d) = None \<and> fs' = fs(cache_path root d \<mapsto> Raw x, tmp_path (cache_path root d) := None))"
  by (auto simp: cache_put_def Let_def cache_get_Inr write_tmp)

interpretation cache: content_addressed sha256_hex "cache_get root" "cache_put root" for root
proof (unfold_locales, goal_cases)
  case (1 x s d s')
  then show ?case using cache_tmp_apart [OF sha256_hex_valid, of root d x, symmetric]
    by (auto simp: cache_put_Inr cache_get_Inr read_bytes_def)
next
  case (2 x s d s' k y)
  from 2(2) have k: "is_sha256_hex k" by (auto simp: cache_get_Inr)
  then show ?case using 2 cache_tmp_apart [OF k, of root d, symmetric]
    by (auto simp: cache_put_Inr cache_get_Inr)
next
  case (3 s k y)
  then show ?case by (auto simp: cache_get_Inr)
qed

section \<open>Separate places\<close>

definition under :: "path \<Rightarrow> path \<Rightarrow> bool" where
  "under root p \<longleftrightarrow> take (length root) p = root"

text \<open>The cache, the checkpoints and the two outputs of a job do not overlap.\<close>

definition apart :: "IngestionRunner \<Rightarrow> path \<Rightarrow> path \<Rightarrow> bool" where
  "apart runner output_path manifest_path \<longleftrightarrow>
     output_path \<noteq> [] \<and> manifest_path \<noteq> [] \<and> output_path \<noteq> manifest_path \<and> output_path \<noteq> tmp_path manifest_path \<and>
     \<not> under (ir_cache runner) (ir_state runner) \<and> \<not> under (ir_state runner) (ir_cache runner) \<and>
     list_all (\<lambda>p. \<not> under (ir_cache runner) p \<and> \<not> under (ir_state runner) p)
       [output_path, tmp_path output_path, manifest_path, tmp_path manifest_path]"

lemma under_append [simp]: "under root (root @ p)"
  by (simp add: under_def)

lemma under_disjoint: "under a p \<Longrightarrow> under b p \<Longrightarrow> under a b \<or> under b a"
  unfolding under_def by (metis min.absorb1 min.absorb2 nle_le take_take)

lemma cache_path_under [simp]: "under root (cache_path root d)" "under root (tmp_path (cache_path root d))"
  by (simp_all add: cache_path_def tmp_path_def butlast_append)

lemma state_path_under [simp]: "under root (state_path root job)"
  by (simp add: state_path_def)

lemma apart_places:
  assumes "apart runner out man"
  shows "under (ir_cache runner) p \<Longrightarrow> under (ir_state runner) q \<Longrightarrow> p \<noteq> q"
  using assms under_disjoint unfolding apart_def by blast

lemma cache_get_frame:
  "(\<And>p. under root p \<Longrightarrow> fs' p = fs p) \<Longrightarrow> cache_get root fs' d = cache_get root fs d"
  by (simp add: cache_get_def)

lemma state_load_frame:
  "(\<And>p. under root p \<Longrightarrow> fs' p = fs p) \<Longrightarrow> state_load root fs' job = state_load root fs job"
  by (simp add: state_load_def)

lemma cache_put_frame: "cache_put root x fs = Inr (d, fs') \<Longrightarrow> \<not> under root p \<Longrightarrow> fs' p = fs p"
  by (auto simp: cache_put_Inr)

section \<open>Checkpoints\<close>

lemma sort_key_map: "(\<And>x. g (h x) = f x) \<Longrightarrow> sort_key g (map h xs) = map h (sort_key f xs)"
proof (induction xs)
  case (Cons x xs)
  have "insort_key g (h x) (map h ys) = map h (insort_key f x ys)" for ys
    by (induction ys) (simp_all add: Cons.prems)
  with Cons show ?case by simp
qed simp

lemma state_save_eq: "state_save root cp fs = fs(state_path root (jc_job_id cp) \<mapsto>
    JsonText (dumps (checkpoint_json cp) @ [CHR 0x0A]) (sort_keys (checkpoint_json cp)), root @ [jc_job_id cp @ ''.tmp''] := None)"
  unfolding state_save_def by (rule write_replace_eq) (simp add: state_path_def)

lemma state_save_frame: "\<not> under root p \<Longrightarrow> state_save root cp fs p = fs p"
  by (auto simp: state_save_eq)

lemma state_save_load:
  "state_load root (state_save root cp fs) (jc_job_id cp) =
     Inr \<lparr>jc_job_id = jc_job_id cp, jc_completed = sort_key fst (jc_completed cp)\<rparr>"
proof -
  let ?h = "\<lambda>p. (fst p, JStr (snd p))"
  have sk: "sort_keys (JObj (map ?h xs)) = JObj (map ?h (sort_key fst xs))" for xs
    by (simp add: comp_def sort_key_map [of fst ?h fst])
  have "mapR completed_entry (map ?h xs) = Inr xs" for xs
    by (induction xs) (auto simp: completed_entry_def)
  moreover have "sort_keys (checkpoint_json cp) =
      JObj [(''completed'', JObj (map ?h (sort_key fst (jc_completed cp)))), (''job_id'', JStr (jc_job_id cp))]"
    using sk [of "jc_completed cp"] by (simp add: checkpoint_json_def case_prod_beta' comp_def)
  ultimately show ?thesis
    by (simp add: state_load_def state_save_eq state_path_def)
qed

lemma sort_key_map_of: "distinct (map fst xs) \<Longrightarrow> map_of (sort_key fst xs) = map_of xs"
  by (rule map_of_inject_set [THEN iffD2]) (simp_all add: distinct_map)

section \<open>Resuming a job\<close>

text \<open>An attempt reaches an archive: it plans and normalizes alike, and what it fetches, if it fetches, is the archive's.\<close>

definition serves :: "adapter \<Rightarrow> adapter \<Rightarrow> bool" where
  "serves a p \<longleftrightarrow> ad_plan a = ad_plan p \<and> ad_normalize a = ad_normalize p \<and>
     (\<forall>c raw. ad_fetch a c = Inr raw \<longrightarrow> ad_fetch p c = Inr raw)"

text \<open>What a job over an archive denotes, without files, budget or checkpoints.\<close>

definition archive_chunk :: "adapter \<Rightarrow> FetchChunk \<Rightarrow> (fields list \<times> string \<times> string) res" where
  "archive_chunk p c = bindR (ad_fetch p c) (\<lambda>raw. bindR (ad_normalize p c raw) (\<lambda>batch.
     Inr (batch, fc_key c, sha256_hex raw)))"

definition job_outcome :: "adapter \<Rightarrow> FetchRequest \<Rightarrow> (RunResult \<times> content \<times> content) res" where
  "job_outcome p request =
     bindR (ad_plan p request) (\<lambda>plan.
     bindR (job_id_of request) (\<lambda>job_id.
     bindR (mapR (archive_chunk p) plan) (\<lambda>parts.
     bindR (sort_events (concat (map fst parts))) (\<lambda>ordered.
     bindR (event_lines ordered) (\<lambda>body.
     let content_hash = sha256_hex body;
         manifest = manifest_json content_hash (map snd parts) job_id (length ordered)
     in Inr (\<lparr>rr_job_id = job_id, rr_content_sha256 = content_hash, rr_row_count = length ordered\<rparr>,
             Raw body, JsonText (dumps_indent manifest @ [CHR 0x0A]) (sort_keys manifest)))))))"

text \<open>The checkpoint in memory, the one on disk and the cache agree with the archive.\<close>

definition same_checkpoint :: "string \<Rightarrow> JobCheckpoint \<Rightarrow> JobCheckpoint \<Rightarrow> bool" where
  "same_checkpoint job cp cp' \<longleftrightarrow> jc_job_id cp = job \<and> jc_job_id cp' = job \<and> distinct (map fst (jc_completed cp)) \<and>
     distinct (map fst (jc_completed cp')) \<and> map_of (jc_completed cp) = map_of (jc_completed cp')"

definition recorded :: "IngestionRunner \<Rightarrow> adapter \<Rightarrow> FetchPlan \<Rightarrow> files \<Rightarrow> JobCheckpoint \<Rightarrow> bool" where
  "recorded runner p plan fs cp \<longleftrightarrow> (\<forall>c\<in>set plan. \<forall>d. map_of (jc_completed cp) (fc_key c) = Some d \<longrightarrow>
     (\<exists>raw. ad_fetch p c = Inr raw \<and> cache_get (ir_cache runner) fs d = Inr raw))"

definition resumable :: "IngestionRunner \<Rightarrow> adapter \<Rightarrow> FetchPlan \<Rightarrow> string \<Rightarrow> files \<Rightarrow> JobCheckpoint \<Rightarrow> bool" where
  "resumable runner p plan job fs cp \<longleftrightarrow> recorded runner p plan fs cp \<and>
     (\<exists>cp'. state_load (ir_state runner) fs job = Inr cp' \<and> same_checkpoint job cp cp')"

lemma resumable_loaded:
  assumes "resumable runner p plan job fs cp" and "state_load (ir_state runner) fs job = Inr cp'"
  shows "resumable runner p plan job fs cp'"
proof -
  from assms have "same_checkpoint job cp cp'" by (auto simp: resumable_def)
  with assms show ?thesis by (simp add: resumable_def recorded_def same_checkpoint_def)
qed

lemma resumable_fresh:
  "fs (state_path (ir_state runner) job) = None \<Longrightarrow> resumable runner p plan job fs \<lparr>jc_job_id = job, jc_completed = []\<rparr>"
  by (simp add: resumable_def recorded_def state_load_def same_checkpoint_def)

lemma same_checkpoint_refl: "same_checkpoint (jc_job_id cp) cp \<lparr>jc_job_id = jc_job_id cp, jc_completed = sort_key fst (jc_completed cp)\<rparr>
    \<longleftrightarrow> distinct (map fst (jc_completed cp))"
proof -
  have "distinct (map fst (sort_key fst xs)) \<longleftrightarrow> distinct (map fst xs)" for xs :: "(string \<times> string) list"
    by (metis mset_map mset_sort mset_eq_imp_distinct_iff)
  then show ?thesis by (auto simp: same_checkpoint_def sort_key_map_of)
qed

lemma resumable_save:
  assumes ap: "apart runner out man" and J: "resumable runner p plan (jc_job_id cp) fs cp"
    and plan: "distinct (map fc_key plan)" "c \<in> set plan"
    and raw: "ad_fetch p c = Inr raw" and put: "cache_put (ir_cache runner) raw fs = Inr (d, fs')"
    and cp': "cp' = cp\<lparr>jc_completed := AList.update (fc_key c) d (jc_completed cp)\<rparr>"
  shows "resumable runner p plan (jc_job_id cp) (state_save (ir_state runner) cp' fs') cp'"
proof -
  let ?fs = "state_save (ir_state runner) cp' fs'"
  from J have dist: "distinct (map fst (jc_completed cp'))"
    by (auto simp: cp' resumable_def same_checkpoint_def distinct_update)
  have get: "cache_get (ir_cache runner) ?fs k = cache_get (ir_cache runner) fs' k" for k
    using apart_places [OF ap] by (intro cache_get_frame state_save_frame) blast
  have "recorded runner p plan ?fs cp'"
    unfolding recorded_def get
  proof (intro ballI allI impI)
    fix c' d' assume c': "c' \<in> set plan" and d': "map_of (jc_completed cp') (fc_key c') = Some d'"
    show "\<exists>raw. ad_fetch p c' = Inr raw \<and> cache_get (ir_cache runner) fs' d' = Inr raw"
    proof (cases "fc_key c' = fc_key c")
      case True
      with plan c' have "c' = c" by (meson distinct_map inj_onD)
      with d' raw cache.put_get [OF put] show ?thesis by (auto simp: cp')
    next
      case False
      with d' c' J obtain raw' where "ad_fetch p c' = Inr raw'" "cache_get (ir_cache runner) fs d' = Inr raw'"
        by (auto simp: cp' resumable_def recorded_def)
      with cache.put_keeps [OF put] show ?thesis by blast
    qed
  qed
  moreover have "state_load (ir_state runner) ?fs (jc_job_id cp) =
      Inr \<lparr>jc_job_id = jc_job_id cp', jc_completed = sort_key fst (jc_completed cp')\<rparr>"
    using state_save_load [of "ir_state runner" cp' fs'] by (simp add: cp')
  ultimately show ?thesis using dist same_checkpoint_refl [of cp'] by (auto simp: resumable_def cp')
qed

lemma run_chunk_resumable:
  assumes ap: "apart runner out man" and sv: "serves a p" and plan: "distinct (map fc_key plan)" "c \<in> set plan"
    and J: "resumable runner p plan job (w_files w) cp" and job: "jc_job_id cp = job"
    and run: "run_chunk runner a c cp w = (r, w')"
  shows "\<exists>cp'. jc_job_id cp' = job \<and> resumable runner p plan job (w_files w') cp' \<and>
     (\<forall>raw d cp''. r = Inr (raw, d, cp'') \<longrightarrow> cp'' = cp' \<and> ad_fetch p c = Inr raw \<and> d = sha256_hex raw)"
proof (cases "map_of (jc_completed cp) (fc_key c)")
  case (Some d)
  from J plan(2) Some obtain raw where raw: "ad_fetch p c = Inr raw" "cache_get (ir_cache runner) (w_files w) d = Inr raw"
    by (auto simp: resumable_def recorded_def)
  with run Some have "r = Inr (raw, d, cp)" "w' = w" by (auto simp: run_chunk_def)
  with J job raw cache.get_addr [OF raw(2)] show ?thesis by auto
next
  case None
  show ?thesis
  proof (cases "\<exists>e. r = Inl e")
    case True
    with run None have "w_files w' = w_files w" by (auto simp: run_chunk_def Let_def split: sum.splits)
    with J job True show ?thesis by auto
  next
    case False
    with run None obtain raw b d fs' where x: "ad_fetch a c = Inr raw"
        "cache_put (ir_cache runner) raw (w_files w) = Inr (d, fs')"
      and r: "r = Inr (raw, d, cp\<lparr>jc_completed := AList.update (fc_key c) d (jc_completed cp)\<rparr>)"
      and w': "w_files w' = state_save (ir_state runner) (cp\<lparr>jc_completed := AList.update (fc_key c) d (jc_completed cp)\<rparr>) fs'"
      by (auto simp: run_chunk_def Let_def split: sum.splits prod.splits)
    from sv x have raw: "ad_fetch p c = Inr raw" by (auto simp: serves_def)
    from J job have "resumable runner p plan (jc_job_id cp) (w_files w) cp" by simp
    from resumable_save [OF ap this plan raw x(2) refl] job
    have "resumable runner p plan job (w_files w') (cp\<lparr>jc_completed := AList.update (fc_key c) d (jc_completed cp)\<rparr>)"
      by (simp add: w')
    with r raw job cache.put_get [OF x(2)] show ?thesis by auto
  qed
qed

lemma run_chunks_resumable:
  assumes ap: "apart runner out man" and sv: "serves a p" and plan: "distinct (map fc_key plan)"
  shows "set chunks \<subseteq> set plan \<Longrightarrow> resumable runner p plan job (w_files w) cp \<Longrightarrow> jc_job_id cp = job \<Longrightarrow>
    run_chunks runner a chunks cp events hashes w = (r, w') \<Longrightarrow>
    (\<exists>cp'. resumable runner p plan job (w_files w') cp') \<and>
    (\<forall>events' hashes'. r = Inr (events', hashes') \<longrightarrow> (\<exists>parts. mapR (archive_chunk p) chunks = Inr parts \<and>
       events' = events @ concat (map fst parts) \<and> hashes' = hashes @ map snd parts))"
proof (induction chunks arbitrary: cp events hashes w)
  case (Cons c chunks)
  obtain r1 w1 where one: "run_chunk runner a c cp w = (r1, w1)" by fastforce
  from Cons.prems(1) have "c \<in> set plan" by simp
  from run_chunk_resumable [OF ap sv plan this Cons.prems(2,3) one]
  obtain cp1 where cp1: "jc_job_id cp1 = job" "resumable runner p plan job (w_files w1) cp1"
    and r1: "\<And>raw d cp''. r1 = Inr (raw, d, cp'') \<Longrightarrow> cp'' = cp1 \<and> ad_fetch p c = Inr raw \<and> d = sha256_hex raw"
    by blast
  show ?case
  proof (cases r1)
    case (Inl e)
    with Cons.prems(4) one cp1 show ?thesis by auto
  next
    case (Inr x)
    then obtain raw where x: "r1 = Inr (raw, sha256_hex raw, cp1)" and raw: "ad_fetch p c = Inr raw"
      using r1 by (cases x) blast
    show ?thesis
    proof (cases "ad_normalize a c raw")
      case (Inl e)
      with Cons.prems(4) one x cp1 show ?thesis by auto
    next
      case (Inr batch)
      with Cons.prems(4) one x have rest: "run_chunks runner a chunks cp1 (events @ batch) (hashes @ [(fc_key c, sha256_hex raw)]) w1 = (r, w')"
        by simp
      have "archive_chunk p c = Inr (batch, fc_key c, sha256_hex raw)"
        using raw Inr sv by (simp add: archive_chunk_def serves_def)
      with Cons.IH [OF _ cp1(2,1) rest] Cons.prems(1) show ?thesis by fastforce
    qed
  qed
qed auto

lemma mapR_require_json: "mapR (\<lambda>event. require_json_value (JObj event)) events = Inr xs \<longleftrightarrow>
   xs = map JObj events \<and> (\<forall>e\<in>set events. no_float (JObj e))"
  by (induction events arbitrary: xs) (auto simp: require_json_value_def)

lemma sort_events_length: "sort_events events = Inr ordered \<Longrightarrow> length ordered = length events"
  by (auto simp: sort_events_def mapR_eq_Inr dest: list_all2_lengthD)

lemma write_canonical_Inr:
  "write_canonical out man job events hashes fs = Inr (h, fs') \<Longrightarrow> out \<noteq> [] \<Longrightarrow> man \<noteq> [] \<Longrightarrow>
   \<exists>ordered body. sort_events events = Inr ordered \<and> event_lines ordered = Inr body \<and> h = sha256_hex body \<and>
     fs' = fs(out \<mapsto> Raw body, tmp_path out := None, man \<mapsto> JsonText (dumps_indent (manifest_json h hashes job (length ordered)) @ [CHR 0x0A])
       (sort_keys (manifest_json h hashes job (length ordered))), tmp_path man := None)"
  by (auto simp: write_canonical_def Let_def write_tmp simp del: fun_upd_apply)

lemma run_job_cases:
  assumes "run_job runner a request out man w = (r, w')"
  obtains (early) e where "r = Inl e" "w' = w"
  | (chunks) plan job cp e where "ad_plan a request = Inr plan" "job_id_of request = Inr job"
      "preflight (int (length plan)) (plan_cost_minor plan) (w_budget w) = Inr ()"
      "state_load (ir_state runner) (w_files w) job = Inr cp" "run_chunks runner a plan cp [] [] w = (Inl e, w')" "r = Inl e"
  | (writing) plan job cp events hashes e where "ad_plan a request = Inr plan" "job_id_of request = Inr job"
      "preflight (int (length plan)) (plan_cost_minor plan) (w_budget w) = Inr ()"
      "state_load (ir_state runner) (w_files w) job = Inr cp" "run_chunks runner a plan cp [] [] w = (Inr (events, hashes), w')"
      "write_canonical out man job events hashes (w_files w') = Inl e" "r = Inl e"
  | (ok) plan job cp events hashes w1 h fs where "ad_plan a request = Inr plan" "job_id_of request = Inr job"
      "preflight (int (length plan)) (plan_cost_minor plan) (w_budget w) = Inr ()"
      "state_load (ir_state runner) (w_files w) job = Inr cp" "run_chunks runner a plan cp [] [] w = (Inr (events, hashes), w1)"
      "write_canonical out man job events hashes (w_files w1) = Inr (h, fs)" "w' = w1\<lparr>w_files := fs\<rparr>"
      "r = Inr \<lparr>rr_job_id = job, rr_content_sha256 = h, rr_row_count = length events\<rparr>"
proof -
  obtain plan job cp where p: "(\<exists>e. r = Inl e) \<and> w' = w \<or> ad_plan a request = Inr plan \<and>
      preflight (int (length plan)) (plan_cost_minor plan) (w_budget w) = Inr () \<and> job_id_of request = Inr job \<and>
      state_load (ir_state runner) (w_files w) job = Inr cp"
    using assms unfolding run_job_def
    by (cases "ad_plan a request"; cases "job_id_of request") (auto split: sum.splits simp: bindR_def)
  then show thesis
  proof (elim disjE conjE exE)
    assume plan: "ad_plan a request = Inr plan" "preflight (int (length plan)) (plan_cost_minor plan) (w_budget w) = Inr ()"
      "job_id_of request = Inr job" "state_load (ir_state runner) (w_files w) job = Inr cp"
    obtain q w1 where q: "run_chunks runner a plan cp [] [] w = (q, w1)" by fastforce
    show thesis
    proof (cases q)
      case (Inl e)
      with assms plan q chunks show thesis by (simp add: run_job_def)
    next
      case (Inr x)
      then obtain events hashes where x: "q = Inr (events, hashes)" by (cases x) simp
      show thesis
      proof (cases "write_canonical out man job events hashes (w_files w1)")
        case (Inl e)
        with assms plan q x writing show thesis by (simp add: run_job_def)
      next
        case (Inr y)
        with assms plan q x ok show thesis by (cases y) (simp add: run_job_def)
      qed
    qed
  qed (use early in blast)
qed

text \<open>Attempts at one job, each in a process of its own with its own connection and budget, on the same disk.\<close>

fun after_attempts :: "IngestionRunner \<Rightarrow> FetchRequest \<Rightarrow> path \<Rightarrow> path \<Rightarrow> (adapter \<times> BudgetGuard) list \<Rightarrow> files \<Rightarrow> files" where
  "after_attempts runner request out man [] fs = fs"
| "after_attempts runner request out man ((a, b) # attempts) fs =
     after_attempts runner request out man attempts
       (w_files (snd (run_job runner a request out man \<lparr>w_files = fs, w_budget = b\<rparr>)))"

lemma written_apart:
  assumes "apart runner out man" and "write_canonical out man job events hashes fs = Inr (h, fs')"
    and "under (ir_cache runner) q \<or> under (ir_state runner) q"
  shows "fs' q = fs q"
proof -
  have "out \<noteq> []" "man \<noteq> []" "q \<noteq> out" "q \<noteq> man" "q \<noteq> tmp_path out" "q \<noteq> tmp_path man" using assms(1,3) by (auto simp: apart_def)
  with write_canonical_Inr [OF assms(2)] show ?thesis by auto
qed

lemma resumable_written:
  assumes "apart runner out man" and "write_canonical out man job' events hashes fs = Inr (h, fs')"
    and "resumable runner p plan job fs cp"
  shows "resumable runner p plan job fs' cp"
proof -
  have "cache_get (ir_cache runner) fs' d = cache_get (ir_cache runner) fs d" for d
    by (rule cache_get_frame) (use written_apart [OF assms(1,2)] in blast)
  moreover have "state_load (ir_state runner) fs' job = state_load (ir_state runner) fs job"
    by (rule state_load_frame) (use written_apart [OF assms(1,2)] in blast)
  ultimately show ?thesis using assms(3) by (simp add: resumable_def recorded_def)
qed

lemma chunks_phase:
  assumes "apart runner out man" and "serves a p" and "distinct (map fc_key plan)"
    and "resumable runner p plan job (w_files w) cp" and "state_load (ir_state runner) (w_files w) job = Inr cp'"
    and "run_chunks runner a plan cp' [] [] w = (r, w')"
  shows "\<exists>cp'. resumable runner p plan job (w_files w') cp'"
    and "r = Inr (events, hashes) \<Longrightarrow>
      \<exists>parts. mapR (archive_chunk p) plan = Inr parts \<and> events = concat (map fst parts) \<and> hashes = map snd parts"
proof -
  have "resumable runner p plan job (w_files w) cp'" by (rule resumable_loaded [OF assms(4,5)])
  moreover from this assms(5) have "jc_job_id cp' = job" by (auto simp: resumable_def same_checkpoint_def)
  ultimately show "\<exists>cp'. resumable runner p plan job (w_files w') cp'" "r = Inr (events, hashes) \<Longrightarrow>
      \<exists>parts. mapR (archive_chunk p) plan = Inr parts \<and> events = concat (map fst parts) \<and> hashes = map snd parts"
    using run_chunks_resumable [OF assms(1-3) subset_refl _ _ assms(6)] by auto
qed

lemma run_job_resumable:
  assumes ap: "apart runner out man" and sv: "serves a p" and plan: "ad_plan p request = Inr plan" "distinct (map fc_key plan)"
    and job: "job_id_of request = Inr job" and J: "resumable runner p plan job (w_files w) cp"
    and run: "run_job runner a request out man w = (r, w')"
  shows "\<exists>cp'. resumable runner p plan job (w_files w') cp'"
proof -
  have pa: "ad_plan a request = Inr plan" using plan sv by (simp add: serves_def)
  note phase = chunks_phase(1) [OF ap sv plan(2) J]
  from run show ?thesis
  proof (cases rule: run_job_cases)
    case early
    with J show ?thesis by auto
  next
    case chunks
    with pa job phase show ?thesis by auto
  next
    case writing
    with pa job phase show ?thesis by auto
  next
    case (ok plan' job' cp' events hashes w1 h fs)
    with pa job phase have "\<exists>cp'. resumable runner p plan job (w_files w1) cp'" by auto
    with resumable_written [OF ap ok(6)] show ?thesis by (simp add: ok(7)) blast
  qed
qed

lemma attempts_resumable:
  assumes ap: "apart runner out man" and plan: "ad_plan p request = Inr plan" "distinct (map fc_key plan)"
    and job: "job_id_of request = Inr job"
  shows "\<exists>cp. resumable runner p plan job fs cp \<Longrightarrow> \<forall>(a, b)\<in>set attempts. serves a p \<Longrightarrow>
    \<exists>cp. resumable runner p plan job (after_attempts runner request out man attempts fs) cp"
proof (induction attempts arbitrary: fs)
  case (Cons x attempts)
  obtain a b where x: "x = (a, b)" by fastforce
  obtain r w' where run: "run_job runner a request out man \<lparr>w_files = fs, w_budget = b\<rparr> = (r, w')" by fastforce
  from Cons.prems x have "serves a p" by simp
  moreover from Cons.prems obtain cp where "resumable runner p plan job (w_files \<lparr>w_files = fs, w_budget = b\<rparr>) cp" by auto
  ultimately have "\<exists>cp'. resumable runner p plan job (w_files w') cp'" using run_job_resumable [OF ap _ plan job _ run] by blast
  from Cons.IH [OF this] Cons.prems(2) show ?case by (simp add: x run)
qed auto

section \<open>Progress\<close>

text \<open>A cache whose objects all have their hashes; every step of a run keeps it so.\<close>

definition cache_clean :: "path \<Rightarrow> files \<Rightarrow> bool" where
  "cache_clean root fs \<longleftrightarrow> (\<forall>k. is_sha256_hex k \<longrightarrow> fs (cache_path root k) = None \<or> (\<exists>x. cache_get root fs k = Inr x))"

lemma cache_clean_frame: "(\<And>p. under root p \<Longrightarrow> fs' p = fs p) \<Longrightarrow> cache_clean root fs \<Longrightarrow> cache_clean root fs'"
  using cache_get_frame [of root fs' fs] by (simp add: cache_clean_def)

lemma cache_clean_put:
  assumes "cache_clean root fs" and put: "cache_put root x fs = Inr (d, fs')"
  shows "cache_clean root fs'"
  unfolding cache_clean_def
proof (intro allI impI)
  fix k assume k: "is_sha256_hex k"
  show "fs' (cache_path root k) = None \<or> (\<exists>x. cache_get root fs' k = Inr x)"
  proof (cases "fs (cache_path root k)")
    case None
    show ?thesis
    proof (cases "cache_path root k = cache_path root d")
      case True
      from put have "is_sha256_hex d" by (simp add: cache_put_Inr)
      from k this True have "k = d" by (rule cache_path_inj)
      with cache.put_get [OF put] show ?thesis by auto
    next
      case False
      with None put show ?thesis by (auto simp: cache_put_Inr)
    qed
  next
    case Some
    with assms(1) k have "\<exists>x. cache_get root fs k = Inr x" by (auto simp: cache_clean_def)
    with cache.put_keeps [OF put] show ?thesis by blast
  qed
qed

lemma cache_clean_put_ok:
  assumes "cache_clean root fs" and "\<not> sha256_collision"
  shows "\<exists>d fs'. cache_put root x fs = Inr (d, fs')"
proof (cases "fs (cache_path root (sha256_hex x))")
  case None
  then show ?thesis by (simp add: cache_put_def Let_def)
next
  case Some
  with assms(1) obtain y where y: "cache_get root fs (sha256_hex x) = Inr y"
    by (metis cache_clean_def option.distinct(1) sha256_hex_valid)
  with cache.get_addr [OF y] assms(2) sha256_hex_eqD have "y = x" by metis
  with y Some show ?thesis by (simp add: cache_put_def Let_def)
qed

lemma run_chunk_clean:
  assumes "apart runner out man" and "cache_clean (ir_cache runner) (w_files w)"
    and "run_chunk runner a c cp w = (r, w')"
  shows "cache_clean (ir_cache runner) (w_files w')"
proof -
  have "cache_clean (ir_cache runner) (state_save (ir_state runner) cp' fs')"
    if "cache_put (ir_cache runner) raw (w_files w) = Inr (d, fs')" for raw d fs' cp'
    by (rule cache_clean_frame [OF _ cache_clean_put [OF assms(2) that]])
      (use apart_places [OF assms(1)] in \<open>blast intro: state_save_frame\<close>)
  with assms(2,3) show ?thesis
    by (auto simp: run_chunk_def Let_def split: option.splits sum.splits prod.splits)
qed

lemma run_chunks_clean:
  assumes "apart runner out man"
  shows "cache_clean (ir_cache runner) (w_files w) \<Longrightarrow> run_chunks runner a chunks cp events hashes w = (r, w') \<Longrightarrow>
    cache_clean (ir_cache runner) (w_files w')"
proof (induction chunks arbitrary: cp events hashes w)
  case (Cons c chunks)
  obtain r1 w1 where one: "run_chunk runner a c cp w = (r1, w1)" by fastforce
  have "cache_clean (ir_cache runner) (w_files w1)" by (rule run_chunk_clean [OF assms Cons.prems(1) one])
  with Cons.prems(2) one Cons.IH show ?case by (auto split: sum.splits)
qed simp

lemma run_job_clean:
  assumes ap: "apart runner out man" and clean: "cache_clean (ir_cache runner) (w_files w)"
    and run: "run_job runner a request out man w = (r, w')"
  shows "cache_clean (ir_cache runner) (w_files w')"
  using run
proof (cases rule: run_job_cases)
  case (ok plan' job' cp' events hashes w1 h fs)
  have "cache_clean (ir_cache runner) fs"
    by (rule cache_clean_frame [OF _ run_chunks_clean [OF ap clean ok(5)]]) (use written_apart [OF ap ok(6)] in blast)
  with ok(7) show ?thesis by simp
qed (use clean run_chunks_clean [OF ap clean] in auto)

lemma attempts_clean:
  assumes "apart runner out man"
  shows "cache_clean (ir_cache runner) fs \<Longrightarrow> cache_clean (ir_cache runner) (after_attempts runner request out man attempts fs)"
proof (induction attempts arbitrary: fs)
  case (Cons x attempts)
  obtain a b where x: "x = (a, b)" by fastforce
  obtain r w' where run: "run_job runner a request out man \<lparr>w_files = fs, w_budget = b\<rparr> = (r, w')" by fastforce
  from run_job_clean [OF assms _ run] Cons show ?case by (simp add: x run)
qed simp

text \<open>A budget that covers the chunks that are left, at the sizes the archive has.\<close>

definition chunk_size :: "adapter \<Rightarrow> FetchChunk \<Rightarrow> int" where
  "chunk_size p c = (case ad_fetch p c of Inl _ \<Rightarrow> 0 | Inr raw \<Rightarrow> int (length raw))"

definition covers :: "BudgetGuard \<Rightarrow> adapter \<Rightarrow> FetchChunk list \<Rightarrow> bool" where
  "covers b p chunks \<longleftrightarrow> list_all (\<lambda>c. 0 \<le> fc_estimated_cost_minor c) chunks \<and>
     bg_requests b + int (length chunks) \<le> bg_max_requests b \<and>
     bg_bytes b + sum_list (map (chunk_size p) chunks) \<le> bg_max_bytes b \<and>
     bg_cost_minor b + plan_cost_minor chunks \<le> bg_max_cost_minor b"

definition completed_keys :: "IngestionRunner \<Rightarrow> string \<Rightarrow> files \<Rightarrow> string set" where
  "completed_keys runner job fs = (case state_load (ir_state runner) fs job of
     Inl _ \<Rightarrow> {} | Inr cp \<Rightarrow> fst ` set (jc_completed cp))"

lemma chunk_size_nonneg [simp]: "0 \<le> chunk_size p c"
  by (simp add: chunk_size_def split: sum.splits)

lemma sum_chunk_size_nonneg [simp]: "0 \<le> sum_list (map (chunk_size p) cs)"
  by (induction cs) (simp_all add: add_nonneg_nonneg)

lemma plan_cost_nonneg: "list_all (\<lambda>c. 0 \<le> fc_estimated_cost_minor c) cs \<Longrightarrow> 0 \<le> plan_cost_minor cs"
  by (induction cs) (simp_all add: plan_cost_minor_def)

lemma consume_covered:
  assumes "covers b p (c # chunks)" and "ad_fetch p c = Inr raw"
  shows "\<exists>b'. consume (int (length raw)) (fc_estimated_cost_minor c) b = Inr b' \<and> covers b' p chunks"
proof -
  have "0 \<le> plan_cost_minor chunks" using assms(1) by (intro plan_cost_nonneg) (simp add: covers_def)
  moreover have "chunk_size p c = int (length raw)" using assms(2) by (simp add: chunk_size_def)
  ultimately show ?thesis using assms(1) sum_chunk_size_nonneg [of p chunks]
    by (auto simp: consume_def covers_def Let_def plan_cost_minor_def require_def simp del: sum_chunk_size_nonneg)
qed

lemma covers_Cons: "covers b p (c # chunks) \<Longrightarrow> covers b p chunks"
  using chunk_size_nonneg [of p c] by (auto simp: covers_def plan_cost_minor_def simp del: chunk_size_nonneg)

lemma run_chunk_completes:
  assumes nc: "\<not> sha256_collision" and sv: "serves a p" and clean: "cache_clean (ir_cache runner) (w_files w)"
    and J: "resumable runner p plan job (w_files w) cp" and c: "c \<in> set plan"
    and fetch: "(\<exists>raw. ad_fetch a c = Inr raw) \<or> fc_key c \<in> dom (map_of (jc_completed cp))"
    and cov: "covers (w_budget w) p (c # chunks)"
  shows "\<exists>raw d cp' w'. run_chunk runner a c cp w = (Inr (raw, d, cp'), w') \<and> covers (w_budget w') p chunks \<and>
    dom (map_of (jc_completed cp)) \<subseteq> dom (map_of (jc_completed cp'))"
proof (cases "map_of (jc_completed cp) (fc_key c)")
  case (Some d)
  with J c obtain raw where "cache_get (ir_cache runner) (w_files w) d = Inr raw" by (auto simp: resumable_def recorded_def)
  with Some covers_Cons [OF cov] show ?thesis by (simp add: run_chunk_def)
next
  case None
  with fetch obtain raw where raw: "ad_fetch a c = Inr raw" by auto
  with sv have "ad_fetch p c = Inr raw" by (simp add: serves_def)
  from consume_covered [OF cov this] obtain b where
    b: "consume (int (length raw)) (fc_estimated_cost_minor c) (w_budget w) = Inr b" "covers b p chunks" by blast
  from cache_clean_put_ok [OF clean nc] obtain d fs where "cache_put (ir_cache runner) raw (w_files w) = Inr (d, fs)" by blast
  with None raw b show ?thesis by (auto simp: run_chunk_def Let_def)
qed

lemma run_chunks_complete:
  assumes nc: "\<not> sha256_collision" and ap: "apart runner out man" and sv: "serves a p" and plan: "distinct (map fc_key plan)"
  shows "set chunks \<subseteq> set plan \<Longrightarrow> resumable runner p plan job (w_files w) cp \<Longrightarrow> jc_job_id cp = job \<Longrightarrow>
    cache_clean (ir_cache runner) (w_files w) \<Longrightarrow> covers (w_budget w) p chunks \<Longrightarrow>
    \<forall>c\<in>set chunks. (\<exists>raw. ad_fetch a c = Inr raw) \<or> fc_key c \<in> dom (map_of (jc_completed cp)) \<Longrightarrow>
    mapR (archive_chunk p) chunks = Inr parts \<Longrightarrow>
    \<exists>x w'. run_chunks runner a chunks cp events hashes w = (Inr x, w')"
proof (induction chunks arbitrary: cp events hashes w parts)
  case (Cons c chunks)
  have c: "c \<in> set plan" using Cons.prems(1) by simp
  from run_chunk_completes [OF nc sv Cons.prems(4,2) c _ Cons.prems(5)] Cons.prems(6)
  obtain raw d cp' w1 where one: "run_chunk runner a c cp w = (Inr (raw, d, cp'), w1)" and cov: "covers (w_budget w1) p chunks"
    and sub: "dom (map_of (jc_completed cp)) \<subseteq> dom (map_of (jc_completed cp'))" by auto
  from run_chunk_resumable [OF ap sv plan c Cons.prems(2,3) one]
  have J: "jc_job_id cp' = job" "resumable runner p plan job (w_files w1) cp'" "ad_fetch p c = Inr raw" by auto
  with Cons.prems(7) obtain batch where "ad_normalize p c raw = Inr batch" by (auto simp: archive_chunk_def)
  then have norm: "ad_normalize a c raw = Inr batch" using sv by (simp add: serves_def)
  have left: "\<forall>c\<in>set chunks. (\<exists>raw. ad_fetch a c = Inr raw) \<or> fc_key c \<in> dom (map_of (jc_completed cp'))"
    using Cons.prems(6) sub by (meson list.set_intros(2) subsetD)
  from Cons.prems(7) obtain parts' where "mapR (archive_chunk p) chunks = Inr parts'" by auto
  from Cons.IH [OF _ J(2,1) run_chunk_clean [OF ap Cons.prems(4) one] cov left this] Cons.prems(1) norm one
  show ?case by auto
qed auto

section \<open>The budget\<close>

definition within :: "BudgetGuard \<Rightarrow> bool" where
  "within b \<longleftrightarrow> bg_requests b \<le> bg_max_requests b \<and> bg_bytes b \<le> bg_max_bytes b \<and> bg_cost_minor b \<le> bg_max_cost_minor b"

definition charged :: "BudgetGuard \<Rightarrow> BudgetGuard \<Rightarrow> bool" where
  "charged b b' \<longleftrightarrow> bg_max_requests b' = bg_max_requests b \<and> bg_max_bytes b' = bg_max_bytes b \<and>
     bg_max_cost_minor b' = bg_max_cost_minor b \<and> bg_requests b \<le> bg_requests b' \<and> bg_bytes b \<le> bg_bytes b' \<and>
     bg_cost_minor b \<le> bg_cost_minor b' \<and> (within b \<longrightarrow> within b')"

lemma charged_trans: "charged a b \<Longrightarrow> charged b c \<Longrightarrow> charged a c"
  by (auto simp: charged_def)

lemma consume_charged: "consume n m b = Inr b' \<Longrightarrow> charged b b' \<and> bg_requests b' = bg_requests b + 1"
  by (auto simp: consume_def charged_def within_def Let_def)

lemma run_chunk_charged:
  assumes "run_chunk runner a c cp w = (r, w')"
  shows "charged (w_budget w) (w_budget w')"
    and "r = Inr (raw, d, cp') \<Longrightarrow> bg_requests (w_budget w') =
      bg_requests (w_budget w) + (if fc_key c \<in> dom (map_of (jc_completed cp)) then 0 else 1) \<and>
      dom (map_of (jc_completed cp')) = insert (fc_key c) (dom (map_of (jc_completed cp)))"
  using assms consume_charged
  by (auto simp: run_chunk_def Let_def charged_def split: option.splits sum.splits prod.splits)

lemma run_chunks_charged:
  "run_chunks runner a chunks cp events hashes w = (r, w') \<Longrightarrow> charged (w_budget w) (w_budget w') \<and>
     (distinct (map fc_key chunks) \<longrightarrow> (\<forall>x. r = Inr x \<longrightarrow> bg_requests (w_budget w') = bg_requests (w_budget w) +
       int (length (filter (\<lambda>c. fc_key c \<notin> dom (map_of (jc_completed cp))) chunks))))"
proof (induction chunks arbitrary: cp events hashes w)
  case Nil
  then show ?case by (auto simp: charged_def)
next
  case (Cons c chunks)
  obtain r1 w1 where one: "run_chunk runner a c cp w = (r1, w1)" by fastforce
  note c1 = run_chunk_charged [OF one]
  show ?case
  proof (cases "\<exists>raw d cp' batch. r1 = Inr (raw, d, cp') \<and> ad_normalize a c raw = Inr batch")
    case True
    then obtain raw d cp' batch where x: "r1 = Inr (raw, d, cp')" "ad_normalize a c raw = Inr batch" by blast
    with Cons.prems one have "run_chunks runner a chunks cp' (events @ batch) (hashes @ [(fc_key c, d)]) w1 = (r, w')" by simp
    note rest = Cons.IH [OF this]
    have "filter (\<lambda>k. fc_key k \<notin> dom (map_of (jc_completed cp'))) chunks = filter (\<lambda>k. fc_key k \<notin> dom (map_of (jc_completed cp))) chunks"
      if "fc_key c \<notin> fc_key ` set chunks"
      using c1(2) [OF x(1)] that by (intro filter_cong) (auto simp del: domIff, metis image_eqI)
    with rest c1(2) [OF x(1)] charged_trans [OF c1(1)] show ?thesis by simp
  next
    case False
    with Cons.prems one have "w' = w1 \<and> (\<exists>e. r = Inl e)" by (fastforce split: sum.splits)
    with c1(1) show ?thesis by auto
  qed
qed

section \<open>The written file\<close>

lemma sort_events_Inr:
  assumes "sort_events events = Inr ordered"
  obtains key where "\<And>e. e \<in> set events \<Longrightarrow> event_sort_key e = Inr (key e)" and "ordered = sort_key key events"
proof -
  define key where "key e = projr (event_sort_key e)" for e
  from assms obtain keys where keys: "list_all2 (\<lambda>e k. event_sort_key e = Inr k) events keys"
    and o: "ordered = map snd (sort_key fst (zip keys events))" by (auto simp: sort_events_def mapR_eq_Inr)
  have k: "event_sort_key e = Inr (key e)" if "e \<in> set events" for e
    using keys that by (auto simp: list_all2_conv_all_nth key_def in_set_conv_nth)
  have "keys = map key events"
    using keys by (auto simp: list_all2_conv_all_nth key_def intro!: nth_equalityI)
  then have "zip keys events = map (\<lambda>e. (key e, e)) events" by (simp add: zip_map1 zip_same_conv_map)
  then have "ordered = sort_key key events" by (simp add: o sort_key_map [of fst "\<lambda>e. (key e, e)" key] comp_def)
  with k that show thesis by blast
qed

lemma event_lines_Inr:
  "event_lines events = Inr body \<longleftrightarrow> (\<forall>e\<in>set events. no_float (JObj e)) \<and>
     body = concat (map (\<lambda>e. utf8 (dumps_raw (JObj e)) @ [10]) events)"
proof -
  have "mapR (\<lambda>event. canonical_bytes (JObj event)) events = Inr parts \<longleftrightarrow>
      (\<forall>e\<in>set events. no_float (JObj e)) \<and> parts = map (\<lambda>e. utf8 (dumps_raw (JObj e))) events" for parts
    by (induction events arbitrary: parts) (auto simp: canonical_bytes_def require_json_value_def simp del: no_float.simps)
  then show ?thesis by (auto simp: event_lines_def comp_def simp del: no_float.simps)
qed

lemma write_canonical_ok:
  assumes "sort_events events = Inr ordered" and "event_lines ordered = Inr body"
  shows "\<exists>fs'. write_canonical out man job events hashes fs = Inr (sha256_hex body, fs')"
proof -
  from assms(1) have "set ordered = set events" by (rule sort_events_Inr) simp
  with assms(2) have "mapR (\<lambda>event. require_json_value (JObj event)) events = Inr (map JObj events)"
    by (simp add: mapR_require_json event_lines_Inr del: no_float.simps)
  with assms show ?thesis by (simp add: write_canonical_def Let_def)
qed

section \<open>An attempt that completes\<close>

lemma attempt_completes:
  assumes nc: "\<not> sha256_collision" and ap: "apart runner out man"
    and plan: "ad_plan p request = Inr plan" "distinct (map fc_key plan)"
    and job: "job_id_of request = Inr job" and J0: "resumable runner p plan job (w_files w) cp0"
    and clean: "cache_clean (ir_cache runner) (w_files w)" and sv: "serves a p"
    and spec: "job_outcome p request = Inr (result, body, manifest)" and cov: "covers (w_budget w) p plan"
    and fetch: "\<forall>c\<in>set plan. (\<exists>raw. ad_fetch a c = Inr raw) \<or> fc_key c \<in> completed_keys runner job (w_files w)"
  shows "\<exists>w'. run_job runner a request out man w = (Inr result, w')"
proof -
  from J0 obtain cp where load: "state_load (ir_state runner) (w_files w) job = Inr cp" and J: "resumable runner p plan job (w_files w) cp"
    using resumable_loaded by (fastforce simp: resumable_def)
  then have cpj: "jc_job_id cp = job" by (auto simp: resumable_def same_checkpoint_def)
  have pa: "ad_plan a request = Inr plan" using plan sv by (auto simp: serves_def)
  from spec plan job obtain parts ordered content where parts: "mapR (archive_chunk p) plan = Inr parts"
      "sort_events (concat (map fst parts)) = Inr ordered" "event_lines ordered = Inr content"
    and result: "result = \<lparr>rr_job_id = job, rr_content_sha256 = sha256_hex content, rr_row_count = length ordered\<rparr>"
    by (auto simp: job_outcome_def Let_def)
  have "\<forall>c\<in>set plan. (\<exists>raw. ad_fetch a c = Inr raw) \<or> fc_key c \<in> dom (map_of (jc_completed cp))"
    using fetch by (simp add: completed_keys_def load dom_map_of_conv_image_fst)
  from run_chunks_complete [OF nc ap sv plan(2) subset_refl J cpj clean cov this parts(1)]
  obtain events hashes w1 where chunks: "run_chunks runner a plan cp [] [] w = (Inr (events, hashes), w1)" by fastforce
  from chunks_phase(2) [OF ap sv plan(2) J load chunks refl] parts(1) have "events = concat (map fst parts)" by simp
  with write_canonical_ok [OF _ parts(3), of events out man job hashes "w_files w1"] parts(2)
  obtain fs' where "write_canonical out man job events hashes (w_files w1) = Inr (sha256_hex content, fs')" by auto
  moreover have "preflight (int (length plan)) (plan_cost_minor plan) (w_budget w) = Inr ()"
    using cov plan_cost_nonneg [of plan] by (auto simp: preflight_def covers_def require_def)
  ultimately show ?thesis
    using pa job load chunks sort_events_length [OF parts(2)] \<open>events = _\<close> by (simp add: run_job_def result)
qed

section \<open>An interrupted job\<close>

text \<open>Two chunks; the first attempt fetches only the first, the second attempt can fetch only the second.\<close>

definition demo_request :: FetchRequest where
  "demo_request = \<lparr>fq_provider = ''p'', fq_dataset = ''d'', fq_instrument_id = ''i'', fq_start_ns = 0, fq_end_ns = 9, fq_options = []\<rparr>"

definition demo_job :: string where
  "demo_job = sha256_hex (utf8 (dumps_raw (JObj (request_canonical demo_request))))"

definition demo_chunk :: "string \<Rightarrow> FetchChunk" where
  "demo_chunk key = \<lparr>fc_key = key, fc_source_ref = key, fc_expected_bytes = None, fc_estimated_cost_minor = 0\<rparr>"

definition demo_plan :: FetchPlan where
  "demo_plan = [demo_chunk ''a'', demo_chunk ''b'']"

definition demo_adapter :: "bool \<Rightarrow> bool \<Rightarrow> adapter" where
  "demo_adapter first second = \<lparr>ad_plan = (\<lambda>_. Inr demo_plan),
     ad_fetch = (\<lambda>c. if fc_key c = ''a'' \<and> first then Inr [1] else if fc_key c = ''b'' \<and> second then Inr [2] else Inl RuntimeError),
     ad_normalize = (\<lambda>c raw. Inr [[(''ts_event_ns'', JStr (if raw = [1] then ''20'' else ''10''))]])\<rparr>"

definition demo_runner :: IngestionRunner where
  "demo_runner = \<lparr>ir_cache = [''cache''], ir_state = [''state'']\<rparr>"

definition demo_budget :: BudgetGuard where
  "demo_budget = \<lparr>bg_max_requests = 2, bg_max_bytes = 10, bg_max_cost_minor = 0, bg_requests = 0, bg_bytes = 0, bg_cost_minor = 0\<rparr>"

abbreviation demo_out :: path where "demo_out \<equiv> [''out'', ''e'']"
abbreviation demo_man :: path where "demo_man \<equiv> [''out'', ''m'']"

abbreviation demo_disk :: files where
  "demo_disk \<equiv> after_attempts demo_runner demo_request demo_out demo_man [(demo_adapter True False, demo_budget)] Map.empty"

lemmas demo_defs = demo_request_def demo_chunk_def demo_plan_def demo_adapter_def demo_runner_def demo_budget_def

lemma demo_job_facts:
  "apart demo_runner demo_out demo_man" "job_id_of demo_request = Inr demo_job" "distinct (map fc_key demo_plan)"
  "serves (demo_adapter b c) (demo_adapter True True)" "ad_plan (demo_adapter b c) demo_request = Inr demo_plan"
  "covers demo_budget (demo_adapter True True) demo_plan" "cache_clean [''cache''] Map.empty"
  by (simp_all add: demo_defs apart_def under_def tmp_path_def job_id_of_def demo_job_def request_canonical_def canonical_bytes_def
      require_json_value_def serves_def covers_def chunk_size_def plan_cost_minor_def cache_clean_def)

lemma demo_keys:
  "event_sort_key [(''ts_event_ns'', JStr ''20'')] = Inr (20, 0, 0)" "event_sort_key [(''ts_event_ns'', JStr ''10'')] = Inr (10, 0, 0)"
  by code_simp+

lemma demo_outcome: "\<exists>result body manifest. job_outcome (demo_adapter True True) demo_request = Inr (result, body, manifest)"
proof -
  let ?e = "\<lambda>t. [(''ts_event_ns'', JStr t)]"
  have "mapR (archive_chunk (demo_adapter True True)) demo_plan =
      Inr [([?e ''20''], ''a'', sha256_hex [1]), ([?e ''10''], ''b'', sha256_hex [2])]"
    by (simp add: archive_chunk_def demo_defs)
  moreover have "sort_events [?e ''20'', ?e ''10''] = Inr [?e ''10'', ?e ''20'']" by (simp add: sort_events_def demo_keys)
  moreover have "\<exists>body. event_lines [?e ''10'', ?e ''20''] = Inr body" by (simp add: event_lines_Inr)
  ultimately show ?thesis by (auto simp: job_outcome_def demo_job_facts Let_def)
qed

text \<open>After the first attempt the disk holds the checkpoint of the first chunk and a clean cache.\<close>

lemma demo_interrupted:
  "completed_keys demo_runner demo_job demo_disk = {''a''}"
  "\<exists>cp. resumable demo_runner (demo_adapter True True) demo_plan demo_job demo_disk cp" "cache_clean [''cache''] demo_disk"
proof -
  have run: "run_job demo_runner (demo_adapter True False) demo_request demo_out demo_man \<lparr>w_files = Map.empty, w_budget = demo_budget\<rparr> =
     (Inl RuntimeError, \<lparr>w_files = state_save [''state''] \<lparr>jc_job_id = demo_job, jc_completed = [(''a'', sha256_hex [1])]\<rparr>
        (write_replace (tmp_path (cache_path [''cache''] (sha256_hex [1]))) (cache_path [''cache''] (sha256_hex [1])) (Raw [1]) Map.empty),
      w_budget = demo_budget\<lparr>bg_requests := 1, bg_bytes := 1\<rparr>\<rparr>)"
    unfolding run_job_def demo_job_facts
    by (simp add: preflight_def plan_cost_minor_def state_load_def demo_defs run_chunk_def consume_def cache_put_def Let_def)
  show "completed_keys demo_runner demo_job demo_disk = {''a''}"
    using state_save_load [of "[''state'']" "\<lparr>jc_job_id = demo_job, jc_completed = [(''a'', sha256_hex [1])]\<rparr>"]
    by (simp add: run completed_keys_def) (simp add: demo_runner_def)
  show "\<exists>cp. resumable demo_runner (demo_adapter True True) demo_plan demo_job demo_disk cp"
    by (rule attempts_resumable [OF demo_job_facts(1,5,3,2)]) (use resumable_fresh [of Map.empty demo_runner demo_job] in \<open>auto simp: demo_job_facts\<close>)
  have c: "ir_cache demo_runner = [''cache'']" by (simp add: demo_runner_def)
  show "cache_clean [''cache''] demo_disk"
    using attempts_clean [OF demo_job_facts(1), of Map.empty demo_request "[(demo_adapter True False, demo_budget)]"] demo_job_facts(7)
    unfolding c by blast
qed

lemma demo_fetch: "\<forall>c\<in>set demo_plan. (\<exists>raw. ad_fetch (demo_adapter False True) c = Inr raw) \<or> fc_key c \<in> {''a''}"
  by (simp add: demo_defs)

lemma demo_resumed:
  assumes "\<not> sha256_collision"
  shows "\<exists>result w'. run_job demo_runner (demo_adapter False True) demo_request demo_out demo_man
    \<lparr>w_files = demo_disk, w_budget = demo_budget\<rparr> = (Inr result, w')"
proof -
  obtain result body manifest where spec: "job_outcome (demo_adapter True True) demo_request = Inr (result, body, manifest)"
    using demo_outcome by blast
  obtain cp where J: "resumable demo_runner (demo_adapter True True) demo_plan demo_job
      (w_files \<lparr>w_files = demo_disk, w_budget = demo_budget\<rparr>) cp" using demo_interrupted(2) by auto
  have c: "ir_cache demo_runner = [''cache'']" by (simp add: demo_runner_def)
  have "\<exists>w'. run_job demo_runner (demo_adapter False True) demo_request demo_out demo_man
    \<lparr>w_files = demo_disk, w_budget = demo_budget\<rparr> = (Inr result, w')"
    by (rule attempt_completes [OF assms demo_job_facts(1,5,3,2) J _ demo_job_facts(4) spec])
      (simp_all only: world.simps c demo_interrupted demo_job_facts, rule demo_fetch)
  then show ?thesis by blast
qed

lemma resume_outcome:
  assumes ap: "apart runner out man" and plan: "ad_plan p request = Inr plan" "distinct (map fc_key plan)"
    and job: "job_id_of request = Inr job" and fresh: "fs (state_path (ir_state runner) job) = None"
    and sv: "\<forall>(a, b)\<in>set ((a, b) # attempts). serves a p"
    and run: "run_job runner a request out man
      \<lparr>w_files = after_attempts runner request out man attempts fs, w_budget = b\<rparr> = (Inr result, w')"
  shows "\<exists>body manifest. job_outcome p request = Inr (result, body, manifest) \<and>
    w_files w' out = Some body \<and> w_files w' man = Some manifest"
proof -
  from attempts_resumable [OF ap plan job, of fs attempts] resumable_fresh [of fs runner job] fresh sv
  obtain cp where J: "resumable runner p plan job (after_attempts runner request out man attempts fs) cp" by auto
  have pa: "ad_plan a request = Inr plan" "serves a p" using plan sv by (auto simp: serves_def)
  from run show ?thesis
  proof (cases rule: run_job_cases)
    case (ok plan' job' cp' events hashes w1 h fs')
    with pa job have [simp]: "plan' = plan" "job' = job" by auto
    from chunks_phase(2) [OF ap pa(2) plan(2) _ _ ok(5) [simplified] refl] J ok(4)
    obtain parts where parts: "mapR (archive_chunk p) plan = Inr parts" "events = concat (map fst parts)" "hashes = map snd parts"
      by auto
    have ne: "out \<noteq> []" "man \<noteq> []" "out \<noteq> man" "out \<noteq> tmp_path man" "out \<noteq> tmp_path out" "man \<noteq> tmp_path man"
      using ap by (auto simp: apart_def)
    from write_canonical_Inr [OF ok(6) ne(1,2)] obtain ordered body where
      body: "sort_events events = Inr ordered" "event_lines ordered = Inr body" "h = sha256_hex body"
      and fs': "fs' = (w_files w1)(out \<mapsto> Raw body, tmp_path out := None, man \<mapsto> JsonText (dumps_indent (manifest_json h hashes job (length ordered)) @ [CHR 0x0A])
       (sort_keys (manifest_json h hashes job (length ordered))), tmp_path man := None)" by auto
    have files: "fs' out = Some (Raw body)" "fs' man = Some (JsonText (dumps_indent (manifest_json h hashes job (length ordered)) @ [CHR 0x0A])
       (sort_keys (manifest_json h hashes job (length ordered))))" unfolding fs' using ne by simp_all
    show ?thesis using plan job parts body files ok(7,8) sort_events_length [OF body(1)]
      by (simp add: job_outcome_def Let_def)
  qed auto
qed

section \<open>Properties\<close>



text \<open>C25: a run never exceeds its budget. Whatever the adapter returns and wherever the run stops, the limits are
  unchanged, no counter is ever given back, and counters that were within the limits still are. A run that succeeds was
  charged one request for each chunk of the plan that the checkpoint did not list, and none for the others.\<close>

theorem budget_never_exceeded:
  assumes "run_job runner a request out man w = (r, w')"
  shows "charged (w_budget w) (w_budget w') \<and>
    (\<forall>result plan. r = Inr result \<and> ad_plan a request = Inr plan \<and> distinct (map fc_key plan) \<longrightarrow>
       bg_requests (w_budget w') = bg_requests (w_budget w) +
         int (length (filter (\<lambda>c. fc_key c \<notin> completed_keys runner (rr_job_id result) (w_files w)) plan)))"
  using assms
proof (cases rule: run_job_cases)
  case (ok plan job cp events hashes w1 h fs)
  then show ?thesis using run_chunks_charged [OF ok(5)]
    by (simp add: completed_keys_def dom_map_of_conv_image_fst)
qed (use run_chunks_charged in \<open>auto simp: charged_def\<close>)

text \<open>C26: the canonical file. What \<open>write_canonical\<close> writes is every event once, one line of canonical JSON each, stably
  sorted by event time, source sequence and tie breaker, and the hash it returns and records in the manifest is the
  hash of these bytes.\<close>

theorem written_file_canonical:
  assumes "write_canonical out man job events hashes fs = Inr (h, fs')"
    and "out \<noteq> []" and "man \<noteq> []" and "out \<noteq> man" and "out \<noteq> tmp_path man"
  shows "\<exists>key body. (\<forall>e\<in>set events. event_sort_key e = Inr (key e)) \<and>
    body = concat (map (\<lambda>e. utf8 (dumps_raw (JObj e)) @ [10]) (sort_key key events)) \<and>
    fs' out = Some (Raw body) \<and> h = sha256_hex body \<and>
    (\<exists>text. fs' man = Some (JsonText text (sort_keys (manifest_json h hashes job (length events)))))"
proof -
  from write_canonical_Inr [OF assms(1-3)] obtain ordered body where
    o: "sort_events events = Inr ordered" "event_lines ordered = Inr body" "h = sha256_hex body"
    and fs': "fs' = fs(out \<mapsto> Raw body, tmp_path out := None, man \<mapsto> JsonText (dumps_indent (manifest_json h hashes job (length ordered)) @ [CHR 0x0A])
       (sort_keys (manifest_json h hashes job (length ordered))), tmp_path man := None)" by auto
  from o(1) obtain key where key: "\<And>e. e \<in> set events \<Longrightarrow> event_sort_key e = Inr (key e)" "ordered = sort_key key events"
    by (rule sort_events_Inr) blast
  have "fs' out = Some (Raw body)" "fs' man = Some (JsonText (dumps_indent (manifest_json h hashes job (length ordered)) @ [CHR 0x0A])
       (sort_keys (manifest_json h hashes job (length ordered))))" unfolding fs' using assms by simp_all
  with o key show ?thesis by (auto simp: event_lines_Inr simp del: no_float.simps)
qed

section \<open>Witnesses\<close>



theorem budget_never_exceeded_witness:
  "charged demo_budget (w_budget (snd (run_job demo_runner (demo_adapter True False) demo_request demo_out demo_man
     \<lparr>w_files = Map.empty, w_budget = demo_budget\<rparr>)))"
proof -
  obtain r w' where run: "run_job demo_runner (demo_adapter True False) demo_request demo_out demo_man
     \<lparr>w_files = Map.empty, w_budget = demo_budget\<rparr> = (r, w')" by fastforce
  from budget_never_exceeded [OF run] show ?thesis by (simp add: run)
qed

theorem written_file_canonical_witness:
  "\<exists>h fs' body. write_canonical demo_out demo_man ''j'' [[(''ts_event_ns'', JStr ''20'')], [(''ts_event_ns'', JStr ''10'')]] [] Map.empty = Inr (h, fs') \<and>
     fs' demo_out = Some (Raw body) \<and> h = sha256_hex body"
proof -
  let ?e = "\<lambda>t. [(''ts_event_ns'', JStr t)]"
  have "sort_events [?e ''20'', ?e ''10''] = Inr [?e ''10'', ?e ''20'']" by (simp add: sort_events_def demo_keys)
  moreover have "\<exists>body. event_lines [?e ''10'', ?e ''20''] = Inr body" by (simp add: event_lines_Inr)
  ultimately obtain h fs' where "write_canonical demo_out demo_man ''j'' [?e ''20'', ?e ''10''] [] Map.empty = Inr (h, fs')"
    using write_canonical_ok by blast
  from written_file_canonical [OF this] this show ?thesis by (auto simp: tmp_path_def)
qed

end
