(* ===== verification/Contracts.thy ===== *)
theory Contracts
  imports Strings
begin

text \<open>
  The contract runtime, \<^verbatim>\<open>packages/contracts/scripts/contract_runtime.py\<close>: wire integers, the shapes of the canonical
  commands and of the legacy order, and the walk over a document. The path a function carries for its error messages is
  left out.
\<close>

section \<open>Constants\<close>

definition JS_SAFE_MAX :: int where
  "JS_SAFE_MAX = 2 ^ 53 - 1"

definition WIRE_SIGNED_SUFFIXES :: "string list" where
  "WIRE_SIGNED_SUFFIXES = [''_atoms'', ''_minor'', ''_ppb'', ''_ns'']"

definition WIRE_UNSIGNED_NAMES :: "string list" where
  "WIRE_UNSIGNED_NAMES = [''arrival_seq'', ''event_seq'', ''source_sequence'', ''canonical_tie_breaker'',
     ''submitted_at_event_seq'', ''expected_session_version'', ''generation'', ''trade_count'', ''duplicates_removed'',
     ''timestamp_resolution_ns'']"

definition CANONICAL_COMMAND_TYPES :: "string list" where
  "CANONICAL_COMMAND_TYPES = [''SUBMIT_ORDER'', ''CANCEL_ORDER'', ''REPLACE_ORDER'', ''SET_LEVERAGE'']"

definition ORDER_TYPES :: "string list" where
  "ORDER_TYPES = [''MARKET'', ''LIMIT'', ''STOP_MARKET'', ''STOP_LIMIT'']"

definition TIME_IN_FORCE :: "string list" where
  "TIME_IN_FORCE = [''GTC'', ''IOC'', ''FOK'']"

definition PRICE_REFERENCES :: "string list" where
  "PRICE_REFERENCES = [''BID'', ''ASK'', ''MIDPOINT'']"

section \<open>Fields\<close>

definition wire_int :: "bool \<Rightarrow> json \<Rightarrow> int res" where
  "wire_int is_signed value =
     (case value of JStr v \<Rightarrow>
        bindR (require (v \<noteq> [] \<and> \<not> (startswith v ''+'' \<or> strip v \<noteq> v)) ContractError) (\<lambda>_.
        bindR (require (\<not> (v = ''-0'' \<or> (startswith v ''0'' \<and> v \<noteq> ''0'') \<or> startswith v ''-0'')) ContractError) (\<lambda>_.
        bindR (catchR (py_int v) is_ValueError ContractError) (\<lambda>parsed.
        let low = (if is_signed then I64_MIN else 0); high = (if is_signed then I64_MAX else U64_MAX) in
        bindR (require (low \<le> parsed \<and> parsed \<le> high) ContractError) (\<lambda>_. Inr parsed))))
      | _ \<Rightarrow> Inl ContractError)"

definition nonempty_text :: "json \<Rightarrow> string res" where
  "nonempty_text value = (case value of JStr v \<Rightarrow> if v = [] then Inl ContractError else Inr v | _ \<Rightarrow> Inl ContractError)"

definition boolean :: "json \<Rightarrow> bool res" where
  "boolean value = (case value of JBool b \<Rightarrow> Inr b | _ \<Rightarrow> Inl ContractError)"

definition exact_keys :: "string list \<Rightarrow> string list \<Rightarrow> fields \<Rightarrow> unit res" where
  "exact_keys required allowed value =
     bindR (require (list_all (jhas value) required) ContractError) (\<lambda>_.
     require (list_all (\<lambda>(k, v). k \<in> set allowed) value) ContractError)"

definition positive_wire :: "bool \<Rightarrow> json \<Rightarrow> int res" where
  "positive_wire is_signed value =
     bindR (wire_int is_signed value) (\<lambda>parsed. bindR (require (\<not> parsed \<le> 0) ContractError) (\<lambda>_. Inr parsed))"

text \<open>\<^verbatim>\<open>if field in value: check(value[field])\<close>\<close>

definition if_present :: "fields \<Rightarrow> string \<Rightarrow> (json \<Rightarrow> 'a res) \<Rightarrow> unit res" where
  "if_present value name check =
     (if jhas value name then bindR (check (jget value name)) (\<lambda>_. Inr ()) else Inr ())"

definition one_of :: "json \<Rightarrow> string list \<Rightarrow> unit res" where
  "one_of value names = bindR (in_set value names) (\<lambda>member. require member ContractError)"

section \<open>Orders and commands\<close>

definition legacy_required :: "string list" where
  "legacy_required = [''command_id'', ''session_id'', ''instrument_id'', ''side'', ''quantity_atoms'', ''order_type'',
     ''time_in_force'', ''reduce_only'', ''post_only'', ''marketable_only'', ''submitted_at_event_seq'', ''client_idempotency_key'']"

definition validate_legacy_order :: "fields \<Rightarrow> unit res" where
  "validate_legacy_order value =
     bindR (require (list_all (jhas value) legacy_required) ContractError) (\<lambda>_.
     bindR (require (\<not> (truthy (jget value ''post_only'') \<and> truthy (jget value ''marketable_only''))) ContractError) (\<lambda>_.
     let order_type = jget value ''order_type''; has = jhas value; post_only = truthy (jget value ''post_only'') in
     bindR (require (\<not> (order_type = JStr ''MARKET'' \<and>
       (post_only \<or> has ''limit_price_atoms'' \<or> has ''stop_price_atoms''))) ContractError) (\<lambda>_.
     bindR (require (\<not> (order_type = JStr ''LIMIT'' \<and>
       (\<not> has ''limit_price_atoms'' \<or> has ''stop_price_atoms''))) ContractError) (\<lambda>_.
     bindR (require (\<not> (order_type = JStr ''STOP_MARKET'' \<and>
       (\<not> has ''stop_price_atoms'' \<or> has ''limit_price_atoms'' \<or> post_only))) ContractError) (\<lambda>_.
     require (\<not> (order_type = JStr ''STOP_LIMIT'' \<and>
       \<not> (has ''stop_price_atoms'' \<and> has ''limit_price_atoms''))) ContractError)))))"

definition submit_required :: "string list" where
  "submit_required = [''command_type'', ''instrument_id'', ''side'', ''quantity_atoms'', ''order_type'', ''time_in_force'',
     ''reduce_only'', ''post_only'', ''marketable_only'']"

definition submit_optional :: "string list" where
  "submit_optional = [''limit_price_atoms'', ''stop_price_atoms'', ''price_reference'', ''quote_event_id'']"

definition submit_prices_fit :: "json \<Rightarrow> bool \<Rightarrow> fields \<Rightarrow> bool" where
  "submit_prices_fit order_type post_only value =
     (let has = jhas value in
      if order_type = JStr ''MARKET'' then
        \<not> (post_only \<or> has ''limit_price_atoms'' \<or> has ''stop_price_atoms'' \<or> has ''price_reference'' \<or> has ''quote_event_id'')
      else if order_type = JStr ''LIMIT'' then \<not> (\<not> has ''limit_price_atoms'' \<or> has ''stop_price_atoms'')
      else if order_type = JStr ''STOP_MARKET'' then
        \<not> (\<not> has ''stop_price_atoms'' \<or> has ''limit_price_atoms'' \<or> has ''price_reference'' \<or> has ''quote_event_id'' \<or> post_only)
      else has ''stop_price_atoms'' \<and> has ''limit_price_atoms'')"

definition validate_reference :: "fields \<Rightarrow> unit res" where
  "validate_reference value =
     (let has_reference = jhas value ''price_reference''; has_quote = jhas value ''quote_event_id'' in
      bindR (if has_reference then
          bindR (one_of (jget value ''price_reference'') PRICE_REFERENCES) (\<lambda>_.
          require (\<not> (\<not> has_quote \<or> \<not> jhas value ''limit_price_atoms'')) ContractError)
        else Inr ()) (\<lambda>_.
      if has_quote then
        bindR (nonempty_text (jget value ''quote_event_id'')) (\<lambda>_. require has_reference ContractError)
      else Inr ()))"

definition validate_submit :: "fields \<Rightarrow> unit res" where
  "validate_submit value =
     bindR (exact_keys submit_required (submit_required @ submit_optional) value) (\<lambda>_.
     bindR (nonempty_text (jget value ''instrument_id'')) (\<lambda>_.
     bindR (one_of (jget value ''side'') [''BUY'', ''SELL'']) (\<lambda>_.
     bindR (positive_wire False (jget value ''quantity_atoms'')) (\<lambda>_.
     bindR (one_of (jget value ''order_type'') ORDER_TYPES) (\<lambda>_.
     bindR (one_of (jget value ''time_in_force'') TIME_IN_FORCE) (\<lambda>_.
     bindR (boolean (jget value ''post_only'')) (\<lambda>post_only.
     bindR (boolean (jget value ''marketable_only'')) (\<lambda>marketable_only.
     bindR (boolean (jget value ''reduce_only'')) (\<lambda>_.
     bindR (require (\<not> (post_only \<and> marketable_only)) ContractError) (\<lambda>_.
     bindR (if_present value ''limit_price_atoms'' (positive_wire True)) (\<lambda>_.
     bindR (if_present value ''stop_price_atoms'' (positive_wire True)) (\<lambda>_.
     bindR (require (submit_prices_fit (jget value ''order_type'') post_only value) ContractError) (\<lambda>_.
     validate_reference value)))))))))))))"

definition validate_cancel :: "fields \<Rightarrow> unit res" where
  "validate_cancel value =
     bindR (exact_keys [''command_type'', ''order_id''] [''command_type'', ''order_id''] value) (\<lambda>_.
     bindR (nonempty_text (jget value ''order_id'')) (\<lambda>_. Inr ()))"

definition replace_mutations :: "string list" where
  "replace_mutations = [''quantity_atoms'', ''limit_price_atoms'', ''stop_price_atoms'', ''time_in_force'', ''reduce_only'',
     ''post_only'', ''marketable_only'']"

definition validate_replace :: "fields \<Rightarrow> unit res" where
  "validate_replace value =
     bindR (exact_keys [''command_type'', ''order_id''] ([''command_type'', ''order_id''] @ replace_mutations) value) (\<lambda>_.
     bindR (nonempty_text (jget value ''order_id'')) (\<lambda>_.
     bindR (require (list_ex (jhas value) replace_mutations) ContractError) (\<lambda>_.
     bindR (if_present value ''quantity_atoms'' (positive_wire False)) (\<lambda>_.
     bindR (if_present value ''limit_price_atoms'' (positive_wire True)) (\<lambda>_.
     bindR (if_present value ''stop_price_atoms'' (positive_wire True)) (\<lambda>_.
     bindR (if_present value ''time_in_force'' (\<lambda>v. one_of v TIME_IN_FORCE)) (\<lambda>_.
     bindR (if_present value ''reduce_only'' boolean) (\<lambda>_.
     bindR (if_present value ''post_only'' boolean) (\<lambda>_.
     bindR (if_present value ''marketable_only'' boolean) (\<lambda>_.
     require (\<not> (jget value ''post_only'' = JBool True \<and> jget value ''marketable_only'' = JBool True)) ContractError))))))))))"

definition validate_set_leverage :: "fields \<Rightarrow> unit res" where
  "validate_set_leverage value =
     bindR (exact_keys [''command_type'', ''leverage''] [''command_type'', ''leverage''] value) (\<lambda>_.
     case jget value ''leverage'' of JInt leverage \<Rightarrow> require (1 \<le> leverage \<and> leverage \<le> 50) ContractError
     | _ \<Rightarrow> Inl ContractError)"

definition validate_canonical_command :: "json \<Rightarrow> unit res" where
  "validate_canonical_command value =
     (case value of JObj fs \<Rightarrow>
        let command_type = jget fs ''command_type'' in
        if command_type = JStr ''SUBMIT_ORDER'' then validate_submit fs
        else if command_type = JStr ''CANCEL_ORDER'' then validate_cancel fs
        else if command_type = JStr ''REPLACE_ORDER'' then validate_replace fs
        else if command_type = JStr ''SET_LEVERAGE'' then validate_set_leverage fs
        else Inl ContractError
      | _ \<Rightarrow> Inl ContractError)"

section \<open>Documents\<close>

text \<open>Whether a key names a wire integer, and if so whether it is signed.\<close>

definition wire_kind :: "string \<Rightarrow> bool option" where
  "wire_kind key =
     (if key \<in> set WIRE_UNSIGNED_NAMES then Some False
      else if list_ex (endswith key) WIRE_SIGNED_SUFFIXES then
        Some (\<not> startswith key ''qty_'' \<and> \<not> endswith key ''volume_atoms'')
      else None)"

definition check_wire :: "string \<Rightarrow> json \<Rightarrow> unit res" where
  "check_wire key item = (case wire_kind key of None \<Rightarrow> Inr () | Some is_signed \<Rightarrow> bindR (wire_int is_signed item) (\<lambda>_. Inr ()))"

definition envelope_fields :: "string list" where
  "envelope_fields = [''schema_version'', ''command_id'', ''idempotency_key'', ''session_id'', ''principal_id'',
     ''accepted_at_ns'', ''logical_ts_ns'', ''arrival_seq'', ''expected_session_version'', ''payload'', ''payload_hash'']"

definition validate_commands :: "fields \<Rightarrow> unit res" where
  "validate_commands value =
     bindR (if jget value ''command_type'' = JStr ''ORDER'' then validate_legacy_order value
       else bindR (in_set (jget value ''command_type'') CANONICAL_COMMAND_TYPES) (\<lambda>canonical.
         if canonical then validate_canonical_command (JObj value) else Inr ())) (\<lambda>_.
     if list_all (jhas value) envelope_fields then validate_canonical_command (jget value ''payload'') else Inr ())"

fun validate_document :: "json \<Rightarrow> unit res"
  and validate_items :: "json list \<Rightarrow> unit res"
  and validate_fields :: "fields \<Rightarrow> unit res" where
  "validate_document (JFloat _) = Inl ContractError"
| "validate_document (JInt n) = require (\<not> \<bar>n\<bar> > JS_SAFE_MAX) ContractError"
| "validate_document (JList items) = validate_items items"
| "validate_document (JObj fields) =
     bindR (require (\<not> (jhas fields ''schema_version'' \<and> jget fields ''schema_version'' \<noteq> JStr ''1.0.0'')) ContractError) (\<lambda>_.
     bindR (validate_fields fields) (\<lambda>_. validate_commands fields))"
| "validate_document _ = Inr ()"
| "validate_items [] = Inr ()"
| "validate_items (item # items) = bindR (validate_document item) (\<lambda>_. validate_items items)"
| "validate_fields [] = Inr ()"
| "validate_fields ((key, item) # fields) =
     bindR (check_wire key item) (\<lambda>_. bindR (validate_document item) (\<lambda>_. validate_fields fields))"

definition contract_canonical_json :: "json \<Rightarrow> string res" where
  "contract_canonical_json value = bindR (validate_document value) (\<lambda>_. Inr (dumps_raw value))"

section \<open>The integers of the generated models\<close>

definition parse_int64 :: "string \<Rightarrow> int res" where
  "parse_int64 value = bindR (py_int value) (\<lambda>parsed.
     bindR (require (\<not> (parsed < - (2 ^ 63) \<or> parsed > 2 ^ 63 - 1)) ValueError) (\<lambda>_. Inr parsed))"

definition parse_uint64 :: "string \<Rightarrow> int res" where
  "parse_uint64 value = bindR (py_int value) (\<lambda>parsed.
     bindR (require (\<not> (parsed < 0 \<or> parsed > 2 ^ 64 - 1)) ValueError) (\<lambda>_. Inr parsed))"

definition to_wire_integer :: "int \<Rightarrow> string" where
  "to_wire_integer value = str_int value"

lemma wire_integer_roundtrip:
  "in_i64 n \<Longrightarrow> parse_int64 (to_wire_integer n) = Inr n" "in_u64 n \<Longrightarrow> parse_uint64 (to_wire_integer n) = Inr n"
  using py_int_str_i64 [of n] py_int_str_u64 [of n]
  by (auto simp: parse_int64_def parse_uint64_def to_wire_integer_def range_defs)

end
