(* ===== verification/Contract_Theorems.thy ===== *)
theory Contract_Theorems
  imports Contracts Market_Theorems
begin

text \<open>
  What a document that passes the contract runtime is known to be, at any depth, and how the commands the API prepares
  meet the contract.
\<close>

section \<open>Wire integers\<close>

definition no_group :: "string \<Rightarrow> string" where
  "no_group s = filter (\<lambda>c. c \<noteq> CHR ''_'') s"

definition in_wire :: "bool \<Rightarrow> int \<Rightarrow> bool" where
  "in_wire is_signed n \<longleftrightarrow> (if is_signed then in_i64 n else in_u64 n)"

lemma int_body_hd: "int_body s \<Longrightarrow> s \<noteq> [] \<and> ascii_digit (hd s)"
  by (cases s rule: int_body.cases) auto

lemma no_group_digits:
  assumes "int_body b" and "hd b \<noteq> CHR ''0'' \<or> b = ''0''"
  shows "canonical_digits (no_group b)" and "hd b \<noteq> CHR ''0'' \<Longrightarrow> no_group b \<noteq> ''0''"
proof -
  obtain c r where b: "b = c # r" "ascii_digit c" using int_body_hd [OF assms(1)] by (cases b) auto
  then have ng: "no_group b = c # no_group r" using ascii_not_special [OF b(2)] by (auto simp: no_group_def)
  have "list_all ascii_digit (no_group b)"
    using int_body_set [OF assms(1)] by (auto simp: no_group_def list_all_iff)
  with assms(2) b ng show "canonical_digits (no_group b)" by (auto simp: canonical_digits_def startswith_hd no_group_def)
  show "hd b \<noteq> CHR ''0'' \<Longrightarrow> no_group b \<noteq> ''0''" using b ng by auto
qed

lemma wire_int_sound:
  assumes "wire_int is_signed v = Inr n"
  shows "\<exists>s. v = JStr s \<and> no_group s = str_int n \<and> in_wire is_signed n"
proof -
  from assms obtain s where v: "v = JStr s" and s: "s \<noteq> []" "\<not> startswith s ''+''" "strip s = s"
      "\<not> (startswith s ''0'' \<and> s \<noteq> ''0'')" "\<not> startswith s ''-0''" and p: "py_int s = Inr n" and r: "in_wire is_signed n"
    by (auto simp: wire_int_def Let_def in_wire_def in_i64_def in_u64_def split: json.splits if_splits)
  have "no_group s = str_int n"
  proof (cases "startswith s ''-''")
    case True
    then obtain b where b: "s = CHR ''-'' # b" by (cases s) auto
    with p s(3) have i: "int_body b" "n = - int (dec_val (no_group b))"
      by (auto simp: py_int_def Let_def no_group_def split: if_splits)
    with s(5) int_body_hd [OF i(1)] have h: "hd b \<noteq> CHR ''0''" by (cases b) (auto simp: b startswith_def)
    with i no_group_digits [of b] have c: "canonical_digits (no_group b)" "no_group b \<noteq> ''0''" by auto
    then have "0 < dec_val (no_group b)" "dec (dec_val (no_group b)) = no_group b" using dec_val_zero dec_dec_val by blast+
    then show ?thesis by (simp add: b i(2) str_int_def no_group_def)
  next
    case False
    with p s(2,3) have i: "int_body s" "n = int (dec_val (no_group s))"
      by (auto simp: py_int_def Let_def no_group_def split: if_splits)
    have "hd s \<noteq> CHR ''0'' \<or> s = ''0''" using s(1,4) by (auto simp: startswith_hd)
    from no_group_digits(1) [OF i(1) this] dec_dec_val have "dec (dec_val (no_group s)) = no_group s" by blast
    then show ?thesis by (simp add: i(2) str_int_def)
  qed
  with v r show ?thesis by blast
qed

lemma str_int_checks:
  "str_int n \<noteq> []" "\<not> startswith (str_int n) ''+''" "strip (str_int n) = str_int n"
  "\<not> (startswith (str_int n) ''0'' \<and> str_int n \<noteq> ''0'')" "\<not> startswith (str_int n) ''-0''"
proof -
  have d: "list_all ascii_digit (dec m)" for m by (rule dec_ascii)
  have sp: "\<not> isspace_char c" if "ascii_digit c \<or> c = CHR ''-''" for c
    using that by (auto simp: isspace_char_def ascii_digit_def)
  show "strip (str_int n) = str_int n"
    using hd_last_digits [OF dec_not_Nil d] by (intro strip_id disjI2) (auto simp: str_int_def intro!: sp)
  show "\<not> (startswith (str_int n) ''0'' \<and> str_int n \<noteq> ''0'')"
    using dec_hd_zero [of "nat n"] by (auto simp: str_int_def startswith_hd)
  have minus: "startswith (CHR ''-'' # s) ''-0'' \<longleftrightarrow> startswith s ''0''" for s by (simp add: startswith_def)
  have "startswith s ''-0'' \<Longrightarrow> startswith s ''-''" for s by (cases s) (auto simp: startswith_def)
  then have "\<not> startswith (dec m) ''-0''" for m using startswith_dec(1) by blast
  then show "\<not> startswith (str_int n) ''-0''"
    using dec_hd_zero [of "nat (- n)"] by (cases "n < 0") (auto simp: str_int_def minus startswith_hd)
qed (auto simp: str_int_def startswith_hd hd_dec)

lemma wire_int_str: "wire_int is_signed (JStr (str_int n)) = (if in_wire is_signed n then Inr n else Inl ContractError)"
proof -
  have "in_wire is_signed n \<Longrightarrow> py_int (str_int n) = Inr n"
    using py_int_str_i64 py_int_str_u64 by (auto simp: in_wire_def split: if_splits)
  moreover have "py_int (str_int n) = Inr m \<Longrightarrow> m = n" for m
    using py_int_signed [OF signed_canonical_str] by (metis str_int_inject)
  moreover have "\<exists>m. py_int (str_int n) = Inr m \<or> py_int (str_int n) = Inl ValueError"
    by (auto simp: py_int_def Let_def)
  ultimately show ?thesis
    using str_int_checks [of n]
    by (auto simp: wire_int_def Let_def in_wire_def in_i64_def in_u64_def require_def startswith_def)
qed

text \<open>A digit group separator is accepted although the contract's integers have none.\<close>

lemma wire_int_group: "wire_int True (JStr ''1_000'') = Inr 1000"
  by code_simp

section \<open>Accepted documents\<close>

inductive part_of :: "json \<Rightarrow> json \<Rightarrow> bool" where
  whole: "part_of v v"
| item: "x \<in> set xs \<Longrightarrow> part_of p x \<Longrightarrow> part_of p (JList xs)"
| field: "(k, x) \<in> set fs \<Longrightarrow> part_of p x \<Longrightarrow> part_of p (JObj fs)"

lemma validate_items_iff: "validate_items xs = Inr () \<longleftrightarrow> (\<forall>x\<in>set xs. validate_document x = Inr ())"
  by (induction xs) auto

lemma validate_fields_iff:
  "validate_fields fs = Inr () \<longleftrightarrow> (\<forall>(k, x)\<in>set fs. check_wire k x = Inr () \<and> validate_document x = Inr ())"
  by (induction fs) auto

text \<open>Acceptance is inherited by every part of a document.\<close>

lemma accepted_part: "part_of p v \<Longrightarrow> validate_document v = Inr () \<Longrightarrow> validate_document p = Inr ()"
  by (induction rule: part_of.induct) (auto simp: validate_items_iff validate_fields_iff)

lemma check_wire_Inr: "check_wire k x = Inr () \<Longrightarrow> wire_kind k = Some is_signed \<Longrightarrow>
    \<exists>s n. x = JStr s \<and> no_group s = str_int n \<and> in_wire is_signed n"
  by (auto simp: check_wire_def dest!: wire_int_sound)

lemma one_of_Inr: "one_of v names = Inr () \<longleftrightarrow> (\<exists>s. v = JStr s \<and> s \<in> set names)"
  by (cases v) (auto simp: one_of_def in_set_def image_iff)

lemma nonempty_text_Inr: "nonempty_text v = Inr s \<longleftrightarrow> v = JStr s \<and> s \<noteq> []"
  by (cases v) (auto simp: nonempty_text_def)

lemma boolean_Inr: "boolean v = Inr b \<longleftrightarrow> v = JBool b"
  by (cases v) (auto simp: boolean_def)

lemma positive_wire_sound:
  "positive_wire is_signed v = Inr n \<Longrightarrow> \<exists>s. v = JStr s \<and> no_group s = str_int n \<and> 0 < n \<and> in_wire is_signed n"
  by (auto simp: positive_wire_def dest!: wire_int_sound)

lemma if_present_Inr: "if_present fs k check = Inr () \<longleftrightarrow> (jhas fs k \<longrightarrow> (\<exists>r. check (jget fs k) = Inr r))"
  by (auto simp: if_present_def)

lemmas contract_inverts = one_of_Inr nonempty_text_Inr boolean_Inr if_present_Inr

text \<open>What a submitted order that passes the contract is known to be.\<close>

definition submit_typed :: "fields \<Rightarrow> bool" where
  "submit_typed fs \<longleftrightarrow> (\<exists>side ot po mo. jget fs ''side'' = JStr side \<and> side \<in> {''BUY'', ''SELL''} \<and>
    jget fs ''order_type'' = JStr ot \<and> ot \<in> set ORDER_TYPES \<and>
    jget fs ''post_only'' = JBool po \<and> jget fs ''marketable_only'' = JBool mo \<and> \<not> (po \<and> mo) \<and>
    (\<exists>s n. jget fs ''quantity_atoms'' = JStr s \<and> no_group s = str_int n \<and> 0 < n) \<and>
    (jhas fs ''limit_price_atoms'' \<longleftrightarrow> ot \<in> {''LIMIT'', ''STOP_LIMIT''}) \<and>
    (jhas fs ''stop_price_atoms'' \<longleftrightarrow> ot \<in> {''STOP_MARKET'', ''STOP_LIMIT''}) \<and>
    (\<forall>k\<in>{''limit_price_atoms'', ''stop_price_atoms''}. jhas fs k \<longrightarrow>
       (\<exists>s n. jget fs k = JStr s \<and> no_group s = str_int n \<and> 0 < n \<and> in_i64 n)) \<and>
    (jhas fs ''price_reference'' \<longleftrightarrow> jhas fs ''quote_event_id'') \<and>
    (po \<longrightarrow> ot \<in> {''LIMIT'', ''STOP_LIMIT''}))"

lemma validate_submit_Inr:
  assumes "validate_submit fs = Inr ()"
  shows "submit_typed fs"
proof -
  from assms obtain q po mo where
    s: "one_of (jget fs ''side'') [''BUY'', ''SELL''] = Inr ()" "positive_wire False (jget fs ''quantity_atoms'') = Inr q"
      "one_of (jget fs ''order_type'') ORDER_TYPES = Inr ()" "jget fs ''post_only'' = JBool po"
      "jget fs ''marketable_only'' = JBool mo" "\<not> (po \<and> mo)"
    and pl: "if_present fs ''limit_price_atoms'' (positive_wire True) = Inr ()"
      "if_present fs ''stop_price_atoms'' (positive_wire True) = Inr ()"
    and fit: "submit_prices_fit (jget fs ''order_type'') po fs" and ref: "validate_reference fs = Inr ()"
    unfolding validate_submit_def bindR_eq_Inr require_simps(3) boolean_Inr by (elim exE conjE) (rule that, (assumption | simp)+)
  from s(1,3) obtain side ot where o: "jget fs ''side'' = JStr side" "side \<in> {''BUY'', ''SELL''}"
    "jget fs ''order_type'' = JStr ot" "ot \<in> set ORDER_TYPES" by (auto simp: one_of_Inr)
  have r: "jhas fs ''price_reference'' \<longleftrightarrow> jhas fs ''quote_event_id''"
    using ref by (auto simp: validate_reference_def Let_def split: if_splits)
  from o(4) consider "ot = ''MARKET''" | "ot = ''LIMIT''" | "ot = ''STOP_MARKET''" | "ot = ''STOP_LIMIT''"
    by (auto simp: ORDER_TYPES_def)
  then have prices: "(jhas fs ''limit_price_atoms'' \<longleftrightarrow> ot \<in> {''LIMIT'', ''STOP_LIMIT''}) \<and>
      (jhas fs ''stop_price_atoms'' \<longleftrightarrow> ot \<in> {''STOP_MARKET'', ''STOP_LIMIT''}) \<and> (po \<longrightarrow> ot \<in> {''LIMIT'', ''STOP_LIMIT''})"
    by cases (use fit o(3) in \<open>simp_all add: submit_prices_fit_def Let_def\<close>)
  have amounts: "\<forall>k\<in>{''limit_price_atoms'', ''stop_price_atoms''}. jhas fs k \<longrightarrow>
       (\<exists>s n. jget fs k = JStr s \<and> no_group s = str_int n \<and> 0 < n \<and> in_i64 n)"
    using pl positive_wire_sound [of True] by (fastforce simp: if_present_Inr in_wire_def)
  have quantity: "\<exists>s n. jget fs ''quantity_atoms'' = JStr s \<and> no_group s = str_int n \<and> 0 < n"
    using positive_wire_sound [OF s(2)] by blast
  note p = prices [THEN conjunct1] prices [THEN conjunct2, THEN conjunct1] prices [THEN conjunct2, THEN conjunct2]
  show ?thesis unfolding submit_typed_def
    by (rule exI [of _ side], rule exI [of _ ot], rule exI [of _ po], rule exI [of _ mo], intro conjI)
      (rule o s quantity amounts r p)+
qed

lemma accepted_submit:
  "validate_document (JObj fs) = Inr () \<Longrightarrow> jget fs ''command_type'' = JStr ''SUBMIT_ORDER'' \<Longrightarrow> submit_typed fs"
  by (auto simp: validate_commands_def in_set_def CANONICAL_COMMAND_TYPES_def validate_canonical_command_def intro: validate_submit_Inr)

section \<open>Prepared orders\<close>

definition base_payload :: "string \<Rightarrow> string \<Rightarrow> string \<Rightarrow> string \<Rightarrow> string \<Rightarrow> bool \<Rightarrow> bool \<Rightarrow> bool \<Rightarrow> fields" where
  "base_payload ins side quantity ot tif ro po mo =
     [(''command_type'', JStr ''SUBMIT_ORDER''), (''instrument_id'', JStr ins),
      (''side'', JStr side), (''quantity_atoms'', JStr quantity), (''order_type'', JStr ot),
      (''time_in_force'', JStr tif), (''reduce_only'', JBool ro), (''post_only'', JBool po), (''marketable_only'', JBool mo)]"

definition limit_part :: "string \<Rightarrow> fields \<Rightarrow> bool" where
  "limit_part ot part \<longleftrightarrow> (if ot \<in> set limit_bearing then \<exists>l rest. part = (''limit_price_atoms'', JStr (str_int l)) # rest \<and>
     0 < l \<and> in_i64 l \<and> (rest = [] \<or> (\<exists>ref event_id. ref \<in> set PRICE_REFERENCES \<and> event_id \<noteq> [] \<and>
       rest = [(''price_reference'', JStr ref), (''quote_event_id'', JStr event_id)])) else part = [])"

definition stop_part :: "string \<Rightarrow> fields \<Rightarrow> bool" where
  "stop_part ot part \<longleftrightarrow> (if ot \<in> set stop_bearing then \<exists>l. part = [(''stop_price_atoms'', JStr (str_int l))] \<and> 0 < l \<and> in_i64 l
     else part = [])"

lemma update_new: "k \<notin> fst ` set xs \<Longrightarrow> AList.update k v xs = xs @ [(k, v)]"
  by (induction xs) auto

context quote_provider
begin

lemma resolved_parts:
  assumes "resolve_prices current_quote i p side ot rq pl = Inr pl'"
    and new: "fst ` set pl \<inter> {''limit_price_atoms'', ''price_reference'', ''quote_event_id'', ''stop_price_atoms''} = {}"
  shows "\<exists>limit stop. pl' = pl @ limit @ stop \<and> limit_part ot limit \<and> stop_part ot stop"
proof -
  let ?ref = "jget rq ''price_reference''" and ?raw = "jget rq ''limit_price_atoms''"
  obtain m where X: "(if ?ref \<noteq> JNull then
           bindR (require (ot \<in> set limit_bearing) invalid_command) (\<lambda>_.
           bindR (resolve_reference current_quote i p side ?ref) (\<lambda>(resolved, event_id, reference_name).
           Inr (AList.update ''quote_event_id'' (JStr event_id)
             (AList.update ''price_reference'' (JStr reference_name)
             (AList.update ''limit_price_atoms'' (JStr (str_int resolved)) pl)))))
         else if ot \<in> set limit_bearing then
           bindR (canonical_i64_text ?raw True) (\<lambda>text. Inr (AList.update ''limit_price_atoms'' (JStr text) pl))
         else if ?raw \<noteq> JNull then Inl invalid_command else Inr pl) = Inr m"
    and S: "(if ot \<in> set stop_bearing then
        bindR (canonical_i64_text (jget rq ''stop_price_atoms'') True) (\<lambda>text.
        Inr (AList.update ''stop_price_atoms'' (JStr text) m))
      else if jget rq ''stop_price_atoms'' \<noteq> JNull then Inl invalid_command else Inr m) = Inr pl'"
    using assms(1) unfolding resolve_prices_def Let_def bindR_eq_Inr by blast
  have "\<exists>limit. m = pl @ limit \<and> limit_part ot limit"
  proof -
    consider (ref) price event_id name where "ot \<in> set limit_bearing"
        "resolve_reference current_quote i p side ?ref = Inr (price, event_id, name)"
        "m = AList.update ''quote_event_id'' (JStr event_id) (AList.update ''price_reference'' (JStr name)
             (AList.update ''limit_price_atoms'' (JStr (str_int price)) pl))"
      | (raw) n where "ot \<in> set limit_bearing" "m = AList.update ''limit_price_atoms'' (JStr (str_int n)) pl" "0 < n" "in_i64 n"
      | (none) "ot \<notin> set limit_bearing" "m = pl"
      using X by (auto simp: canonical_i64_text_iff split: if_splits)
    then show ?thesis
    proof cases
      case ref
      obtain q r where q: "current_quote i p = Inr (Some q)" "event_id = q_event_id q" "name = PriceReference_value r"
        using resolved_reference [OF ref(2)] by metis
      have "event_id \<noteq> []" using quote_ok [OF q(1)] by (auto simp: q(2) VisibleQuote_post_init_def)
      moreover have "name \<in> set PRICE_REFERENCES" by (cases r) (simp_all add: q(3) PRICE_REFERENCES_def)
      moreover have "m = pl @ [(''limit_price_atoms'', JStr (str_int price)), (''price_reference'', JStr name), (''quote_event_id'', JStr event_id)]"
        using new unfolding ref(3) by (subst update_new; (subst update_new)?; (subst update_new)?) auto
      ultimately show ?thesis using resolved_price_bounds [OF ref(2)] ref(1) by (auto simp: limit_part_def)
    next
      case raw
      moreover from new have "AList.update ''limit_price_atoms'' (JStr (str_int n)) pl = pl @ [(''limit_price_atoms'', JStr (str_int n))]"
        by (intro update_new) auto
      ultimately show ?thesis by (auto simp: limit_part_def)
    qed (simp add: limit_part_def)
  qed
  then obtain limit where m: "m = pl @ limit" "limit_part ot limit" by blast
  then have "''stop_price_atoms'' \<notin> fst ` set m" using new by (auto simp: limit_part_def split: if_splits)
  with S have "\<exists>stop. pl' = m @ stop \<and> stop_part ot stop"
    by (auto simp: canonical_i64_text_iff stop_part_def update_new split: if_splits)
  with m show ?thesis by auto
qed

lemma prepared_shape:
  assumes "prepare_order current_quote i p request = Inr pc"
  obtains ins side n ot tif ro po mo limit stop where
    "pc_payload pc = base_payload ins side (str_int n) ot tif ro po mo @ limit @ stop"
    "limit_part ot limit" "stop_part ot stop" "ins \<noteq> []" "side \<in> {''BUY'', ''SELL''}" "0 < n" "in_u64 n"
    "ot \<in> set ORDER_TYPES" "tif \<in> set TIME_IN_FORCE" "po \<longrightarrow> ot \<in> set limit_bearing"
proof -
  obtain ins side quantity ot tif ro po mo payload where
    i: "require_string request ''instrument_id'' = Inr ins"
    and e: "enum_string request ''side'' [''BUY'', ''SELL''] = Inr side"
      "canonical_u64_text (jget request ''quantity_atoms'') True = Inr quantity"
      "enum_string request ''order_type'' [''MARKET'', ''LIMIT'', ''STOP_MARKET'', ''STOP_LIMIT''] = Inr ot"
      "enum_string request ''time_in_force'' [''GTC'', ''IOC'', ''FOK''] = Inr tif"
    and po: "\<not> (po \<and> ot \<notin> set limit_bearing)"
    and r0: "resolve_prices current_quote i p side ot request
      [(''command_type'', JStr ''SUBMIT_ORDER''), (''instrument_id'', JStr ins),
        (''side'', JStr side), (''quantity_atoms'', JStr quantity), (''order_type'', JStr ot),
        (''time_in_force'', JStr tif), (''reduce_only'', JBool ro),
        (''post_only'', JBool po), (''marketable_only'', JBool mo)] = Inr payload"
    and pc: "pc_payload pc = payload"
    using assms unfolding prepare_order_def bindR_eq_Inr require_simps(3) by (elim exE conjE) (rule that, (assumption | auto)+)
  note r = r0 [folded base_payload_def]
  have enum: "x \<in> set xs" if "enum_string request k xs = Inr x" for x k xs
    using that by (auto simp: enum_string_def split: json.splits if_splits)
  from e(2) obtain n where n: "quantity = str_int n" "0 < n" "in_u64 n" by (auto simp: canonical_u64_text_iff)
  have "ins \<noteq> []" using i by (auto simp: require_string_def split: json.splits)
  moreover obtain limit stop where "payload = base_payload ins side quantity ot tif ro po mo @ limit @ stop"
    "limit_part ot limit" "stop_part ot stop" using resolved_parts [OF r] by (auto simp: base_payload_def)
  ultimately show thesis
    using that n pc po enum [OF e(1)] enum [OF e(3)] enum [OF e(4)] by (simp add: ORDER_TYPES_def TIME_IN_FORCE_def)
qed

end

section \<open>Prepared orders meet the contract\<close>

lemma wire_kinds:
  "wire_kind ''command_type'' = None" "wire_kind ''instrument_id'' = None" "wire_kind ''side'' = None"
  "wire_kind ''quantity_atoms'' = Some True" "wire_kind ''order_type'' = None" "wire_kind ''time_in_force'' = None"
  "wire_kind ''reduce_only'' = None" "wire_kind ''post_only'' = None" "wire_kind ''marketable_only'' = None"
  "wire_kind ''limit_price_atoms'' = Some True" "wire_kind ''stop_price_atoms'' = Some True"
  "wire_kind ''price_reference'' = None" "wire_kind ''quote_event_id'' = None"
  by code_simp+

lemma validate_fields_append: "validate_fields (xs @ ys) = bindR (validate_fields xs) (\<lambda>_. validate_fields ys)"
proof (induction xs)
  case (Cons x xs)
  obtain k v where "x = (k, v)" by fastforce
  then show ?case by (cases "check_wire k v"; cases "validate_document v") (simp_all add: Cons)
qed simp

lemma validate_base:
  "validate_fields (base_payload ins side (str_int n) ot tif ro po mo) = (if in_i64 n then Inr () else Inl ContractError)"
  by (simp add: base_payload_def check_wire_def wire_kinds wire_int_str in_wire_def)

lemma validate_parts: "limit_part ot limit \<Longrightarrow> validate_fields limit = Inr ()" "stop_part ot stop \<Longrightarrow> validate_fields stop = Inr ()"
  by (auto simp: limit_part_def stop_part_def check_wire_def wire_kinds wire_int_str in_wire_def split: if_splits)

lemma one_of_str [simp]: "one_of (JStr s) names = (if s \<in> set names then Inr () else Inl ContractError)"
  by (auto simp: one_of_def in_set_def require_def)

lemma contract_fields [simp]:
  "nonempty_text (JStr s) = (if s = [] then Inl ContractError else Inr s)" "boolean (JBool b) = Inr b"
  by (simp_all add: nonempty_text_def boolean_def)

lemma positive_wire_str: "0 < n \<Longrightarrow> positive_wire is_signed (JStr (str_int n)) = (if in_wire is_signed n then Inr n else Inl ContractError)"
  by (simp add: positive_wire_def wire_int_str)

lemma jhas_simps [simp]: "jhas (xs @ ys) k \<longleftrightarrow> jhas xs k \<or> jhas ys k" "jhas ((k', v) # xs) k \<longleftrightarrow> k = k' \<or> jhas xs k" "\<not> jhas [] k"
  by (auto simp: jhas_def)

text \<open>The six shapes of the price fields.\<close>

definition limit_fields :: "int \<Rightarrow> (string \<times> string) option \<Rightarrow> fields" where
  "limit_fields l reference = (''limit_price_atoms'', JStr (str_int l)) #
     (case reference of None \<Rightarrow> [] | Some (ref, eid) \<Rightarrow> [(''price_reference'', JStr ref), (''quote_event_id'', JStr eid)])"

definition reference_ok :: "(string \<times> string) option \<Rightarrow> bool" where
  "reference_ok reference \<longleftrightarrow> (case reference of None \<Rightarrow> True | Some (ref, eid) \<Rightarrow> ref \<in> set PRICE_REFERENCES \<and> eid \<noteq> [])"

lemma limit_part_bearing:
  assumes "limit_part ot limit" and "ot \<in> set limit_bearing"
  obtains l reference where "limit = limit_fields l reference" "0 < l" "in_i64 l" "reference_ok reference"
proof -
  from assms obtain l rest where l: "limit = (''limit_price_atoms'', JStr (str_int l)) # rest" "0 < l" "in_i64 l"
    and "rest = [] \<or> (\<exists>ref eid. ref \<in> set PRICE_REFERENCES \<and> eid \<noteq> [] \<and>
       rest = [(''price_reference'', JStr ref), (''quote_event_id'', JStr eid)])" by (auto simp: limit_part_def)
  then consider "rest = []" | ref eid where "ref \<in> set PRICE_REFERENCES" "eid \<noteq> []"
      "rest = [(''price_reference'', JStr ref), (''quote_event_id'', JStr eid)]" by blast
  then show thesis
  proof cases
    case 1
    with l show thesis by (intro that [of l None]) (simp_all add: limit_fields_def reference_ok_def)
  next
    case (2 ref eid)
    with l show thesis by (intro that [of l "Some (ref, eid)"]) (simp_all add: limit_fields_def reference_ok_def)
  qed
qed

lemma order_shapes:
  assumes "ot \<in> set ORDER_TYPES" and "limit_part ot limit" and "stop_part ot stop"
  obtains (market) "ot = ''MARKET''" "limit = []" "stop = []"
    | (limit) l reference where "ot = ''LIMIT''" "limit = limit_fields l reference" "0 < l" "in_i64 l" "reference_ok reference" "stop = []"
    | (stop) s where "ot = ''STOP_MARKET''" "limit = []" "stop = [(''stop_price_atoms'', JStr (str_int s))]" "0 < s" "in_i64 s"
    | (both) l reference s where "ot = ''STOP_LIMIT''" "limit = limit_fields l reference" "0 < l" "in_i64 l" "reference_ok reference"
        "stop = [(''stop_price_atoms'', JStr (str_int s))]" "0 < s" "in_i64 s"
proof -
  from assms(1) consider "ot = ''MARKET''" | "ot = ''LIMIT''" | "ot = ''STOP_MARKET''" | "ot = ''STOP_LIMIT''"
    by (auto simp: ORDER_TYPES_def)
  then show thesis
  proof cases
    case 1
    with assms market show thesis by (simp add: limit_part_def stop_part_def limit_bearing_def stop_bearing_def)
  next
    case 2
    then have "ot \<in> set limit_bearing" by (simp add: limit_bearing_def)
    from limit_part_bearing [OF assms(2) this] obtain l reference where
      "limit = limit_fields l reference" "0 < l" "in_i64 l" "reference_ok reference" .
    with limit 2 assms(3) show thesis by (simp add: stop_part_def stop_bearing_def)
  next
    case 3
    with assms stop show thesis by (auto simp: limit_part_def stop_part_def limit_bearing_def stop_bearing_def)
  next
    case 4
    then have "ot \<in> set limit_bearing" by (simp add: limit_bearing_def)
    from limit_part_bearing [OF assms(2) this] obtain l reference where
      "limit = limit_fields l reference" "0 < l" "in_i64 l" "reference_ok reference" .
    with both 4 assms(3) show thesis by (auto simp: stop_part_def stop_bearing_def)
  qed
qed

lemmas shape_defs = exact_keys_def submit_required_def submit_optional_def base_payload_def limit_fields_def reference_ok_def
  if_present_def submit_prices_fit_def validate_reference_def Let_def positive_wire_str in_wire_def ORDER_TYPES_def limit_bearing_def

lemma submitted_order_valid:
  assumes "ins \<noteq> []" and "side \<in> {''BUY'', ''SELL''}" and "0 < n" and "in_u64 n" and ot: "ot \<in> set ORDER_TYPES"
    and "tif \<in> set TIME_IN_FORCE" and "po \<longrightarrow> ot \<in> set limit_bearing" and lp: "limit_part ot limit" and sp: "stop_part ot stop"
  shows "validate_submit (base_payload ins side (str_int n) ot tif ro po mo @ limit @ stop) =
    (if po \<and> mo then Inl ContractError else Inr ())"
proof -
  have side: "side = ''BUY'' \<or> side = ''SELL''" using assms(2) by simp
  note simps = shape_defs validate_submit_def side assms(1,3,4,6)
  from ot lp sp show ?thesis
  proof (cases rule: order_shapes)
    case market
    with assms(7) show ?thesis by (simp add: simps)
  next
    case (limit l reference)
    then show ?thesis by (cases reference) (simp_all add: simps split_beta)
  next
    case (stop s)
    with assms(7) show ?thesis by (simp add: simps)
  next
    case (both l reference s)
    then show ?thesis by (cases reference) (simp_all add: simps split_beta)
  qed
qed

lemma prepared_document:
  assumes "ins \<noteq> []" and "side \<in> {''BUY'', ''SELL''}" and "0 < n" and "in_u64 n" and ot: "ot \<in> set ORDER_TYPES"
    and "tif \<in> set TIME_IN_FORCE" and "po \<longrightarrow> ot \<in> set limit_bearing" and lp: "limit_part ot limit" and sp: "stop_part ot stop"
  shows "validate_document (JObj (base_payload ins side (str_int n) ot tif ro po mo @ limit @ stop)) =
    (if in_i64 n \<and> \<not> (po \<and> mo) then Inr () else Inl ContractError)"
proof -
  let ?pl = "base_payload ins side (str_int n) ot tif ro po mo @ limit @ stop"
  have "\<not> jhas ?pl ''schema_version''" using lp sp by (auto simp: base_payload_def limit_part_def stop_part_def split: if_splits)
  moreover have "jget ?pl ''command_type'' = JStr ''SUBMIT_ORDER''" by (simp add: base_payload_def)
  moreover have "validate_fields ?pl = (if in_i64 n then Inr () else Inl ContractError)"
    by (simp add: validate_fields_append validate_base validate_parts(1) [OF lp] validate_parts(2) [OF sp])
  moreover have "validate_submit ?pl = (if po \<and> mo then Inl ContractError else Inr ())" by (rule submitted_order_valid [OF assms])
  ultimately show ?thesis
    by (simp add: validate_commands_def in_set_def CANONICAL_COMMAND_TYPES_def validate_canonical_command_def envelope_fields_def Let_def)
qed

section \<open>Properties\<close>

text \<open>C35: what the contract runtime accepts. Every part of an accepted document, at any depth, is no float and no integer
  beyond the range JavaScript represents exactly; every field whose name makes it a wire integer is a decimal text in its
  64-bit range, canonical up to digit group separators; an object with a schema version has version 1.0.0; and a submitted
  order is typed: its price fields are exactly those of its order type and post-only excludes marketable-only.\<close>

theorem accepted_document_typed:
  assumes "validate_document v = Inr ()" and "part_of p v"
  shows "(\<forall>r. p \<noteq> JFloat r) \<and> (\<forall>n. p = JInt n \<longrightarrow> \<bar>n\<bar> \<le> 2 ^ 53 - 1) \<and>
    (\<forall>fs. p = JObj fs \<longrightarrow>
       (\<forall>(k, x)\<in>set fs. \<forall>is_signed. wire_kind k = Some is_signed \<longrightarrow>
          (\<exists>s n. x = JStr s \<and> no_group s = str_int n \<and> in_wire is_signed n)) \<and>
       (jhas fs ''schema_version'' \<longrightarrow> jget fs ''schema_version'' = JStr ''1.0.0'') \<and>
       (jget fs ''command_type'' = JStr ''SUBMIT_ORDER'' \<longrightarrow> submit_typed fs))"
proof -
  note part = accepted_part [OF assms(2,1)]
  have "(\<forall>(k, x)\<in>set fs. \<forall>is_signed. wire_kind k = Some is_signed \<longrightarrow>
          (\<exists>s n. x = JStr s \<and> no_group s = str_int n \<and> in_wire is_signed n)) \<and>
       (jhas fs ''schema_version'' \<longrightarrow> jget fs ''schema_version'' = JStr ''1.0.0'') \<and>
       (jget fs ''command_type'' = JStr ''SUBMIT_ORDER'' \<longrightarrow> submit_typed fs)" if p: "p = JObj fs" for fs
  proof (intro conjI)
    show "\<forall>(k, x)\<in>set fs. \<forall>is_signed. wire_kind k = Some is_signed \<longrightarrow>
          (\<exists>s n. x = JStr s \<and> no_group s = str_int n \<and> in_wire is_signed n)"
      using part check_wire_Inr by (fastforce simp: p validate_fields_iff)
  qed (use part accepted_submit in \<open>auto simp: p\<close>)
  moreover have "p \<noteq> JFloat r" "p = JInt n \<Longrightarrow> \<bar>n\<bar> \<le> 2 ^ 53 - 1" for r n using part by (auto simp: JS_SAFE_MAX_def)
  ultimately show ?thesis by blast
qed


section \<open>Witnesses\<close>

theorem accepted_document_typed_witness:
  "\<bar>7 :: int\<bar> \<le> 2 ^ 53 - 1 \<and> validate_document (JObj [(''ts_event_ns'', JStr ''5''), (''levels'', JList [JInt 7])]) = Inr ()"
proof -
  have ok: "validate_document (JObj [(''ts_event_ns'', JStr ''5''), (''levels'', JList [JInt 7])]) = Inr ()" by code_simp
  moreover have "part_of (JInt 7) (JObj [(''ts_event_ns'', JStr ''5''), (''levels'', JList [JInt 7])])"
    by (rule part_of.field [of "''levels''" "JList [JInt 7]"], simp, rule part_of.item [of "JInt 7"], simp, rule part_of.whole)
  ultimately show ?thesis using accepted_document_typed by blast
qed


end
