(* ===== verification/Calendars.thy ===== *)
theory Calendars
  imports Text
begin

text \<open>
  Interval boundaries, \<^verbatim>\<open>calendars/\<close>. A \<^verbatim>\<open>date\<close> is its proleptic Gregorian ordinal, a \<^verbatim>\<open>time\<close> of day and
  a \<^verbatim>\<open>datetime\<close> are counts of microseconds, a UTC or local \<^verbatim>\<open>datetime\<close> counted from the first of January 1970.
  The time zone database is a parameter, \<open>zones\<close>: what \<^verbatim>\<open>ZoneInfo\<close> makes of a key, how a zone reads a UTC time and
  the offset it applies to a wall time.
\<close>

section \<open>Dates\<close>

definition MINYEAR :: int where "MINYEAR = 1"
definition MAXYEAR :: int where "MAXYEAR = 9999"
definition MAXORDINAL :: int where "MAXORDINAL = 3652059"
definition EPOCH_ORDINAL :: int where "EPOCH_ORDINAL = 719163"

definition is_leap :: "int \<Rightarrow> bool" where
  "is_leap year \<longleftrightarrow> year mod 4 = 0 \<and> (year mod 100 \<noteq> 0 \<or> year mod 400 = 0)"

definition days_before_year :: "int \<Rightarrow> int" where
  "days_before_year year = (let y = year - 1 in y * 365 + y div 4 - y div 100 + y div 400)"

fun days_in_month :: "int \<Rightarrow> nat \<Rightarrow> int" where
  "days_in_month year month =
     (if month = 2 then (if is_leap year then 29 else 28) else if month \<in> {4, 6, 9, 11} then 30 else 31)"

definition days_before_month :: "int \<Rightarrow> nat \<Rightarrow> int" where
  "days_before_month year month = sum_list (map (days_in_month year) [1..<month])"

definition ymd2ord :: "int \<Rightarrow> nat \<Rightarrow> int \<Rightarrow> int" where
  "ymd2ord year month day = days_before_year year + days_before_month year month + day"

lemma div_step:
  fixes y d :: int
  assumes "0 < d"
  shows "y div d = (y - 1) div d + (if y mod d = 0 then 1 else 0)"
proof (cases "y mod d = 0")
  case True
  then obtain q where "y = d * q" by (auto simp: mod_eq_0_iff_dvd)
  moreover have "(d * q - 1) div d = q - 1" by (rule int_div_pos_eq [where r = "d - 1"]) (use assms in \<open>auto simp: algebra_simps\<close>)
  ultimately show ?thesis using assms True by simp
next
  case False
  have "0 \<le> y mod d" "y mod d < d" using assms by simp_all
  with False have "(y - 1) div d = y div d"
    by (intro int_div_pos_eq [where r = "y mod d - 1"]) (auto simp: algebra_simps)
  with False show ?thesis by simp
qed

lemma days_before_year_step: "days_before_year (y + 1) = days_before_year y + (if is_leap y then 366 else 365)"
proof -
  have m: "y mod 400 = 0 \<Longrightarrow> y mod 100 = 0" "y mod 100 = 0 \<Longrightarrow> y mod 4 = 0"
    unfolding mod_eq_0_iff_dvd by (erule dvd_trans [rotated], simp)+
  have e: "y div 4 = (y - 1) div 4 + (if y mod 4 = 0 then 1 else 0)" "y div 100 = (y - 1) div 100 + (if y mod 100 = 0 then 1 else 0)"
    "y div 400 = (y - 1) div 400 + (if y mod 400 = 0 then 1 else 0)" by (rule div_step; simp)+
  have "(if y mod 4 = 0 then 1 else 0) - (if y mod 100 = 0 then 1 else 0) + (if y mod 400 = 0 then 1 else 0) =
      (if is_leap y then 1 else (0 :: int))"
    unfolding is_leap_def using m by presburger
  moreover have "p - q + r = (if L then 1 else 0) \<Longrightarrow>
      y * 365 + (a + p) - (b + q) + (c + r) = (y - 1) * 365 + a - b + c + (if L then 366 else 365)" for a b c p q r :: int and L
    by (cases L) simp_all
  ultimately show ?thesis unfolding days_before_year_def Let_def add_diff_cancel_right' e by blast
qed

function year_from :: "int \<Rightarrow> int \<Rightarrow> int" where
  "year_from year ordinal = (if ordinal \<le> days_before_year (year + 1) then year else year_from (year + 1) ordinal)"
  by pat_completeness auto
termination
  by (relation "measure (\<lambda>(y, n). nat (n - days_before_year y))")
    (auto simp: days_before_year_step split: if_splits)

definition date_year :: "int \<Rightarrow> int" where
  "date_year ordinal = year_from (ordinal div 366 + 1) ordinal"

fun month_from :: "int \<Rightarrow> nat list \<Rightarrow> int \<Rightarrow> nat" where
  "month_from year [] day = 12"
| "month_from year (month # months) day =
     (if day \<le> days_in_month year month then month else month_from year months (day - days_in_month year month))"

definition date_month :: "int \<Rightarrow> nat" where
  "date_month ordinal = month_from (date_year ordinal) [1..<13] (ordinal - days_before_year (date_year ordinal))"

definition weekday :: "int \<Rightarrow> int" where
  "weekday ordinal = (ordinal + 6) mod 7"

text \<open>The constructors refuse dates outside the years 1 to 9999.\<close>

definition make_date :: "int \<Rightarrow> nat \<Rightarrow> int \<Rightarrow> int res" where
  "make_date year month day = bindR (require (MINYEAR \<le> year \<and> year \<le> MAXYEAR) ValueError) (\<lambda>_. Inr (ymd2ord year month day))"

definition add_days :: "int \<Rightarrow> int \<Rightarrow> int res" where
  "add_days ordinal days =
     bindR (require (1 \<le> ordinal + days \<and> ordinal + days \<le> MAXORDINAL) OverflowError) (\<lambda>_. Inr (ordinal + days))"

section \<open>Time\<close>

definition NANOSECONDS_PER_SECOND :: int where
  "NANOSECONDS_PER_SECOND = 1000000000"

definition NANOSECONDS_PER_DAY :: int where
  "NANOSECONDS_PER_DAY = 86400 * NANOSECONDS_PER_SECOND"

definition MICROS_PER_DAY :: int where
  "MICROS_PER_DAY = 86400000000"

definition date_of :: "int \<Rightarrow> int" where
  "date_of dt = EPOCH_ORDINAL + dt div MICROS_PER_DAY"

definition combine :: "int \<Rightarrow> int \<Rightarrow> int" where
  "combine ordinal time_of_day = (ordinal - EPOCH_ORDINAL) * MICROS_PER_DAY + time_of_day"

definition in_calendar :: "int \<Rightarrow> bool" where
  "in_calendar dt \<longleftrightarrow> 1 \<le> date_of dt \<and> date_of dt \<le> MAXORDINAL"

text \<open>\<^verbatim>\<open>datetime_to_ns\<close> of a UTC time; every time the calendars build is timezone-aware.\<close>

definition datetime_to_ns :: "int \<Rightarrow> int" where
  "datetime_to_ns dt = dt * 1000"

definition ns_to_datetime :: "int \<Rightarrow> int res" where
  "ns_to_datetime v =
     (let seconds = v div NANOSECONDS_PER_SECOND; nanoseconds = v mod NANOSECONDS_PER_SECOND;
          dt = seconds * 1000000 + nanoseconds div 1000
      in bindR (require (in_i64 seconds) OverflowError) (\<lambda>_.
         bindR (require (in_calendar dt) ValueError) (\<lambda>_. Inr dt)))"

section \<open>Intervals\<close>

record Interval =
  iv_name :: string
  iv_fixed_ns :: "int option"
  iv_calendar_unit :: "string option"

definition interval_multiplier :: "char \<Rightarrow> int option" where
  "interval_multiplier unit = map_of [(CHR ''s'', 1), (CHR ''m'', 60), (CHR ''h'', 3600)] unit"

definition parse_interval :: "string \<Rightarrow> Interval res" where
  "parse_interval v =
     (if v = ''1d'' then Inr \<lparr>iv_name = v, iv_fixed_ns = None, iv_calendar_unit = Some ''day''\<rparr>
      else if v = ''1w'' then Inr \<lparr>iv_name = v, iv_fixed_ns = None, iv_calendar_unit = Some ''week''\<rparr>
      else if v = ''1mo'' then Inr \<lparr>iv_name = v, iv_fixed_ns = None, iv_calendar_unit = Some ''month''\<rparr>
      else bindR (require (\<not> (length v < 2 \<or> \<not> isdigit (butlast v))) ValueError) (\<lambda>_.
           bindR (py_int (butlast v)) (\<lambda>n.
           bindR (require (\<not> n \<le> 0) ValueError) (\<lambda>_.
           case interval_multiplier (last v) of None \<Rightarrow> Inl ValueError
           | Some multiplier \<Rightarrow>
               Inr \<lparr>iv_name = v, iv_fixed_ns = Some (n * multiplier * NANOSECONDS_PER_SECOND), iv_calendar_unit = None\<rparr>))))"

section \<open>Session calendars\<close>

record zone =
  z_local :: "int \<Rightarrow> int"
  z_offset :: "int \<Rightarrow> int"

type_synonym zones = "string \<Rightarrow> zone res"

record SessionWindow =
  sw_session_date :: int
  sw_start_ns :: int
  sw_end_ns :: int

definition window_contains :: "SessionWindow \<Rightarrow> int \<Rightarrow> bool" where
  "window_contains w ts_ns \<longleftrightarrow> sw_start_ns w \<le> ts_ns \<and> ts_ns < sw_end_ns w"

record SessionCalendar =
  sc_zone_key :: string
  sc_open_time :: int
  sc_close_time :: int
  sc_weekdays :: "int set"
  sc_holidays :: "int set"
  sc_halts :: "(int \<times> int) list"

text \<open>\<^verbatim>\<open>astimezone\<close> in both directions.\<close>

definition to_utc :: "zone \<Rightarrow> int \<Rightarrow> int res" where
  "to_utc z wall = (let utc = wall - z_offset z wall in
     bindR (require (in_calendar utc) OverflowError) (\<lambda>_. Inr utc))"

definition to_local :: "zone \<Rightarrow> int \<Rightarrow> int res" where
  "to_local z utc = bindR (require (in_calendar (z_local z utc)) OverflowError) (\<lambda>_. Inr (z_local z utc))"

definition session_for_date :: "zones \<Rightarrow> SessionCalendar \<Rightarrow> int \<Rightarrow> SessionWindow option res" where
  "session_for_date zones c session_date =
     (if weekday session_date \<notin> sc_weekdays c \<or> session_date \<in> sc_holidays c then Inr None
      else
        bindR (if sc_close_time c \<le> sc_open_time c then add_days session_date 1 else Inr session_date) (\<lambda>close_date.
        bindR (zones (sc_zone_key c)) (\<lambda>z.
        bindR (to_utc z (combine session_date (sc_open_time c))) (\<lambda>start_utc.
        bindR (to_utc z (combine close_date (sc_close_time c))) (\<lambda>end_utc.
        let start_ns = datetime_to_ns start_utc; end_ns = datetime_to_ns end_utc in
        bindR (require (\<not> end_ns \<le> start_ns) ValueError) (\<lambda>_.
        Inr (Some \<lparr>sw_session_date = session_date, sw_start_ns = start_ns, sw_end_ns = end_ns\<rparr>)))))))"

fun first_session :: "zones \<Rightarrow> SessionCalendar \<Rightarrow> int \<Rightarrow> int list \<Rightarrow> SessionWindow option res" where
  "first_session zones c ts_ns [] = Inr None"
| "first_session zones c ts_ns (candidate # candidates) =
     bindR (session_for_date zones c candidate) (\<lambda>window.
     case window of
       Some w \<Rightarrow> if window_contains w ts_ns then Inr (Some w) else first_session zones c ts_ns candidates
     | None \<Rightarrow> first_session zones c ts_ns candidates)"

definition session_for_ns :: "zones \<Rightarrow> SessionCalendar \<Rightarrow> int \<Rightarrow> SessionWindow option res" where
  "session_for_ns zones c ts_ns =
     bindR (ns_to_datetime ts_ns) (\<lambda>utc.
     bindR (zones (sc_zone_key c)) (\<lambda>z.
     bindR (to_local z utc) (\<lambda>local.
     let local_date = date_of local in
     bindR (add_days local_date (- 1)) (\<lambda>previous_date.
     first_session zones c ts_ns [local_date, previous_date]))))"

definition is_halted :: "SessionCalendar \<Rightarrow> int \<Rightarrow> bool" where
  "is_halted c ts_ns \<longleftrightarrow> list_ex (\<lambda>(start_ns, end_ns). start_ns \<le> ts_ns \<and> ts_ns < end_ns) (sc_halts c)"

function period_sessions :: "zones \<Rightarrow> SessionCalendar \<Rightarrow> int \<Rightarrow> int \<Rightarrow> SessionWindow list res" where
  "period_sessions zones c cursor end_date =
     (if cursor < end_date then
        bindR (session_for_date zones c cursor) (\<lambda>window.
        bindR (add_days cursor 1) (\<lambda>_.
        bindR (period_sessions zones c (cursor + 1) end_date) (\<lambda>sessions.
        Inr (case window of None \<Rightarrow> sessions | Some w \<Rightarrow> w # sessions))))
      else Inr [])"
  by pat_completeness auto
termination
  by (relation "measure (\<lambda>(_, _, cursor, end_date). nat (end_date - cursor))") auto

definition next_month_start :: "int \<Rightarrow> int res" where
  "next_month_start month_start =
     (if date_month month_start = 12 then make_date (date_year month_start + 1) 1 1
      else make_date (date_year month_start) (date_month month_start + 1) 1)"

definition bucket_period :: "zones \<Rightarrow> SessionCalendar \<Rightarrow> int \<Rightarrow> string option \<Rightarrow> SessionWindow list res" where
  "bucket_period zones c session_date unit =
     (if unit = Some ''week'' then
        bindR (add_days session_date (- weekday session_date)) (\<lambda>monday.
        bindR (add_days monday 7) (\<lambda>end_date. period_sessions zones c monday end_date))
      else if unit = Some ''month'' then
        bindR (make_date (date_year session_date) (date_month session_date) 1) (\<lambda>month_start.
        bindR (next_month_start month_start) (\<lambda>next_month. period_sessions zones c month_start next_month))
      else Inl ValueError)"

definition session_bucket_bounds :: "zones \<Rightarrow> SessionCalendar \<Rightarrow> int \<Rightarrow> Interval \<Rightarrow> (int \<times> int) res" where
  "session_bucket_bounds zones c ts_ns interval =
     bindR (session_for_ns zones c ts_ns) (\<lambda>session.
     case session of None \<Rightarrow> Inl ValueError
     | Some s \<Rightarrow>
        (case iv_fixed_ns interval of
           Some fixed_ns \<Rightarrow>
             let elapsed = ts_ns - sw_start_ns s; start = sw_start_ns s + (elapsed div fixed_ns) * fixed_ns
             in Inr (start, min (start + fixed_ns) (sw_end_ns s))
         | None \<Rightarrow>
             if iv_calendar_unit interval = Some ''day'' then Inr (sw_start_ns s, sw_end_ns s)
             else bindR (bucket_period zones c (sw_session_date s) (iv_calendar_unit interval)) (\<lambda>sessions.
                  bindR (require (sessions \<noteq> []) ValueError) (\<lambda>_.
                  Inr (sw_start_ns (hd sessions), sw_end_ns (last sessions))))))"

section \<open>The continuous calendar\<close>

definition crypto_period :: "int \<Rightarrow> string option \<Rightarrow> (int \<times> int) res" where
  "crypto_period current unit =
     (let today = date_of current in
      if unit = Some ''day'' then bindR (add_days today 1) (\<lambda>end_date. Inr (today, end_date))
      else if unit = Some ''week'' then
        bindR (add_days today (- weekday today)) (\<lambda>start_date.
        bindR (add_days start_date 7) (\<lambda>end_date. Inr (start_date, end_date)))
      else if unit = Some ''month'' then
        bindR (make_date (date_year today) (date_month today) 1) (\<lambda>start_date.
        bindR (if date_month today = 12 then make_date (date_year today + 1) 1 1
               else make_date (date_year today) (date_month today + 1) 1) (\<lambda>end_date.
        Inr (start_date, end_date)))
      else Inl ValueError)"

definition crypto_bucket_bounds :: "int \<Rightarrow> Interval \<Rightarrow> (int \<times> int) res" where
  "crypto_bucket_bounds ts_ns interval =
     (case iv_fixed_ns interval of
        Some fixed_ns \<Rightarrow> let start = (ts_ns div fixed_ns) * fixed_ns in Inr (start, start + fixed_ns)
      | None \<Rightarrow>
          bindR (ns_to_datetime ts_ns) (\<lambda>current.
          bindR (crypto_period current (iv_calendar_unit interval)) (\<lambda>(start_date, end_date).
          Inr (datetime_to_ns (combine start_date 0), datetime_to_ns (combine end_date 0)))))"

end
