(* ===== verification/Aggregate.thy ===== *)
theory Aggregate
  imports Calendars
begin

text \<open>
  Trade-to-bar aggregation, \<^verbatim>\<open>aggregate/\<close>. The bar that \<^verbatim>\<open>current\<close> refers to while the trades are read is the last
  element of the list of bars, so updating it updates the list.
\<close>

datatype calendar = CryptoUtcCalendar | SessionBuckets SessionCalendar

definition bucket_bounds :: "zones \<Rightarrow> calendar \<Rightarrow> int \<Rightarrow> Interval \<Rightarrow> (int \<times> int) res" where
  "bucket_bounds zones c ts_ns interval =
     (case c of CryptoUtcCalendar \<Rightarrow> crypto_bucket_bounds ts_ns interval
      | SessionBuckets s \<Rightarrow> session_bucket_bounds zones s ts_ns interval)"

record Trade =
  tr_ts_event_ns :: int
  tr_price_atoms :: int
  tr_qty_atoms :: int

definition Trade_post_init :: "Trade \<Rightarrow> unit res" where
  "Trade_post_init t =
     bindR (require (\<not> tr_price_atoms t \<le> 0) ValueError) (\<lambda>_. require (\<not> tr_qty_atoms t \<le> 0) ValueError)"

record KnownGap =
  kg_start_ns :: int
  kg_end_ns :: int

definition KnownGap_post_init :: "KnownGap \<Rightarrow> unit res" where
  "KnownGap_post_init g = require (\<not> kg_end_ns g \<le> kg_start_ns g) ValueError"

definition overlaps :: "KnownGap \<Rightarrow> int \<Rightarrow> int \<Rightarrow> bool" where
  "overlaps g start_ns end_ns \<longleftrightarrow> kg_start_ns g < end_ns \<and> start_ns < kg_end_ns g"

record Bar =
  bar_interval :: string
  bar_start_ns :: int
  bar_end_ns :: int
  bar_open_atoms :: int
  bar_high_atoms :: int
  bar_low_atoms :: int
  bar_close_atoms :: int
  bar_base_volume_atoms :: int
  bar_trade_count :: int
  bar_complete :: bool
  bar_quality_flags :: "string list"

record MutableBar =
  mb_start_ns :: int
  mb_end_ns :: int
  mb_open_atoms :: int
  mb_high_atoms :: int
  mb_low_atoms :: int
  mb_close_atoms :: int
  mb_base_volume_atoms :: int
  mb_trade_count :: int

definition from_trade :: "int \<Rightarrow> int \<Rightarrow> Trade \<Rightarrow> MutableBar" where
  "from_trade start_ns end_ns trade =
     \<lparr>mb_start_ns = start_ns, mb_end_ns = end_ns, mb_open_atoms = tr_price_atoms trade, mb_high_atoms = tr_price_atoms trade,
      mb_low_atoms = tr_price_atoms trade, mb_close_atoms = tr_price_atoms trade, mb_base_volume_atoms = tr_qty_atoms trade,
      mb_trade_count = 1\<rparr>"

definition add_trade :: "Trade \<Rightarrow> MutableBar \<Rightarrow> MutableBar" where
  "add_trade trade bar = bar
     \<lparr>mb_high_atoms := max (mb_high_atoms bar) (tr_price_atoms trade),
      mb_low_atoms := min (mb_low_atoms bar) (tr_price_atoms trade),
      mb_close_atoms := tr_price_atoms trade,
      mb_base_volume_atoms := mb_base_volume_atoms bar + tr_qty_atoms trade,
      mb_trade_count := mb_trade_count bar + 1\<rparr>"

definition halt_overlaps :: "calendar \<Rightarrow> int \<Rightarrow> int \<Rightarrow> bool" where
  "halt_overlaps c start_ns end_ns =
     (case c of SessionBuckets s \<Rightarrow> list_ex (\<lambda>(halt_start, halt_end). halt_start < end_ns \<and> start_ns < halt_end) (sc_halts s)
      | CryptoUtcCalendar \<Rightarrow> False)"

definition aggregate_step ::
    "zones \<Rightarrow> calendar \<Rightarrow> Interval \<Rightarrow> MutableBar list \<times> int option \<Rightarrow> Trade \<Rightarrow> (MutableBar list \<times> int option) res" where
  "aggregate_step zones c interval = (\<lambda>(bars, previous_ts) trade.
     bindR (require (\<not> (case previous_ts of None \<Rightarrow> False | Some p \<Rightarrow> tr_ts_event_ns trade < p)) ValueError) (\<lambda>_.
     bindR (bucket_bounds zones c (tr_ts_event_ns trade) interval) (\<lambda>(start_ns, end_ns).
     Inr (if bars = [] \<or> (mb_start_ns (last bars), mb_end_ns (last bars)) \<noteq> (start_ns, end_ns)
          then bars @ [from_trade start_ns end_ns trade]
          else butlast bars @ [add_trade trade (last bars)],
          Some (tr_ts_event_ns trade)))))"

definition quality_flags :: "calendar \<Rightarrow> int \<Rightarrow> KnownGap list \<Rightarrow> MutableBar \<Rightarrow> string list" where
  "quality_flags c coverage_end_ns known_gaps source =
     (if mb_end_ns source > coverage_end_ns then [''INCOMPLETE_COVERAGE''] else []) @
     (if list_ex (\<lambda>gap. overlaps gap (mb_start_ns source) (mb_end_ns source)) known_gaps then [''KNOWN_GAP''] else []) @
     (if halt_overlaps c (mb_start_ns source) (mb_end_ns source) then [''SESSION_HALT''] else [])"

definition finish_bar :: "calendar \<Rightarrow> Interval \<Rightarrow> int \<Rightarrow> KnownGap list \<Rightarrow> MutableBar \<Rightarrow> Bar" where
  "finish_bar c interval coverage_end_ns known_gaps source =
     (let flags = quality_flags c coverage_end_ns known_gaps source in
      \<lparr>bar_interval = iv_name interval, bar_start_ns = mb_start_ns source, bar_end_ns = mb_end_ns source,
       bar_open_atoms = mb_open_atoms source, bar_high_atoms = mb_high_atoms source, bar_low_atoms = mb_low_atoms source,
       bar_close_atoms = mb_close_atoms source, bar_base_volume_atoms = mb_base_volume_atoms source,
       bar_trade_count = mb_trade_count source, bar_complete = (flags = []), bar_quality_flags = flags\<rparr>)"

definition aggregate_trades ::
    "zones \<Rightarrow> Trade list \<Rightarrow> string \<Rightarrow> calendar \<Rightarrow> int \<Rightarrow> KnownGap list \<Rightarrow> Bar list res" where
  "aggregate_trades zones trades interval_name c coverage_end_ns known_gaps =
     bindR (parse_interval interval_name) (\<lambda>interval.
     bindR (foldR (aggregate_step zones c interval) ([], None) trades) (\<lambda>(bars, _).
     Inr (map (finish_bar c interval coverage_end_ns known_gaps) bars)))"

end
