(* ===== verification/Aggregate_Theorems.thy ===== *)
theory Aggregate_Theorems
  imports Aggregate
begin

text \<open>
  Calendar buckets contain the times they are computed from, the buckets of the continuous calendar partition time
  (the locales \<open>bucketing\<close> and \<open>partition\<close>), and the bars are what a direct reading of the trades gives.
\<close>

section \<open>Years and months\<close>

lemma days_before_year_less: "days_before_year y < days_before_year (y + 1)"
  by (simp add: days_before_year_step)

lemma days_before_year_mono: "y \<le> z \<Longrightarrow> days_before_year y \<le> days_before_year z"
proof (induction z rule: int_ge_induct)
  case (step z)
  then show ?case using days_before_year_less [of z] by simp
qed simp

lemma year_from_bounds:
  "days_before_year y < n \<Longrightarrow> days_before_year (year_from y n) < n \<and> n \<le> days_before_year (year_from y n + 1)"
proof (induction y n rule: year_from.induct)
  case (1 y n)
  then show ?case by (cases "n \<le> days_before_year (y + 1)") (simp_all del: year_from.simps add: year_from.simps [of y n])
qed

lemma date_year_bounds:
  assumes "1 \<le> n"
  shows "days_before_year (date_year n) < n" and "n \<le> days_before_year (date_year n + 1)"
proof -
  let ?q = "n div 366"
  have "0 \<le> ?q" "366 * ?q \<le> n" using assms by simp_all
  have d: "0 \<le> ?q div 100" "?q div 400 \<le> ?q div 100" "?q div 4 \<le> ?q" using \<open>0 \<le> ?q\<close>
    by (auto intro!: zdiv_mono2)
  have "days_before_year (?q + 1) < n"
  proof (cases "?q = 0")
    case True
    with assms show ?thesis by (simp add: days_before_year_def)
  next
    case False
    with \<open>0 \<le> ?q\<close> have "?q div 4 < ?q" by simp
    with d \<open>366 * ?q \<le> n\<close> show ?thesis by (simp add: days_before_year_def Let_def)
  qed
  then show "days_before_year (date_year n) < n" "n \<le> days_before_year (date_year n + 1)"
    using year_from_bounds unfolding date_year_def by blast+
qed

lemma date_year_unique:
  assumes "1 \<le> n" and "days_before_year y < n" and "n \<le> days_before_year (y + 1)"
  shows "date_year n = y"
proof (rule antisym)
  show "date_year n \<le> y"
  proof (rule ccontr)
    assume "\<not> date_year n \<le> y"
    then have "days_before_year (y + 1) \<le> days_before_year (date_year n)" by (intro days_before_year_mono) simp
    with assms date_year_bounds [OF assms(1)] show False by simp
  qed
  show "y \<le> date_year n"
  proof (rule ccontr)
    assume "\<not> y \<le> date_year n"
    then have "days_before_year (date_year n + 1) \<le> days_before_year y" by (intro days_before_year_mono) simp
    with assms date_year_bounds [OF assms(1)] show False by simp
  qed
qed

lemma date_year_pos: "1 \<le> n \<Longrightarrow> 1 \<le> date_year n"
  using date_year_bounds(2) [of n] days_before_year_mono [of "date_year n + 1" 1]
  by (rule_tac ccontr) (simp add: days_before_year_def)

abbreviation month_days :: "int \<Rightarrow> nat \<Rightarrow> nat \<Rightarrow> int" where
  "month_days y a b \<equiv> sum_list (map (days_in_month y) [a..<b])"

lemma days_in_month_pos: "0 < days_in_month y m"
  by simp

lemma month_from_bounds:
  assumes "a \<le> 13" and "1 \<le> d" and "d \<le> month_days y a 13"
  shows "a \<le> month_from y [a..<13] d \<and> month_from y [a..<13] d \<le> 12 \<and>
    month_days y a (month_from y [a..<13] d) < d \<and> d \<le> month_days y a (Suc (month_from y [a..<13] d))"
  using assms
proof (induction "13 - a" arbitrary: a d)
  case (Suc k)
  then have a: "a < 13" "[a..<13] = a # [Suc a..<13]" by (simp_all add: upt_rec)
  show ?case
  proof (cases "d \<le> days_in_month y a")
    case True
    with Suc a show ?thesis by (simp del: days_in_month.simps)
  next
    case False
    let ?m = "month_from y [Suc a..<13] (d - days_in_month y a)"
    have "Suc a \<le> ?m \<and> ?m \<le> 12 \<and> month_days y (Suc a) ?m < d - days_in_month y a \<and>
        d - days_in_month y a \<le> month_days y (Suc a) (Suc ?m)"
      using Suc False a by (intro Suc.hyps(1)) (simp_all del: days_in_month.simps)
    with False a show ?thesis by (simp del: days_in_month.simps upt_Suc add: upt_rec [of a])
  qed
qed auto

lemma month_days_year: "month_days y 1 13 = (if is_leap y then 366 else 365)"
  by (simp add: upt_rec)

lemma date_month_bounds:
  assumes "1 \<le> n"
  shows "1 \<le> date_month n" "date_month n \<le> 12"
    "ymd2ord (date_year n) (date_month n) 1 \<le> n" "n < ymd2ord (date_year n) (Suc (date_month n)) 1"
proof -
  let ?y = "date_year n" and ?d = "n - days_before_year (date_year n)"
  have "1 \<le> ?d" "?d \<le> month_days ?y 1 13"
    using date_year_bounds [OF assms] unfolding month_days_year days_before_year_step by auto
  have "(1 :: nat) \<le> 13" by simp
  note b = month_from_bounds [OF this \<open>1 \<le> ?d\<close> \<open>?d \<le> month_days ?y 1 13\<close>]
  show "1 \<le> date_month n" "date_month n \<le> 12"
    "ymd2ord (date_year n) (date_month n) 1 \<le> n" "n < ymd2ord (date_year n) (Suc (date_month n)) 1"
    unfolding date_month_def ymd2ord_def days_before_month_def using b by linarith+
qed

lemma days_before_month_mono: "a \<le> b \<Longrightarrow> 1 \<le> a \<Longrightarrow> days_before_month y a \<le> days_before_month y b"
proof (induction b rule: dec_induct)
  case (step b)
  then show ?case using days_in_month_pos [of y b] by (simp add: days_before_month_def del: days_in_month.simps)
qed simp

lemma days_before_month_ends: "days_before_month y 1 = 0" "days_before_month y 13 = (if is_leap y then 366 else 365)"
  unfolding days_before_month_def month_days_year by simp_all

lemma date_month_unique:
  assumes "1 \<le> m" and "m \<le> 12" and "1 \<le> y" and "ymd2ord y m 1 \<le> n" and "n < ymd2ord y (Suc m) 1"
  shows "date_year n = y" and "date_month n = m" and "1 \<le> n"
proof -
  have m: "0 \<le> days_before_month y m" "days_before_month y (Suc m) \<le> days_before_month y 13"
    using days_before_month_mono [of 1 m y] days_before_month_mono [of "Suc m" 13 y] assms(1,2) days_before_month_ends(1) [of y] by auto
  have "days_before_year 1 \<le> days_before_year y" by (rule days_before_year_mono [OF assms(3)])
  then have "0 \<le> days_before_year y" by (simp add: days_before_year_def)
  with m(1) assms(4) show n: "1 \<le> n" by (simp add: ymd2ord_def)
  show y: "date_year n = y"
    by (rule date_year_unique [OF n]) (use m assms(4,5) in \<open>auto simp: ymd2ord_def days_before_year_step days_before_month_ends(2) split: if_splits\<close>)
  show "date_month n = m"
  proof (rule ccontr)
    assume "date_month n \<noteq> m"
    then consider "Suc (date_month n) \<le> m" | "Suc m \<le> date_month n" by linarith
    then show False
    proof cases
      case 1
      from days_before_month_mono [OF this, of y] date_month_bounds(1,4) [OF n] assms(4) y show False by (simp add: ymd2ord_def)
    next
      case 2
      from days_before_month_mono [OF this, of y] date_month_bounds(3) [OF n] assms(5) y show False by (simp add: ymd2ord_def)
    qed
  qed
qed

text \<open>The first day of the month after a month, also across a year.\<close>

definition month_end :: "int \<Rightarrow> nat \<Rightarrow> int" where
  "month_end y m = (if m = 12 then ymd2ord (y + 1) 1 1 else ymd2ord y (m + 1) 1)"

lemma month_end_eq: "1 \<le> m \<Longrightarrow> m \<le> 12 \<Longrightarrow> month_end y m = ymd2ord y (Suc m) 1"
  by (simp add: month_end_def ymd2ord_def days_before_year_step days_before_month_ends(1) [simplified] days_before_month_ends(2))

lemma month_end_bound:
  assumes "1 \<le> m" and "m \<le> 12" and "y \<le> 9999" and "m = 12 \<longrightarrow> y < 9999"
  shows "month_end y m \<le> MAXORDINAL"
proof (cases "m = 12")
  case True
  have "days_before_year (y + 1) \<le> days_before_year 9999" by (rule days_before_year_mono) (use True assms in simp)
  moreover have "days_before_year 9999 = 3651694" by (simp add: days_before_year_def)
  ultimately show ?thesis using True days_before_month_ends(1) [of "y + 1"] by (simp add: month_end_def ymd2ord_def MAXORDINAL_def)
next
  case False
  have "days_before_year y \<le> days_before_year 9999" by (rule days_before_year_mono) (use assms in simp)
  moreover have "days_before_year 9999 = 3651694" by (simp add: days_before_year_def)
  moreover have "days_before_month y (Suc m) + 31 \<le> days_before_month y 13"
  proof -
    have "days_before_month y (Suc m) \<le> days_before_month y 12" using days_before_month_mono [of "Suc m" 12 y] False assms by simp
    moreover have "days_before_month y 13 = days_before_month y 12 + 31" by (simp add: days_before_month_def upt_rec)
    ultimately show ?thesis by simp
  qed
  ultimately show ?thesis using False days_before_month_ends(2) [of y]
    by (simp add: month_end_def ymd2ord_def MAXORDINAL_def split: if_splits)
qed

section \<open>Periods of days\<close>

text \<open>The days of a period all have that period.\<close>

lemma crypto_period_Inr:
  assumes "crypto_period dt unit = Inr (s, e)" and "1 \<le> date_of dt"
  shows "s \<le> date_of dt" and "date_of dt < e" and "1 \<le> s" and "e \<le> MAXORDINAL"
    and "\<And>dt'. s \<le> date_of dt' \<Longrightarrow> date_of dt' < e \<Longrightarrow> crypto_period dt' unit = Inr (s, e)"
proof -
  let ?n = "date_of dt"
  have "s \<le> ?n \<and> ?n < e \<and> 1 \<le> s \<and> e \<le> MAXORDINAL \<and> (\<forall>dt'. s \<le> date_of dt' \<longrightarrow> date_of dt' < e \<longrightarrow> crypto_period dt' unit = Inr (s, e))"
  proof -
    consider (day) "unit = Some ''day''" | (week) "unit = Some ''week''" | (month) "unit = Some ''month''"
      using assms(1) by (auto simp: crypto_period_def Let_def split: if_splits)
    then show ?thesis
    proof cases
      case day
      with assms(1) have "s = ?n" "e = ?n + 1" "?n + 1 \<le> MAXORDINAL" by (auto simp: crypto_period_def Let_def add_days_def)
      moreover have "crypto_period dt' unit = crypto_period dt unit" if "date_of dt' = ?n" for dt' by (simp add: crypto_period_def that)
      ultimately show ?thesis using assms by auto
    next
      case week
      with assms(1) have se: "s = ?n - weekday ?n" "e = s + 7" "1 \<le> s" "s + 7 \<le> MAXORDINAL"
        by (auto simp: crypto_period_def Let_def add_days_def)
      have w: "0 \<le> weekday ?n" "weekday ?n < 7" by (simp_all add: weekday_def)
      have "crypto_period dt' unit = Inr (s, e)" if "s \<le> date_of dt'" "date_of dt' < e" for dt'
      proof -
        have "(s + 6) mod 7 = 0" using se(1) by (simp add: weekday_def) presburger
        then have "(date_of dt' - s + (s + 6)) mod 7 = (date_of dt' - s) mod 7" by (metis add.right_neutral mod_add_right_eq)
        also have "\<dots> = date_of dt' - s" using that se by (intro mod_pos_pos_trivial) auto
        finally have "date_of dt' - weekday (date_of dt') = s" by (simp add: weekday_def)
        with week se show ?thesis by (simp add: crypto_period_def Let_def add_days_def)
      qed
      with se w show ?thesis by auto
    next
      case month
      let ?y = "date_year ?n" and ?m = "date_month ?n"
      note b = date_month_bounds [OF assms(2)]
      from assms(1) month have se: "s = ymd2ord ?y ?m 1" "e = month_end ?y ?m" "1 \<le> ?y" "?y \<le> 9999" "?m = 12 \<longrightarrow> ?y < 9999"
        by (auto simp: crypto_period_def Let_def make_date_def month_end_def MINYEAR_def MAXYEAR_def split: if_splits)
      have e: "e = ymd2ord ?y (Suc ?m) 1" using month_end_eq [OF b(1,2)] se(2) by simp
      have n: "ymd2ord ?y ?m 1 \<le> s" "s < ymd2ord ?y (Suc ?m) 1" using b(3,4) unfolding se(1) by linarith+
      have "1 \<le> s" by (rule date_month_unique(3) [OF b(1,2) se(3) n])
      have "crypto_period dt' unit = Inr (s, e)" if "s \<le> date_of dt'" "date_of dt' < e" for dt'
      proof -
        from that have n: "ymd2ord ?y ?m 1 \<le> date_of dt'" "date_of dt' < ymd2ord ?y (Suc ?m) 1" unfolding se(1) e by simp_all
        have "date_year (date_of dt') = ?y" "date_month (date_of dt') = ?m" by (rule date_month_unique [OF b(1,2) se(3) n])+
        then have "crypto_period dt' unit = crypto_period dt unit" using month by (simp add: crypto_period_def Let_def)
        with assms(1) show ?thesis by simp
      qed
      moreover have "e \<le> MAXORDINAL" unfolding se(2) by (rule month_end_bound [OF b(1,2) se(4,5)])
      moreover have "s \<le> ?n" "?n < e" using b(3,4) unfolding se(1) e by linarith+
      ultimately show ?thesis using \<open>1 \<le> s\<close> by blast
    qed
  qed
  then show "s \<le> date_of dt" "date_of dt < e" "1 \<le> s" "e \<le> MAXORDINAL"
    "\<And>dt'. s \<le> date_of dt' \<Longrightarrow> date_of dt' < e \<Longrightarrow> crypto_period dt' unit = Inr (s, e)" by auto
qed

lemma le_div_iff: "0 < d \<Longrightarrow> a \<le> q div d \<longleftrightarrow> a * d \<le> q" for a d q :: int
proof
  assume d: "0 < d" and "a \<le> q div d"
  then have "a * d \<le> q div d * d" by (simp add: mult_right_mono)
  also have "\<dots> \<le> q" using d by (simp add: minus_mod_eq_div_mult [symmetric])
  finally show "a * d \<le> q" .
next
  assume "0 < d" and "a * d \<le> q"
  then show "a \<le> q div d" using zdiv_mono1 [of "a * d" q d] by simp
qed

lemma micros_of_ns: "v div NANOSECONDS_PER_SECOND * 1000000 + v mod NANOSECONDS_PER_SECOND div 1000 = v div (1000 :: int)"
proof -
  have "v = v div 1000000000 * 1000000000 + v mod 1000000000" by simp
  then have "v div 1000 = (v mod 1000000000 + 1000 * (v div 1000000000 * 1000000)) div 1000" by simp
  also have "\<dots> = v div 1000000000 * 1000000 + v mod 1000000000 div 1000" by (subst div_mult_self2) simp_all
  finally show ?thesis by (simp add: NANOSECONDS_PER_SECOND_def)
qed

lemma date_of_ns: "date_of (v div 1000) = EPOCH_ORDINAL + v div NANOSECONDS_PER_DAY"
  by (simp add: date_of_def MICROS_PER_DAY_def NANOSECONDS_PER_DAY_def NANOSECONDS_PER_SECOND_def zdiv_zmult2_eq)

lemma ns_to_datetime_Inr:
  "ns_to_datetime v = Inr dt \<longleftrightarrow> dt = v div 1000 \<and> 1 \<le> date_of dt \<and> date_of dt \<le> MAXORDINAL"
proof -
  have "in_i64 (v div NANOSECONDS_PER_SECOND)" if "1 \<le> date_of (v div 1000)" "date_of (v div 1000) \<le> MAXORDINAL"
  proof -
    have "- 719163 \<le> v div NANOSECONDS_PER_DAY" "v div NANOSECONDS_PER_DAY \<le> 2932896"
      using that unfolding date_of_ns by (simp_all add: EPOCH_ORDINAL_def MAXORDINAL_def)
    moreover have "v div NANOSECONDS_PER_DAY = v div NANOSECONDS_PER_SECOND div 86400"
      by (simp add: NANOSECONDS_PER_DAY_def NANOSECONDS_PER_SECOND_def zdiv_zmult2_eq [symmetric])
    ultimately have "- 719163 * 86400 \<le> v div NANOSECONDS_PER_SECOND" "\<not> 2932897 * 86400 \<le> v div NANOSECONDS_PER_SECOND"
      using le_div_iff [of 86400 "- 719163" "v div NANOSECONDS_PER_SECOND"] le_div_iff [of 86400 2932897 "v div NANOSECONDS_PER_SECOND"] by auto
    then show ?thesis unfolding range_defs by auto
  qed
  then show ?thesis unfolding ns_to_datetime_def Let_def micros_of_ns by (auto simp: in_calendar_def)
qed

lemma day_bounds:
  "datetime_to_ns (combine s 0) \<le> ts \<longleftrightarrow> s \<le> date_of (ts div 1000)"
  "ts < datetime_to_ns (combine e 0) \<longleftrightarrow> date_of (ts div 1000) < e"
proof -
  have "datetime_to_ns (combine s 0) = (s - EPOCH_ORDINAL) * NANOSECONDS_PER_DAY" for s
    by (simp add: datetime_to_ns_def combine_def MICROS_PER_DAY_def NANOSECONDS_PER_DAY_def NANOSECONDS_PER_SECOND_def)
  moreover have "0 < NANOSECONDS_PER_DAY" by (simp add: NANOSECONDS_PER_DAY_def NANOSECONDS_PER_SECOND_def)
  ultimately show "datetime_to_ns (combine s 0) \<le> ts \<longleftrightarrow> s \<le> date_of (ts div 1000)"
    "ts < datetime_to_ns (combine e 0) \<longleftrightarrow> date_of (ts div 1000) < e"
    using le_div_iff [of NANOSECONDS_PER_DAY "s - EPOCH_ORDINAL" ts] le_div_iff [of NANOSECONDS_PER_DAY "e - EPOCH_ORDINAL" ts]
    by (auto simp: date_of_ns)
qed

section \<open>Buckets\<close>

text \<open>What an aggregator may rely on: a bucket contains the time it is computed from; in a partition, every time in a
  bucket has that bucket.\<close>

locale bucketing =
  fixes bounds :: "int \<Rightarrow> (int \<times> int) res"
  assumes contains: "bounds ts = Inr (s, e) \<Longrightarrow> s \<le> ts \<and> ts < e"

locale partition = bucketing +
  assumes stable: "bounds ts = Inr (s, e) \<Longrightarrow> s \<le> t \<Longrightarrow> t < e \<Longrightarrow> bounds t = Inr (s, e)"
begin

lemma ordered:
  assumes "bounds a = Inr (s, e)" and "bounds b = Inr (s', e')" and "a \<le> b" and "(s, e) \<noteq> (s', e')"
  shows "e \<le> s'"
proof (rule ccontr)
  assume "\<not> e \<le> s'"
  with contains [OF assms(1)] contains [OF assms(2)] assms(3) have "b < e \<or> s' < e \<and> e \<le> b" by linarith
  moreover have "\<not> b < e"
    using stable [OF assms(1), of b] contains [OF assms(1)] assms by auto
  moreover have "bounds (max s s') = Inr (s, e) \<and> bounds (max s s') = Inr (s', e')" if "s' < e" "e \<le> b"
    using stable [OF assms(1), of "max s s'"] stable [OF assms(2), of "max s s'"] contains [OF assms(1)] contains [OF assms(2)] assms(3) that
    by auto
  ultimately show False using assms(4) by auto
qed

end

lemma parsed_interval:
  assumes "parse_interval name = Inr iv"
  obtains (fixed) f where "iv_fixed_ns iv = Some f" "0 < f"
  | (calendar) "iv_fixed_ns iv = None" "iv_calendar_unit iv \<in> {Some ''day'', Some ''week'', Some ''month''}"
  using assms
  by (auto simp: parse_interval_def interval_multiplier_def NANOSECONDS_PER_SECOND_def split: if_splits option.splits)

lemma fixed_bucket:
  fixes ts f :: int
  assumes "0 < f"
  shows "ts div f * f \<le> ts" "ts < ts div f * f + f" "ts div f * f \<le> t \<Longrightarrow> t < ts div f * f + f \<Longrightarrow> t div f = ts div f"
proof -
  show "ts div f * f \<le> ts" using le_div_iff [OF assms, of "ts div f" ts] by simp
  show "ts < ts div f * f + f" using le_div_iff [OF assms, of "ts div f + 1" ts] by (simp add: algebra_simps)
  assume "ts div f * f \<le> t" "t < ts div f * f + f"
  then show "t div f = ts div f"
    using le_div_iff [OF assms, of "ts div f" t] le_div_iff [OF assms, of "ts div f + 1" t] by (simp add: algebra_simps)
qed

definition crypto_bounds :: "string \<Rightarrow> int \<Rightarrow> (int \<times> int) res" where
  "crypto_bounds name ts = bindR (parse_interval name) (crypto_bucket_bounds ts)"

interpretation crypto: partition "crypto_bounds name" for name
proof (unfold_locales, goal_cases)
  case (1 ts s e)
  then obtain iv where iv: "parse_interval name = Inr iv" and b: "crypto_bucket_bounds ts iv = Inr (s, e)"
    by (auto simp: crypto_bounds_def)
  from iv show ?case
  proof (cases rule: parsed_interval)
    case (fixed f)
    with b fixed_bucket(1,2) [of f ts] show ?thesis by (auto simp: crypto_bucket_bounds_def Let_def)
  next
    case calendar
    with b obtain sd ed where d: "crypto_period (ts div 1000) (iv_calendar_unit iv) = Inr (sd, ed)" "1 \<le> date_of (ts div 1000)"
      "s = datetime_to_ns (combine sd 0)" "e = datetime_to_ns (combine ed 0)"
      by (auto simp: crypto_bucket_bounds_def ns_to_datetime_Inr)
    with crypto_period_Inr(1,2) [OF d(1,2)] show ?thesis by (simp add: day_bounds)
  qed
next
  case (2 ts s e t)
  then obtain iv where iv: "parse_interval name = Inr iv" and b: "crypto_bucket_bounds ts iv = Inr (s, e)"
    by (auto simp: crypto_bounds_def)
  from iv show ?case
  proof (cases rule: parsed_interval)
    case (fixed f)
    with b fixed_bucket(3) [of f ts t] 2(2,3) iv show ?thesis by (auto simp: crypto_bucket_bounds_def crypto_bounds_def Let_def)
  next
    case calendar
    with b obtain sd ed where d: "crypto_period (ts div 1000) (iv_calendar_unit iv) = Inr (sd, ed)" "1 \<le> date_of (ts div 1000)"
      "s = datetime_to_ns (combine sd 0)" "e = datetime_to_ns (combine ed 0)"
      by (auto simp: crypto_bucket_bounds_def ns_to_datetime_Inr)
    from 2(2,3) have t: "sd \<le> date_of (t div 1000)" "date_of (t div 1000) < ed" by (simp_all add: d day_bounds)
    with crypto_period_Inr(3,4) [OF d(1,2)] have "ns_to_datetime t = Inr (t div 1000)" by (simp add: ns_to_datetime_Inr)
    with crypto_period_Inr(5) [OF d(1,2) t] calendar iv d show ?thesis by (simp add: crypto_bucket_bounds_def crypto_bounds_def)
  qed
qed

text \<open>The buckets of a session calendar within one session.\<close>

lemma first_session_contains: "first_session zones c ts ds = Inr (Some w) \<Longrightarrow> window_contains w ts"
  by (induction ds) (auto split: option.splits if_splits)

definition session_bounds :: "zones \<Rightarrow> SessionCalendar \<Rightarrow> string \<Rightarrow> int \<Rightarrow> (int \<times> int) res" where
  "session_bounds zones c name ts = bindR (parse_interval name) (\<lambda>iv.
     bindR (require (name \<notin> {''1w'', ''1mo''}) ValueError) (\<lambda>_. session_bucket_bounds zones c ts iv))"

interpretation session: bucketing "session_bounds zones c name" for zones c name
proof (unfold_locales, goal_cases)
  case (1 ts s e)
  then obtain iv where iv: "parse_interval name = Inr iv" and n: "name \<notin> {''1w'', ''1mo''}"
    and b: "session_bucket_bounds zones c ts iv = Inr (s, e)" by (auto simp: session_bounds_def)
  from b obtain w where w: "session_for_ns zones c ts = Inr (Some w)" by (auto simp: session_bucket_bounds_def split: option.splits)
  then have c: "sw_start_ns w \<le> ts" "ts < sw_end_ns w"
    using first_session_contains by (auto simp: session_for_ns_def Let_def window_contains_def simp del: first_session.simps)
  from iv show ?case
  proof (cases rule: parsed_interval)
    case (fixed f)
    with b w c fixed_bucket(1,2) [of f "ts - sw_start_ns w"] show ?thesis
      by (auto simp: session_bucket_bounds_def Let_def)
  next
    case calendar
    with iv n have "iv_calendar_unit iv = Some ''day''"
      by (auto simp: parse_interval_def split: if_splits option.splits)
    with b w c calendar show ?thesis by (auto simp: session_bucket_bounds_def)
  qed
qed

section \<open>Runs\<close>

text \<open>A decomposition of a list into maximal runs of equal keys.\<close>

definition uniform :: "('a \<Rightarrow> 'k) \<Rightarrow> 'a list \<Rightarrow> bool" where
  "uniform f g \<longleftrightarrow> (\<forall>x\<in>set g. f x = f (hd g))"

lemma uniformD: "uniform f g \<Longrightarrow> x \<in> set g \<Longrightarrow> f x = f (hd g)"
  by (simp add: uniform_def)

lemma uniform_last: "uniform f g \<Longrightarrow> g \<noteq> [] \<Longrightarrow> f (last g) = f (hd g)"
  by (rule uniformD) simp_all

lemma uniform_snoc: "g \<noteq> [] \<Longrightarrow> uniform f (g @ [t]) \<longleftrightarrow> uniform f g \<and> f t = f (hd g)"
  unfolding uniform_def by auto

lemma uniform_single [simp]: "uniform f [t]"
  by (simp add: uniform_def)

primrec runs_of :: "('a \<Rightarrow> 'k) \<Rightarrow> 'a list list \<Rightarrow> 'a list \<Rightarrow> bool" where
  "runs_of f [] xs \<longleftrightarrow> xs = []"
| "runs_of f (g # gs) xs \<longleftrightarrow> (\<exists>ys. xs = g @ ys \<and> runs_of f gs ys \<and> g \<noteq> [] \<and> uniform f g \<and> (ys \<noteq> [] \<longrightarrow> f (hd ys) \<noteq> f (hd g)))"

lemma runs_of_concat: "runs_of f gs xs \<Longrightarrow> concat gs = xs"
  by (induction gs arbitrary: xs) auto

lemma runs_of_members: "runs_of f gs xs \<Longrightarrow> g \<in> set gs \<Longrightarrow> g \<noteq> [] \<and> uniform f g \<and> set g \<subseteq> set xs"
  by (induction gs arbitrary: xs) fastforce+

lemma runs_of_last:
  "runs_of f (gs @ [g]) xs \<Longrightarrow> g \<noteq> [] \<and> xs \<noteq> [] \<and> uniform f g \<and> last xs = last g"
  by (induction gs arbitrary: xs) fastforce+

lemma runs_of_new: "runs_of f gs xs \<Longrightarrow> xs = [] \<or> f (last xs) \<noteq> f t \<Longrightarrow> runs_of f (gs @ [[t]]) (xs @ [t])"
proof (induction gs arbitrary: xs)
  case (Cons g gs)
  then obtain ys where g: "xs = g @ ys" "runs_of f gs ys" "g \<noteq> []" "uniform f g" "ys \<noteq> [] \<longrightarrow> f (hd ys) \<noteq> f (hd g)" by auto
  have "ys = [] \<or> f (last ys) \<noteq> f t" using Cons.prems(2) g(1,3) by auto
  with Cons.IH [OF g(2)] have r: "runs_of f (gs @ [[t]]) (ys @ [t])" by blast
  have "f (hd (ys @ [t])) \<noteq> f (hd g)"
  proof (cases "ys = []")
    case True
    with Cons.prems(2) g(1,3) uniform_last [OF g(4,3)] show ?thesis by auto
  qed (use g(5) in simp)
  with r g show ?case by simp
qed simp

lemma runs_of_extend: "runs_of f (gs @ [g]) xs \<Longrightarrow> f t = f (last xs) \<Longrightarrow> runs_of f (gs @ [g @ [t]]) (xs @ [t])"
proof (induction gs arbitrary: xs)
  case Nil
  then have g: "xs = g" "g \<noteq> []" "uniform f g" by auto
  with Nil uniform_last [OF g(3,2)] show ?case by (simp add: uniform_snoc)
next
  case (Cons h gs)
  then obtain ys where h: "xs = h @ ys" "runs_of f (gs @ [g]) ys" "h \<noteq> []" "uniform f h" "ys \<noteq> [] \<longrightarrow> f (hd ys) \<noteq> f (hd h)" by auto
  have ys: "ys \<noteq> []" using runs_of_last [OF h(2)] by blast
  with Cons.prems(2) h(1) have "f t = f (last ys)" by simp
  from Cons.IH [OF h(2) this] ys h show ?case by simp
qed

lemma runs_of_unique: "runs_of f gs xs \<Longrightarrow> runs_of f hs xs \<Longrightarrow> gs = hs"
proof (induction gs arbitrary: hs xs)
  case Nil
  then show ?case by (cases hs) auto
next
  case (Cons g gs)
  from Cons.prems(1) obtain ys where g: "xs = g @ ys" "runs_of f gs ys" "g \<noteq> []" "uniform f g" "ys \<noteq> [] \<longrightarrow> f (hd ys) \<noteq> f (hd g)"
    by auto
  with Cons.prems(2) obtain h hs' where hs: "hs = h # hs'" by (cases hs) auto
  with Cons.prems(2) obtain zs where h: "xs = h @ zs" "runs_of f hs' zs" "h \<noteq> []" "uniform f h" "zs \<noteq> [] \<longrightarrow> f (hd zs) \<noteq> f (hd h)"
    by auto
  have same: "hd g = hd h" using g(1,3) h(1,3) by (metis hd_append2)
  from g(1) h(1) have "g @ ys = h @ zs" by simp
  then consider us where "g = h @ us" "zs = us @ ys" | us where "h = g @ us" "ys = us @ zs"
    by (auto simp: append_eq_append_conv2)
  then have "g = h \<and> ys = zs"
  proof cases
    case 1
    have "us = []"
    proof (rule ccontr)
      assume "us \<noteq> []"
      with 1 uniformD [OF g(4), of "hd us"] h(5) same show False by simp
    qed
    with 1 show ?thesis by simp
  next
    case 2
    have "us = []"
    proof (rule ccontr)
      assume "us \<noteq> []"
      with 2 uniformD [OF h(4), of "hd us"] g(5) same show False by simp
    qed
    with 2 show ?thesis by simp
  qed
  with Cons.IH [of ys hs'] g(2) h(2) hs show ?case by simp
qed

context partition
begin

lemma runs_ordered:
  "runs_of (\<lambda>t. bounds (key t)) gs xs \<Longrightarrow> sorted (map key xs) \<Longrightarrow> \<forall>t\<in>set xs. \<exists>b. bounds (key t) = Inr b \<Longrightarrow>
   sorted_wrt (\<lambda>g h. snd (projr (bounds (key (hd g)))) \<le> fst (projr (bounds (key (hd h))))) gs"
proof (induction gs arbitrary: xs)
  case (Cons g gs)
  then obtain ys where g: "xs = g @ ys" "runs_of (\<lambda>t. bounds (key t)) gs ys" "g \<noteq> []"
    "ys \<noteq> [] \<longrightarrow> bounds (key (hd ys)) \<noteq> bounds (key (hd g))" by auto
  have IH: "sorted_wrt (\<lambda>g h. snd (projr (bounds (key (hd g)))) \<le> fst (projr (bounds (key (hd h))))) gs"
    using Cons.IH [OF g(2)] Cons.prems(2,3) g(1) by (simp add: sorted_append)
  have first: "snd (projr (bounds (key (hd g)))) \<le> fst (projr (bounds (key (hd h))))" if h: "gs = h # hs" for h hs
  proof -
    from g(2) h obtain zs where "ys = h @ zs" "h \<noteq> []" by auto
    then have hd: "hd ys = hd h" "ys \<noteq> []" by auto
    have mem: "hd g \<in> set xs" "hd ys \<in> set xs" using g(1,3) hd(2) by (auto intro!: hd_in_set)
    then obtain a b where ab: "bounds (key (hd g)) = Inr a" "bounds (key (hd ys)) = Inr b" using Cons.prems(3) by meson
    have "key (hd g) \<le> key (hd ys)" using Cons.prems(2) g(1,3) hd(2) by (auto simp: sorted_append)
    then show ?thesis using ordered [of "key (hd g)" "fst a" "snd a" "key (hd ys)" "fst b" "snd b"] ab g(4) hd by auto
  qed
  have "snd (projr (bounds (key (hd g)))) \<le> fst (projr (bounds (key (hd h))))" if "h \<in> set gs" for h
  proof (cases gs)
    case (Cons k ks)
    show ?thesis
    proof (cases "h = k")
      case False
      with Cons that IH have "snd (projr (bounds (key (hd k)))) \<le> fst (projr (bounds (key (hd h))))" by auto
      moreover have "fst (projr (bounds (key (hd k)))) \<le> snd (projr (bounds (key (hd k))))"
      proof -
        from runs_of_members [OF g(2), of k] Cons g(1) have "hd k \<in> set xs" by (auto dest: hd_in_set)
        then obtain b where "bounds (key (hd k)) = Inr b" using \<open>\<forall>t\<in>set xs. \<exists>b. bounds (key t) = Inr b\<close> by blast
        with contains [of "key (hd k)" "fst b" "snd b"] show ?thesis by simp
      qed
      ultimately show ?thesis using first [OF Cons] by linarith
    qed (use first [OF Cons] in simp)
  qed (use that in simp)
  with IH show ?case by simp
qed simp

end

section \<open>Bars\<close>

text \<open>The bar of a run of trades.\<close>

definition bar_of :: "calendar \<Rightarrow> Interval \<Rightarrow> int \<Rightarrow> KnownGap list \<Rightarrow> int \<times> int \<Rightarrow> Trade list \<Rightarrow> Bar" where
  "bar_of c interval coverage_end_ns known_gaps = (\<lambda>(s, e) g.
     let prices = tr_price_atoms ` set g;
         flags = map fst (filter snd [(''INCOMPLETE_COVERAGE'', coverage_end_ns < e),
           (''KNOWN_GAP'', \<exists>gap\<in>set known_gaps. kg_start_ns gap < e \<and> s < kg_end_ns gap), (''SESSION_HALT'', halt_overlaps c s e)])
     in \<lparr>bar_interval = iv_name interval, bar_start_ns = s, bar_end_ns = e, bar_open_atoms = tr_price_atoms (hd g),
         bar_high_atoms = Max prices, bar_low_atoms = Min prices, bar_close_atoms = tr_price_atoms (last g),
         bar_base_volume_atoms = sum_list (map tr_qty_atoms g), bar_trade_count = int (length g),
         bar_complete = (flags = []), bar_quality_flags = flags\<rparr>)"

definition mutable_of :: "int \<times> int \<Rightarrow> Trade list \<Rightarrow> MutableBar" where
  "mutable_of = (\<lambda>(s, e) g. \<lparr>mb_start_ns = s, mb_end_ns = e, mb_open_atoms = tr_price_atoms (hd g),
     mb_high_atoms = Max (tr_price_atoms ` set g), mb_low_atoms = Min (tr_price_atoms ` set g), mb_close_atoms = tr_price_atoms (last g),
     mb_base_volume_atoms = sum_list (map tr_qty_atoms g), mb_trade_count = int (length g)\<rparr>)"

lemma finish_mutable: "finish_bar c iv cov gaps (mutable_of b g) = bar_of c iv cov gaps b g"
  by (cases b) (simp add: finish_bar_def mutable_of_def bar_of_def quality_flags_def Let_def overlaps_def list_ex_iff)

lemma from_trade_mutable: "from_trade s e t = mutable_of (s, e) [t]"
  by (simp add: from_trade_def mutable_of_def)

lemma add_trade_mutable: "g \<noteq> [] \<Longrightarrow> add_trade t (mutable_of b g) = mutable_of b (g @ [t])"
  by (cases b) (simp add: add_trade_def mutable_of_def Max_insert Min_insert max.commute min.commute)

definition trade_bucket :: "zones \<Rightarrow> calendar \<Rightarrow> Interval \<Rightarrow> Trade \<Rightarrow> (int \<times> int) res" where
  "trade_bucket zones c iv t = bucket_bounds zones c (tr_ts_event_ns t) iv"

abbreviation group_bucket :: "zones \<Rightarrow> calendar \<Rightarrow> Interval \<Rightarrow> Trade list \<Rightarrow> int \<times> int" where
  "group_bucket zones c iv g \<equiv> projr (trade_bucket zones c iv (hd g))"

lemma mutable_bounds [simp]: "mb_start_ns (mutable_of (s, e) g) = s" "mb_end_ns (mutable_of (s, e) g) = e"
  by (simp_all add: mutable_of_def)

lemma aggregate_step_run:
  assumes gs: "runs_of (trade_bucket zones c iv) gs ts" and ok: "\<forall>t\<in>set ts. \<exists>b. trade_bucket zones c iv t = Inr b"
    and b: "trade_bucket zones c iv t = Inr b"
    and le: "\<forall>u\<in>set ts. tr_ts_event_ns u \<le> tr_ts_event_ns t"
  shows "\<exists>hs. runs_of (trade_bucket zones c iv) hs (ts @ [t]) \<and>
    aggregate_step zones c iv (map (\<lambda>g. mutable_of (group_bucket zones c iv g) g) gs, if ts = [] then None else Some (tr_ts_event_ns (last ts))) t =
      Inr (map (\<lambda>g. mutable_of (group_bucket zones c iv g) g) hs, Some (tr_ts_event_ns t))"
proof -
  let ?m = "\<lambda>g. mutable_of (group_bucket zones c iv g) g" and ?f = "trade_bucket zones c iv"
  obtain s e where se: "b = (s, e)" by (cases b)
  have time: "require (\<not> (case if ts = [] then None else Some (tr_ts_event_ns (last ts)) of None \<Rightarrow> False | Some p \<Rightarrow> tr_ts_event_ns t < p)) ValueError = Inr ()"
    using le by (auto simp: not_less)
  have bb: "bucket_bounds zones c (tr_ts_event_ns t) iv = Inr (s, e)" using b se by (simp add: trade_bucket_def)
  show ?thesis
  proof (cases gs rule: rev_cases)
    case Nil
    then have "ts = []" using gs by simp
    then show ?thesis using Nil time bb b se
      by (intro exI [of _ "[[t]]"]) (simp add: aggregate_step_def from_trade_mutable)
  next
    case (snoc gs' g)
    note last = runs_of_last [OF gs [unfolded snoc]]
    then obtain b' where b': "?f (last ts) = Inr b'" using ok last_in_set by blast
    with last uniform_last [of ?f g] have hd: "?f (hd g) = Inr b'" by simp
    show ?thesis
    proof (cases "b' = b")
      case True
      have run: "runs_of ?f (gs' @ [g @ [t]]) (ts @ [t])"
        by (rule runs_of_extend [OF gs [unfolded snoc]]) (simp add: b b' True)
      show ?thesis
        by (rule exI [of _ "gs' @ [g @ [t]]"], rule conjI [OF run])
          (use time bb True hd se last add_trade_mutable [of g t b] in \<open>simp add: aggregate_step_def snoc\<close>)
    next
      case False
      have run: "runs_of ?f (gs @ [[t]]) (ts @ [t])"
        by (rule runs_of_new [OF gs]) (simp add: b b' False)
      show ?thesis
        by (rule exI [of _ "gs @ [[t]]"], rule conjI [OF run])
          (use time bb b False hd se in \<open>cases b', simp add: aggregate_step_def snoc from_trade_mutable\<close>)
    qed
  qed
qed

lemma aggregate_fold:
  "sorted (map tr_ts_event_ns ts) \<Longrightarrow> \<forall>t\<in>set ts. \<exists>b. trade_bucket zones c iv t = Inr b \<Longrightarrow>
   \<exists>gs. runs_of (trade_bucket zones c iv) gs ts \<and> foldR (aggregate_step zones c iv) ([], None) ts =
     Inr (map (\<lambda>g. mutable_of (group_bucket zones c iv g) g) gs, if ts = [] then None else Some (tr_ts_event_ns (last ts)))"
proof (induction ts rule: rev_induct)
  case Nil
  show ?case by (rule exI [of _ "[]"]) simp
next
  case (snoc t ts)
  from snoc.prems have s: "sorted (map tr_ts_event_ns ts)" "\<forall>t\<in>set ts. \<exists>b. trade_bucket zones c iv t = Inr b"
    and le: "\<forall>u\<in>set ts. tr_ts_event_ns u \<le> tr_ts_event_ns t" by (auto simp: sorted_append)
  from snoc.IH [OF s] obtain gs where gs: "runs_of (trade_bucket zones c iv) gs ts"
    "foldR (aggregate_step zones c iv) ([], None) ts =
      Inr (map (\<lambda>g. mutable_of (group_bucket zones c iv g) g) gs, if ts = [] then None else Some (tr_ts_event_ns (last ts)))" by blast
  from snoc.prems(2) obtain b where "trade_bucket zones c iv t = Inr b" by auto
  from aggregate_step_run [OF gs(1) s(2) this le] gs(2) show ?case by (auto simp: foldR_append)
qed

lemma aggregate_fold_ok:
  "foldR (aggregate_step zones c iv) (bars, p) ts = Inr r \<Longrightarrow>
   sorted (map tr_ts_event_ns ts) \<and> (\<forall>t\<in>set ts. \<exists>b. trade_bucket zones c iv t = Inr b) \<and>
   (\<forall>q. p = Some q \<longrightarrow> (\<forall>t\<in>set ts. q \<le> tr_ts_event_ns t))"
proof (induction ts arbitrary: bars p)
  case (Cons t ts)
  then obtain bars' where t: "aggregate_step zones c iv (bars, p) t = Inr (bars', Some (tr_ts_event_ns t))"
    and rest: "foldR (aggregate_step zones c iv) (bars', Some (tr_ts_event_ns t)) ts = Inr r"
    by (auto simp: aggregate_step_def)
  from t have "\<exists>b. trade_bucket zones c iv t = Inr b" "\<forall>q. p = Some q \<longrightarrow> q \<le> tr_ts_event_ns t"
    by (auto simp: aggregate_step_def trade_bucket_def)
  with Cons.IH [OF rest] show ?case by fastforce
qed simp

lemma aggregate_trades_Inr:
  assumes "aggregate_trades zones trades name c coverage_end_ns known_gaps = Inr bars"
  shows "\<exists>interval groups. parse_interval name = Inr interval \<and> sorted (map tr_ts_event_ns trades) \<and>
      (\<forall>t\<in>set trades. \<exists>b. trade_bucket zones c interval t = Inr b) \<and>
      runs_of (trade_bucket zones c interval) groups trades \<and>
      bars = map (\<lambda>g. bar_of c interval coverage_end_ns known_gaps (group_bucket zones c interval g) g) groups"
proof -
  from assms obtain interval ms p where iv: "parse_interval name = Inr interval"
    and f: "foldR (aggregate_step zones c interval) ([], None) trades = Inr (ms, p)"
    and bars: "bars = map (finish_bar c interval coverage_end_ns known_gaps) ms" by (auto simp: aggregate_trades_def)
  from aggregate_fold_ok [OF f] have ok: "sorted (map tr_ts_event_ns trades)" "\<forall>t\<in>set trades. \<exists>b. trade_bucket zones c interval t = Inr b" by auto
  from aggregate_fold [OF ok] f obtain gs where "runs_of (trade_bucket zones c interval) gs trades"
    "ms = map (\<lambda>g. mutable_of (group_bucket zones c interval g) g) gs" by auto
  with iv ok bars show ?thesis by (auto simp: finish_mutable)
qed

text \<open>C36: the bars are the runs of the trades. Aggregation succeeds exactly when the interval is known, the trades are in
  time order and every trade lies in a bucket; the bars are then those of the maximal runs of trades with the same bucket,
  in order: open and close are the first and the last price, high and low the extreme prices, volume and count the totals,
  and a bar is complete unless it reaches past the coverage, meets a known gap or meets a halt. No trade is lost or
  counted twice and no bar is made up.\<close>

theorem bars_are_runs:
  "aggregate_trades zones trades name c coverage_end_ns known_gaps = Inr bars \<longleftrightarrow>
   (\<exists>interval groups. parse_interval name = Inr interval \<and> sorted (map tr_ts_event_ns trades) \<and>
      (\<forall>t\<in>set trades. \<exists>b. trade_bucket zones c interval t = Inr b) \<and>
      runs_of (trade_bucket zones c interval) groups trades \<and>
      bars = map (\<lambda>g. bar_of c interval coverage_end_ns known_gaps (projr (trade_bucket zones c interval (hd g))) g) groups)"
    (is "?l \<longleftrightarrow> ?r")
proof
  assume ?l
  from aggregate_trades_Inr [OF this] show ?r .
next
  assume ?r
  then obtain interval groups where iv: "parse_interval name = Inr interval"
    and ok: "sorted (map tr_ts_event_ns trades)" "\<forall>t\<in>set trades. \<exists>b. trade_bucket zones c interval t = Inr b"
    and g: "runs_of (trade_bucket zones c interval) groups trades"
      "bars = map (\<lambda>g. bar_of c interval coverage_end_ns known_gaps (group_bucket zones c interval g) g) groups" by blast
  from aggregate_fold [OF ok] obtain gs where gs: "runs_of (trade_bucket zones c interval) gs trades"
    and f: "foldR (aggregate_step zones c interval) ([], None) trades = Inr (map (\<lambda>g. mutable_of (group_bucket zones c interval g) g) gs,
       if trades = [] then None else Some (tr_ts_event_ns (last trades)))" by blast
  have "gs = groups" by (rule runs_of_unique [OF gs g(1)])
  with iv f g(2) show ?l by (simp add: aggregate_trades_def finish_mutable comp_def)
qed

text \<open>On the continuous calendar the bars come in time order and do not overlap: each ends before the next begins, so
  no bucket is split into two bars, and every trade of a bar lies between its bounds.\<close>

theorem crypto_bars_disjoint:
  assumes "aggregate_trades zones trades name CryptoUtcCalendar coverage_end_ns known_gaps = Inr bars"
  shows "sorted_wrt (\<lambda>a b. bar_end_ns a \<le> bar_start_ns b) bars \<and>
    (\<exists>groups. concat groups = trades \<and>
       list_all2 (\<lambda>g b. g \<noteq> [] \<and> (\<forall>t\<in>set g. bar_start_ns b \<le> tr_ts_event_ns t \<and> tr_ts_event_ns t < bar_end_ns b)) groups bars)"
proof -
  from aggregate_trades_Inr [OF assms] obtain iv gs where iv: "parse_interval name = Inr iv"
    and ok: "sorted (map tr_ts_event_ns trades)" "\<forall>t\<in>set trades. \<exists>b. trade_bucket zones CryptoUtcCalendar iv t = Inr b"
    and gs: "runs_of (trade_bucket zones CryptoUtcCalendar iv) gs trades"
    and bars: "bars = map (\<lambda>g. bar_of CryptoUtcCalendar iv coverage_end_ns known_gaps (group_bucket zones CryptoUtcCalendar iv g) g) gs"
    by blast
  have f: "trade_bucket zones CryptoUtcCalendar iv = (\<lambda>t. crypto_bounds name (tr_ts_event_ns t))"
    by (simp add: fun_eq_iff trade_bucket_def bucket_bounds_def crypto_bounds_def iv)
  have bounds: "bar_start_ns (bar_of c iv co ga b g) = fst b" "bar_end_ns (bar_of c iv co ga b g) = snd b" for c co ga b g
    by (simp_all add: bar_of_def Let_def split_beta)
  have "sorted_wrt (\<lambda>a b. bar_end_ns a \<le> bar_start_ns b) bars"
    using crypto.runs_ordered [OF gs [unfolded f] ok(1)] ok(2) by (simp add: bars sorted_wrt_map bounds f)
  moreover have "list_all2 (\<lambda>g b. g \<noteq> [] \<and> (\<forall>t\<in>set g. bar_start_ns b \<le> tr_ts_event_ns t \<and> tr_ts_event_ns t < bar_end_ns b)) gs bars"
    unfolding bars list_all2_map2 list_all2_same
  proof
    fix g assume "g \<in> set gs"
    with runs_of_members [OF gs] have g: "g \<noteq> []" "uniform (trade_bucket zones CryptoUtcCalendar iv) g" "set g \<subseteq> set trades" by auto
    from g(1,3) ok(2) obtain b where b: "trade_bucket zones CryptoUtcCalendar iv (hd g) = Inr b" by (meson hd_in_set subsetD)
    have "fst b \<le> tr_ts_event_ns t \<and> tr_ts_event_ns t < snd b" if "t \<in> set g" for t
    proof -
      have "crypto_bounds name (tr_ts_event_ns t) = Inr (fst b, snd b)"
        using uniformD [OF g(2) that] b by (simp add: f)
      then show ?thesis by (rule crypto.contains)
    qed
    with g(1) b show "g \<noteq> [] \<and> (\<forall>t\<in>set g. bar_start_ns (bar_of CryptoUtcCalendar iv coverage_end_ns known_gaps (group_bucket zones CryptoUtcCalendar iv g) g) \<le> tr_ts_event_ns t \<and>
       tr_ts_event_ns t < bar_end_ns (bar_of CryptoUtcCalendar iv coverage_end_ns known_gaps (group_bucket zones CryptoUtcCalendar iv g) g))" by (simp add: bounds)
  qed
  ultimately show ?thesis using runs_of_concat [OF gs] by blast
qed

text \<open>A bucket of a session calendar of fixed length, or of a day, lies within the trading session of its time and
  contains that time; a bucket never runs over the close into the next session.\<close>

theorem session_bucket_in_session:
  assumes "parse_interval name = Inr interval" and "name \<notin> {''1w'', ''1mo''}"
    and "session_bucket_bounds zones c ts interval = Inr (s, e)"
  shows "\<exists>w. session_for_ns zones c ts = Inr (Some w) \<and> sw_start_ns w \<le> s \<and> s \<le> ts \<and> ts < e \<and> e \<le> sw_end_ns w"
proof -
  have "session_bounds zones c name ts = Inr (s, e)" using assms by (simp add: session_bounds_def)
  then have ts: "s \<le> ts \<and> ts < e" by (rule session.contains)
  from assms(3) obtain w where w: "session_for_ns zones c ts = Inr (Some w)" by (auto simp: session_bucket_bounds_def split: option.splits)
  then have c: "sw_start_ns w \<le> ts"
    using first_session_contains by (auto simp: session_for_ns_def Let_def window_contains_def simp del: first_session.simps)
  from assms(1) have "sw_start_ns w \<le> s \<and> e \<le> sw_end_ns w"
  proof (cases rule: parsed_interval)
    case (fixed f)
    with c have "0 \<le> (ts - sw_start_ns w) div f * f" by (simp add: pos_imp_zdiv_nonneg_iff)
    with assms(3) w fixed show ?thesis by (auto simp: session_bucket_bounds_def Let_def)
  next
    case calendar
    with assms(1,2) have "iv_calendar_unit interval = Some ''day''"
      by (auto simp: parse_interval_def split: if_splits option.splits)
    with assms(3) w calendar show ?thesis by (auto simp: session_bucket_bounds_def)
  qed
  with w ts show ?thesis by blast
qed

text \<open>Two trades in one minute and one in the next make two bars.\<close>

definition demo_trades :: "Trade list" where
  "demo_trades = [\<lparr>tr_ts_event_ns = 1, tr_price_atoms = 5, tr_qty_atoms = 2\<rparr>, \<lparr>tr_ts_event_ns = 7, tr_price_atoms = 4, tr_qty_atoms = 1\<rparr>,
     \<lparr>tr_ts_event_ns = 60000000000, tr_price_atoms = 9, tr_qty_atoms = 3\<rparr>]"

lemma demo_bars: "aggregate_trades (\<lambda>_. Inl ValueError) demo_trades ''1m'' CryptoUtcCalendar 120000000000 [] =
      Inr [\<lparr>bar_interval = ''1m'', bar_start_ns = 0, bar_end_ns = 60000000000, bar_open_atoms = 5, bar_high_atoms = 5, bar_low_atoms = 4,
           bar_close_atoms = 4, bar_base_volume_atoms = 3, bar_trade_count = 2, bar_complete = True, bar_quality_flags = []\<rparr>,
           \<lparr>bar_interval = ''1m'', bar_start_ns = 60000000000, bar_end_ns = 120000000000, bar_open_atoms = 9, bar_high_atoms = 9, bar_low_atoms = 9,
           bar_close_atoms = 9, bar_base_volume_atoms = 3, bar_trade_count = 1, bar_complete = True, bar_quality_flags = []\<rparr>]"
  by code_simp

theorem crypto_bars_disjoint_witness:
  "\<exists>a b. aggregate_trades (\<lambda>_. Inl ValueError) demo_trades ''1m'' CryptoUtcCalendar 120000000000 [] = Inr [a, b] \<and>
     bar_end_ns a \<le> bar_start_ns b \<and> bar_base_volume_atoms a = 3 \<and> bar_low_atoms a = 4 \<and> bar_complete b"
  using crypto_bars_disjoint [OF demo_bars] demo_bars by simp

theorem bars_are_runs_witness:
  "\<exists>interval groups. parse_interval ''1m'' = Inr interval \<and>
     runs_of (trade_bucket (\<lambda>_. Inl ValueError) CryptoUtcCalendar interval) groups demo_trades \<and> length groups = 2"
proof -
  obtain bars where b: "aggregate_trades (\<lambda>_. Inl ValueError) demo_trades ''1m'' CryptoUtcCalendar 120000000000 [] = Inr bars" "length bars = 2"
    using demo_bars by simp
  from iffD1 [OF bars_are_runs b(1)] b(2) show ?thesis by (elim exE conjE) auto
qed

text \<open>A session of every day from 9:30 to 16:00 in a zone four hours behind UTC.\<close>

definition demo_zones :: zones where
  "demo_zones = (\<lambda>_. Inr \<lparr>z_local = (\<lambda>u. u - 14400000000), z_offset = (\<lambda>_. - 14400000000)\<rparr>)"

definition demo_calendar :: SessionCalendar where
  "demo_calendar = \<lparr>sc_zone_key = ''America/New_York'', sc_open_time = 34200000000, sc_close_time = 57600000000,
     sc_weekdays = {0, 1, 2, 3, 4, 5, 6}, sc_holidays = {}, sc_halts = []\<rparr>"

theorem session_bucket_in_session_witness:
  "\<exists>w. session_for_ns demo_zones demo_calendar 50000000000000 = Inr (Some w) \<and> sw_start_ns w \<le> 48600000000000 \<and> 52200000000000 \<le> sw_end_ns w"
proof -
  have "session_bucket_bounds demo_zones demo_calendar 50000000000000 \<lparr>iv_name = ''1h'', iv_fixed_ns = Some 3600000000000, iv_calendar_unit = None\<rparr> =
      Inr (48600000000000, 52200000000000)" by code_simp
  moreover have "parse_interval ''1h'' = Inr \<lparr>iv_name = ''1h'', iv_fixed_ns = Some 3600000000000, iv_calendar_unit = None\<rparr>" by code_simp
  ultimately show ?thesis using session_bucket_in_session [of "''1h''"] by blast
qed

end
