(* ===== verification/Secrets.thy ===== *)
theory Secrets
  imports Strings Commitments
begin

text \<open>
  Principal-scoped provider credentials, \<^verbatim>\<open>secrets/\<close>: the vault, the entitlement cache and the redaction of headers.
  The cipher \<^verbatim>\<open>AESGCM(master_key)\<close> is the parameter \<open>aead\<close>, the nonce of a \<^verbatim>\<open>put\<close> an argument. \<^verbatim>\<open>redact_url\<close>
  rests on the URL parser of the library and is left out.
\<close>

section \<open>Vault\<close>

text \<open>A secret shows itself only through \<^verbatim>\<open>reveal\<close>.\<close>

datatype SecretValue = SecretValue (reveal: string)

definition SecretValue_str :: "SecretValue \<Rightarrow> string" where
  "SecretValue_str s = ''<redacted>''"

definition SecretValue_repr :: "SecretValue \<Rightarrow> string" where
  "SecretValue_repr s = ''SecretValue(<redacted>)''"

type_synonym identity = "string \<times> string \<times> string"

record CredentialMetadata =
  cm_principal_id :: string
  cm_provider :: string
  cm_name :: string

record EncryptedCredential =
  ec_metadata :: CredentialMetadata
  ec_nonce :: bytes
  ec_ciphertext :: bytes

type_synonym credential_records = "(identity \<times> EncryptedCredential) list"

record CredentialVault =
  cv_aead :: aead
  cv_records :: credential_records

definition CredentialVault_init :: "(bytes \<Rightarrow> aead) \<Rightarrow> bytes \<Rightarrow> CredentialVault res" where
  "CredentialVault_init AESGCM master_key =
     bindR (require (length master_key = 32) ValueError) (\<lambda>_. Inr \<lparr>cv_aead = AESGCM master_key, cv_records = []\<rparr>)"

definition identity_of :: "string \<Rightarrow> string \<Rightarrow> string \<Rightarrow> identity res" where
  "identity_of principal_id provider name =
     (let identity = (strip principal_id, lower (strip provider), strip name) in
      bindR (require (strip principal_id \<noteq> [] \<and> lower (strip provider) \<noteq> [] \<and> strip name \<noteq> []) ValueError) (\<lambda>_. Inr identity))"

definition identity_aad :: "identity \<Rightarrow> bytes" where
  "identity_aad = (\<lambda>(principal_id, provider, name).
     utf8 (principal_id @ [char_of (0 :: nat)] @ provider @ [char_of (0 :: nat)] @ name))"

definition metadata_of :: "identity \<Rightarrow> CredentialMetadata" where
  "metadata_of = (\<lambda>(principal_id, provider, name).
     \<lparr>cm_principal_id = principal_id, cm_provider = provider, cm_name = name\<rparr>)"

definition vault_put ::
    "bytes \<Rightarrow> string \<Rightarrow> string \<Rightarrow> string \<Rightarrow> string \<Rightarrow> CredentialVault \<Rightarrow> (CredentialMetadata \<times> CredentialVault) res" where
  "vault_put nonce principal_id provider name secret v =
     bindR (identity_of principal_id provider name) (\<lambda>identity.
     bindR (require (secret \<noteq> []) ValueError) (\<lambda>_.
     let ciphertext = aead_encrypt (cv_aead v) nonce (utf8 secret) (identity_aad identity);
         metadata = metadata_of identity
     in Inr (metadata, v\<lparr>cv_records := AList.update identity
          \<lparr>ec_metadata = metadata, ec_nonce = nonce, ec_ciphertext = ciphertext\<rparr> (cv_records v)\<rparr>)))"

definition vault_get :: "CredentialVault \<Rightarrow> string \<Rightarrow> string \<Rightarrow> string \<Rightarrow> SecretValue res" where
  "vault_get v principal_id provider name =
     bindR (identity_of principal_id provider name) (\<lambda>identity.
     case map_of (cv_records v) identity of
       None \<Rightarrow> Inl CredentialNotFound
     | Some record \<Rightarrow>
         bindR (aead_decrypt (cv_aead v) (ec_nonce record) (ec_ciphertext record) (identity_aad identity)) (\<lambda>plaintext.
         bindR (utf8_decode plaintext) (\<lambda>secret. Inr (SecretValue secret))))"

definition vault_delete :: "string \<Rightarrow> string \<Rightarrow> string \<Rightarrow> CredentialVault \<Rightarrow> CredentialVault res" where
  "vault_delete principal_id provider name v =
     bindR (identity_of principal_id provider name) (\<lambda>identity.
     bindR (require (map_of (cv_records v) identity \<noteq> None) CredentialNotFound) (\<lambda>_.
     Inr (v\<lparr>cv_records := AList.delete identity (cv_records v)\<rparr>)))"

definition list_metadata :: "CredentialVault \<Rightarrow> string \<Rightarrow> CredentialMetadata list" where
  "list_metadata v principal_id =
     sort_key (\<lambda>item. (cm_provider item, cm_name item))
       (map (\<lambda>(key, record). ec_metadata record) (filter (\<lambda>(key, record). fst key = principal_id) (cv_records v)))"

section \<open>Entitlements\<close>

record Entitlement =
  en_principal_id :: string
  en_provider :: string
  en_feed :: string
  en_capabilities :: "string set"

type_synonym EntitlementCache = "(identity \<times> Entitlement) list"

definition entitlement_put :: "Entitlement \<Rightarrow> EntitlementCache \<Rightarrow> EntitlementCache" where
  "entitlement_put e entries = AList.update (en_principal_id e, lower (en_provider e), en_feed e) e entries"

definition entitlement_get :: "EntitlementCache \<Rightarrow> string \<Rightarrow> string \<Rightarrow> string \<Rightarrow> Entitlement option" where
  "entitlement_get entries principal_id provider feed = map_of entries (principal_id, lower provider, feed)"

definition clear_principal :: "string \<Rightarrow> EntitlementCache \<Rightarrow> EntitlementCache" where
  "clear_principal principal_id entries = filter (\<lambda>(key, e). fst key \<noteq> principal_id) entries"

section \<open>Headers\<close>

definition SENSITIVE_HEADERS :: "string list" where
  "SENSITIVE_HEADERS = [''authorization'', ''cookie'', ''proxy-authorization'', ''set-cookie'', ''x-api-key'', ''x-auth-token'']"

definition redact_headers :: "(string \<times> string) list \<Rightarrow> (string \<times> string) list" where
  "redact_headers headers =
     map (\<lambda>(key, v). (key, if lower key \<in> set SENSITIVE_HEADERS then ''<redacted>'' else v)) headers"

end
