(* ===== verification/Secret_Theorems.thy ===== *)
theory Secret_Theorems
  imports Secrets Commitment_Theorems
begin

text \<open>
  The vault is a map from identities to secrets: whatever calls principals make, a read returns the last secret put under
  the very identity that asks. The entitlement cache and the redaction of headers keep principals and credentials apart.
\<close>

section \<open>Calls\<close>

datatype vault_call =
    Put bytes string string string string
  | Delete string string string

fun vault_do :: "vault_call \<Rightarrow> CredentialVault \<Rightarrow> CredentialVault" where
  "vault_do (Put nonce p provider name secret) v = (case vault_put nonce p provider name secret v of Inl _ \<Rightarrow> v | Inr (_, v') \<Rightarrow> v')"
| "vault_do (Delete p provider name) v = (case vault_delete p provider name v of Inl _ \<Rightarrow> v | Inr v' \<Rightarrow> v')"

text \<open>The same on a map from identities to secrets.\<close>

fun map_do :: "vault_call \<Rightarrow> (identity \<rightharpoonup> string) \<Rightarrow> (identity \<rightharpoonup> string)" where
  "map_do (Put nonce p provider name secret) m =
     (case identity_of p provider name of Inl _ \<Rightarrow> m | Inr i \<Rightarrow> if secret = [] then m else m(i \<mapsto> secret))"
| "map_do (Delete p provider name) m = (case identity_of p provider name of Inl _ \<Rightarrow> m | Inr i \<Rightarrow> m(i := None))"

fun nonce_ok :: "vault_call \<Rightarrow> bool" where
  "nonce_ok (Put nonce p provider name secret) = (length nonce = 12)"
| "nonce_ok (Delete p provider name) = True"

definition entry_ok :: "aead \<Rightarrow> identity \<Rightarrow> EncryptedCredential option \<Rightarrow> string option \<Rightarrow> bool" where
  "entry_ok c i stored secret \<longleftrightarrow> (case (stored, secret) of
     (None, None) \<Rightarrow> True
   | (Some r, Some s) \<Rightarrow> ec_metadata r = metadata_of i \<and> aead_decrypt c (ec_nonce r) (ec_ciphertext r) (identity_aad i) = Inr (utf8 s)
   | _ \<Rightarrow> False)"

lemma entry_ok_simps [simp]:
  "entry_ok c i None secret \<longleftrightarrow> secret = None" "entry_ok c i stored None \<longleftrightarrow> stored = None"
  "entry_ok c i (Some r) (Some s) \<longleftrightarrow>
     ec_metadata r = metadata_of i \<and> aead_decrypt c (ec_nonce r) (ec_ciphertext r) (identity_aad i) = Inr (utf8 s)"
  by (auto simp: entry_ok_def split: option.splits)

definition holds :: "CredentialVault \<Rightarrow> (identity \<rightharpoonup> string) \<Rightarrow> bool" where
  "holds v m \<longleftrightarrow> distinct (map fst (cv_records v)) \<and> (\<forall>i. entry_ok (cv_aead v) i (map_of (cv_records v) i) (m i))"

lemma holds_do:
  assumes "holds v m" and "aead_ok (cv_aead v)" and "nonce_ok call"
  shows "holds (vault_do call v) (map_do call m) \<and> cv_aead (vault_do call v) = cv_aead v"
proof (cases call)
  case (Put nonce p provider name secret)
  show ?thesis
  proof (cases "identity_of p provider name")
    case (Inr i)
    with assms Put show ?thesis by (auto simp: vault_put_def holds_def distinct_update aead_ok_def Let_def require_def)
  qed (use assms(1) Put in \<open>simp add: vault_put_def\<close>)
next
  case (Delete p provider name)
  show ?thesis
  proof (cases "identity_of p provider name")
    case (Inr i)
    show ?thesis
    proof (cases "map_of (cv_records v) i")
      case None
      with assms(1) have "m i = None" unfolding holds_def by (metis entry_ok_simps(1))
      then have "m(i := None) = m" by auto
      with assms(1) Delete Inr None show ?thesis by (simp add: vault_delete_def)
    next
      case Some
      then have v': "vault_do call v = v\<lparr>cv_records := AList.delete i (cv_records v)\<rparr>" using Delete Inr by (simp add: vault_delete_def)
      have m': "map_do call m = m(i := None)" using Delete Inr by simp
      show ?thesis using assms(1) unfolding v' m' by (auto simp: holds_def delete_conv' distinct_delete)
    qed
  qed (use assms(1) Delete in \<open>simp add: vault_delete_def\<close>)
qed

lemma holds_run:
  "holds v m \<Longrightarrow> aead_ok (cv_aead v) \<Longrightarrow> list_all nonce_ok calls \<Longrightarrow>
   holds (fold vault_do calls v) (fold map_do calls m) \<and> cv_aead (fold vault_do calls v) = cv_aead v"
proof (induction calls arbitrary: v m)
  case (Cons call calls)
  have "holds (vault_do call v) (map_do call m)" "cv_aead (vault_do call v) = cv_aead v"
    using holds_do [of v m call] Cons.prems by auto
  with Cons.IH [of "vault_do call v" "map_do call m"] Cons.prems(2,3) show ?case by simp
qed simp

lemma holds_get:
  assumes "holds v m"
  shows "vault_get v p provider name = bindR (identity_of p provider name) (\<lambda>i.
     case m i of None \<Rightarrow> Inl CredentialNotFound | Some secret \<Rightarrow> Inr (SecretValue secret))"
proof (cases "identity_of p provider name")
  case (Inr i)
  have "entry_ok (cv_aead v) i (map_of (cv_records v) i) (m i)" using assms unfolding holds_def by blast
  with Inr show ?thesis by (cases "map_of (cv_records v) i"; cases "m i") (simp_all add: vault_get_def)
qed (simp add: vault_get_def)

lemma metadata_of_inj: "metadata_of i = metadata_of j \<longleftrightarrow> i = j"
  by (cases i; cases j) (auto simp: metadata_of_def)

lemma holds_list:
  assumes "holds v m"
  shows "set (list_metadata v p) = metadata_of ` {i \<in> dom m. fst i = p}" and "distinct (list_metadata v p)"
proof -
  have ok: "entry_ok (cv_aead v) i (map_of (cv_records v) i) (m i)" for i using assms unfolding holds_def by blast
  have dist: "distinct (map fst (cv_records v))" using assms by (simp add: holds_def)
  have meta: "ec_metadata r = metadata_of i" if "(i, r) \<in> set (cv_records v)" for i r
  proof -
    have "map_of (cv_records v) i = Some r" using that dist by simp
    with ok [of i] show ?thesis by (cases "m i") simp_all
  qed
  have "map_of (cv_records v) i = None \<longleftrightarrow> m i = None" for i using ok [of i] by (auto simp del: map_of_eq_None_iff)
  then have "dom (map_of (cv_records v)) = dom m" unfolding dom_def by (simp only:)
  then have keys: "fst ` set (cv_records v) = dom m" by (simp only: dom_map_of_conv_image_fst)
  show "set (list_metadata v p) = metadata_of ` {i \<in> dom m. fst i = p}"
    unfolding keys [symmetric] using meta by (force simp: list_metadata_def image_iff)
  have "map (\<lambda>(key, record). ec_metadata record) (filter (\<lambda>(key, record). fst key = p) (cv_records v)) =
      map metadata_of (filter (\<lambda>i. fst i = p) (map fst (cv_records v)))"
    unfolding filter_map map_map comp_def case_prod_beta' by (rule map_cong [OF refl]) (simp add: meta)
  moreover have "distinct \<dots>" using assms by (auto simp: distinct_map inj_on_def metadata_of_inj holds_def)
  ultimately show "distinct (list_metadata v p)" by (simp add: list_metadata_def)
qed

section \<open>Properties\<close>


text \<open>Clearing a principal forgets its entitlements and no others; a read returns what was put under its key.\<close>

lemma entitlement_isolation:
  "entitlement_get (entitlement_put e entries) p provider feed =
     (if (p, lower provider, feed) = (en_principal_id e, lower (en_provider e), en_feed e) then Some e
      else entitlement_get entries p provider feed)"
  "entitlement_get (clear_principal q entries) p provider feed = (if p = q then None else entitlement_get entries p provider feed)"
proof -
  show "entitlement_get (entitlement_put e entries) p provider feed =
     (if (p, lower provider, feed) = (en_principal_id e, lower (en_provider e), en_feed e) then Some e
      else entitlement_get entries p provider feed)"
    by (auto simp: entitlement_get_def entitlement_put_def)
  have "map_of (filter (\<lambda>(key, e). fst key \<noteq> q) entries) k = (if fst k = q then None else map_of entries k)" for k
    by (induction entries) auto
  then show "entitlement_get (clear_principal q entries) p provider feed = (if p = q then None else entitlement_get entries p provider feed)"
    by (simp add: entitlement_get_def clear_principal_def)
qed

text \<open>Redaction keeps the header names and no value of a credential-bearing header.\<close>

lemma redact_headers_safe:
  "map fst (redact_headers headers) = map fst headers"
  "(k, v) \<in> set (redact_headers headers) \<Longrightarrow> lower k \<in> set SENSITIVE_HEADERS \<Longrightarrow> v = ''<redacted>''"
  by (auto simp: redact_headers_def)

section \<open>Witnesses\<close>

definition demo_key :: bytes where
  "demo_key = replicate 32 0"

definition demo_calls :: "vault_call list" where
  "demo_calls = [Put (replicate 12 1) ''alice'' ''Tardis'' ''key'' ''s3cret'', Put (replicate 12 2) ''bob'' ''tardis'' ''key'' ''other'',
     Delete ''bob'' ''tardis'' ''key'']"


end
