(* ===== verification/Decimals.thy ===== *)
theory Decimals
  imports Text
begin

text \<open>
  \<^verbatim>\<open>decimal.Decimal\<close> as the provider adapters use it: reading a text, scaling by a power of ten under the default
  context (28 significant digits, exponents up to 999999, ties to even, an overflow raises), rounding to an integer and
  comparing. A finite decimal is a sign, a coefficient and an exponent; infinities and NaNs are \<open>Special\<close>.
\<close>

datatype decimal = Finite bool nat int | Special

section \<open>Reading a text\<close>

text \<open>Digits with at most one point among them and at least one digit, then perhaps an exponent; infinities and NaNs by
  name. White space around the text is dropped, and so are underscores, wherever they stand. A text that is none of this
  is an invalid operation, \<open>None\<close>, and so is an exponent that no context can represent.\<close>

definition split_at :: "(char \<Rightarrow> bool) \<Rightarrow> string \<Rightarrow> string \<times> string option" where
  "split_at p s = (takeWhile (\<lambda>c. \<not> p c) s,
     case dropWhile (\<lambda>c. \<not> p c) s of [] \<Rightarrow> None | _ # rest \<Rightarrow> Some rest)"

definition exponent_value :: "string \<Rightarrow> int option" where
  "exponent_value s =
     (let neg = startswith s ''-''; digits = (if neg \<or> startswith s ''+'' then tl s else s) in
      if digits \<noteq> [] \<and> list_all ascii_digit digits then Some ((if neg then - 1 else 1) * int (dec_val digits)) else None)"

definition digit_count :: "nat \<Rightarrow> nat" where
  "digit_count c = (if c = 0 then 0 else length (dec c))"

definition MAX_EMAX :: int where "MAX_EMAX = 999999999999999999"
definition MIN_ETINY :: int where "MIN_ETINY = - 1999999999999999997"

definition representable :: "nat \<Rightarrow> int \<Rightarrow> bool" where
  "representable c e \<longleftrightarrow> MIN_ETINY \<le> e \<and> e + (if c = 0 then 0 else int (digit_count c) - 1) \<le> MAX_EMAX"

definition number_value :: "bool \<Rightarrow> string \<Rightarrow> decimal option" where
  "number_value neg s =
     (let (mantissa, ex) = split_at (\<lambda>c. c = CHR ''e'' \<or> c = CHR ''E'') s;
          (whole, frac) = split_at (\<lambda>c. c = CHR ''.'') mantissa;
          fraction = (case frac of None \<Rightarrow> [] | Some f \<Rightarrow> f);
          digits = whole @ fraction
      in if digits = [] \<or> \<not> list_all ascii_digit digits then None
         else case (case ex of None \<Rightarrow> Some 0 | Some x \<Rightarrow> exponent_value x) of
             None \<Rightarrow> None
           | Some x \<Rightarrow>
               let c = dec_val digits; e = x - int (length fraction) in
               if representable c e then Some (Finite neg c e) else None)"

definition special_name :: "string \<Rightarrow> bool" where
  "special_name s \<longleftrightarrow> (let t = lower s in
     t = ''inf'' \<or> t = ''infinity'' \<or>
     (startswith t ''nan'' \<and> list_all ascii_digit (drop 3 t)) \<or> (startswith t ''snan'' \<and> list_all ascii_digit (drop 4 t)))"

definition decimal_of :: "string \<Rightarrow> decimal option" where
  "decimal_of text =
     (let s = filter (\<lambda>c. c \<noteq> CHR ''_'') (strip text);
          neg = startswith s ''-'';
          body = (if neg \<or> startswith s ''+'' then tl s else s)
      in if special_name body then Some Special else number_value neg body)"

section \<open>Rounding\<close>

definition round_half_even :: "nat \<Rightarrow> nat \<Rightarrow> nat" where
  "round_half_even c k =
     (let q = c div 10 ^ k; r = c mod 10 ^ k in
      if 2 * r > 10 ^ k \<or> 2 * r = 10 ^ k \<and> odd q then q + 1 else q)"

definition PREC :: int where "PREC = 28"
definition EMAX :: int where "EMAX = 999999"
definition ETINY :: int where "ETINY = - 1000026"

definition context_round :: "nat \<Rightarrow> int \<Rightarrow> (nat \<times> int) res" where
  "context_round c e =
     (if c = 0 then Inr (0, max ETINY (min EMAX e))
      else let e' = max (max e ETINY) (e + int (digit_count c) - PREC);
               c' = round_half_even c (nat (e' - e))
           in bindR (require (\<not> e' + int (digit_count c') - 1 > EMAX) DecimalOverflow) (\<lambda>_. Inr (c', e')))"

text \<open>\<^verbatim>\<open>decimal * (10**scale)\<close> and \<^verbatim>\<open>decimal.scaleb(scale)\<close>.\<close>

definition times_pow10 :: "nat \<Rightarrow> int \<Rightarrow> nat \<Rightarrow> (nat \<times> int) res" where
  "times_pow10 c e scale = context_round (c * 10 ^ scale) e"

definition scaleb :: "nat \<Rightarrow> int \<Rightarrow> nat \<Rightarrow> (nat \<times> int) res" where
  "scaleb c e scale = context_round c (e + int scale)"

text \<open>\<^verbatim>\<open>to_integral_value()\<close> of the magnitude, and whether it equals the value it was made from.\<close>

definition to_integral :: "nat \<Rightarrow> int \<Rightarrow> nat" where
  "to_integral c e = (if 0 \<le> e then c * 10 ^ nat e else round_half_even c (nat (- e)))"

definition integral_equal :: "nat \<Rightarrow> int \<Rightarrow> bool" where
  "integral_equal c e \<longleftrightarrow> (0 \<le> e \<or> to_integral c e * 10 ^ nat (- e) = c)"

text \<open>The two provider adapters share this: the integer of a scaled decimal, or the error the caller gives if the
  scaled value is no integer.\<close>

definition integer_of :: "bool \<Rightarrow> nat \<Rightarrow> int \<Rightarrow> exn \<Rightarrow> int res" where
  "integer_of neg c e error = bindR (require (integral_equal c e) error) (\<lambda>_.
     Inr ((if neg then - 1 else 1) * int (to_integral c e)))"

section \<open>Exactness\<close>

lemma round_half_even_exact: "round_half_even (q * 10 ^ k) k = q"
  by (simp add: round_half_even_def)

lemma integral_equal_iff: "e < 0 \<Longrightarrow> integral_equal c e \<longleftrightarrow> 10 ^ nat (- e) dvd c"
proof
  assume e: "e < 0"
  show "10 ^ nat (- e) dvd c" if "integral_equal c e"
    using that e unfolding integral_equal_def by (metis dvd_triv_right not_le)
  assume "10 ^ nat (- e) dvd c"
  then obtain q where "c = q * 10 ^ nat (- e)" by (metis dvdE mult.commute)
  then show "integral_equal c e" using e by (simp add: integral_equal_def to_integral_def round_half_even_exact)
qed

text \<open>The integer that a coefficient and an exponent denote, if they denote one.\<close>

definition denotes :: "nat \<Rightarrow> int \<Rightarrow> nat \<Rightarrow> bool" where
  "denotes c e a \<longleftrightarrow> c * 10 ^ nat e = a * 10 ^ nat (- e)"

lemma to_integral_denotes: "integral_equal c e \<Longrightarrow> denotes c e (to_integral c e)"
  by (cases "0 \<le> e") (simp_all add: denotes_def to_integral_def integral_equal_def)

lemma denotes_integral:
  assumes "denotes c e a"
  shows "integral_equal c e \<and> to_integral c e = a"
proof (cases "0 \<le> e")
  case False
  then have "c = a * 10 ^ nat (- e)" using assms by (simp add: denotes_def)
  then show ?thesis using False by (simp add: integral_equal_iff to_integral_def round_half_even_exact)
qed (use assms in \<open>simp add: denotes_def integral_equal_def to_integral_def\<close>)

lemma denotes_shift:
  assumes "e' = e + int k"
  shows "denotes (q * 10 ^ k) e a \<longleftrightarrow> denotes q e' a"
proof -
  consider "0 \<le> e" | "e < 0" "0 \<le> e'" | "e' < 0" using assms by linarith
  then show ?thesis
  proof cases
    case 1
    then have "nat e' = k + nat e" "nat (- e) = 0" "nat (- e') = 0" using assms by linarith+
    then show ?thesis by (simp add: denotes_def power_add mult.assoc)
  next
    case 2
    then have "k = nat e' + nat (- e)" "nat e = 0" "nat (- e') = 0" using assms by linarith+
    then show ?thesis by (simp add: denotes_def power_add mult.assoc [symmetric])
  next
    case 3
    then have "nat (- e) = k + nat (- e')" "nat e = 0" "nat e' = 0" using assms by linarith+
    then show ?thesis by (simp add: denotes_def power_add mult.assoc [symmetric])
  qed
qed

text \<open>Scaling loses nothing as long as the coefficient has at most 28 digits.\<close>

lemma dec_times_10: "0 < c \<Longrightarrow> dec (c * 10) = dec c @ ''0''"
  by (subst dec.simps) (simp add: digit_char_0)

lemma digit_count_pow10: "0 < c \<Longrightarrow> digit_count (c * 10 ^ k) = digit_count c + k"
proof (induction k)
  case (Suc k)
  have "c * 10 ^ Suc k = c * 10 ^ k * 10" by simp
  moreover have "dec (c * 10 ^ k * 10) = dec (c * 10 ^ k) @ ''0''" using Suc.prems by (intro dec_times_10) simp
  ultimately have "dec (c * 10 ^ Suc k) = dec (c * 10 ^ k) @ ''0''" by (simp only:)
  with Suc show ?case by (simp add: digit_count_def)
qed simp

lemma context_round_drop:
  assumes "0 < q" and "ETINY \<le> e" and "int (digit_count q) \<le> PREC"
    and "e + int k + int (digit_count q) \<le> EMAX + 1" and "k = 0 \<or> int (digit_count q) = PREC"
  shows "context_round (q * 10 ^ k) e = Inr (q, e + int k)"
proof -
  have "int (digit_count (q * 10 ^ k)) = int (digit_count q) + int k" by (simp add: digit_count_pow10 [OF assms(1)])
  then have m: "max (max e ETINY) (e + int (digit_count (q * 10 ^ k)) - PREC) = e + int k"
    using assms(2,3,5) by linarith
  have "q * 10 ^ k \<noteq> 0" using assms(1) by simp
  moreover have "nat (e + int k - e) = k" by simp
  moreover have "\<not> e + int k + int (digit_count q) - 1 > EMAX" using assms(4) by linarith
  ultimately show ?thesis unfolding context_round_def Let_def m by (simp only: if_False round_half_even_exact require_simps not_False_eq_True bindR_simps)
qed

definition scaled_exactly :: "nat \<Rightarrow> int \<Rightarrow> nat \<Rightarrow> bool" where
  "scaled_exactly c e scale \<longleftrightarrow> digit_count c \<le> 28 \<and> ETINY \<le> e \<and> e + int scale + int (digit_count c) \<le> EMAX + 1"

lemma context_round_zero: "context_round 0 e = Inr (0, max ETINY (min EMAX e))"
  by (simp add: context_round_def)

lemma denotes_zero [simp]: "denotes 0 e a \<longleftrightarrow> a = 0"
  by (auto simp: denotes_def)

lemma times_pow10_exact:
  assumes "scaled_exactly c e scale"
  shows "\<exists>c' e'. times_pow10 c e scale = Inr (c', e') \<and> (\<forall>a. denotes c' e' a \<longleftrightarrow> denotes c (e + int scale) a)"
proof (cases "c = 0")
  case True
  then show ?thesis by (simp add: times_pow10_def context_round_zero)
next
  case False
  let ?d = "digit_count c"
  define k where "k = ?d + scale - 28"
  have le: "k \<le> scale" "?d \<le> 28" using assms by (auto simp: k_def scaled_exactly_def)
  let ?q = "c * 10 ^ (scale - k)"
  have dq: "digit_count ?q = ?d + (scale - k)" using False by (simp add: digit_count_pow10)
  have eq: "c * 10 ^ scale = ?q * 10 ^ k" using le(1) by (simp add: mult.assoc power_add [symmetric])
  have sum: "int (digit_count ?q) = int ?d + int scale - int k" using le(1) unfolding dq by linarith
  have "k = 0 \<or> int (digit_count ?q) = PREC" unfolding sum PREC_def by (auto simp: k_def)
  moreover have "int (digit_count ?q) \<le> PREC" unfolding sum PREC_def using le by (simp add: k_def)
  moreover have "e + int k + int (digit_count ?q) \<le> EMAX + 1" unfolding sum using assms by (simp add: scaled_exactly_def)
  ultimately have "times_pow10 c e scale = Inr (?q, e + int k)"
    unfolding times_pow10_def eq using assms False by (intro context_round_drop) (simp_all add: scaled_exactly_def)
  moreover have "denotes ?q (e + int k) a \<longleftrightarrow> denotes c (e + int scale) a" for a
    by (rule denotes_shift) (use le in simp)
  ultimately show ?thesis by blast
qed

lemma scaleb_exact:
  assumes "scaled_exactly c e scale"
  shows "\<exists>c' e'. scaleb c e scale = Inr (c', e') \<and> (\<forall>a. denotes c' e' a \<longleftrightarrow> denotes c (e + int scale) a)"
proof (cases "c = 0")
  case True
  then show ?thesis by (simp add: scaleb_def context_round_zero)
next
  case False
  then have "context_round (c * 10 ^ 0) (e + int scale) = Inr (c, e + int scale + int 0)"
    using assms by (intro context_round_drop) (simp_all add: scaled_exactly_def PREC_def)
  then show ?thesis by (simp add: scaleb_def)
qed

text \<open>The integer read from a scaled decimal, with the sign of the text.\<close>

lemma integer_of_denotes:
  assumes "\<forall>a. denotes c' e' a \<longleftrightarrow> denotes c e a"
  shows "integer_of neg c' e' x = Inr v \<longleftrightarrow> (\<exists>a. denotes c e a \<and> v = (if neg then - 1 else 1) * int a)"
    and "integer_of neg c' e' x = Inl y \<longleftrightarrow> y = x \<and> (\<forall>a. \<not> denotes c e a)"
proof -
  have iff: "integral_equal c' e' \<longleftrightarrow> (\<exists>a. denotes c' e' a)"
    using to_integral_denotes denotes_integral by blast
  have eq: "denotes c' e' a \<Longrightarrow> to_integral c' e' = a" for a using denotes_integral by blast
  show "integer_of neg c' e' x = Inr v \<longleftrightarrow> (\<exists>a. denotes c e a \<and> v = (if neg then - 1 else 1) * int a)"
    unfolding integer_of_def bindR_eq_Inr require_simps(3) using assms iff eq by (auto simp del: mult_minus1)
  show "integer_of neg c' e' x = Inl y \<longleftrightarrow> y = x \<and> (\<forall>a. \<not> denotes c e a)"
    unfolding integer_of_def bindR_eq_Inl require_simps(4) using assms iff by auto
qed

lemma denotes_unique: "denotes c e a \<Longrightarrow> denotes c e b \<Longrightarrow> a = b"
  using denotes_integral by blast

section \<open>Printing\<close>

text \<open>The text of a fixed-point number: the digits of its atoms with the point \<open>scale\<close> digits from the right.\<close>

definition pad_left :: "nat \<Rightarrow> string \<Rightarrow> string" where
  "pad_left n s = replicate (n - length s) (CHR ''0'') @ s"

definition fixed_text :: "nat \<Rightarrow> int \<Rightarrow> string" where
  "fixed_text scale a =
     (let digits = pad_left (scale + 1) (dec (nat \<bar>a\<bar>)); n = length digits - scale in
      (if a < 0 then ''-'' else []) @ take n digits @ (if scale = 0 then [] else CHR ''.'' # drop n digits))"

lemma dec_val_zeros: "dec_val (replicate n (CHR ''0'') @ s) = dec_val s"
proof (induction n)
  case (Suc n)
  then show ?case by (simp add: dec_val_def digit_val_def)
qed simp

lemma pad_left_facts:
  assumes "list_all ascii_digit s"
  shows "list_all ascii_digit (pad_left n s)" "dec_val (pad_left n s) = dec_val s" "n \<le> length (pad_left n s)"
    "length s \<le> length (pad_left n s)"
  using assms by (auto simp: pad_left_def dec_val_zeros list_all_iff ascii_digit_def)

lemma split_at_none: "list_all (\<lambda>c. \<not> p c) s \<Longrightarrow> split_at p s = (s, None)"
  by (induction s) (auto simp: split_at_def split: list.splits if_splits)

lemma split_at_some: "list_all (\<lambda>c. \<not> p c) s \<Longrightarrow> p c \<Longrightarrow> split_at p (s @ c # t) = (s, Some t)"
  by (induction s) (auto simp: split_at_def)

lemma digits_plain:
  assumes "list_all ascii_digit s"
  shows "list_all (\<lambda>c. \<not> (c = CHR ''e'' \<or> c = CHR ''E'')) s" "list_all (\<lambda>c. \<not> c = CHR ''.'') s"
    "list_all (\<lambda>c. \<not> isspace_char c) s" "list_all (\<lambda>c. c \<noteq> CHR ''_'') s"
  using assms by (induction s) (auto simp: ascii_digit_def isspace_char_def)

lemma number_value_fixed:
  assumes "list_all ascii_digit whole" "list_all ascii_digit frac" "whole \<noteq> []"
    and "representable (dec_val (whole @ frac)) (- int (length frac))"
  shows "number_value neg (whole @ (if frac = [] then [] else CHR ''.'' # frac)) =
    Some (Finite neg (dec_val (whole @ frac)) (- int (length frac)))"
proof -
  let ?e = "\<lambda>c. c = CHR ''e'' \<or> c = CHR ''E''" and ?s = "whole @ (if frac = [] then [] else CHR ''.'' # frac)"
  have "split_at ?e ?s = (?s, None)" by (rule split_at_none) (use digits_plain(1) [OF assms(1)] digits_plain(1) [OF assms(2)] in simp)
  moreover have "split_at (\<lambda>c. c = CHR ''.'') ?s = (whole, if frac = [] then None else Some frac)"
    using assms digits_plain(2) by (simp add: split_at_none split_at_some)
  ultimately show ?thesis using assms by (cases "frac = []") (simp_all add: number_value_def Let_def)
qed

lemma strip_plain: "list_all (\<lambda>c. \<not> isspace_char c) s \<Longrightarrow> strip s = s"
  by (rule strip_id) (auto simp: list_all_iff)

lemma digit_not_special: "ascii_digit c \<Longrightarrow> \<not> special_name (c # s)"
  by (auto simp: special_name_def lower_def lower_char_def ascii_digit_def startswith_def Let_def)

lemma decimal_of_fixed_text:
  assumes "representable (nat \<bar>a\<bar>) (- int scale)"
  shows "decimal_of (fixed_text scale a) = Some (Finite (a < 0) (nat \<bar>a\<bar>) (- int scale))"
proof -
  let ?p = "pad_left (scale + 1) (dec (nat \<bar>a\<bar>))"
  define whole where "whole = take (length ?p - scale) ?p"
  define frac where "frac = drop (length ?p - scale) ?p"
  have p: "list_all ascii_digit ?p" "dec_val ?p = nat \<bar>a\<bar>" "scale + 1 \<le> length ?p"
    using pad_left_facts [OF dec_ascii] by auto
  have parts: "whole @ frac = ?p" "length frac = scale" "whole \<noteq> []" using p(3) by (auto simp: whole_def frac_def)
  have digits: "list_all ascii_digit whole" "list_all ascii_digit frac" using p(1) parts(1) by (metis list_all_append)+
  let ?b = "whole @ (if frac = [] then [] else CHR ''.'' # frac)" and ?m = "if a < 0 then ''-'' else []"
  have printed: "fixed_text scale a = ?m @ ?b" using parts(2) by (auto simp: fixed_text_def Let_def whole_def frac_def)
  have plain: "list_all (\<lambda>c. \<not> isspace_char c) (?m @ ?b)" "list_all (\<lambda>c. c \<noteq> CHR ''_'') (?m @ ?b)"
    using digits_plain(3,4) [OF digits(1)] digits_plain(3,4) [OF digits(2)] by (auto simp: isspace_char_def)
  obtain c w where w: "whole = c # w" "ascii_digit c" using parts(3) digits(1) by (cases whole) auto
  have "filter (\<lambda>c. c \<noteq> CHR ''_'') (strip (?m @ ?b)) = ?m @ ?b"
    unfolding strip_plain [OF plain(1)] using plain(2) by (simp only: filter_id_conv list_all_iff)
  moreover have "startswith (?m @ ?b) ''-'' \<longleftrightarrow> a < 0" "a < 0 \<or> startswith (?m @ ?b) ''+'' \<longleftrightarrow> a < 0"
    using w ascii_not_special by auto
  moreover have "\<not> special_name ?b" using w digit_not_special by simp
  moreover have "number_value neg ?b = Some (Finite neg (nat \<bar>a\<bar>) (- int scale))" for neg
    using number_value_fixed [OF digits parts(3), of neg] assms unfolding parts(1,2) p(2) by blast
  ultimately show ?thesis unfolding decimal_of_def printed Let_def by (cases "a < 0") simp_all
qed

end
