(* ===== verification/Dates.thy ===== *)
theory Dates
  imports Aggregate_Theorems Strings Decimals
begin

text \<open>
  What the provider adapters use of \<^verbatim>\<open>datetime.date\<close>, \<^verbatim>\<open>pathlib.PurePosixPath\<close> and \<^verbatim>\<open>str\<close> beyond the other theories:
  dates as ISO text, the components of a path, splitting, affixes and upper case. A date is its ordinal, as in
  \<open>Calendars\<close>.
\<close>

section \<open>Dates as text\<close>

definition date_day :: "int \<Rightarrow> int" where
  "date_day ordinal = ordinal - ymd2ord (date_year ordinal) (date_month ordinal) 0"

definition date_text :: "char \<Rightarrow> int \<Rightarrow> string" where
  "date_text sep ordinal = pad_left 4 (dec (nat (date_year ordinal))) @ sep # pad_left 2 (dec (date_month ordinal)) @
     sep # pad_left 2 (dec (nat (date_day ordinal)))"

text \<open>\<^verbatim>\<open>day.isoformat()\<close>, and the format \<^verbatim>\<open>%Y/%m/%d\<close> of a year with four digits.\<close>

definition isoformat :: "int \<Rightarrow> string" where
  "isoformat ordinal = date_text (CHR ''-'') ordinal"

definition slash_date :: "int \<Rightarrow> string" where
  "slash_date ordinal = date_text (CHR ''/'') ordinal"

text \<open>\<^verbatim>\<open>date.fromisoformat\<close>: a calendar date or a week date, with or without dashes; the length is counted in bytes and
  what follows the digits of the day is not looked at.\<close>

definition take_digits :: "nat \<Rightarrow> string \<Rightarrow> (nat \<times> string) option" where
  "take_digits n s =
     (if n \<le> length s \<and> list_all ascii_digit (take n s) then Some (dec_val (take n s), drop n s) else None)"

definition date_of_fields :: "nat \<Rightarrow> nat \<Rightarrow> nat \<Rightarrow> int res" where
  "date_of_fields year month day =
     bindR (require (1 \<le> year \<and> 1 \<le> month \<and> month \<le> 12 \<and> 1 \<le> day \<and> int day \<le> days_in_month (int year) month) ValueError)
       (\<lambda>_. make_date (int year) month (int day))"

definition iso_week1_monday :: "int \<Rightarrow> int" where
  "iso_week1_monday year =
     (let first_day = ymd2ord year 1 1; monday = first_day - weekday first_day in
      if weekday first_day > 3 then monday + 7 else monday)"

definition has_week_53 :: "int \<Rightarrow> bool" where
  "has_week_53 year \<longleftrightarrow> (let first = weekday (ymd2ord year 1 1) in first = 3 \<or> first = 2 \<and> is_leap year)"

definition iso_week_date :: "nat \<Rightarrow> nat \<Rightarrow> nat \<Rightarrow> int res" where
  "iso_week_date year week day =
     bindR (require (1 \<le> year \<and> 1 \<le> week \<and> (week \<le> 52 \<or> week = 53 \<and> has_week_53 (int year)) \<and> 1 \<le> day \<and> day \<le> 7) ValueError) (\<lambda>_.
     let ordinal = iso_week1_monday (int year) + (int week - 1) * 7 + int day - 1 in
     bindR (require (1 \<le> ordinal \<and> ordinal \<le> MAXORDINAL) ValueError) (\<lambda>_. Inr ordinal))"

definition parse_week_date :: "nat \<Rightarrow> bool \<Rightarrow> string \<Rightarrow> int res" where
  "parse_week_date year sep s =
     (case take_digits 2 s of None \<Rightarrow> Inl ValueError
      | Some (week, rest) \<Rightarrow>
          if rest = [] then iso_week_date year week 1
          else if sep \<and> \<not> startswith rest ''-'' then Inl ValueError
          else (case take_digits 1 (if sep then tl rest else rest) of None \<Rightarrow> Inl ValueError
                | Some (day, _) \<Rightarrow> iso_week_date year week day))"

definition parse_month_day :: "nat \<Rightarrow> bool \<Rightarrow> string \<Rightarrow> int res" where
  "parse_month_day year sep s =
     (case take_digits 2 s of None \<Rightarrow> Inl ValueError
      | Some (month, rest) \<Rightarrow>
          if sep \<and> \<not> startswith rest ''-'' then Inl ValueError
          else (case take_digits 2 (if sep then tl rest else rest) of None \<Rightarrow> Inl ValueError
                | Some (day, _) \<Rightarrow> date_of_fields year month day))"

definition fromisoformat :: "string \<Rightarrow> int res" where
  "fromisoformat s =
     bindR (require (length (utf8 s) \<in> {7, 8, 10}) ValueError) (\<lambda>_.
     case take_digits 4 s of None \<Rightarrow> Inl ValueError
     | Some (year, rest) \<Rightarrow>
         let sep = startswith rest ''-''; rest = (if sep then tl rest else rest) in
         if startswith rest ''W'' then parse_week_date year sep (tl rest) else parse_month_day year sep rest)"

section \<open>Paths and affixes\<close>

fun split_char :: "char \<Rightarrow> string \<Rightarrow> string \<Rightarrow> string list" where
  "split_char sep acc [] = [acc]"
| "split_char sep acc (c # s) = (if c = sep then acc # split_char sep [] s else split_char sep (acc @ [c]) s)"

definition path_parts :: "string \<Rightarrow> string list" where
  "path_parts p = filter (\<lambda>part. part \<noteq> [] \<and> part \<noteq> ''.'') (split_char (CHR ''/'') [] p)"

definition path_name :: "string \<Rightarrow> string" where
  "path_name p = (if path_parts p = [] then [] else last (path_parts p))"

definition removesuffix :: "string \<Rightarrow> string \<Rightarrow> string" where
  "removesuffix s p = (if endswith s p then take (length s - length p) s else s)"

definition removeprefix :: "string \<Rightarrow> string \<Rightarrow> string" where
  "removeprefix s p = (if startswith s p then drop (length p) s else s)"

text \<open>\<^verbatim>\<open>value[-n:]\<close>\<close>

definition last_chars :: "nat \<Rightarrow> string \<Rightarrow> string" where
  "last_chars n s = drop (length s - n) s"

text \<open>\<^verbatim>\<open>value.split()\<close>\<close>

fun words_from :: "string \<Rightarrow> string \<Rightarrow> string list" where
  "words_from acc [] = (if acc = [] then [] else [acc])"
| "words_from acc (c # s) =
     (if isspace_char c then (if acc = [] then words_from [] s else acc # words_from [] s) else words_from (acc @ [c]) s)"

definition words :: "string \<Rightarrow> string list" where
  "words s = words_from [] s"

text \<open>Upper case; the micro sign and y with diaeresis have an upper case outside the characters of a \<open>string\<close>, for which
  a question mark stands.\<close>

definition upper_char :: "char \<Rightarrow> string" where
  "upper_char c =
     (let n = ord c in
      if 97 \<le> n \<and> n \<le> 122 \<or> 224 \<le> n \<and> n \<le> 254 \<and> n \<noteq> 247 then [char_of (n - 32)]
      else if n = 223 then ''SS'' else if n = 181 \<or> n = 255 then ''?'' else [c])"

definition upper :: "string \<Rightarrow> string" where
  "upper s = concat (map upper_char s)"

section \<open>Round trips\<close>

definition valid_date :: "int \<Rightarrow> bool" where
  "valid_date ordinal \<longleftrightarrow> 1 \<le> ordinal \<and> ordinal \<le> MAXORDINAL"

lemma date_fields:
  assumes "valid_date n"
  shows "1 \<le> date_year n" "date_year n \<le> 9999" "1 \<le> date_month n" "date_month n \<le> 12"
    "1 \<le> date_day n" "date_day n \<le> days_in_month (date_year n) (date_month n)"
    "ymd2ord (date_year n) (date_month n) (date_day n) = n"
proof -
  have n: "1 \<le> n" using assms by (simp add: valid_date_def)
  show "1 \<le> date_year n" by (rule date_year_pos [OF n])
  show "date_year n \<le> 9999"
  proof (rule ccontr)
    assume "\<not> date_year n \<le> 9999"
    then have "days_before_year 10000 \<le> days_before_year (date_year n)" by (intro days_before_year_mono) simp
    with date_year_bounds(1) [OF n] assms show False by (simp add: days_before_year_def valid_date_def MAXORDINAL_def)
  qed
  note m = date_month_bounds [OF n]
  show "1 \<le> date_month n" "date_month n \<le> 12" by (rule m)+
  show "1 \<le> date_day n" using m(3) by (simp add: date_day_def ymd2ord_def)
  have "days_before_month (date_year n) (Suc (date_month n)) =
      days_before_month (date_year n) (date_month n) + days_in_month (date_year n) (date_month n)"
    using m(1) by (simp add: days_before_month_def del: days_in_month.simps)
  with m(4) show "date_day n \<le> days_in_month (date_year n) (date_month n)"
    by (simp add: date_day_def ymd2ord_def del: days_in_month.simps)
  show "ymd2ord (date_year n) (date_month n) (date_day n) = n" by (simp add: date_day_def ymd2ord_def)
qed

lemma dec_length: "n < 10 ^ k \<Longrightarrow> 0 < k \<Longrightarrow> length (dec n) \<le> k"
  using canonical_digits_length [of "dec n" k] by simp

lemma take_digits_pad:
  assumes "n < 10 ^ k" and "0 < k"
  shows "take_digits k (pad_left k (dec n) @ rest) = Some (n, rest)" "length (pad_left k (dec n)) = k"
proof -
  show len: "length (pad_left k (dec n)) = k" using dec_length [OF assms] by (simp add: pad_left_def)
  show "take_digits k (pad_left k (dec n) @ rest) = Some (n, rest)"
    using pad_left_facts(1,2) [OF dec_ascii, of k n] len by (simp add: take_digits_def)
qed

lemma utf8_ascii_length: "list_all (\<lambda>c. ord c < 128) s \<Longrightarrow> length (utf8 s) = length s"
  by (induction s) (simp_all add: utf8_def utf8_char_def)

lemma ascii_digit_128: "list_all ascii_digit s \<Longrightarrow> list_all (\<lambda>c. ord c < 128) s"
  by (induction s) (auto simp: ascii_digit_def)

lemma isoformat_length: "valid_date n \<Longrightarrow> length (isoformat n) = 10 \<and> list_all (\<lambda>c. ord c < 128) (isoformat n)"
proof -
  assume n: "valid_date n"
  note f = date_fields [OF n]
  have "days_in_month (date_year n) (date_month n) \<le> 31" by simp
  then have d: "nat (date_year n) < 10 ^ 4" "date_month n < 10 ^ 2" "nat (date_day n) < 10 ^ 2" using f(2,4,6) by simp_all
  have "length (isoformat n) = 10"
    using take_digits_pad(2) [OF d(1)] take_digits_pad(2) [OF d(2)] take_digits_pad(2) [OF d(3)] by (simp add: isoformat_def date_text_def)
  moreover have "list_all (\<lambda>c. ord c < 128) (pad_left k (dec m))" for k m
    by (rule ascii_digit_128 [OF pad_left_facts(1) [OF dec_ascii]])
  ultimately show ?thesis by (simp add: isoformat_def date_text_def)
qed

theorem fromisoformat_isoformat:
  assumes "valid_date n"
  shows "fromisoformat (isoformat n) = Inr n"
proof -
  note f = date_fields [OF assms]
  have "days_in_month (date_year n) (date_month n) \<le> 31" by simp
  then have d: "nat (date_year n) < 10 ^ 4" "date_month n < 10 ^ 2" "nat (date_day n) < 10 ^ 2" using f(2,4,6) by simp_all
  let ?m = "pad_left 2 (dec (date_month n))" and ?d = "pad_left 2 (dec (nat (date_day n)))"
  have len: "length (utf8 (isoformat n)) = 10" using isoformat_length [OF assms] utf8_ascii_length by simp
  have y: "take_digits 4 (isoformat n) = Some (nat (date_year n), CHR ''-'' # ?m @ CHR ''-'' # ?d)"
    unfolding isoformat_def date_text_def by (rule take_digits_pad) (use d in simp_all)
  have m: "take_digits 2 (?m @ CHR ''-'' # ?d) = Some (date_month n, CHR ''-'' # ?d)"
    by (rule take_digits_pad) (use d in simp_all)
  have dd: "take_digits 2 ?d = Some (nat (date_day n), [])"
    using take_digits_pad(1) [OF d(3), of "[]"] by simp
  have "list_all ascii_digit ?m" "?m \<noteq> []" using pad_left_facts(1,3) [OF dec_ascii, of 2 "date_month n"] by auto
  then obtain c w where "?m = c # w" "ascii_digit c" by (cases ?m) auto
  then have W: "\<not> startswith (?m @ CHR ''-'' # ?d) ''W''" by (auto simp: ascii_digit_def)
  have "1 \<le> nat (date_year n)" "1 \<le> nat (date_day n)" using f(1,5) by linarith+
  then have "date_of_fields (nat (date_year n)) (date_month n) (nat (date_day n)) = Inr n"
    using f by (simp add: date_of_fields_def make_date_def MINYEAR_def MAXYEAR_def del: days_in_month.simps)
  then show ?thesis unfolding fromisoformat_def len y by (simp add: W parse_month_day_def m dd)
qed

lemma isoformat_inject: "valid_date m \<Longrightarrow> valid_date n \<Longrightarrow> isoformat m = isoformat n \<longleftrightarrow> m = n"
  by (metis Inr_inject fromisoformat_isoformat)

lemma split_char_plain: "CHR ''/'' \<notin> set s \<Longrightarrow> split_char (CHR ''/'') acc s = [acc @ s]"
  by (induction s arbitrary: acc) auto

lemma split_char_append:
  "split_char (CHR ''/'') acc (s @ CHR ''/'' # t) = split_char (CHR ''/'') acc s @ split_char (CHR ''/'') [] t"
  by (induction s arbitrary: acc) auto

lemma path_name_slash:
  assumes "CHR ''/'' \<notin> set t" and "t \<noteq> []" and "t \<noteq> ''.''"
  shows "path_name (s @ CHR ''/'' # t) = t"
  using assms by (simp add: path_name_def path_parts_def split_char_append split_char_plain)

lemma removesuffix_append [simp]: "removesuffix (s @ p) p = s"
  by (simp add: removesuffix_def)

end
