(* ===== verification/Providers.thy ===== *)
theory Providers
  imports Ingest_Theorems Dates
begin

text \<open>
  What the runner needs of a provider adapter, as two contracts: \<open>daily_planner\<close> for the adapters that plan one object per
  UTC day, and \<open>keyed_provider\<close>, that the chunks of a plan have distinct keys, under which an interrupted job can be
  resumed. The theories of the adapters interpret them.
\<close>

section \<open>Daily plans\<close>

text \<open>The UTC days that a range of nanoseconds touches.\<close>

definition utc_day :: "int \<Rightarrow> int" where
  "utc_day ts_ns = EPOCH_ORDINAL + ts_ns div NANOSECONDS_PER_DAY"

lemma NANOSECONDS_PER_DAY_eq: "NANOSECONDS_PER_DAY = 86400000000000"
  by (simp add: NANOSECONDS_PER_DAY_def NANOSECONDS_PER_SECOND_def)

lemma utc_day_mono: "s \<le> t \<Longrightarrow> utc_day s \<le> utc_day t"
  by (simp add: utc_day_def NANOSECONDS_PER_DAY_eq zdiv_mono1)

text \<open>The days between the first and the last are exactly those that contain a time of the range.\<close>

lemma utc_days_between:
  assumes "s < e"
  shows "utc_day s \<le> day \<and> day \<le> utc_day (e - 1) \<longleftrightarrow> (\<exists>t. s \<le> t \<and> t < e \<and> utc_day t = day)"
proof
  assume day: "utc_day s \<le> day \<and> day \<le> utc_day (e - 1)"
  let ?d = "NANOSECONDS_PER_DAY" and ?k = "day - EPOCH_ORDINAL"
  let ?t = "max s (?k * ?d)"
  have d: "0 < ?d" by (simp add: NANOSECONDS_PER_DAY_eq)
  have "?k * ?d \<le> (e - 1) div ?d * ?d" using day d by (intro mult_right_mono) (simp_all add: utc_day_def)
  moreover have "(e - 1) div ?d * ?d \<le> e - 1" 
    using div_mult_mod_eq [of "e - 1" ?d] pos_mod_sign [OF d, of "e - 1"] by linarith
  ultimately have "?k * ?d < e" by linarith
  moreover have "?t div ?d = ?k"
  proof (cases "s \<le> ?k * ?d")
    case False
    then have "?k \<le> s div ?d" using d by (metis zdiv_mono1 nonzero_mult_div_cancel_right linorder_le_cases less_irrefl)
    with day False show ?thesis by (simp add: utc_day_def)
  qed (use d in simp)
  ultimately show "\<exists>t. s \<le> t \<and> t < e \<and> utc_day t = day"
    using assms by (intro exI [of _ ?t]) (simp add: utc_day_def)
qed (use utc_day_mono in \<open>metis zle_diff1_eq\<close>)

locale daily_planner =
  fixes plan_day :: "int \<Rightarrow> nat \<Rightarrow> FetchChunk res"
    and chunk :: "int \<Rightarrow> FetchChunk"
    and label :: string
  assumes planned: "plan_day first offset = Inr c \<Longrightarrow> valid_date (first + int offset) \<and> c = chunk (first + int offset)"
    and key: "fc_key (chunk day) = label @ isoformat day"
begin

lemma plan_days:
  assumes "mapR (plan_day first) [0..<n] = Inr plan"
  shows "plan = map chunk [first..first + int n - 1]" and "\<forall>day\<in>{first..first + int n - 1}. valid_date day \<and> plan_day first (nat (day - first)) = Inr (chunk day)"
proof -
  have n: "length plan = n" using assms by (simp add: mapR_eq_Inr list_all2_lengthD [symmetric])
  have day: "plan_day first k = Inr (plan ! k)" if "k < n" for k
    using assms that by (simp add: mapR_eq_Inr list_all2_conv_all_nth)
  have upto: "[first..first + int n - 1] = map (\<lambda>k. first + int k) [0..<n]"
    by (induction n) (simp_all add: upto_rec2 [of first] algebra_simps)
  show "plan = map chunk [first..first + int n - 1]"
    unfolding upto using planned [OF day] n by (intro nth_equalityI) auto
  show "\<forall>day\<in>{first..first + int n - 1}. valid_date day \<and> plan_day first (nat (day - first)) = Inr (chunk day)"
  proof
    fix d assume "d \<in> {first..first + int n - 1}"
    then have k: "nat (d - first) < n" "d = first + int (nat (d - first))" by auto
    from planned [OF day [OF k(1)]] day [OF k(1)] k(2) show "valid_date d \<and> plan_day first (nat (d - first)) = Inr (chunk d)" by simp
  qed
qed

lemma plan_keys_distinct:
  assumes "mapR (plan_day first) [0..<n] = Inr plan"
  shows "distinct (map fc_key plan)"
proof -
  have "inj_on (\<lambda>day. label @ isoformat day) {first..first + int n - 1}"
    using plan_days(2) [OF assms] by (intro inj_onI) (simp add: isoformat_inject)
  then have "distinct (map (\<lambda>day. label @ isoformat day) [first..first + int n - 1])"
    by (simp add: distinct_map)
  then show ?thesis unfolding plan_days(1) [OF assms] by (simp add: comp_def key)
qed

end

section \<open>Resuming a job\<close>

locale keyed_provider =
  fixes p :: adapter
  assumes plan_keys: "ad_plan p request = Inr plan \<Longrightarrow> distinct (map fc_key plan)"
begin

lemma resume:
  assumes "apart runner out man" and "job_id_of request = Inr job" and "fs (state_path (ir_state runner) job) = None"
    and sv: "\<forall>(a, b)\<in>set ((a, b) # attempts). serves a p"
    and run: "run_job runner a request out man
      \<lparr>w_files = after_attempts runner request out man attempts fs, w_budget = b\<rparr> = (Inr result, w')"
  shows "\<exists>body manifest. job_outcome p request = Inr (result, body, manifest) \<and>
    w_files w' out = Some body \<and> w_files w' man = Some manifest"
proof -
  obtain plan where "ad_plan a request = Inr plan"
    using run by (cases rule: run_job_cases) auto
  then have plan: "ad_plan p request = Inr plan" using sv by (auto simp: serves_def)
  show ?thesis by (rule resume_outcome [OF assms(1) plan plan_keys [OF plan] assms(2-5)])
qed

end

end
