(* ===== verification/Csv.thy ===== *)
theory Csv
  imports Text
begin

text \<open>
  \<^verbatim>\<open>csv.reader\<close> and \<^verbatim>\<open>csv.DictReader\<close> over \<^verbatim>\<open>io.StringIO(text, newline="")\<close>, with the default dialect: fields are
  separated by commas and may be quoted, a doubled quote inside a quoted field is a quote, and lines end at a line feed,
  a carriage return or both.

  The readers are lazy and an adapter may stop before the end, so a reader is the list of the outcomes of its
  \<^verbatim>\<open>next\<close> calls: records, up to the first error, if there is one.
\<close>

section \<open>Lines\<close>

fun lines_from :: "string \<Rightarrow> string \<Rightarrow> string list" where
  "lines_from line [] = (if line = [] then [] else [line])"
| "lines_from line (c # s) =
     (if c = CHR 0x0A then (line @ [c]) # lines_from [] s
      else if c = CHR 0x0D then
        (case s of
           d # s' \<Rightarrow> if d = CHR 0x0A then (line @ [c, d]) # lines_from [] s' else (line @ [c]) # lines_from [] s
         | [] \<Rightarrow> [line @ [c]])
      else lines_from (line @ [c]) s)"

definition keep_lines :: "string \<Rightarrow> string list" where
  "keep_lines text = lines_from [] text"

section \<open>The reader\<close>

datatype csv_state = START_RECORD | START_FIELD | IN_FIELD | IN_QUOTED_FIELD | QUOTE_IN_QUOTED_FIELD | EAT_CRNL

record csv_reader =
  cr_fields :: "string list"
  cr_field :: string
  cr_state :: csv_state

definition csv_reset :: csv_reader where
  "csv_reset = \<lparr>cr_fields = [], cr_field = [], cr_state = START_RECORD\<rparr>"

definition csv_field_limit :: nat where
  "csv_field_limit = 131072"

definition csv_save :: "csv_reader \<Rightarrow> csv_reader" where
  "csv_save r = r\<lparr>cr_fields := cr_fields r @ [cr_field r], cr_field := []\<rparr>"

definition csv_add :: "char \<Rightarrow> csv_reader \<Rightarrow> csv_reader res" where
  "csv_add c r = bindR (require (\<not> csv_field_limit \<le> length (cr_field r)) CsvError) (\<lambda>_.
     Inr (r\<lparr>cr_field := cr_field r @ [c]\<rparr>))"

definition csv_newline :: "char \<Rightarrow> bool" where
  "csv_newline c \<longleftrightarrow> c = CHR 0x0A \<or> c = CHR 0x0D"

definition csv_field_start :: "char \<Rightarrow> csv_reader \<Rightarrow> csv_reader res" where
  "csv_field_start c r =
     (if csv_newline c then Inr (csv_save r\<lparr>cr_state := EAT_CRNL\<rparr>)
      else if c = CHR 0x22 then Inr (r\<lparr>cr_state := IN_QUOTED_FIELD\<rparr>)
      else if c = CHR '','' then Inr (csv_save r\<lparr>cr_state := START_FIELD\<rparr>)
      else bindR (csv_add c r) (\<lambda>r. Inr (r\<lparr>cr_state := IN_FIELD\<rparr>)))"

definition csv_char :: "csv_reader \<Rightarrow> char \<Rightarrow> csv_reader res" where
  "csv_char r c =
     (case cr_state r of
        START_RECORD \<Rightarrow> if csv_newline c then Inr (r\<lparr>cr_state := EAT_CRNL\<rparr>) else csv_field_start c r
      | START_FIELD \<Rightarrow> csv_field_start c r
      | IN_FIELD \<Rightarrow>
          if csv_newline c then Inr (csv_save r\<lparr>cr_state := EAT_CRNL\<rparr>)
          else if c = CHR '','' then Inr (csv_save r\<lparr>cr_state := START_FIELD\<rparr>)
          else csv_add c r
      | IN_QUOTED_FIELD \<Rightarrow> if c = CHR 0x22 then Inr (r\<lparr>cr_state := QUOTE_IN_QUOTED_FIELD\<rparr>) else csv_add c r
      | QUOTE_IN_QUOTED_FIELD \<Rightarrow>
          if c = CHR 0x22 then bindR (csv_add c r) (\<lambda>r. Inr (r\<lparr>cr_state := IN_QUOTED_FIELD\<rparr>))
          else if c = CHR '','' then Inr (csv_save r\<lparr>cr_state := START_FIELD\<rparr>)
          else if csv_newline c then Inr (csv_save r\<lparr>cr_state := EAT_CRNL\<rparr>)
          else bindR (csv_add c r) (\<lambda>r. Inr (r\<lparr>cr_state := IN_FIELD\<rparr>))
      | EAT_CRNL \<Rightarrow> if csv_newline c then Inr r else Inl CsvError)"

text \<open>The end of a line, after its last character.\<close>

definition csv_eol :: "csv_reader \<Rightarrow> csv_reader" where
  "csv_eol r =
     (case cr_state r of
        START_RECORD \<Rightarrow> r
      | IN_QUOTED_FIELD \<Rightarrow> r
      | EAT_CRNL \<Rightarrow> r\<lparr>cr_state := START_RECORD\<rparr>
      | _ \<Rightarrow> csv_save r\<lparr>cr_state := START_RECORD\<rparr>)"

definition csv_line :: "csv_reader \<Rightarrow> string \<Rightarrow> csv_reader res" where
  "csv_line r line = bindR (foldR csv_char r line) (\<lambda>r. Inr (csv_eol r))"

fun csv_records :: "csv_reader \<Rightarrow> string list \<Rightarrow> string list res list" where
  "csv_records r [] = (if cr_field r \<noteq> [] \<or> cr_state r = IN_QUOTED_FIELD then [Inr (cr_fields (csv_save r))] else [])"
| "csv_records r (line # ls) =
     (case csv_line r line of
        Inl e \<Rightarrow> [Inl e]
      | Inr r \<Rightarrow> if cr_state r = START_RECORD then Inr (cr_fields r) # csv_records csv_reset ls else csv_records r ls)"

definition csv_read :: "string \<Rightarrow> string list res list" where
  "csv_read text = csv_records csv_reset (keep_lines text)"

section \<open>Dictionaries\<close>

text \<open>A row of \<^verbatim>\<open>DictReader\<close>: the values under the names of the header, \<^verbatim>\<open>None\<close> where the record is short, and
  the values of a longer record under the key \<^verbatim>\<open>None\<close>.\<close>

record dict_row =
  dr_named :: "(string \<times> string option) list"
  dr_rest :: "string list"

fun dict_row_from :: "(string \<times> string option) list \<Rightarrow> string list \<Rightarrow> string list \<Rightarrow> dict_row" where
  "dict_row_from d [] vs = \<lparr>dr_named = d, dr_rest = vs\<rparr>"
| "dict_row_from d (k # ks) [] = dict_row_from (AList.update k None d) ks []"
| "dict_row_from d (k # ks) (v # vs) = dict_row_from (AList.update k (Some v) d) ks vs"

definition dict_rows :: "string list \<Rightarrow> string list res list \<Rightarrow> dict_row res list" where
  "dict_rows fieldnames records =
     map (\<lambda>record. bindR record (\<lambda>vs. Inr (dict_row_from [] fieldnames vs))) (filter (\<lambda>record. record \<noteq> Inr []) records)"

section \<open>Plain records\<close>

text \<open>A record none of whose fields needs quoting is read back as it was written.\<close>

definition plain_field :: "string \<Rightarrow> bool" where
  "plain_field f \<longleftrightarrow> list_all (\<lambda>c. c \<noteq> CHR '','' \<and> c \<noteq> CHR 0x22 \<and> \<not> csv_newline c) f \<and> length f \<le> csv_field_limit"

fun csv_join :: "string list \<Rightarrow> string" where
  "csv_join [] = []"
| "csv_join [f] = f"
| "csv_join (f # g # fs) = f @ CHR '','' # csv_join (g # fs)"

definition csv_text :: "string list list \<Rightarrow> string" where
  "csv_text rows = concat (map (\<lambda>row. csv_join row @ [CHR 0x0A]) rows)"

lemma csv_in_field:
  assumes "list_all (\<lambda>c. c \<noteq> CHR '','' \<and> c \<noteq> CHR 0x22 \<and> \<not> csv_newline c) f"
    and "length acc + length f \<le> csv_field_limit"
  shows "foldR csv_char \<lparr>cr_fields = fs, cr_field = acc, cr_state = IN_FIELD\<rparr> f =
    Inr \<lparr>cr_fields = fs, cr_field = acc @ f, cr_state = IN_FIELD\<rparr>"
  using assms by (induction f arbitrary: acc) (simp_all add: csv_char_def csv_add_def)

definition field_state :: "string list \<Rightarrow> string \<Rightarrow> csv_state \<Rightarrow> csv_reader" where
  "field_state fs f s = \<lparr>cr_fields = fs, cr_field = f, cr_state = (if f = [] then s else IN_FIELD)\<rparr>"

lemma csv_plain_field:
  assumes "plain_field f" and "s = START_RECORD \<or> s = START_FIELD"
  shows "foldR csv_char (field_state fs [] s) f = Inr (field_state fs f s)"
proof (cases f)
  case (Cons c g)
  have c: "c \<noteq> CHR '',''" "c \<noteq> CHR 0x22" "\<not> csv_newline c" and g: "list_all (\<lambda>c. c \<noteq> CHR '','' \<and> c \<noteq> CHR 0x22 \<and> \<not> csv_newline c) g"
    and n: "length [c] + length g \<le> csv_field_limit" using assms(1) by (auto simp: Cons plain_field_def)
  have "csv_char (field_state fs [] s) c = Inr \<lparr>cr_fields = fs, cr_field = [c], cr_state = IN_FIELD\<rparr>"
    using c n assms(2) by (auto simp: csv_char_def field_state_def csv_field_start_def csv_add_def csv_field_limit_def)
  with csv_in_field [OF g n, of fs] show ?thesis by (simp add: Cons field_state_def)
qed (simp add: field_state_def)

lemma csv_field_comma:
  assumes "s = START_RECORD \<or> s = START_FIELD"
  shows "csv_char (field_state fs f s) (CHR '','') = Inr (field_state (fs @ [f]) [] START_FIELD)"
  using assms by (auto simp: csv_char_def field_state_def csv_field_start_def csv_newline_def csv_save_def)

lemma csv_plain_fields:
  assumes "row \<noteq> []" and "list_all plain_field row" and "s = START_RECORD \<or> s = START_FIELD"
  shows "foldR csv_char (field_state fs [] s) (csv_join row) =
    Inr (field_state (fs @ butlast row) (last row) (if length row = 1 then s else START_FIELD))"
  using assms
proof (induction row arbitrary: fs s rule: csv_join.induct)
  case (3 f g row)
  have f: "plain_field f" using 3 by simp
  show ?case
    using "3.IH" [of START_FIELD "fs @ [f]"] 3
    by (simp add: foldR_append csv_plain_field [OF f "3.prems"(3)] csv_field_comma)
qed (simp_all add: csv_plain_field)

lemma csv_plain_line:
  assumes "row \<noteq> []" and "row \<noteq> [[]]" and "list_all plain_field row"
  shows "csv_line csv_reset (csv_join row @ [CHR 0x0A]) = Inr \<lparr>cr_fields = row, cr_field = [], cr_state = START_RECORD\<rparr>"
proof -
  let ?r = "field_state (butlast row) (last row) (if length row = 1 then START_RECORD else START_FIELD)"
  have reset: "csv_reset = field_state [] [] START_RECORD" by (simp add: csv_reset_def field_state_def)
  have "last row \<noteq> []" if "length row = 1" using that assms(2) by (cases row) (auto simp: length_Suc_conv)
  then have "csv_char ?r (CHR 0x0A) = Inr \<lparr>cr_fields = butlast row @ [last row], cr_field = [], cr_state = EAT_CRNL\<rparr>"
    by (simp add: csv_char_def field_state_def csv_field_start_def csv_newline_def csv_save_def)
  with assms show ?thesis
    using csv_plain_fields [of row START_RECORD "[]"] by (simp add: csv_line_def foldR_append reset csv_eol_def)
qed

lemma lines_from_plain:
  "list_all (\<lambda>c. \<not> csv_newline c) l \<Longrightarrow> lines_from line (l @ CHR 0x0A # s) = (line @ l @ [CHR 0x0A]) # lines_from [] s"
  by (induction l arbitrary: line) (simp_all add: csv_newline_def)

lemma plain_field_newline: "plain_field f \<Longrightarrow> list_all (\<lambda>c. \<not> csv_newline c) f"
  unfolding plain_field_def by (erule conjE) (erule list.pred_mono_strong, simp)

lemma comma_newline: "\<not> csv_newline (CHR '','')"
  by (simp add: csv_newline_def)

lemma csv_join_plain: "list_all plain_field row \<Longrightarrow> list_all (\<lambda>c. \<not> csv_newline c) (csv_join row)"
  by (induction row rule: csv_join.induct) (simp_all add: plain_field_newline comma_newline)

theorem csv_read_text:
  assumes "list_all (\<lambda>row. row \<noteq> [] \<and> row \<noteq> [[]] \<and> list_all plain_field row) rows"
  shows "csv_read (csv_text rows) = map Inr rows"
proof -
  have l: "keep_lines (csv_text rows) = map (\<lambda>row. csv_join row @ [CHR 0x0A]) rows"
    using assms by (induction rows) (simp_all add: keep_lines_def csv_text_def lines_from_plain csv_join_plain)
  show ?thesis unfolding csv_read_def l
    using assms by (induction rows) (simp_all add: csv_plain_line, simp add: csv_reset_def)
qed

lemma dict_row_from_zip:
  assumes "distinct (map fst d @ ks)" and "length vs = length ks"
  shows "dict_row_from d ks vs = \<lparr>dr_named = d @ zip ks (map Some vs), dr_rest = []\<rparr>"
  using assms
proof (induction ks arbitrary: d vs)
  case (Cons k ks)
  then obtain v us where vs: "vs = v # us" "length us = length ks" by (cases vs) auto
  have "k \<notin> fst ` set d" using Cons.prems(1) by auto
  then have "AList.update k (Some v) d = d @ [(k, Some v)]" by (induction d) auto
  with Cons.IH [of "d @ [(k, Some v)]" us] Cons.prems vs show ?case by simp
qed simp

end
