(* ===== verification/Tardis.thy ===== *)
theory Tardis
  imports Ingest Csv Dates
begin

text \<open>
  The Tardis adapter, \<^verbatim>\<open>adapters/tardis/\<close>: coverage, entitlements and interval capabilities, and the adapter that plans
  daily objects, fetches them and normalizes their CSV to canonical events. The HTTP transport, the API key provider and
  \<^verbatim>\<open>gzip\<close> are parameters; a row of a data set is the association list of its columns.
\<close>

section \<open>Coverage and entitlements\<close>

datatype TardisDataType = TRADES | QUOTES | BOOK_TICKER | INCREMENTAL_BOOK_L2 | BOOK_SNAPSHOT_25 | BOOK_SNAPSHOT_5
  | DERIVATIVE_TICKER | LIQUIDATIONS

fun data_type_value :: "TardisDataType \<Rightarrow> string" where
  "data_type_value TRADES = ''trades''"
| "data_type_value QUOTES = ''quotes''"
| "data_type_value BOOK_TICKER = ''book_ticker''"
| "data_type_value INCREMENTAL_BOOK_L2 = ''incremental_book_L2''"
| "data_type_value BOOK_SNAPSHOT_25 = ''book_snapshot_25''"
| "data_type_value BOOK_SNAPSHOT_5 = ''book_snapshot_5''"
| "data_type_value DERIVATIVE_TICKER = ''derivative_ticker''"
| "data_type_value LIQUIDATIONS = ''liquidations''"

definition data_types :: "TardisDataType list" where
  "data_types = [TRADES, QUOTES, BOOK_TICKER, INCREMENTAL_BOOK_L2, BOOK_SNAPSHOT_25, BOOK_SNAPSHOT_5, DERIVATIVE_TICKER, LIQUIDATIONS]"

definition data_type_of :: "string \<Rightarrow> TardisDataType option" where
  "data_type_of raw = List.find (\<lambda>t. data_type_value t = raw) data_types"

record TardisCoverage =
  tc_exchange :: string
  tc_symbol :: string
  tc_data_types :: "TardisDataType set"
  tc_available_since :: int
  tc_available_to :: int
  tc_exported_until :: "int option"

definition coverage_check :: "TardisCoverage \<Rightarrow> TardisCoverage res" where
  "coverage_check c =
     bindR (require (\<not> (tc_exchange c = [] \<or> tc_symbol c = [])) ValueError) (\<lambda>_.
     bindR (require (\<not> tc_available_to c < tc_available_since c) ValueError) (\<lambda>_.
     bindR (require (tc_data_types c \<noteq> {}) ValueError) (\<lambda>_. Inr c)))"

definition supports :: "TardisCoverage \<Rightarrow> TardisDataType \<Rightarrow> int \<Rightarrow> bool" where
  "supports c data_type day \<longleftrightarrow>
     (if data_type \<notin> tc_data_types c then False
      else let effective_to = (case tc_exported_until c of None \<Rightarrow> tc_available_to c | Some u \<Rightarrow> min (tc_available_to c) u)
           in tc_available_since c \<le> day \<and> day \<le> effective_to)"

fun tardis_mapping :: "json \<Rightarrow> fields res" where
  "tardis_mapping (JObj fs) = Inr fs"
| "tardis_mapping _ = Inl TardisRequestError"

fun tardis_sequence :: "json \<Rightarrow> json list res" where
  "tardis_sequence (JList xs) = Inr xs"
| "tardis_sequence _ = Inl TardisRequestError"

definition parse_date :: "json \<Rightarrow> int res" where
  "parse_date value = (case value of
       JStr s \<Rightarrow> catchR (fromisoformat (take 10 s)) is_ValueError TardisRequestError
     | _ \<Rightarrow> Inl TardisRequestError)"

definition date_field :: "fields \<Rightarrow> string \<Rightarrow> int res" where
  "date_field fs name = parse_date (jget fs name)"

fun find_symbol :: "string \<Rightarrow> json list \<Rightarrow> fields res" where
  "find_symbol symbol [] = Inl TardisRequestError"
| "find_symbol symbol (candidate # candidates) =
     bindR (tardis_mapping candidate) (\<lambda>row.
     if jget row ''id'' = JStr symbol then Inr row else find_symbol symbol candidates)"

definition supported_type :: "TardisDataType set \<Rightarrow> json \<Rightarrow> TardisDataType set res" where
  "supported_type supported raw = (case raw of
       JStr s \<Rightarrow> Inr (case data_type_of s of None \<Rightarrow> supported | Some t \<Rightarrow> insert t supported)
     | _ \<Rightarrow> Inl TardisRequestError)"

definition from_exchange_details :: "fields \<Rightarrow> string \<Rightarrow> string \<Rightarrow> TardisCoverage res" where
  "from_exchange_details document exchange symbol =
     bindR (tardis_mapping (jget document ''datasets'')) (\<lambda>datasets.
     bindR (tardis_sequence (jget datasets ''symbols'')) (\<lambda>symbols.
     bindR (find_symbol symbol symbols) (\<lambda>target.
     bindR (tardis_sequence (jget target ''dataTypes'')) (\<lambda>raw_types.
     bindR (foldR supported_type {} raw_types) (\<lambda>supported.
     bindR (require (supported \<noteq> {}) TardisRequestError) (\<lambda>_.
     bindR (date_field target ''availableSince'') (\<lambda>available_since.
     bindR (date_field target ''availableTo'') (\<lambda>available_to.
     let exported = jget datasets ''exportedUntil'' in
     bindR (if exported = JNull \<or> exported = JStr [] then Inr None
            else bindR (parse_date exported) (\<lambda>d. Inr (Some d))) (\<lambda>exported_until.
     coverage_check \<lparr>tc_exchange = exchange, tc_symbol = symbol, tc_data_types = supported,
       tc_available_since = available_since, tc_available_to = available_to, tc_exported_until = exported_until\<rparr>)))))))))"

record TardisEntitlement =
  te_coverage :: TardisCoverage
  te_allowed_data_types :: "TardisDataType set"
  te_sample_only :: bool

definition permits :: "TardisEntitlement \<Rightarrow> TardisDataType \<Rightarrow> int \<Rightarrow> bool" where
  "permits e data_type day \<longleftrightarrow>
     (if data_type \<notin> te_allowed_data_types e \<or> \<not> supports (te_coverage e) data_type day then False
      else \<not> te_sample_only e \<or> date_day day = 1)"

record TardisCapabilities =
  cap_has_trades :: bool
  cap_has_bbo :: bool
  cap_has_l2_snapshots :: bool
  cap_has_l2_deltas :: bool
  cap_has_funding :: bool
  cap_has_liquidations :: bool
  cap_execution_tier :: "string option"

function complete_interval :: "TardisEntitlement \<Rightarrow> TardisDataType \<Rightarrow> int \<Rightarrow> int \<Rightarrow> bool res" where
  "complete_interval e data_type current end_day =
     (if current \<le> end_day then
        if \<not> permits e data_type current then Inr False
        else bindR (require (current + 1 \<le> MAXORDINAL) ValueError) (\<lambda>_. complete_interval e data_type (current + 1) end_day)
      else Inr True)"
  by pat_completeness auto
termination
  by (relation "measure (\<lambda>(_, _, current, end_day). nat (end_day + 1 - current))") auto

declare complete_interval.simps [simp del]

definition orR :: "bool res \<Rightarrow> bool res \<Rightarrow> bool res" where
  "orR a b = bindR a (\<lambda>x. if x then Inr True else b)"

definition capabilities_for_interval :: "TardisEntitlement \<Rightarrow> int \<Rightarrow> int \<Rightarrow> TardisCapabilities res" where
  "capabilities_for_interval e start_day end_day =
     bindR (require (\<not> end_day < start_day) ValueError) (\<lambda>_.
     let complete = (\<lambda>data_type. complete_interval e data_type start_day end_day) in
     bindR (complete TRADES) (\<lambda>trades.
     bindR (orR (complete QUOTES) (complete BOOK_TICKER)) (\<lambda>bbo.
     bindR (complete INCREMENTAL_BOOK_L2) (\<lambda>incremental_l2.
     bindR (orR (Inr incremental_l2) (orR (complete BOOK_SNAPSHOT_25) (complete BOOK_SNAPSHOT_5))) (\<lambda>snapshots.
     bindR (complete DERIVATIVE_TICKER) (\<lambda>funding.
     bindR (complete LIQUIDATIONS) (\<lambda>liquidations.
     let tier = (if incremental_l2 then Some ''F2'' else if trades \<and> bbo then Some ''F1'' else if trades then Some ''F0T'' else None)
     in Inr \<lparr>cap_has_trades = trades, cap_has_bbo = bbo, cap_has_l2_snapshots = snapshots, cap_has_l2_deltas = incremental_l2,
            cap_has_funding = funding, cap_has_liquidations = liquidations, cap_execution_tier = tier\<rparr>)))))))"

section \<open>Configuration\<close>

definition TARDIS_DAY_NS :: int where
  "TARDIS_DAY_NS = 86400000000000"

definition DATASET_BASE_URL :: string where
  "DATASET_BASE_URL = ''https://datasets.tardis.dev/v1''"

text \<open>\<^verbatim>\<open>UrlLibTardisTransport.get\<close>; \<open>urlopen\<close> gives the body of the response to a URL and headers.\<close>

definition tardis_urllib_get ::
    "(string \<Rightarrow> (string \<times> string) list \<Rightarrow> bytes res) \<Rightarrow> string \<Rightarrow> int \<Rightarrow> string option \<Rightarrow> bytes res" where
  "tardis_urllib_get urlopen url max_bytes bearer_token =
     (let headers = (''User-Agent'', ''trading-replay-lab/1'') #
            (case bearer_token of None \<Rightarrow> [] | Some t \<Rightarrow> [(''Authorization'', ''Bearer '' @ t)])
      in bindR (urlopen url headers) (\<lambda>body.
         let payload = take (nat (max_bytes + 1)) body in
         bindR (require (\<not> int (length payload) > max_bytes) TardisIntegrityError) (\<lambda>_. Inr payload)))"

record TardisConfig =
  tf_exchange :: string
  tf_symbol :: string
  tf_data_type :: TardisDataType
  tf_instrument_id :: string
  tf_dataset_id :: string
  tf_price_scale :: int
  tf_qty_scale :: int
  tf_rate_scale :: int
  tf_max_archive_bytes :: int
  tf_max_uncompressed_bytes :: int
  tf_max_rows_per_chunk :: int
  tf_estimated_cost_minor_per_chunk :: int

definition tardis_config_check :: "TardisConfig \<Rightarrow> TardisConfig res" where
  "tardis_config_check c =
     bindR (require (\<not> (tf_exchange c = [] \<or> tf_instrument_id c = [] \<or> tf_dataset_id c = [])) ValueError) (\<lambda>_.
     bindR (require (\<not> (tf_symbol c = [] \<or> tf_symbol c \<noteq> upper (tf_symbol c))) ValueError) (\<lambda>_.
     bindR (require (\<not> list_ex (\<lambda>scale. \<not> (0 \<le> scale \<and> scale \<le> 18)) [tf_price_scale c, tf_qty_scale c, tf_rate_scale c]) ValueError) (\<lambda>_.
     bindR (require (\<not> (tf_max_archive_bytes c \<le> 0 \<or> tf_max_uncompressed_bytes c \<le> 0)) ValueError) (\<lambda>_.
     bindR (require (\<not> tf_max_rows_per_chunk c \<le> 0) ValueError) (\<lambda>_.
     bindR (require (\<not> tf_estimated_cost_minor_per_chunk c < 0) ValueError) (\<lambda>_. Inr c))))))"

definition url_symbol :: "TardisConfig \<Rightarrow> string" where
  "url_symbol c = map (\<lambda>x. if x = CHR '':'' then CHR ''-'' else x) (map (\<lambda>x. if x = CHR ''/'' then CHR ''-'' else x) (tf_symbol c))"

definition tardis_venue_id :: "TardisConfig \<Rightarrow> string" where
  "tardis_venue_id c = ''TARDIS:'' @ upper (tf_exchange c)"

text \<open>The state of an adapter object; the transport and the key provider are its parameters.\<close>

record TardisAdapter =
  ta_config :: TardisConfig
  ta_entitlement :: TardisEntitlement
  ta_transport :: "string \<Rightarrow> int \<Rightarrow> string option \<Rightarrow> bytes res"
  ta_api_key_provider :: "string option res option"

definition tardis_init ::
    "TardisConfig \<Rightarrow> TardisEntitlement \<Rightarrow> (string \<Rightarrow> int \<Rightarrow> string option \<Rightarrow> bytes res) \<Rightarrow> string option res option \<Rightarrow> TardisAdapter res" where
  "tardis_init config entitlement transport api_key_provider =
     bindR (require (tc_exchange (te_coverage entitlement) = tf_exchange config) ValueError) (\<lambda>_.
     bindR (require (tc_symbol (te_coverage entitlement) = tf_symbol config) ValueError) (\<lambda>_.
     Inr \<lparr>ta_config = config, ta_entitlement = entitlement, ta_transport = transport, ta_api_key_provider = api_key_provider\<rparr>))"

section \<open>Plan and fetch\<close>

definition dataset_url :: "TardisConfig \<Rightarrow> int \<Rightarrow> string" where
  "dataset_url c day = DATASET_BASE_URL @ ''/'' @ tf_exchange c @ ''/'' @ data_type_value (tf_data_type c) @ ''/'' @
     slash_date day @ ''/'' @ url_symbol c @ ''.csv.gz''"

definition tardis_chunk_key :: "TardisConfig \<Rightarrow> int \<Rightarrow> string" where
  "tardis_chunk_key c day = tf_exchange c @ '':'' @ data_type_value (tf_data_type c) @ '':'' @ url_symbol c @ '':'' @ isoformat day"

definition tardis_plan_day :: "TardisAdapter \<Rightarrow> int \<Rightarrow> nat \<Rightarrow> FetchChunk res" where
  "tardis_plan_day a first_day offset =
     (let c = ta_config a in
      bindR (add_days first_day (int offset)) (\<lambda>day.
      bindR (require (permits (ta_entitlement a) (tf_data_type c) day) TardisRequestError) (\<lambda>_.
      Inr \<lparr>fc_key = tardis_chunk_key c day, fc_source_ref = dataset_url c day, fc_expected_bytes = None,
           fc_estimated_cost_minor = tf_estimated_cost_minor_per_chunk c\<rparr>)))"

definition tardis_plan :: "TardisAdapter \<Rightarrow> FetchRequest \<Rightarrow> FetchPlan res" where
  "tardis_plan a request =
     (let c = ta_config a in
      bindR (require (fq_provider request = ''tardis'') TardisRequestError) (\<lambda>_.
      bindR (require (fq_instrument_id request = tf_instrument_id c) TardisRequestError) (\<lambda>_.
      bindR (require (fq_dataset request = data_type_value (tf_data_type c)) TardisRequestError) (\<lambda>_.
      bindR (require (\<not> (fq_start_ns request < 0 \<or> fq_end_ns request \<le> fq_start_ns request)) TardisRequestError) (\<lambda>_.
      bindR (add_days EPOCH_ORDINAL (fq_start_ns request div TARDIS_DAY_NS)) (\<lambda>first_day.
      bindR (add_days EPOCH_ORDINAL ((fq_end_ns request - 1) div TARDIS_DAY_NS)) (\<lambda>last_day.
      mapR (tardis_plan_day a first_day) [0..<nat (last_day - first_day + 1)])))))))"

definition tardis_source_ref :: "TardisConfig \<Rightarrow> string \<Rightarrow> unit res" where
  "tardis_source_ref c source_ref =
     bindR (require (startswith source_ref (DATASET_BASE_URL @ ''/'' @ tf_exchange c @ ''/'' @ data_type_value (tf_data_type c) @ ''/''))
       TardisRequestError) (\<lambda>_.
     bindR (require (endswith source_ref (''/'' @ url_symbol c @ ''.csv.gz'')) TardisRequestError) (\<lambda>_.
     require (''..'' \<notin> set (path_parts (removeprefix source_ref (DATASET_BASE_URL @ ''/'')))) TardisRequestError))"

definition tardis_fetch :: "TardisAdapter \<Rightarrow> FetchChunk \<Rightarrow> bytes res" where
  "tardis_fetch a chunk =
     bindR (tardis_source_ref (ta_config a) (fc_source_ref chunk)) (\<lambda>_.
     bindR (case ta_api_key_provider a of None \<Rightarrow> Inr None | Some call \<Rightarrow> call) (\<lambda>bearer_value.
     bindR (require (\<not> (\<not> te_sample_only (ta_entitlement a) \<and> (bearer_value = None \<or> bearer_value = Some [])))
       TardisRequestError) (\<lambda>_.
     ta_transport a (fc_source_ref chunk) (tf_max_archive_bytes (ta_config a)) bearer_value)))"

section \<open>Values of a row\<close>

type_synonym row = "(string \<times> string) list"

definition row_get :: "row \<Rightarrow> string \<Rightarrow> string res" where
  "row_get row key = (case map_of row key of None \<Rightarrow> Inl KeyError | Some v \<Rightarrow> Inr v)"

definition tardis_uint :: "string \<Rightarrow> int res" where
  "tardis_uint value =
     bindR (require (\<not> (value = [] \<or> \<not> isascii value \<or> \<not> isdigit value \<or> startswith value ''0'' \<and> value \<noteq> ''0'')) TardisSchemaError) (\<lambda>_.
     bindR (py_int value) (\<lambda>parsed.
     bindR (require (\<not> parsed > U64_MAX) TardisSchemaError) (\<lambda>_. Inr parsed)))"

definition micros_to_ns :: "int \<Rightarrow> int res" where
  "micros_to_ns value = (let result = value * 1000 in
     bindR (require (\<not> result > I64_MAX) TardisSchemaError) (\<lambda>_. Inr result))"

definition tardis_decimal_atoms :: "string \<Rightarrow> int \<Rightarrow> bool \<Rightarrow> bool \<Rightarrow> int res" where
  "tardis_decimal_atoms value scale positive allow_negative =
     bindR (require (\<not> (value = [] \<or> strip value \<noteq> value \<or> startswith value ''+'')) TardisSchemaError) (\<lambda>_.
     case decimal_of value of
       None \<Rightarrow> Inl TardisSchemaError
     | Some Special \<Rightarrow> Inl TardisSchemaError
     | Some (Finite neg c e) \<Rightarrow>
         bindR (times_pow10 c e (nat scale)) (\<lambda>(c', e').
         bindR (integer_of neg c' e' TardisSchemaError) (\<lambda>atoms.
         bindR (require (\<not> (atoms < I64_MIN \<or> atoms > I64_MAX)) TardisSchemaError) (\<lambda>_.
         bindR (require (\<not> (positive \<and> atoms \<le> 0)) TardisSchemaError) (\<lambda>_.
         bindR (require (\<not> (\<not> positive \<and> \<not> allow_negative \<and> atoms < 0)) TardisSchemaError) (\<lambda>_. Inr atoms))))))"

definition tardis_boolean :: "string \<Rightarrow> bool res" where
  "tardis_boolean value = (if value = ''true'' then Inr True else if value = ''false'' then Inr False else Inl TardisSchemaError)"

definition tardis_side :: "string \<Rightarrow> bool \<Rightarrow> string res" where
  "tardis_side value allow_unknown =
     (let normalized = lower value in
      if normalized = ''buy'' \<or> normalized = ''bid'' then Inr ''BUY''
      else if normalized = ''sell'' \<or> normalized = ''ask'' then Inr ''SELL''
      else if allow_unknown \<and> normalized = ''unknown'' then Inr ''UNKNOWN''
      else Inl TardisSchemaError)"

text \<open>\<^verbatim>\<open>str(_decimal_atoms(row[name], scale, ...))\<close>\<close>

definition atoms_field :: "row \<Rightarrow> string \<Rightarrow> int \<Rightarrow> bool \<Rightarrow> string res" where
  "atoms_field row name scale positive =
     bindR (row_get row name) (\<lambda>value. bindR (tardis_decimal_atoms value scale positive False) (\<lambda>atoms. Inr (str_int atoms)))"

section \<open>Events\<close>

definition tardis_event ::
    "TardisConfig \<Rightarrow> row \<Rightarrow> nat \<Rightarrow> string \<Rightarrow> fields \<Rightarrow> string option \<Rightarrow> string list \<Rightarrow> fields res" where
  "tardis_event c row tie_breaker event_kind payload source_event_id flags =
     bindR (row_get row ''timestamp'') (\<lambda>timestamp.
     bindR (tardis_uint timestamp) (\<lambda>micros.
     bindR (micros_to_ns micros) (\<lambda>timestamp_ns.
     bindR (row_get row ''local_timestamp'') (\<lambda>local_timestamp.
     bindR (tardis_uint local_timestamp) (\<lambda>local_micros.
     bindR (micros_to_ns local_micros) (\<lambda>local_ns.
     let fallback = data_type_value (tf_data_type c) @ '':'' @ local_timestamp @ '':'' @ dec tie_breaker in
     Inr [(''schema_version'', JStr ''1.0.0''), (''dataset_id'', JStr (tf_dataset_id c)),
          (''instrument_id'', JStr (tf_instrument_id c)), (''venue_id'', JStr (tardis_venue_id c)),
          (''ts_event_ns'', JStr (str_int timestamp_ns)), (''ts_recv_ns'', JStr (str_int local_ns)),
          (''canonical_tie_breaker'', JStr (dec tie_breaker)), (''kind'', JStr event_kind), (''payload'', JObj payload),
          (''quality_flags'', JList (map JStr flags)),
          (''source_event_id'', JStr (case source_event_id of None \<Rightarrow> fallback | Some i \<Rightarrow> if i = [] then fallback else i))]))))))"

definition tardis_trade :: "TardisConfig \<Rightarrow> nat \<Rightarrow> row \<Rightarrow> fields res" where
  "tardis_trade c index row =
     bindR (bindR (row_get row ''side'') (\<lambda>v. tardis_side v True)) (\<lambda>side.
     bindR (row_get row ''id'') (\<lambda>trade_id.
     bindR (atoms_field row ''price'' (tf_price_scale c) True) (\<lambda>price.
     bindR (atoms_field row ''amount'' (tf_qty_scale c) True) (\<lambda>qty.
     let payload = [(''price_atoms'', JStr price), (''qty_atoms'', JStr qty), (''aggressor_side'', JStr side)] @
           (if trade_id = [] then [] else [(''trade_id'', JStr trade_id)])
     in tardis_event c row index ''TRADE'' payload (if trade_id = [] then None else Some trade_id) []))))"

definition bbo_side :: "TardisConfig \<Rightarrow> row \<Rightarrow> string \<Rightarrow> fields res" where
  "bbo_side c row side =
     bindR (row_get row (side @ ''_price'')) (\<lambda>price.
     if price \<noteq> [] then
       bindR (atoms_field row (side @ ''_price'') (tf_price_scale c) True) (\<lambda>price_atoms.
       bindR (atoms_field row (side @ ''_amount'') (tf_qty_scale c) False) (\<lambda>qty_atoms.
       Inr [(side @ ''_price_atoms'', JStr price_atoms), (side @ ''_qty_atoms'', JStr qty_atoms)]))
     else
       bindR (row_get row (side @ ''_amount'')) (\<lambda>amount.
       bindR (require (amount = []) TardisSchemaError) (\<lambda>_. Inr [])))"

definition tardis_bbo :: "TardisConfig \<Rightarrow> nat \<Rightarrow> row \<Rightarrow> fields res" where
  "tardis_bbo c index row =
     bindR (bbo_side c row ''bid'') (\<lambda>bid.
     bindR (bbo_side c row ''ask'') (\<lambda>ask.
     bindR (require (bid @ ask \<noteq> []) TardisSchemaError) (\<lambda>_.
     tardis_event c row index ''BBO'' (bid @ ask) None [])))"

section \<open>Order books\<close>

text \<open>The bids and the asks of a book.\<close>

type_synonym book = "json list \<times> json list"

definition book_level :: "string \<Rightarrow> string \<Rightarrow> json" where
  "book_level price qty = JObj [(''price_atoms'', JStr price), (''qty_atoms'', JStr qty)]"

definition snapshot_level :: "TardisConfig \<Rightarrow> book \<Rightarrow> row \<Rightarrow> book res" where
  "snapshot_level c book row =
     bindR (row_get row ''amount'') (\<lambda>value.
     bindR (tardis_decimal_atoms value (tf_qty_scale c) False False) (\<lambda>amount.
     if amount = 0 then Inr book
     else
       bindR (atoms_field row ''price'' (tf_price_scale c) True) (\<lambda>price.
       bindR (bindR (row_get row ''side'') (\<lambda>v. tardis_side v False)) (\<lambda>side.
       let level = book_level price (str_int amount) in
       Inr (if side = ''BUY'' then (fst book @ [level], snd book) else (fst book, snd book @ [level]))))))"

definition snapshot_group :: "TardisConfig \<Rightarrow> row list \<Rightarrow> nat \<Rightarrow> string list \<Rightarrow> fields res" where
  "snapshot_group c rows index flags =
     bindR (foldR (snapshot_level c) ([], []) rows) (\<lambda>(bids, asks).
     tardis_event c (hd rows) index ''BOOK_SNAPSHOT_L2''
       [(''bids'', JList bids), (''asks'', JList asks), (''scope'', JStr ''FULL'')] None flags)"

definition book_delta :: "TardisConfig \<Rightarrow> nat \<Rightarrow> row \<Rightarrow> fields res" where
  "book_delta c index row =
     bindR (row_get row ''amount'') (\<lambda>value.
     bindR (tardis_decimal_atoms value (tf_qty_scale c) False False) (\<lambda>amount.
     bindR (bindR (row_get row ''side'') (\<lambda>v. tardis_side v False)) (\<lambda>side.
     bindR (atoms_field row ''price'' (tf_price_scale c) True) (\<lambda>price.
     tardis_event c row index ''BOOK_DELTA_L2''
       [(''side'', JStr side), (''price_atoms'', JStr price), (''new_qty_atoms'', JStr (str_int amount)),
        (''action'', JStr (if amount = 0 then ''DELETE'' else ''UPSERT''))] None []))))"

text \<open>The incremental book: the rows that share a local timestamp form a group, whose rows are all snapshot rows or all
  updates; updates before the first snapshot are skipped.\<close>

record l2_state =
  l2_ready :: bool
  l2_skipped_before_snapshot :: bool
  l2_saw_incremental_after_snapshot :: bool

fun same_time :: "string \<Rightarrow> row list \<Rightarrow> nat res" where
  "same_time t [] = Inr 0"
| "same_time t (row # rows) =
     bindR (row_get row ''local_timestamp'') (\<lambda>u. if u = t then bindR (same_time t rows) (\<lambda>n. Inr (Suc n)) else Inr 0)"

definition group_is_snapshot :: "row list \<Rightarrow> bool res" where
  "group_is_snapshot grp =
     bindR (mapR (\<lambda>row. bindR (row_get row ''is_snapshot'') tardis_boolean) grp) (\<lambda>flags.
     bindR (require (list_all (\<lambda>f. f = hd flags) flags) TardisSchemaError) (\<lambda>_. Inr (hd flags)))"

definition snapshot_flags :: "l2_state \<Rightarrow> string list" where
  "snapshot_flags s =
     (if l2_skipped_before_snapshot s then [''PRE_SNAPSHOT_UPDATES_SKIPPED''] else []) @
     (if l2_ready s \<and> l2_saw_incremental_after_snapshot s then [''RECONNECT_SNAPSHOT''] else [])"

definition l2_group :: "TardisConfig \<Rightarrow> l2_state \<Rightarrow> nat \<Rightarrow> row list \<Rightarrow> (fields list \<times> l2_state) res" where
  "l2_group c s index grp =
     bindR (group_is_snapshot grp) (\<lambda>is_snapshot.
     if is_snapshot then
       bindR (snapshot_group c grp index (snapshot_flags s)) (\<lambda>event.
       Inr ([event], s\<lparr>l2_ready := True, l2_saw_incremental_after_snapshot := False\<rparr>))
     else if \<not> l2_ready s then Inr ([], s\<lparr>l2_skipped_before_snapshot := True\<rparr>)
     else
       bindR (mapR (\<lambda>(row_offset, row). book_delta c (index + row_offset) row) (enumerate 0 grp)) (\<lambda>events.
       Inr (events, s\<lparr>l2_saw_incremental_after_snapshot := True\<rparr>)))"

function incremental_l2 :: "TardisConfig \<Rightarrow> l2_state \<Rightarrow> nat \<Rightarrow> row list \<Rightarrow> fields list res" where
  "incremental_l2 c s index [] = Inr []"
| "incremental_l2 c s index (row # rows) =
     bindR (row_get row ''local_timestamp'') (\<lambda>local_timestamp.
     bindR (same_time local_timestamp rows) (\<lambda>n.
     bindR (l2_group c s index (row # take n rows)) (\<lambda>(events, s').
     bindR (incremental_l2 c s' (index + Suc n) (drop n rows)) (\<lambda>rest. Inr (events @ rest)))))"
  by pat_completeness auto
termination
  by (relation "measure (\<lambda>(_, _, _, rows). length rows)") auto

definition l2_start :: l2_state where
  "l2_start = \<lparr>l2_ready = False, l2_skipped_before_snapshot = False, l2_saw_incremental_after_snapshot = False\<rparr>"

text \<open>The snapshot data sets: one row is a whole book.\<close>

definition snapshot_depth :: "TardisConfig \<Rightarrow> nat" where
  "snapshot_depth c = (if tf_data_type c = BOOK_SNAPSHOT_25 then 25 else 5)"

definition snapshot_column :: "string \<Rightarrow> nat \<Rightarrow> string \<Rightarrow> string" where
  "snapshot_column prefix level_index name = prefix @ ''['' @ dec level_index @ ''].'' @ name"

definition row_level :: "TardisConfig \<Rightarrow> row \<Rightarrow> string \<Rightarrow> nat \<Rightarrow> json list res" where
  "row_level c row prefix level_index =
     bindR (row_get row (snapshot_column prefix level_index ''price'')) (\<lambda>price.
     bindR (row_get row (snapshot_column prefix level_index ''amount'')) (\<lambda>amount.
     if price = [] \<and> amount = [] then Inr []
     else
       bindR (require (\<not> (price = [] \<or> amount = [])) TardisSchemaError) (\<lambda>_.
       bindR (tardis_decimal_atoms amount (tf_qty_scale c) False False) (\<lambda>qty.
       if qty = 0 then Inr []
       else
         bindR (tardis_decimal_atoms price (tf_price_scale c) True False) (\<lambda>price_atoms.
         Inr [book_level (str_int price_atoms) (str_int qty)])))))"

definition row_levels :: "TardisConfig \<Rightarrow> row \<Rightarrow> book \<Rightarrow> nat \<Rightarrow> book res" where
  "row_levels c row book level_index =
     bindR (row_level c row ''bids'' level_index) (\<lambda>bids.
     bindR (row_level c row ''asks'' level_index) (\<lambda>asks. Inr (fst book @ bids, snd book @ asks)))"

definition snapshot_row :: "TardisConfig \<Rightarrow> nat \<Rightarrow> row \<Rightarrow> fields res" where
  "snapshot_row c index row =
     bindR (foldR (row_levels c row) ([], []) [0..<snapshot_depth c]) (\<lambda>(bids, asks).
     tardis_event c row index ''BOOK_SNAPSHOT_L2''
       [(''bids'', JList bids), (''asks'', JList asks), (''scope'', JStr ''TOP_N''), (''depth'', JInt (int (snapshot_depth c)))] None [])"

section \<open>Derivatives and liquidations\<close>

definition derivative_fields :: "TardisConfig \<Rightarrow> (string \<times> string \<times> int \<times> string) list" where
  "derivative_fields c =
     [(''funding_rate'', ''FUNDING_RATE'', tf_rate_scale c, ''rate''), (''open_interest'', ''OPEN_INTEREST'', tf_qty_scale c, ''quantity''),
      (''index_price'', ''INDEX_PRICE'', tf_price_scale c, ''price''), (''mark_price'', ''MARK_PRICE'', tf_price_scale c, ''price'')]"

definition value_payload :: "int \<Rightarrow> string \<Rightarrow> fields" where
  "value_payload atoms unit = [(''value_atoms'', JStr (str_int atoms)), (''unit'', JStr unit)]"

definition derivative_field ::
    "TardisConfig \<Rightarrow> nat \<Rightarrow> row \<Rightarrow> fields list \<times> nat \<Rightarrow> string \<times> string \<times> int \<times> string \<Rightarrow> (fields list \<times> nat) res" where
  "derivative_field c index row = (\<lambda>(output, ordinal) (column, event_kind, scale, unit).
     bindR (row_get row column) (\<lambda>value.
     if value = [] then Inr (output, ordinal)
     else
       bindR (tardis_decimal_atoms value scale False (event_kind = ''FUNDING_RATE'')) (\<lambda>atoms.
       bindR (tardis_event c row (index * 8 + ordinal) event_kind (value_payload atoms unit) None []) (\<lambda>event.
       Inr (output @ [event], Suc ordinal)))))"

definition derivative_row :: "TardisConfig \<Rightarrow> nat \<Rightarrow> row \<Rightarrow> fields list res" where
  "derivative_row c index row =
     bindR (foldR (derivative_field c index row) ([], 0) (derivative_fields c)) (\<lambda>(output, ordinal).
     bindR (row_get row ''funding_timestamp'') (\<lambda>funding_timestamp.
     if funding_timestamp = [] then Inr output
     else
       bindR (tardis_uint funding_timestamp) (\<lambda>micros.
       bindR (micros_to_ns micros) (\<lambda>timestamp_ns.
       bindR (tardis_event c row (index * 8 + ordinal) ''FUNDING_PAYMENT_TIME'' (value_payload timestamp_ns ''ns'') None []) (\<lambda>event.
       Inr (output @ [event]))))))"

definition derivative_events :: "TardisConfig \<Rightarrow> row list \<Rightarrow> fields list res" where
  "derivative_events c rows =
     bindR (mapR (\<lambda>(index, row). derivative_row c index row) (enumerate 0 rows)) (\<lambda>outputs. Inr (concat outputs))"

definition tardis_liquidation :: "TardisConfig \<Rightarrow> nat \<Rightarrow> row \<Rightarrow> fields res" where
  "tardis_liquidation c index row =
     bindR (row_get row ''id'') (\<lambda>liquidation_id.
     bindR (atoms_field row ''price'' (tf_price_scale c) True) (\<lambda>price.
     bindR (atoms_field row ''amount'' (tf_qty_scale c) True) (\<lambda>qty.
     bindR (bindR (row_get row ''side'') (\<lambda>v. tardis_side v True)) (\<lambda>side.
     let payload = [(''price_atoms'', JStr price), (''qty_atoms'', JStr qty), (''side'', JStr side)] @
           (if liquidation_id = [] then [] else [(''liquidation_id'', JStr liquidation_id)])
     in tardis_event c row index ''LIQUIDATION_PRINT'' payload (if liquidation_id = [] then None else Some liquidation_id) []))))"

section \<open>Normalization\<close>

text \<open>\<open>gunzip raw n\<close> is what reading at most \<open>n\<close> bytes of the decompressed object gives.\<close>

definition tardis_decompress :: "(bytes \<Rightarrow> int \<Rightarrow> bytes res) \<Rightarrow> TardisConfig \<Rightarrow> bytes \<Rightarrow> string res" where
  "tardis_decompress gunzip c raw =
     bindR (catchR (gunzip raw (tf_max_uncompressed_bytes c + 1)) (\<lambda>e. e = OSError \<or> e = EOFError) TardisIntegrityError) (\<lambda>payload.
     bindR (require (\<not> int (length payload) > tf_max_uncompressed_bytes c) TardisIntegrityError) (\<lambda>_.
     catchR (utf8_decode payload) is_ValueError TardisSchemaError))"

definition header_base :: "string list" where
  "header_base = [''exchange'', ''symbol'', ''timestamp'', ''local_timestamp'']"

definition snapshot_columns :: "nat \<Rightarrow> string list" where
  "snapshot_columns depth = concat (map (\<lambda>i. [snapshot_column ''asks'' i ''price'', snapshot_column ''asks'' i ''amount'',
     snapshot_column ''bids'' i ''price'', snapshot_column ''bids'' i ''amount'']) [0..<depth])"

fun expected_header :: "TardisDataType \<Rightarrow> string list" where
  "expected_header TRADES = header_base @ [''id'', ''side'', ''price'', ''amount'']"
| "expected_header LIQUIDATIONS = header_base @ [''id'', ''side'', ''price'', ''amount'']"
| "expected_header QUOTES = header_base @ [''ask_amount'', ''ask_price'', ''bid_price'', ''bid_amount'']"
| "expected_header BOOK_TICKER = header_base @ [''ask_amount'', ''ask_price'', ''bid_price'', ''bid_amount'']"
| "expected_header INCREMENTAL_BOOK_L2 = header_base @ [''is_snapshot'', ''side'', ''price'', ''amount'']"
| "expected_header BOOK_SNAPSHOT_25 = header_base @ snapshot_columns 25"
| "expected_header BOOK_SNAPSHOT_5 = header_base @ snapshot_columns 5"
| "expected_header DERIVATIVE_TICKER = header_base @ [''funding_timestamp'', ''funding_rate'', ''predicted_funding_rate'',
     ''open_interest'', ''last_price'', ''index_price'', ''mark_price'']"

definition validate_header :: "TardisConfig \<Rightarrow> string list \<Rightarrow> unit res" where
  "validate_header c fieldnames = require (set fieldnames = set (expected_header (tf_data_type c))) TardisSchemaError"

definition validate_identity :: "TardisConfig \<Rightarrow> row \<Rightarrow> unit res" where
  "validate_identity c row =
     bindR (row_get row ''exchange'') (\<lambda>exchange.
     bindR (require (exchange = tf_exchange c) TardisSchemaError) (\<lambda>_.
     bindR (row_get row ''symbol'') (\<lambda>symbol. require (symbol = tf_symbol c) TardisSchemaError)))"

text \<open>The columns of a row that have a value.\<close>

definition present_columns :: "(string \<times> string option) list \<Rightarrow> row" where
  "present_columns named = concat (map (\<lambda>(k, v). case v of None \<Rightarrow> [] | Some s \<Rightarrow> [(k, s)]) named)"

fun read_rows :: "TardisConfig \<Rightarrow> nat \<Rightarrow> dict_row res list \<Rightarrow> row list res" where
  "read_rows c index [] = Inr []"
| "read_rows c index (outcome # outcomes) =
     bindR outcome (\<lambda>raw_row.
     bindR (require (\<not> int index \<ge> tf_max_rows_per_chunk c) TardisIntegrityError) (\<lambda>_.
     bindR (require (dr_rest raw_row = []) TardisSchemaError) (\<lambda>_.
     let row = present_columns (dr_named raw_row) in
     bindR (validate_identity c row) (\<lambda>_.
     bindR (read_rows c (Suc index) outcomes) (\<lambda>rows. Inr (row # rows))))))"

definition tardis_events :: "TardisConfig \<Rightarrow> row list \<Rightarrow> fields list res" where
  "tardis_events c rows =
     (case tf_data_type c of
        TRADES \<Rightarrow> mapR (\<lambda>(index, row). tardis_trade c index row) (enumerate 0 rows)
      | QUOTES \<Rightarrow> mapR (\<lambda>(index, row). tardis_bbo c index row) (enumerate 0 rows)
      | BOOK_TICKER \<Rightarrow> mapR (\<lambda>(index, row). tardis_bbo c index row) (enumerate 0 rows)
      | INCREMENTAL_BOOK_L2 \<Rightarrow> incremental_l2 c l2_start 0 rows
      | BOOK_SNAPSHOT_25 \<Rightarrow> mapR (\<lambda>(index, row). snapshot_row c index row) (enumerate 0 rows)
      | BOOK_SNAPSHOT_5 \<Rightarrow> mapR (\<lambda>(index, row). snapshot_row c index row) (enumerate 0 rows)
      | DERIVATIVE_TICKER \<Rightarrow> derivative_events c rows
      | LIQUIDATIONS \<Rightarrow> mapR (\<lambda>(index, row). tardis_liquidation c index row) (enumerate 0 rows))"

definition tardis_normalize :: "(bytes \<Rightarrow> int \<Rightarrow> bytes res) \<Rightarrow> TardisConfig \<Rightarrow> FetchChunk \<Rightarrow> bytes \<Rightarrow> fields list res" where
  "tardis_normalize gunzip c chunk raw =
     bindR (tardis_source_ref c (fc_source_ref chunk)) (\<lambda>_.
     bindR (tardis_decompress gunzip c raw) (\<lambda>text.
     case csv_read text of
       [] \<Rightarrow> Inl TardisSchemaError
     | header # records \<Rightarrow>
         bindR header (\<lambda>fieldnames.
         bindR (validate_header c fieldnames) (\<lambda>_.
         bindR (read_rows c 0 (dict_rows fieldnames records)) (\<lambda>rows. tardis_events c rows)))))"

definition tardis_adapter :: "(bytes \<Rightarrow> int \<Rightarrow> bytes res) \<Rightarrow> TardisAdapter \<Rightarrow> adapter" where
  "tardis_adapter gunzip a =
     \<lparr>ad_plan = tardis_plan a, ad_fetch = tardis_fetch a, ad_normalize = tardis_normalize gunzip (ta_config a)\<rparr>"

end
