(* ===== verification/Tardis_Theorems.thy ===== *)
theory Tardis_Theorems
  imports Providers Tardis
begin

text \<open>
  The Tardis adapter: a plan has one permitted object per UTC day of the request, the capabilities claim exactly what every
  day of the interval permits, provider decimals are read exactly, and the incremental order book never emits an update
  before a snapshot and loses none after it.
\<close>

section \<open>Plans\<close>

definition tardis_chunk :: "TardisConfig \<Rightarrow> int \<Rightarrow> FetchChunk" where
  "tardis_chunk c day = \<lparr>fc_key = tardis_chunk_key c day, fc_source_ref = dataset_url c day, fc_expected_bytes = None,
     fc_estimated_cost_minor = tf_estimated_cost_minor_per_chunk c\<rparr>"

lemma tardis_plan_day_iff:
  "tardis_plan_day a first offset = Inr x \<longleftrightarrow> valid_date (first + int offset) \<and>
     permits (ta_entitlement a) (tf_data_type (ta_config a)) (first + int offset) \<and> x = tardis_chunk (ta_config a) (first + int offset)"
  unfolding tardis_plan_day_def add_days_def Let_def bindR_eq_Inr require_simps valid_date_def tardis_chunk_def by auto

interpretation tardis_days: daily_planner "tardis_plan_day a" "tardis_chunk (ta_config a)"
    "tf_exchange (ta_config a) @ '':'' @ data_type_value (tf_data_type (ta_config a)) @ '':'' @ url_symbol (ta_config a) @ '':''" for a
  by unfold_locales (auto simp: tardis_plan_day_iff tardis_chunk_def tardis_chunk_key_def)

lemma tardis_plan_shape:
  assumes "tardis_plan a q = Inr plan"
  shows "fq_start_ns q < fq_end_ns q" and
    "mapR (tardis_plan_day a (utc_day (fq_start_ns q))) [0..<nat (utc_day (fq_end_ns q - 1) - utc_day (fq_start_ns q) + 1)] = Inr plan"
  using assms unfolding tardis_plan_def Let_def bindR_eq_Inr require_simps add_days_def
  by (auto simp: utc_day_def TARDIS_DAY_NS_def NANOSECONDS_PER_DAY_eq)

interpretation tardis_provider: keyed_provider "tardis_adapter gunzip a" for gunzip a
  by unfold_locales (auto simp: tardis_adapter_def dest: tardis_plan_shape(2) intro: tardis_days.plan_keys_distinct)

section \<open>Capabilities\<close>

definition covered :: "TardisEntitlement \<Rightarrow> int \<Rightarrow> int \<Rightarrow> TardisDataType \<Rightarrow> bool" where
  "covered e start_day end_day data_type \<longleftrightarrow> (\<forall>day\<in>{start_day..end_day}. permits e data_type day)"

lemma complete_interval_iff:
  assumes "end_day < MAXORDINAL"
  shows "complete_interval e t current end_day = Inr (covered e current end_day t)"
  using assms
proof (induction e t current end_day rule: complete_interval.induct)
  case (1 e t current end_day)
  show ?case
  proof (cases "current \<le> end_day \<and> permits e t current")
    case True
    then have days: "covered e current end_day t \<longleftrightarrow> covered e (current + 1) end_day t"
      by (auto simp: covered_def) (metis atLeastAtMost_iff int_one_le_iff_zero_less order_le_less zless_imp_add1_zle)
    have "current + 1 \<le> MAXORDINAL" using True "1.prems" by simp
    with True "1.IH" "1.prems" show ?thesis unfolding days by (subst complete_interval.simps) simp
  next
    case False
    then show ?thesis by (subst complete_interval.simps) (auto simp: covered_def)
  qed
qed

definition tier_of :: "(TardisDataType \<Rightarrow> bool) \<Rightarrow> string option" where
  "tier_of has = (if has INCREMENTAL_BOOK_L2 then Some ''F2'' else if has TRADES \<and> (has QUOTES \<or> has BOOK_TICKER) then Some ''F1''
     else if has TRADES then Some ''F0T'' else None)"

lemma capabilities_eq:
  fixes e :: TardisEntitlement
  assumes "start_day \<le> end_day" and "end_day < MAXORDINAL"
  defines "has \<equiv> covered e start_day end_day"
  shows "capabilities_for_interval e start_day end_day = Inr
    \<lparr>cap_has_trades = has TRADES, cap_has_bbo = has QUOTES \<or> has BOOK_TICKER,
     cap_has_l2_snapshots = has INCREMENTAL_BOOK_L2 \<or> has BOOK_SNAPSHOT_25 \<or> has BOOK_SNAPSHOT_5,
     cap_has_l2_deltas = has INCREMENTAL_BOOK_L2, cap_has_funding = has DERIVATIVE_TICKER,
     cap_has_liquidations = has LIQUIDATIONS, cap_execution_tier = tier_of has\<rparr>"
proof -
  have orR: "orR (Inr x) (Inr y) = Inr (x \<or> y)" for x y by (simp add: orR_def)
  show ?thesis unfolding capabilities_for_interval_def Let_def complete_interval_iff [OF assms(2)] orR bindR_simps has_def
    using assms(1) by (simp add: tier_of_def)
qed

section \<open>Decimals\<close>

lemma tardis_decimal_exact:
  assumes "decimal_of v = Some (Finite neg c e)" and "v \<noteq> []" and "strip v = v" and "\<not> startswith v ''+''"
    and "scaled_exactly c e (nat scale)"
  shows "tardis_decimal_atoms v scale positive allow_negative = Inr a \<longleftrightarrow>
    (\<exists>m. denotes c (e + int (nat scale)) m \<and> a = (if neg then - 1 else 1) * int m) \<and> in_i64 a \<and>
    (positive \<longrightarrow> 0 < a) \<and> (\<not> positive \<and> \<not> allow_negative \<longrightarrow> 0 \<le> a)"
proof -
  from times_pow10_exact [OF assms(5)] obtain c' e' where s: "times_pow10 c e (nat scale) = Inr (c', e')"
    "\<forall>m. denotes c' e' m \<longleftrightarrow> denotes c (e + int (nat scale)) m" by blast
  have guard: "\<not> (v = [] \<or> strip v \<noteq> v \<or> startswith v ''+'')" using assms(2-4) by simp
  show ?thesis
    unfolding tardis_decimal_atoms_def assms(1) option.case decimal.case s(1) bindR_simps prod.case
      bindR_eq_Inr require_simps(3) integer_of_denotes(1) [OF s(2)] in_i64_def
    using guard by (auto simp: not_less not_le)
qed

section \<open>Incremental books\<close>

definition row_is_snapshot :: "row \<Rightarrow> bool" where
  "row_is_snapshot row \<longleftrightarrow> row_get row ''is_snapshot'' = Inr ''true''"

definition has_kind :: "string \<Rightarrow> fields \<Rightarrow> bool" where
  "has_kind k event \<longleftrightarrow> jget event ''kind'' = JStr k"

lemma tardis_event_kind: "tardis_event c row n k payload i flags = Inr event \<Longrightarrow> has_kind k event"
  unfolding tardis_event_def bindR_eq_Inr Let_def has_kind_def by (auto simp: jget_def)

lemma book_delta_kind: "book_delta c n row = Inr event \<Longrightarrow> has_kind ''BOOK_DELTA_L2'' event"
  unfolding book_delta_def bindR_eq_Inr by (blast intro: tardis_event_kind)

lemma snapshot_group_kind: "snapshot_group c rows n flags = Inr event \<Longrightarrow> has_kind ''BOOK_SNAPSHOT_L2'' event"
  unfolding snapshot_group_def bindR_eq_Inr by (auto split: prod.splits intro: tardis_event_kind)

lemma group_flags:
  assumes "group_is_snapshot grp = Inr b" and "grp \<noteq> []"
  shows "\<forall>row\<in>set grp. row_is_snapshot row \<longleftrightarrow> b"
proof -
  from assms(1) obtain flags where m: "mapR (\<lambda>row. bindR (row_get row ''is_snapshot'') tardis_boolean) grp = Inr flags"
    and all: "list_all (\<lambda>f. f = hd flags) flags" and b: "b = hd flags"
    unfolding group_is_snapshot_def bindR_eq_Inr by auto
  have flag: "bindR (row_get row ''is_snapshot'') tardis_boolean = Inr b" if "row \<in> set grp" for row
  proof -
    from that obtain k where k: "k < length grp" "row = grp ! k" by (metis in_set_conv_nth)
    with m have "bindR (row_get row ''is_snapshot'') tardis_boolean = Inr (flags ! k)" "k < length flags"
      by (auto simp: mapR_eq_Inr list_all2_conv_all_nth)
    moreover from this(2) all b have "flags ! k = b" by (simp add: list_all_iff)
    ultimately show ?thesis by simp
  qed
  show ?thesis
  proof
    fix row assume "row \<in> set grp"
    from flag [OF this] obtain x where "row_get row ''is_snapshot'' = Inr x" "tardis_boolean x = Inr b" by auto
    then show "row_is_snapshot row \<longleftrightarrow> b" by (auto simp: row_is_snapshot_def tardis_boolean_def split: if_splits)
  qed
qed

text \<open>The update rows that count, with their positions: all of them once a snapshot was seen, else those after the first
  snapshot row.\<close>

definition is_update :: "nat \<times> row \<Rightarrow> bool" where
  "is_update = (\<lambda>(i, row). \<not> row_is_snapshot row)"

definition l2_updates :: "bool \<Rightarrow> nat \<Rightarrow> row list \<Rightarrow> (nat \<times> row) list" where
  "l2_updates ready index rows =
     filter is_update (if ready then enumerate index rows else dropWhile is_update (enumerate index rows))"

lemma l2_updates_Nil [simp]: "l2_updates ready index [] = []"
  by (simp add: l2_updates_def)

lemma enumerate_updates:
  "\<forall>row\<in>set g. \<not> row_is_snapshot row \<Longrightarrow> \<forall>x\<in>set (enumerate index g). is_update x"
  "\<forall>row\<in>set g. row_is_snapshot row \<Longrightarrow> \<forall>x\<in>set (enumerate index g). \<not> is_update x"
  by (auto simp: is_update_def in_set_enumerate_eq)

lemma l2_updates_skipped:
  assumes "\<forall>row\<in>set g. \<not> row_is_snapshot row"
  shows "l2_updates False index (g @ rest) = l2_updates False (index + length g) rest"
  unfolding l2_updates_def enumerate_append_eq using enumerate_updates(1) [OF assms, of index] by (simp add: dropWhile_append)

lemma l2_updates_ready:
  assumes "\<forall>row\<in>set g. \<not> row_is_snapshot row"
  shows "l2_updates True index (g @ rest) = enumerate index g @ l2_updates True (index + length g) rest"
  unfolding l2_updates_def enumerate_append_eq using enumerate_updates(1) [OF assms, of index] by simp

lemma l2_updates_snapshot:
  assumes "\<forall>row\<in>set g. row_is_snapshot row" and "g \<noteq> []"
  shows "l2_updates ready index (g @ rest) = l2_updates True (index + length g) rest"
proof -
  have no: "\<forall>x\<in>set (enumerate index g). \<not> is_update x" by (rule enumerate_updates(2) [OF assms(1)])
  have "enumerate index g \<noteq> []" using assms(2) by (cases g) simp_all
  with no have "dropWhile is_update (enumerate index g @ xs) = enumerate index g @ xs" for xs by (cases "enumerate index g") auto
  moreover have "filter is_update (enumerate index g) = []" using no by (simp add: filter_empty_conv)
  ultimately show ?thesis unfolding l2_updates_def enumerate_append_eq by simp
qed

lemma same_time_le: "same_time t rows = Inr n \<Longrightarrow> n \<le> length rows"
  by (induction t rows arbitrary: n rule: same_time.induct) (auto split: if_splits)

lemma enumerate_shift: "enumerate index g = map (\<lambda>(k, row). (index + k, row)) (enumerate 0 g)"
  by (rule nth_equalityI) (simp_all add: nth_enumerate_eq)

lemma delta_events:
  assumes "mapR (\<lambda>(k, row). book_delta c (index + k) row) (enumerate 0 g) = Inr events"
  shows "list_all2 (\<lambda>(i, row) event. book_delta c i row = Inr event) (enumerate index g) events"
    and "\<forall>event\<in>set events. has_kind ''BOOK_DELTA_L2'' event"
proof -
  show l: "list_all2 (\<lambda>(i, row) event. book_delta c i row = Inr event) (enumerate index g) events"
    unfolding enumerate_shift [of index] using assms by (simp add: mapR_eq_Inr list_all2_map1 split_def)
  show "\<forall>event\<in>set events. has_kind ''BOOK_DELTA_L2'' event"
  proof
    fix event assume "event \<in> set events"
    then obtain k where "k < length events" "event = events ! k" by (metis in_set_conv_nth)
    with l show "has_kind ''BOOK_DELTA_L2'' event" by (auto simp: list_all2_conv_all_nth split_def intro: book_delta_kind)
  qed
qed

definition book_sound :: "TardisConfig \<Rightarrow> bool \<Rightarrow> nat \<Rightarrow> row list \<Rightarrow> fields list \<Rightarrow> bool" where
  "book_sound c ready index rows events \<longleftrightarrow>
     list_all2 (\<lambda>(i, row) event. book_delta c i row = Inr event) (l2_updates ready index rows)
       (filter (has_kind ''BOOK_DELTA_L2'') events) \<and>
     (\<forall>event\<in>set events. has_kind ''BOOK_DELTA_L2'' event \<or> has_kind ''BOOK_SNAPSHOT_L2'' event) \<and>
     (ready \<or> events = [] \<or> has_kind ''BOOK_SNAPSHOT_L2'' (hd events))"

lemma kinds_differ: "has_kind ''BOOK_SNAPSHOT_L2'' event \<Longrightarrow> \<not> has_kind ''BOOK_DELTA_L2'' event"
  by (simp add: has_kind_def)

lemma l2_group_sound:
  assumes group: "l2_group c s index g = Inr (events, s')" and "g \<noteq> []"
    and rest: "book_sound c (l2_ready s') (index + length g) rows later"
  shows "book_sound c (l2_ready s) index (g @ rows) (events @ later)"
proof -
  from group obtain b where b: "group_is_snapshot g = Inr b" unfolding l2_group_def bindR_eq_Inr by blast
  note flags = group_flags [OF b assms(2)]
  consider "b" | "\<not> b" "\<not> l2_ready s" | "\<not> b" "l2_ready s" by blast
  then show ?thesis
  proof cases
    case 1
    with group b obtain event where e: "snapshot_group c g index (snapshot_flags s) = Inr event" "events = [event]" "l2_ready s'"
      unfolding l2_group_def by auto
    have "\<forall>row\<in>set g. row_is_snapshot row" using flags 1 by simp
    note l2_updates_snapshot [OF this assms(2), of "l2_ready s" index rows]
    with rest e snapshot_group_kind [OF e(1)] kinds_differ show ?thesis by (simp add: book_sound_def)
  next
    case 2
    with group b have e: "events = []" "\<not> l2_ready s'" unfolding l2_group_def by auto
    have "\<forall>row\<in>set g. \<not> row_is_snapshot row" using flags 2 by simp
    note l2_updates_skipped [OF this, of index rows]
    with rest e 2 show ?thesis by (simp add: book_sound_def)
  next
    case 3
    with group b have e: "mapR (\<lambda>(k, row). book_delta c (index + k) row) (enumerate 0 g) = Inr events" "l2_ready s'"
      unfolding l2_group_def by auto
    have "\<forall>row\<in>set g. \<not> row_is_snapshot row" using flags 3 by simp
    note l2_updates_ready [OF this, of index rows]
    with rest e 3 delta_events [OF e(1)] show ?thesis by (auto simp: book_sound_def list_all2_appendI)
  qed
qed

lemma incremental_l2_sound:
  "incremental_l2 c s index rows = Inr events \<Longrightarrow> book_sound c (l2_ready s) index rows events"
proof (induction c s index rows arbitrary: events rule: incremental_l2.induct)
  case (1 c s index)
  then show ?case by (simp add: book_sound_def)
next
  case (2 c s index row rows)
  from "2.prems" obtain t n group s' later where t: "row_get row ''local_timestamp'' = Inr t" and n: "same_time t rows = Inr n"
    and g: "l2_group c s index (row # take n rows) = Inr (group, s')"
    and later: "incremental_l2 c s' (index + Suc n) (drop n rows) = Inr later" and events: "events = group @ later"
    by (auto split: prod.splits)
  from later have "book_sound c (l2_ready s') (index + Suc n) (drop n rows) later" by (intro "2.IH") (use t n g in auto)
  moreover have "length (row # take n rows) = Suc n" using same_time_le [OF n] by simp
  ultimately have "book_sound c (l2_ready s) index ((row # take n rows) @ drop n rows) events"
    unfolding events using g by (intro l2_group_sound) auto
  then show ?case by simp
qed

section \<open>Properties\<close>

text \<open>C29: a plan is exact. Its chunks are, in order, the objects of the UTC days that contain a time of the requested range
  and of no other day; the entitlement permits every one of them, and their keys are distinct, which is what the runner
  needs to resume the job.\<close>

theorem tardis_plan_exact:
  assumes "tardis_plan a q = Inr plan"
  shows "\<exists>days. plan = map (tardis_chunk (ta_config a)) days \<and> sorted days \<and> distinct (map fc_key plan) \<and>
    (\<forall>day. day \<in> set days \<longleftrightarrow> (\<exists>t. fq_start_ns q \<le> t \<and> t < fq_end_ns q \<and> utc_day t = day)) \<and>
    (\<forall>day\<in>set days. permits (ta_entitlement a) (tf_data_type (ta_config a)) day)"
proof -
  let ?first = "utc_day (fq_start_ns q)" and ?last = "utc_day (fq_end_ns q - 1)"
  note shape = tardis_plan_shape [OF assms]
  have "?first \<le> ?last" using shape(1) by (intro utc_day_mono) simp
  then have n: "?first + int (nat (?last - ?first + 1)) - 1 = ?last" by simp
  note days = tardis_days.plan_days [OF shape(2), unfolded n] tardis_days.plan_keys_distinct [OF shape(2)]
  have "\<forall>day\<in>{?first..?last}. permits (ta_entitlement a) (tf_data_type (ta_config a)) day"
    using days(2) by (auto simp: tardis_plan_day_iff)
  moreover have "day \<in> set [?first..?last] \<longleftrightarrow> (\<exists>t. fq_start_ns q \<le> t \<and> t < fq_end_ns q \<and> utc_day t = day)" for day
    using utc_days_between [OF shape(1), of day] by simp
  ultimately show ?thesis using days(1,3)
    by (intro exI [of _ "[?first..?last]"] conjI allI) simp_all
qed

text \<open>The capabilities of an interval claim a data set exactly if the entitlement permits it on every day of the
  interval, and the execution tier is the highest one those data sets support; the computation ends for every interval
  inside the calendar.\<close>

theorem capabilities_exact:
  assumes "start_day \<le> end_day" and "end_day < MAXORDINAL"
  shows "\<exists>cap. capabilities_for_interval e start_day end_day = Inr cap \<and>
    (cap_has_trades cap \<longleftrightarrow> covered e start_day end_day TRADES) \<and>
    (cap_has_bbo cap \<longleftrightarrow> covered e start_day end_day QUOTES \<or> covered e start_day end_day BOOK_TICKER) \<and>
    (cap_has_l2_deltas cap \<longleftrightarrow> covered e start_day end_day INCREMENTAL_BOOK_L2) \<and>
    (cap_has_l2_deltas cap \<longrightarrow> cap_has_l2_snapshots cap) \<and>
    (cap_execution_tier cap = Some ''F2'' \<longleftrightarrow> cap_has_l2_deltas cap) \<and>
    (cap_execution_tier cap = Some ''F1'' \<longleftrightarrow> cap_has_trades cap \<and> cap_has_bbo cap \<and> \<not> cap_has_l2_deltas cap)"
  unfolding capabilities_eq [OF assms] by (auto simp: tier_of_def)

text \<open>C28: the incremental book. Whatever rows the data set has, if they normalize then the events are snapshots and
  updates, none before a snapshot; the updates are exactly the update rows after the first snapshot row, each once, in the
  order of the rows and with its own position as tie breaker.\<close>

theorem incremental_book_exact:
  assumes "tf_data_type c = INCREMENTAL_BOOK_L2" and "tardis_events c rows = Inr events"
  shows "list_all2 (\<lambda>(i, row) event. book_delta c i row = Inr event) (l2_updates False 0 rows)
       (filter (has_kind ''BOOK_DELTA_L2'') events) \<and>
     (\<forall>event\<in>set events. has_kind ''BOOK_DELTA_L2'' event \<or> has_kind ''BOOK_SNAPSHOT_L2'' event) \<and>
     (events = [] \<or> has_kind ''BOOK_SNAPSHOT_L2'' (hd events))"
proof -
  have "incremental_l2 c l2_start 0 rows = Inr events" using assms by (simp add: tardis_events_def)
  from incremental_l2_sound [OF this] show ?thesis by (simp add: book_sound_def l2_start_def)
qed

section \<open>Witnesses\<close>

definition demo_tardis_config :: "TardisDataType \<Rightarrow> TardisConfig" where
  "demo_tardis_config t = \<lparr>tf_exchange = ''okex'', tf_symbol = ''BTC'', tf_data_type = t, tf_instrument_id = ''I'',
     tf_dataset_id = ''D'', tf_price_scale = 2, tf_qty_scale = 0, tf_rate_scale = 12, tf_max_archive_bytes = 1000,
     tf_max_uncompressed_bytes = 1000, tf_max_rows_per_chunk = 10, tf_estimated_cost_minor_per_chunk = 0\<rparr>"

definition demo_entitlement :: TardisEntitlement where
  "demo_entitlement = \<lparr>te_coverage = \<lparr>tc_exchange = ''okex'', tc_symbol = ''BTC'', tc_data_types = {TRADES, INCREMENTAL_BOOK_L2},
     tc_available_since = 719163, tc_available_to = 719200, tc_exported_until = None\<rparr>,
     te_allowed_data_types = {TRADES, INCREMENTAL_BOOK_L2}, te_sample_only = False\<rparr>"

definition demo_tardis :: TardisAdapter where
  "demo_tardis = \<lparr>ta_config = demo_tardis_config TRADES, ta_entitlement = demo_entitlement,
     ta_transport = (\<lambda>_ _ _. Inl OSError), ta_api_key_provider = None\<rparr>"

definition demo_tardis_request :: FetchRequest where
  "demo_tardis_request = \<lparr>fq_provider = ''tardis'', fq_dataset = ''trades'', fq_instrument_id = ''I'', fq_start_ns = 5,
     fq_end_ns = 86400000000001, fq_options = []\<rparr>"

lemma demo_permits: "719163 \<le> day \<Longrightarrow> day \<le> 719200 \<Longrightarrow> t \<in> {TRADES, INCREMENTAL_BOOK_L2} \<Longrightarrow> permits demo_entitlement t day"
  by (auto simp: permits_def supports_def demo_entitlement_def)

lemma demo_tardis_plan: "tardis_plan demo_tardis demo_tardis_request = Inr (map (tardis_chunk (demo_tardis_config TRADES)) [719163, 719164])"
proof -
  have "tardis_plan_day demo_tardis 719163 k = Inr (tardis_chunk (demo_tardis_config TRADES) (719163 + int k))" if "k < 2" for k
    using that by (auto simp: tardis_plan_day_iff valid_date_def MAXORDINAL_def demo_tardis_def demo_tardis_config_def intro!: demo_permits)
  from this [of 0] this [of 1] have days: "mapR (tardis_plan_day demo_tardis 719163) [0, Suc 0] =
      Inr (map (tardis_chunk (demo_tardis_config TRADES)) [719163, 719164])" by simp
  have c: "tf_instrument_id (ta_config demo_tardis) = ''I''" "tf_data_type (ta_config demo_tardis) = TRADES"
    by (simp_all add: demo_tardis_def demo_tardis_config_def)
  show ?thesis
    unfolding tardis_plan_def Let_def c using days
    by (simp add: demo_tardis_request_def add_days_def MAXORDINAL_def EPOCH_ORDINAL_def TARDIS_DAY_NS_def upt_rec)
qed

theorem tardis_plan_exact_witness:
  "(\<exists>days. map (tardis_chunk (demo_tardis_config TRADES)) [719163, 719164] = map (tardis_chunk (ta_config demo_tardis)) days \<and>
    sorted days \<and> distinct (map fc_key (map (tardis_chunk (demo_tardis_config TRADES)) [719163, 719164])) \<and>
    (\<forall>day. day \<in> set days \<longleftrightarrow> (\<exists>t. fq_start_ns demo_tardis_request \<le> t \<and> t < fq_end_ns demo_tardis_request \<and> utc_day t = day)) \<and>
    (\<forall>day\<in>set days. permits (ta_entitlement demo_tardis) (tf_data_type (ta_config demo_tardis)) day))"
  by (rule tardis_plan_exact [OF demo_tardis_plan])

theorem capabilities_exact_witness:
  "\<exists>cap. capabilities_for_interval demo_entitlement 719163 719165 = Inr cap \<and> cap_execution_tier cap = Some ''F2'' \<and> cap_has_trades cap"
proof -
  have "covered demo_entitlement 719163 719165 INCREMENTAL_BOOK_L2" "covered demo_entitlement 719163 719165 TRADES"
    by (auto simp: covered_def intro!: demo_permits)
  with capabilities_exact [of 719163 719165 demo_entitlement] show ?thesis by (auto simp: MAXORDINAL_def)
qed

definition demo_row :: "string \<Rightarrow> string \<Rightarrow> row" where
  "demo_row t snapshot = [(''exchange'', ''okex''), (''symbol'', ''BTC''), (''timestamp'', t), (''local_timestamp'', t),
     (''is_snapshot'', snapshot), (''side'', ''bid''), (''price'', ''1.25''), (''amount'', ''3'')]"

definition demo_book_rows :: "row list" where
  "demo_book_rows = [demo_row ''1'' ''false'', demo_row ''2'' ''true'', demo_row ''3'' ''false'']"

lemma demo_decimals:
  "tardis_decimal_atoms ''3'' 0 False False = Inr 3" "tardis_decimal_atoms ''1.25'' 2 True False = Inr 125"
proof -
  have d: "decimal_of ''3'' = Some (Finite False 3 0)" "decimal_of ''1.25'' = Some (Finite False 125 (- 2))" by code_simp+
  have t: "strip ''3'' = ''3''" "strip ''1.25'' = ''1.25''" by code_simp+
  have e: "scaled_exactly 3 0 (nat 0)" "scaled_exactly 125 (- 2) (nat 2)"
    by (simp_all add: scaled_exactly_def digit_count_def dec.simps ETINY_def EMAX_def)
  show "tardis_decimal_atoms ''3'' 0 False False = Inr 3"
    using tardis_decimal_exact [OF d(1) _ t(1) _ e(1)] by (simp add: denotes_def range_defs)
  show "tardis_decimal_atoms ''1.25'' 2 True False = Inr 125"
    using tardis_decimal_exact [OF d(2) _ t(2) _ e(2)] by (simp add: denotes_def range_defs)
qed

lemma demo_texts: "tardis_uint ''1'' = Inr 1" "tardis_uint ''2'' = Inr 2" "tardis_uint ''3'' = Inr 3" "tardis_side ''bid'' False = Inr ''BUY''"
  by code_simp+

lemma demo_book: "map_sum id length (tardis_events (demo_tardis_config INCREMENTAL_BOOK_L2) demo_book_rows) = Inr 2"
  by (simp add: tardis_events_def demo_tardis_config_def demo_book_rows_def demo_row_def l2_group_def group_is_snapshot_def
      row_get_def tardis_boolean_def l2_start_def snapshot_group_def snapshot_level_def book_delta_def atoms_field_def
      demo_decimals demo_texts tardis_event_def micros_to_ns_def I64_MAX_def)

theorem incremental_book_exact_witness:
  "\<exists>events. tardis_events (demo_tardis_config INCREMENTAL_BOOK_L2) demo_book_rows = Inr events \<and> length events = 2 \<and>
     has_kind ''BOOK_SNAPSHOT_L2'' (hd events)"
proof -
  obtain events where e: "tardis_events (demo_tardis_config INCREMENTAL_BOOK_L2) demo_book_rows = Inr events" "length events = 2"
    using demo_book by (cases "tardis_events (demo_tardis_config INCREMENTAL_BOOK_L2) demo_book_rows") auto
  have "tf_data_type (demo_tardis_config INCREMENTAL_BOOK_L2) = INCREMENTAL_BOOK_L2" by (simp add: demo_tardis_config_def)
  from incremental_book_exact [OF this e(1)] e show ?thesis by auto
qed

end
