(* ===== verification/Binance.thy ===== *)
theory Binance
  imports Ingest Csv Dates
begin

text \<open>
  The Binance public archive adapter, \<^verbatim>\<open>adapters/binance_public/\<close>: daily ZIP archives with a sibling checksum, verified
  when they are fetched, and normalized to trades or bars. The HTTP transport and \<^verbatim>\<open>zipfile\<close> are parameters.
\<close>

section \<open>Configuration\<close>

definition BINANCE_DAY_NS :: int where
  "BINANCE_DAY_NS = 86400000000000"

definition SPOT_MICROSECOND_START :: int where
  "SPOT_MICROSECOND_START = ymd2ord 2025 1 1"

definition BASE_URL :: string where
  "BASE_URL = ''https://data.binance.vision''"

datatype BinanceProduct = SPOT | USD_M | COIN_M

fun product_value :: "BinanceProduct \<Rightarrow> string" where
  "product_value SPOT = ''spot''"
| "product_value USD_M = ''um''"
| "product_value COIN_M = ''cm''"

datatype BinanceDataKind = KLINES | TRADES | AGG_TRADES

fun data_kind_value :: "BinanceDataKind \<Rightarrow> string" where
  "data_kind_value KLINES = ''klines''"
| "data_kind_value TRADES = ''trades''"
| "data_kind_value AGG_TRADES = ''aggTrades''"

text \<open>\<^verbatim>\<open>UrlLibTransport.get\<close>; \<open>urlopen\<close> gives the body of the response to a URL and headers.\<close>

definition binance_urllib_get :: "(string \<Rightarrow> (string \<times> string) list \<Rightarrow> bytes res) \<Rightarrow> string \<Rightarrow> int \<Rightarrow> bytes res" where
  "binance_urllib_get urlopen url max_bytes =
     bindR (urlopen url [(''User-Agent'', ''trading-replay-lab/1'')]) (\<lambda>body.
     let payload = take (nat (max_bytes + 1)) body in
     bindR (require (\<not> int (length payload) > max_bytes) BinanceIntegrityError) (\<lambda>_. Inr payload))"

record BinancePublicConfig =
  bc_product :: BinanceProduct
  bc_data_kind :: BinanceDataKind
  bc_symbol :: string
  bc_instrument_id :: string
  bc_dataset_id :: string
  bc_price_scale :: int
  bc_qty_scale :: int
  bc_interval :: "string option"
  bc_max_archive_bytes :: int
  bc_max_uncompressed_bytes :: int

definition binance_config_check :: "BinancePublicConfig \<Rightarrow> BinancePublicConfig res" where
  "binance_config_check c =
     bindR (require (\<not> (bc_symbol c = [] \<or> bc_symbol c \<noteq> upper (bc_symbol c))) ValueError) (\<lambda>_.
     bindR (require (\<not> (bc_instrument_id c = [] \<or> bc_dataset_id c = [])) ValueError) (\<lambda>_.
     bindR (require (\<not> (\<not> (0 \<le> bc_price_scale c \<and> bc_price_scale c \<le> 18) \<or> \<not> (0 \<le> bc_qty_scale c \<and> bc_qty_scale c \<le> 18))) ValueError) (\<lambda>_.
     bindR (require (\<not> (bc_data_kind c = KLINES \<and> (bc_interval c = None \<or> bc_interval c = Some []))) ValueError) (\<lambda>_.
     bindR (require (\<not> (bc_data_kind c \<noteq> KLINES \<and> bc_interval c \<noteq> None)) ValueError) (\<lambda>_.
     bindR (require (\<not> (bc_max_archive_bytes c \<le> 0 \<or> bc_max_uncompressed_bytes c \<le> 0)) ValueError) (\<lambda>_. Inr c))))))"

definition binance_capabilities :: "BinancePublicConfig \<Rightarrow> string list" where
  "binance_capabilities c = (if bc_data_kind c = KLINES then [''F0''] else [''F0T''])"

definition binance_venue_id :: "BinancePublicConfig \<Rightarrow> string" where
  "binance_venue_id c = (case bc_product c of SPOT \<Rightarrow> ''BINANCE_SPOT'' | USD_M \<Rightarrow> ''BINANCE_USDM'' | COIN_M \<Rightarrow> ''BINANCE_COINM'')"

record BinancePublicAdapter =
  ba_config :: BinancePublicConfig
  ba_transport :: "string \<Rightarrow> int \<Rightarrow> bytes res"
  ba_known_checksums :: "(string \<times> string) list"
  ba_observed_checksums :: "(string \<times> string) list"

definition binance_init :: "BinancePublicConfig \<Rightarrow> (string \<Rightarrow> int \<Rightarrow> bytes res) \<Rightarrow> (string \<times> string) list option \<Rightarrow> BinancePublicAdapter" where
  "binance_init config transport known_checksums =
     \<lparr>ba_config = config, ba_transport = transport,
      ba_known_checksums = (case known_checksums of None \<Rightarrow> [] | Some known \<Rightarrow> known), ba_observed_checksums = []\<rparr>"

section \<open>Plan\<close>

definition archive_url :: "BinancePublicConfig \<Rightarrow> int \<Rightarrow> string res" where
  "archive_url c archive_day =
     (let product_path = (if bc_product c = SPOT then ''spot'' else ''futures/'' @ product_value (bc_product c));
          day_text = isoformat archive_day
      in bindR (if bc_data_kind c = KLINES then
                  case bc_interval c of None \<Rightarrow> Inl AssertionError
                  | Some interval \<Rightarrow>
                      let filename = bc_symbol c @ ''-'' @ interval @ ''-'' @ day_text @ ''.zip''
                      in Inr (''klines/'' @ bc_symbol c @ ''/'' @ interval @ ''/'' @ filename)
                else
                  let knd = data_kind_value (bc_data_kind c); filename = bc_symbol c @ ''-'' @ knd @ ''-'' @ day_text @ ''.zip''
                  in Inr (knd @ ''/'' @ bc_symbol c @ ''/'' @ filename)) (\<lambda>suffix.
         Inr (BASE_URL @ ''/data/'' @ product_path @ ''/daily/'' @ suffix)))"

definition binance_chunk_key :: "BinancePublicConfig \<Rightarrow> int \<Rightarrow> string" where
  "binance_chunk_key c day = product_value (bc_product c) @ '':'' @ data_kind_value (bc_data_kind c) @ '':'' @ isoformat day"

definition binance_plan_day :: "BinancePublicConfig \<Rightarrow> int \<Rightarrow> nat \<Rightarrow> FetchChunk res" where
  "binance_plan_day c first_day offset =
     bindR (add_days first_day (int offset)) (\<lambda>day.
     bindR (archive_url c day) (\<lambda>source_ref.
     Inr \<lparr>fc_key = binance_chunk_key c day, fc_source_ref = source_ref, fc_expected_bytes = None, fc_estimated_cost_minor = 0\<rparr>))"

definition binance_plan :: "BinancePublicConfig \<Rightarrow> FetchRequest \<Rightarrow> FetchPlan res" where
  "binance_plan c request =
     bindR (require (fq_provider request = ''binance_public'') BinanceRequestError) (\<lambda>_.
     bindR (require (fq_instrument_id request = bc_instrument_id c) BinanceRequestError) (\<lambda>_.
     bindR (require (fq_dataset request = data_kind_value (bc_data_kind c)) BinanceRequestError) (\<lambda>_.
     bindR (require (\<not> (fq_start_ns request < 0 \<or> fq_end_ns request \<le> fq_start_ns request)) BinanceRequestError) (\<lambda>_.
     bindR (add_days EPOCH_ORDINAL (fq_start_ns request div BINANCE_DAY_NS)) (\<lambda>first_day.
     bindR (add_days EPOCH_ORDINAL ((fq_end_ns request - 1) div BINANCE_DAY_NS)) (\<lambda>last_day.
     mapR (binance_plan_day c first_day) [0..<nat (last_day - first_day + 1)]))))))"

section \<open>Fetch\<close>

definition archive_day_of :: "string \<Rightarrow> int res" where
  "archive_day_of source_ref =
     (let filename = path_name source_ref in
      bindR (require (endswith filename ''.zip'') BinanceRequestError) (\<lambda>_.
      catchR (fromisoformat (last_chars 10 (removesuffix filename ''.zip''))) is_ValueError BinanceRequestError))"

definition binance_source_ref :: "string \<Rightarrow> unit res" where
  "binance_source_ref source_ref =
     bindR (require (startswith source_ref (BASE_URL @ ''/data/'') \<and> endswith source_ref ''.zip'') BinanceRequestError) (\<lambda>_.
     bindR (archive_day_of source_ref) (\<lambda>_. Inr ()))"

fun ascii_decode :: "bytes \<Rightarrow> string res" where
  "ascii_decode [] = Inr []"
| "ascii_decode (b # bs) =
     bindR (require (b < 128) ValueError) (\<lambda>_. bindR (ascii_decode bs) (\<lambda>s. Inr (char_of (unat b) # s)))"

definition parse_checksum :: "string \<Rightarrow> bytes \<Rightarrow> string res" where
  "parse_checksum source_ref document =
     bindR (catchR (ascii_decode document) is_ValueError BinanceIntegrityError) (\<lambda>text.
     case words (strip text) of
       [first, second] \<Rightarrow>
         let digest = lower first; filename = removeprefix second ''*'' in
         bindR (require (\<not> (length digest \<noteq> 64 \<or> list_ex (\<lambda>c. \<not> hex_char c) digest)) BinanceIntegrityError) (\<lambda>_.
         bindR (require (filename = path_name source_ref) BinanceIntegrityError) (\<lambda>_. Inr digest))
     | _ \<Rightarrow> Inl BinanceIntegrityError)"

definition binance_fetch :: "BinancePublicAdapter \<Rightarrow> FetchChunk \<Rightarrow> (bytes \<times> BinancePublicAdapter) res" where
  "binance_fetch a chunk =
     bindR (binance_source_ref (fc_source_ref chunk)) (\<lambda>_.
     bindR (ba_transport a (fc_source_ref chunk) (bc_max_archive_bytes (ba_config a))) (\<lambda>raw.
     bindR (ba_transport a (fc_source_ref chunk @ ''.CHECKSUM'') 4096) (\<lambda>checksum_document.
     bindR (parse_checksum (fc_source_ref chunk) checksum_document) (\<lambda>expected.
     bindR (require (sha256_hex raw = expected) BinanceIntegrityError) (\<lambda>_.
     bindR (require (case map_of (ba_known_checksums a) (fc_source_ref chunk) of None \<Rightarrow> True | Some previous \<Rightarrow> previous = expected)
       ArchiveRevisionDetected) (\<lambda>_.
     Inr (raw, a\<lparr>ba_observed_checksums := AList.update (fc_source_ref chunk) expected (ba_observed_checksums a)\<rparr>)))))))"

definition observed_checksum :: "BinancePublicAdapter \<Rightarrow> string \<Rightarrow> string option" where
  "observed_checksum a source_ref = map_of (ba_observed_checksums a) source_ref"

section \<open>Values of a row\<close>

definition timestamp_to_ns :: "string \<Rightarrow> BinanceProduct \<Rightarrow> int \<Rightarrow> int res" where
  "timestamp_to_ns raw product archive_day =
     bindR (py_int raw) (\<lambda>value.
     let multiplier = (if product = SPOT \<and> SPOT_MICROSECOND_START \<le> archive_day then 1000 else 1000000);
         result = value * multiplier
     in bindR (require (\<not> result > I64_MAX) BinanceSchemaError) (\<lambda>_. Inr result))"

definition binance_uint :: "string \<Rightarrow> string res" where
  "binance_uint value =
     (let text = strip value in
      bindR (require (\<not> (text = [] \<or> \<not> isascii text \<or> \<not> isdigit text)) ValueError) (\<lambda>_.
      bindR (require (\<not> (1 < length text \<and> startswith text ''0'')) ValueError) (\<lambda>_.
      bindR (py_int text) (\<lambda>n.
      bindR (require (\<not> n > U64_MAX) ValueError) (\<lambda>_. Inr text)))))"

definition binance_decimal_atoms :: "string \<Rightarrow> int \<Rightarrow> bool \<Rightarrow> bool \<Rightarrow> int res" where
  "binance_decimal_atoms value scale is_signed positive =
     (case decimal_of (strip value) of
        None \<Rightarrow> Inl ValueError
      | Some Special \<Rightarrow> Inl ValueError
      | Some (Finite neg c e) \<Rightarrow>
          bindR (scaleb c e (nat scale)) (\<lambda>(c', e').
          bindR (integer_of neg c' e' ValueError) (\<lambda>atoms.
          bindR (require (\<not> (positive \<and> atoms \<le> 0)) ValueError) (\<lambda>_.
          bindR (require (\<not> (\<not> is_signed \<and> atoms < 0)) ValueError) (\<lambda>_.
          let lo = (if is_signed then I64_MIN else 0); hi = (if is_signed then I64_MAX else U64_MAX) in
          bindR (require (\<not> (atoms < lo \<or> atoms > hi)) ValueError) (\<lambda>_. Inr atoms))))))"

definition binance_boolean :: "string \<Rightarrow> bool res" where
  "binance_boolean value =
     (let normalized = lower (strip value) in
      if normalized = ''true'' then Inr True else if normalized = ''false'' then Inr False else Inl ValueError)"

section \<open>Normalization\<close>

definition binance_event ::
    "BinancePublicConfig \<Rightarrow> int \<Rightarrow> string \<Rightarrow> string option \<Rightarrow> string \<Rightarrow> string \<Rightarrow> fields \<Rightarrow> fields" where
  "binance_event c ts_event_ns tie_breaker source_sequence source_event_id event_kind payload =
     [(''schema_version'', JStr ''1.0.0''), (''dataset_id'', JStr (bc_dataset_id c)),
      (''instrument_id'', JStr (bc_instrument_id c)), (''venue_id'', JStr (binance_venue_id c)),
      (''ts_event_ns'', JStr (str_int ts_event_ns)), (''canonical_tie_breaker'', JStr tie_breaker),
      (''source_event_id'', JStr source_event_id), (''kind'', JStr event_kind), (''payload'', JObj payload),
      (''quality_flags'', JList [])] @
     (case source_sequence of None \<Rightarrow> [] | Some s \<Rightarrow> [(''source_sequence'', JStr s)])"

definition trade_columns :: "BinancePublicConfig \<Rightarrow> bool \<Rightarrow> nat" where
  "trade_columns c aggregate = (if aggregate then 7 else 6) + (if bc_product c = SPOT then 1 else 0)"

text \<open>The identifier, price, quantity, timestamp and maker flag of a trade row that has all its columns.\<close>

definition trade_values :: "BinancePublicConfig \<Rightarrow> bool \<Rightarrow> string list \<Rightarrow> (string \<times> int \<times> int \<times> string \<times> bool) res" where
  "trade_values c aggregate row =
     bindR (binance_uint (row ! 0)) (\<lambda>trade_id.
     bindR (binance_decimal_atoms (row ! 1) (bc_price_scale c) True False) (\<lambda>price_atoms.
     bindR (binance_decimal_atoms (row ! 2) (bc_qty_scale c) False True) (\<lambda>qty_atoms.
     bindR (binance_uint (row ! (if aggregate then 5 else 4))) (\<lambda>timestamp.
     bindR (binance_boolean (row ! (if aggregate then 6 else 5))) (\<lambda>buyer_is_maker.
     Inr (trade_id, price_atoms, qty_atoms, timestamp, buyer_is_maker))))))"

definition normalize_trade :: "BinancePublicConfig \<Rightarrow> int \<Rightarrow> bool \<Rightarrow> string list \<Rightarrow> fields res" where
  "normalize_trade c archive_day aggregate row =
     bindR (require (length row = trade_columns c aggregate) BinanceSchemaError) (\<lambda>_.
     bindR (catchR (trade_values c aggregate row) is_ValueError BinanceSchemaError)
       (\<lambda>(trade_id, price_atoms, qty_atoms, timestamp, buyer_is_maker).
     bindR (timestamp_to_ns timestamp (bc_product c) archive_day) (\<lambda>ts_event_ns.
     Inr (binance_event c ts_event_ns trade_id (Some trade_id) trade_id ''TRADE''
       [(''price_atoms'', JStr (str_int price_atoms)), (''qty_atoms'', JStr (str_int qty_atoms)),
        (''aggressor_side'', JStr (if buyer_is_maker then ''SELL'' else ''BUY'')), (''trade_id'', JStr trade_id)]))))"

definition kline_values :: "BinancePublicConfig \<Rightarrow> string list \<Rightarrow> (string \<times> int \<times> int \<times> int \<times> int \<times> int \<times> string) res" where
  "kline_values c row =
     bindR (binance_uint (row ! 0)) (\<lambda>open_timestamp.
     bindR (binance_decimal_atoms (row ! 1) (bc_price_scale c) True False) (\<lambda>open_atoms.
     bindR (binance_decimal_atoms (row ! 2) (bc_price_scale c) True False) (\<lambda>high_atoms.
     bindR (binance_decimal_atoms (row ! 3) (bc_price_scale c) True False) (\<lambda>low_atoms.
     bindR (binance_decimal_atoms (row ! 4) (bc_price_scale c) True False) (\<lambda>close_atoms.
     bindR (binance_decimal_atoms (row ! 5) (bc_qty_scale c) False False) (\<lambda>volume_atoms.
     bindR (binance_uint (row ! 8)) (\<lambda>trade_count.
     Inr (open_timestamp, open_atoms, high_atoms, low_atoms, close_atoms, volume_atoms, trade_count))))))))"

definition normalize_kline :: "BinancePublicConfig \<Rightarrow> int \<Rightarrow> string list \<Rightarrow> fields res" where
  "normalize_kline c archive_day row =
     bindR (require (length row = 12) BinanceSchemaError) (\<lambda>_.
     case bc_interval c of None \<Rightarrow> Inl AssertionError
     | Some interval \<Rightarrow>
         bindR (catchR (kline_values c row) is_ValueError BinanceSchemaError)
           (\<lambda>(open_timestamp, open_atoms, high_atoms, low_atoms, close_atoms, volume_atoms, trade_count).
         bindR (timestamp_to_ns open_timestamp (bc_product c) archive_day) (\<lambda>ts_event_ns.
         Inr (binance_event c ts_event_ns ''0'' None (interval @ '':'' @ open_timestamp) ''BAR''
           [(''interval'', JStr interval), (''open_atoms'', JStr (str_int open_atoms)), (''high_atoms'', JStr (str_int high_atoms)),
            (''low_atoms'', JStr (str_int low_atoms)), (''close_atoms'', JStr (str_int close_atoms)),
            (''base_volume_atoms'', JStr (str_int volume_atoms)), (''trade_count'', JStr trade_count), (''complete'', JBool True)]))))"

text \<open>A member of a ZIP archive, as \<^verbatim>\<open>infolist\<close> gives it; \<open>zi_read n\<close> reads at most \<open>n\<close> bytes of it.\<close>

record ZipInfo =
  zi_filename :: string
  zi_file_size :: int
  zi_read :: "int \<Rightarrow> bytes res"

definition archive_payload :: "(bytes \<Rightarrow> ZipInfo list res) \<Rightarrow> BinancePublicConfig \<Rightarrow> string \<Rightarrow> bytes \<Rightarrow> bytes res" where
  "archive_payload zip_open c source_ref raw =
     bindR (zip_open raw) (\<lambda>infos.
     case infos of
       [info] \<Rightarrow>
         let expected_csv = removesuffix (path_name source_ref) ''.zip'' @ ''.csv'' in
         bindR (require (\<not> (endswith (zi_filename info) ''/'' \<or> path_name (zi_filename info) \<noteq> zi_filename info)) BinanceIntegrityError) (\<lambda>_.
         bindR (require (zi_filename info = expected_csv) BinanceIntegrityError) (\<lambda>_.
         bindR (require (\<not> zi_file_size info > bc_max_uncompressed_bytes c) BinanceIntegrityError) (\<lambda>_.
         zi_read info (bc_max_uncompressed_bytes c + 1))))
     | _ \<Rightarrow> Inl BinanceIntegrityError)"

definition read_archive :: "(bytes \<Rightarrow> ZipInfo list res) \<Rightarrow> BinancePublicConfig \<Rightarrow> string \<Rightarrow> bytes \<Rightarrow> string list list res" where
  "read_archive zip_open c source_ref raw =
     bindR (catchR (archive_payload zip_open c source_ref raw) (\<lambda>e. e = BadZipFile) BinanceIntegrityError) (\<lambda>payload.
     bindR (require (\<not> int (length payload) > bc_max_uncompressed_bytes c) BinanceIntegrityError) (\<lambda>_.
     bindR (catchR (utf8_decode payload) is_ValueError BinanceSchemaError) (\<lambda>text.
     mapR (\<lambda>record. record) (csv_read text))))"

definition is_header_row :: "nat \<Rightarrow> string list \<Rightarrow> bool" where
  "is_header_row row_index row \<longleftrightarrow> row_index = 0 \<and> \<not> isdigit (dropWhile (\<lambda>c. c = CHR ''-'') (strip (row ! 0)))"

definition normalize_row :: "BinancePublicConfig \<Rightarrow> int \<Rightarrow> nat \<times> string list \<Rightarrow> fields list res" where
  "normalize_row c archive_day = (\<lambda>(row_index, row).
     if row = [] then Inr []
     else if is_header_row row_index row then Inr []
     else bindR (case bc_data_kind c of
            KLINES \<Rightarrow> normalize_kline c archive_day row
          | TRADES \<Rightarrow> normalize_trade c archive_day False row
          | AGG_TRADES \<Rightarrow> normalize_trade c archive_day True row) (\<lambda>event. Inr [event]))"

definition binance_normalize :: "(bytes \<Rightarrow> ZipInfo list res) \<Rightarrow> BinancePublicConfig \<Rightarrow> FetchChunk \<Rightarrow> bytes \<Rightarrow> fields list res" where
  "binance_normalize zip_open c chunk raw =
     bindR (archive_day_of (fc_source_ref chunk)) (\<lambda>archive_day.
     bindR (read_archive zip_open c (fc_source_ref chunk) raw) (\<lambda>rows.
     bindR (mapR (normalize_row c archive_day) (enumerate 0 rows)) (\<lambda>events. Inr (concat events))))"

text \<open>The adapter as the runner sees it; the checksums it has observed do not influence later fetches.\<close>

definition binance_adapter :: "(bytes \<Rightarrow> ZipInfo list res) \<Rightarrow> BinancePublicAdapter \<Rightarrow> adapter" where
  "binance_adapter zip_open a =
     \<lparr>ad_plan = binance_plan (ba_config a), ad_fetch = (\<lambda>chunk. bindR (binance_fetch a chunk) (\<lambda>(raw, _). Inr raw)),
      ad_normalize = binance_normalize zip_open (ba_config a)\<rparr>"

end
