(* ===== verification/Binance_Theorems.thy ===== *)
theory Binance_Theorems
  imports Providers Binance
begin

text \<open>
  The Binance adapter: plans are keyed by day, a fetched archive is the one its checksum names and a pinned archive cannot
  change, decimals are read exactly, and an archive of trades is normalized to exactly those trades.
\<close>

section \<open>Plans\<close>

definition binance_chunk :: "BinancePublicConfig \<Rightarrow> int \<Rightarrow> FetchChunk" where
  "binance_chunk c day = \<lparr>fc_key = binance_chunk_key c day,
     fc_source_ref = (case archive_url c day of Inr url \<Rightarrow> url | Inl _ \<Rightarrow> []), fc_expected_bytes = None, fc_estimated_cost_minor = 0\<rparr>"

lemma binance_plan_day_Inr:
  "binance_plan_day c first offset = Inr x \<Longrightarrow> valid_date (first + int offset) \<and> x = binance_chunk c (first + int offset)"
  unfolding binance_plan_day_def add_days_def bindR_eq_Inr require_simps valid_date_def binance_chunk_def by auto

interpretation binance_days: daily_planner "binance_plan_day c" "binance_chunk c"
    "product_value (bc_product c) @ '':'' @ data_kind_value (bc_data_kind c) @ '':''" for c
  by unfold_locales (auto dest: binance_plan_day_Inr simp: binance_chunk_def binance_chunk_key_def)

lemma binance_plan_shape:
  assumes "binance_plan c q = Inr plan"
  shows "\<exists>first n. mapR (binance_plan_day c first) [0..<n] = Inr plan"
  using assms unfolding binance_plan_def bindR_eq_Inr by blast

interpretation binance_provider: keyed_provider "binance_adapter zip_open a" for zip_open a
  by unfold_locales (auto simp: binance_adapter_def dest!: binance_plan_shape intro: binance_days.plan_keys_distinct)

section \<open>Fetching\<close>

lemma binance_fetch_Inr:
  assumes "binance_fetch a chunk = Inr (raw, a')"
  obtains document where "ba_transport a (fc_source_ref chunk) (bc_max_archive_bytes (ba_config a)) = Inr raw"
    "ba_transport a (fc_source_ref chunk @ ''.CHECKSUM'') 4096 = Inr document"
    "parse_checksum (fc_source_ref chunk) document = Inr (sha256_hex raw)"
    "\<forall>known. map_of (ba_known_checksums a) (fc_source_ref chunk) = Some known \<longrightarrow> known = sha256_hex raw"
    "a' = a\<lparr>ba_observed_checksums := AList.update (fc_source_ref chunk) (sha256_hex raw) (ba_observed_checksums a)\<rparr>"
  using assms that unfolding binance_fetch_def bindR_eq_Inr require_simps by (auto split: option.splits)

section \<open>Values\<close>

lemma int_digits:
  assumes "int n \<le> U64_MAX"
  shows "py_int (dec n) = Inr (int n)" "length (dec n) \<le> 20"
proof -
  have "n < 10 ^ 20" using assms by (simp add: U64_MAX_def)
  then show len: "length (dec n) \<le> 20" by (rule dec_length) simp
  then show "py_int (dec n) = Inr (int n)"
    using py_int_digits [OF dec_not_Nil dec_ascii, of n] by (simp add: int_max_str_digits_def)
qed

lemma dec_chars: "isascii (dec n)" "isdigit (dec n)" "strip (dec n) = dec n"
  using ascii_digit_128 [OF dec_ascii] digits_plain(3) [OF dec_ascii]
  by (auto simp: isascii_def isdigit_def strip_plain intro: list.pred_mono_strong [OF dec_ascii] simp: isdigit_char_def)

lemma binance_uint_dec: "int n \<le> U64_MAX \<Longrightarrow> binance_uint (dec n) = Inr (dec n)"
proof -
  assume n: "int n \<le> U64_MAX"
  have "\<not> (1 < length (dec n) \<and> startswith (dec n) ''0'')"
  proof
    assume a: "1 < length (dec n) \<and> startswith (dec n) ''0''"
    then have "n = 0" by (intro dec_hd_zero) (simp add: startswith_hd)
    with a show False by simp
  qed
  with n show ?thesis by (simp only: binance_uint_def Let_def dec_chars int_digits dec_not_Nil simp_thms require_simps bindR_simps not_less not_False_eq_True)
qed

lemma binance_decimal_exact:
  assumes "decimal_of (strip v) = Some (Finite neg c e)" and "scaled_exactly c e (nat scale)"
  shows "binance_decimal_atoms v scale is_signed positive = Inr a \<longleftrightarrow>
    (\<exists>m. denotes c (e + int (nat scale)) m \<and> a = (if neg then - 1 else 1) * int m) \<and>
    (if is_signed then in_i64 a else in_u64 a) \<and> (positive \<longrightarrow> 0 < a)"
proof -
  from scaleb_exact [OF assms(2)] obtain c' e' where s: "scaleb c e (nat scale) = Inr (c', e')"
    "\<forall>m. denotes c' e' m \<longleftrightarrow> denotes c (e + int (nat scale)) m" by blast
  show ?thesis
    unfolding binance_decimal_atoms_def assms(1) option.case decimal.case s(1) bindR_simps prod.case Let_def
      bindR_eq_Inr require_simps(3) integer_of_denotes(1) [OF s(2)] in_i64_def in_u64_def
    by (auto simp: not_less not_le)
qed

text \<open>The text of a number with at most 20 digits.\<close>

lemma fixed_text_reads:
  assumes "nat \<bar>a\<bar> < 10 ^ 20" and "scale \<le> 18"
  shows "decimal_of (fixed_text scale a) = Some (Finite (a < 0) (nat \<bar>a\<bar>) (- int scale))"
    and "scaled_exactly (nat \<bar>a\<bar>) (- int scale) scale"
proof -
  have d: "digit_count (nat \<bar>a\<bar>) \<le> 20" using dec_length [OF assms(1)] by (simp add: digit_count_def)
  show "decimal_of (fixed_text scale a) = Some (Finite (a < 0) (nat \<bar>a\<bar>) (- int scale))"
    by (rule decimal_of_fixed_text) (use d assms(2) in \<open>auto simp: representable_def MIN_ETINY_def MAX_EMAX_def\<close>)
  show "scaled_exactly (nat \<bar>a\<bar>) (- int scale) scale"
    using d assms(2) by (simp add: scaled_exactly_def ETINY_def EMAX_def)
qed

lemma fixed_text_chars:
  "list_all (\<lambda>c. ascii_digit c \<or> c = CHR ''-'' \<or> c = CHR ''.'') (fixed_text scale a)"
  "length (fixed_text scale a) \<le> scale + length (dec (nat \<bar>a\<bar>)) + 3"
proof -
  let ?P = "\<lambda>c. ascii_digit c \<or> c = CHR ''-'' \<or> c = CHR ''.''" and ?p = "pad_left (scale + 1) (dec (nat \<bar>a\<bar>))"
  have "list_all ?P ?p" using pad_left_facts(1) [OF dec_ascii] by (rule list.pred_mono_strong) simp
  then have "list_all ?P (take n ?p)" "list_all ?P (drop n ?p)" for n by (metis append_take_drop_id list_all_append)+
  then show "list_all ?P (fixed_text scale a)" unfolding fixed_text_def Let_def by simp
  have "length (m @ take n p @ (if scale = 0 then [] else CHR ''.'' # drop n p)) \<le> length m + length p + 1" for m n and p :: string
    by (auto simp: min_def)
  from this [of "if a < 0 then ''-'' else []" "length ?p - scale" ?p]
  have "length (fixed_text scale a) \<le> length (if a < 0 then ''-'' else []) + length ?p + 1" unfolding fixed_text_def Let_def .
  moreover have "length ?p \<le> scale + 1 + length (dec (nat \<bar>a\<bar>))" by (simp add: pad_left_def)
  moreover have "length (if a < 0 then ''-'' else []) \<le> 1" by simp
  ultimately show "length (fixed_text scale a) \<le> scale + length (dec (nat \<bar>a\<bar>)) + 3" by linarith
qed

lemma fixed_text_strip: "strip (fixed_text scale a) = fixed_text scale a"
  by (rule strip_plain, rule list.pred_mono_strong [OF fixed_text_chars(1)]) (auto simp: ascii_digit_def isspace_char_def)

lemma decimal_atoms_fixed:
  assumes "(if is_signed then in_i64 a else in_u64 a)" and "positive \<longrightarrow> 0 < a" and "0 \<le> scale" and "scale \<le> 18"
  shows "binance_decimal_atoms (fixed_text (nat scale) a) scale is_signed positive = Inr a"
proof -
  have small: "nat \<bar>a\<bar> < 10 ^ 20" using assms(1) by (auto simp: range_defs split: if_splits)
  have scale: "nat scale \<le> 18" using assms(4) by simp
  note r = fixed_text_reads [OF small scale]
  have "denotes (nat \<bar>a\<bar>) (- int (nat scale) + int (nat scale)) (nat \<bar>a\<bar>)" by (simp add: denotes_def)
  then show ?thesis
    using binance_decimal_exact [of "fixed_text (nat scale) a", unfolded fixed_text_strip, OF r] assms(1,2) by fastforce
qed

section \<open>Archives of trades\<close>

record archive_trade =
  at_id :: nat
  at_price :: int
  at_qty :: int
  at_time :: nat
  at_buyer_is_maker :: bool

definition time_unit :: "BinancePublicConfig \<Rightarrow> int \<Rightarrow> int" where
  "time_unit c day = (if bc_product c = SPOT \<and> SPOT_MICROSECOND_START \<le> day then 1000 else 1000000)"

definition trade_fits :: "BinancePublicConfig \<Rightarrow> int \<Rightarrow> archive_trade \<Rightarrow> bool" where
  "trade_fits c day t \<longleftrightarrow> int (at_id t) \<le> U64_MAX \<and> in_i64 (at_price t) \<and> 0 < at_qty t \<and> in_u64 (at_qty t) \<and>
     int (at_time t) \<le> U64_MAX \<and> int (at_time t) * time_unit c day \<le> I64_MAX"

text \<open>The row that the provider publishes for a trade and the event that should come of it.\<close>

definition trade_line :: "BinancePublicConfig \<Rightarrow> archive_trade \<Rightarrow> string list" where
  "trade_line c t =
     [dec (at_id t), fixed_text (nat (bc_price_scale c)) (at_price t), fixed_text (nat (bc_qty_scale c)) (at_qty t)] @
     (if bc_data_kind c = AGG_TRADES then [''0'', ''0''] else [''0'']) @
     [dec (at_time t), if at_buyer_is_maker t then ''True'' else ''False''] @ (if bc_product c = SPOT then [''True''] else [])"

definition trade_event :: "BinancePublicConfig \<Rightarrow> int \<Rightarrow> archive_trade \<Rightarrow> fields" where
  "trade_event c day t =
     binance_event c (int (at_time t) * time_unit c day) (dec (at_id t)) (Some (dec (at_id t))) (dec (at_id t)) ''TRADE''
       [(''price_atoms'', JStr (str_int (at_price t))), (''qty_atoms'', JStr (str_int (at_qty t))),
        (''aggressor_side'', JStr (if at_buyer_is_maker t then ''SELL'' else ''BUY'')), (''trade_id'', JStr (dec (at_id t)))]"

definition scales_fit :: "BinancePublicConfig \<Rightarrow> bool" where
  "scales_fit c \<longleftrightarrow> 0 \<le> bc_price_scale c \<and> bc_price_scale c \<le> 18 \<and> 0 \<le> bc_qty_scale c \<and> bc_qty_scale c \<le> 18"

lemma boolean_texts: "binance_boolean ''True'' = Inr True" "binance_boolean ''False'' = Inr False"
  by code_simp+

lemma timestamp_dec:
  assumes "int n \<le> U64_MAX" and "int n * time_unit c day \<le> I64_MAX"
  shows "timestamp_to_ns (dec n) (bc_product c) day = Inr (int n * time_unit c day)"
  using assms by (simp add: timestamp_to_ns_def int_digits time_unit_def)

lemma trade_values_line:
  assumes "trade_fits c day t" and "scales_fit c" and "bc_data_kind c \<noteq> KLINES"
  shows "trade_values c (bc_data_kind c = AGG_TRADES) (trade_line c t) =
      Inr (dec (at_id t), at_price t, at_qty t, dec (at_time t), at_buyer_is_maker t)"
    and "length (trade_line c t) = trade_columns c (bc_data_kind c = AGG_TRADES)"
proof -
  have d: "binance_decimal_atoms (fixed_text (nat (bc_price_scale c)) (at_price t)) (bc_price_scale c) True False = Inr (at_price t)"
    "binance_decimal_atoms (fixed_text (nat (bc_qty_scale c)) (at_qty t)) (bc_qty_scale c) False True = Inr (at_qty t)"
    using assms(1,2) by (auto intro!: decimal_atoms_fixed simp: trade_fits_def scales_fit_def)
  have u: "binance_uint (dec (at_id t)) = Inr (dec (at_id t))" "binance_uint (dec (at_time t)) = Inr (dec (at_time t))"
    using assms(1) by (auto intro!: binance_uint_dec simp: trade_fits_def)
  show "trade_values c (bc_data_kind c = AGG_TRADES) (trade_line c t) =
      Inr (dec (at_id t), at_price t, at_qty t, dec (at_time t), at_buyer_is_maker t)"
    by (cases "bc_data_kind c = AGG_TRADES"; cases "at_buyer_is_maker t") (simp_all add: trade_values_def trade_line_def d u boolean_texts)
  show "length (trade_line c t) = trade_columns c (bc_data_kind c = AGG_TRADES)" by (simp add: trade_line_def trade_columns_def)
qed

lemma normalize_trade_line:
  assumes "trade_fits c day t" and "scales_fit c" and "bc_data_kind c \<noteq> KLINES"
  shows "normalize_trade c day (bc_data_kind c = AGG_TRADES) (trade_line c t) = Inr (trade_event c day t)"
  unfolding normalize_trade_def trade_values_line [OF assms]
  using assms(1) by (simp add: timestamp_dec trade_event_def trade_fits_def)

lemma normalize_trade_row:
  assumes "trade_fits c day t" and "scales_fit c" and "bc_data_kind c \<noteq> KLINES"
  shows "normalize_row c day (i, trade_line c t) = Inr [trade_event c day t]"
proof -
  have "dropWhile (\<lambda>c. c = CHR ''-'') (dec (at_id t)) = dec (at_id t)"
    using dec_ascii [of "at_id t"] by (cases "dec (at_id t)") (auto dest: ascii_not_special)
  then have header: "\<not> is_header_row i (trade_line c t)" by (simp add: is_header_row_def trade_line_def dec_chars)
  have ne: "trade_line c t \<noteq> []" by (simp add: trade_line_def)
  have "(case bc_data_kind c of KLINES \<Rightarrow> normalize_kline c day (trade_line c t)
      | TRADES \<Rightarrow> normalize_trade c day False (trade_line c t)
      | AGG_TRADES \<Rightarrow> normalize_trade c day True (trade_line c t)) = Inr (trade_event c day t)"
    using normalize_trade_line [OF assms] assms(3) by (cases "bc_data_kind c") simp_all
  then show ?thesis by (simp add: normalize_row_def header ne)
qed

lemma plain_digits: "list_all (\<lambda>c. ascii_digit c \<or> c = CHR ''-'' \<or> c = CHR ''.'') f \<Longrightarrow> length f \<le> 131072 \<Longrightarrow> plain_field f"
  unfolding plain_field_def csv_field_limit_def
  by (rule conjI, erule list.pred_mono_strong) (auto simp: ascii_digit_def csv_newline_def)

lemma dec_plain: "int n \<le> U64_MAX \<Longrightarrow> plain_field (dec n)"
  using int_digits(2) [of n] by (intro plain_digits list.pred_mono_strong [OF dec_ascii]) auto

lemma fixed_plain:
  assumes "nat \<bar>a\<bar> < 10 ^ 20" and "scale \<le> 18"
  shows "plain_field (fixed_text scale a)"
  using fixed_text_chars [where scale = scale and a = a] dec_length [OF assms(1)] assms(2) by (intro plain_digits) auto

lemma trade_line_plain:
  assumes "trade_fits c day t" and "scales_fit c"
  shows "list_all plain_field (trade_line c t)" and "trade_line c t \<noteq> [[]]"
proof -
  have "nat \<bar>at_price t\<bar> < 10 ^ 20" "nat \<bar>at_qty t\<bar> < 10 ^ 20" using assms(1) by (auto simp: trade_fits_def range_defs)
  then have "plain_field (fixed_text (nat (bc_price_scale c)) (at_price t))" "plain_field (fixed_text (nat (bc_qty_scale c)) (at_qty t))"
    using assms(2) by (auto intro!: fixed_plain simp: scales_fit_def)
  moreover have "plain_field (dec (at_id t))" "plain_field (dec (at_time t))" using assms(1) by (auto intro!: dec_plain simp: trade_fits_def)
  moreover have "plain_field ''0''" "plain_field ''True''" "plain_field ''False''"
    by (simp_all add: plain_field_def csv_newline_def csv_field_limit_def)
  ultimately show "list_all plain_field (trade_line c t)" by (simp add: trade_line_def)
  show "trade_line c t \<noteq> [[]]" by (simp add: trade_line_def)
qed

text \<open>The name of a daily archive, and the day it names.\<close>

definition archive_stem :: "BinancePublicConfig \<Rightarrow> int \<Rightarrow> string" where
  "archive_stem c day = bc_symbol c @ ''-'' @ data_kind_value (bc_data_kind c) @ ''-'' @ isoformat day"

lemma isoformat_no_slash: "CHR ''/'' \<notin> set (isoformat day)"
proof -
  have "CHR ''/'' \<notin> set (pad_left k (dec n))" for k n
    using pad_left_facts(1) [OF dec_ascii, of k n] by (auto simp: list_all_iff ascii_digit_def)
  then show ?thesis by (simp add: isoformat_def date_text_def)
qed

lemma archive_name:
  assumes "bc_data_kind c \<noteq> KLINES" and "CHR ''/'' \<notin> set (bc_symbol c)" and "archive_url c day = Inr url"
  shows "path_name url = archive_stem c day @ ''.zip''" and "CHR ''/'' \<notin> set (archive_stem c day)"
proof -
  let ?k = "data_kind_value (bc_data_kind c)"
  have k: "CHR ''/'' \<notin> set ?k" by (cases "bc_data_kind c") simp_all
  show ns: "CHR ''/'' \<notin> set (archive_stem c day)" using k assms(2) isoformat_no_slash by (simp add: archive_stem_def)
  have url: "url = (BASE_URL @ ''/data/'' @ (if bc_product c = SPOT then ''spot'' else ''futures/'' @ product_value (bc_product c)) @
      ''/daily/'' @ ?k @ ''/'' @ bc_symbol c) @ CHR ''/'' # (archive_stem c day @ ''.zip'')"
    using assms(1,3) by (simp add: archive_url_def archive_stem_def Let_def split: if_splits)
  show "path_name url = archive_stem c day @ ''.zip''"
    unfolding url by (rule path_name_slash) (use ns in \<open>auto simp: append_eq_Cons_conv\<close>)
qed

lemma archive_day_of_url:
  assumes "bc_data_kind c \<noteq> KLINES" and "CHR ''/'' \<notin> set (bc_symbol c)" and "archive_url c day = Inr url" and "valid_date day"
  shows "archive_day_of url = Inr day"
proof -
  have "last_chars 10 (archive_stem c day) = isoformat day"
    using isoformat_length [OF assms(4)] by (simp add: last_chars_def archive_stem_def)
  then show ?thesis unfolding archive_day_of_def archive_name(1) [OF assms(1-3)] Let_def
    by (simp add: fromisoformat_isoformat [OF assms(4)])
qed

text \<open>A ZIP archive of a body: one member, under the name of the object.\<close>

definition daily_member :: "string \<Rightarrow> bytes \<Rightarrow> ZipInfo" where
  "daily_member url body = \<lparr>zi_filename = removesuffix (path_name url) ''.zip'' @ ''.csv'', zi_file_size = int (length body),
     zi_read = (\<lambda>n. Inr (take (nat n) body))\<rparr>"

lemma read_daily:
  assumes "bc_data_kind c \<noteq> KLINES" and "CHR ''/'' \<notin> set (bc_symbol c)" and "archive_url c day = Inr url"
    and "zip_open raw = Inr [daily_member url (utf8 text)]" and "int (length (utf8 text)) \<le> bc_max_uncompressed_bytes c"
  shows "read_archive zip_open c url raw = mapR (\<lambda>record. record) (csv_read text)"
proof -
  note name = archive_name [OF assms(1-3)]
  have stem: "zi_filename (daily_member url (utf8 text)) = archive_stem c day @ ''.csv''" by (simp add: daily_member_def name)
  have ns: "CHR ''/'' \<notin> set (archive_stem c day @ ''.csv'')" using name(2) by simp
  then have p: "path_name (archive_stem c day @ ''.csv'') = archive_stem c day @ ''.csv''"
    by (simp add: path_name_def path_parts_def split_char_plain append_eq_Cons_conv)
  have e: "\<not> endswith (archive_stem c day @ ''.csv'') ''/''" using ns by (auto simp: endswith_iff)
  have "archive_payload zip_open c url raw = Inr (utf8 text)"
    unfolding archive_payload_def assms(4) using assms(5) p e stem by (simp add: name daily_member_def)
  then show ?thesis using assms(5) by (simp add: read_archive_def)
qed

section \<open>Published checksums\<close>

definition plain_symbol :: "string \<Rightarrow> bool" where
  "plain_symbol s \<longleftrightarrow> s \<noteq> [] \<and> list_all (\<lambda>c. ascii_digit c \<or> 65 \<le> ord c \<and> ord c \<le> 90) s"

text \<open>Visible ASCII characters: no white space, nothing to decode.\<close>

definition visible :: "string \<Rightarrow> bool" where
  "visible s \<longleftrightarrow> list_all (\<lambda>c. 33 \<le> ord c \<and> ord c < 127) s"

lemma visible_not_space: "visible s \<Longrightarrow> list_all (\<lambda>c. \<not> isspace_char c) s"
  unfolding visible_def by (erule list.pred_mono_strong) (auto simp: isspace_char_def)

lemma visible_append [simp]: "visible (s @ t) \<longleftrightarrow> visible s \<and> visible t"
  by (simp add: visible_def)

lemma visible_digits: "list_all ascii_digit s \<Longrightarrow> visible s"
  unfolding visible_def by (erule list.pred_mono_strong) (auto simp: ascii_digit_def)

lemma ascii_decode_utf8: "list_all (\<lambda>c. ord c < 128) s \<Longrightarrow> ascii_decode (utf8 s) = Inr s"
proof (induction s)
  case (Cons c s)
  then have "(of_nat (ord c) :: 8 word) < 128" "unat (of_nat (ord c) :: 8 word) = ord c"
    by (simp_all add: word_less_nat_alt unat_of_nat)
  with Cons show ?case by (simp add: utf8_Cons utf8_char_def)
qed (simp add: utf8_def)

lemma words_from_plain:
  "list_all (\<lambda>c. \<not> isspace_char c) s \<Longrightarrow> words_from acc (s @ t) = words_from (acc @ s) t"
  by (induction s arbitrary: acc) auto

lemma words_two:
  assumes "visible a" "visible b" "a \<noteq> []" "b \<noteq> []"
  shows "words (a @ ''  '' @ b) = [a, b]" "strip (a @ ''  '' @ b @ [CHR 0x0A]) = a @ ''  '' @ b"
proof -
  have sp: "isspace_char (CHR '' '')" "isspace_char (CHR 0x0A)" by (simp_all add: isspace_char_def)
  note ns = visible_not_space [OF assms(1)] visible_not_space [OF assms(2)]
  show "words (a @ ''  '' @ b) = [a, b]"
    unfolding words_def words_from_plain [OF ns(1)] using assms sp words_from_plain [OF ns(2), of "[]" "[]"] by simp
  have ends: "\<not> isspace_char (hd a)" "\<not> isspace_char (last b)" using ns assms(3,4) by (auto simp: list_all_iff)
  have l: "dropWhile isspace_char (a @ t) = a @ t" for t using ends(1) assms(3) by (cases a) simp_all
  have r: "dropWhile isspace_char (rev b @ t) = rev b @ t" for t using ends(2) assms(4) by (cases b rule: rev_cases) simp_all
  show "strip (a @ ''  '' @ b @ [CHR 0x0A]) = a @ ''  '' @ b" unfolding strip_def l by (simp add: sp r)
qed

definition checksum_document :: "string \<Rightarrow> string \<Rightarrow> bytes" where
  "checksum_document digest name = utf8 (digest @ ''  '' @ name @ [CHR 0x0A])"

lemma parse_checksum_document:
  assumes "is_sha256_hex digest" and "visible (path_name url)" and "path_name url \<noteq> []" and "\<not> startswith (path_name url) ''*''"
  shows "parse_checksum url (checksum_document digest (path_name url)) = Inr digest"
proof -
  have hex: "list_all hex_char digest" "length digest = 64" using assms(1) by (simp_all add: is_sha256_hex_def)
  have v: "visible digest" unfolding visible_def
    by (rule list.pred_mono_strong [OF hex(1)]) (auto simp: hex_char_def ascii_digit_def)
  have "digest \<noteq> []" using hex(2) by auto
  note two = words_two [OF v assms(2) this assms(3)]
  have "list_all (\<lambda>c. ord c < 128) (digest @ ''  '' @ path_name url @ [CHR 0x0A])"
    using v assms(2) by (auto simp: visible_def list_all_iff)
  then have d: "ascii_decode (checksum_document digest (path_name url)) = Inr (digest @ ''  '' @ path_name url @ [CHR 0x0A])"
    unfolding checksum_document_def by (rule ascii_decode_utf8)
  have low: "lower digest = digest" unfolding lower_def
    by (rule map_idI) (use hex(1) in \<open>auto simp: list_all_iff lower_char_def hex_char_def ascii_digit_def\<close>)
  have p: "removeprefix (path_name url) ''*'' = path_name url" using assms(4) by (simp add: removeprefix_def)
  show ?thesis unfolding parse_checksum_def d catchR_simps bindR_simps two
    using hex by (simp add: low p list_ex_iff list_all_iff)
qed

lemma plain_archive_name:
  assumes "plain_symbol (bc_symbol c)" and "bc_data_kind c \<noteq> KLINES" and "archive_url c day = Inr url"
  shows "CHR ''/'' \<notin> set (bc_symbol c)" "visible (path_name url)" "path_name url \<noteq> []" "\<not> startswith (path_name url) ''*''"
    "endswith url ''.zip''" "startswith url (BASE_URL @ ''/data/'')"
proof -
  show ns: "CHR ''/'' \<notin> set (bc_symbol c)" using assms(1) by (auto simp: plain_symbol_def list_all_iff ascii_digit_def)
  have name: "path_name url = archive_stem c day @ ''.zip''" by (rule archive_name(1) [OF assms(2) ns assms(3)])
  have sym: "visible (bc_symbol c)" using assms(1) unfolding plain_symbol_def visible_def
    by (auto elim!: list.pred_mono_strong simp: ascii_digit_def)
  have kd: "visible (data_kind_value (bc_data_kind c))" by (cases "bc_data_kind c") (simp_all add: visible_def)
  have "visible (pad_left k (dec n))" for k n by (rule visible_digits [OF pad_left_facts(1) [OF dec_ascii]])
  then have day: "visible (isoformat day)" by (simp add: isoformat_def date_text_def) (simp add: visible_def)
  show "visible (path_name url)" unfolding name archive_stem_def using sym kd day by (simp add: visible_def)
  show "path_name url \<noteq> []" by (simp add: name)
  obtain x xs where x: "bc_symbol c = x # xs" using assms(1) by (cases "bc_symbol c") (auto simp: plain_symbol_def)
  moreover have "x \<noteq> CHR ''*''" using assms(1) x by (auto simp: plain_symbol_def ascii_digit_def)
  ultimately show "\<not> startswith (path_name url) ''*''" by (simp add: name archive_stem_def)
  have "\<exists>p. url = BASE_URL @ ''/data/'' @ p @ ''.zip''"
    using assms(2,3) by (auto simp: archive_url_def Let_def split: if_splits)
  then show "endswith url ''.zip''" "startswith url (BASE_URL @ ''/data/'')"
    by (auto simp: endswith_iff startswith_def)
qed

section \<open>Properties\<close>

text \<open>C27: a published archive of trades is ingested exactly. If the provider serves, for a day, a ZIP archive whose one
  member lists trades (identifiers, prices and quantities in decimal at the declared scales, times and maker flags) and
  the checksum document of that archive, and no other checksum was pinned for it, then the fetch returns the archive and
  normalizing it gives one event per trade, in order, with exactly its integer price and quantity, its time in
  nanoseconds and its aggressor.\<close>

theorem published_trades_ingested:
  assumes c: "ba_config a = c" "bc_data_kind c \<noteq> KLINES" "plain_symbol (bc_symbol c)" "scales_fit c" and day: "valid_date day"
    and ts: "\<forall>t\<in>set ts. trade_fits c day t" and url: "archive_url c day = Inr url" "fc_source_ref chunk = url"
    and served: "ba_transport a url (bc_max_archive_bytes c) = Inr raw"
      "ba_transport a (url @ ''.CHECKSUM'') 4096 = Inr (checksum_document (sha256_hex raw) (path_name url))"
    and pinned: "map_of (ba_known_checksums a) url \<in> {None, Some (sha256_hex raw)}"
    and member: "zip_open raw = Inr [daily_member url (utf8 (csv_text (map (trade_line c) ts)))]"
      "int (length (utf8 (csv_text (map (trade_line c) ts)))) \<le> bc_max_uncompressed_bytes c"
  shows "\<exists>a'. binance_fetch a chunk = Inr (raw, a') \<and> observed_checksum a' url = Some (sha256_hex raw) \<and>
    binance_normalize zip_open c chunk raw = Inr (map (trade_event c day) ts)"
proof -
  note name = plain_archive_name [OF c(3,2) url(1)]
  note date = archive_day_of_url [OF c(2) name(1) url(1) day]
  have ck: "parse_checksum url (checksum_document (sha256_hex raw) (path_name url)) = Inr (sha256_hex raw)"
    by (rule parse_checksum_document [OF sha256_hex_valid name(2,3,4)])
  have "binance_source_ref url = Inr ()" using name(5,6) date by (simp add: binance_source_ref_def)
  then have fetch: "binance_fetch a chunk = Inr (raw, a\<lparr>ba_observed_checksums := AList.update url (sha256_hex raw) (ba_observed_checksums a)\<rparr>)"
    using served ck pinned by (auto simp: binance_fetch_def url(2) c(1))
  have rows: "csv_read (csv_text (map (trade_line c) ts)) = map Inr (map (trade_line c) ts)"
  proof (rule csv_read_text, unfold list_all_iff set_map, rule ballI)
    fix row assume "row \<in> trade_line c ` set ts"
    then obtain t where t: "row = trade_line c t" "trade_fits c day t" using ts by auto
    have "trade_line c t \<noteq> []" by (simp add: trade_line_def)
    with trade_line_plain [OF t(2) c(4)] t(1) show "row \<noteq> [] \<and> row \<noteq> [[]] \<and> (\<forall>x\<in>set row. plain_field x)" by (simp add: list_all_iff)
  qed
  have "mapR (\<lambda>record. record) (map Inr xs) = Inr xs" for xs :: "string list list" by (induction xs) simp_all
  then have read: "read_archive zip_open c url raw = Inr (map (trade_line c) ts)"
    using read_daily [where zip_open = zip_open and raw = raw, OF c(2) name(1) url(1) member] rows by (simp only:)
  have "mapR (normalize_row c day) (enumerate 0 (map (trade_line c) ts)) = Inr (map (\<lambda>t. [trade_event c day t]) ts)"
    unfolding mapR_eq_Inr list_all2_conv_all_nth using ts c normalize_trade_row by (simp add: nth_enumerate_eq)
  then have "binance_normalize zip_open c chunk raw = Inr (map (trade_event c day) ts)"
    by (simp add: binance_normalize_def url(2) date read)
  with fetch show ?thesis by (simp add: observed_checksum_def)
qed


section \<open>Witnesses\<close>

definition demo_binance_config :: BinancePublicConfig where
  "demo_binance_config = \<lparr>bc_product = SPOT, bc_data_kind = TRADES, bc_symbol = ''BTC'', bc_instrument_id = ''I'', bc_dataset_id = ''D'',
     bc_price_scale = 2, bc_qty_scale = 0, bc_interval = None, bc_max_archive_bytes = 1000, bc_max_uncompressed_bytes = 1000\<rparr>"

definition demo_trades :: "archive_trade list" where
  "demo_trades = [\<lparr>at_id = 7, at_price = - 125, at_qty = 3, at_time = 12, at_buyer_is_maker = True\<rparr>,
     \<lparr>at_id = 8, at_price = 99, at_qty = 1, at_time = 13, at_buyer_is_maker = False\<rparr>]"

definition demo_url :: string where
  "demo_url = BASE_URL @ ''/data/spot/daily/trades/BTC/BTC-trades-'' @ isoformat 719163 @ ''.zip''"

definition demo_archive_adapter :: BinancePublicAdapter where
  "demo_archive_adapter = binance_init demo_binance_config
     (\<lambda>url n. if url = demo_url then Inr [1, 2, 3] else Inr (checksum_document (sha256_hex [1, 2, 3]) (path_name demo_url))) None"

definition demo_archive_chunk :: FetchChunk where
  "demo_archive_chunk = \<lparr>fc_key = ''k'', fc_source_ref = demo_url, fc_expected_bytes = None, fc_estimated_cost_minor = 0\<rparr>"

definition demo_zip :: "bytes \<Rightarrow> ZipInfo list res" where
  "demo_zip raw = Inr [daily_member demo_url (utf8 (csv_text (map (trade_line demo_binance_config) demo_trades)))]"

lemma demo_archive_facts:
  "ba_config demo_archive_adapter = demo_binance_config" "bc_data_kind demo_binance_config \<noteq> KLINES"
  "plain_symbol (bc_symbol demo_binance_config)" "scales_fit demo_binance_config" "valid_date 719163"
  "\<forall>t\<in>set demo_trades. trade_fits demo_binance_config 719163 t" "archive_url demo_binance_config 719163 = Inr demo_url"
  "map_of (ba_known_checksums demo_archive_adapter) demo_url \<in> {None, Some (sha256_hex [1, 2, 3])}"
  by (auto simp: demo_archive_adapter_def binance_init_def demo_binance_config_def plain_symbol_def ascii_digit_def scales_fit_def
      valid_date_def MAXORDINAL_def demo_trades_def trade_fits_def range_defs time_unit_def archive_url_def demo_url_def)

lemma demo_served:
  "ba_transport demo_archive_adapter demo_url (bc_max_archive_bytes demo_binance_config) = Inr [1, 2, 3]"
  "ba_transport demo_archive_adapter (demo_url @ ''.CHECKSUM'') 4096 = Inr (checksum_document (sha256_hex [1, 2, 3]) (path_name demo_url))"
  by (simp_all add: demo_archive_adapter_def binance_init_def)

lemma demo_archive_size:
  "int (length (utf8 (csv_text (map (trade_line demo_binance_config) demo_trades)))) \<le> bc_max_uncompressed_bytes demo_binance_config"
  by code_simp

theorem published_trades_ingested_witness:
  "\<exists>a'. binance_fetch demo_archive_adapter demo_archive_chunk = Inr ([1, 2, 3], a') \<and>
    observed_checksum a' demo_url = Some (sha256_hex [1, 2, 3]) \<and>
    binance_normalize demo_zip demo_binance_config demo_archive_chunk [1, 2, 3] = Inr (map (trade_event demo_binance_config 719163) demo_trades)"
  by (rule published_trades_ingested [OF demo_archive_facts(1-7) _ demo_served demo_archive_facts(8) demo_zip_def demo_archive_size])
    (simp add: demo_archive_chunk_def)

definition demo_pinned_adapter :: BinancePublicAdapter where
  "demo_pinned_adapter = demo_archive_adapter\<lparr>ba_known_checksums := [(demo_url, sha256_hex [1, 2, 3])]\<rparr>"


end
