(* ===== verification/Canonical_File.thy ===== *)
theory Canonical_File
  imports Ingest Csv Dates
begin

text \<open>
  The sandboxed import of one CSV or Parquet file, \<^verbatim>\<open>adapters/canonical_file/\<close>. The file system and \<^verbatim>\<open>pyarrow\<close> are
  parameters. A default value that is an object is stored by reference: if it is the default of \<^verbatim>\<open>payload\<close>, then every
  event refers to the same object, which later assignments to \<^verbatim>\<open>payload.*\<close> change. An event under construction therefore
  holds values or the mark \<open>Shared\<close>, and the contents of the shared object are passed along.
\<close>

section \<open>Declarations\<close>

record ImportLimits =
  il_max_file_bytes :: int
  il_max_rows :: int
  il_max_columns :: int
  il_max_materialized_bytes :: int

definition limits_check :: "ImportLimits \<Rightarrow> ImportLimits res" where
  "limits_check l =
     bindR (require (\<not> min (il_max_file_bytes l) (min (il_max_rows l) (min (il_max_columns l) (il_max_materialized_bytes l))) \<le> 0)
       ValueError) (\<lambda>_. Inr l)"

record ColumnMapping =
  cm_source :: string
  cm_target :: string

definition mapping_check :: "ColumnMapping \<Rightarrow> ColumnMapping res" where
  "mapping_check m =
     bindR (require (\<not> (cm_source m = [] \<or> cm_target m = [])) ValueError) (\<lambda>_.
     bindR (require (\<not> count_list (cm_target m) (CHR ''.'') > 1) ValueError) (\<lambda>_.
     bindR (require (\<not> (CHR ''.'' \<in> set (cm_target m) \<and> \<not> startswith (cm_target m) ''payload.'')) ValueError) (\<lambda>_. Inr m)))"

datatype FileFormat = CSV | PARQUET

record ImportDeclaration =
  id_format :: FileFormat
  id_mappings :: "ColumnMapping list"
  id_defaults :: "(string \<times> json) list"
  id_capabilities :: "string list"
  id_provenance :: string
  id_redistribution_class :: string

definition declaration_check :: "ImportDeclaration \<Rightarrow> ImportDeclaration res" where
  "declaration_check d =
     (let sources = map cm_source (id_mappings d); targets = map cm_target (id_mappings d);
          default_targets = map fst (id_defaults d)
      in bindR (require (card (set sources) = length sources) ValueError) (\<lambda>_.
         bindR (require (card (set (targets @ default_targets)) = length targets + length default_targets) ValueError) (\<lambda>_.
         bindR (require (id_provenance d \<noteq> []) ValueError) (\<lambda>_. Inr d))))"

definition REQUIRED_TOP_LEVEL :: "string list" where
  "REQUIRED_TOP_LEVEL = [''schema_version'', ''dataset_id'', ''instrument_id'', ''venue_id'', ''ts_event_ns'',
     ''canonical_tie_breaker'', ''kind'', ''payload'', ''quality_flags'']"

definition EXACT_FIELDS :: "string list" where
  "EXACT_FIELDS = [''source_sequence'', ''canonical_tie_breaker'', ''trade_count'']"

section \<open>Values\<close>

text \<open>A value of a source row: one of the JSON types, or another Python object, of which only its \<^verbatim>\<open>str\<close> matters. The
  text of an array or object begins with a bracket, which is all that the integer check looks at.\<close>

datatype cell = Scalar json | Foreign string

fun cell_text :: "cell \<Rightarrow> string" where
  "cell_text (Foreign s) = s"
| "cell_text (Scalar v) = (case v of JNull \<Rightarrow> ''None'' | JBool b \<Rightarrow> if b then ''True'' else ''False'' | JInt n \<Rightarrow> str_int n
     | JFloat r \<Rightarrow> r | JStr s \<Rightarrow> s | JList _ \<Rightarrow> ''['' | JObj _ \<Rightarrow> ''{'')"

fun is_bool_or_float :: "cell \<Rightarrow> bool" where
  "is_bool_or_float (Scalar (JBool _)) = True"
| "is_bool_or_float (Scalar (JFloat _)) = True"
| "is_bool_or_float _ = False"

definition canonical_integer :: "cell \<Rightarrow> json res" where
  "canonical_integer value =
     bindR (require (\<not> is_bool_or_float value) SchemaRejected) (\<lambda>_.
     let text = cell_text value in
     bindR (require (\<not> (text = ''-0'' \<or> startswith text ''+'' \<or> text = [])) SchemaRejected) (\<lambda>_.
     let digits = (if startswith text ''-'' then tl text else text) in
     bindR (require (\<not> (\<not> isascii digits \<or> \<not> isdigit digits)) SchemaRejected) (\<lambda>_.
     bindR (require (\<not> (1 < length digits \<and> startswith digits ''0'')) SchemaRejected) (\<lambda>_. Inr (JStr text)))))"

definition last_field :: "string \<Rightarrow> string" where
  "last_field target = rev (takeWhile (\<lambda>c. c \<noteq> CHR ''.'') (rev target))"

definition is_exact_field :: "string \<Rightarrow> bool" where
  "is_exact_field target \<longleftrightarrow> (let field = last_field target in
     endswith field ''_atoms'' \<or> endswith field ''_ns'' \<or> field \<in> set EXACT_FIELDS)"

definition normalize_scalar :: "string \<Rightarrow> cell \<Rightarrow> json res" where
  "normalize_scalar target value =
     (if is_exact_field target then canonical_integer value
      else case value of
          Scalar JNull \<Rightarrow> Inr JNull
        | Scalar (JBool b) \<Rightarrow> Inr (JBool b)
        | Scalar (JInt n) \<Rightarrow> Inr (JInt n)
        | Scalar (JStr s) \<Rightarrow> Inr (JStr s)
        | _ \<Rightarrow> Inl SchemaRejected)"

section \<open>Events\<close>

datatype slot = Val json | Shared

type_synonym draft = "(string \<times> slot) list"

fun payload_put :: "string \<Rightarrow> json \<Rightarrow> slot option \<Rightarrow> fields \<Rightarrow> (slot \<times> fields) res" where
  "payload_put key value None store = Inr (Val (JObj [(key, value)]), store)"
| "payload_put key value (Some Shared) store = Inr (Shared, AList.update key value store)"
| "payload_put key value (Some (Val v)) store =
     (case v of JObj fs \<Rightarrow> Inr (Val (JObj (AList.update key value fs)), store) | _ \<Rightarrow> Inl SchemaRejected)"

definition assign :: "string \<Rightarrow> json \<Rightarrow> draft \<times> fields \<Rightarrow> (draft \<times> fields) res" where
  "assign target value = (\<lambda>(event, store).
     if startswith target ''payload.'' then
       bindR (payload_put (removeprefix target ''payload.'') value (map_of event ''payload'') store) (\<lambda>(slot, store).
       Inr (AList.update ''payload'' slot event, store))
     else Inr (AList.update target (Val value) event, store))"

text \<open>The assignment of a default, which shares an object under \<^verbatim>\<open>payload\<close> between the events.\<close>

fun is_object :: "json \<Rightarrow> bool" where
  "is_object (JObj _) = True"
| "is_object _ = False"

definition assign_default :: "draft \<times> fields \<Rightarrow> string \<times> json \<Rightarrow> (draft \<times> fields) res" where
  "assign_default s = (\<lambda>(target, value).
     if target = ''payload'' \<and> is_object value then Inr (AList.update ''payload'' Shared (fst s), snd s) else assign target value s)"

definition assign_mapping :: "(string \<times> cell) list \<Rightarrow> draft \<times> fields \<Rightarrow> ColumnMapping \<Rightarrow> (draft \<times> fields) res" where
  "assign_mapping row s m =
     bindR (case map_of row (cm_source m) of None \<Rightarrow> Inl KeyError | Some v \<Rightarrow> Inr v) (\<lambda>value.
     bindR (normalize_scalar (cm_target m) value) (\<lambda>v. assign (cm_target m) v s))"

definition normalize_event :: "ImportDeclaration \<Rightarrow> fields \<Rightarrow> (string \<times> cell) list \<Rightarrow> (draft \<times> fields) res" where
  "normalize_event d store row =
     bindR (foldR assign_default ([], store) (id_defaults d)) (\<lambda>s.
     bindR (foldR (assign_mapping row) s (id_mappings d)) (\<lambda>(event, store).
     bindR (require (set (map fst event) = set REQUIRED_TOP_LEVEL) SchemaRejected) (\<lambda>_. Inr (event, store))))"

fun normalize_events :: "ImportDeclaration \<Rightarrow> fields \<Rightarrow> (string \<times> cell) list list \<Rightarrow> (draft list \<times> fields) res" where
  "normalize_events d store [] = Inr ([], store)"
| "normalize_events d store (row # rows) =
     bindR (normalize_event d store row) (\<lambda>(event, store).
     bindR (normalize_events d store rows) (\<lambda>(events, store). Inr (event # events, store)))"

text \<open>The events as the caller sees them, once all rows are done.\<close>

definition resolve_draft :: "fields \<Rightarrow> draft \<Rightarrow> fields" where
  "resolve_draft store event = map (\<lambda>(k, s). (k, case s of Val v \<Rightarrow> v | Shared \<Rightarrow> JObj store)) event"

definition default_store :: "ImportDeclaration \<Rightarrow> fields" where
  "default_store d = (case map_of (id_defaults d) ''payload'' of Some (JObj fs) \<Rightarrow> fs | _ \<Rightarrow> [])"

section \<open>Files\<close>

text \<open>Paths are lists of components; \<open>fy_resolve\<close> follows links and \<^verbatim>\<open>..\<close>, \<open>fy_read\<close> gives the bytes of a regular file.\<close>

record filesystem =
  fy_cwd :: path
  fy_resolve :: "path \<Rightarrow> path"
  fy_read :: "path \<Rightarrow> bytes option"

record source_path =
  sp_absolute :: bool
  sp_parts :: path

record CanonicalFileAdapter =
  ca_root :: path
  ca_source_path :: path
  ca_declaration :: ImportDeclaration
  ca_limits :: ImportLimits

definition join_root :: "path \<Rightarrow> source_path \<Rightarrow> path" where
  "join_root root p = (if sp_absolute p then sp_parts p else root @ sp_parts p)"

definition resolve_source :: "filesystem \<Rightarrow> path \<Rightarrow> source_path \<Rightarrow> path res" where
  "resolve_source fy root p =
     (let candidate = fy_resolve fy (join_root root p) in
      bindR (require (take (length root) candidate = root) PathRejected) (\<lambda>_.
      bindR (require (fy_read fy candidate \<noteq> None) PathRejected) (\<lambda>_. Inr candidate)))"

definition canonical_init ::
    "filesystem \<Rightarrow> source_path \<Rightarrow> source_path \<Rightarrow> ImportDeclaration \<Rightarrow> ImportLimits \<Rightarrow> CanonicalFileAdapter res" where
  "canonical_init fy root source declaration limits =
     (let root = fy_resolve fy (join_root (fy_cwd fy) root) in
      bindR (resolve_source fy root source) (\<lambda>source_path.
      Inr \<lparr>ca_root = root, ca_source_path = source_path, ca_declaration = declaration, ca_limits = limits\<rparr>))"

definition path_text :: "path \<Rightarrow> string" where
  "path_text p = (if p = [] then ''/'' else concat (map (\<lambda>part. CHR ''/'' # part) p))"

definition text_path :: "string \<Rightarrow> source_path" where
  "text_path s = \<lparr>sp_absolute = startswith s ''/'', sp_parts = path_parts s\<rparr>"

definition canonical_plan :: "filesystem \<Rightarrow> CanonicalFileAdapter \<Rightarrow> FetchRequest \<Rightarrow> FetchPlan res" where
  "canonical_plan fy a request =
     (case fy_read fy (ca_source_path a) of
        None \<Rightarrow> Inl FileNotFoundError
      | Some body \<Rightarrow>
          let size = int (length body) in
          bindR (require (\<not> size > il_max_file_bytes (ca_limits a)) ResourceLimitExceeded) (\<lambda>_.
          Inr [\<lparr>fc_key = ''canonical-file'', fc_source_ref = path_text (ca_source_path a), fc_expected_bytes = Some size,
                fc_estimated_cost_minor = 0\<rparr>]))"

definition bytes_start :: "bytes \<Rightarrow> bytes \<Rightarrow> bool" where
  "bytes_start raw prefix \<longleftrightarrow> take (length prefix) raw = prefix"

definition bytes_end :: "bytes \<Rightarrow> bytes \<Rightarrow> bool" where
  "bytes_end raw suffix \<longleftrightarrow> length suffix \<le> length raw \<and> drop (length raw - length suffix) raw = suffix"

definition is_archive :: "bytes \<Rightarrow> bool" where
  "is_archive raw \<longleftrightarrow> bytes_start raw [80, 75, 3, 4] \<or> bytes_start raw [80, 75, 5, 6] \<or> bytes_start raw [80, 75, 7, 8]"

definition canonical_fetch :: "filesystem \<Rightarrow> CanonicalFileAdapter \<Rightarrow> FetchChunk \<Rightarrow> bytes res" where
  "canonical_fetch fy a chunk =
     (let path = fy_resolve fy (join_root (fy_cwd fy) (text_path (fc_source_ref chunk))) in
      bindR (require (path = ca_source_path a) PathRejected) (\<lambda>_.
      case fy_read fy path of
        None \<Rightarrow> Inl FileNotFoundError
      | Some raw \<Rightarrow>
          bindR (require (\<not> int (length raw) > il_max_file_bytes (ca_limits a)) ResourceLimitExceeded) (\<lambda>_.
          bindR (require (\<not> is_archive raw) ResourceLimitExceeded) (\<lambda>_. Inr raw))))"

section \<open>Rows\<close>

type_synonym rows = "string list \<times> (string \<times> cell) list list"

definition csv_cell :: "string \<times> string option \<Rightarrow> string \<times> cell" where
  "csv_cell = (\<lambda>(k, v). (k, Scalar (case v of None \<Rightarrow> JNull | Some s \<Rightarrow> JStr s)))"

fun csv_rows :: "ImportLimits \<Rightarrow> nat \<Rightarrow> dict_row res list \<Rightarrow> (string \<times> cell) list list res" where
  "csv_rows l n [] = Inr []"
| "csv_rows l n (outcome # outcomes) =
     bindR outcome (\<lambda>row.
     bindR (require (\<not> int n \<ge> il_max_rows l) ResourceLimitExceeded) (\<lambda>_.
     bindR (require (dr_rest row = []) SchemaRejected) (\<lambda>_.
     bindR (csv_rows l (Suc n) outcomes) (\<lambda>rows. Inr (map csv_cell (dr_named row) # rows)))))"

definition rows_csv :: "ImportLimits \<Rightarrow> bytes \<Rightarrow> rows res" where
  "rows_csv l raw =
     bindR (catchR (utf8_decode raw) is_ValueError SchemaRejected) (\<lambda>text.
     bindR (require (\<not> int (length raw) > il_max_materialized_bytes l) ResourceLimitExceeded) (\<lambda>_.
     case csv_read text of
       [] \<Rightarrow> Inl SchemaRejected
     | header # records \<Rightarrow>
         bindR header (\<lambda>fieldnames.
         bindR (require (\<not> int (length fieldnames) > il_max_columns l) ResourceLimitExceeded) (\<lambda>_.
         bindR (csv_rows l 0 (dict_rows fieldnames records)) (\<lambda>rows. Inr (fieldnames, rows))))))"

text \<open>What \<^verbatim>\<open>pyarrow\<close> says of a file: its metadata, the declared sizes by row group and column, and the table it reads.\<close>

record parquet_table =
  pt_nbytes :: int
  pt_column_names :: "string list"
  pt_rows :: "(string \<times> cell) list list"

record parquet_file =
  pf_num_rows :: int
  pf_num_columns :: int
  pf_sizes :: "int list list"
  pf_read :: "parquet_table res"

definition PAR1 :: bytes where
  "PAR1 = [80, 65, 82, 49]"

definition rows_parquet :: "(bytes \<Rightarrow> parquet_file res) \<Rightarrow> ImportLimits \<Rightarrow> bytes \<Rightarrow> rows res" where
  "rows_parquet parquet_open l raw =
     bindR (require (\<not> (\<not> bytes_start raw PAR1 \<or> \<not> bytes_end raw PAR1)) SchemaRejected) (\<lambda>_.
     bindR (parquet_open raw) (\<lambda>parquet.
     bindR (require (\<not> pf_num_rows parquet > il_max_rows l) ResourceLimitExceeded) (\<lambda>_.
     bindR (require (\<not> pf_num_columns parquet > il_max_columns l) ResourceLimitExceeded) (\<lambda>_.
     bindR (require (\<not> sum_list (concat (pf_sizes parquet)) > il_max_materialized_bytes l) ResourceLimitExceeded) (\<lambda>_.
     bindR (pf_read parquet) (\<lambda>table.
     bindR (require (\<not> pt_nbytes table > il_max_materialized_bytes l) ResourceLimitExceeded) (\<lambda>_.
     Inr (pt_column_names table, pt_rows table))))))))"

section \<open>Normalization\<close>

definition source_rows :: "(bytes \<Rightarrow> parquet_file res) \<Rightarrow> CanonicalFileAdapter \<Rightarrow> bytes \<Rightarrow> rows res" where
  "source_rows parquet_open a raw =
     (case id_format (ca_declaration a) of CSV \<Rightarrow> rows_csv (ca_limits a) raw | PARQUET \<Rightarrow> rows_parquet parquet_open (ca_limits a) raw)"

definition columns_declared :: "ImportDeclaration \<Rightarrow> string list \<Rightarrow> unit res" where
  "columns_declared d columns =
     (let declared = map cm_source (id_mappings d) in
      require (\<not> (set columns \<noteq> set declared \<or> length columns \<noteq> length declared)) SchemaRejected)"

text \<open>\<open>store\<close> is what the shared default holds before the call, \<open>default_store\<close> unless an earlier call changed it.\<close>

definition canonical_normalize_from ::
    "(bytes \<Rightarrow> parquet_file res) \<Rightarrow> CanonicalFileAdapter \<Rightarrow> fields \<Rightarrow> bytes \<Rightarrow> (fields list \<times> fields) res" where
  "canonical_normalize_from parquet_open a store raw =
     bindR (source_rows parquet_open a raw) (\<lambda>(columns, rows).
     bindR (columns_declared (ca_declaration a) columns) (\<lambda>_.
     bindR (normalize_events (ca_declaration a) store rows) (\<lambda>(events, store).
     Inr (map (resolve_draft store) events, store))))"

definition canonical_normalize ::
    "(bytes \<Rightarrow> parquet_file res) \<Rightarrow> CanonicalFileAdapter \<Rightarrow> FetchChunk \<Rightarrow> bytes \<Rightarrow> fields list res" where
  "canonical_normalize parquet_open a chunk raw =
     bindR (canonical_normalize_from parquet_open a (default_store (ca_declaration a)) raw) (\<lambda>(events, _). Inr events)"

definition canonical_adapter :: "filesystem \<Rightarrow> (bytes \<Rightarrow> parquet_file res) \<Rightarrow> CanonicalFileAdapter \<Rightarrow> adapter" where
  "canonical_adapter fy parquet_open a =
     \<lparr>ad_plan = canonical_plan fy a, ad_fetch = canonical_fetch fy a, ad_normalize = canonical_normalize parquet_open a\<rparr>"

end
