(* ===== verification/Canonical_File_Theorems.thy ===== *)
theory Canonical_File_Theorems
  imports Providers Canonical_File
begin

text \<open>
  The canonical file import: without an object default for \<^verbatim>\<open>payload\<close> every row is mapped on its own; with one, all events
  of a file share their payload.
\<close>

interpretation canonical_provider: keyed_provider "canonical_adapter fy parquet_open a" for fy parquet_open a
  by unfold_locales (auto simp: canonical_adapter_def canonical_plan_def Let_def split: option.splits)

section \<open>Rows without a shared object\<close>

definition unshared :: "draft \<Rightarrow> bool" where
  "unshared event \<longleftrightarrow> (\<forall>x\<in>set event. snd x \<noteq> Shared)"

text \<open>A step that neither reads nor changes the shared object.\<close>

definition threads :: "(draft \<times> fields \<Rightarrow> 'x \<Rightarrow> (draft \<times> fields) res) \<Rightarrow> 'x \<Rightarrow> bool" where
  "threads f x \<longleftrightarrow> (\<forall>event. unshared event \<longrightarrow>
     (\<exists>r. (\<forall>store. f (event, store) x = bindR r (\<lambda>event'. Inr (event', store))) \<and> (\<forall>event'. r = Inr event' \<longrightarrow> unshared event')))"

lemma threads_Inr:
  assumes "\<And>event. unshared event \<Longrightarrow> unshared (g event)" and "\<And>event store. unshared event \<Longrightarrow> f (event, store) x = Inr (g event, store)"
  shows "threads f x"
  unfolding threads_def by (intro allI impI exI [of _ "Inr (g _)"]) (use assms in auto)

lemma unshared_update: "unshared event \<Longrightarrow> unshared (AList.update k (Val v) event)"
  unfolding unshared_def by (induction event) auto

lemma unshared_payload: "unshared event \<Longrightarrow> map_of event ''payload'' \<noteq> Some Shared"
  unfolding unshared_def by (metis map_of_SomeD snd_conv)

lemma assign_threads: "threads (\<lambda>s x. assign (fst x) (snd x) s) x"
  unfolding threads_def
proof (intro allI impI)
  fix event assume u: "unshared event"
  let ?t = "fst x" and ?v = "snd x" and ?k = "removeprefix (fst x) ''payload.''"
  show "\<exists>r. (\<forall>store. assign ?t ?v (event, store) = bindR r (\<lambda>event'. Inr (event', store))) \<and> (\<forall>event'. r = Inr event' \<longrightarrow> unshared event')"
  proof (cases "startswith ?t ''payload.''")
    case False
    then show ?thesis using u by (intro exI [of _ "Inr (AList.update ?t (Val ?v) event)"]) (simp add: assign_def unshared_update)
  next
    case True
    consider "map_of event ''payload'' = None" | fs where "map_of event ''payload'' = Some (Val (JObj fs))"
      | w where "map_of event ''payload'' = Some (Val w)" "\<not> is_object w"
    proof (cases "map_of event ''payload''")
      case (Some s)
      with unshared_payload [OF u] obtain w where "map_of event ''payload'' = Some (Val w)" by (cases s) simp_all
      then show thesis using that by (cases w) simp_all
    qed (rule that)
    then show ?thesis
    proof cases
      case 1
      then show ?thesis using True u
        by (intro exI [of _ "Inr (AList.update ''payload'' (Val (JObj [(?k, ?v)])) event)"]) (simp add: assign_def unshared_update)
    next
      case 2
      then show ?thesis using True u
        by (intro exI [of _ "Inr (AList.update ''payload'' (Val (JObj (AList.update ?k ?v fs))) event)"]) (simp add: assign_def unshared_update)
    next
      case 3
      then show ?thesis using True
        by (intro exI [of _ "Inl SchemaRejected"]) (cases w, simp_all add: assign_def)
    qed
  qed
qed

lemma assign_threads': "threads (\<lambda>s x. assign t v s) x"
  using assign_threads [of "(t, v)"] by (simp add: threads_def)

lemma assign_default_threads: "\<not> (fst x = ''payload'' \<and> is_object (snd x)) \<Longrightarrow> threads assign_default x"
  using assign_threads [of x] by (cases x) (auto simp: threads_def assign_default_def)

lemma threads_Inl: "(\<And>s. f s x = Inl e) \<Longrightarrow> threads f x"
  unfolding threads_def by (intro allI impI exI [of _ "Inl e"]) simp

lemma assign_mapping_threads: "threads (assign_mapping row) m"
proof (cases "map_of row (cm_source m)")
  case None
  then show ?thesis by (intro threads_Inl) (simp add: assign_mapping_def)
next
  case (Some source)
  show ?thesis
  proof (cases "normalize_scalar (cm_target m) source")
    case (Inl e)
    with Some show ?thesis by (intro threads_Inl) (simp add: assign_mapping_def)
  next
    case (Inr v)
    with Some have "assign_mapping row s m = assign (cm_target m) v s" for s by (simp add: assign_mapping_def)
    with assign_threads' [of "cm_target m" v m] show ?thesis by (simp add: threads_def)
  qed
qed

lemma foldR_threads:
  assumes "\<forall>x\<in>set xs. threads f x" and "unshared event"
  shows "\<exists>r. (\<forall>store. foldR f (event, store) xs = bindR r (\<lambda>event'. Inr (event', store))) \<and> (\<forall>event'. r = Inr event' \<longrightarrow> unshared event')"
  using assms
proof (induction xs arbitrary: event)
  case Nil
  then show ?case by (intro exI [of _ "Inr event"]) simp
next
  case (Cons x xs)
  then obtain r where r: "\<And>store. f (event, store) x = bindR r (\<lambda>event'. Inr (event', store))" "\<And>event'. r = Inr event' \<Longrightarrow> unshared event'"
    by (auto simp: threads_def)
  show ?case
  proof (cases r)
    case (Inl e)
    then show ?thesis using r by (intro exI [of _ "Inl e"]) simp
  next
    case (Inr event')
    with r(2) Cons obtain r' where "\<forall>store. foldR f (event', store) xs = bindR r' (\<lambda>event'. Inr (event', store))"
      "\<forall>event'. r' = Inr event' \<longrightarrow> unshared event'" by (metis list.set_intros(2))
    with Inr r(1) show ?thesis by (intro exI [of _ r']) simp
  qed
qed

definition shares_payload :: "ImportDeclaration \<Rightarrow> bool" where
  "shares_payload d \<longleftrightarrow> (\<exists>x\<in>set (id_defaults d). fst x = ''payload'' \<and> is_object (snd x))"

lemma resolve_unshared: "unshared event \<Longrightarrow> resolve_draft store event = resolve_draft [] event"
  unfolding unshared_def resolve_draft_def by (rule map_cong) (auto split: slot.splits)

lemma normalize_event_threads:
  assumes "\<not> shares_payload d"
  obtains r where "\<And>store. normalize_event d store row = bindR r (\<lambda>event. Inr (event, store))"
    "\<And>event. r = Inr event \<Longrightarrow> unshared event"
proof -
  have "\<forall>x\<in>set (id_defaults d). threads assign_default x" using assms assign_default_threads by (auto simp: shares_payload_def)
  moreover have "unshared []" by (simp add: unshared_def)
  ultimately obtain r where r: "\<And>store. foldR assign_default ([], store) (id_defaults d) = bindR r (\<lambda>event'. Inr (event', store))"
    "\<And>event'. r = Inr event' \<Longrightarrow> unshared event'" using foldR_threads by metis
  show thesis
  proof (cases r)
    case (Inl e)
    with r show thesis by (intro that [of "Inl e"]) (simp_all add: normalize_event_def)
  next
    case (Inr event)
    obtain q where q: "\<And>store. foldR (assign_mapping row) (event, store) (id_mappings d) = bindR q (\<lambda>event'. Inr (event', store))"
      "\<And>event'. q = Inr event' \<Longrightarrow> unshared event'"
      using foldR_threads [of "id_mappings d" "assign_mapping row" event] assign_mapping_threads r(2) [OF Inr] by metis
    let ?q = "bindR q (\<lambda>event. bindR (require (set (map fst event) = set REQUIRED_TOP_LEVEL) SchemaRejected) (\<lambda>_. Inr event))"
    have "normalize_event d store row = bindR ?q (\<lambda>event. Inr (event, store))" for store
      unfolding normalize_event_def r(1) Inr bindR_simps q(1) by (cases q) (simp_all add: require_def)
    then show thesis using q(2) by (intro that [of ?q]) auto
  qed
qed

text \<open>One row on its own.\<close>

definition row_event :: "ImportDeclaration \<Rightarrow> (string \<times> cell) list \<Rightarrow> fields res" where
  "row_event d row = bindR (normalize_event d [] row) (\<lambda>(event, _). Inr (resolve_draft [] event))"

lemma normalize_events_rows:
  assumes "\<not> shares_payload d"
  shows "bindR (normalize_events d store rows) (\<lambda>(events, store). Inr (map (resolve_draft store) events, store)) =
    bindR (mapR (row_event d) rows) (\<lambda>events. Inr (events, store))"
proof (induction rows)
  case (Cons row rows)
  obtain r where r: "\<And>store. normalize_event d store row = bindR r (\<lambda>event. Inr (event, store))" "\<And>event. r = Inr event \<Longrightarrow> unshared event"
    using normalize_event_threads [OF assms] by blast
  have e: "row_event d row = bindR r (\<lambda>event. Inr (resolve_draft [] event))" by (cases r) (simp_all add: row_event_def r(1))
  show ?case
  proof (cases r)
    case (Inl x)
    then show ?thesis by (simp add: r(1) e)
  next
    case (Inr event)
    note u = resolve_unshared [OF r(2) [OF Inr]]
    show ?thesis
    proof (cases "normalize_events d store rows")
      case (Inl x)
      with Cons have "mapR (row_event d) rows = Inl x" by (cases "mapR (row_event d) rows") simp_all
      with Inl show ?thesis by (simp add: r(1) e \<open>r = Inr event\<close>)
    next
      case (Inr p)
      then obtain events st where p: "normalize_events d store rows = Inr (events, st)" by (cases p) simp
      have "bindR (mapR (row_event d) rows) (\<lambda>events. Inr (events, store)) = Inr (map (resolve_draft st) events, st)"
        unfolding Cons.IH [symmetric] p by simp
      then have "mapR (row_event d) rows = Inr (map (resolve_draft st) events)" "st = store" unfolding bindR_eq_Inr by blast+
      with p show ?thesis by (simp add: r(1) e \<open>r = Inr event\<close> u [of store])
    qed
  qed
qed simp

section \<open>Rows with a shared object\<close>

definition refers_shared :: "draft \<Rightarrow> bool" where
  "refers_shared event \<longleftrightarrow> map_of event ''payload'' = Some Shared"

lemma assign_keeps_shared:
  assumes "assign t v (event, store) = Inr (event', store')" and "t \<noteq> ''payload''" and "refers_shared event"
  shows "refers_shared event'"
  using assms by (auto simp: assign_def refers_shared_def split: if_splits)

lemma foldR_invariant:
  assumes "foldR f s xs = Inr s'" and "P s" and "\<And>s x s'. x \<in> set xs \<Longrightarrow> f s x = Inr s' \<Longrightarrow> P s \<Longrightarrow> P s'"
  shows "P s'"
  using assms
proof (induction xs arbitrary: s)
  case (Cons x xs)
  from Cons.prems(1) obtain s1 where s1: "f s x = Inr s1" "foldR f s1 xs = Inr s'" by auto
  have "P s1" using Cons.prems(2,3) s1(1) by (meson list.set_intros(1))
  then show ?case using Cons.IH [OF s1(2)] Cons.prems(3) by (meson list.set_intros(2))
qed simp

lemma declared_targets_distinct:
  assumes "declaration_check d = Inr d'"
  shows "distinct (map cm_target (id_mappings d) @ map fst (id_defaults d))"
  using assms unfolding declaration_check_def Let_def bindR_eq_Inr require_simps
  by (intro card_distinct) auto

lemma assign_default_shared:
  assumes "assign_default s x = Inr s'" and "fst x \<noteq> ''payload''" and "refers_shared (fst s)"
  shows "refers_shared (fst s')"
  using assms assign_keeps_shared [of "fst x" "snd x" "fst s" "snd s" "fst s'" "snd s'"]
  by (simp add: assign_default_def split_beta)

lemma assign_mapping_shared:
  assumes "assign_mapping row s m = Inr s'" and "cm_target m \<noteq> ''payload''" and "refers_shared (fst s)"
  shows "refers_shared (fst s')"
  using assms assign_keeps_shared [of "cm_target m" _ "fst s" "snd s" "fst s'" "snd s'"]
  by (auto simp: assign_mapping_def split: option.splits)

lemma normalize_event_shared:
  assumes "declaration_check d = Inr d'" and "shares_payload d" and "normalize_event d store row = Inr (event, store')"
  shows "refers_shared event"
proof -
  from assms(2) obtain xs ys v where d: "id_defaults d = xs @ (''payload'', v) # ys" "is_object v"
    unfolding shares_payload_def by (metis prod.collapse split_list)
  have targets: "''payload'' \<notin> fst ` set ys" "''payload'' \<notin> cm_target ` set (id_mappings d)"
    using declared_targets_distinct [OF assms(1)] unfolding d(1) by auto
  from assms(3) obtain s1 s2 where s1: "foldR assign_default ([], store) (id_defaults d) = Inr s1"
    and s2: "foldR (assign_mapping row) s1 (id_mappings d) = Inr s2" and event: "fst s2 = event"
    unfolding normalize_event_def bindR_eq_Inr by auto
  from s1 obtain s0 where s0: "foldR assign_default (AList.update ''payload'' Shared (fst s0), snd s0) ys = Inr s1"
    unfolding d(1) foldR_append using d(2) by (auto simp: assign_default_def)
  have start: "refers_shared (fst (AList.update ''payload'' Shared (fst s0), snd s0))" by (simp add: refers_shared_def)
  have "refers_shared (fst s1)"
    by (rule foldR_invariant [OF s0, where P = "\<lambda>s. refers_shared (fst s)", OF start])
      (use targets(1) in \<open>metis assign_default_shared image_eqI\<close>)
  then have "refers_shared (fst s2)"
    by (rule foldR_invariant [OF s2, where P = "\<lambda>s. refers_shared (fst s)"])
      (use targets(2) in \<open>metis assign_mapping_shared image_eqI\<close>)
  with event show ?thesis by simp
qed

lemma normalize_events_shared:
  assumes "declaration_check d = Inr d'" and "shares_payload d" and "normalize_events d store rows = Inr (events, store')"
  shows "\<forall>event\<in>set events. refers_shared event"
  using assms(3)
proof (induction rows arbitrary: store events)
  case (Cons row rows)
  then show ?case using normalize_event_shared [OF assms(1,2)] by fastforce
qed simp

lemma resolve_shared: "refers_shared event \<Longrightarrow> jget (resolve_draft store event) ''payload'' = JObj store"
  unfolding refers_shared_def resolve_draft_def jget_def by (simp add: map_of_map)

lemma rows_independent:
  assumes "\<not> shares_payload (ca_declaration a)" and "source_rows parquet_open a raw = Inr (columns, rows)"
    and "columns_declared (ca_declaration a) columns = Inr ()"
  shows "canonical_normalize parquet_open a chunk raw = mapR (row_event (ca_declaration a)) rows"
proof -
  let ?d = "ca_declaration a"
  have "canonical_normalize_from parquet_open a store raw = bindR (mapR (row_event ?d) rows) (\<lambda>events. Inr (events, store))" for store
    unfolding canonical_normalize_from_def assms(2,3) bindR_simps prod.case using normalize_events_rows [OF assms(1)] .
  then show ?thesis unfolding canonical_normalize_def by (cases "mapR (row_event ?d) rows") simp_all
qed

lemma shared_payload_collapses:
  assumes "declaration_check (ca_declaration a) = Inr d" and "shares_payload (ca_declaration a)"
    and "canonical_normalize parquet_open a chunk raw = Inr events"
  shows "\<forall>e\<in>set events. \<forall>e'\<in>set events. jget e ''payload'' = jget e' ''payload''"
proof -
  from assms(3) obtain rows drafts store where n: "normalize_events (ca_declaration a) (default_store (ca_declaration a)) rows = Inr (drafts, store)"
    and events: "events = map (resolve_draft store) drafts"
    unfolding canonical_normalize_def canonical_normalize_from_def bindR_eq_Inr by (auto split: prod.splits)
  from normalize_events_shared [OF assms(1,2) n] resolve_shared show ?thesis by (auto simp: events)
qed

section \<open>Properties\<close>

text \<open>C32: the rows of an import. For a checked declaration whose columns the file has: without an object default for
  \<^verbatim>\<open>payload\<close>, the events are exactly what each row gives on its own, errors included, so no row influences another; with
  such a default the adapter hands out one object, and all events of the file have the same payload, whatever their rows
  say.\<close>

theorem import_rows:
  assumes "declaration_check (ca_declaration a) = Inr d" and "source_rows parquet_open a raw = Inr (columns, rows)"
    and "columns_declared (ca_declaration a) columns = Inr ()"
  shows "(\<not> shares_payload (ca_declaration a) \<longrightarrow>
      canonical_normalize parquet_open a chunk raw = mapR (row_event (ca_declaration a)) rows) \<and>
    (shares_payload (ca_declaration a) \<longrightarrow> (\<forall>events. canonical_normalize parquet_open a chunk raw = Inr events \<longrightarrow>
      (\<forall>e\<in>set events. \<forall>e'\<in>set events. jget e ''payload'' = jget e' ''payload'')))"
  using rows_independent [OF _ assms(2,3)] shared_payload_collapses [OF assms(1)] by blast

section \<open>Witnesses\<close>

definition demo_import :: "(string \<times> json) list \<Rightarrow> ImportDeclaration" where
  "demo_import extra = \<lparr>id_format = CSV,
     id_mappings = [\<lparr>cm_source = ''t'', cm_target = ''ts_event_ns''\<rparr>, \<lparr>cm_source = ''p'', cm_target = ''payload.price_atoms''\<rparr>],
     id_defaults = extra @ [(''schema_version'', JStr ''1''), (''dataset_id'', JStr ''D''), (''instrument_id'', JStr ''I''), (''venue_id'', JStr ''V''),
       (''canonical_tie_breaker'', JStr ''0''), (''kind'', JStr ''TRADE''), (''quality_flags'', JList [])],
     id_capabilities = [], id_provenance = ''user'', id_redistribution_class = ''USER_LICENSED''\<rparr>"

definition demo_file :: "(string \<times> json) list \<Rightarrow> CanonicalFileAdapter" where
  "demo_file extra = \<lparr>ca_root = [], ca_source_path = [''f''], ca_declaration = demo_import extra,
     ca_limits = \<lparr>il_max_file_bytes = 1000, il_max_rows = 10, il_max_columns = 4, il_max_materialized_bytes = 1000\<rparr>\<rparr>"

definition demo_lines :: "string list list" where
  "demo_lines = [[''t'', ''p''], [''1'', ''10''], [''2'', ''20'']]"

definition demo_cells :: "(string \<times> cell) list list" where
  "demo_cells = [[(''t'', Scalar (JStr ''1'')), (''p'', Scalar (JStr ''10''))], [(''t'', Scalar (JStr ''2'')), (''p'', Scalar (JStr ''20''))]]"

definition demo_source :: bytes where
  "demo_source = utf8 (csv_text demo_lines)"

definition no_parquet :: "bytes \<Rightarrow> parquet_file res" where
  "no_parquet raw = Inl ValueError"

lemma demo_source_rows: "source_rows no_parquet (demo_file extra) demo_source = Inr ([''t'', ''p''], demo_cells)"
proof -
  have r: "csv_read (csv_text demo_lines) = map Inr demo_lines"
    by (rule csv_read_text) (simp add: demo_lines_def plain_field_def csv_newline_def csv_field_limit_def)
  have n: "length demo_source = 14" unfolding demo_source_def by code_simp
  have d: "utf8_decode demo_source = Inr (csv_text demo_lines)" by (simp add: demo_source_def)
  show ?thesis unfolding source_rows_def rows_csv_def demo_file_def demo_import_def
    by (simp add: d n r) (simp add: demo_lines_def dict_rows_def csv_cell_def demo_cells_def)
qed

lemma demo_columns: "columns_declared (ca_declaration (demo_file extra)) [''t'', ''p''] = Inr ()"
  by (simp add: columns_declared_def demo_file_def demo_import_def)

lemma demo_not_shared: "\<not> shares_payload (ca_declaration (demo_file []))"
  by (simp add: shares_payload_def demo_file_def demo_import_def)

definition demo_import_chunk :: FetchChunk where
  "demo_import_chunk = \<lparr>fc_key = ''canonical-file'', fc_source_ref = ''/f'', fc_expected_bytes = None, fc_estimated_cost_minor = 0\<rparr>"

lemma demo_rows: "map_sum id (map (\<lambda>e. jget e ''payload'')) (mapR (row_event (ca_declaration (demo_file []))) demo_cells) =
    Inr [JObj [(''price_atoms'', JStr ''10'')], JObj [(''price_atoms'', JStr ''20'')]]"
  by code_simp

abbreviation demo_shared :: CanonicalFileAdapter where
  "demo_shared \<equiv> demo_file [(''payload'', JObj [])]"

lemma demo_shared_facts:
  "declaration_check (ca_declaration demo_shared) = Inr (ca_declaration demo_shared)" "shares_payload (ca_declaration demo_shared)"
  "map_sum id (\<lambda>(events, store). map (\<lambda>e. jget (resolve_draft store e) ''payload'') events)
     (normalize_events (ca_declaration demo_shared) (default_store (ca_declaration demo_shared)) demo_cells) =
   Inr [JObj [(''price_atoms'', JStr ''20'')], JObj [(''price_atoms'', JStr ''20'')]]"
  by code_simp+

lemma demo_checked: "declaration_check (ca_declaration (demo_file [])) = Inr (ca_declaration (demo_file []))"
  by code_simp

lemma demo_shared_events:
  obtains e e' where "canonical_normalize no_parquet demo_shared demo_import_chunk demo_source = Inr [e, e']"
proof -
  from demo_shared_facts(3) obtain e e' store where
    "normalize_events (ca_declaration demo_shared) (default_store (ca_declaration demo_shared)) demo_cells = Inr ([e, e'], store)"
    by (cases "normalize_events (ca_declaration demo_shared) (default_store (ca_declaration demo_shared)) demo_cells") (auto simp: map_eq_Cons_conv)
  then show thesis
    by (intro that) (simp add: canonical_normalize_def canonical_normalize_from_def demo_source_rows demo_columns)
qed

theorem import_rows_witness:
  "map_sum id (map (\<lambda>e. jget e ''payload'')) (canonical_normalize no_parquet (demo_file []) demo_import_chunk demo_source) =
    Inr [JObj [(''price_atoms'', JStr ''10'')], JObj [(''price_atoms'', JStr ''20'')]] \<and>
   (\<exists>e e'. canonical_normalize no_parquet demo_shared demo_import_chunk demo_source = Inr [e, e'] \<and>
     jget e ''payload'' = jget e' ''payload'')"
proof
  have "canonical_normalize no_parquet (demo_file []) demo_import_chunk demo_source = mapR (row_event (ca_declaration (demo_file []))) demo_cells"
    using import_rows [OF demo_checked demo_source_rows demo_columns, of demo_import_chunk] demo_not_shared by blast
  then show "map_sum id (map (\<lambda>e. jget e ''payload'')) (canonical_normalize no_parquet (demo_file []) demo_import_chunk demo_source) =
    Inr [JObj [(''price_atoms'', JStr ''10'')], JObj [(''price_atoms'', JStr ''20'')]]" by (simp only: demo_rows)
  obtain e e' where n: "canonical_normalize no_parquet demo_shared demo_import_chunk demo_source = Inr [e, e']" by (rule demo_shared_events)
  have "jget e ''payload'' = jget e' ''payload''"
    using import_rows [OF demo_shared_facts(1) demo_source_rows demo_columns, of demo_import_chunk] demo_shared_facts(2) n
    by (meson list.set_intros)
  with n show "\<exists>e e'. canonical_normalize no_parquet demo_shared demo_import_chunk demo_source = Inr [e, e'] \<and>
     jget e ''payload'' = jget e' ''payload''" by blast
qed

end
