(* ===== verification/Spec2Isabelle.thy ===== *)
theory Spec2Isabelle
  imports Catalog Event_Store Session_Theorems Command_Theorems Replay_Theorems Market_Theorems Result_Theorems Quality_Theorems Ingest_Theorems Contract_Theorems Aggregate_Theorems Secret_Theorems Tardis_Theorems Binance_Theorems Canonical_File_Theorems
begin

text \<open>
  A verification library for the trading replay lab: a service that lets a user trade through a window of recorded
  market data without ever seeing beyond the simulated clock, proves afterwards that the window was drawn fairly, and a
  worker that builds the recorded data from providers.

  \<^bold>\<open>Parts of the program and how they interact.\<close> The ingest worker (\<^verbatim>\<open>workers/ingest\<close>) plans a job with a provider
  adapter, fetches and caches its chunks under a budget, normalizes them to canonical events and writes a content-hashed
  file; quality checks and bar aggregation read the events. The API (\<^verbatim>\<open>apps/api\<close>) registers such data sets as
  manifests in a coverage catalog, which says which windows a session may use. A session is created, committed to an
  eligible manifest and a ruleset, started, paused, advanced and completed by the session service; each step appends to
  a hash-chained event log in the database. An episode can be drawn in advance under a commitment that is opened when the
  session completes. Trading commands are validated, priced against the visible quote and appended with an idempotency
  key. The replay coordinator feeds the market source and the commands to the simulator up to the session clock and keeps
  checkpoints; the market service reads the source only up to the same clock. A completed session is frozen into a
  result whose hashes bind the ledger, the state and the commitment. The contract runtime (\<^verbatim>\<open>packages/contracts\<close>)
  validates the documents that cross these boundaries.

  \<^bold>\<open>Theories and sources.\<close> Paths are relative to \<^verbatim>\<open>src/apps/api/src/trading_replay_api\<close> unless another root is given.
  \<^item> \<open>Prelude\<close>: error codes, exceptions as values of \<open>exn\<close>, the outcome type \<open>'a res\<close> with \<open>bindR\<close>, \<open>require\<close>,
    \<open>catchR\<close>, integer ranges, shared list lemmas, and the locale \<open>write_once\<close> of stores that never replace a fact.
  \<^item> \<open>Text\<close>, \<open>Strings\<close>, \<open>Bytes\<close>, \<open>Sha256\<close>, \<open>Json\<close>, \<open>Base64\<close>, \<open>Csv\<close>, \<open>Decimals\<close>, \<open>Dates\<close>: the parts of the Python language and its
    library that the sources call: strings and \<^verbatim>\<open>int\<close>, UTF-8, \<^verbatim>\<open>int.to_bytes\<close> and \<^verbatim>\<open>struct\<close>, \<^verbatim>\<open>hashlib.sha256\<close> (with
    its test vectors), \<^verbatim>\<open>json.dumps\<close>, \<^verbatim>\<open>base64\<close>, \<^verbatim>\<open>csv\<close>, \<^verbatim>\<open>decimal\<close>, ISO dates and POSIX paths. SHA-256 is defined, not assumed: a binding theorem
    concludes with an explicit collision as the only alternative.
  \<^item> \<open>Catalog\<close> (\<^verbatim>\<open>catalog/model.py\<close>, \<^verbatim>\<open>catalog/service.py\<close>): manifests, gaps, segments, eligible windows and setups,
    registration and revocation.
  \<^item> \<open>Database\<close>, \<open>Event_Store\<close> (\<^verbatim>\<open>db/schema.py\<close>, \<^verbatim>\<open>db/store.py\<close>): tables as row lists with their constraints, the
    event chain, command append.
  \<^item> \<open>Session_Model\<close>, \<open>Sessions\<close>, with the proofs \<open>Session_Lifecycle\<close>, \<open>Session_Theorems\<close> (\<^verbatim>\<open>sessions/\<close>): one
    definition per service method, each a transaction \<open>db \<Rightarrow> (result \<times> db) res\<close>.
  \<^item> \<open>Auth\<close> (\<^verbatim>\<open>auth/\<close>), \<open>Commands\<close>, \<open>Command_Theorems\<close> (\<^verbatim>\<open>commands/\<close>).
  \<^item> \<open>Replay\<close>, \<open>Replay_Theorems\<close> (\<^verbatim>\<open>replay/\<close>) and \<open>Market\<close>, \<open>Market_Theorems\<close> (\<^verbatim>\<open>market/\<close>).
  \<^item> \<open>Commitments\<close>, \<open>Commitment_Theorems\<close> (\<^verbatim>\<open>commitments/\<close>), \<open>Results\<close>, \<open>Result_Theorems\<close> (\<^verbatim>\<open>results/\<close>), \<open>Secrets\<close>,
    \<open>Secret_Theorems\<close> (\<^verbatim>\<open>secrets/\<close>).
  \<^item> \<open>Ingest\<close>, \<open>Ingest_Theorems\<close> (\<^verbatim>\<open>core/\<close> of the worker), \<open>Quality\<close>, \<open>Quality_Theorems\<close> (\<^verbatim>\<open>quality/\<close>), \<open>Calendars\<close>,
    \<open>Aggregate\<close>, \<open>Aggregate_Theorems\<close> (\<^verbatim>\<open>calendars/\<close>, \<^verbatim>\<open>aggregate/\<close>), and the provider adapters \<open>Tardis\<close>, \<open>Binance\<close>, \<open>Canonical_File\<close> (\<^verbatim>\<open>adapters/\<close>) with their theorems and \<open>Providers\<close>, the contracts they meet.
  \<^item> \<open>Contracts\<close>, \<open>Contract_Theorems\<close> (\<^verbatim>\<open>packages/contracts/scripts/contract_runtime.py\<close> and the wire integers of the
    generated Python models).

  \<^bold>\<open>What is shown.\<close>
  \<^item> Sessions: the database service refines an abstract life cycle; every reachable database keeps its invariant;
    versions, clock and log only grow; a commit pins an eligible manifest; a stale version is refused; a running session
    can be completed; principals are isolated; the log is tamper evident.
  \<^item> Replay and market: no input later than the target reaches the simulator and no page shows an event beyond the
    clock; the batch loop terminates and equals a fold over the whole source; a resumed replay equals an uninterrupted
    one; checkpoints round trip; the page cache is transparent; candles equal a reference aggregation; blinded pages do
    not depend on the calendar date.
  \<^item> Commitments and results: commitments and results bind what they hash, up to a collision of SHA-256; the prepared
    selection verifies; the secret stays hidden until completion; the draw is unbiased; a finalized result is balanced
    and immutable.
  \<^item> Catalog and commands: eligible setups are exactly the windows the manifests cover; command retries are stable.
  \<^item> Ingest: a job that was interrupted any number of times writes the same file as one run; with enough budget it
    completes; the budget is never exceeded; the file is canonical and sorted; quality reports are exact; bars are the
    runs of trades of a bucket and buckets do not overlap; the vault refines a map.
  \<^item> Adapters: a daily plan has one permitted object per UTC day of the request; capabilities claim what every day permits;
    provider decimals are exact up to 28 digits; the incremental book never shows an update before a snapshot and loses
    none after it; a published archive of trades is ingested exactly and a pinned one cannot change; rows of an import are
    independent unless they share a default object; the jobs of all three adapters can be resumed.
  \<^item> Contracts: every order the command service prepares is a valid contract document, under the two conditions that the
    service does not check; an accepted document has typed numbers throughout.

  \<^bold>\<open>Interfaces as locales.\<close> \<open>prefix_code\<close> (self-delimiting encodings, interpreted for every hashed structure),
  \<open>hash_chain\<close> and \<open>bound_chain\<close> (event logs), \<open>write_once\<close> (manifests, revocations), \<open>canonical_decimal\<close> (decimal
  readers), \<open>json_escape\<close> (the two JSON encoders), \<open>identity_provider\<close> (authenticators), \<open>quote_provider\<close> (what commands
  need of the market service), \<open>content_addressed\<close> (the ingest cache), \<open>bucketing\<close> and \<open>partition\<close> (calendars), \<open>daily_planner\<close> and \<open>keyed_provider\<close> (provider adapters).
  Each is interpreted on the definitions of the component that provides it, and the properties use the interpreted facts.

  \<^bold>\<open>Loops.\<close> The replay loop and the candle loop read a source that need not end; they are \<open>partial_function (option)\<close> and
  the theorems show that they return. The draw loop, the search for a year and the search for a period of sessions
  terminate by a measure. Every other loop is structural recursion; no fuel is used.

  \<^bold>\<open>Abstractions.\<close> Strings are sequences of code points up to 255, and decoding treats longer UTF-8 sequences as
  invalid. Transactions are serial, as the row locks of the sources make them, and a failed one leaves the database
  unchanged; column lengths are not represented. A stored JSON text is kept with the value it denotes. Error messages are
  not modelled except where a report quotes them. The AES-GCM cipher, entropy and nonces, the market source, the
  simulator, the time zone database, HTTP, gzip, ZIP and Parquet libraries and the file system of an import are parameters; what the code relies on is stated as
  hypotheses of the properties that need it, and their witnesses instantiate them.

  \<^bold>\<open>Not modelled.\<close> \<^verbatim>\<open>main.py\<close> and \<^verbatim>\<open>catalog/schema.py\<close> (application wiring and table declarations without code that
  uses them), FastAPI's own request validation, \<^verbatim>\<open>redact_url\<close> (it only calls \<^verbatim>\<open>urllib\<close>), the worker's command line,
   the code generators, schema compatibility checks and fixture generator of \<^verbatim>\<open>packages/contracts\<close> and
  \<^verbatim>\<open>tools\<close>, and the repository policy scripts: they are glue or build-time tooling around files, subprocesses and third
  party libraries. The simulator core is written in another language and is a parameter here.
\<close>

section \<open>Properties that span components\<close>

text \<open>The jobs of every provider adapter can be resumed: the adapters meet \<open>keyed_provider\<close>, so the runner's guarantee
  needs no assumption on their plans.\<close>

lemma provider_jobs_resume:
  assumes "p = tardis_adapter gunzip t \<or> p = binance_adapter zip_open b \<or> p = canonical_adapter fy parquet_open f"
    and "apart runner out man" and "job_id_of request = Inr job" and "fs (state_path (ir_state runner) job) = None"
    and "\<forall>(a, g)\<in>set ((a, g) # attempts). serves a p"
    and "run_job runner a request out man
      \<lparr>w_files = after_attempts runner request out man attempts fs, w_budget = g\<rparr> = (Inr result, w')"
  shows "\<exists>body manifest. job_outcome p request = Inr (result, body, manifest) \<and>
    w_files w' out = Some body \<and> w_files w' man = Some manifest"
  using assms(1)
proof (elim disjE)
  assume p: "p = tardis_adapter gunzip t"
  show ?thesis unfolding p by (rule tardis_provider.resume [OF assms(2-6) [unfolded p]])
next
  assume p: "p = binance_adapter zip_open b"
  show ?thesis unfolding p by (rule binance_provider.resume [OF assms(2-6) [unfolded p]])
next
  assume p: "p = canonical_adapter fy parquet_open f"
  show ?thesis unfolding p by (rule canonical_provider.resume [OF assms(2-6) [unfolded p]])
qed



end
